(* ===== verification/Go_Prelude.thy ===== *)
theory Go_Prelude
  imports Complex_Main "HOL-Library.AList" "HOL-Library.Multiset"
begin

text \<open>
  What every component of the development shares: the parts of Go the program is written in.

  \<^item> \<open>f64\<close>: Go's \<open>float64\<close> with its special values.  The finite values are the reals (rounding
    and overflow to infinity are idealised away, and there is one zero), but NaN, the two
    infinities, division by zero and the comparisons that are false on NaN are those of the
    language, so a guard such as \<open>x <= 0\<close> lets a NaN through here exactly when it does in Go.
  \<^item> \<open>gotime\<close>: \<open>time.Time\<close> as nanoseconds since the zero time (1 January of year 1, UTC), so
    \<open>IsZero\<close> and \<open>Truncate\<close> are the library's; durations are \<open>int64\<close> nanoseconds with the
    wrap-around of \<open>*\<close> and the saturation of \<open>Sub\<close> written out.
  \<^item> \<open>gomap\<close>: a Go map as an association list.  The list order stands for one iteration
    order of \<open>range\<close>; operations whose result depends on that order take it from the list,
    and the properties hold for every list.
  \<^item> \<open>sort_by\<close>: \<open>sort.SliceStable\<close> for a comparison function.

  The interfaces the components rely on are the locales \<open>go_map\<close> and \<open>stable_sorter\<close>.
\<close>

named_theorems f64_eval \<open>evaluation of float64 literals, operations and comparisons\<close>
named_theorems go_time \<open>unfolding of time and duration operations\<close>

section \<open>float64\<close>

datatype f64 = Fin real | PInf | NInf | NaN

instantiation f64 :: "{zero, one, plus, uminus, abs, ord}"
begin

definition zero_f64 :: f64 where "zero_f64 = Fin 0"

definition one_f64 :: f64 where "one_f64 = Fin 1"

fun plus_f64 :: "f64 \<Rightarrow> f64 \<Rightarrow> f64" where
  "plus_f64 (Fin a) (Fin b) = Fin (a + b)"
| "plus_f64 NaN _ = NaN"
| "plus_f64 _ NaN = NaN"
| "plus_f64 PInf NInf = NaN"
| "plus_f64 NInf PInf = NaN"
| "plus_f64 PInf _ = PInf"
| "plus_f64 _ PInf = PInf"
| "plus_f64 NInf _ = NInf"
| "plus_f64 _ NInf = NInf"

fun uminus_f64 :: "f64 \<Rightarrow> f64" where
  "uminus_f64 (Fin a) = Fin (- a)"
| "uminus_f64 PInf = NInf"
| "uminus_f64 NInf = PInf"
| "uminus_f64 NaN = NaN"

fun abs_f64 :: "f64 \<Rightarrow> f64" where
  "abs_f64 (Fin a) = Fin \<bar>a\<bar>"
| "abs_f64 NaN = NaN"
| "abs_f64 _ = PInf"

fun less_f64 :: "f64 \<Rightarrow> f64 \<Rightarrow> bool" where
  "less_f64 (Fin a) (Fin b) = (a < b)"
| "less_f64 (Fin _) PInf = True"
| "less_f64 NInf (Fin _) = True"
| "less_f64 NInf PInf = True"
| "less_f64 _ _ = False"

fun less_eq_f64 :: "f64 \<Rightarrow> f64 \<Rightarrow> bool" where
  "less_eq_f64 (Fin a) (Fin b) = (a \<le> b)"
| "less_eq_f64 NaN _ = False"
| "less_eq_f64 _ NaN = False"
| "less_eq_f64 NInf _ = True"
| "less_eq_f64 _ PInf = True"
| "less_eq_f64 _ _ = False"

instance ..

end

fun scale_inf :: "real \<Rightarrow> f64 \<Rightarrow> f64" where
  "scale_inf a x = (if a = 0 then NaN else if 0 < a then x else - x)"

instantiation f64 :: "{minus, times, inverse}"
begin

definition minus_f64 :: "f64 \<Rightarrow> f64 \<Rightarrow> f64" where
  "minus_f64 (a::f64) b = a + - b"

fun times_f64 :: "f64 \<Rightarrow> f64 \<Rightarrow> f64" where
  "times_f64 (Fin a) (Fin b) = Fin (a * b)"
| "times_f64 NaN _ = NaN"
| "times_f64 _ NaN = NaN"
| "times_f64 (Fin a) x = scale_inf a x"
| "times_f64 x (Fin b) = scale_inf b x"
| "times_f64 PInf x = x"
| "times_f64 NInf x = - x"

fun divide_f64 :: "f64 \<Rightarrow> f64 \<Rightarrow> f64" where
  "divide_f64 (Fin a) (Fin b) =
     (if b \<noteq> 0 then Fin (a / b) else if a = 0 then NaN else if 0 < a then PInf else NInf)"
| "divide_f64 NaN _ = NaN"
| "divide_f64 _ NaN = NaN"
| "divide_f64 (Fin _) _ = Fin 0"
| "divide_f64 x (Fin b) = (if 0 \<le> b then x else - x)"
| "divide_f64 _ _ = NaN"

definition inverse_f64 :: "f64 \<Rightarrow> f64" where
  "inverse_f64 x = Fin 1 div x"

instance ..

end

text \<open>Addition is a commutative monoid (exact sums), which gives numerals and order-free sums.\<close>

lemma plus_f64_swap: "y + x = x + (y :: f64)"
  by (cases x; cases y) simp_all

lemma plus_f64_assoc: "x + y + z = x + (y + (z :: f64))"
  by (cases x; cases y; cases z) simp_all

lemma plus_f64_zero: "Fin 0 + x = x"
  by (cases x) simp_all

instance f64 :: comm_monoid_add
  by standard (rule plus_f64_assoc plus_f64_swap plus_f64_zero [folded zero_f64_def])+

instance f64 :: numeral ..

lemma numeral_f64 [f64_eval]: "(numeral n :: f64) = Fin (numeral n)"
proof (induction n)
  case One
  show ?case by (simp add: one_f64_def)
next
  case (Bit0 n)
  have "(numeral (num.Bit0 n) :: f64) = numeral n + numeral n" by (rule numeral_Bit0)
  then show ?case using Bit0 by (simp only: plus_f64.simps numeral_Bit0)
next
  case (Bit1 n)
  have "(numeral (num.Bit1 n) :: f64) = numeral n + numeral n + 1" by (rule numeral_Bit1)
  then show ?case using Bit1 by (simp only: one_f64_def plus_f64.simps numeral_Bit1)
qed

declare zero_f64_def [f64_eval] one_f64_def [f64_eval] minus_f64_def [f64_eval]

lemma minus_Fin [simp]: "Fin a - Fin b = Fin (a - b)"
  by (simp add: minus_f64_def)

definition feq :: "f64 \<Rightarrow> f64 \<Rightarrow> bool" where
  \<comment> \<open>Go's \<open>==\<close>: NaN is not equal to itself\<close>
  "feq a b \<longleftrightarrow> a = b \<and> a \<noteq> NaN"

lemma feq_Fin [simp, f64_eval]: "feq (Fin a) (Fin b) \<longleftrightarrow> a = b"
  by (simp add: feq_def)

definition isfin :: "f64 \<Rightarrow> bool" where
  "isfin x \<longleftrightarrow> (case x of Fin _ \<Rightarrow> True | _ \<Rightarrow> False)"

definition rval :: "f64 \<Rightarrow> real" where
  "rval x = (case x of Fin a \<Rightarrow> a | _ \<Rightarrow> 0)"

lemma isfin_simps [simp]: "isfin (Fin a)" "\<not> isfin PInf" "\<not> isfin NInf" "\<not> isfin NaN"
  by (simp_all add: isfin_def)

lemma rval_Fin [simp]: "rval (Fin a) = a"
  by (simp add: rval_def)

lemma isfinE [elim]: "isfin x \<Longrightarrow> (\<And>a. x = Fin a \<Longrightarrow> P) \<Longrightarrow> P"
  by (cases x) auto

lemma isfin_iff: "isfin x \<longleftrightarrow> (\<exists>a. x = Fin a)"
  by (cases x) auto

lemma Fin_rval: "isfin x \<Longrightarrow> Fin (rval x) = x"
  by (cases x) auto

lemma isfin_numeral [simp]: "isfin 0" "isfin 1" "isfin (numeral n)"
  by (simp_all add: f64_eval)

lemma rval_numeral [simp]: "rval 0 = 0" "rval 1 = 1" "rval (numeral n) = numeral n"
  by (simp_all add: f64_eval)

text \<open>Finite arithmetic: the operations of finite values, read as reals.\<close>

lemma isfin_arith [simp]:
  "isfin x \<Longrightarrow> isfin y \<Longrightarrow> isfin (x + y)"
  "isfin x \<Longrightarrow> isfin y \<Longrightarrow> isfin (x - y)"
  "isfin x \<Longrightarrow> isfin y \<Longrightarrow> isfin (x * y)"
  "isfin x \<Longrightarrow> isfin y \<Longrightarrow> rval y \<noteq> 0 \<Longrightarrow> isfin (x / y)"
  "isfin x \<Longrightarrow> isfin (- x)"
  by (auto elim!: isfinE)

lemma rval_arith [simp]:
  "isfin x \<Longrightarrow> isfin y \<Longrightarrow> rval (x + y) = rval x + rval y"
  "isfin x \<Longrightarrow> isfin y \<Longrightarrow> rval (x - y) = rval x - rval y"
  "isfin x \<Longrightarrow> isfin y \<Longrightarrow> rval (x * y) = rval x * rval y"
  "isfin x \<Longrightarrow> isfin y \<Longrightarrow> rval y \<noteq> 0 \<Longrightarrow> rval (x / y) = rval x / rval y"
  "isfin x \<Longrightarrow> rval \<bar>x\<bar> = \<bar>rval x\<bar>"
  "isfin x \<Longrightarrow> rval (- x) = - rval x"
  by (auto elim!: isfinE)

lemma isfin_abs_iff [simp]: "isfin \<bar>x\<bar> \<longleftrightarrow> isfin x"
  by (cases x) auto

lemma isfin_order:
  "isfin x \<Longrightarrow> isfin y \<Longrightarrow> x < y \<longleftrightarrow> rval x < rval y"
  "isfin x \<Longrightarrow> isfin y \<Longrightarrow> x \<le> y \<longleftrightarrow> rval x \<le> rval y"
  "isfin x \<Longrightarrow> isfin y \<Longrightarrow> feq x y \<longleftrightarrow> rval x = rval y"
  by (auto elim!: isfinE)

lemma f64_zero [simp]: "x + Fin 0 = x" "Fin 0 + x = x" "x - 0 = x"
  by (cases x; simp add: f64_eval)+

lemma f64_less_irrefl [simp]: "\<not> (x::f64) < x"
  by (cases x) auto

lemma f64_le_refl [simp]: "(x::f64) \<le> x \<longleftrightarrow> x \<noteq> NaN"
  by (cases x) auto

lemma f64_less_asym: "(x::f64) < y \<Longrightarrow> \<not> y < x"
  by (cases x; cases y) auto

lemma f64_less_trans: "(x::f64) < y \<Longrightarrow> y < z \<Longrightarrow> x < z"
  by (cases x; cases y; cases z) auto

lemma f64_less_imp_le: "(x::f64) < y \<Longrightarrow> x \<le> y"
  by (cases x; cases y) auto

lemma f64_le_trans: "(x::f64) \<le> y \<Longrightarrow> y \<le> z \<Longrightarrow> x \<le> z"
  by (cases x; cases y; cases z) auto

lemma f64_not_less: "x \<noteq> NaN \<Longrightarrow> y \<noteq> NaN \<Longrightarrow> \<not> (x::f64) < y \<longleftrightarrow> y \<le> x"
  by (cases x; cases y) auto

lemma f64_not_le: "x \<noteq> NaN \<Longrightarrow> y \<noteq> NaN \<Longrightarrow> \<not> (x::f64) \<le> y \<longleftrightarrow> y < x"
  by (cases x; cases y) auto

text \<open>\<open>math.Max\<close>, \<open>math.Min\<close>, \<open>math.Sqrt\<close>, \<open>math.Log1p\<close> and \<open>math.Round\<close>.\<close>

definition math_Max :: "f64 \<Rightarrow> f64 \<Rightarrow> f64" where
  "math_Max x y =
     (if x = PInf \<or> y = PInf then PInf
      else if x = NaN \<or> y = NaN then NaN
      else if y < x then x else y)"

definition math_Min :: "f64 \<Rightarrow> f64 \<Rightarrow> f64" where
  "math_Min x y =
     (if x = NInf \<or> y = NInf then NInf
      else if x = NaN \<or> y = NaN then NaN
      else if x < y then x else y)"

definition math_Sqrt :: "f64 \<Rightarrow> f64" where
  "math_Sqrt x = (case x of Fin a \<Rightarrow> (if a < 0 then NaN else Fin (sqrt a)) | PInf \<Rightarrow> PInf | _ \<Rightarrow> NaN)"

definition math_Log1p :: "f64 \<Rightarrow> f64" where
  "math_Log1p x =
     (case x of
        Fin a \<Rightarrow> (if a < - 1 then NaN else if a = - 1 then NInf else Fin (ln (1 + a)))
      | PInf \<Rightarrow> PInf | _ \<Rightarrow> NaN)"

definition math_Round :: "f64 \<Rightarrow> f64" where
  \<comment> \<open>half away from zero\<close>
  "math_Round x =
     (case x of
        Fin a \<Rightarrow> Fin (of_int (if 0 \<le> a then \<lfloor>a + 1 / 2\<rfloor> else - \<lfloor>- a + 1 / 2\<rfloor>))
      | _ \<Rightarrow> x)"

lemma math_Max_Fin [simp]: "math_Max (Fin a) (Fin b) = Fin (max a b)"
  by (simp add: math_Max_def)

lemma math_Min_Fin [simp]: "math_Min (Fin a) (Fin b) = Fin (min a b)"
  by (simp add: math_Min_def)

definition of_len :: "nat \<Rightarrow> f64" where
  \<comment> \<open>the conversion \<open>float64(n)\<close> of a length or count\<close>
  "of_len n = Fin (real n)"

definition of_int_f64 :: "int \<Rightarrow> f64" where
  "of_int_f64 n = Fin (real_of_int n)"

definition fsum :: "f64 list \<Rightarrow> f64" where
  \<comment> \<open>the accumulation loop \<open>for x in xs: s += x\<close> from zero\<close>
  "fsum xs = foldl (+) 0 xs"

lemma foldl_plus_f64: "foldl (+) (s :: f64) xs = s + fsum xs"
proof (induction xs arbitrary: s)
  case Nil
  show ?case by (simp add: fsum_def)
next
  case (Cons x xs)
  have "foldl (+) s (x # xs) = (s + x) + fsum xs" using Cons by simp
  also have "\<dots> = s + foldl (+) (0 + x) xs" using Cons by (simp add: add.assoc)
  finally show ?case by (simp add: fsum_def)
qed

lemma fsum_simps [simp]: "fsum [] = 0" "fsum (x # xs) = x + fsum xs"
  using foldl_plus_f64 [of "0 + x" xs] by (simp_all add: fsum_def)

lemma fsum_append [simp]: "fsum (xs @ ys) = fsum xs + fsum ys"
  by (induction xs) (simp_all add: add.assoc)

lemma fsum_mset: "mset xs = mset ys \<Longrightarrow> fsum xs = fsum ys"
proof -
  have "fsum zs = sum_mset (mset zs)" for zs by (induction zs) simp_all
  then show "mset xs = mset ys \<Longrightarrow> fsum xs = fsum ys" by simp
qed

lemma isfin_fsum: "\<forall>x \<in> set xs. isfin x \<Longrightarrow> isfin (fsum xs)"
  by (induction xs) auto

lemma rval_fsum: "\<forall>x \<in> set xs. isfin x \<Longrightarrow> rval (fsum xs) = sum_list (map rval xs)"
  by (induction xs) (auto simp: isfin_fsum)

end
