(* ===== verification/Go_Collections.thy ===== *)
theory Go_Collections
  imports Go_Prelude
begin

text \<open>
  Time, integers at their width, maps and stable sorting.  The contracts of the two containers
  are the locales \<open>go_map\<close> (lookup after store and delete, the key list is the domain) and
  \<open>stable_sorter\<close> (permutation, order, stability); both are interpreted here on the
  association lists and the insertion sort the models run.
\<close>

section \<open>Integers and time\<close>

definition wrap64 :: "int \<Rightarrow> int" where
  \<comment> \<open>\<open>int64\<close> arithmetic wraps\<close>
  "wrap64 n = (n + 2 ^ 63) mod 2 ^ 64 - 2 ^ 63"

lemma wrap64_id: "- (2 ^ 63) \<le> n \<Longrightarrow> n < 2 ^ 63 \<Longrightarrow> wrap64 n = n"
  by (simp add: wrap64_def)

lemma wrap64_range: "- (2 ^ 63) \<le> wrap64 n \<and> wrap64 n < 2 ^ 63"
  by (simp add: wrap64_def)

type_synonym gotime = int
type_synonym duration = int

definition nanosecond :: duration where [go_time]: "nanosecond = 1"
definition millisecond :: duration where [go_time]: "millisecond = 1000000"
definition second :: duration where [go_time]: "second = 1000000000"
definition minute :: duration where [go_time]: "minute = 60000000000"
definition hour :: duration where [go_time]: "hour = 3600000000000"

definition IsZero :: "gotime \<Rightarrow> bool" where [go_time]: "IsZero t \<longleftrightarrow> t = 0"

definition time_Add :: "gotime \<Rightarrow> duration \<Rightarrow> gotime" where [go_time]: "time_Add t d = t + d"

definition time_Sub :: "gotime \<Rightarrow> gotime \<Rightarrow> duration" where
  \<comment> \<open>\<open>t.Sub(u)\<close> saturates at the ends of \<open>int64\<close>\<close>
  "time_Sub t u = max (- (2 ^ 63)) (min (2 ^ 63 - 1) (t - u))"

definition Truncate :: "gotime \<Rightarrow> duration \<Rightarrow> gotime" where
  "Truncate t d = (if d \<le> 0 then t else t - t mod d)"

definition dur_mul :: "duration \<Rightarrow> duration \<Rightarrow> duration" where
  \<comment> \<open>\<open>time.Duration(n) * unit\<close>\<close>
  "dur_mul n d = wrap64 (n * d)"

definition Unix :: "gotime \<Rightarrow> int" where
  "Unix t = t div 1000000000 - 62135596800"

definition Hours :: "duration \<Rightarrow> f64" where
  "Hours d = Fin (real_of_int d / 3600000000000)"

definition Seconds :: "duration \<Rightarrow> f64" where
  "Seconds d = Fin (real_of_int d / 1000000000)"

lemma Truncate_le: "Truncate t d \<le> t"
  by (simp add: Truncate_def)

lemma Truncate_Truncate [simp]: "Truncate (Truncate t d) d = Truncate t d"
  by (simp add: Truncate_def minus_mod_eq_mult_div)

lemma Truncate_mono: "s \<le> t \<Longrightarrow> Truncate s d \<le> Truncate t d"
  by (auto simp: Truncate_def minus_mod_eq_mult_div intro: mult_left_mono zdiv_mono1)

section \<open>Maps\<close>

type_synonym ('k, 'v) gomap = "('k \<times> 'v) list"

abbreviation go_get :: "('k, 'v) gomap \<Rightarrow> 'k \<Rightarrow> 'v option" where
  "go_get \<equiv> map_of"

abbreviation go_put :: "'k \<Rightarrow> 'v \<Rightarrow> ('k, 'v) gomap \<Rightarrow> ('k, 'v) gomap" where
  "go_put \<equiv> AList.update"

abbreviation go_del :: "'k \<Rightarrow> ('k, 'v) gomap \<Rightarrow> ('k, 'v) gomap" where
  "go_del \<equiv> AList.delete"

abbreviation go_keys :: "('k, 'v) gomap \<Rightarrow> 'k list" where
  "go_keys m \<equiv> map fst m"

abbreviation go_wf :: "('k, 'v) gomap \<Rightarrow> bool" where
  "go_wf m \<equiv> distinct (map fst m)"

definition go_has :: "('k, 'v) gomap \<Rightarrow> 'k \<Rightarrow> bool" where
  "go_has m k \<longleftrightarrow> go_get m k \<noteq> None"

definition get_or :: "'v \<Rightarrow> ('k, 'v) gomap \<Rightarrow> 'k \<Rightarrow> 'v" where
  \<comment> \<open>\<open>m[k]\<close>: the zero value when the key is absent\<close>
  "get_or z m k = (case go_get m k of None \<Rightarrow> z | Some v \<Rightarrow> v)"

locale go_map =
  fixes emp :: 'm
    and get :: "'m \<Rightarrow> 'k \<Rightarrow> 'v option"
    and put :: "'k \<Rightarrow> 'v \<Rightarrow> 'm \<Rightarrow> 'm"
    and del :: "'k \<Rightarrow> 'm \<Rightarrow> 'm"
    and keys :: "'m \<Rightarrow> 'k list"
    and wf :: "'m \<Rightarrow> bool"
  assumes get_emp: "get emp k = None"
    and get_put: "get (put k v m) k' = (if k' = k then Some v else get m k')"
    and get_del: "get (del k m) k' = (if k' = k then None else get m k')"
    and wf_emp: "wf emp"
    and wf_put: "wf m \<Longrightarrow> wf (put k v m)"
    and wf_del: "wf m \<Longrightarrow> wf (del k m)"
    and keys_dom: "set (keys m) = dom (get m)"
    and keys_distinct: "wf m \<Longrightarrow> distinct (keys m)"
begin

lemma dom_put: "dom (get (put k v m)) = insert k (dom (get m))"
  by (auto simp: get_put dom_def split: if_splits)

lemma dom_del: "dom (get (del k m)) = dom (get m) - {k}"
  by (auto simp: get_del dom_def split: if_splits)

lemma finite_dom: "finite (dom (get m))"
  by (metis List.finite_set keys_dom)

lemma card_keys: "wf m \<Longrightarrow> length (keys m) = card (dom (get m))"
  using keys_dom keys_distinct by (metis distinct_card)

lemma len_put:
  "wf m \<Longrightarrow> length (keys (put k v m)) =
     (if get m k = None then Suc (length (keys m)) else length (keys m))"
  by (simp add: card_keys wf_put dom_put finite_dom card_insert_if domIff)

lemma len_del:
  "wf m \<Longrightarrow> length (keys (del k m)) =
     (if get m k = None then length (keys m) else length (keys m) - 1)"
  by (simp add: card_keys wf_del dom_del finite_dom domIff card_Diff_singleton_if)

lemma len_del_le: "wf m \<Longrightarrow> length (keys (del k m)) \<le> length (keys m)"
  by (simp add: len_del)

lemma put_del: "get (put k v (del k m)) = get (put k v m)"
  by (auto simp: get_put get_del fun_eq_iff)

end

interpretation gmap: go_map "[]" go_get go_put go_del go_keys go_wf
proof unfold_locales
  show "go_get (go_put k v m) k' = (if k' = k then Some v else go_get m k')"
    for k k' :: 'a and v :: 'b and m by (simp add: update_conv')
  show "go_get (go_del k m) k' = (if k' = k then None else go_get m k')"
    for k k' :: 'a and m :: "('a \<times> 'b) list" by (simp add: delete_conv')
  show "go_wf m \<Longrightarrow> go_wf (go_put k v m)" for k :: 'a and v :: 'b and m
    by (rule distinct_update)
  show "go_wf m \<Longrightarrow> go_wf (go_del k m)" for k :: 'a and m :: "('a \<times> 'b) list"
    by (rule distinct_delete)
  show "set (go_keys m) = dom (go_get m)" for m :: "('a \<times> 'b) list"
    by (simp add: dom_map_of_conv_image_fst)
qed simp_all

lemma go_put_fresh: "go_get m k = None \<Longrightarrow> go_put k v m = m @ [(k, v)]"
  by (induction m) (auto split: if_splits)

lemma go_put_present: "go_get m k \<noteq> None \<Longrightarrow> go_keys (go_put k v m) = go_keys m"
  by (induction m) (auto split: if_splits)

lemma go_del_filter: "go_del k m = filter (\<lambda>p. fst p \<noteq> k) m"
  unfolding AList.delete_eq by (rule filter_cong) auto

lemma go_get_wf: "go_wf m \<Longrightarrow> go_get m k = Some v \<longleftrightarrow> (k, v) \<in> set m"
  by (rule map_of_eq_Some_iff)

lemma go_del_absent: "go_get m k = None \<Longrightarrow> go_del k m = m"
  by (simp add: map_of_eq_None_iff delete_id)

lemma set_go_del: "set (go_del k m) \<subseteq> set m"
  by (auto simp: go_del_filter)

text \<open>A sum over a map splits at a key, whatever the iteration order.\<close>

lemma fsum_go_del:
  "go_wf m \<Longrightarrow> go_get m k = Some v \<Longrightarrow>
   fsum (map (f \<circ> snd) m) = f v + fsum (map (f \<circ> snd) (go_del k m))"
proof (induction m)
  case Nil
  then show ?case by simp
next
  case (Cons p m)
  show ?case
  proof (cases "fst p = k")
    case True
    with Cons.prems have "go_get m k = None" by (auto simp: map_of_eq_None_iff)
    with True Cons.prems show ?thesis by (simp add: go_del_absent)
  next
    case False
    with Cons show ?thesis by (simp add: add.left_commute)
  qed
qed

section \<open>Stable sorting\<close>

fun ins_by :: "('a \<Rightarrow> 'a \<Rightarrow> bool) \<Rightarrow> 'a \<Rightarrow> 'a list \<Rightarrow> 'a list" where
  "ins_by lt x [] = [x]"
| "ins_by lt x (y # ys) = (if lt y x then y # ins_by lt x ys else x # y # ys)"

definition sort_by :: "('a \<Rightarrow> 'a \<Rightarrow> bool) \<Rightarrow> 'a list \<Rightarrow> 'a list" where
  \<comment> \<open>\<open>sort.SliceStable(xs, less)\<close>\<close>
  "sort_by lt xs = foldr (ins_by lt) xs []"

lemma sort_by_simps [simp]:
  "sort_by lt [] = []" "sort_by lt (x # xs) = ins_by lt x (sort_by lt xs)"
  by (simp_all add: sort_by_def)

definition swo_on :: "('a \<Rightarrow> 'a \<Rightarrow> bool) \<Rightarrow> 'a set \<Rightarrow> bool" where
  \<comment> \<open>a strict weak order on a set, what \<open>sort\<close> asks of its comparison\<close>
  "swo_on lt A \<longleftrightarrow>
     (\<forall>x\<in>A. \<forall>y\<in>A. lt x y \<longrightarrow> \<not> lt y x) \<and>
     (\<forall>x\<in>A. \<forall>y\<in>A. \<forall>z\<in>A. \<not> lt x y \<longrightarrow> \<not> lt y z \<longrightarrow> \<not> lt x z)"

lemma swo_on_subset: "swo_on lt B \<Longrightarrow> A \<subseteq> B \<Longrightarrow> swo_on lt A"
  unfolding swo_on_def by (meson subsetD)

lemma swo_asym: "swo_on lt A \<Longrightarrow> x \<in> A \<Longrightarrow> y \<in> A \<Longrightarrow> lt x y \<Longrightarrow> \<not> lt y x"
  unfolding swo_on_def by blast

lemma swo_negtrans:
  "swo_on lt A \<Longrightarrow> x \<in> A \<Longrightarrow> y \<in> A \<Longrightarrow> z \<in> A \<Longrightarrow> \<not> lt x y \<Longrightarrow> \<not> lt y z \<Longrightarrow> \<not> lt x z"
  unfolding swo_on_def by blast

locale stable_sorter =
  fixes srt :: "('a \<Rightarrow> 'a \<Rightarrow> bool) \<Rightarrow> 'a list \<Rightarrow> 'a list"
  assumes perm: "mset (srt lt xs) = mset xs"
    and ordered: "swo_on lt (set xs) \<Longrightarrow> sorted_wrt (\<lambda>a b. \<not> lt b a) (srt lt xs)"
    and stable: "swo_on lt (set xs) \<Longrightarrow> x \<in> set xs \<Longrightarrow>
      filter (\<lambda>y. \<not> lt x y \<and> \<not> lt y x) (srt lt xs) = filter (\<lambda>y. \<not> lt x y \<and> \<not> lt y x) xs"
begin

lemma set_srt: "set (srt lt xs) = set xs"
  by (metis perm set_mset_mset)

lemma length_srt: "length (srt lt xs) = length xs"
  by (metis perm size_mset)

lemma distinct_srt: "distinct (srt lt xs) = distinct xs"
  by (metis perm mset_eq_imp_distinct_iff)

text \<open>Cutting to the first \<open>n\<close> keeps the best: nothing dropped beats anything kept.\<close>

lemma cut_best:
  assumes "swo_on lt (set xs)" and "x \<in> set (take n (srt lt xs))"
    and "y \<in> set (drop n (srt lt xs))"
  shows "\<not> lt y x"
proof -
  have "sorted_wrt (\<lambda>a b. \<not> lt b a) (take n (srt lt xs) @ drop n (srt lt xs))"
    using ordered [OF assms(1)] by simp
  with assms(2,3) show ?thesis unfolding sorted_wrt_append by blast
qed

lemma perm_filter: "mset (filter P (srt lt xs)) = mset (filter P xs)"
  by (simp add: perm mset_filter)

lemma perm_map: "mset (map f (srt lt xs)) = mset (map f xs)"
  by (simp add: perm)

end

lemma mset_ins_by: "mset (ins_by lt x ys) = add_mset x (mset ys)"
  by (induction ys) auto

lemma set_ins_by: "set (ins_by lt x ys) = insert x (set ys)"
  by (induction ys) auto

lemma mset_sort_by: "mset (sort_by lt xs) = mset xs"
  by (induction xs) (simp_all add: mset_ins_by)

lemma set_sort_by [simp]: "set (sort_by lt xs) = set xs"
  by (metis mset_sort_by set_mset_mset)

lemma sorted_ins_by:
  assumes "swo_on lt (insert x (set ys))" and "sorted_wrt (\<lambda>a b. \<not> lt b a) ys"
  shows "sorted_wrt (\<lambda>a b. \<not> lt b a) (ins_by lt x ys)"
  using assms
proof (induction ys)
  case Nil
  then show ?case by simp
next
  case (Cons y ys)
  have IH: "sorted_wrt (\<lambda>a b. \<not> lt b a) (ins_by lt x ys)"
    using Cons by (auto intro: swo_on_subset)
  show ?case
  proof (cases "lt y x")
    case True
    then have "\<not> lt x y" using swo_asym [OF Cons.prems(1)] by simp
    with True IH Cons.prems(2) show ?thesis by (auto simp: set_ins_by)
  next
    case False
    then have "\<not> lt z x" if "z \<in> set ys" for z
      using that Cons.prems swo_negtrans [OF Cons.prems(1), of z y x] by auto
    with False Cons.prems(2) show ?thesis by auto
  qed
qed

lemma filter_ins_by:
  assumes "swo_on lt (insert x (insert c (set ys)))"
  shows "filter (\<lambda>y. \<not> lt c y \<and> \<not> lt y c) (ins_by lt x ys) =
    filter (\<lambda>y. \<not> lt c y \<and> \<not> lt y c) (x # ys)"
  using assms
proof (induction ys)
  case Nil
  then show ?case by simp
next
  case (Cons y ys)
  have sub: "swo_on lt (insert x (insert c (set ys)))"
    using Cons.prems by (rule swo_on_subset) auto
  note IH = Cons.IH [OF sub]
  have "\<not> (\<not> lt c y \<and> \<not> lt y c)" if "lt y x" and "\<not> lt c x" "\<not> lt x c"
    using swo_negtrans [OF Cons.prems, of y c x] that by auto
  with IH show ?case by auto
qed

interpretation sortS: stable_sorter sort_by
proof unfold_locales
  fix lt :: "'a \<Rightarrow> 'a \<Rightarrow> bool" and xs x
  show "mset (sort_by lt xs) = mset xs" by (rule mset_sort_by)
  show "swo_on lt (set xs) \<Longrightarrow> sorted_wrt (\<lambda>a b. \<not> lt b a) (sort_by lt xs)"
  proof (induction xs)
    case (Cons a xs)
    then have "sorted_wrt (\<lambda>a b. \<not> lt b a) (sort_by lt xs)"
      by (auto intro: swo_on_subset)
    with Cons.prems show ?case by (simp add: sorted_ins_by)
  qed simp
  have "swo_on lt (insert x (set xs)) \<Longrightarrow>
      filter (\<lambda>y. \<not> lt x y \<and> \<not> lt y x) (sort_by lt xs) =
      filter (\<lambda>y. \<not> lt x y \<and> \<not> lt y x) xs"
  proof (induction xs)
    case (Cons a xs)
    have "swo_on lt (insert a (insert x (set (sort_by lt xs))))"
      using Cons.prems by (rule swo_on_subset) auto
    with Cons.IH [OF swo_on_subset [OF Cons.prems]] show ?case
      by (auto simp: filter_ins_by)
  qed simp
  then show "swo_on lt (set xs) \<Longrightarrow> x \<in> set xs \<Longrightarrow>
      filter (\<lambda>y. \<not> lt x y \<and> \<not> lt y x) (sort_by lt xs) =
      filter (\<lambda>y. \<not> lt x y \<and> \<not> lt y x) xs"
    by (simp add: insert_absorb)
qed

lemma swo_key: "swo_on (\<lambda>a b. key a < key b) A" for key :: "'a \<Rightarrow> int"
  unfolding swo_on_def by auto

lemma sorted_key_sort: "sorted (map key (sort_by (\<lambda>a b. key a < key b) xs))" for key :: "'a \<Rightarrow> int"
  using sortS.ordered [OF swo_key [of key "set xs"]] by (simp add: sorted_wrt_map not_less)

text \<open>Descending by a float key, with an optional second key: orders on NaN-free keys.\<close>

lemma swo_desc: "\<forall>x\<in>A. key x \<noteq> NaN \<Longrightarrow> swo_on (\<lambda>a b. key b < (key a :: f64)) A"
  unfolding swo_on_def
  by (meson f64_less_asym f64_le_trans f64_not_less)

lemma swo_desc_tie:
  assumes nn: "\<forall>x\<in>A. key x \<noteq> NaN" and tie: "swo_on tie A"
  shows "swo_on (\<lambda>a b. if feq (key a) (key b) then tie a b else key b < (key a :: f64)) A"
    (is "swo_on ?lt A")
proof -
  have feq: "feq (key x) (key y) \<longleftrightarrow> key x = key y" if "x \<in> A" for x y
    using that nn by (simp add: feq_def)
  have asym: "\<not> ?lt y x" if "x \<in> A" "y \<in> A" "?lt x y" for x y
    using that swo_asym [OF tie, of x y] feq [of x y] feq [of y x] f64_less_asym [of "key y" "key x"]
    by (auto split: if_splits)
  have neg: "\<not> ?lt x z"
    if "x \<in> A" "y \<in> A" "z \<in> A" "\<not> ?lt x y" "\<not> ?lt y z" for x y z
  proof -
    have le: "key x \<le> key y" "key y \<le> key z" "key x \<le> key z \<Longrightarrow> \<not> key z < key x"
      using that nn feq by (auto simp: f64_not_less split: if_splits)
    then have xz: "\<not> key z < key x" using f64_le_trans by blast
    have "key x = key z \<Longrightarrow> key y = key x"
      using le(1,2) by (cases "key x"; cases "key y"; cases "key z") auto
    then show ?thesis
      using that swo_negtrans [OF tie, of x y z] xz feq [of x y] feq [of y z] feq [of x z]
      by (auto split: if_splits)
  qed
  show ?thesis unfolding swo_on_def using asym neg by blast
qed

end
