(* ===== verification/Risk_Config.thy ===== *)
theory Risk_Config
  imports Go_Collections
begin

text \<open>
  \<open>internal/risk/config.go\<close> and \<open>internal/risk/rank.go\<close>: the risk configuration with its
  defaults and \<open>Normalize\<close>, the opportunity score and the rank order of a batch.
  Lemmas: \<open>Normalize\<close> is idempotent and establishes \<open>Valid\<close> and the positivity facts the
  manager relies on; the rank order is the one total order by score and index.
  Reading the YAML file and the SHA-256 of the configuration are not modelled.
\<close>

section \<open>Configuration\<close>

definition SizingFracKelly :: string where "SizingFracKelly = ''frac_kelly''"
definition SizingVolTarget :: string where "SizingVolTarget = ''vol_target''"
definition SizingSignalSize :: string where "SizingSignalSize = ''signal_size''"

record risk_config =
  rc_StartingEquityUSD :: f64
  rc_SizingMode :: string
  rc_KellyFraction :: f64
  rc_KellyP :: f64
  rc_KellyB :: f64
  rc_VolTargetAnn :: f64
  rc_VolLookbackPeriods :: int
  rc_MaxPositionUSD :: f64
  rc_MaxGrossUSD :: f64
  rc_MaxPositions :: int
  rc_CapacityFrac :: f64
  rc_MaxDailyDrawdownBps :: f64
  rc_MaxDrawdownBps :: f64
  rc_DailyHaltPolicy :: string
  rc_MinSizeUSD :: f64
  rc_OpportunityEdgeWeight :: f64
  rc_OpportunityConvictionWeight :: f64
  rc_BatchWindowMs :: int
  rc_AuctionEnabled :: bool
  rc_AllocWindowSec :: int
  rc_AuctionDedupe :: string
  rc_ReplaceDelta :: f64

definition DefaultConfig :: risk_config where
  "DefaultConfig = \<lparr>
     rc_StartingEquityUSD = 10000,
     rc_SizingMode = SizingFracKelly,
     rc_KellyFraction = Fin (25 / 100),
     rc_KellyP = Fin (55 / 100),
     rc_KellyB = 1,
     rc_VolTargetAnn = Fin (15 / 100),
     rc_VolLookbackPeriods = 24,
     rc_MaxPositionUSD = 500,
     rc_MaxGrossUSD = 5000,
     rc_MaxPositions = 20,
     rc_CapacityFrac = Fin (1 / 10),
     rc_MaxDailyDrawdownBps = 300,
     rc_MaxDrawdownBps = 1000,
     rc_DailyHaltPolicy = ''reject_new'',
     rc_MinSizeUSD = 1,
     rc_OpportunityEdgeWeight = 1,
     rc_OpportunityConvictionWeight = 1,
     rc_BatchWindowMs = 500,
     rc_AuctionEnabled = False,
     rc_AllocWindowSec = 60,
     rc_AuctionDedupe = ''condition'',
     rc_ReplaceDelta = 0\<rparr>"

definition pos_or :: "f64 \<Rightarrow> f64 \<Rightarrow> f64" where
  \<comment> \<open>\<open>if x <= 0 then x = d\<close>\<close>
  "pos_or d x = (if x \<le> 0 then d else x)"

definition pos_or_int :: "int \<Rightarrow> int \<Rightarrow> int" where
  "pos_or_int d n = (if n \<le> 0 then d else n)"

definition Normalize :: "risk_config \<Rightarrow> risk_config" where
  "Normalize c = (let d = DefaultConfig in c\<lparr>
     rc_StartingEquityUSD := pos_or (rc_StartingEquityUSD d) (rc_StartingEquityUSD c),
     rc_SizingMode := (if rc_SizingMode c = '''' then rc_SizingMode d else rc_SizingMode c),
     rc_KellyFraction :=
       (if rc_KellyFraction c \<le> 0 \<or> rc_KellyFraction c > 1 then rc_KellyFraction d
        else rc_KellyFraction c),
     rc_KellyP := (if rc_KellyP c \<le> 0 \<or> rc_KellyP c \<ge> 1 then rc_KellyP d else rc_KellyP c),
     rc_KellyB := pos_or (rc_KellyB d) (rc_KellyB c),
     rc_VolTargetAnn := pos_or (rc_VolTargetAnn d) (rc_VolTargetAnn c),
     rc_VolLookbackPeriods := pos_or_int (rc_VolLookbackPeriods d) (rc_VolLookbackPeriods c),
     rc_MaxPositionUSD := pos_or (rc_MaxPositionUSD d) (rc_MaxPositionUSD c),
     rc_MaxGrossUSD := pos_or (rc_MaxGrossUSD d) (rc_MaxGrossUSD c),
     rc_MaxPositions := pos_or_int (rc_MaxPositions d) (rc_MaxPositions c),
     rc_CapacityFrac := pos_or (rc_CapacityFrac d) (rc_CapacityFrac c),
     rc_MaxDailyDrawdownBps := pos_or (rc_MaxDailyDrawdownBps d) (rc_MaxDailyDrawdownBps c),
     rc_MaxDrawdownBps := pos_or (rc_MaxDrawdownBps d) (rc_MaxDrawdownBps c),
     rc_MinSizeUSD := pos_or (rc_MinSizeUSD d) (rc_MinSizeUSD c),
     rc_DailyHaltPolicy :=
       (if rc_DailyHaltPolicy c = '''' then rc_DailyHaltPolicy d else rc_DailyHaltPolicy c),
     rc_OpportunityEdgeWeight :=
       (if rc_OpportunityEdgeWeight c < 0 then rc_OpportunityEdgeWeight d
        else rc_OpportunityEdgeWeight c),
     rc_OpportunityConvictionWeight :=
       (if rc_OpportunityConvictionWeight c < 0 then rc_OpportunityConvictionWeight d
        else rc_OpportunityConvictionWeight c)\<rparr>)"

definition Valid :: "risk_config \<Rightarrow> bool" where
  "Valid c \<longleftrightarrow>
     rc_StartingEquityUSD c > 0 \<and>
     rc_KellyFraction c > 0 \<and> rc_KellyFraction c \<le> 1 \<and>
     rc_MaxPositionUSD c > 0 \<and> rc_MaxGrossUSD c > 0 \<and>
     rc_MaxPositions c > 0"

lemmas config_defs = Normalize_def DefaultConfig_def pos_or_def pos_or_int_def Let_def
  SizingFracKelly_def SizingVolTarget_def SizingSignalSize_def

definition config_fin :: "risk_config \<Rightarrow> bool" where
  \<comment> \<open>no field is NaN or infinite: what a YAML file of ordinary numbers gives\<close>
  "config_fin c \<longleftrightarrow>
     isfin (rc_StartingEquityUSD c) \<and> isfin (rc_KellyFraction c) \<and> isfin (rc_KellyP c) \<and>
     isfin (rc_KellyB c) \<and> isfin (rc_VolTargetAnn c) \<and> isfin (rc_MaxPositionUSD c) \<and>
     isfin (rc_MaxGrossUSD c) \<and> isfin (rc_CapacityFrac c) \<and> isfin (rc_MaxDailyDrawdownBps c) \<and>
     isfin (rc_MaxDrawdownBps c) \<and> isfin (rc_MinSizeUSD c) \<and>
     isfin (rc_OpportunityEdgeWeight c) \<and> isfin (rc_OpportunityConvictionWeight c)"

definition config_ok :: "risk_config \<Rightarrow> bool" where
  \<comment> \<open>what \<open>Normalize\<close> guarantees of a finite configuration\<close>
  "config_ok c \<longleftrightarrow>
     config_fin c \<and> 0 < rval (rc_StartingEquityUSD c) \<and>
     0 < rval (rc_KellyFraction c) \<and> rval (rc_KellyFraction c) \<le> 1 \<and>
     0 < rval (rc_KellyP c) \<and> rval (rc_KellyP c) < 1 \<and> 0 < rval (rc_KellyB c) \<and>
     0 < rval (rc_VolTargetAnn c) \<and> 0 < rc_VolLookbackPeriods c \<and>
     0 < rval (rc_MaxPositionUSD c) \<and> 0 < rval (rc_MaxGrossUSD c) \<and> 0 < rc_MaxPositions c \<and>
     0 < rval (rc_CapacityFrac c) \<and> 0 < rval (rc_MaxDailyDrawdownBps c) \<and>
     0 < rval (rc_MaxDrawdownBps c) \<and> 0 < rval (rc_MinSizeUSD c) \<and>
     0 \<le> rval (rc_OpportunityEdgeWeight c) \<and> 0 \<le> rval (rc_OpportunityConvictionWeight c)"

lemma pos_or_fin: "isfin x \<Longrightarrow> isfin d \<Longrightarrow> isfin (pos_or d x)"
  by (simp add: pos_or_def)

lemma pos_or_pos: "isfin x \<Longrightarrow> 0 < rval d \<Longrightarrow> 0 < rval (pos_or d x)"
  by (auto simp: pos_or_def isfin_order)

lemma pos_or_int_pos: "0 < d \<Longrightarrow> 0 < pos_or_int d n"
  by (simp add: pos_or_int_def)

lemma Normalize_config_ok: "config_fin c \<Longrightarrow> config_ok (Normalize c)"
  unfolding config_ok_def config_fin_def
  by (auto simp: Normalize_def DefaultConfig_def Let_def pos_or_int_def pos_or_fin pos_or_pos isfin_order)

lemma config_ok_fin: "config_ok c \<Longrightarrow> config_fin c"
  by (simp add: config_ok_def)

lemma config_ok_Valid: "config_ok c \<Longrightarrow> Valid c"
  by (auto simp: config_ok_def config_fin_def Valid_def isfin_order)

lemma Normalize_id: "config_ok c \<Longrightarrow> rc_SizingMode c \<noteq> '''' \<Longrightarrow> rc_DailyHaltPolicy c \<noteq> ''''
    \<Longrightarrow> Normalize c = c"
  by (auto simp: config_ok_def config_fin_def Normalize_def Let_def pos_or_def pos_or_int_def isfin_order)

lemma Normalize_frame [simp]:
  "rc_BatchWindowMs (Normalize c) = rc_BatchWindowMs c"
  "rc_AuctionEnabled (Normalize c) = rc_AuctionEnabled c"
  "rc_AllocWindowSec (Normalize c) = rc_AllocWindowSec c"
  "rc_AuctionDedupe (Normalize c) = rc_AuctionDedupe c"
  by (simp_all add: Normalize_def Let_def)

text \<open>The configurations the properties are about: what \<open>Normalize\<close> returns is accepted by \<open>Valid\<close>.\<close>

lemma pos_or_idem: "pos_or d (pos_or d x) = pos_or d x"
  by (simp add: pos_or_def)

lemma Normalize_idem: "Normalize (Normalize c) = Normalize c"
  by (simp add: Normalize_def DefaultConfig_def Let_def pos_or_idem pos_or_int_def
      SizingFracKelly_def f64_eval)

section \<open>Opportunity score and rank order\<close>

record rankable =
  rk_Index :: nat
  rk_EdgeBps :: f64
  rk_Conviction :: f64
  rk_Urgency :: f64
  rk_Score :: f64

definition clip01 :: "f64 \<Rightarrow> f64" where
  \<comment> \<open>the two clamps \<open>if conv < 0\<close>, \<open>if conv > 1\<close>, in the code's order\<close>
  "clip01 x = (let y = (if x < 0 then 0 else x) in if y > 1 then 1 else y)"

definition OpportunityScore :: "risk_config \<Rightarrow> f64 \<Rightarrow> f64 \<Rightarrow> f64 \<Rightarrow> f64" where
  "OpportunityScore cfg edgeBps conviction urgency =
     (let ew = pos_or 1 (rc_OpportunityEdgeWeight cfg);
          cw = pos_or 1 (rc_OpportunityConvictionWeight cfg);
          conv = clip01 conviction;
          edgeUnit = \<bar>edgeBps\<bar> / 100;
          score = ew * edgeUnit + cw * conv
      in if urgency > 0 then score + Fin (1 / 10) * urgency else score)"

definition rank_before :: "rankable \<Rightarrow> rankable \<Rightarrow> bool" where
  "rank_before a b =
     (if feq (rk_Score a) (rk_Score b) then rk_Index a < rk_Index b
      else rk_Score a > rk_Score b)"

definition SortByOpportunity :: "rankable list \<Rightarrow> rankable list" where
  "SortByOpportunity items = sort_by rank_before items"

definition nth_or :: "'a \<Rightarrow> 'a list \<Rightarrow> nat \<Rightarrow> 'a" where
  \<comment> \<open>\<open>if i < len(xs) { v = xs[i] }\<close>\<close>
  "nth_or z xs i = (if i < length xs then xs ! i else z)"

definition rank_items :: "risk_config \<Rightarrow> f64 list \<Rightarrow> f64 list \<Rightarrow> f64 list \<Rightarrow> rankable list" where
  "rank_items cfg edges convictions urgencies =
     map (\<lambda>i. let c = nth_or 0 convictions i; u = nth_or 0 urgencies i in
       \<lparr>rk_Index = i, rk_EdgeBps = edges ! i, rk_Conviction = c, rk_Urgency = u,
        rk_Score = OpportunityScore cfg (edges ! i) c u\<rparr>) [0..<length edges]"

definition BuildRankOrder :: "risk_config \<Rightarrow> f64 list \<Rightarrow> f64 list \<Rightarrow> f64 list \<Rightarrow> nat list" where
  "BuildRankOrder cfg edges convictions urgencies =
     map rk_Index (SortByOpportunity (rank_items cfg edges convictions urgencies))"

lemma isfin_clip01: "isfin x \<Longrightarrow> isfin (clip01 x)"
  by (auto simp: clip01_def Let_def)

lemma rval_clip01: "isfin x \<Longrightarrow> rval (clip01 x) = max 0 (min 1 (rval x))"
  by (auto simp: clip01_def Let_def isfin_order)

lemma clip01_range: "isfin x \<Longrightarrow> 0 \<le> rval (clip01 x) \<and> rval (clip01 x) \<le> 1"
  by (simp add: rval_clip01)

lemma isfin_OpportunityScore:
  "config_fin cfg \<Longrightarrow> isfin e \<Longrightarrow> isfin c \<Longrightarrow> isfin u \<Longrightarrow> isfin (OpportunityScore cfg e c u)"
  unfolding config_fin_def
  by (auto simp: OpportunityScore_def Let_def pos_or_fin isfin_clip01)

lemma isfin_notNaN: "isfin x \<Longrightarrow> x \<noteq> NaN"
  by auto

lemma swo_rank_before: "\<forall>x\<in>A. rk_Score x \<noteq> NaN \<Longrightarrow> swo_on rank_before A"
proof -
  assume nn: "\<forall>x\<in>A. rk_Score x \<noteq> NaN"
  have "swo_on (\<lambda>a b. rk_Index a < rk_Index b) A"
    unfolding swo_on_def by auto
  from swo_desc_tie [OF nn this] show ?thesis
    by (simp add: rank_before_def [abs_def])
qed

lemma set_rank_items_index: "rk_Index ` set (rank_items cfg es cs us) = {0..<length es}"
  by (simp add: rank_items_def Let_def image_image)

lemma BuildRankOrder_mset: "mset (BuildRankOrder cfg es cs us) = mset [0..<length es]"
  unfolding BuildRankOrder_def SortByOpportunity_def sortS.perm_map
  by (simp add: rank_items_def Let_def o_def)

lemma BuildRankOrder_set: "set (BuildRankOrder cfg es cs us) = {0..<length es}"
  by (metis BuildRankOrder_mset atLeastLessThan_upt set_mset_mset)

lemma BuildRankOrder_distinct: "distinct (BuildRankOrder cfg es cs us)"
  by (metis BuildRankOrder_mset distinct_upt mset_eq_imp_distinct_iff)

text \<open>Reading a list in rank order permutes it.\<close>

lemma BuildRankOrder_nth:
  assumes "length es = length xs"
  shows "mset (map ((!) xs) (BuildRankOrder cfg es cs us)) = mset xs"
proof -
  have "mset (map ((!) xs) (BuildRankOrder cfg es cs us)) = image_mset ((!) xs) (mset [0..<length xs])"
    by (simp only: mset_map BuildRankOrder_mset assms)
  also have "\<dots> = mset xs" by (metis map_nth mset_map)
  finally show ?thesis .
qed

lemma BuildRankOrder_length: "length (BuildRankOrder cfg es cs us) = length es"
  by (metis BuildRankOrder_mset length_upt minus_nat.diff_0 size_mset)

definition score_at :: "risk_config \<Rightarrow> f64 list \<Rightarrow> f64 list \<Rightarrow> f64 list \<Rightarrow> nat \<Rightarrow> f64" where
  "score_at cfg es cs us i = OpportunityScore cfg (es ! i) (nth_or 0 cs i) (nth_or 0 us i)"

lemma rank_items_Score:
  "it \<in> set (rank_items cfg es cs us) \<Longrightarrow> rk_Score it = score_at cfg es cs us (rk_Index it)"
  by (auto simp: rank_items_def score_at_def Let_def)

lemma BuildRankOrder_sorted:
  assumes nn: "\<forall>i < length es. score_at cfg es cs us i \<noteq> NaN"
  shows "sorted_wrt (\<lambda>i j. score_at cfg es cs us j < score_at cfg es cs us i \<or>
      score_at cfg es cs us i = score_at cfg es cs us j \<and> i < j) (BuildRankOrder cfg es cs us)"
    (is "sorted_wrt ?R _")
proof -
  let ?its = "rank_items cfg es cs us"
  have "\<forall>x\<in>set ?its. rk_Score x \<noteq> NaN"
  proof
    fix x assume x: "x \<in> set ?its"
    then have "rk_Index x < length es"
      using set_rank_items_index [of cfg es cs us] by force
    with nn x show "rk_Score x \<noteq> NaN" by (simp add: rank_items_Score)
  qed
  from sortS.ordered [OF swo_rank_before [OF this]]
  have srt: "sorted_wrt (\<lambda>a b. \<not> rank_before b a) (SortByOpportunity ?its)"
    by (simp add: SortByOpportunity_def)
  have dist: "distinct (map rk_Index (SortByOpportunity ?its))"
    using BuildRankOrder_distinct by (simp add: BuildRankOrder_def)
  have step: "?R (rk_Index a) (rk_Index b)"
    if "a \<in> set ?its" "b \<in> set ?its" "\<not> rank_before b a" "rk_Index a \<noteq> rk_Index b" for a b
  proof -
    have n: "rk_Score a \<noteq> NaN" "rk_Score b \<noteq> NaN"
      using that \<open>\<forall>x\<in>set ?its. rk_Score x \<noteq> NaN\<close> by auto
    then have "rk_Score b < rk_Score a \<or> rk_Score a = rk_Score b \<and> rk_Index a < rk_Index b"
      using that(3,4) by (cases "rk_Score a"; cases "rk_Score b") (auto simp: rank_before_def feq_def split: if_splits)
    with that(1,2) show ?thesis by (simp add: rank_items_Score)
  qed
  have "sorted_wrt (\<lambda>a b. ?R (rk_Index a) (rk_Index b)) (SortByOpportunity ?its)"
    unfolding sorted_wrt_iff_nth_less
  proof (intro allI impI)
    fix i j assume ij: "i < j" "j < length (SortByOpportunity ?its)"
    let ?a = "SortByOpportunity ?its ! i" and ?b = "SortByOpportunity ?its ! j"
    have "?a \<in> set ?its" "?b \<in> set ?its"
      using ij nth_mem [of i "SortByOpportunity ?its"] nth_mem [of j "SortByOpportunity ?its"]
      by (simp_all add: SortByOpportunity_def)
    moreover have "\<not> rank_before ?b ?a"
      using srt ij by (simp add: sorted_wrt_iff_nth_less)
    moreover have "rk_Index ?a \<noteq> rk_Index ?b"
      using dist ij nth_eq_iff_index_eq [of "map rk_Index (SortByOpportunity ?its)" i j] by simp
    ultimately show "?R (rk_Index ?a) (rk_Index ?b)" by (rule step)
  qed
  then show ?thesis by (simp add: BuildRankOrder_def sorted_wrt_map)
qed

section \<open>Properties\<close>

lemma config_fin_Default: "config_fin DefaultConfig"
  by (simp add: config_fin_def DefaultConfig_def)

text \<open>\<open>Normalize\<close> repairs every finite configuration in one pass: whatever the fields hold,
  the result is accepted by \<open>Valid\<close>, every budget, drawdown limit and Kelly parameter in it is
  positive and in range, and normalizing it again changes nothing.\<close>

theorem normalize_repairs:
  assumes "config_fin c"
  shows "Valid (Normalize c) \<and> config_ok (Normalize c) \<and> Normalize (Normalize c) = Normalize c"
  using Normalize_config_ok [OF assms] by (simp add: config_ok_Valid Normalize_idem)

definition broken_config :: risk_config where
  \<comment> \<open>a configuration with a negative budget, a Kelly fraction above one and no positions\<close>
  "broken_config = DefaultConfig\<lparr>rc_StartingEquityUSD := - 5, rc_KellyFraction := 7, rc_MaxPositions := 0\<rparr>"

theorem normalize_repairs_witness: "Valid (Normalize broken_config)"
proof -
  have "config_fin broken_config"
    by (simp add: config_fin_def broken_config_def DefaultConfig_def f64_eval)
  from normalize_repairs [OF this] show ?thesis by blast
qed

text \<open>The auction's rank order is the one order by opportunity: every candidate index appears
  exactly once, and whenever no score is NaN an index comes before another exactly because its
  score is higher or, at equal scores, it was offered first.\<close>

theorem rank_order_total:
  assumes "\<forall>i < length es. score_at cfg es cs us i \<noteq> NaN"
  shows "set (BuildRankOrder cfg es cs us) = {0..<length es} \<and> distinct (BuildRankOrder cfg es cs us)
    \<and> sorted_wrt (\<lambda>i j. score_at cfg es cs us j < score_at cfg es cs us i \<or>
        score_at cfg es cs us i = score_at cfg es cs us j \<and> i < j) (BuildRankOrder cfg es cs us)"
  using BuildRankOrder_sorted [OF assms] by (simp add: BuildRankOrder_set BuildRankOrder_distinct)

theorem rank_order_total_witness:
  "set (BuildRankOrder DefaultConfig [10, 300, 20] [] []) = {0..<3}"
proof -
  have "\<forall>i < length [10, 300, 20 :: f64]. score_at DefaultConfig [10, 300, 20] [] [] i \<noteq> NaN"
    by (auto simp: score_at_def OpportunityScore_def DefaultConfig_def pos_or_def clip01_def Let_def
        nth_or_def f64_eval less_Suc_eq numeral_3_eq_3)
  from rank_order_total [OF this] show ?thesis by (simp add: eval_nat_numeral)
qed

end
