(* ===== verification/Dedupe.thy ===== *)
theory Dedupe
  imports Go_Collections "HOL-Library.Sublist"
begin

text \<open>
  Keeping the best candidate per key, the loop that \<open>internal/alloc\<close> (\<open>dedupeBest\<close>) and
  \<open>internal/signaleval\<close> (\<open>dedupeBestPerCondition\<close>) both run: a map from the key to the index of
  the best candidate so far, replaced only by a strictly higher score, then one pass over the
  batch that keeps the surviving indices in order.  What its clients rely on is the locale
  \<open>best_per_key\<close>.
\<close>

text \<open>Facts on subsequences.\<close>

lemma subseq_mset: "subseq xs ys \<Longrightarrow> mset xs \<subseteq># mset ys"
  by (induction rule: list_emb.induct) (auto intro: subset_mset.order_trans)

lemma subseq_set: "subseq xs ys \<Longrightarrow> set xs \<subseteq> set ys"
  using set_mset_mono [OF subseq_mset [of xs ys]] by simp

lemma subseq_distinct: "subseq xs ys \<Longrightarrow> distinct ys \<Longrightarrow> distinct xs"
  by (induction rule: list_emb.induct) (auto dest: subseq_set)

lemma subseq_sorted_wrt: "subseq xs ys \<Longrightarrow> sorted_wrt R ys \<Longrightarrow> sorted_wrt R xs"
  by (induction rule: list_emb.induct) (auto dest: subseq_set)

definition best_step ::
  "('a \<Rightarrow> 'k) \<Rightarrow> ('a \<Rightarrow> f64) \<Rightarrow> 'a list \<Rightarrow> ('k, nat) gomap \<Rightarrow> nat \<Rightarrow> ('k, nat) gomap" where
  "best_step key sc xs best i =
     (let k = key (xs ! i) in
      case go_get best k of
        None \<Rightarrow> go_put k i best
      | Some prev \<Rightarrow> (if sc (xs ! i) > sc (xs ! prev) then go_put k i best else best))"

definition best_index :: "('a \<Rightarrow> 'k) \<Rightarrow> ('a \<Rightarrow> f64) \<Rightarrow> 'a list \<Rightarrow> ('k, nat) gomap" where
  "best_index key sc xs = foldl (best_step key sc xs) [] [0..<length xs]"

definition dedupe_best :: "('a \<Rightarrow> 'k) \<Rightarrow> ('a \<Rightarrow> f64) \<Rightarrow> 'a list \<Rightarrow> 'a list" where
  "dedupe_best key sc xs =
     (let keep = map snd (best_index key sc xs)
      in map ((!) xs) (filter (\<lambda>i. i \<in> set keep) [0..<length xs]))"

locale best_per_key =
  fixes key :: "'a \<Rightarrow> 'k" and sc :: "'a \<Rightarrow> f64" and dedupe :: "'a list \<Rightarrow> 'a list"
  assumes sub: "subseq (dedupe xs) xs"
    and cover: "key ` set (dedupe xs) = key ` set xs"
    and one_each: "distinct (map key (dedupe xs))"
    and best: "\<forall>x \<in> set xs. sc x \<noteq> NaN \<Longrightarrow> x \<in> set (dedupe xs) \<Longrightarrow> y \<in> set xs \<Longrightarrow> key y = key x
      \<Longrightarrow> sc y \<le> sc x"
begin

lemma kept_subset: "set (dedupe xs) \<subseteq> set xs"
  using list_emb_set [OF sub] by blast

lemma kept_length: "length (dedupe xs) \<le> length xs"
  using sub by (rule list_emb_length)

lemma kept_empty_iff: "dedupe xs = [] \<longleftrightarrow> xs = []"
  using cover [of xs] by auto

lemma dropped_beaten:
  assumes "\<forall>x \<in> set xs. sc x \<noteq> NaN" and "y \<in> set xs"
  shows "\<exists>x \<in> set (dedupe xs). key x = key y \<and> sc y \<le> sc x"
proof -
  have "key y \<in> key ` set (dedupe xs)" using assms(2) by (simp add: cover)
  then obtain x where "x \<in> set (dedupe xs)" "key x = key y" by auto
  with best [OF assms(1), of x y] assms(2) show ?thesis by auto
qed

lemma nothing_to_drop:
  assumes "distinct (map key xs)" shows "dedupe xs = xs"
proof -
  have "length (dedupe xs) = card (key ` set (dedupe xs))"
    using distinct_card [OF one_each [of xs]] by simp
  also have "\<dots> = length xs"
    using distinct_card [OF assms] by (simp add: cover)
  finally show ?thesis using sub [of xs] by (simp add: subseq_same_length)
qed

end

section \<open>The loop\<close>

lemma best_step_cases:
  "best_step key sc xs best i = go_put (key (xs ! i)) i best \<or>
   best_step key sc xs best i = best \<and> go_get best (key (xs ! i)) \<noteq> None"
  by (simp add: best_step_def Let_def split: option.split)

definition best_upto :: "('a \<Rightarrow> 'k) \<Rightarrow> ('a \<Rightarrow> f64) \<Rightarrow> 'a list \<Rightarrow> nat \<Rightarrow> ('k, nat) gomap" where
  "best_upto key sc xs n = foldl (best_step key sc xs) [] [0..<n]"

lemma best_upto_Suc:
  "best_upto key sc xs (Suc n) = best_step key sc xs (best_upto key sc xs n) n"
  by (simp add: best_upto_def)

lemma best_upto_wf: "go_wf (best_upto key sc xs n)"
proof (induction n)
  case 0
  show ?case by (simp add: best_upto_def)
next
  case (Suc n)
  then show ?case unfolding best_upto_Suc
    using best_step_cases [of key sc xs "best_upto key sc xs n" n] by (auto simp: distinct_update)
qed

lemma best_upto_key:
  "go_get (best_upto key sc xs n) k = Some i \<Longrightarrow> i < n \<and> key (xs ! i) = k"
proof (induction n arbitrary: i k)
  case 0
  then show ?case by (simp add: best_upto_def)
next
  case (Suc n)
  from Suc.prems show ?case unfolding best_upto_Suc
    using best_step_cases [of key sc xs "best_upto key sc xs n" n] Suc.IH [of k i]
    by (auto simp: gmap.get_put split: if_splits)
qed

lemma best_upto_total: "j < n \<Longrightarrow> go_get (best_upto key sc xs n) (key (xs ! j)) \<noteq> None"
proof (induction n arbitrary: j)
  case (Suc n)
  from Suc.prems show ?case unfolding best_upto_Suc
    using best_step_cases [of key sc xs "best_upto key sc xs n" n] Suc.IH [of j]
    by (auto simp: gmap.get_put less_Suc_eq)
qed simp

lemma best_upto_max:
  assumes "n \<le> length xs" and nn: "\<forall>x \<in> set xs. sc x \<noteq> NaN"
  shows "go_get (best_upto key sc xs n) k = Some i \<Longrightarrow> j < n \<Longrightarrow> key (xs ! j) = k
    \<Longrightarrow> sc (xs ! j) \<le> sc (xs ! i)"
  using assms(1)
proof (induction n arbitrary: i j k)
  case (Suc n)
  let ?b = "best_upto key sc xs n"
  have nan: "m \<le> n \<Longrightarrow> sc (xs ! m) \<noteq> NaN" for m using nn Suc.prems(4) by simp
  show ?case
  proof (cases "go_get ?b (key (xs ! n))")
    case None
    then have b: "best_upto key sc xs (Suc n) = go_put (key (xs ! n)) n ?b"
      unfolding best_upto_Suc by (simp add: best_step_def)
    have "j \<noteq> n \<Longrightarrow> k \<noteq> key (xs ! n)"
      using None Suc.prems(2,3) best_upto_total [of j n key sc xs] by auto
    with b Suc nan [of n] show ?thesis
      by (auto simp: gmap.get_put less_Suc_eq split: if_splits)
  next
    case (Some prev)
    note pk = best_upto_key [OF Some]
    have step: "best_upto key sc xs (Suc n) =
        (if sc (xs ! n) > sc (xs ! prev) then go_put (key (xs ! n)) n ?b else ?b)"
      unfolding best_upto_Suc using Some by (simp add: best_step_def)
    have IH: "sc (xs ! j) \<le> sc (xs ! i')" if "go_get ?b k = Some i'" "j < n" for i'
      using Suc.IH [OF that Suc.prems(3)] Suc.prems(4) by simp
    show ?thesis
    proof (cases "sc (xs ! n) > sc (xs ! prev)")
      case True
      with step Suc.prems have i: "i = n \<and> k = key (xs ! n) \<or> k \<noteq> key (xs ! n) \<and> go_get ?b k = Some i"
        by (auto simp: gmap.get_put split: if_splits)
      show ?thesis
      proof (cases "j = n")
        case True
        with i Suc.prems(3) nan [of n] show ?thesis by auto
      next
        case False
        with i IH Some Suc.prems(2) True show ?thesis
          by (metis f64_le_trans f64_less_imp_le less_Suc_eq)
      qed
    next
      case False
      with step Suc.prems(1) have bi: "go_get ?b k = Some i" by simp
      show ?thesis
      proof (cases "j = n")
        case True
        with bi Some Suc.prems(3) have "i = prev" by simp
        with False True nan [of n] nan [of prev] pk show ?thesis by (simp add: f64_not_less)
      next
        case False
        with bi IH Suc.prems(2) show ?thesis by simp
      qed
    qed
  qed
qed simp

lemma best_index_upto: "best_index key sc xs = best_upto key sc xs (length xs)"
  by (simp add: best_index_def best_upto_def)

lemma set_dedupe_best:
  "set (dedupe_best key sc xs) = {xs ! i | i. \<exists>k. go_get (best_upto key sc xs (length xs)) k = Some i}"
proof -
  have "i \<in> set (map snd (best_upto key sc xs (length xs))) \<longleftrightarrow>
      (\<exists>k. go_get (best_upto key sc xs (length xs)) k = Some i)" for i
    using best_upto_wf [of key sc xs "length xs"] by (force simp: go_get_wf)
  then show ?thesis
    unfolding dedupe_best_def Let_def best_index_upto using best_upto_key [of key sc xs] by fastforce
qed

lemma inj_on_best:
  "inj_on (\<lambda>i. key (xs ! i)) {i. \<exists>k. go_get (best_upto key sc xs n) k = Some i}"
  using best_upto_key [of key sc xs n] by (auto simp: inj_on_def)

lemma best_per_key_dedupe: "best_per_key key sc (dedupe_best key sc)"
proof
  fix xs :: "'a list" and x y
  let ?b = "best_upto key sc xs (length xs)"
  let ?is = "filter (\<lambda>i. i \<in> set (map snd ?b)) [0..<length xs]"
  have eq: "dedupe_best key sc xs = map ((!) xs) ?is"
    by (simp add: dedupe_best_def best_index_upto Let_def)
  have "subseq (map ((!) xs) ?is) (map ((!) xs) [0..<length xs])"
    by (intro subseq_map subseq_filter_left)
  then show "subseq (dedupe_best key sc xs) xs" by (simp add: eq map_nth)
  show "key ` set (dedupe_best key sc xs) = key ` set xs"
  proof
    show "key ` set (dedupe_best key sc xs) \<subseteq> key ` set xs"
      by (auto simp: set_dedupe_best dest: best_upto_key)
    show "key ` set xs \<subseteq> key ` set (dedupe_best key sc xs)"
    proof
      fix k assume "k \<in> key ` set xs"
      then obtain j where j: "j < length xs" "k = key (xs ! j)" by (auto simp: in_set_conv_nth)
      from best_upto_total [OF j(1), of key sc xs] obtain i where i: "go_get ?b k = Some i"
        using j(2) by auto
      with best_upto_key [OF i] show "k \<in> key ` set (dedupe_best key sc xs)"
        by (auto simp: set_dedupe_best)
    qed
  qed
  have "i \<in> set (map snd ?b) \<longleftrightarrow> (\<exists>k. go_get ?b k = Some i)" for i
    using best_upto_wf [of key sc xs "length xs"] by (force simp: go_get_wf)
  then have "inj_on (\<lambda>i. key (xs ! i)) (set ?is)"
    using inj_on_best [of key xs sc "length xs"] by (auto simp: inj_on_def)
  then show "distinct (map key (dedupe_best key sc xs))"
    by (simp add: eq distinct_map o_def)
  assume nn: "\<forall>x \<in> set xs. sc x \<noteq> NaN" and x: "x \<in> set (dedupe_best key sc xs)"
    and y: "y \<in> set xs" "key y = key x"
  from x obtain i k where i: "x = xs ! i" "go_get ?b k = Some i" by (auto simp: set_dedupe_best)
  from y obtain j where j: "j < length xs" "y = xs ! j" by (auto simp: in_set_conv_nth)
  have "key (xs ! j) = k" using best_upto_key [OF i(2)] i(1) y(2) j(2) by simp
  with best_upto_max [OF order_refl nn i(2) j(1)] i j show "sc y \<le> sc x" by simp
qed

end
