(* ===== verification/Go_Text.thy ===== *)
theory Go_Text
  imports Go_Collections "HOL-Library.Char_ord"
begin

text \<open>
  The part of \<open>strings\<close>, \<open>strconv\<close> and \<open>time.Format\<close> the components use, on strings as lists of
  bytes: decimal digits, the civil calendar (for RFC 3339 stamps), ASCII trimming and case.
  Case mapping and white space are the ASCII ones; the identifiers and tag slugs of the program
  are ASCII.
\<close>

section \<open>Decimal digits\<close>

definition digit_char :: "nat \<Rightarrow> char" where
  "digit_char d = char_of (48 + d mod 10)"

fun dec_digits :: "nat \<Rightarrow> string" where
  "dec_digits n = (if n < 10 then [digit_char n] else dec_digits (n div 10) @ [digit_char n])"

declare dec_digits.simps [simp del]

definition pad_dec :: "nat \<Rightarrow> nat \<Rightarrow> string" where
  \<comment> \<open>\<open>%0wd\<close>\<close>
  "pad_dec w n = (let ds = dec_digits n in replicate (w - length ds) (CHR ''0'') @ ds)"

definition is_digit :: "char \<Rightarrow> bool" where
  "is_digit c \<longleftrightarrow> 48 \<le> (of_char c :: nat) \<and> (of_char c :: nat) \<le> 57"

definition digit_val :: "char \<Rightarrow> nat" where
  "digit_val c = of_char c - 48"

definition digits_val :: "string \<Rightarrow> nat" where
  "digits_val s = foldl (\<lambda>a c. 10 * a + digit_val c) 0 s"

lemma of_char_digit [simp]: "of_char (digit_char d) = (48 + d mod 10 :: nat)"
proof -
  have "(48 + d mod 10) mod 256 = 48 + d mod 10"
    by (rule mod_less) (use mod_less_divisor [of 10 d] in linarith)
  then show ?thesis by (simp add: digit_char_def)
qed

lemma digit_char_is_digit [simp]: "is_digit (digit_char d)"
  using mod_less_divisor [of 10 d] by (simp add: is_digit_def del: mod_less_divisor)

lemma digit_val_char [simp]: "digit_val (digit_char d) = d mod 10"
  by (simp add: digit_val_def)

lemma digits_val_snoc [simp]: "digits_val (s @ [c]) = 10 * digits_val s + digit_val c"
  by (simp add: digits_val_def)

lemma digits_val_Nil [simp]: "digits_val [] = 0"
  by (simp add: digits_val_def)

lemma dec_digits_ne [simp]: "dec_digits n \<noteq> []"
  by (subst dec_digits.simps) simp

lemma dec_digits_digits: "\<forall>c \<in> set (dec_digits n). is_digit c"
  by (induction n rule: dec_digits.induct) (subst dec_digits.simps, auto)

lemma digits_val_dec: "digits_val (dec_digits n) = n"
proof (induction n rule: dec_digits.induct)
  case (1 n)
  show ?case
  proof (cases "n < 10")
    case True
    then show ?thesis by (subst dec_digits.simps) (simp add: digits_val_def)
  next
    case False
    with 1 show ?thesis by (subst dec_digits.simps) simp
  qed
qed

lemma dec_digits_inj: "dec_digits m = dec_digits n \<Longrightarrow> m = n"
  by (metis digits_val_dec)

section \<open>RFC 3339 time stamps\<close>

definition civil_of_days :: "int \<Rightarrow> int \<times> int \<times> int" where
  \<comment> \<open>(year, month, day) of a day count from 1 January of year 1, in the proleptic Gregorian
     calendar; the year is reckoned from 1 March so that the leap day comes last\<close>
  "civil_of_days z0 =
     (let z = z0 + 306;
          era = z div 146097;
          doe = z mod 146097;
          yoe = (doe - doe div 1460 + doe div 36524 - doe div 146096) div 365;
          doy = doe - (365 * yoe + yoe div 4 - yoe div 100);
          mp = (5 * doy + 2) div 153;
          d = doy - (153 * mp + 2) div 5 + 1;
          m = (if mp < 10 then mp + 3 else mp - 9);
          y = yoe + era * 400
      in (if m \<le> 2 then y + 1 else y, m, d))"

definition strip_zeros :: "string \<Rightarrow> string" where
  "strip_zeros s = rev (dropWhile (\<lambda>c. c = CHR ''0'') (rev s))"

definition rfc3339_nano :: "gotime \<Rightarrow> string" where
  \<comment> \<open>\<open>t.UTC().Format(time.RFC3339Nano)\<close>: trailing zeros of the fraction are dropped\<close>
  "rfc3339_nano t =
     (let secs = t div 1000000000; ns = nat (t mod 1000000000);
          sod = nat (secs mod 86400);
          (y, m, d) = civil_of_days (secs div 86400);
          frac = strip_zeros (pad_dec 9 ns)
      in pad_dec 4 (nat y) @ ''-'' @ pad_dec 2 (nat m) @ ''-'' @ pad_dec 2 (nat d) @ ''T'' @
         pad_dec 2 (sod div 3600) @ '':'' @ pad_dec 2 (sod div 60 mod 60) @ '':'' @
         pad_dec 2 (sod mod 60) @ (if frac = [] then [] else ''.'' @ frac) @ ''Z'')"

section \<open>ASCII strings\<close>

definition is_space :: "char \<Rightarrow> bool" where
  "is_space c \<longleftrightarrow> (of_char c :: nat) \<in> {9, 10, 11, 12, 13, 32}"

definition TrimSpace :: "string \<Rightarrow> string" where
  "TrimSpace s = rev (dropWhile is_space (rev (dropWhile is_space s)))"

definition lower_char :: "char \<Rightarrow> char" where
  "lower_char c =
     (let n = of_char c :: nat in if 65 \<le> n \<and> n \<le> 90 then char_of (n + 32) else c)"

definition ToLower :: "string \<Rightarrow> string" where
  "ToLower s = map lower_char s"

lemma TrimSpace_Nil [simp]: "TrimSpace [] = []"
  by (simp add: TrimSpace_def)

lemma dropWhile_snoc_eq:
  "dropWhile P (dropWhile P xs) = dropWhile P xs"
  by (induction xs) auto

lemma hd_dropWhile_not: "dropWhile P xs \<noteq> [] \<Longrightarrow> \<not> P (hd (dropWhile P xs))"
  by (induction xs) auto

lemma dropWhile_id: "xs = [] \<or> \<not> P (hd xs) \<Longrightarrow> dropWhile P xs = xs"
  by (cases xs) auto

lemma TrimSpace_idem: "TrimSpace (TrimSpace s) = TrimSpace s"
proof -
  let ?a = "dropWhile is_space s"
  let ?b = "dropWhile is_space (rev ?a)"
  have "dropWhile is_space (rev ?b) = rev ?b"
  proof (cases "rev ?b = []")
    case False
    then have ne: "?b \<noteq> []" by (simp only: rev_is_Nil_conv not_False_eq_True)
    then have ne: "?b \<noteq> []" "?a \<noteq> []" by (metis dropWhile.simps(1) rev.simps(1))+
    have "last ?b = last (rev ?a)"
      using ne(1) by (metis dropWhile_eq_drop last_drop not_le drop_eq_Nil)
    then have "hd (rev ?b) = hd ?a" using ne by (simp add: hd_rev last_rev)
    then show ?thesis using hd_dropWhile_not [OF ne(2)] by (intro dropWhile_id) simp
  next
    case True
    then show ?thesis by (simp only: dropWhile.simps(1))
  qed
  then show ?thesis by (simp add: TrimSpace_def dropWhile_snoc_eq)
qed

lemma lower_char_idem [simp]: "lower_char (lower_char c) = lower_char c"
proof -
  have "(of_char (char_of (n + 32) :: char) :: nat) = n + 32" if "n \<le> 90" for n :: nat
  proof -
    have "(n + 32) mod 256 = n + 32" using that by (intro mod_less) linarith
    then show ?thesis by simp
  qed
  then show ?thesis by (auto simp: lower_char_def Let_def)
qed

lemma ToLower_idem [simp]: "ToLower (ToLower s) = ToLower s"
  by (simp add: ToLower_def o_def)

section \<open>Decimal numbers\<close>

definition split_sign :: "string \<Rightarrow> real \<times> string" where
  "split_sign s = (case s of [] \<Rightarrow> (1, []) | c # r \<Rightarrow> if c = CHR ''-'' then (- 1, r) else if c = CHR ''+'' then (1, r) else (1, s))"

definition ParseFloat :: "string \<Rightarrow> f64 option" where
  \<comment> \<open>\<open>strconv.ParseFloat\<close> on decimal literals and the special names (hexadecimal literals are not modelled)\<close>
  "ParseFloat s =
     (let (sg, u) = split_sign s; w = ToLower u in
      if w = ''inf'' \<or> w = ''infinity'' then Some (if sg < 0 then NInf else PInf)
      else if ToLower s = ''nan'' then Some NaN
      else
        let ip = takeWhile is_digit w; r = dropWhile is_digit w;
            fp = (if take 1 r = ''.'' then takeWhile is_digit (drop 1 r) else []);
            r = (if take 1 r = ''.'' then dropWhile is_digit (drop 1 r) else r);
            m = real (digits_val ip) + real (digits_val fp) / 10 ^ length fp
        in if ip = [] \<and> fp = [] then None
           else if r = [] then Some (Fin (sg * m))
           else if take 1 r = ''e'' then
             (let (es, e) = split_sign (drop 1 r) in
              if e = [] \<or> \<not> list_all is_digit e then None
              else Some (Fin (sg * (if es < 0 then m / 10 ^ digits_val e else m * 10 ^ digits_val e))))
           else None)"

end
