(* ===== verification/Alloc.thy ===== *)
theory Alloc
  imports Risk_Config Dedupe Go_Text
begin

text \<open>
  \<open>internal/alloc/alloc.go\<close>: capital allocation over a whole board.  \<open>Run\<close> sorts the names into
  refused (unworthy, already open) and eligible, keeps the best name per identifier, ranks those
  by opportunity and takes them greedily under the position count and the gross budget.
  Lemmas: the take loop respects both budgets at every step, what it takes is a subsequence of
  the rank order, and every name offered to it ends on exactly one of the two lists.
\<close>

section \<open>Data\<close>

definition ReasonUnworthy :: string where "ReasonUnworthy = ''unworthy''"
definition ReasonOutranked_alloc :: string where "ReasonOutranked_alloc = ''outranked''"
definition ReasonAlreadyOpen_alloc :: string where "ReasonAlreadyOpen_alloc = ''already_open''"

record name =
  n_Time :: gotime
  n_ConditionID :: string
  n_TokenID :: string
  n_MarketID :: string
  n_Side :: string
  n_EdgeBps :: f64
  n_Conviction :: f64
  n_Urgency :: f64
  n_SpreadBps :: f64
  n_Mid :: f64
  n_CostBps :: f64
  n_SizeUSD :: f64
  n_CapacityUSD :: f64
  n_FVSource :: string
  n_ScorePath :: string
  n_HorizonSec :: int
  n_Strategy :: string
  n_StrategyVersionID :: "int option"

record worthiness =
  w_MinEdgeBps :: f64
  w_MaxSpreadBps :: f64
  w_RequireFV :: bool

record rejected =
  rj_Name :: name
  rj_Reason :: string

record alloc_input =
  ai_Names :: "name list"
  ai_Risk :: risk_config
  ai_Worth :: worthiness
  ai_Open :: "string list"

record alloc_result =
  ar_Taken :: "name list"
  ar_Rejected :: "rejected list"

section \<open>The gates\<close>

definition unworthy :: "name \<Rightarrow> worthiness \<Rightarrow> string" where
  "unworthy n w =
     (if w_MinEdgeBps w > 0 \<and> \<bar>n_EdgeBps n\<bar> < w_MinEdgeBps w then ReasonUnworthy
      else if w_MaxSpreadBps w > 0 \<and> n_SpreadBps n > w_MaxSpreadBps w then ReasonUnworthy
      else if w_RequireFV w \<and>
              (n_FVSource n = '''' \<or> n_FVSource n = ''none'' \<or> n_ScorePath n = ''proxy'')
        then ReasonUnworthy
      else '''')"

definition open_set :: "string list \<Rightarrow> string list" where
  "open_set ids = filter (\<lambda>id. id \<noteq> '''') ids"

definition gate :: "worthiness \<Rightarrow> string list \<Rightarrow> name \<Rightarrow> string" where
  \<comment> \<open>the reason the first loop of \<open>Run\<close> refuses a name with, empty for an eligible one\<close>
  "gate w opn n =
     (if unworthy n w \<noteq> '''' then unworthy n w
      else if n_ConditionID n \<noteq> '''' \<and> n_ConditionID n \<in> set opn then ReasonAlreadyOpen_alloc
      else '''')"

definition name_id :: "name \<Rightarrow> string" where
  "name_id n =
     (let id = n_ConditionID n;
          id = (if id = '''' then n_TokenID n else id)
      in if id = '''' then n_TokenID n @ ''#'' @ rfc3339_nano (n_Time n) else id)"

definition name_score :: "risk_config \<Rightarrow> name \<Rightarrow> f64" where
  "name_score cfg n = OpportunityScore cfg (n_EdgeBps n) (n_Conviction n) (n_Urgency n)"

definition dedupeBest :: "risk_config \<Rightarrow> name list \<Rightarrow> name list" where
  "dedupeBest cfg batch = dedupe_best name_id (name_score cfg) batch"

interpretation alloc_dedupe: best_per_key name_id "name_score cfg" "dedupeBest cfg" for cfg
  unfolding dedupeBest_def by (rule best_per_key_dedupe)

section \<open>The take loop\<close>

record take_state =
  ts_Taken :: "name list"
  ts_Rejected :: "rejected list"
  ts_Gross :: f64

definition implied_size :: "f64 \<Rightarrow> name \<Rightarrow> f64" where
  "implied_size maxPos n = (if n_SizeUSD n \<le> 0 then maxPos else n_SizeUSD n)"

definition take_step :: "int \<Rightarrow> f64 \<Rightarrow> f64 \<Rightarrow> take_state \<Rightarrow> name \<Rightarrow> take_state" where
  "take_step maxN maxGross maxPos st n =
     (if int (length (ts_Taken st)) \<ge> maxN
      then st\<lparr>ts_Rejected := ts_Rejected st @ [\<lparr>rj_Name = n, rj_Reason = ReasonOutranked_alloc\<rparr>]\<rparr>
      else
        let add = implied_size maxPos n in
        if maxGross > 0 \<and> ts_Gross st + add > maxGross + Fin (1 / 10 ^ 9)
        then st\<lparr>ts_Rejected := ts_Rejected st @ [\<lparr>rj_Name = n, rj_Reason = ReasonOutranked_alloc\<rparr>]\<rparr>
        else st\<lparr>ts_Taken := ts_Taken st @ [n], ts_Gross := ts_Gross st + add\<rparr>)"

definition rank_names :: "risk_config \<Rightarrow> name list \<Rightarrow> name list" where
  \<comment> \<open>the eligible names in the order of \<open>risk.BuildRankOrder\<close>\<close>
  "rank_names cfg eligible =
     map ((!) eligible)
       (BuildRankOrder cfg (map n_EdgeBps eligible) (map n_Conviction eligible) (map n_Urgency eligible))"

definition eligible_names :: "alloc_input \<Rightarrow> name list" where
  "eligible_names inp =
     dedupeBest (Normalize (ai_Risk inp))
       (filter (\<lambda>n. gate (ai_Worth inp) (open_set (ai_Open inp)) n = '''') (ai_Names inp))"

definition gate_rejected :: "alloc_input \<Rightarrow> rejected list" where
  "gate_rejected inp =
     map (\<lambda>n. \<lparr>rj_Name = n, rj_Reason = gate (ai_Worth inp) (open_set (ai_Open inp)) n\<rparr>)
       (filter (\<lambda>n. gate (ai_Worth inp) (open_set (ai_Open inp)) n \<noteq> '''') (ai_Names inp))"

definition Run :: "alloc_input \<Rightarrow> alloc_result" where
  "Run inp =
     (let cfg = Normalize (ai_Risk inp);
          eligible = eligible_names inp;
          maxN = (if rc_MaxPositions cfg \<le> 0 then int (length eligible) else rc_MaxPositions cfg);
          maxGross = rc_MaxGrossUSD cfg;
          maxPos = (if rc_MaxPositionUSD cfg \<le> 0 then 500 else rc_MaxPositionUSD cfg)
      in if eligible = [] then \<lparr>ar_Taken = [], ar_Rejected = gate_rejected inp\<rparr>
         else
           let st = foldl (take_step maxN maxGross maxPos)
                 \<lparr>ts_Taken = [], ts_Rejected = gate_rejected inp, ts_Gross = 0\<rparr>
                 (rank_names cfg eligible)
           in \<lparr>ar_Taken = ts_Taken st, ar_Rejected = ts_Rejected st\<rparr>)"

section \<open>Lemmas\<close>

lemma rank_names_mset: "mset (rank_names cfg xs) = mset xs"
  unfolding rank_names_def by (rule BuildRankOrder_nth) simp

lemma rank_names_set [simp]: "set (rank_names cfg xs) = set xs"
  by (metis rank_names_mset set_mset_mset)

lemma score_at_names:
  "i < length xs \<Longrightarrow> score_at cfg (map n_EdgeBps xs) (map n_Conviction xs) (map n_Urgency xs) i =
     name_score cfg (xs ! i)"
  by (simp add: score_at_def name_score_def nth_or_def)

lemma rank_names_sorted:
  assumes nn: "\<forall>n \<in> set xs. name_score cfg n \<noteq> NaN"
  shows "sorted_wrt (\<lambda>a b. name_score cfg b \<le> name_score cfg a) (rank_names cfg xs)"
proof -
  let ?es = "map n_EdgeBps xs" and ?cs = "map n_Conviction xs" and ?us = "map n_Urgency xs"
  let ?o = "BuildRankOrder cfg ?es ?cs ?us"
  have mem: "\<forall>i \<in> set ?o. i < length xs" by (simp add: BuildRankOrder_set)
  have "sorted_wrt (\<lambda>i j. score_at cfg ?es ?cs ?us j < score_at cfg ?es ?cs ?us i \<or>
      score_at cfg ?es ?cs ?us i = score_at cfg ?es ?cs ?us j \<and> i < j) ?o"
    by (rule BuildRankOrder_sorted) (use nn in \<open>auto simp: score_at_names\<close>)
  then have "sorted_wrt (\<lambda>i j. name_score cfg (xs ! j) \<le> name_score cfg (xs ! i)) ?o"
    by (rule sorted_wrt_mono_rel [rotated])
      (use mem nn in \<open>auto simp: score_at_names f64_less_imp_le\<close>)
  then show ?thesis by (simp add: rank_names_def sorted_wrt_map)
qed

text \<open>One pass of the take loop over a list of names.\<close>

definition take_all :: "int \<Rightarrow> f64 \<Rightarrow> f64 \<Rightarrow> take_state \<Rightarrow> name list \<Rightarrow> take_state" where
  "take_all maxN maxGross maxPos = foldl (take_step maxN maxGross maxPos)"

lemma take_step_cases:
  "(ts_Taken (take_step N G P st n) = ts_Taken st \<and> ts_Gross (take_step N G P st n) = ts_Gross st \<and>
    ts_Rejected (take_step N G P st n) =
      ts_Rejected st @ [\<lparr>rj_Name = n, rj_Reason = ReasonOutranked_alloc\<rparr>] \<and>
    (int (length (ts_Taken st)) \<ge> N \<or>
      G > 0 \<and> ts_Gross st + implied_size P n > G + Fin (1 / 10 ^ 9))) \<or>
   (ts_Taken (take_step N G P st n) = ts_Taken st @ [n] \<and>
    ts_Gross (take_step N G P st n) = ts_Gross st + implied_size P n \<and>
    ts_Rejected (take_step N G P st n) = ts_Rejected st \<and> int (length (ts_Taken st)) < N \<and>
    \<not> (G > 0 \<and> ts_Gross st + implied_size P n > G + Fin (1 / 10 ^ 9)))"
  by (simp add: take_step_def Let_def)

lemma take_all_snoc: "take_all N G P st (xs @ [x]) = take_step N G P (take_all N G P st xs) x"
  by (simp add: take_all_def)

lemma take_all_account:
  "mset (ts_Taken (take_all N G P st xs)) + mset (map rj_Name (ts_Rejected (take_all N G P st xs))) =
     mset (ts_Taken st) + mset (map rj_Name (ts_Rejected st)) + mset xs"
proof (induction xs rule: rev_induct)
  case Nil
  show ?case by (simp add: take_all_def)
next
  case (snoc x xs)
  then show ?case unfolding take_all_snoc
    using take_step_cases [of N G P "take_all N G P st xs" x] by auto
qed

lemma take_all_count:
  "int (length (ts_Taken st)) \<le> N \<Longrightarrow> int (length (ts_Taken (take_all N G P st xs))) \<le> N"
proof (induction xs rule: rev_induct)
  case Nil
  then show ?case by (simp add: take_all_def)
next
  case (snoc x xs)
  then show ?case unfolding take_all_snoc
    using take_step_cases [of N G P "take_all N G P st xs" x] by auto
qed

lemma take_all_subseq:
  "ts_Taken st = [] \<Longrightarrow> subseq (ts_Taken (take_all N G P st xs)) xs"
proof (induction xs rule: rev_induct)
  case Nil
  then show ?case by (simp add: take_all_def)
next
  case (snoc x xs)
  then show ?case unfolding take_all_snoc
    using take_step_cases [of N G P "take_all N G P st xs" x]
    by (auto intro: subseq_rev_drop_many)
qed

lemma take_all_gross:
  "ts_Gross st = fsum (map (implied_size P) (ts_Taken st)) \<Longrightarrow>
   ts_Gross (take_all N G P st xs) = fsum (map (implied_size P) (ts_Taken (take_all N G P st xs)))"
proof (induction xs rule: rev_induct)
  case Nil
  then show ?case by (simp add: take_all_def)
next
  case (snoc x xs)
  then show ?case unfolding take_all_snoc
    using take_step_cases [of N G P "take_all N G P st xs" x] by auto
qed

lemma take_all_budget:
  "0 < G \<Longrightarrow> \<not> ts_Gross st > G + Fin (1 / 10 ^ 9) \<Longrightarrow>
   \<not> ts_Gross (take_all N G P st xs) > G + Fin (1 / 10 ^ 9)"
proof (induction xs rule: rev_induct)
  case Nil
  then show ?case by (simp add: take_all_def)
next
  case (snoc x xs)
  then show ?case unfolding take_all_snoc
    using take_step_cases [of N G P "take_all N G P st xs" x] by auto
qed

lemma take_all_rejected:
  "r \<in> set (ts_Rejected (take_all N G P st xs)) \<Longrightarrow>
   r \<in> set (ts_Rejected st) \<or> rj_Reason r = ReasonOutranked_alloc \<and> rj_Name r \<in> set xs"
proof (induction xs rule: rev_induct)
  case Nil
  then show ?case by (simp add: take_all_def)
next
  case (snoc x xs)
  then show ?case unfolding take_all_snoc
    using take_step_cases [of N G P "take_all N G P st xs" x] by auto
qed

text \<open>When every name implies the same size, a name that does not fit means none of the later do.\<close>

lemma take_all_prefix:
  assumes "\<forall>n \<in> set xs. implied_size P n = s" and "ts_Taken st = []"
  shows "prefix (ts_Taken (take_all N G P st xs)) xs \<and>
    (ts_Taken (take_all N G P st xs) = xs \<or>
     int (length (ts_Taken (take_all N G P st xs))) \<ge> N \<or>
     G > 0 \<and> ts_Gross (take_all N G P st xs) + s > G + Fin (1 / 10 ^ 9))"
  using assms(1)
proof (induction xs rule: rev_induct)
  case Nil
  then show ?case using assms(2) by (simp add: take_all_def)
next
  case (snoc x xs)
  let ?t = "take_all N G P st xs"
  have x: "implied_size P x = s" using snoc.prems by simp
  have IH: "prefix (ts_Taken ?t) xs" "ts_Taken ?t = xs \<or> int (length (ts_Taken ?t)) \<ge> N \<or>
      G > 0 \<and> ts_Gross ?t + s > G + Fin (1 / 10 ^ 9)"
    using snoc by auto
  from take_step_cases [of N G P ?t x, unfolded x] show ?case
  proof
    assume "ts_Taken (take_step N G P ?t x) = ts_Taken ?t \<and>
      ts_Gross (take_step N G P ?t x) = ts_Gross ?t \<and>
      ts_Rejected (take_step N G P ?t x) =
        ts_Rejected ?t @ [\<lparr>rj_Name = x, rj_Reason = ReasonOutranked_alloc\<rparr>] \<and>
      (int (length (ts_Taken ?t)) \<ge> N \<or> G > 0 \<and> ts_Gross ?t + s > G + Fin (1 / 10 ^ 9))"
    then show ?thesis unfolding take_all_snoc using prefix_prefix [OF IH(1)] by presburger
  next
    assume "ts_Taken (take_step N G P ?t x) = ts_Taken ?t @ [x] \<and>
      ts_Gross (take_step N G P ?t x) = ts_Gross ?t + s \<and>
      ts_Rejected (take_step N G P ?t x) = ts_Rejected ?t \<and> int (length (ts_Taken ?t)) < N \<and>
      \<not> (G > 0 \<and> ts_Gross ?t + s > G + Fin (1 / 10 ^ 9))"
    then show ?thesis unfolding take_all_snoc using IH(2) by (metis not_less prefix_order.order_refl)
  qed
qed

text \<open>\<open>Run\<close> as one pass of the take loop, the empty board included.\<close>

lemma Run_take_all:
  "Run inp =
     (let cfg = Normalize (ai_Risk inp);
          N = (if rc_MaxPositions cfg \<le> 0 then int (length (eligible_names inp)) else rc_MaxPositions cfg);
          P = (if rc_MaxPositionUSD cfg \<le> 0 then 500 else rc_MaxPositionUSD cfg);
          st = take_all N (rc_MaxGrossUSD cfg) P
                 \<lparr>ts_Taken = [], ts_Rejected = gate_rejected inp, ts_Gross = 0\<rparr>
                 (rank_names cfg (eligible_names inp))
      in \<lparr>ar_Taken = ts_Taken st, ar_Rejected = ts_Rejected st\<rparr>)"
  by (simp add: Run_def take_all_def Let_def rank_names_def BuildRankOrder_def rank_items_def
      SortByOpportunity_def)

lemma Run_ok:
  assumes "config_fin (ai_Risk inp)"
  defines "cfg \<equiv> Normalize (ai_Risk inp)"
  shows "Run inp =
     (let st = take_all (rc_MaxPositions cfg) (rc_MaxGrossUSD cfg) (rc_MaxPositionUSD cfg)
                 \<lparr>ts_Taken = [], ts_Rejected = gate_rejected inp, ts_Gross = 0\<rparr>
                 (rank_names cfg (eligible_names inp))
      in \<lparr>ar_Taken = ts_Taken st, ar_Rejected = ts_Rejected st\<rparr>)"
    and "0 < rc_MaxPositions cfg" and "0 < rc_MaxGrossUSD cfg" and "isfin (rc_MaxGrossUSD cfg)"
    and "isfin (rc_MaxPositionUSD cfg)"
proof -
  have ok: "config_ok cfg" unfolding cfg_def by (rule Normalize_config_ok [OF assms(1)])
  then have "\<not> rc_MaxPositions cfg \<le> 0" "\<not> rc_MaxPositionUSD cfg \<le> 0"
    by (auto simp: config_ok_def config_fin_def isfin_order)
  then show "Run inp =
     (let st = take_all (rc_MaxPositions cfg) (rc_MaxGrossUSD cfg) (rc_MaxPositionUSD cfg)
                 \<lparr>ts_Taken = [], ts_Rejected = gate_rejected inp, ts_Gross = 0\<rparr>
                 (rank_names cfg (eligible_names inp))
      in \<lparr>ar_Taken = ts_Taken st, ar_Rejected = ts_Rejected st\<rparr>)"
    by (simp add: Run_take_all cfg_def Let_def)
  show "0 < rc_MaxPositions cfg" "0 < rc_MaxGrossUSD cfg" "isfin (rc_MaxGrossUSD cfg)"
    "isfin (rc_MaxPositionUSD cfg)"
    using ok by (auto simp: config_ok_def config_fin_def isfin_order)
qed

lemma gate_split: "mset (map rj_Name (gate_rejected inp)) +
    mset (filter (\<lambda>n. gate (ai_Worth inp) (open_set (ai_Open inp)) n = '''') (ai_Names inp)) =
    mset (ai_Names inp)"
  unfolding gate_rejected_def by (simp add: o_def mset_filter add.commute flip: multiset_partition)

text \<open>What \<open>Run\<close> takes is a subsequence of the ranked eligible names.\<close>

lemma Run_taken_subseq:
  "subseq (ar_Taken (Run inp)) (rank_names (Normalize (ai_Risk inp)) (eligible_names inp))"
  unfolding Run_take_all Let_def by (simp add: take_all_subseq)

lemma Run_taken_eligible: "set (ar_Taken (Run inp)) \<subseteq> set (eligible_names inp)"
  using subseq_set [OF Run_taken_subseq] by simp

lemma eligible_gate:
  "n \<in> set (eligible_names inp) \<Longrightarrow>
   n \<in> set (ai_Names inp) \<and> gate (ai_Worth inp) (open_set (ai_Open inp)) n = ''''"
  using alloc_dedupe.kept_subset unfolding eligible_names_def by fastforce

lemma Run_taken_subset: "set (ar_Taken (Run inp)) \<subseteq> set (ai_Names inp)"
  using Run_taken_eligible eligible_gate by blast

lemma Run_account:
  "mset (ar_Taken (Run inp)) + mset (map rj_Name (ar_Rejected (Run inp))) =
   mset (map rj_Name (gate_rejected inp)) + mset (eligible_names inp)"
  unfolding Run_take_all Let_def by (simp add: take_all_account [unfolded mset_map] rank_names_mset)

lemma Run_taken_ids: "distinct (map name_id (ar_Taken (Run inp)))"
proof -
  let ?ids = "map name_id (rank_names (Normalize (ai_Risk inp)) (eligible_names inp))"
  have "distinct (map name_id (eligible_names inp))"
    unfolding eligible_names_def by (rule alloc_dedupe.one_each)
  moreover have "mset ?ids = mset (map name_id (eligible_names inp))" by (simp add: rank_names_mset)
  ultimately have "distinct ?ids" by (metis mset_eq_imp_distinct_iff)
  then show ?thesis by (rule subseq_distinct [OF subseq_map [OF Run_taken_subseq]])
qed

lemma Run_taken_worthy: "n \<in> set (ar_Taken (Run inp)) \<Longrightarrow> unworthy n (ai_Worth inp) = ''''"
  using Run_taken_eligible eligible_gate by (fastforce simp: gate_def split: if_splits)

lemma Run_budget:
  assumes "config_fin (ai_Risk inp)" and "\<forall>n \<in> set (ai_Names inp). isfin (n_SizeUSD n)"
  defines "cfg \<equiv> Normalize (ai_Risk inp)"
  shows "int (length (ar_Taken (Run inp))) \<le> rc_MaxPositions cfg
    \<and> sum_list (map (rval \<circ> implied_size (rc_MaxPositionUSD cfg)) (ar_Taken (Run inp)))
        \<le> rval (rc_MaxGrossUSD cfg) + 1 / 10 ^ 9"
proof -
  note R = Run_ok [OF assms(1), folded cfg_def]
  let ?init = "\<lparr>ts_Taken = [], ts_Rejected = gate_rejected inp, ts_Gross = 0 :: f64\<rparr>"
  let ?st = "take_all (rc_MaxPositions cfg) (rc_MaxGrossUSD cfg) (rc_MaxPositionUSD cfg) ?init
    (rank_names cfg (eligible_names inp))"
  have taken: "ar_Taken (Run inp) = ts_Taken ?st" by (simp add: R(1) Let_def)
  have sub: "set (ts_Taken ?st) \<subseteq> set (ai_Names inp)"
    using Run_taken_subset [of inp] by (simp add: taken)
  have fin: "\<forall>x \<in> set (map (implied_size (rc_MaxPositionUSD cfg)) (ts_Taken ?st)). isfin x"
    using sub assms(2) R(5) by (auto simp: implied_size_def)
  have gross: "ts_Gross ?st = fsum (map (implied_size (rc_MaxPositionUSD cfg)) (ts_Taken ?st))"
    by (rule take_all_gross) simp
  have "\<not> ts_Gross ?st > rc_MaxGrossUSD cfg + Fin (1 / 10 ^ 9)"
    using R(3,4) by (intro take_all_budget) (auto simp: isfin_order)
  then have "rval (ts_Gross ?st) \<le> rval (rc_MaxGrossUSD cfg) + 1 / 10 ^ 9"
    using R(4) fin by (simp add: gross isfin_fsum isfin_order)
  then show ?thesis
    using take_all_count [of ?init "rc_MaxPositions cfg" "rc_MaxGrossUSD cfg" "rc_MaxPositionUSD cfg"
      "rank_names cfg (eligible_names inp)"] R(2) fin
    by (simp add: taken gross rval_fsum o_def)
qed

section \<open>Properties\<close>

definition demo_name :: name where
  "demo_name = \<lparr>n_Time = 63000000000000000000, n_ConditionID = ''0xa'', n_TokenID = ''1'',
     n_MarketID = ''m'', n_Side = ''BUY'', n_EdgeBps = 150, n_Conviction = Fin (1 / 2), n_Urgency = 0,
     n_SpreadBps = 40, n_Mid = Fin (1 / 2), n_CostBps = 10, n_SizeUSD = 100, n_CapacityUSD = 1000,
     n_FVSource = ''book'', n_ScorePath = ''fv'', n_HorizonSec = 3600, n_Strategy = ''s'',
     n_StrategyVersionID = None\<rparr>"

definition demo_input :: alloc_input where
  \<comment> \<open>two quotes of one condition, the second with the better edge, and one refused name\<close>
  "demo_input = \<lparr>ai_Names = [demo_name, demo_name\<lparr>n_EdgeBps := 300\<rparr>,
       demo_name\<lparr>n_ConditionID := ''0xb'', n_EdgeBps := 2\<rparr>],
     ai_Risk = DefaultConfig,
     ai_Worth = \<lparr>w_MinEdgeBps = 50, w_MaxSpreadBps = 0, w_RequireFV = False\<rparr>, ai_Open = []\<rparr>"

lemma demo_scores:
  "\<forall>n \<in> set (ai_Names demo_input). name_score (Normalize (ai_Risk demo_input)) n \<noteq> NaN"
proof -
  have cfg: "config_fin (Normalize (ai_Risk demo_input))"
    by (simp add: demo_input_def config_ok_fin Normalize_config_ok config_fin_Default)
  have "isfin (name_score (Normalize (ai_Risk demo_input)) n)" if "n \<in> set (ai_Names demo_input)" for n
    unfolding name_score_def
    by (rule isfin_OpportunityScore [OF cfg]) (use that in \<open>auto simp: demo_input_def demo_name_def\<close>)
  then show ?thesis by (auto dest: isfin_notNaN)
qed

text \<open>C15: An allocation never exceeds the risk budget: for a finite configuration and finite sizes
  the number of taken names is at most \<open>max_positions\<close> and the sum of their sizes, where a missing
  size counts as a full position, is at most \<open>max_gross_usd\<close> up to the tolerance 1e-9.\<close>

theorem alloc_budget:
  assumes "config_fin (ai_Risk inp)" and "\<forall>n \<in> set (ai_Names inp). isfin (n_SizeUSD n)"
  defines "cfg \<equiv> Normalize (ai_Risk inp)"
  shows "int (length (ar_Taken (Run inp))) \<le> rc_MaxPositions cfg
    \<and> sum_list (map (rval \<circ> implied_size (rc_MaxPositionUSD cfg)) (ar_Taken (Run inp)))
        \<le> rval (rc_MaxGrossUSD cfg) + 1 / 10 ^ 9"
  unfolding cfg_def by (rule Run_budget [OF assms(1,2)])

theorem alloc_budget_witness:
  "int (length (ar_Taken (Run demo_input))) \<le> rc_MaxPositions (Normalize DefaultConfig)"
proof -
  have "config_fin (ai_Risk demo_input)"
    by (simp add: demo_input_def config_fin_Default)
  moreover have "\<forall>n \<in> set (ai_Names demo_input). isfin (n_SizeUSD n)"
    by (simp add: demo_input_def demo_name_def)
  ultimately show ?thesis using alloc_budget [of demo_input] by (simp add: demo_input_def)
qed

text \<open>C19: What an allocation takes is worthy and fresh, and comes best first: every taken name was on
  the board, passes the worthiness bar, is not already open, no two share an identifier, and when no
  score is NaN they appear in descending order of opportunity.\<close>

theorem alloc_selection:
  assumes "\<forall>n \<in> set (ai_Names inp). name_score (Normalize (ai_Risk inp)) n \<noteq> NaN"
  shows "(\<forall>n \<in> set (ar_Taken (Run inp)). n \<in> set (ai_Names inp) \<and> unworthy n (ai_Worth inp) = ''''
        \<and> (n_ConditionID n = '''' \<or> n_ConditionID n \<notin> set (ai_Open inp)))
    \<and> distinct (map name_id (ar_Taken (Run inp)))
    \<and> sorted_wrt (\<lambda>a b. name_score (Normalize (ai_Risk inp)) b \<le> name_score (Normalize (ai_Risk inp)) a)
        (ar_Taken (Run inp))"
proof (intro conjI ballI)
  let ?cfg = "Normalize (ai_Risk inp)"
  fix n assume "n \<in> set (ar_Taken (Run inp))"
  then have n: "n \<in> set (ai_Names inp)" "gate (ai_Worth inp) (open_set (ai_Open inp)) n = ''''"
    using Run_taken_eligible eligible_gate by blast+
  then show "n \<in> set (ai_Names inp)" by simp
  show "unworthy n (ai_Worth inp) = ''''" "n_ConditionID n = '''' \<or> n_ConditionID n \<notin> set (ai_Open inp)"
    using n(2) by (auto simp: gate_def open_set_def ReasonAlreadyOpen_alloc_def split: if_splits)
next
  show "distinct (map name_id (ar_Taken (Run inp)))" by (rule Run_taken_ids)
next
  let ?R = "\<lambda>a b. name_score (Normalize (ai_Risk inp)) b \<le> name_score (Normalize (ai_Risk inp)) a"
  have "\<forall>n \<in> set (eligible_names inp). name_score (Normalize (ai_Risk inp)) n \<noteq> NaN"
    using assms eligible_gate by blast
  from rank_names_sorted [OF this] show "sorted_wrt ?R (ar_Taken (Run inp))"
    by (rule subseq_sorted_wrt [OF Run_taken_subseq])
qed

theorem alloc_selection_witness: "distinct (map name_id (ar_Taken (Run demo_input)))"
  using alloc_selection [OF demo_scores] by blast

text \<open>Every name of the board is accounted for, up to duplicates: the taken and the rejected
  names are, with their multiplicity, names of the board; a name that is on neither list lost to a
  listed name with the same identifier and at least its score (when no score is NaN); so a board
  without duplicate identifiers is split exactly into taken and rejected.\<close>

theorem alloc_accounts:
  assumes "\<forall>n \<in> set (ai_Names inp). name_score (Normalize (ai_Risk inp)) n \<noteq> NaN"
  shows "mset (ar_Taken (Run inp)) + mset (map rj_Name (ar_Rejected (Run inp))) \<subseteq># mset (ai_Names inp)
    \<and> (\<forall>n \<in> set (ai_Names inp). n \<in> set (ar_Taken (Run inp)) \<or> n \<in> rj_Name ` set (ar_Rejected (Run inp))
        \<or> (\<exists>b \<in> set (ar_Taken (Run inp)) \<union> rj_Name ` set (ar_Rejected (Run inp)).
             name_id b = name_id n \<and>
             name_score (Normalize (ai_Risk inp)) n \<le> name_score (Normalize (ai_Risk inp)) b))
    \<and> (distinct (map name_id (ai_Names inp)) \<longrightarrow>
        mset (ar_Taken (Run inp)) + mset (map rj_Name (ar_Rejected (Run inp))) = mset (ai_Names inp))"
proof -
  let ?ok = "filter (\<lambda>n. gate (ai_Worth inp) (open_set (ai_Open inp)) n = '''') (ai_Names inp)"
  let ?cfg = "Normalize (ai_Risk inp)"
  let ?L = "mset (ar_Taken (Run inp)) + mset (map rj_Name (ar_Rejected (Run inp)))"
  have el: "eligible_names inp = dedupeBest ?cfg ?ok" by (simp add: eligible_names_def)
  have L: "?L = mset (map rj_Name (gate_rejected inp)) + mset (eligible_names inp)"
    by (rule Run_account)
  have sub: "mset (eligible_names inp) \<subseteq># mset ?ok"
    unfolding el by (rule subseq_mset [OF alloc_dedupe.sub])
  have "?L \<subseteq># mset (ai_Names inp)"
    unfolding L gate_split [of inp, symmetric] using sub by simp
  moreover
  have setL: "set (ar_Taken (Run inp)) \<union> rj_Name ` set (ar_Rejected (Run inp)) =
      rj_Name ` set (gate_rejected inp) \<union> set (eligible_names inp)"
    using arg_cong [OF L, of set_mset] by simp
  have "n \<in> rj_Name ` set (gate_rejected inp) \<or>
      (\<exists>b \<in> set (eligible_names inp). name_id b = name_id n \<and> name_score ?cfg n \<le> name_score ?cfg b)"
    if n: "n \<in> set (ai_Names inp)" for n
  proof (cases "n \<in> set ?ok")
    case True
    have "\<forall>x \<in> set ?ok. name_score ?cfg x \<noteq> NaN" using assms by simp
    from alloc_dedupe.dropped_beaten [OF this True] show ?thesis by (simp add: el)
  next
    case False
    with n show ?thesis by (force simp: gate_rejected_def image_iff)
  qed
  then have "\<forall>n \<in> set (ai_Names inp). n \<in> set (ar_Taken (Run inp)) \<or> n \<in> rj_Name ` set (ar_Rejected (Run inp))
        \<or> (\<exists>b \<in> set (ar_Taken (Run inp)) \<union> rj_Name ` set (ar_Rejected (Run inp)).
             name_id b = name_id n \<and> name_score ?cfg n \<le> name_score ?cfg b)"
    using setL [THEN eqset_imp_iff] by (metis Un_iff)
  moreover have "?L = mset (ai_Names inp)" if "distinct (map name_id (ai_Names inp))"
  proof -
    have "distinct (map name_id ?ok)" using that by (simp add: distinct_map_filter)
    then have "eligible_names inp = ?ok" unfolding el by (rule alloc_dedupe.nothing_to_drop)
    then show ?thesis unfolding L by (simp only: gate_split)
  qed
  ultimately show ?thesis by blast
qed

theorem alloc_accounts_witness:
  "mset (ar_Taken (Run demo_input)) + mset (map rj_Name (ar_Rejected (Run demo_input)))
     \<subseteq># mset (ai_Names demo_input)"
  using alloc_accounts [OF demo_scores] by blast

text \<open>With names of equal implied size the greedy pass is a top-K selection: the taken names are
  a prefix of the rank order, and the pass stops short of the whole order only because the position
  count is exhausted or one more name would exceed the gross budget.\<close>

theorem alloc_top_k:
  assumes "config_fin (ai_Risk inp)"
    and "\<forall>n \<in> set (ai_Names inp). implied_size (rc_MaxPositionUSD (Normalize (ai_Risk inp))) n = s"
  shows "prefix (ar_Taken (Run inp)) (rank_names (Normalize (ai_Risk inp)) (eligible_names inp))
    \<and> (set (ar_Taken (Run inp)) = set (eligible_names inp)
       \<or> int (length (ar_Taken (Run inp))) = rc_MaxPositions (Normalize (ai_Risk inp))
       \<or> fsum (map (\<lambda>n. s) (ar_Taken (Run inp))) + s
            > rc_MaxGrossUSD (Normalize (ai_Risk inp)) + Fin (1 / 10 ^ 9))"
proof -
  let ?cfg = "Normalize (ai_Risk inp)"
  let ?init = "\<lparr>ts_Taken = [], ts_Rejected = gate_rejected inp, ts_Gross = 0 :: f64\<rparr>"
  let ?xs = "rank_names ?cfg (eligible_names inp)"
  let ?st = "take_all (rc_MaxPositions ?cfg) (rc_MaxGrossUSD ?cfg) (rc_MaxPositionUSD ?cfg) ?init ?xs"
  note R = Run_ok [OF assms(1)]
  have taken: "ar_Taken (Run inp) = ts_Taken ?st" by (simp add: R(1) Let_def)
  have same: "\<forall>n \<in> set ?xs. implied_size (rc_MaxPositionUSD ?cfg) n = s"
    using assms(2) eligible_gate by simp
  have pre: "prefix (ts_Taken ?st) ?xs"
    "ts_Taken ?st = ?xs \<or> int (length (ts_Taken ?st)) \<ge> rc_MaxPositions ?cfg \<or>
      ts_Gross ?st + s > rc_MaxGrossUSD ?cfg + Fin (1 / 10 ^ 9)"
    using take_all_prefix [OF same, of ?init "rc_MaxPositions ?cfg" "rc_MaxGrossUSD ?cfg"] by auto
  have "ts_Gross ?st = fsum (map (implied_size (rc_MaxPositionUSD ?cfg)) (ts_Taken ?st))"
    by (rule take_all_gross) simp
  also have "map (implied_size (rc_MaxPositionUSD ?cfg)) (ts_Taken ?st) = map (\<lambda>n. s) (ts_Taken ?st)"
    by (intro map_cong refl) (use same set_mono_prefix [OF pre(1)] in blast)
  finally have gross: "ts_Gross ?st = fsum (map (\<lambda>n. s) (ts_Taken ?st))" .
  have "int (length (ts_Taken ?st)) \<le> rc_MaxPositions ?cfg"
    using R(2) by (intro take_all_count) simp
  with pre(2) have "ts_Taken ?st = ?xs \<or> int (length (ts_Taken ?st)) = rc_MaxPositions ?cfg \<or>
      fsum (map (\<lambda>n. s) (ts_Taken ?st)) + s > rc_MaxGrossUSD ?cfg + Fin (1 / 10 ^ 9)"
    unfolding gross by linarith
  then show ?thesis unfolding taken using pre(1) by (metis rank_names_set)
qed

theorem alloc_top_k_witness:
  "prefix (ar_Taken (Run demo_input)) (rank_names (Normalize (ai_Risk demo_input)) (eligible_names demo_input))"
proof -
  have "config_fin (ai_Risk demo_input)"
    by (simp add: demo_input_def config_fin_Default)
  moreover have "\<forall>n \<in> set (ai_Names demo_input).
      implied_size (rc_MaxPositionUSD (Normalize (ai_Risk demo_input))) n = 100"
    by (simp add: demo_input_def demo_name_def implied_size_def f64_eval)
  ultimately show ?thesis using alloc_top_k [of demo_input 100] by blast
qed

end
