(* ===== verification/Risk_Manager.thy ===== *)
theory Risk_Manager
  imports Risk_Config
begin

text \<open>
  \<open>internal/risk/manager.go\<close>: the portfolio risk manager.  Its state is the record
  \<open>manager\<close>; \<open>Accept\<close> decides on a signal and returns the manager too, because it may roll the
  trading day.  Lemmas: the size \<open>Accept\<close> grants is inside every cap, the drawdown halt is
  absorbing, the day halt lasts until the next UTC day, and the step relation \<open>risk_step\<close>
  (the calls the simulation makes) keeps \<open>risk_inv\<close>: gross exposure and number of positions
  under their caps, the peak above the equity, and no open trading at or past a drawdown limit.
\<close>

section \<open>State\<close>

datatype risk_state = StateOK | StateHaltedDay | StateHaltedDD

datatype reason =
    ReasonOK | ReasonHaltedDay | ReasonHaltedDD | ReasonMaxPositions | ReasonAlreadyOpen
  | ReasonMaxGross | ReasonSizeZero | ReasonInvalidSig | ReasonOutranked

record signal_input =
  si_Time :: gotime
  si_ConditionID :: string
  si_Side :: string
  si_SizeUSD :: f64
  si_EdgeBps :: f64
  si_Conviction :: f64
  si_CapacityUSD :: f64
  si_Urgency :: f64
  si_KellyFrac :: "f64 option"

record decision =
  d_Accept :: bool
  d_SizeUSD :: f64
  d_Reason :: reason
  d_KellyFrac :: f64
  d_Scale :: f64
  d_OpportunityScore :: f64

record position =
  pos_ConditionID :: string
  pos_Side :: string
  pos_SizeUSD :: f64
  pos_Shares :: f64
  pos_EntryMid :: f64
  pos_OpenedAt :: gotime
  pos_SignalID :: string

record event =
  ev_Time :: gotime
  ev_Type :: string
  ev_Detail :: string

record manager =
  m_Cfg :: risk_config
  m_Equity :: f64
  m_PeakEquity :: f64
  m_DayOpenEq :: f64
  m_DayUTC :: gotime
  m_State :: risk_state
  m_Positions :: "(string, position) gomap"
  m_PeriodReturns :: "f64 list"
  m_Events :: "event list"

definition NewManager :: "risk_config \<Rightarrow> manager" where
  "NewManager cfg =
     (let cfg = Normalize cfg; eq = rc_StartingEquityUSD cfg
      in \<lparr>m_Cfg = cfg, m_Equity = eq, m_PeakEquity = eq, m_DayOpenEq = eq, m_DayUTC = 0,
          m_State = StateOK, m_Positions = [], m_PeriodReturns = [], m_Events = []\<rparr>)"

definition GrossExposure :: "manager \<Rightarrow> f64" where
  "GrossExposure m = fsum (map ((\<lambda>p. \<bar>pos_SizeUSD p\<bar>) \<circ> snd) (m_Positions m))"

section \<open>Sizing\<close>

definition volScale :: "manager \<Rightarrow> f64" where
  "volScale m =
     (let n = rc_VolLookbackPeriods (m_Cfg m) in
      if n \<le> 1 \<or> length (m_PeriodReturns m) < 2 then 1
      else
        let rets = (if int (length (m_PeriodReturns m)) > n
                    then drop (length (m_PeriodReturns m) - nat n) (m_PeriodReturns m)
                    else m_PeriodReturns m);
            mean = fsum rets / of_len (length rets);
            sumsq = fsum (map (\<lambda>r. (r - mean) * (r - mean)) rets);
            stdev = math_Sqrt (sumsq / of_len (length rets))
        in if stdev < Fin (1 / 10 ^ 12) then 1
           else
             let periodTarget = rc_VolTargetAnn (m_Cfg m) / math_Sqrt 252;
                 s = periodTarget / stdev;
                 s = (if s > 3 then 3 else s)
             in if s < Fin (1 / 10) then Fin (1 / 10) else s)"

definition sizing_conv :: "f64 \<Rightarrow> f64" where
  "sizing_conv c = (let conv = clip01 c in if feq conv 0 then Fin (1 / 2) else conv)"

definition base_size :: "manager \<Rightarrow> signal_input \<Rightarrow> f64 \<times> f64 \<times> f64" where
  \<comment> \<open>the \<open>switch\<close> on the sizing mode: (size, kelly, scale)\<close>
  "base_size m sig =
     (let cfg = m_Cfg m; conv = sizing_conv (si_Conviction sig) in
      if rc_SizingMode cfg = SizingSignalSize then
        (let sz = si_SizeUSD sig;
             sz = (if sz \<le> 0 then rc_MinSizeUSD cfg else sz)
         in (sz * (Fin (1 / 4) + Fin (3 / 4) * conv), 0, 1))
      else if rc_SizingMode cfg = SizingVolTarget then
        (let sz = si_SizeUSD sig;
             sz = (if sz \<le> 0 then rc_MaxPositionUSD cfg * Fin (1 / 10) else sz);
             scale = volScale m
         in (sz * scale * (Fin (1 / 4) + Fin (3 / 4) * conv), 0, scale))
      else
        (let p = rc_KellyP cfg; b = rc_KellyB cfg; q = 1 - p;
             fStar = (p * b - q) / b;
             fStar = (if fStar < 0 then 0 else fStar);
             kelly = rc_KellyFraction cfg * fStar * conv;
             kelly = (case si_KellyFrac sig of
                        Some k \<Rightarrow> (if k > 0 then math_Min kelly (rc_KellyFraction cfg * k) else kelly)
                      | None \<Rightarrow> kelly)
         in (m_Equity m * kelly, kelly, 1)))"

definition cap_size :: "risk_config \<Rightarrow> signal_input \<Rightarrow> f64 \<Rightarrow> f64" where
  "cap_size cfg sig sz =
     (let sz = (if sz > rc_MaxPositionUSD cfg then rc_MaxPositionUSD cfg else sz);
          sz = (if si_CapacityUSD sig > 0 \<and> rc_CapacityFrac cfg > 0
                  then let cap = si_CapacityUSD sig * rc_CapacityFrac cfg
                       in if sz > cap then cap else sz
                  else sz)
      in if si_SizeUSD sig > 0 \<and> rc_SizingMode cfg \<noteq> SizingFracKelly
         then (if sz > si_SizeUSD sig then si_SizeUSD sig else sz)
         else sz)"

definition computeSize :: "manager \<Rightarrow> signal_input \<Rightarrow> f64 \<times> f64 \<times> f64" where
  "computeSize m sig =
     (let (sz, kelly, scale) = base_size m sig in (cap_size (m_Cfg m) sig sz, kelly, scale))"

section \<open>The trading day\<close>

definition maybeRollDay :: "manager \<Rightarrow> gotime \<Rightarrow> manager" where
  "maybeRollDay m t =
     (if IsZero t then m
      else
        let day = Truncate t (24 * hour) in
        if IsZero (m_DayUTC m) then m\<lparr>m_DayUTC := day, m_DayOpenEq := m_Equity m\<rparr>
        else if day > m_DayUTC m then
          (let m = m\<lparr>m_DayUTC := day, m_DayOpenEq := m_Equity m\<rparr> in
           if m_State m = StateHaltedDay
           then m\<lparr>m_State := StateOK,
                  m_Events := m_Events m @
                    [\<lparr>ev_Time = t, ev_Type = ''day_resume'', ev_Detail = ''new UTC day''\<rparr>]\<rparr>
           else m)
        else m)"

section \<open>Accept\<close>

definition valid_signal :: "signal_input \<Rightarrow> bool" where
  "valid_signal sig \<longleftrightarrow>
     si_ConditionID sig \<noteq> '''' \<and> (si_Side sig = ''BUY'' \<or> si_Side sig = ''SELL'')"

definition Accept :: "manager \<Rightarrow> signal_input \<Rightarrow> decision \<times> manager" where
  "Accept m sig =
     (let d = \<lparr>d_Accept = False, d_SizeUSD = 0, d_Reason = ReasonOK, d_KellyFrac = 0, d_Scale = 1,
               d_OpportunityScore =
                 OpportunityScore (m_Cfg m) (si_EdgeBps sig) (si_Conviction sig) (si_Urgency sig)\<rparr> in
      if \<not> valid_signal sig then (d\<lparr>d_Reason := ReasonInvalidSig\<rparr>, m)
      else
        let m = maybeRollDay m (si_Time sig) in
        if m_State m = StateHaltedDD then (d\<lparr>d_Reason := ReasonHaltedDD\<rparr>, m)
        else if m_State m = StateHaltedDay then (d\<lparr>d_Reason := ReasonHaltedDay\<rparr>, m)
        else if go_has (m_Positions m) (si_ConditionID sig)
          then (d\<lparr>d_Reason := ReasonAlreadyOpen\<rparr>, m)
        else if int (length (m_Positions m)) \<ge> rc_MaxPositions (m_Cfg m)
          then (d\<lparr>d_Reason := ReasonMaxPositions\<rparr>, m)
        else
          let (sz, kelly, scale) = computeSize m sig;
              d = d\<lparr>d_KellyFrac := kelly, d_Scale := scale\<rparr> in
          if sz < rc_MinSizeUSD (m_Cfg m) then (d\<lparr>d_Reason := ReasonSizeZero\<rparr>, m)
          else
            let room = rc_MaxGrossUSD (m_Cfg m) - GrossExposure m in
            if room < rc_MinSizeUSD (m_Cfg m) then (d\<lparr>d_Reason := ReasonMaxGross\<rparr>, m)
            else
              let sz = (if sz > room then room else sz) in
              if sz < rc_MinSizeUSD (m_Cfg m) then (d\<lparr>d_Reason := ReasonMaxGross\<rparr>, m)
              else (d\<lparr>d_Accept := True, d_SizeUSD := sz\<rparr>, m))"

definition Accept_ptr :: "manager option \<Rightarrow> signal_input \<Rightarrow> decision \<times> manager option" where
  \<comment> \<open>the method on a possibly nil receiver\<close>
  "Accept_ptr mp sig =
     (case mp of
        None \<Rightarrow> (\<lparr>d_Accept = False, d_SizeUSD = 0, d_Reason = ReasonInvalidSig, d_KellyFrac = 0,
                  d_Scale = 0, d_OpportunityScore = 0\<rparr>, None)
      | Some m \<Rightarrow> (let (d, m') = Accept m sig in (d, Some m')))"

section \<open>Opening, closing and the halts\<close>

definition OnOpen :: "manager \<Rightarrow> position \<Rightarrow> manager" where
  "OnOpen m p = m\<lparr>m_Positions := go_put (pos_ConditionID p) p (m_Positions m)\<rparr>"

definition DrawdownBps :: "manager \<Rightarrow> f64" where
  "DrawdownBps m =
     (if m_PeakEquity m \<le> 0 then 0
      else let dd = (m_PeakEquity m - m_Equity m) / m_PeakEquity m * 10000
           in if dd < 0 then 0 else dd)"

definition DailyDrawdownBps :: "manager \<Rightarrow> f64" where
  "DailyDrawdownBps m =
     (if m_DayOpenEq m \<le> 0 then 0
      else let dd = (m_DayOpenEq m - m_Equity m) / m_DayOpenEq m * 10000
           in if dd < 0 then 0 else dd)"

definition checkHalts :: "manager \<Rightarrow> gotime \<Rightarrow> manager" where
  "checkHalts m tm =
     (if rc_MaxDrawdownBps (m_Cfg m) > 0 \<and> DrawdownBps m \<ge> rc_MaxDrawdownBps (m_Cfg m) then
        (if m_State m \<noteq> StateHaltedDD
         then m\<lparr>m_State := StateHaltedDD,
                m_Events := m_Events m @ [\<lparr>ev_Time = tm, ev_Type = ''halted_dd'',
                  ev_Detail = ''max_drawdown_bps breached''\<rparr>]\<rparr>
         else m)
      else if rc_MaxDailyDrawdownBps (m_Cfg m) > 0 \<and>
              DailyDrawdownBps m \<ge> rc_MaxDailyDrawdownBps (m_Cfg m) then
        (if m_State m \<noteq> StateHaltedDay \<and> m_State m \<noteq> StateHaltedDD
         then m\<lparr>m_State := StateHaltedDay,
                m_Events := m_Events m @ [\<lparr>ev_Time = tm, ev_Type = ''halted_day'',
                  ev_Detail = ''max_daily_drawdown_bps breached''\<rparr>]\<rparr>
         else m)
      else m)"

definition ApplyPnL :: "manager \<Rightarrow> f64 \<Rightarrow> gotime \<Rightarrow> manager" where
  "ApplyPnL m pnlUSD tm =
     (let m = maybeRollDay m tm;
          m = m\<lparr>m_Equity := m_Equity m + pnlUSD\<rparr>;
          m = (if m_Equity m > m_PeakEquity m then m\<lparr>m_PeakEquity := m_Equity m\<rparr> else m)
      in checkHalts m tm)"

definition OnClose :: "manager \<Rightarrow> string \<Rightarrow> f64 \<Rightarrow> gotime \<Rightarrow> manager" where
  "OnClose m conditionID pnlUSD tm =
     ApplyPnL (m\<lparr>m_Positions := go_del conditionID (m_Positions m)\<rparr>) pnlUSD tm"

definition RecordPeriodReturn :: "manager \<Rightarrow> f64 \<Rightarrow> manager" where
  "RecordPeriodReturn m r =
     (let rs = m_PeriodReturns m @ [r];
          rs = (if length rs > 500 then drop (length rs - 500) rs else rs)
      in m\<lparr>m_PeriodReturns := rs\<rparr>)"

definition ShouldFlattenAll :: "manager option \<Rightarrow> bool" where
  "ShouldFlattenAll mp = (case mp of None \<Rightarrow> False | Some m \<Rightarrow> m_State m = StateHaltedDD)"

section \<open>Frames\<close>

text \<open>Rolling the day writes the day, its opening equity, and at most lifts the day halt.\<close>

lemma maybeRollDay_frame [simp]:
  "m_Cfg (maybeRollDay m t) = m_Cfg m"
  "m_Equity (maybeRollDay m t) = m_Equity m"
  "m_PeakEquity (maybeRollDay m t) = m_PeakEquity m"
  "m_Positions (maybeRollDay m t) = m_Positions m"
  "m_PeriodReturns (maybeRollDay m t) = m_PeriodReturns m"
  by (simp_all add: maybeRollDay_def Let_def)

lemma maybeRollDay_DD [simp]:
  "m_State (maybeRollDay m t) = StateHaltedDD \<longleftrightarrow> m_State m = StateHaltedDD"
  by (simp add: maybeRollDay_def Let_def)

lemma maybeRollDay_State:
  "m_State (maybeRollDay m t) = m_State m \<or>
   m_State m = StateHaltedDay \<and> m_State (maybeRollDay m t) = StateOK \<and>
   m_DayOpenEq (maybeRollDay m t) = m_Equity m"
  by (simp add: maybeRollDay_def Let_def)

lemma maybeRollDay_DayOpenEq:
  "m_DayOpenEq (maybeRollDay m t) = m_DayOpenEq m \<or> m_DayOpenEq (maybeRollDay m t) = m_Equity m"
  by (simp add: maybeRollDay_def Let_def)

lemma GrossExposure_cong: "m_Positions m = m_Positions m' \<Longrightarrow> GrossExposure m = GrossExposure m'"
  by (simp add: GrossExposure_def)

lemma checkHalts_frame [simp]:
  "m_Cfg (checkHalts m t) = m_Cfg m"
  "m_Equity (checkHalts m t) = m_Equity m"
  "m_PeakEquity (checkHalts m t) = m_PeakEquity m"
  "m_DayOpenEq (checkHalts m t) = m_DayOpenEq m"
  "m_DayUTC (checkHalts m t) = m_DayUTC m"
  "m_Positions (checkHalts m t) = m_Positions m"
  "m_PeriodReturns (checkHalts m t) = m_PeriodReturns m"
  by (simp_all add: checkHalts_def)

lemma checkHalts_DD: "m_State m = StateHaltedDD \<Longrightarrow> m_State (checkHalts m t) = StateHaltedDD"
  by (simp add: checkHalts_def)

lemma ApplyPnL_frame [simp]:
  "m_Cfg (ApplyPnL m p t) = m_Cfg m"
  "m_Equity (ApplyPnL m p t) = m_Equity m + p"
  "m_PeakEquity (ApplyPnL m p t) =
     (if m_Equity m + p > m_PeakEquity m then m_Equity m + p else m_PeakEquity m)"
  "m_Positions (ApplyPnL m p t) = m_Positions m"
  "m_PeriodReturns (ApplyPnL m p t) = m_PeriodReturns m"
  by (simp_all add: ApplyPnL_def Let_def)

lemma ApplyPnL_DD: "m_State m = StateHaltedDD \<Longrightarrow> m_State (ApplyPnL m p t) = StateHaltedDD"
  by (simp add: ApplyPnL_def Let_def checkHalts_DD)

lemma OnClose_DD: "m_State m = StateHaltedDD \<Longrightarrow> m_State (OnClose m c p t) = StateHaltedDD"
  by (simp add: OnClose_def ApplyPnL_DD)

lemma RecordPeriodReturn_frame [simp]:
  "m_Cfg (RecordPeriodReturn m r) = m_Cfg m"
  "m_Equity (RecordPeriodReturn m r) = m_Equity m"
  "m_PeakEquity (RecordPeriodReturn m r) = m_PeakEquity m"
  "m_DayOpenEq (RecordPeriodReturn m r) = m_DayOpenEq m"
  "m_State (RecordPeriodReturn m r) = m_State m"
  "m_Positions (RecordPeriodReturn m r) = m_Positions m"
  by (simp_all add: RecordPeriodReturn_def Let_def)

lemma OnOpen_frame [simp]:
  "m_Cfg (OnOpen m p) = m_Cfg m"
  "m_Equity (OnOpen m p) = m_Equity m"
  "m_PeakEquity (OnOpen m p) = m_PeakEquity m"
  "m_DayOpenEq (OnOpen m p) = m_DayOpenEq m"
  "m_State (OnOpen m p) = m_State m"
  "m_PeriodReturns (OnOpen m p) = m_PeriodReturns m"
  by (simp_all add: OnOpen_def)

lemma Accept_manager:
  "snd (Accept m sig) = (if valid_signal sig then maybeRollDay m (si_Time sig) else m)"
  by (simp add: Accept_def Let_def case_prod_unfold)

section \<open>The size that is granted\<close>

definition sig_fin :: "signal_input \<Rightarrow> bool" where
  "sig_fin sig \<longleftrightarrow>
     isfin (si_SizeUSD sig) \<and> isfin (si_EdgeBps sig) \<and> isfin (si_Conviction sig) \<and>
     isfin (si_CapacityUSD sig) \<and> isfin (si_Urgency sig) \<and>
     (case si_KellyFrac sig of None \<Rightarrow> True | Some k \<Rightarrow> isfin k)"

lemma isfin_min_max [simp]:
  "isfin x \<Longrightarrow> isfin y \<Longrightarrow> isfin (math_Min x y)" "isfin x \<Longrightarrow> isfin y \<Longrightarrow> isfin (math_Max x y)"
  by (auto elim!: isfinE)

lemma rval_min_max [simp]:
  "isfin x \<Longrightarrow> isfin y \<Longrightarrow> rval (math_Min x y) = min (rval x) (rval y)"
  "isfin x \<Longrightarrow> isfin y \<Longrightarrow> rval (math_Max x y) = max (rval x) (rval y)"
  by (auto elim!: isfinE)

lemma isfin_sqrt: "isfin x \<Longrightarrow> 0 \<le> rval x \<Longrightarrow> isfin (math_Sqrt x)"
  by (auto elim!: isfinE simp: math_Sqrt_def)

lemma isfin_of_len [simp]: "isfin (of_len n)" "rval (of_len n) = real n"
  by (simp_all add: of_len_def)

lemma volScale_range:
  assumes "isfin (rc_VolTargetAnn (m_Cfg m))" and "\<forall>r \<in> set (m_PeriodReturns m). isfin r"
  shows "isfin (volScale m) \<and> 1 / 10 \<le> rval (volScale m) \<and> rval (volScale m) \<le> 3"
proof -
  let ?n = "rc_VolLookbackPeriods (m_Cfg m)"
  show ?thesis
  proof (cases "?n \<le> 1 \<or> length (m_PeriodReturns m) < 2")
    case True
    then show ?thesis by (simp add: volScale_def)
  next
    case False
    define rets where "rets = (if int (length (m_PeriodReturns m)) > ?n
      then drop (length (m_PeriodReturns m) - nat ?n) (m_PeriodReturns m) else m_PeriodReturns m)"
    define mean where "mean = fsum rets / of_len (length rets)"
    define sumsq where "sumsq = fsum (map (\<lambda>r. (r - mean) * (r - mean)) rets)"
    define stdev where "stdev = math_Sqrt (sumsq / of_len (length rets))"
    have rf: "\<forall>r \<in> set rets. isfin r"
      using assms(2) by (auto simp: rets_def dest: in_set_dropD)
    have ln: "0 < length rets" using False by (auto simp: rets_def)
    have mf: "isfin mean" using rf ln by (simp add: mean_def isfin_fsum)
    have sf: "isfin sumsq" using rf mf by (simp add: sumsq_def isfin_fsum)
    have "rval sumsq = sum_list (map (\<lambda>r. (rval r - rval mean)\<^sup>2) rets)"
      using rf mf unfolding sumsq_def
      by (subst rval_fsum) (auto simp: power2_eq_square intro!: arg_cong [where f = sum_list])
    then have "0 \<le> rval sumsq" by (auto intro!: sum_list_nonneg)
    then have df: "isfin stdev"
      using sf ln by (simp add: stdev_def isfin_sqrt)
    define s where "s = rc_VolTargetAnn (m_Cfg m) / math_Sqrt 252 / stdev"
    have vs: "volScale m = (if stdev < Fin (1 / 10 ^ 12) then 1
        else let s' = (if s > 3 then 3 else s) in if s' < Fin (1 / 10) then Fin (1 / 10) else s')"
      using False unfolding volScale_def Let_def rets_def mean_def sumsq_def stdev_def s_def by simp
    have "isfin s" if "\<not> stdev < Fin (1 / 10 ^ 12)"
      using that df assms(1) by (auto simp: s_def isfin_order math_Sqrt_def f64_eval elim!: isfinE)
    then show ?thesis unfolding vs Let_def by (auto simp: isfin_order)
  qed
qed

lemma sizing_conv_range:
  "isfin c \<Longrightarrow> isfin (sizing_conv c) \<and> 0 < rval (sizing_conv c) \<and> rval (sizing_conv c) \<le> 1"
  using clip01_range [of c] isfin_clip01 [of c]
  by (auto simp: sizing_conv_def Let_def isfin_order)

lemma isfin_base_size:
  assumes "config_ok (m_Cfg m)" and "sig_fin sig" and "isfin (m_Equity m)"
    and "\<forall>r \<in> set (m_PeriodReturns m). isfin r"
  shows "isfin (fst (base_size m sig))"
  using assms volScale_range [of m] sizing_conv_range [of "si_Conviction sig"]
  unfolding config_ok_def config_fin_def sig_fin_def
  by (auto simp: base_size_def Let_def isfin_order split: option.splits)

lemma isfin_cap_size:
  "config_fin cfg \<Longrightarrow> sig_fin sig \<Longrightarrow> isfin s \<Longrightarrow> isfin (cap_size cfg sig s)"
  by (auto simp: config_fin_def sig_fin_def cap_size_def Let_def)

lemma cap_size_bounds:
  assumes "config_ok cfg" and "sig_fin sig" and "isfin s"
  shows "rval (cap_size cfg sig s) \<le> rval s"
    and "rval (cap_size cfg sig s) \<le> rval (rc_MaxPositionUSD cfg)"
    and "0 < rval (si_CapacityUSD sig) \<Longrightarrow>
      rval (cap_size cfg sig s) \<le> rval (si_CapacityUSD sig) * rval (rc_CapacityFrac cfg)"
    and "0 < rval (si_SizeUSD sig) \<Longrightarrow> rc_SizingMode cfg \<noteq> SizingFracKelly \<Longrightarrow>
      rval (cap_size cfg sig s) \<le> rval (si_SizeUSD sig)"
  using assms by (auto simp: config_ok_def config_fin_def sig_fin_def cap_size_def Let_def isfin_order)

text \<open>What is true of every granted size, whatever the inputs (infinities and NaN included).\<close>

lemma Accept_acceptD:
  assumes "d_Accept (fst (Accept m sig))"
  defines "m' \<equiv> maybeRollDay m (si_Time sig)"
  shows "valid_signal sig" and "m_State m' = StateOK"
    and "go_get (m_Positions m) (si_ConditionID sig) = None"
    and "int (length (m_Positions m)) < rc_MaxPositions (m_Cfg m)"
    and "d_SizeUSD (fst (Accept m sig)) =
      (let room = rc_MaxGrossUSD (m_Cfg m) - GrossExposure m; s = fst (computeSize m' sig)
       in if s > room then room else s)"
    and "\<not> d_SizeUSD (fst (Accept m sig)) < rc_MinSizeUSD (m_Cfg m)"
    and "d_Reason (fst (Accept m sig)) = ReasonOK"
proof -
  have g: "GrossExposure m' = GrossExposure m"
    by (rule GrossExposure_cong) (simp add: m'_def)
  note acc = assms(1) [unfolded Accept_def Let_def case_prod_unfold, folded m'_def]
  show "valid_signal sig" using acc by (simp split: if_splits)
  have "m_State m' \<noteq> StateHaltedDD \<and> m_State m' \<noteq> StateHaltedDay"
    using acc by (auto split: if_splits)
  then show "m_State m' = StateOK" by (cases "m_State m'") auto
  have p: "m_Positions m' = m_Positions m" "m_Cfg m' = m_Cfg m" by (simp_all add: m'_def)
  show "go_get (m_Positions m) (si_ConditionID sig) = None"
    using acc p by (auto simp: go_has_def split: if_splits)
  show "int (length (m_Positions m)) < rc_MaxPositions (m_Cfg m)"
    using acc p by (auto split: if_splits)
  show "d_SizeUSD (fst (Accept m sig)) =
      (let room = rc_MaxGrossUSD (m_Cfg m) - GrossExposure m; s = fst (computeSize m' sig)
       in if s > room then room else s)"
    using acc p g unfolding Accept_def Let_def case_prod_unfold m'_def [symmetric]
    by (auto split: if_splits)
  show "\<not> d_SizeUSD (fst (Accept m sig)) < rc_MinSizeUSD (m_Cfg m)"
    using acc p g unfolding Accept_def Let_def case_prod_unfold m'_def [symmetric]
    by (auto split: if_splits)
  show "d_Reason (fst (Accept m sig)) = ReasonOK"
    using acc p g unfolding Accept_def Let_def case_prod_unfold m'_def [symmetric]
    by (auto split: if_splits)
qed

section \<open>Runs of the manager\<close>

text \<open>
  The calls a client makes: a signal is offered and, when accepted and fillable, opened with the
  granted size; a position is closed with its result; a period return is recorded.
\<close>

inductive risk_step :: "manager \<Rightarrow> manager \<Rightarrow> bool" where
  take_it: "sig_fin sig \<Longrightarrow> Accept m sig = (d, m') \<Longrightarrow> d_Accept d \<Longrightarrow>
     pos_ConditionID p = si_ConditionID sig \<Longrightarrow> pos_SizeUSD p = d_SizeUSD d \<Longrightarrow>
     risk_step m (OnOpen m' p)"
| leave_it: "Accept m sig = (d, m') \<Longrightarrow> risk_step m m'"
| close_it: "isfin pnl \<Longrightarrow> risk_step m (OnClose m c pnl tm)"
| record_it: "isfin r \<Longrightarrow> risk_step m (RecordPeriodReturn m r)"

inductive risk_reachable :: "risk_config \<Rightarrow> manager \<Rightarrow> bool" where
  start: "risk_reachable cfg (NewManager cfg)"
| step: "risk_reachable cfg m \<Longrightarrow> risk_step m m' \<Longrightarrow> risk_reachable cfg m'"

definition risk_inv :: "manager \<Rightarrow> bool" where
  "risk_inv m \<longleftrightarrow>
     config_ok (m_Cfg m) \<and>
     isfin (m_Equity m) \<and> isfin (m_PeakEquity m) \<and> isfin (m_DayOpenEq m) \<and>
     0 < rval (m_PeakEquity m) \<and> rval (m_Equity m) \<le> rval (m_PeakEquity m) \<and>
     go_wf (m_Positions m) \<and> (\<forall>e \<in> set (m_Positions m). isfin (pos_SizeUSD (snd e))) \<and>
     int (length (m_Positions m)) \<le> rc_MaxPositions (m_Cfg m) \<and>
     rval (GrossExposure m) \<le> rval (rc_MaxGrossUSD (m_Cfg m)) \<and>
     (\<forall>r \<in> set (m_PeriodReturns m). isfin r) \<and> length (m_PeriodReturns m) \<le> 500 \<and>
     (m_State m \<noteq> StateHaltedDD \<longrightarrow> DrawdownBps m < rc_MaxDrawdownBps (m_Cfg m)) \<and>
     (m_State m = StateOK \<longrightarrow> DailyDrawdownBps m < rc_MaxDailyDrawdownBps (m_Cfg m))"

lemma isfin_DrawdownBps:
  "isfin (m_Equity m) \<Longrightarrow> isfin (m_PeakEquity m) \<Longrightarrow> isfin (DrawdownBps m)"
  by (auto simp: DrawdownBps_def Let_def isfin_order)

lemma isfin_DailyDrawdownBps:
  "isfin (m_Equity m) \<Longrightarrow> isfin (m_DayOpenEq m) \<Longrightarrow> isfin (DailyDrawdownBps m)"
  by (auto simp: DailyDrawdownBps_def Let_def isfin_order)

lemma DailyDrawdownBps_fresh:
  "isfin (m_Equity m) \<Longrightarrow> m_DayOpenEq m = m_Equity m \<Longrightarrow> DailyDrawdownBps m = 0"
  by (auto simp: DailyDrawdownBps_def Let_def f64_eval elim!: isfinE)

lemma DrawdownBps_cong:
  "m_Equity m = m_Equity m' \<Longrightarrow> m_PeakEquity m = m_PeakEquity m' \<Longrightarrow> DrawdownBps m = DrawdownBps m'"
  by (simp add: DrawdownBps_def)

lemma DailyDrawdownBps_cong:
  "m_Equity m = m_Equity m' \<Longrightarrow> m_DayOpenEq m = m_DayOpenEq m' \<Longrightarrow>
   DailyDrawdownBps m = DailyDrawdownBps m'"
  by (simp add: DailyDrawdownBps_def)

lemma isfin_GrossExposure:
  "\<forall>e \<in> set (m_Positions m). isfin (pos_SizeUSD (snd e)) \<Longrightarrow> isfin (GrossExposure m)"
  unfolding GrossExposure_def by (intro isfin_fsum) auto

lemma risk_inv_roll:
  assumes "risk_inv m" shows "risk_inv (maybeRollDay m t)"
proof -
  let ?m = "maybeRollDay m t"
  have dd: "DrawdownBps ?m = DrawdownBps m" by (rule DrawdownBps_cong) simp_all
  have g: "GrossExposure ?m = GrossExposure m" by (rule GrossExposure_cong) simp
  have day: "DailyDrawdownBps ?m < rc_MaxDailyDrawdownBps (m_Cfg m)" if "m_State ?m = StateOK"
  proof (cases "m_DayOpenEq ?m = m_Equity m")
    case True
    with assms have "DailyDrawdownBps ?m = 0"
      by (intro DailyDrawdownBps_fresh) (simp_all add: risk_inv_def)
    with assms show ?thesis by (auto simp: risk_inv_def config_ok_def config_fin_def isfin_order)
  next
    case False
    then have same: "m_DayOpenEq ?m = m_DayOpenEq m" using maybeRollDay_DayOpenEq by blast
    then have "DailyDrawdownBps ?m = DailyDrawdownBps m" by (intro DailyDrawdownBps_cong) simp_all
    moreover have "m_State m = StateOK" using False maybeRollDay_State [of m t] that by auto
    ultimately show ?thesis using assms by (simp add: risk_inv_def)
  qed
  have "isfin (m_DayOpenEq ?m)"
    using maybeRollDay_DayOpenEq [of m t] assms by (auto simp: risk_inv_def)
  with assms day dd g show ?thesis by (auto simp: risk_inv_def)
qed

lemma checkHalts_State:
  assumes "config_ok (m_Cfg m)" and "isfin (m_Equity m)" "isfin (m_PeakEquity m)" "isfin (m_DayOpenEq m)"
  shows "m_State (checkHalts m t) \<noteq> StateHaltedDD \<Longrightarrow> DrawdownBps m < rc_MaxDrawdownBps (m_Cfg m)"
    and "m_State (checkHalts m t) = StateOK \<Longrightarrow> DailyDrawdownBps m < rc_MaxDailyDrawdownBps (m_Cfg m)"
  using assms isfin_DrawdownBps [of m] isfin_DailyDrawdownBps [of m]
  by (auto simp: checkHalts_def config_ok_def config_fin_def isfin_order split: if_splits)

lemma risk_inv_ApplyPnL:
  assumes inv: "risk_inv m" and pnl: "isfin pnl"
  shows "risk_inv (ApplyPnL m pnl t)"
proof -
  define m1 where "m1 = maybeRollDay m t"
  define m2 where "m2 = m1\<lparr>m_Equity := m_Equity m1 + pnl\<rparr>"
  define m3 where "m3 = (if m_Equity m2 > m_PeakEquity m2 then m2\<lparr>m_PeakEquity := m_Equity m2\<rparr> else m2)"
  have i1: "risk_inv m1" using inv by (simp add: m1_def risk_inv_roll)
  have f3: "m_Cfg m3 = m_Cfg m1" "m_Positions m3 = m_Positions m1"
    "m_PeriodReturns m3 = m_PeriodReturns m1" "m_DayOpenEq m3 = m_DayOpenEq m1"
    "isfin (m_Equity m3)" "isfin (m_PeakEquity m3)"
    "0 < rval (m_PeakEquity m3)" "rval (m_Equity m3) \<le> rval (m_PeakEquity m3)"
    using i1 pnl by (auto simp: m3_def m2_def risk_inv_def isfin_order)
  have eq: "ApplyPnL m pnl t = checkHalts m3 t"
    by (simp add: ApplyPnL_def Let_def m1_def m2_def m3_def)
  have g: "GrossExposure (checkHalts m3 t) = GrossExposure m1"
    by (rule GrossExposure_cong) (simp add: f3)
  have dd: "DrawdownBps (checkHalts m3 t) = DrawdownBps m3" by (rule DrawdownBps_cong) simp_all
  have da: "DailyDrawdownBps (checkHalts m3 t) = DailyDrawdownBps m3"
    by (rule DailyDrawdownBps_cong) simp_all
  from checkHalts_State [of m3 t] f3 i1 g dd da show ?thesis
    unfolding eq by (auto simp: risk_inv_def)
qed

lemma risk_inv_del:
  assumes inv: "risk_inv m"
  shows "risk_inv (m\<lparr>m_Positions := go_del c (m_Positions m)\<rparr>)"
proof -
  let ?m = "m\<lparr>m_Positions := go_del c (m_Positions m)\<rparr>"
  have wf: "go_wf (m_Positions m)" using inv by (simp add: risk_inv_def)
  have fin: "\<forall>e \<in> set (m_Positions m). isfin (pos_SizeUSD (snd e))" using inv by (simp add: risk_inv_def)
  then have fin': "\<forall>e \<in> set (go_del c (m_Positions m)). isfin (pos_SizeUSD (snd e))"
    using set_go_del [of c "m_Positions m"] by (meson subsetD)
  have "rval (GrossExposure ?m) \<le> rval (GrossExposure m)"
  proof (cases "go_get (m_Positions m) c")
    case None
    then show ?thesis by (simp add: GrossExposure_def go_del_absent)
  next
    case (Some p)
    then have "isfin (pos_SizeUSD p)" using fin wf by (force simp: go_get_wf)
    moreover have "GrossExposure m = \<bar>pos_SizeUSD p\<bar> + GrossExposure ?m"
      using fsum_go_del [OF wf Some, of "\<lambda>p. \<bar>pos_SizeUSD p\<bar>"] by (simp add: GrossExposure_def)
    ultimately show ?thesis using isfin_GrossExposure [of ?m] fin' by simp
  qed
  moreover have "int (length (go_del c (m_Positions m))) \<le> rc_MaxPositions (m_Cfg m)"
    using inv gmap.len_del_le [OF wf, of c] by (simp add: risk_inv_def)
  moreover have "DrawdownBps ?m = DrawdownBps m" by (rule DrawdownBps_cong) simp_all
  moreover have "DailyDrawdownBps ?m = DailyDrawdownBps m" by (rule DailyDrawdownBps_cong) simp_all
  ultimately show ?thesis
    using inv fin' gmap.wf_del [OF wf, of c] by (auto simp: risk_inv_def)
qed

lemma risk_inv_record:
  assumes "risk_inv m" "isfin r" shows "risk_inv (RecordPeriodReturn m r)"
proof -
  let ?m = "RecordPeriodReturn m r"
  have "GrossExposure ?m = GrossExposure m" by (rule GrossExposure_cong) simp
  moreover have "DrawdownBps ?m = DrawdownBps m" by (rule DrawdownBps_cong) simp_all
  moreover have "DailyDrawdownBps ?m = DailyDrawdownBps m" by (rule DailyDrawdownBps_cong) simp_all
  moreover have "length (m_PeriodReturns ?m) \<le> 500"
    by (simp add: RecordPeriodReturn_def Let_def)
  moreover have "\<forall>x \<in> set (m_PeriodReturns ?m). isfin x"
    using assms by (auto simp: RecordPeriodReturn_def Let_def risk_inv_def dest: in_set_dropD)
  ultimately show ?thesis using assms by (simp add: risk_inv_def)
qed

text \<open>The granted size of a finite signal, between the minimum and every cap.\<close>

lemma Accept_size_fin:
  assumes inv: "risk_inv m" and sf: "sig_fin sig" and acc: "d_Accept (fst (Accept m sig))"
  defines "s \<equiv> d_SizeUSD (fst (Accept m sig))"
  shows "isfin s" and "rval (rc_MinSizeUSD (m_Cfg m)) \<le> rval s"
    and "rval s \<le> rval (rc_MaxPositionUSD (m_Cfg m))"
    and "rval s + rval (GrossExposure m) \<le> rval (rc_MaxGrossUSD (m_Cfg m))"
    and "0 < rval (si_CapacityUSD sig) \<Longrightarrow>
      rval s \<le> rval (si_CapacityUSD sig) * rval (rc_CapacityFrac (m_Cfg m))"
proof -
  let ?m = "maybeRollDay m (si_Time sig)"
  let ?b = "fst (base_size ?m sig)" and ?cfg = "m_Cfg m"
  have inv': "risk_inv ?m" by (rule risk_inv_roll [OF inv])
  have ok: "config_ok ?cfg" using inv by (simp add: risk_inv_def)
  have bf: "isfin ?b" using isfin_base_size [of ?m sig] inv' sf by (simp add: risk_inv_def)
  have gf: "isfin (GrossExposure m)" using inv by (intro isfin_GrossExposure) (simp add: risk_inv_def)
  let ?c = "cap_size ?cfg sig ?b"
  have cf: "isfin ?c" using isfin_cap_size ok sf bf by (simp add: config_ok_fin)
  let ?room = "rc_MaxGrossUSD ?cfg - GrossExposure m"
  have rf: "isfin ?room" "rval ?room = rval (rc_MaxGrossUSD ?cfg) - rval (GrossExposure m)"
    using ok gf by (simp_all add: config_ok_def config_fin_def)
  have s: "s = (if ?c > ?room then ?room else ?c)"
    using Accept_acceptD(5) [OF acc] by (simp add: s_def Let_def computeSize_def case_prod_unfold)
  show "isfin s" using s cf rf by simp
  then show "rval (rc_MinSizeUSD ?cfg) \<le> rval s"
    using Accept_acceptD(6) [OF acc] ok by (simp add: s_def config_ok_def config_fin_def isfin_order)
  have le: "rval s \<le> rval ?c" "rval s \<le> rval ?room"
    using s cf rf by (auto simp: isfin_order)
  show "rval s \<le> rval (rc_MaxPositionUSD ?cfg)"
    using le(1) cap_size_bounds(2) [OF ok sf bf] by linarith
  show "rval s + rval (GrossExposure m) \<le> rval (rc_MaxGrossUSD ?cfg)"
    using le(2) rf by simp
  show "rval s \<le> rval (si_CapacityUSD sig) * rval (rc_CapacityFrac ?cfg)"
    if "0 < rval (si_CapacityUSD sig)"
    using le(1) cap_size_bounds(3) [OF ok sf bf that] by linarith
qed

lemma risk_inv_open:
  assumes inv: "risk_inv m" and sf: "sig_fin sig" and acc: "d_Accept (fst (Accept m sig))"
    and p: "pos_ConditionID p = si_ConditionID sig" "pos_SizeUSD p = d_SizeUSD (fst (Accept m sig))"
  shows "risk_inv (OnOpen (maybeRollDay m (si_Time sig)) p)"
proof -
  let ?m = "maybeRollDay m (si_Time sig)"
  let ?o = "OnOpen ?m p"
  note sz = Accept_size_fin [OF inv sf acc, folded p(2)]
  have inv': "risk_inv ?m" by (rule risk_inv_roll [OF inv])
  have fresh: "go_get (m_Positions m) (pos_ConditionID p) = None"
    using Accept_acceptD(3) [OF acc] p by simp
  have pos: "m_Positions ?o = m_Positions m @ [(pos_ConditionID p, p)]"
    by (simp add: OnOpen_def go_put_fresh fresh)
  have gf: "isfin (GrossExposure m)" using inv by (intro isfin_GrossExposure) (simp add: risk_inv_def)
  have ok: "0 < rval (rc_MinSizeUSD (m_Cfg m))" using inv by (simp add: risk_inv_def config_ok_def)
  have "GrossExposure ?o = GrossExposure m + \<bar>pos_SizeUSD p\<bar>"
    unfolding GrossExposure_def pos by simp
  then have g: "rval (GrossExposure ?o) \<le> rval (rc_MaxGrossUSD (m_Cfg m))"
    using sz gf ok by simp
  have wf: "go_wf (m_Positions ?o)"
    using inv fresh unfolding pos by (auto simp: risk_inv_def map_of_eq_None_iff)
  have "DrawdownBps ?o = DrawdownBps ?m" by (rule DrawdownBps_cong) simp_all
  moreover have "DailyDrawdownBps ?o = DailyDrawdownBps ?m" by (rule DailyDrawdownBps_cong) simp_all
  moreover have "int (length (m_Positions ?o)) \<le> rc_MaxPositions (m_Cfg m)"
    using Accept_acceptD(4) [OF acc] unfolding pos by simp
  moreover have "\<forall>e \<in> set (m_Positions ?o). isfin (pos_SizeUSD (snd e))"
    using inv sz(1) unfolding pos by (auto simp: risk_inv_def)
  ultimately show ?thesis using inv' g wf by (simp add: risk_inv_def)
qed

lemma risk_inv_step:
  assumes "risk_step m m'" and "risk_inv m" shows "risk_inv m'"
  using assms
proof (induction rule: risk_step.induct)
  case (take_it sig m d m' p)
  then have acc: "d_Accept (fst (Accept m sig))" by simp
  from Accept_manager [of m sig] Accept_acceptD(1) [OF acc] take_it
  have "m' = maybeRollDay m (si_Time sig)" by simp
  with take_it risk_inv_open [OF _ _ acc] show ?case by simp
next
  case (leave_it m sig d m')
  with Accept_manager [of m sig] show ?case by (auto simp: risk_inv_roll split: if_splits)
next
  case (close_it pnl m c tm)
  then show ?case by (simp add: OnClose_def risk_inv_ApplyPnL risk_inv_del)
next
  case (record_it r m)
  then show ?case by (simp add: risk_inv_record)
qed

lemma risk_inv_init: "config_fin cfg \<Longrightarrow> risk_inv (NewManager cfg)"
  using Normalize_config_ok [of cfg]
  by (auto simp: risk_inv_def NewManager_def Let_def config_ok_def config_fin_def GrossExposure_def
      DrawdownBps_def DailyDrawdownBps_def isfin_order)

lemma risk_reachable_inv: "risk_reachable cfg m \<Longrightarrow> config_fin cfg \<Longrightarrow> risk_inv m"
  by (induction rule: risk_reachable.induct) (auto intro: risk_inv_init risk_inv_step)

section \<open>Properties\<close>

lemma risk_step_DD: "risk_step m m' \<Longrightarrow> m_State m = StateHaltedDD \<Longrightarrow> m_State m' = StateHaltedDD"
proof (induction rule: risk_step.induct)
  case (take_it sig m d m' p)
  then have "d_Accept (fst (Accept m sig))" by simp
  from Accept_acceptD(2) [OF this] take_it.prems show ?case
    by (metis maybeRollDay_DD risk_state.distinct(3))
next
  case (leave_it m sig d m')
  with Accept_manager [of m sig] show ?case by (auto split: if_splits)
qed (simp_all add: OnClose_DD)

lemma risk_steps_DD:
  "risk_step\<^sup>*\<^sup>* m m' \<Longrightarrow> m_State m = StateHaltedDD \<Longrightarrow> m_State m' = StateHaltedDD"
  by (induction rule: rtranclp_induct) (auto intro: risk_step_DD)

definition demo_sig :: signal_input where
  \<comment> \<open>a concrete signal for the witnesses\<close>
  "demo_sig = \<lparr>si_Time = 63000000000000000000, si_ConditionID = ''0x1'', si_Side = ''BUY'',
     si_SizeUSD = 25, si_EdgeBps = 80, si_Conviction = Fin (1 / 2), si_CapacityUSD = 1000,
     si_Urgency = 0, si_KellyFrac = None\<rparr>"


lemma demo_sig_fin: "sig_fin demo_sig"
  by (simp add: sig_fin_def demo_sig_def)

lemma demo_accept: "d_Accept (fst (Accept (NewManager DefaultConfig) demo_sig))"
  by (simp add: Accept_def Let_def NewManager_def Normalize_def DefaultConfig_def pos_or_def
      pos_or_int_def valid_signal_def demo_sig_def maybeRollDay_def go_time Truncate_def
      computeSize_def base_size_def SizingFracKelly_def SizingSignalSize_def SizingVolTarget_def
      cap_size_def sizing_conv_def clip01_def f64_eval GrossExposure_def go_has_def)

text \<open>C1: In every reachable state of the manager the portfolio stays within its budget: gross
  exposure is at most \<open>max_gross_usd\<close>, there are at most \<open>max_positions\<close> positions, the recorded
  peak is never below the equity, and the return history never outgrows 500 entries.\<close>

theorem risk_caps:
  assumes "risk_reachable cfg m" and "config_fin cfg"
  shows "rval (GrossExposure m) \<le> rval (rc_MaxGrossUSD (m_Cfg m))
    \<and> int (length (m_Positions m)) \<le> rc_MaxPositions (m_Cfg m)
    \<and> rval (m_Equity m) \<le> rval (m_PeakEquity m)
    \<and> length (m_PeriodReturns m) \<le> 500"
  using risk_reachable_inv [OF assms] by (simp add: risk_inv_def)

theorem risk_caps_witness:
  "rval (GrossExposure (NewManager DefaultConfig)) \<le> rval (rc_MaxGrossUSD (m_Cfg (NewManager DefaultConfig)))"
  using risk_caps [OF risk_reachable.start config_fin_Default] by blast



text \<open>C10: No trade is ever accepted at or past a drawdown limit: when \<open>Accept\<close> says yes in a
  reachable state, the drawdown from the peak is below \<open>max_drawdown_bps\<close> and, once the trading
  day of the signal has been rolled in, the loss of the day is below \<open>max_daily_drawdown_bps\<close>.\<close>

theorem accept_below_limits:
  assumes "risk_reachable cfg m" and "config_fin cfg" and "d_Accept (fst (Accept m sig))"
  shows "DrawdownBps m < rc_MaxDrawdownBps (m_Cfg m)
    \<and> DailyDrawdownBps (maybeRollDay m (si_Time sig)) < rc_MaxDailyDrawdownBps (m_Cfg m)
    \<and> go_get (m_Positions m) (si_ConditionID sig) = None"
proof -
  let ?m = "maybeRollDay m (si_Time sig)"
  have inv: "risk_inv m" by (rule risk_reachable_inv [OF assms(1,2)])
  have ok: "m_State ?m = StateOK" by (rule Accept_acceptD(2) [OF assms(3)])
  have "DrawdownBps ?m = DrawdownBps m" by (rule DrawdownBps_cong) simp_all
  with ok risk_inv_roll [OF inv, of "si_Time sig"] Accept_acceptD(3) [OF assms(3)]
  show ?thesis by (simp add: risk_inv_def)
qed

theorem accept_below_limits_witness:
  "DrawdownBps (NewManager DefaultConfig) < rc_MaxDrawdownBps (m_Cfg (NewManager DefaultConfig))"
  using accept_below_limits [OF risk_reachable.start config_fin_Default demo_accept] by blast

text \<open>C11: The drawdown halt is absorbing: once the manager is in \<open>HALTED_DD\<close>, no sequence of
  offers, closes (profitable ones included), recorded returns and day changes leaves it, and every
  well-formed signal is refused with the reason \<open>halted_dd\<close> from then on.\<close>

theorem drawdown_halt_absorbing:
  assumes "m_State m = StateHaltedDD" and "risk_step\<^sup>*\<^sup>* m m'"
  shows "m_State m' = StateHaltedDD \<and> ShouldFlattenAll (Some m')
    \<and> \<not> d_Accept (fst (Accept m' sig))
    \<and> d_Reason (fst (Accept m' sig)) =
        (if valid_signal sig then ReasonHaltedDD else ReasonInvalidSig)"
proof -
  have dd: "m_State m' = StateHaltedDD" using risk_steps_DD [OF assms(2,1)] .
  then show ?thesis by (simp add: ShouldFlattenAll_def Accept_def Let_def)
qed

theorem drawdown_halt_absorbing_witness:
  "m_State (RecordPeriodReturn ((NewManager DefaultConfig)\<lparr>m_State := StateHaltedDD\<rparr>) 1) = StateHaltedDD"
proof -
  let ?m = "(NewManager DefaultConfig)\<lparr>m_State := StateHaltedDD\<rparr>"
  have "risk_step\<^sup>*\<^sup>* ?m (RecordPeriodReturn ?m 1)"
    by (intro r_into_rtranclp risk_step.record_it) simp
  with drawdown_halt_absorbing [of ?m "RecordPeriodReturn ?m 1" demo_sig] show ?thesis by simp
qed

text \<open>The day halt lasts exactly as long as its UTC day: a well-formed signal offered in
  \<open>HALTED_DAY\<close> is refused with \<open>halted_day\<close> if and only if it has no timestamp or its UTC day is
  not after the halted one, and otherwise trading resumes with the day's opening equity reset.\<close>

theorem day_halt_until_next_day:
  assumes "m_State m = StateHaltedDay" and "\<not> IsZero (m_DayUTC m)" and "valid_signal sig"
  shows "(d_Reason (fst (Accept m sig)) = ReasonHaltedDay \<longleftrightarrow>
      IsZero (si_Time sig) \<or> Truncate (si_Time sig) (24 * hour) \<le> m_DayUTC m)
    \<and> (m_State (snd (Accept m sig)) = StateOK \<longleftrightarrow>
      \<not> IsZero (si_Time sig) \<and> m_DayUTC m < Truncate (si_Time sig) (24 * hour))
    \<and> (m_State (snd (Accept m sig)) = StateOK \<longrightarrow> m_DayOpenEq (snd (Accept m sig)) = m_Equity m)"
proof -
  let ?m = "maybeRollDay m (si_Time sig)"
  have st: "m_State ?m = (if IsZero (si_Time sig) \<or> Truncate (si_Time sig) (24 * hour) \<le> m_DayUTC m
      then StateHaltedDay else StateOK)"
    using assms(1,2) by (simp add: maybeRollDay_def Let_def)
  have op: "m_State ?m = StateOK \<Longrightarrow> m_DayOpenEq ?m = m_Equity m"
    using assms(1) maybeRollDay_State [of m "si_Time sig"] by simp
  have "d_Reason (fst (Accept m sig)) = ReasonHaltedDay \<longleftrightarrow> m_State ?m = StateHaltedDay"
    using assms(1,3) by (simp add: Accept_def Let_def case_prod_unfold)
  with st op assms(3) show ?thesis by (auto simp: Accept_manager not_le)
qed

theorem day_halt_until_next_day_witness:
  "m_State (snd (Accept ((NewManager DefaultConfig)\<lparr>m_State := StateHaltedDay, m_DayUTC := 86400000000000\<rparr>)
     demo_sig)) = StateOK"
proof -
  let ?m = "(NewManager DefaultConfig)\<lparr>m_State := StateHaltedDay, m_DayUTC := 86400000000000\<rparr>"
  have "m_State ?m = StateHaltedDay" "\<not> IsZero (m_DayUTC ?m)" "valid_signal demo_sig"
    by (simp_all add: go_time valid_signal_def demo_sig_def)
  from day_halt_until_next_day [OF this] show ?thesis
    by (simp add: demo_sig_def go_time Truncate_def)
qed

text \<open>A NaN conviction slips through every guard: under fractional Kelly, with trading open, a
  free slot and room for the minimum size, the signal is accepted with a size that is NaN (all of
  the manager's size checks are comparisons, and comparisons with NaN are false).\<close>

theorem nan_conviction_accepted:
  assumes "rc_SizingMode (m_Cfg m) = SizingFracKelly" and "config_ok (m_Cfg m)" and "isfin (m_Equity m)"
    and "valid_signal sig" and "si_Conviction sig = NaN" and "si_KellyFrac sig = None"
    and "m_State m = StateOK" and "go_get (m_Positions m) (si_ConditionID sig) = None"
    and "int (length (m_Positions m)) < rc_MaxPositions (m_Cfg m)"
    and "rc_MinSizeUSD (m_Cfg m) \<le> rc_MaxGrossUSD (m_Cfg m) - GrossExposure m"
  shows "d_Accept (fst (Accept m sig)) \<and> d_SizeUSD (fst (Accept m sig)) = NaN"
proof -
  let ?m = "maybeRollDay m (si_Time sig)"
  have st: "m_State ?m = StateOK" using maybeRollDay_State [of m "si_Time sig"] assms(7) by auto
  have nan: "sizing_conv NaN = NaN" "\<And>x. x * NaN = NaN"
    by (simp_all add: sizing_conv_def clip01_def Let_def feq_def f64_eval) (case_tac x; simp)
  have base: "fst (base_size ?m sig) = NaN"
    using assms by (simp add: base_size_def Let_def nan SizingFracKelly_def SizingSignalSize_def
        SizingVolTarget_def)
  have cs: "fst (computeSize ?m sig) = NaN"
    using assms base by (simp add: computeSize_def case_prod_unfold cap_size_def Let_def)
  have g: "GrossExposure ?m = GrossExposure m" by (rule GrossExposure_cong) simp
  have "\<not> rc_MaxGrossUSD (m_Cfg m) - GrossExposure m < rc_MinSizeUSD (m_Cfg m)"
    using assms(10) by (cases "rc_MaxGrossUSD (m_Cfg m) - GrossExposure m"; cases "rc_MinSizeUSD (m_Cfg m)") auto
  with assms st cs g show ?thesis by (simp add: Accept_def Let_def case_prod_unfold go_has_def)
qed

theorem nan_conviction_accepted_witness:
  "d_SizeUSD (fst (Accept (NewManager DefaultConfig) (demo_sig\<lparr>si_Conviction := NaN\<rparr>))) = NaN"
proof -
  have ok: "config_ok (m_Cfg (NewManager DefaultConfig))"
    using Normalize_config_ok [OF config_fin_Default] by (simp add: NewManager_def Let_def)
  show ?thesis
    by (rule nan_conviction_accepted [OF _ ok, THEN conjunct2])
      (simp_all add: NewManager_def Let_def Normalize_def DefaultConfig_def pos_or_def pos_or_int_def
        SizingFracKelly_def valid_signal_def demo_sig_def GrossExposure_def f64_eval)
qed

end
