(* ===== verification/Sim_Fills.thy ===== *)
theory Sim_Fills
  imports Risk_Manager Go_Text
begin

text \<open>
  \<open>internal/signaleval\<close>: the data of the paper simulator (\<open>types.go\<close>), its fill model
  (\<open>fills.go\<close>: entry, realised profit, the price as of a time, the spot check) and the replay-time
  worthiness filter (\<open>filter.go\<close>).
  Lemmas: the price lookup never looks ahead, a trade that exits at its entry price loses exactly
  its cost, and the two sides of one trade lose twice the cost between them.
\<close>

section \<open>Data\<close>

record signal_in =
  sg_Time :: gotime
  sg_SignalID :: string
  sg_Strategy :: string
  sg_StrategyVersionID :: "int option"
  sg_ConditionID :: string
  sg_TokenID :: string
  sg_MarketID :: string
  sg_Side :: string
  sg_Action :: string
  sg_EdgeBps :: f64
  sg_Conviction :: f64
  sg_Urgency :: f64
  sg_SizeUSD :: f64
  sg_CapacityUSD :: f64
  sg_CostBps :: f64
  sg_Mid :: f64
  sg_HorizonSec :: int
  sg_KellyFrac :: "f64 option"
  sg_SpreadBps :: f64
  sg_FVSource :: string
  sg_ScorePath :: string

record price_point =
  pp_Time :: gotime
  pp_Mid :: f64

type_synonym price_index = "(string, price_point list) gomap"

record trade =
  tr_SignalID :: string
  tr_ConditionID :: string
  tr_TokenID :: string
  tr_Side :: string
  tr_SizeUSD :: f64
  tr_Shares :: f64
  tr_EntryTime :: gotime
  tr_EntryMid :: f64
  tr_ExitTime :: gotime
  tr_ExitMid :: f64
  tr_CostUSD :: f64
  tr_PnLUSD :: f64
  tr_Closed :: bool
  tr_EdgeBps :: f64
  tr_Conviction :: f64

record equity_point =
  ep_Time :: gotime
  ep_Equity :: f64

section \<open>Fills\<close>

definition EntryFill :: "string \<Rightarrow> f64 \<Rightarrow> f64 \<Rightarrow> f64 \<Rightarrow> f64 \<times> f64 \<times> f64" where
  \<comment> \<open>(shares, cost, entry mid)\<close>
  "EntryFill side sizeUSD mid costBps =
     (if mid \<le> 0 \<or> sizeUSD \<le> 0 then (0, 0, mid)
      else (sizeUSD / mid, sizeUSD * \<bar>costBps\<bar> / 10000, mid))"

definition RealizePnL :: "string \<Rightarrow> f64 \<Rightarrow> f64 \<Rightarrow> f64 \<Rightarrow> f64 \<Rightarrow> f64" where
  "RealizePnL side shares entryMid exitMid costUSD =
     (if shares \<le> 0 then - costUSD
      else
        let gross = (if side = ''SELL'' then shares * (entryMid - exitMid)
                     else shares * (exitMid - entryMid))
        in gross - costUSD)"

fun mid_scan :: "gotime \<Rightarrow> f64 option \<Rightarrow> price_point list \<Rightarrow> f64 option" where
  \<comment> \<open>the scan of \<open>MidAsOf\<close>: it stops at the first point after \<open>t\<close>\<close>
  "mid_scan t best [] = best"
| "mid_scan t best (p # ps) = (if pp_Time p > t then best else mid_scan t (Some (pp_Mid p)) ps)"

definition MidAsOf :: "price_point list \<Rightarrow> gotime \<Rightarrow> f64" where
  "MidAsOf points t = (case mid_scan t None points of None \<Rightarrow> 0 | Some m \<Rightarrow> m)"

record spot_check =
  sc_SignalID :: string
  sc_ConditionID :: string
  sc_SignalMid :: f64
  sc_SeriesMid :: f64
  sc_CostBps :: f64
  sc_OK :: bool
  sc_Detail :: string

definition spot_check_one :: "price_index \<Rightarrow> signal_in \<Rightarrow> spot_check" where
  "spot_check_one prices s =
     (let series = MidAsOf (get_or [] prices (sg_TokenID s)) (sg_Time s);
          sc = \<lparr>sc_SignalID = sg_SignalID s, sc_ConditionID = sg_ConditionID s,
                sc_SignalMid = sg_Mid s, sc_SeriesMid = series, sc_CostBps = sg_CostBps s,
                sc_OK = False, sc_Detail = ''''\<rparr>
      in if sg_Mid s \<le> 0 \<and> series \<le> 0
           then sc\<lparr>sc_OK := False, sc_Detail := ''no mid on signal or series''\<rparr>
         else if sg_Mid s \<le> 0 \<and> series > 0
           then sc\<lparr>sc_OK := True, sc_Detail := ''signal mid empty; series has mid (eval uses series)''\<rparr>
         else if series \<le> 0
           then sc\<lparr>sc_OK := True, sc_Detail := ''no series point at T; eval uses signal mid''\<rparr>
         else
           let rel = \<bar>sg_Mid s - series\<bar> / series;
               ok = rel < Fin (5 / 100)
           in sc\<lparr>sc_OK := ok,
                 sc_Detail := (if ok then '''' else ''signal mid vs series mid disagree >5%'')\<rparr>)"

definition SpotCheckFills :: "signal_in list \<Rightarrow> price_index \<Rightarrow> int \<Rightarrow> spot_check list" where
  "SpotCheckFills sigs prices n =
     (let n = (if n \<le> 0 then 2 else n);
          n = (if n > int (length sigs) then int (length sigs) else n)
      in map (spot_check_one prices) (take (nat n) sigs))"

section \<open>The worthiness filter\<close>

record worthiness_filter =
  wf_MinEdgeBps :: f64
  wf_MaxSpreadBps :: f64
  wf_RequireFV :: bool

definition filter_off :: "worthiness_filter \<Rightarrow> bool" where
  "filter_off f \<longleftrightarrow> wf_MinEdgeBps f \<le> 0 \<and> wf_MaxSpreadBps f \<le> 0 \<and> \<not> wf_RequireFV f"

definition sig_worthy :: "worthiness_filter \<Rightarrow> signal_in \<Rightarrow> bool" where
  "sig_worthy f s \<longleftrightarrow>
     \<not> (wf_MinEdgeBps f > 0 \<and> \<bar>sg_EdgeBps s\<bar> < wf_MinEdgeBps f) \<and>
     \<not> (wf_MaxSpreadBps f > 0 \<and> sg_SpreadBps s > wf_MaxSpreadBps f) \<and>
     \<not> (wf_RequireFV f \<and>
        (sg_FVSource s = '''' \<or> sg_FVSource s = ''none'' \<or> sg_ScorePath s = ''proxy''))"

definition ApplyWorthiness :: "signal_in list \<Rightarrow> worthiness_filter \<Rightarrow> signal_in list" where
  "ApplyWorthiness sigs f = (if filter_off f then sigs else filter (sig_worthy f) sigs)"

definition Note :: "worthiness_filter \<Rightarrow> string" where
  "Note f = (if filter_off f then ''''
     else ''worthiness_filter applied (replay); live emit still uses ws-listener gates'')"

section \<open>Lemmas\<close>

text \<open>The price lookup uses the last point at or before the time, and nothing after it.\<close>

lemma mid_scan_takeWhile:
  "mid_scan t best ps = (case rev (takeWhile (\<lambda>p. pp_Time p \<le> t) ps) of
     [] \<Rightarrow> best | p # _ \<Rightarrow> Some (pp_Mid p))"
proof (induction ps arbitrary: best)
  case (Cons p ps)
  then show ?case
    by (cases "rev (takeWhile (\<lambda>p. pp_Time p \<le> t) ps)") auto
qed simp

lemma MidAsOf_no_lookahead:
  "\<forall>p \<in> set qs. pp_Time p > t \<Longrightarrow> MidAsOf (ps @ qs) t = MidAsOf ps t"
proof -
  assume "\<forall>p \<in> set qs. pp_Time p > t"
  then have nil: "takeWhile (\<lambda>p. pp_Time p \<le> t) qs = []" by (cases qs) auto
  have "takeWhile (\<lambda>p. pp_Time p \<le> t) (ps @ qs) = takeWhile (\<lambda>p. pp_Time p \<le> t) ps"
    using nil by (induction ps) auto
  then show ?thesis by (simp add: MidAsOf_def mid_scan_takeWhile)
qed

lemma MidAsOf_cases:
  obtains "MidAsOf ps t = 0" | p where "p \<in> set ps" "pp_Time p \<le> t" "MidAsOf ps t = pp_Mid p"
proof (cases "rev (takeWhile (\<lambda>p. pp_Time p \<le> t) ps)")
  case Nil
  then have "MidAsOf ps t = 0" by (simp add: MidAsOf_def mid_scan_takeWhile)
  then show ?thesis by (rule that(1))
next
  case (Cons p qs)
  then have "p \<in> set (takeWhile (\<lambda>p. pp_Time p \<le> t) ps)" by (metis list.set_intros(1) set_rev)
  then have "p \<in> set ps" "pp_Time p \<le> t" by (auto dest: set_takeWhileD)
  moreover have "MidAsOf ps t = pp_Mid p" using Cons by (simp add: MidAsOf_def mid_scan_takeWhile)
  ultimately show ?thesis by (rule that(2))
qed

lemma isfin_MidAsOf: "\<forall>p \<in> set ps. isfin (pp_Mid p) \<Longrightarrow> isfin (MidAsOf ps t)"
  by (rule MidAsOf_cases [of ps t]) auto

text \<open>The fill model on finite inputs.\<close>

lemma EntryFill_fin:
  assumes "isfin sz" "isfin mid" "isfin cost" and "EntryFill side sz mid cost = (sh, c, em)"
  shows "isfin sh" "isfin c" "em = mid" "0 \<le> rval sh" "0 \<le> rval c"
  using assms
  by (auto simp: EntryFill_def isfin_order split: if_splits)

lemma isfin_RealizePnL:
  "isfin sh \<Longrightarrow> isfin e \<Longrightarrow> isfin x \<Longrightarrow> isfin c \<Longrightarrow> isfin (RealizePnL side sh e x c)"
  by (simp add: RealizePnL_def Let_def)

lemma RealizePnL_flat:
  "isfin sh \<Longrightarrow> isfin e \<Longrightarrow> isfin c \<Longrightarrow> RealizePnL side sh e e c = - c"
  by (auto simp: RealizePnL_def Let_def f64_eval elim!: isfinE)

lemma RealizePnL_sides:
  "isfin sh \<Longrightarrow> isfin e \<Longrightarrow> isfin x \<Longrightarrow> isfin c \<Longrightarrow>
   RealizePnL ''BUY'' sh e x c + RealizePnL ''SELL'' sh e x c = - (2 * c)"
  by (auto simp: RealizePnL_def Let_def f64_eval algebra_simps elim!: isfinE)

lemma ApplyWorthiness_filter:
  "filter_off f \<Longrightarrow> isfin (wf_MinEdgeBps f) \<Longrightarrow> isfin (wf_MaxSpreadBps f) \<Longrightarrow> sig_worthy f s"
  by (auto simp: filter_off_def sig_worthy_def isfin_order)

lemma takeWhile_sorted_filter:
  "sorted (map f xs) \<Longrightarrow> takeWhile (\<lambda>x. f x \<le> (t :: int)) xs = filter (\<lambda>x. f x \<le> t) xs"
proof (induction xs)
  case (Cons x xs)
  then have "\<not> f x \<le> t \<Longrightarrow> filter (\<lambda>x. f x \<le> t) xs = []" by (force simp: filter_empty_conv)
  with Cons show ?case by auto
qed simp

section \<open>Properties\<close>

text \<open>The simulator never looks ahead: on a price series in time order the mid used at a time is
  the mid of the last observation at or before that time (zero when there is none), and appending
  any observations from after that time does not change it.\<close>

theorem mid_as_of_causal:
  assumes "sorted (map pp_Time ps)" and "\<forall>p \<in> set qs. pp_Time p > t"
  shows "MidAsOf (ps @ qs) t =
    (let past = filter (\<lambda>p. pp_Time p \<le> t) ps in if past = [] then 0 else pp_Mid (last past))"
proof -
  have eq: "takeWhile (\<lambda>p. pp_Time p \<le> t) ps = filter (\<lambda>p. pp_Time p \<le> t) ps"
    by (rule takeWhile_sorted_filter [OF assms(1)])
  have "MidAsOf (ps @ qs) t = MidAsOf ps t" by (rule MidAsOf_no_lookahead [OF assms(2)])
  also have "\<dots> = (let past = filter (\<lambda>p. pp_Time p \<le> t) ps in
      if past = [] then 0 else pp_Mid (last past))"
    by (cases "filter (\<lambda>p. pp_Time p \<le> t) ps" rule: rev_cases)
      (simp_all add: MidAsOf_def mid_scan_takeWhile eq)
  finally show ?thesis .
qed

theorem mid_as_of_causal_witness:
  "MidAsOf ([\<lparr>pp_Time = 1, pp_Mid = Fin (1 / 2)\<rparr>, \<lparr>pp_Time = 5, pp_Mid = Fin (3 / 4)\<rparr>]
     @ [\<lparr>pp_Time = 9, pp_Mid = 0\<rparr>]) 6 = Fin (3 / 4)"
  by (subst mid_as_of_causal) simp_all

end
