(* ===== verification/Sim_Equity.thy ===== *)
theory Sim_Equity
  imports Sim_Fills
begin

text \<open>
  \<open>internal/signaleval/equity.go\<close>: drawdown on the event path, the hourly grid and the Sharpe
  ratio of the hourly returns.
  Lemmas: the drawdown scan computes the largest peak-to-trough drop; the hourly loop visits the
  hours from the first to the last observation once each and carries the last equity forward.
\<close>

section \<open>Definitions\<close>

definition MinHoursForSharpe :: nat where "MinHoursForSharpe = 72"

record equity_stats =
  es_Sharpe :: f64
  es_SharpeNote :: string
  es_MeanPeriodReturn :: f64
  es_PeriodReturnStdev :: f64
  es_NPeriods :: nat
  es_MaxDrawdownBps :: f64
  es_MaxDailyDrawdownBps :: f64
  es_TotalReturnBps :: f64
  es_PeriodsPerYear :: f64

definition dd_step :: "f64 \<times> f64 \<Rightarrow> equity_point \<Rightarrow> f64 \<times> f64" where
  \<comment> \<open>one turn of the drawdown loop on (peak, maxDD)\<close>
  "dd_step acc p =
     (let (peak, mx) = acc;
          peak = (if ep_Equity p > peak then ep_Equity p else peak)
      in if peak > 0
         then let dd = (peak - ep_Equity p) / peak * 10000 in (peak, if dd > mx then dd else mx)
         else (peak, mx))"

definition max_dd :: "equity_point list \<Rightarrow> f64" where
  "max_dd points = snd (foldl dd_step (ep_Equity (hd points), 0) points)"

definition day_step :: "(int, f64 \<times> f64) gomap \<Rightarrow> equity_point \<Rightarrow> (int, f64 \<times> f64) gomap" where
  \<comment> \<open>day to (open, min); the list keeps the days in the order of \<open>keys\<close>\<close>
  "day_step days p =
     (if IsZero (ep_Time p) then days
      else
        let day = Unix (Truncate (ep_Time p) (24 * hour)) in
        case go_get days day of
          None \<Rightarrow> go_put day (ep_Equity p, ep_Equity p) days
        | Some (opn, mn) \<Rightarrow>
            (if ep_Equity p < mn then go_put day (opn, ep_Equity p) days else days))"

definition day_dd :: "f64 \<Rightarrow> int \<times> f64 \<times> f64 \<Rightarrow> f64" where
  "day_dd mx e =
     (let (_, opn, mn) = e in
      if opn > 0 then let dd = (opn - mn) / opn * 10000 in (if dd > mx then dd else mx) else mx)"

definition maxDailyDrawdownBps :: "equity_point list \<Rightarrow> f64" where
  "maxDailyDrawdownBps points = foldl day_dd 0 (foldl day_step [] points)"

definition meanStdev :: "f64 list \<Rightarrow> f64 \<times> f64" where
  "meanStdev rets =
     (if rets = [] then (0, 0)
      else
        let mean = fsum rets / of_len (length rets) in
        if length rets < 2 then (mean, 0)
        else (mean, math_Sqrt (fsum (map (\<lambda>r. (r - mean) * (r - mean)) rets) / of_len (length rets))))"

definition hour_key :: "gotime \<Rightarrow> int" where
  "hour_key t = Unix (Truncate t hour)"

definition by_hour :: "equity_point list \<Rightarrow> (int, f64) gomap" where
  "by_hour usable = foldl (\<lambda>m p. go_put (hour_key (ep_Time p)) (ep_Equity p) m) [] usable"

function hour_loop :: "(int, f64) gomap \<Rightarrow> gotime \<Rightarrow> f64 \<Rightarrow> gotime \<Rightarrow> equity_point list" where
  "hour_loop byHour stop lastEq t =
     (if t > stop then []
      else
        let lastEq = (case go_get byHour (Unix t) of Some eq \<Rightarrow> eq | None \<Rightarrow> lastEq)
        in \<lparr>ep_Time = t, ep_Equity = lastEq\<rparr> # hour_loop byHour stop lastEq (time_Add t hour))"
  by pat_completeness auto
termination
  by (relation "measure (\<lambda>(_, stop, _, t). nat (stop - t + 1))") (auto simp: go_time)

declare hour_loop.simps [simp del]

definition ResampleHourly :: "equity_point list \<Rightarrow> equity_point list" where
  "ResampleHourly points =
     (if points = [] then []
      else
        let pts = sort_by (\<lambda>a b. ep_Time a < ep_Time b) points;
            usable = filter (\<lambda>p. \<not> IsZero (ep_Time p)) pts
        in if usable = [] then pts
           else
             let start = Truncate (ep_Time (hd usable)) hour;
                 stop = Truncate (ep_Time (last usable)) hour
             in if stop < start then usable
                else hour_loop (by_hour usable) stop (ep_Equity (hd usable)) start)"

definition period_rets :: "equity_point list \<Rightarrow> f64 list" where
  "period_rets hourly =
     map (\<lambda>(a, b). (ep_Equity b - ep_Equity a) / ep_Equity a)
       (filter (\<lambda>(a, b). \<not> ep_Equity a \<le> 0) (zip hourly (tl hourly)))"

definition sharpe_floor :: "f64 \<Rightarrow> f64" where
  "sharpe_floor mean =
     (let minStd = Fin (1 / 10 ^ 8); a = \<bar>mean\<bar> in
      if a > 0 then (let fl = a * Fin (5 / 100) in if fl > minStd then fl else minStd) else minStd)"

definition sharpe_stats :: "equity_stats \<Rightarrow> f64 list \<Rightarrow> equity_stats" where
  \<comment> \<open>the tail of \<open>ComputeEquityStats\<close>, from the hourly returns on\<close>
  "sharpe_stats out rets =
     (let out = out\<lparr>es_NPeriods := length rets\<rparr>; (mean, stdev) = meanStdev rets in
      if length rets < MinHoursForSharpe then
        (let out = out\<lparr>es_SharpeNote := ''insufficient_periods''\<rparr> in
         if length rets \<ge> 1
         then out\<lparr>es_MeanPeriodReturn := mean, es_PeriodReturnStdev := stdev\<rparr> else out)
      else
        let out = out\<lparr>es_MeanPeriodReturn := mean, es_PeriodReturnStdev := stdev\<rparr> in
        if stdev \<le> sharpe_floor mean
        then out\<lparr>es_SharpeNote := ''near_constant_path'', es_Sharpe := 0\<rparr>
        else out\<lparr>es_Sharpe := mean / stdev * math_Sqrt (es_PeriodsPerYear out)\<rparr>)"

definition ComputeEquityStats :: "equity_point list \<Rightarrow> f64 \<Rightarrow> f64 \<Rightarrow> equity_stats" where
  "ComputeEquityStats points startingEquity periodsPerYear =
     (let out = \<lparr>es_Sharpe = 0, es_SharpeNote = '''', es_MeanPeriodReturn = 0,
            es_PeriodReturnStdev = 0, es_NPeriods = 0, es_MaxDrawdownBps = 0,
            es_MaxDailyDrawdownBps = 0, es_TotalReturnBps = 0,
            es_PeriodsPerYear = pos_or (24 * 365) periodsPerYear\<rparr>
      in if startingEquity \<le> 0 \<or> points = []
         then out\<lparr>es_SharpeNote := ''insufficient_periods''\<rparr>
         else
           let out = out\<lparr>
                 es_TotalReturnBps :=
                   (ep_Equity (last points) - startingEquity) / startingEquity * 10000,
                 es_MaxDrawdownBps := max_dd points,
                 es_MaxDailyDrawdownBps := maxDailyDrawdownBps points\<rparr>;
               hourly = ResampleHourly points
           in if length hourly < 2 then out\<lparr>es_SharpeNote := ''insufficient_periods''\<rparr>
              else sharpe_stats out (period_rets hourly))"

section \<open>The drawdown scan\<close>

definition drop_bps :: "real \<Rightarrow> real \<Rightarrow> real" where
  \<comment> \<open>the drop from a peak to a later level, in basis points\<close>
  "drop_bps a b = (a - b) / a * 10000"

lemma drop_bps_mono: "0 < a \<Longrightarrow> a \<le> a' \<Longrightarrow> 0 \<le> b \<Longrightarrow> drop_bps a b \<le> drop_bps a' b"
  by (simp add: drop_bps_def diff_divide_distrib frac_le)

lemma drop_bps_same [simp]: "drop_bps a a = 0"
  by (simp add: drop_bps_def)

lemma dd_step_fin:
  assumes "0 < rval (ep_Equity p)" "isfin (ep_Equity p)" "isfin peak" "isfin mx" "0 < rval peak"
  shows "dd_step (peak, mx) p =
    (Fin (max (rval peak) (rval (ep_Equity p))),
     Fin (max (rval mx) (drop_bps (max (rval peak) (rval (ep_Equity p))) (rval (ep_Equity p)))))"
  using assms
  by (auto simp: dd_step_def Let_def drop_bps_def f64_eval max_def elim!: isfinE)

definition path_ok :: "equity_point list \<Rightarrow> bool" where
  "path_ok ps \<longleftrightarrow> (\<forall>p \<in> set ps. isfin (ep_Equity p) \<and> 0 < rval (ep_Equity p))"

definition eq_at :: "equity_point list \<Rightarrow> nat \<Rightarrow> real" where
  "eq_at ps i = rval (ep_Equity (ps ! i))"

lemma dd_fold:
  assumes "path_ok ps" "ps \<noteq> []"
  shows "\<exists>pk mx. foldl dd_step (ep_Equity (hd ps), 0) ps = (Fin pk, Fin mx)
    \<and> (\<forall>i < length ps. eq_at ps i \<le> pk) \<and> (\<exists>i < length ps. pk = eq_at ps i)
    \<and> (\<forall>j < length ps. \<forall>i \<le> j. drop_bps (eq_at ps i) (eq_at ps j) \<le> mx)
    \<and> (\<exists>j < length ps. \<exists>i \<le> j. mx = drop_bps (eq_at ps i) (eq_at ps j))"
  using assms
proof (induction ps rule: rev_induct)
  case (snoc p ps)
  have p: "isfin (ep_Equity p)" "0 < rval (ep_Equity p)" using snoc.prems by (auto simp: path_ok_def)
  show ?case
  proof (cases "ps = []")
    case True
    then show ?thesis using dd_step_fin [of p "ep_Equity p" 0] p by (auto simp: eq_at_def)
  next
    case False
    have ok: "path_ok ps" using snoc.prems by (simp add: path_ok_def)
    from snoc.IH [OF ok False] obtain pk mx where
      f: "foldl dd_step (ep_Equity (hd ps), 0) ps = (Fin pk, Fin mx)"
      and pk: "\<forall>i < length ps. eq_at ps i \<le> pk" "\<exists>i < length ps. pk = eq_at ps i"
      and mx: "\<forall>j < length ps. \<forall>i \<le> j. drop_bps (eq_at ps i) (eq_at ps j) \<le> mx"
        "\<exists>j < length ps. \<exists>i \<le> j. mx = drop_bps (eq_at ps i) (eq_at ps j)" by blast
    have pos: "0 < eq_at ps i" if "i < length ps" for i
      using ok that by (simp add: path_ok_def eq_at_def)
    then have pk0: "0 < pk" using pk(2) by auto
    let ?e = "rval (ep_Equity p)"
    let ?pk = "max pk ?e"
    let ?d = "drop_bps ?pk ?e"
    have old: "eq_at (ps @ [p]) i = eq_at ps i" if "i < length ps" for i
      using that by (simp add: eq_at_def nth_append)
    have new: "eq_at (ps @ [p]) (length ps) = ?e" by (simp add: eq_at_def)
    have "foldl dd_step (ep_Equity (hd (ps @ [p])), 0) (ps @ [p]) = (Fin ?pk, Fin (max mx ?d))"
      using f False dd_step_fin [of p "Fin pk" "Fin mx"] p pk0 by simp
    moreover have "\<forall>i < length (ps @ [p]). eq_at (ps @ [p]) i \<le> ?pk"
      using pk(1) old new by (auto simp: less_Suc_eq le_max_iff_disj)
    moreover have pkex: "\<exists>i < length (ps @ [p]). ?pk = eq_at (ps @ [p]) i"
    proof (cases "pk \<le> ?e")
      case True
      then show ?thesis using new by (intro exI [of _ "length ps"]) simp
    next
      case False
      then show ?thesis using pk(2) old by (metis length_append_singleton less_Suc_eq max_def)
    qed
    moreover have "drop_bps (eq_at (ps @ [p]) i) (eq_at (ps @ [p]) j) \<le> max mx ?d"
      if j: "j < length (ps @ [p])" and i: "i \<le> j" for i j
    proof (cases "j < length ps")
      case True
      then show ?thesis using mx(1) i old [of i] old [of j] by (simp add: le_max_iff_disj)
    next
      case False
      with j have j: "j = length ps" by simp
      have "0 < eq_at (ps @ [p]) i \<and> eq_at (ps @ [p]) i \<le> ?pk"
        using i j pos old [of i] new pk(1) p by (cases "i = length ps") (auto simp: le_max_iff_disj)
      then have "drop_bps (eq_at (ps @ [p]) i) ?e \<le> ?d" using drop_bps_mono p by simp
      then show ?thesis using j new by (simp add: le_max_iff_disj)
    qed
    moreover have "\<exists>j < length (ps @ [p]). \<exists>i \<le> j.
        max mx ?d = drop_bps (eq_at (ps @ [p]) i) (eq_at (ps @ [p]) j)"
    proof (cases "?d \<le> mx")
      case True
      with mx(2) obtain i j where "j < length ps" "i \<le> j" "mx = drop_bps (eq_at ps i) (eq_at ps j)"
        by blast
      then show ?thesis using True old [of i] old [of j]
        by (intro exI [of _ j] conjI exI [of _ i]) auto
    next
      case False
      from pkex obtain i where "i < length (ps @ [p])" "?pk = eq_at (ps @ [p]) i" by blast
      then show ?thesis using False new by (intro exI [of _ "length ps"] conjI exI [of _ i]) auto
    qed
    ultimately show ?thesis by blast
  qed
qed simp

section \<open>The hourly grid\<close>

lemma by_hour_snoc: "by_hour (ps @ [p]) = go_put (hour_key (ep_Time p)) (ep_Equity p) (by_hour ps)"
  by (simp add: by_hour_def)

lemma by_hour_get:
  "go_get (by_hour ps) k =
     (case rev (filter (\<lambda>p. hour_key (ep_Time p) = k) ps) of [] \<Rightarrow> None | p # _ \<Rightarrow> Some (ep_Equity p))"
proof (induction ps rule: rev_induct)
  case Nil
  show ?case by (simp add: by_hour_def)
next
  case (snoc p ps)
  then show ?case by (simp add: by_hour_snoc gmap.get_put)
qed

lemma Truncate_hour: "Truncate t hour = t div 3600000000000 * 3600000000000"
  by (simp add: Truncate_def go_time minus_mod_eq_div_mult)

lemma hour_key_grid: "hour_key p = Unix (m * 3600000000000) \<longleftrightarrow> p div 3600000000000 = m"
proof -
  have "(n * 3600000000000) div 1000000000 = n * 3600" for n :: int
    using nonzero_mult_div_cancel_right [of "1000000000 :: int" "n * 3600"] by simp
  then show ?thesis by (simp add: hour_key_def Truncate_hour Unix_def)
qed

text \<open>In a series in time order the points before the end of an hour are those before its start
  followed by those inside it.\<close>

lemma filter_hour_split:
  assumes "sorted (map ep_Time us)" and h: "0 < h"
  shows "filter (\<lambda>p. ep_Time p div h \<le> m) us =
    filter (\<lambda>p. ep_Time p div h \<le> m - 1) us @ filter (\<lambda>p. ep_Time p div h = m) us"
  using assms(1)
proof (induction us)
  case (Cons u us)
  show ?case
  proof (cases "ep_Time u div h \<le> m - 1")
    case True
    with Cons show ?thesis by simp
  next
    case False
    have "ep_Time u div h \<le> ep_Time p div h" if "p \<in> set us" for p
      using Cons.prems that h by (auto intro: zdiv_mono1)
    with False have "filter (\<lambda>p. ep_Time p div h \<le> m - 1) us = []"
      by (force simp: filter_empty_conv)
    then show ?thesis using False Cons by auto
  qed
qed simp

definition level_at :: "equity_point list \<Rightarrow> int \<Rightarrow> f64" where
  \<comment> \<open>the last equity seen up to the end of the hour with this number\<close>
  "level_at us m = ep_Equity (last (filter (\<lambda>p. ep_Time p div 3600000000000 \<le> m) us))"

lemma level_step:
  assumes "sorted (map ep_Time us)"
  shows "(case go_get (by_hour us) (Unix (m * 3600000000000)) of Some e \<Rightarrow> e | None \<Rightarrow> level_at us (m - 1))
    = level_at us m"
proof (cases "rev (filter (\<lambda>p. ep_Time p div 3600000000000 = m) us)")
  case Nil
  then show ?thesis
    using filter_hour_split [OF assms, of 3600000000000 m]
    by (simp add: by_hour_get hour_key_grid level_at_def)
next
  case (Cons p ps)
  then have "filter (\<lambda>p. ep_Time p div 3600000000000 = m) us = rev ps @ [p]"
    by (metis rev.simps(2) rev_rev_ident)
  with Cons show ?thesis
    using filter_hour_split [OF assms, of 3600000000000 m]
    by (simp add: by_hour_get hour_key_grid level_at_def)
qed

lemma hour_loop_grid:
  assumes srt: "sorted (map ep_Time us)"
    and first: "(case go_get (by_hour us) (Unix (m * 3600000000000)) of Some e \<Rightarrow> e | None \<Rightarrow> q)
      = level_at us m"
  shows "hour_loop (by_hour us) ((m + int n) * 3600000000000) q (m * 3600000000000) =
    map (\<lambda>k. \<lparr>ep_Time = (m + int k) * 3600000000000, ep_Equity = level_at us (m + int k)\<rparr>) [0..<Suc n]"
  using first
proof (induction n arbitrary: m q)
  case 0
  show ?case
    by (subst hour_loop.simps, subst hour_loop.simps) (use 0 in \<open>simp add: Let_def go_time\<close>)
next
  case (Suc n)
  have nxt: "(case go_get (by_hour us) (Unix ((m + 1) * 3600000000000)) of Some e \<Rightarrow> e
      | None \<Rightarrow> level_at us m) = level_at us (m + 1)"
    using level_step [OF srt, of "m + 1"] by (simp only: add_diff_cancel_right')
  have "hour_loop (by_hour us) ((m + int (Suc n)) * 3600000000000) q (m * 3600000000000) =
      \<lparr>ep_Time = m * 3600000000000, ep_Equity = level_at us m\<rparr> #
      hour_loop (by_hour us) (((m + 1) + int n) * 3600000000000) (level_at us m) ((m + 1) * 3600000000000)"
    by (subst hour_loop.simps) (use Suc.prems in \<open>simp add: Let_def go_time algebra_simps\<close>)
  also have "\<dots> = \<lparr>ep_Time = m * 3600000000000, ep_Equity = level_at us m\<rparr> #
      map (\<lambda>k. \<lparr>ep_Time = (m + 1 + int k) * 3600000000000, ep_Equity = level_at us (m + 1 + int k)\<rparr>)
        [0..<Suc n]"
    by (simp only: Suc.IH [OF nxt])
  also have "\<dots> = map (\<lambda>k. \<lparr>ep_Time = (m + int k) * 3600000000000, ep_Equity = level_at us (m + int k)\<rparr>)
      [0..<Suc (Suc n)]"
    by (simp only: upt_conv_Cons [of 0 "Suc (Suc n)"] map_Suc_upt [symmetric] list.map map_map o_def)
      (simp add: algebra_simps)
  finally show ?case .
qed

lemma int_div_le_iff:
  assumes "0 < (h :: int)" shows "a div h \<le> m \<longleftrightarrow> a < (m + 1) * h"
proof
  assume "a div h \<le> m"
  then have "(a div h + 1) * h \<le> (m + 1) * h" using assms by (intro mult_right_mono) auto
  moreover have "a < (a div h + 1) * h"
    using assms pos_mod_bound [of h a] div_mult_mod_eq [of a h] unfolding distrib_right by linarith
  ultimately show "a < (m + 1) * h" by linarith
next
  assume "a < (m + 1) * h"
  moreover have "a div h * h \<le> a" using assms pos_mod_sign [of h a] div_mult_mod_eq [of a h] by linarith
  ultimately have "a div h * h < (m + 1) * h" by linarith
  then have "a div h < m + 1" using assms by (simp add: mult_less_cancel_right)
  then show "a div h \<le> m" by simp
qed

lemma int_range: "map (\<lambda>k. a + int k) [0..<Suc n] = [a..a + int n]"
proof (induction n)
  case (Suc n)
  have "[a..a + int (Suc n)] = [a..a + int n] @ [a + int (Suc n)]"
    using upto_rec2 [of a "a + int (Suc n)"] by simp
  with Suc show ?case by simp
qed simp

lemma swo_time: "swo_on (\<lambda>a b. ep_Time a < ep_Time b) A"
  unfolding swo_on_def by auto

lemma sorted_filter_sort:
  "sorted (map ep_Time (filter P (sort_by (\<lambda>a b. ep_Time a < ep_Time b) ps)))"
proof -
  have "sorted_wrt (\<lambda>a b. \<not> ep_Time b < ep_Time a) (sort_by (\<lambda>a b. ep_Time a < ep_Time b) ps)"
    by (rule sortS.ordered [OF swo_time])
  then show ?thesis by (simp add: sorted_wrt_map not_less sorted_wrt_filter)
qed

lemma hd_level:
  assumes srt: "sorted (map ep_Time us)" and ne: "us \<noteq> []"
  shows "(case go_get (by_hour us) (Unix (ep_Time (hd us) div 3600000000000 * 3600000000000)) of
      Some e \<Rightarrow> e | None \<Rightarrow> q) = level_at us (ep_Time (hd us) div 3600000000000)"
proof -
  let ?m = "ep_Time (hd us) div 3600000000000"
  have "hd us \<in> set (filter (\<lambda>p. ep_Time p div 3600000000000 = ?m) us)" using ne by simp
  then obtain p ps where "rev (filter (\<lambda>p. ep_Time p div 3600000000000 = ?m) us) = p # ps"
    by (metis empty_iff empty_set neq_Nil_conv rev_is_Nil_conv)
  then have "go_get (by_hour us) (Unix (?m * 3600000000000)) \<noteq> None"
    by (simp add: by_hour_get hour_key_grid)
  with level_step [OF srt, of ?m] show ?thesis by auto
qed

section \<open>Properties\<close>

text \<open>The reported drawdown is the true one: on a path of positive finite levels it is at least
  the drop from any level to any later one, and it is attained by one of those drops.\<close>

theorem max_drawdown_exact:
  assumes "path_ok ps" and "ps \<noteq> []" and "0 < rval s0" and "isfin s0"
  shows "\<exists>mx. es_MaxDrawdownBps (ComputeEquityStats ps s0 ppy) = Fin mx
    \<and> (\<forall>j < length ps. \<forall>i \<le> j. drop_bps (eq_at ps i) (eq_at ps j) \<le> mx)
    \<and> (\<exists>j < length ps. \<exists>i \<le> j. mx = drop_bps (eq_at ps i) (eq_at ps j))"
proof -
  have "\<not> s0 \<le> 0" using assms(3,4) by (simp add: isfin_order)
  then have "es_MaxDrawdownBps (ComputeEquityStats ps s0 ppy) = max_dd ps"
    using assms(2) by (simp add: ComputeEquityStats_def sharpe_stats_def Let_def case_prod_unfold)
  moreover obtain pk mx where "foldl dd_step (ep_Equity (hd ps), 0) ps = (Fin pk, Fin mx)"
    and "\<forall>j < length ps. \<forall>i \<le> j. drop_bps (eq_at ps i) (eq_at ps j) \<le> mx"
    and "\<exists>j < length ps. \<exists>i \<le> j. mx = drop_bps (eq_at ps i) (eq_at ps j)"
    using dd_fold [OF assms(1,2)] by blast
  ultimately show ?thesis by (intro exI [of _ mx]) (simp add: max_dd_def)
qed

definition demo_path :: "equity_point list" where
  "demo_path = [\<lparr>ep_Time = 7200000000001, ep_Equity = 100\<rparr>, \<lparr>ep_Time = 18000000000000, ep_Equity = 90\<rparr>]"

theorem max_drawdown_exact_witness:
  "\<exists>mx. es_MaxDrawdownBps (ComputeEquityStats demo_path 100 0) = Fin mx
     \<and> drop_bps (eq_at demo_path 0) (eq_at demo_path 1) \<le> mx"
proof -
  have "path_ok demo_path" "demo_path \<noteq> []" by (simp_all add: path_ok_def demo_path_def)
  from max_drawdown_exact [OF this, of 100 0] obtain mx
    where mx: "es_MaxDrawdownBps (ComputeEquityStats demo_path 100 0) = Fin mx"
      "\<forall>j < length demo_path. \<forall>i \<le> j. drop_bps (eq_at demo_path i) (eq_at demo_path j) \<le> mx"
    by auto
  have "1 < length demo_path" by (simp add: demo_path_def)
  with mx(2) have "drop_bps (eq_at demo_path 0) (eq_at demo_path 1) \<le> mx" by blast
  with mx(1) show ?thesis by blast
qed

text \<open>The hourly grid is complete and never looks ahead: for observations with real timestamps it
  has one point for every hour from the first observation's to the last one's, in order, and each
  carries the equity of the last observation made before the end of that hour.\<close>

theorem hourly_grid_exact:
  assumes "ps \<noteq> []" and "\<forall>p \<in> set ps. ep_Time p \<noteq> 0"
  defines "us \<equiv> sort_by (\<lambda>a b. ep_Time a < ep_Time b) ps"
  defines "first \<equiv> ep_Time (hd us) div hour" and "final \<equiv> ep_Time (last us) div hour"
  shows "ResampleHourly ps =
    map (\<lambda>m. \<lparr>ep_Time = m * hour, ep_Equity = ep_Equity (last (filter (\<lambda>p. ep_Time p < (m + 1) * hour) us))\<rparr>)
      [first..final]"
proof -
  have all: "filter (\<lambda>p. \<not> IsZero (ep_Time p)) us = us"
    using assms(2) by (intro filter_True) (simp add: us_def go_time)
  have ne: "us \<noteq> []"
    using assms(1) set_sort_by [of "\<lambda>a b. ep_Time a < ep_Time b" ps] unfolding us_def
    by (metis set_empty)
  have srt: "sorted (map ep_Time us)"
    using sorted_filter_sort [of "\<lambda>_. True" ps] by (simp add: us_def)
  have "ep_Time (hd us) \<le> ep_Time (last us)"
    using srt ne by (cases us) auto
  then have le: "first \<le> final" unfolding first_def final_def by (intro zdiv_mono1) (simp_all add: go_time)
  then obtain n where n: "final = first + int n" by (metis zle_iff_zadd)
  have start: "Truncate (ep_Time (hd us)) hour = first * 3600000000000"
    "Truncate (ep_Time (last us)) hour = (first + int n) * 3600000000000"
    using n by (simp_all only: Truncate_hour first_def final_def) (simp_all only: hour_def)
  have lev: "level_at us m = ep_Equity (last (filter (\<lambda>p. ep_Time p < (m + 1) * hour) us))" for m
  proof -
    have "ep_Time p div 3600000000000 \<le> m \<longleftrightarrow> ep_Time p < (m + 1) * hour" for p :: equity_point
      unfolding go_time by (rule int_div_le_iff) simp
    then show ?thesis by (simp only: level_at_def)
  qed
  have "ResampleHourly ps = hour_loop (by_hour us) ((first + int n) * 3600000000000)
      (ep_Equity (hd us)) (first * 3600000000000)"
    unfolding ResampleHourly_def Let_def us_def [symmetric] all start using assms(1) ne by simp
  also have "\<dots> = map (\<lambda>k. \<lparr>ep_Time = (first + int k) * 3600000000000,
      ep_Equity = level_at us (first + int k)\<rparr>) [0..<Suc n]"
    using hd_level [OF srt ne] by (intro hour_loop_grid [OF srt]) (simp add: first_def go_time)
  also have "\<dots> = map (\<lambda>m. \<lparr>ep_Time = m * hour, ep_Equity = level_at us m\<rparr>)
      (map (\<lambda>k. first + int k) [0..<Suc n])"
    by (simp add: go_time)
  also have "map (\<lambda>k. first + int k) [0..<Suc n] = [first..final]"
    unfolding n by (rule int_range)
  finally show ?thesis by (simp add: lev)
qed

theorem hourly_grid_exact_witness:
  "map ep_Time (ResampleHourly demo_path) = map (\<lambda>m. m * hour) [2..5]"
proof -
  have "demo_path \<noteq> []" "\<forall>p \<in> set demo_path. ep_Time p \<noteq> 0" by (simp_all add: demo_path_def)
  from hourly_grid_exact [OF this] show ?thesis by (simp add: demo_path_def go_time o_def)
qed

end
