(* ===== verification/Sim_Engine.thy ===== *)
theory Sim_Engine
  imports Sim_Equity Dedupe
begin

text \<open>
  \<open>internal/signaleval/sim.go\<close>: the paper simulation.  The state of the closure \<open>processOne\<close> and of
  the close helpers is the record \<open>sim\<close> (manager, trades, open index, equity curve, reject counters
  and the selection samples); each helper is one function of it.  Iterating the Go map
  \<open>openByCond\<close> is done in the order \<open>ro\<close> gives, a parameter that may be any permutation of the
  entries at any state (\<open>range_order\<close>), since Go leaves that order open.
  Lemmas: \<open>sim_inv\<close> (the open index and the manager's book hold exactly the trades that are not
  closed, and the equity is the starting equity plus the recorded profits) and the manager's own
  reachability are kept by every step; after \<open>Simulate\<close> every trade is closed.
\<close>

section \<open>State\<close>

record sim_config =
  cf_Risk :: risk_config
  cf_DefaultHorizon :: duration
  cf_PeriodsPerYear :: f64

record sim =
  sm_mgr :: manager
  sm_trades :: "trade list"
  sm_open :: "(string, nat) gomap"
  sm_curve :: "equity_point list"
  sm_rej :: "(string, int) gomap"
  sm_accE :: "f64 list"
  sm_rejE :: "f64 list"
  sm_accC :: "f64 list"
  sm_rejC :: "f64 list"

type_synonym range_ord = "sim \<Rightarrow> (string \<times> nat) list \<Rightarrow> (string \<times> nat) list"

definition range_order :: "range_ord \<Rightarrow> bool" where
  \<comment> \<open>what Go promises of \<open>range\<close> over a map: every entry, once, in some order\<close>
  "range_order ro \<longleftrightarrow> (\<forall>st xs. mset (ro st xs) = mset xs)"

definition reason_str :: "reason \<Rightarrow> string" where
  "reason_str r =
     (case r of
        ReasonOK \<Rightarrow> ''ok'' | ReasonHaltedDay \<Rightarrow> ''halted_day'' | ReasonHaltedDD \<Rightarrow> ''halted_dd''
      | ReasonMaxPositions \<Rightarrow> ''max_positions'' | ReasonAlreadyOpen \<Rightarrow> ''already_open''
      | ReasonMaxGross \<Rightarrow> ''max_gross'' | ReasonSizeZero \<Rightarrow> ''size_zero''
      | ReasonInvalidSig \<Rightarrow> ''invalid_signal'' | ReasonOutranked \<Rightarrow> ''outranked'')"

definition bump :: "string \<Rightarrow> (string, int) gomap \<Rightarrow> (string, int) gomap" where
  \<comment> \<open>\<open>m[k]++\<close>\<close>
  "bump k m = go_put k (get_or 0 m k + 1) m"

section \<open>Closing\<close>

definition closeTrade :: "price_index \<Rightarrow> gotime \<Rightarrow> nat \<Rightarrow> sim \<Rightarrow> sim" where
  "closeTrade prices tm idx st =
     (let tr = sm_trades st ! idx in
      if tr_Closed tr then st
      else
        let exitMid = MidAsOf (get_or [] prices (tr_TokenID tr)) tm;
            exitMid = (if exitMid \<le> 0 then tr_EntryMid tr else exitMid);
            pnl = RealizePnL (tr_Side tr) (tr_Shares tr) (tr_EntryMid tr) exitMid (tr_CostUSD tr);
            tr = tr\<lparr>tr_ExitMid := exitMid, tr_ExitTime := tm, tr_PnLUSD := pnl, tr_Closed := True\<rparr>;
            eqBefore = m_Equity (sm_mgr st);
            mgr = OnClose (sm_mgr st) (tr_ConditionID tr) pnl tm;
            mgr = (if eqBefore > 0 then RecordPeriodReturn mgr (pnl / eqBefore) else mgr)
        in st\<lparr>sm_mgr := mgr, sm_trades := (sm_trades st)[idx := tr],
             sm_curve := sm_curve st @ [\<lparr>ep_Time = tm, ep_Equity = m_Equity mgr\<rparr>]\<rparr>)"

definition close_out :: "price_index \<Rightarrow> gotime \<Rightarrow> string \<times> nat \<Rightarrow> sim \<Rightarrow> sim" where
  \<comment> \<open>\<open>closeTrade\<close> then \<open>delete(openByCond, cond)\<close>\<close>
  "close_out prices tm e st =
     (let st = closeTrade prices tm (snd e) st in st\<lparr>sm_open := go_del (fst e) (sm_open st)\<rparr>)"

definition due_step :: "price_index \<Rightarrow> gotime \<Rightarrow> sim \<Rightarrow> string \<times> nat \<Rightarrow> sim" where
  "due_step prices now st e =
     (if snd e \<ge> length (sm_trades st) then st
      else
        let tr = sm_trades st ! snd e in
        if tr_Closed tr then st\<lparr>sm_open := go_del (fst e) (sm_open st)\<rparr>
        else if \<not> IsZero (tr_ExitTime tr) \<and> \<not> now < tr_ExitTime tr
          then close_out prices (tr_ExitTime tr) e st
        else st)"

definition closeDue :: "range_ord \<Rightarrow> price_index \<Rightarrow> gotime \<Rightarrow> sim \<Rightarrow> sim" where
  "closeDue ro prices now st = foldl (due_step prices now) st (ro st (sm_open st))"

definition flatten_step :: "price_index \<Rightarrow> gotime \<Rightarrow> sim \<Rightarrow> string \<times> nat \<Rightarrow> sim" where
  "flatten_step prices now st e =
     (if snd e \<ge> length (sm_trades st) then st
      else if tr_Closed (sm_trades st ! snd e) then st\<lparr>sm_open := go_del (fst e) (sm_open st)\<rparr>
      else close_out prices now e st)"

definition flattenAll :: "range_ord \<Rightarrow> price_index \<Rightarrow> gotime \<Rightarrow> sim \<Rightarrow> sim" where
  "flattenAll ro prices now st =
     (if \<not> ShouldFlattenAll (Some (sm_mgr st)) then st
      else foldl (flatten_step prices now) st (ro st (sm_open st)))"

definition force_step :: "price_index \<Rightarrow> gotime \<Rightarrow> sim \<Rightarrow> string \<times> nat \<Rightarrow> sim" where
  \<comment> \<open>the loop that closes what is still open at the end\<close>
  "force_step prices endT st e =
     (if snd e \<ge> length (sm_trades st) \<or> tr_Closed (sm_trades st ! snd e) then st
      else close_out prices endT e st)"

section \<open>One signal\<close>

definition signal_input_of :: "signal_in \<Rightarrow> signal_input" where
  "signal_input_of sig =
     \<lparr>si_Time = sg_Time sig, si_ConditionID = sg_ConditionID sig, si_Side = sg_Side sig,
      si_SizeUSD = sg_SizeUSD sig, si_EdgeBps = sg_EdgeBps sig, si_Conviction = sg_Conviction sig,
      si_CapacityUSD = sg_CapacityUSD sig, si_Urgency = sg_Urgency sig, si_KellyFrac = sg_KellyFrac sig\<rparr>"

definition close_first :: "range_ord \<Rightarrow> price_index \<Rightarrow> gotime \<Rightarrow> sim \<Rightarrow> sim" where
  \<comment> \<open>what \<open>processOne\<close> does before the decision\<close>
  "close_first ro prices now st =
     (let st = closeDue ro prices now st in
      if ShouldFlattenAll (Some (sm_mgr st)) then flattenAll ro prices now st else st)"

definition reject :: "decision \<Rightarrow> signal_in \<Rightarrow> sim \<Rightarrow> sim" where
  "reject d sig st =
     (let st = st\<lparr>sm_rej := bump (reason_str (d_Reason d)) (sm_rej st)\<rparr> in
      if d_Reason d = ReasonMaxGross \<or> d_Reason d = ReasonMaxPositions
      then st\<lparr>sm_rejE := sm_rejE st @ [\<bar>sg_EdgeBps sig\<bar>], sm_rejC := sm_rejC st @ [sg_Conviction sig]\<rparr>
      else st)"

definition open_trade :: "duration \<Rightarrow> signal_in \<Rightarrow> decision \<Rightarrow> f64 \<Rightarrow> f64 \<Rightarrow> f64 \<Rightarrow> sim \<Rightarrow> sim" where
  "open_trade horizonDef sig d shares costUSD entryMid st =
     (let hz = dur_mul (sg_HorizonSec sig) second;
          hz = (if hz \<le> 0 then horizonDef else hz);
          tr = \<lparr>tr_SignalID = sg_SignalID sig, tr_ConditionID = sg_ConditionID sig,
                tr_TokenID = sg_TokenID sig, tr_Side = sg_Side sig, tr_SizeUSD = d_SizeUSD d,
                tr_Shares = shares, tr_EntryTime = sg_Time sig, tr_EntryMid = entryMid,
                tr_ExitTime = time_Add (sg_Time sig) hz, tr_ExitMid = 0, tr_CostUSD = costUSD,
                tr_PnLUSD = 0, tr_Closed = False, tr_EdgeBps = sg_EdgeBps sig,
                tr_Conviction = sg_Conviction sig\<rparr>;
          mgr = OnOpen (sm_mgr st)
                  \<lparr>pos_ConditionID = sg_ConditionID sig, pos_Side = sg_Side sig,
                   pos_SizeUSD = d_SizeUSD d, pos_Shares = shares, pos_EntryMid = entryMid,
                   pos_OpenedAt = sg_Time sig, pos_SignalID = sg_SignalID sig\<rparr>
      in st\<lparr>sm_accE := sm_accE st @ [\<bar>sg_EdgeBps sig\<bar>], sm_accC := sm_accC st @ [sg_Conviction sig],
           sm_trades := sm_trades st @ [tr],
           sm_open := go_put (sg_ConditionID sig) (length (sm_trades st)) (sm_open st),
           sm_mgr := mgr,
           sm_curve := sm_curve st @ [\<lparr>ep_Time = sg_Time sig, ep_Equity = m_Equity mgr\<rparr>]\<rparr>)"

definition processOne :: "range_ord \<Rightarrow> price_index \<Rightarrow> duration \<Rightarrow> signal_in \<Rightarrow> sim \<Rightarrow> sim" where
  "processOne ro prices horizonDef sig st =
     (let st = close_first ro prices (sg_Time sig) st;
          (d, mgr) = Accept (sm_mgr st) (signal_input_of sig);
          st = st\<lparr>sm_mgr := mgr\<rparr>
      in if \<not> d_Accept d then reject d sig st
         else
           let mid = (if sg_Mid sig \<le> 0 then MidAsOf (get_or [] prices (sg_TokenID sig)) (sg_Time sig)
                      else sg_Mid sig)
           in if mid \<le> 0 then st\<lparr>sm_rej := bump ''no_mid'' (sm_rej st)\<rparr>
              else
                let (shares, costUSD, entryMid) = EntryFill (sg_Side sig) (d_SizeUSD d) mid (sg_CostBps sig)
                in if shares \<le> 0 then st\<lparr>sm_rej := bump (reason_str ReasonSizeZero) (sm_rej st)\<rparr>
                   else open_trade horizonDef sig d shares costUSD entryMid st)"

section \<open>Windows and ranking\<close>

definition auctionBudgetBound :: "manager option \<Rightarrow> bool" where
  "auctionBudgetBound mp =
     (case mp of
        None \<Rightarrow> False
      | Some mgr \<Rightarrow>
          (if m_State mgr \<noteq> StateOK then False
           else if int (length (m_Positions mgr)) \<ge> rc_MaxPositions (m_Cfg mgr) then True
           else rc_MaxGrossUSD (m_Cfg mgr) - GrossExposure mgr < rc_MinSizeUSD (m_Cfg mgr)))"

definition sig_key :: "signal_in \<Rightarrow> string" where
  "sig_key s = (if sg_ConditionID s = '''' then sg_TokenID s else sg_ConditionID s)"

definition sig_score :: "risk_config \<Rightarrow> signal_in \<Rightarrow> f64" where
  "sig_score cfg s = OpportunityScore cfg (sg_EdgeBps s) (sg_Conviction s) (sg_Urgency s)"

definition dedupeBestPerCondition :: "risk_config \<Rightarrow> signal_in list \<Rightarrow> signal_in list" where
  "dedupeBestPerCondition cfg batch = dedupe_best sig_key (sig_score cfg) batch"

interpretation sim_dedupe: best_per_key sig_key "sig_score cfg" "dedupeBestPerCondition cfg" for cfg
  unfolding dedupeBestPerCondition_def by (rule best_per_key_dedupe)

definition rank_batch :: "risk_config \<Rightarrow> signal_in list \<Rightarrow> signal_in list" where
  \<comment> \<open>the batch \<open>rankAndProcess\<close> offers, deduplicated and in rank order\<close>
  "rank_batch rcfg batch =
     (let batch = (if rc_AuctionDedupe rcfg = ''condition'' \<or>
                      (rc_AuctionEnabled rcfg \<and> rc_AuctionDedupe rcfg = '''')
                   then dedupeBestPerCondition rcfg batch else batch)
      in map ((!) batch) (BuildRankOrder rcfg (map sg_EdgeBps batch) (map sg_Conviction batch)
                            (map sg_Urgency batch)))"

definition outrank :: "signal_in \<Rightarrow> sim \<Rightarrow> sim" where
  "outrank sig st =
     st\<lparr>sm_rej := bump (reason_str ReasonOutranked) (sm_rej st),
        sm_rejE := sm_rejE st @ [\<bar>sg_EdgeBps sig\<bar>], sm_rejC := sm_rejC st @ [sg_Conviction sig]\<rparr>"

definition offer :: "range_ord \<Rightarrow> price_index \<Rightarrow> duration \<Rightarrow> sim \<Rightarrow> signal_in \<Rightarrow> sim" where
  \<comment> \<open>one turn of the auction loop\<close>
  "offer ro prices horizonDef st sig =
     (if auctionBudgetBound (Some (sm_mgr st)) then outrank sig st
      else processOne ro prices horizonDef sig st)"

definition rankAndProcess ::
  "range_ord \<Rightarrow> price_index \<Rightarrow> duration \<Rightarrow> risk_config \<Rightarrow> bool \<Rightarrow> sim \<Rightarrow> signal_in list \<Rightarrow> sim" where
  "rankAndProcess ro prices horizonDef rcfg outrankRest st batch =
     (if batch = [] then st
      else if \<not> outrankRest
        then foldl (\<lambda>st sig. processOne ro prices horizonDef sig st) st (rank_batch rcfg batch)
      else foldl (offer ro prices horizonDef) st (rank_batch rcfg batch))"

function windows :: "duration \<Rightarrow> signal_in list \<Rightarrow> signal_in list list" where
  \<comment> \<open>the batches of the main loop: from a signal, all that are not after its time plus the window
     (the window is positive where the loop runs, so the first signal is always in its batch)\<close>
  "windows win [] = []"
| "windows win (s # ss) =
     (let near = (\<lambda>x. \<not> sg_Time x > time_Add (sg_Time s) win)
      in (s # takeWhile near ss) # windows win (dropWhile near ss))"
  by pat_completeness auto
termination
  by (relation "measure (\<lambda>(_, xs). length xs)") (auto simp: le_imp_less_Suc length_dropWhile_le)

definition alloc_win :: "risk_config \<Rightarrow> duration" where
  "alloc_win rcfg =
     (let w = dur_mul (rc_AllocWindowSec rcfg) second
      in if rc_AuctionEnabled rcfg \<and> w \<le> 0 then 60 * second else w)"

definition main_loop ::
  "range_ord \<Rightarrow> price_index \<Rightarrow> duration \<Rightarrow> risk_config \<Rightarrow> signal_in list \<Rightarrow> sim \<Rightarrow> sim" where
  "main_loop ro prices horizonDef rcfg sigs st =
     (let burstWin = dur_mul (rc_BatchWindowMs rcfg) millisecond in
      if rc_AuctionEnabled rcfg
        then foldl (rankAndProcess ro prices horizonDef rcfg True) st (windows (alloc_win rcfg) sigs)
      else if burstWin \<le> 0 then foldl (\<lambda>st sig. processOne ro prices horizonDef sig st) st sigs
      else foldl (rankAndProcess ro prices horizonDef rcfg False) st (windows burstWin sigs))"

section \<open>Results\<close>

record selection_quality =
  sq_MeanAbsEdgeAccepted :: f64
  sq_MeanAbsEdgeRejected :: f64
  sq_MeanConvictionAccepted :: f64
  sq_MeanConvictionRejected :: f64
  sq_PreferHigherEdge :: bool

record metrics =
  me_NSignals :: nat
  me_NAccepted :: nat
  me_NRejectedRisk :: int
  me_NClosed :: nat
  me_NOpen :: nat
  me_HitRate :: f64
  me_TotalPnLUSD :: f64
  me_AvgTradePnLUSD :: f64
  me_Stats :: equity_stats
  me_Turnover :: f64
  me_RejectReasons :: "(string, int) gomap"
  me_StartingEquityUSD :: f64
  me_EndingEquityUSD :: f64
  me_SelectionQuality :: "selection_quality option"

record sim_result =
  rs_Metrics :: metrics
  rs_Trades :: "trade list"
  rs_RiskEvents :: "event list"
  rs_EquityCurve :: "equity_point list"
  rs_RiskCfg :: risk_config

definition mean :: "f64 list \<Rightarrow> f64" where
  "mean xs = (if xs = [] then 0 else fsum xs / of_len (length xs))"

definition buildSelectionQuality ::
  "f64 list \<Rightarrow> f64 list \<Rightarrow> f64 list \<Rightarrow> f64 list \<Rightarrow> selection_quality option" where
  "buildSelectionQuality accE rejE accC rejC =
     (if accE = [] \<and> rejE = [] then None
      else Some \<lparr>sq_MeanAbsEdgeAccepted = mean accE, sq_MeanAbsEdgeRejected = mean rejE,
                 sq_MeanConvictionAccepted = mean accC, sq_MeanConvictionRejected = mean rejC,
                 sq_PreferHigherEdge =
                   (if rejE = [] then True else mean accE \<ge> mean rejE - Fin (1 / 10 ^ 9))\<rparr>)"

definition sum_counts :: "(string, int) gomap \<Rightarrow> int" where
  "sum_counts m = foldl (\<lambda>a c. a + c) 0 (map snd m)"

definition build_metrics :: "nat \<Rightarrow> f64 \<Rightarrow> equity_stats \<Rightarrow> sim \<Rightarrow> metrics" where
  "build_metrics nSignals startEq stats st =
     (let closed = filter tr_Closed (sm_trades st);
          nClosed = length closed;
          hits = length (filter (\<lambda>tr. tr_PnLUSD tr > 0) closed);
          sumPnL = fsum (map tr_PnLUSD closed);
          notional = fsum (map tr_SizeUSD (sm_trades st))
      in \<lparr>me_NSignals = nSignals, me_NAccepted = length (sm_trades st),
          me_NRejectedRisk = sum_counts (sm_rej st), me_NClosed = nClosed,
          me_NOpen = length (filter (\<lambda>tr. \<not> tr_Closed tr) (sm_trades st)),
          me_HitRate = (if nClosed > 0 then of_len hits / of_len nClosed else 0),
          me_TotalPnLUSD = m_Equity (sm_mgr st) - startEq,
          me_AvgTradePnLUSD = (if nClosed > 0 then sumPnL / of_len nClosed else 0),
          me_Stats = stats, me_Turnover = notional / startEq, me_RejectReasons = sm_rej st,
          me_StartingEquityUSD = startEq, me_EndingEquityUSD = m_Equity (sm_mgr st),
          me_SelectionQuality =
            buildSelectionQuality (sm_accE st) (sm_rejE st) (sm_accC st) (sm_rejC st)\<rparr>)"

section \<open>Simulate\<close>

definition sort_sigs :: "signal_in list \<Rightarrow> signal_in list" where
  "sort_sigs sigs = sort_by (\<lambda>a b. sg_Time a < sg_Time b) sigs"

definition init_sim :: "risk_config \<Rightarrow> signal_in list \<Rightarrow> sim" where
  \<comment> \<open>\<open>sigs\<close> is already sorted\<close>
  "init_sim rcfg sigs =
     (let mgr = NewManager rcfg in
      \<lparr>sm_mgr = mgr, sm_trades = [], sm_open = [],
       sm_curve = [\<lparr>ep_Time = (if sigs = [] then 0 else sg_Time (hd sigs)), ep_Equity = m_Equity mgr\<rparr>],
       sm_rej = [], sm_accE = [], sm_rejE = [], sm_accC = [], sm_rejC = []\<rparr>)"

definition wind_down :: "range_ord \<Rightarrow> price_index \<Rightarrow> gotime \<Rightarrow> sim \<Rightarrow> sim" where
  \<comment> \<open>the end of the run: close what is due, force the rest, flatten, last point of the curve\<close>
  "wind_down ro prices endT st =
     (let st = closeDue ro prices endT st;
          st = foldl (force_step prices endT) st (ro st (sm_open st));
          st = flattenAll ro prices endT st
      in st\<lparr>sm_curve := sm_curve st @ [\<lparr>ep_Time = endT, ep_Equity = m_Equity (sm_mgr st)\<rparr>]\<rparr>)"

definition horizon_def :: "sim_config \<Rightarrow> duration" where
  "horizon_def cfg = (if cf_DefaultHorizon cfg \<le> 0 then hour else cf_DefaultHorizon cfg)"

definition run_sim :: "range_ord \<Rightarrow> gotime \<Rightarrow> sim_config \<Rightarrow> signal_in list \<Rightarrow> price_index \<Rightarrow> sim" where
  \<comment> \<open>the simulation up to its final state; \<open>now\<close> is the wall clock, read only without signals\<close>
  "run_sim ro now cfg signals prices =
     (let rcfg = Normalize (cf_Risk cfg);
          sigs = sort_sigs signals;
          st = main_loop ro prices (horizon_def cfg) rcfg sigs (init_sim rcfg sigs);
          endT = (if sigs = [] then now else time_Add (sg_Time (last sigs)) (horizon_def cfg))
      in wind_down ro prices endT st)"

definition Simulate ::
  "range_ord \<Rightarrow> gotime \<Rightarrow> sim_config \<Rightarrow> signal_in list \<Rightarrow> price_index \<Rightarrow> sim_result" where
  "Simulate ro now cfg signals prices =
     (let rcfg = Normalize (cf_Risk cfg);
          st = run_sim ro now cfg signals prices;
          startEq = m_Equity (NewManager rcfg);
          ppy = pos_or (24 * 365) (cf_PeriodsPerYear cfg);
          stats = ComputeEquityStats (sm_curve st) startEq ppy
      in \<lparr>rs_Metrics = build_metrics (length signals) startEq stats st, rs_Trades = sm_trades st,
          rs_RiskEvents = m_Events (sm_mgr st), rs_EquityCurve = sm_curve st, rs_RiskCfg = rcfg\<rparr>)"

section \<open>The book is consistent\<close>

definition sim_inv :: "f64 \<Rightarrow> sim \<Rightarrow> bool" where
  "sim_inv eq0 st \<longleftrightarrow>
     go_wf (sm_open st) \<and>
     (\<forall>c i. (c, i) \<in> set (sm_open st) \<longleftrightarrow> i < length (sm_trades st) \<and>
        \<not> tr_Closed (sm_trades st ! i) \<and> tr_ConditionID (sm_trades st ! i) = c) \<and>
     go_wf (m_Positions (sm_mgr st)) \<and>
     set (go_keys (m_Positions (sm_mgr st))) = set (go_keys (sm_open st)) \<and>
     m_Equity (sm_mgr st) = eq0 + fsum (map tr_PnLUSD (sm_trades st)) \<and>
     (\<forall>tr \<in> set (sm_trades st). \<not> tr_Closed tr \<longrightarrow> tr_PnLUSD tr = 0)"

definition trade_fin :: "trade \<Rightarrow> bool" where
  "trade_fin tr \<longleftrightarrow> isfin (tr_Shares tr) \<and> isfin (tr_EntryMid tr) \<and> isfin (tr_CostUSD tr)"

definition prices_fin :: "price_index \<Rightarrow> bool" where
  "prices_fin prices \<longleftrightarrow> (\<forall>ps \<in> set (map snd prices). \<forall>p \<in> set ps. isfin (pp_Mid p))"

definition sim_fin :: "risk_config \<Rightarrow> sim \<Rightarrow> bool" where
  "sim_fin rcfg st \<longleftrightarrow> risk_reachable rcfg (sm_mgr st) \<and> (\<forall>tr \<in> set (sm_trades st). trade_fin tr)"

lemma keys_del: "set (go_keys (go_del c m)) = set (go_keys m) - {c}"
  by (simp only: gmap.keys_dom gmap.dom_del)

lemma keys_put: "set (go_keys (go_put c v m)) = insert c (set (go_keys m))"
  by (simp only: gmap.keys_dom gmap.dom_put)

lemma set_go_del_iff: "e \<in> set (go_del c m) \<longleftrightarrow> e \<in> set m \<and> fst e \<noteq> c"
  by (auto simp: go_del_filter)

lemma subset_del: "set es \<subseteq> set m \<Longrightarrow> k \<notin> fst ` set es \<Longrightarrow> set es \<subseteq> set (go_del k m)"
  unfolding subset_iff set_go_del_iff by blast

lemma fsum_update:
  "i < length xs \<Longrightarrow> f (xs ! i) = 0 \<Longrightarrow> fsum (map f (xs[i := y])) = fsum (map f xs) + f y"
proof -
  assume i: "i < length xs" and z: "f (xs ! i) = 0"
  have "fsum (map f (xs[i := y])) = fsum (map f (take i xs)) + f y + fsum (map f (drop (Suc i) xs))"
    using i by (simp add: upd_conv_take_nth_drop add.assoc)
  moreover have "fsum (map f xs) = fsum (map f (take i xs)) + fsum (map f (drop (Suc i) xs))"
    using i z by (subst id_take_nth_drop [OF i]) simp
  ultimately show ?thesis by (simp add: add.commute add.left_commute)
qed

lemma OnClose_frame [simp]:
  "m_Cfg (OnClose m c p t) = m_Cfg m" "m_Equity (OnClose m c p t) = m_Equity m + p"
  "m_Positions (OnClose m c p t) = go_del c (m_Positions m)"
  by (simp_all add: OnClose_def)

lemma close_out_open:
  "(c, i) \<in> set (sm_open st) \<Longrightarrow> sim_inv eq0 st \<Longrightarrow>
   i < length (sm_trades st) \<and> \<not> tr_Closed (sm_trades st ! i) \<and> tr_ConditionID (sm_trades st ! i) = c"
  by (simp add: sim_inv_def)

lemma close_out_inv:
  assumes inv: "sim_inv eq0 st" and e: "e \<in> set (sm_open st)"
  shows "sim_inv eq0 (close_out prices tm e st)"
    and "sm_open (close_out prices tm e st) = go_del (fst e) (sm_open st)"
proof -
  obtain c i where ci: "e = (c, i)" by (cases e)
  let ?T = "sm_trades st" and ?st = "close_out prices tm e st"
  from close_out_open [of c i st eq0] inv e ci
  have i: "i < length ?T" "\<not> tr_Closed (?T ! i)" "tr_ConditionID (?T ! i) = c" by auto
  define ex where "ex = (let m = MidAsOf (get_or [] prices (tr_TokenID (?T ! i))) tm in
    if m \<le> 0 then tr_EntryMid (?T ! i) else m)"
  define pnl where "pnl = RealizePnL (tr_Side (?T ! i)) (tr_Shares (?T ! i)) (tr_EntryMid (?T ! i)) ex
    (tr_CostUSD (?T ! i))"
  define tr where "tr = (?T ! i)\<lparr>tr_ExitMid := ex, tr_ExitTime := tm, tr_PnLUSD := pnl, tr_Closed := True\<rparr>"
  define mg where "mg = OnClose (sm_mgr st) c pnl tm"
  have trs: "sm_trades ?st = ?T[i := tr]" and op: "sm_open ?st = go_del c (sm_open st)"
    and eq: "m_Equity (sm_mgr ?st) = m_Equity (sm_mgr st) + pnl"
    and pos: "m_Positions (sm_mgr ?st) = go_del c (m_Positions (sm_mgr st))"
    using i by (simp_all add: close_out_def closeTrade_def Let_def ci ex_def pnl_def tr_def)
  show "sm_open (close_out prices tm e st) = go_del (fst e) (sm_open st)" using op by (simp add: ci)
  have "fsum (map tr_PnLUSD (?T[i := tr])) = fsum (map tr_PnLUSD ?T) + pnl"
    using i inv by (subst fsum_update) (simp_all add: sim_inv_def tr_def)
  then have eq': "m_Equity (sm_mgr ?st) = eq0 + fsum (map tr_PnLUSD (sm_trades ?st))"
    using inv by (simp add: eq trs sim_inv_def add.assoc)
  have "(c', j) \<in> set (sm_open ?st) \<longleftrightarrow> j < length (sm_trades ?st) \<and>
      \<not> tr_Closed (sm_trades ?st ! j) \<and> tr_ConditionID (sm_trades ?st ! j) = c'" for c' j
  proof (cases "j = i")
    case True
    have "(c', i) \<in> set (sm_open st) \<Longrightarrow> c' = c" using close_out_open [OF _ inv, of c' i] i by simp
    then have "(c', i) \<notin> set (go_del c (sm_open st))" by (auto simp: set_go_del_iff)
    with True i show ?thesis by (simp add: op trs tr_def)
  next
    case False
    have "c' \<noteq> c" if "(c', j) \<in> set (sm_open st)"
    proof
      assume "c' = c"
      moreover have "go_wf (sm_open st)" using inv by (simp add: sim_inv_def)
      ultimately have "j = i" using that e ci eq_key_imp_eq_value by metis
      with False show False by simp
    qed
    with False inv show ?thesis by (auto simp: op trs set_go_del_iff sim_inv_def)
  qed
  moreover have "\<forall>tr \<in> set (sm_trades ?st). \<not> tr_Closed tr \<longrightarrow> tr_PnLUSD tr = 0"
    using inv set_update_subset_insert [of ?T i tr] by (auto simp: trs sim_inv_def tr_def)
  moreover have "set (go_keys (m_Positions (sm_mgr ?st))) = set (go_keys (sm_open ?st))"
    using inv unfolding sim_inv_def pos op keys_del by blast
  moreover have "go_wf (sm_open ?st)" "go_wf (m_Positions (sm_mgr ?st))"
    using inv by (simp_all only: sim_inv_def op pos gmap.wf_del)
  ultimately show "sim_inv eq0 ?st" using eq' unfolding sim_inv_def by blast
qed

lemma isfin_price: "prices_fin prices \<Longrightarrow> isfin (MidAsOf (get_or [] prices k) t)"
proof (rule isfin_MidAsOf)
  assume "prices_fin prices"
  then show "\<forall>p \<in> set (get_or [] prices k). isfin (pp_Mid p)"
    by (cases "go_get prices k") (force simp: get_or_def prices_fin_def dest: map_of_SomeD)+
qed

lemma close_out_fin:
  assumes fin: "sim_fin rcfg st" and inv: "sim_inv eq0 st" and e: "e \<in> set (sm_open st)"
    and cfg: "config_fin rcfg" and prices: "prices_fin prices"
  shows "sim_fin rcfg (close_out prices tm e st)"
proof -
  obtain c i where ci: "e = (c, i)" by (cases e)
  let ?T = "sm_trades st" and ?st = "close_out prices tm e st"
  from close_out_open [of c i st eq0] inv e ci
  have i: "i < length ?T" "\<not> tr_Closed (?T ! i)" "tr_ConditionID (?T ! i) = c" by auto
  have tf: "trade_fin (?T ! i)" using fin i by (simp add: sim_fin_def)
  define ex where "ex = (let m = MidAsOf (get_or [] prices (tr_TokenID (?T ! i))) tm in
    if m \<le> 0 then tr_EntryMid (?T ! i) else m)"
  have exf: "isfin ex" using tf isfin_price [OF prices] by (simp add: ex_def Let_def trade_fin_def)
  define pnl where "pnl = RealizePnL (tr_Side (?T ! i)) (tr_Shares (?T ! i)) (tr_EntryMid (?T ! i)) ex
    (tr_CostUSD (?T ! i))"
  have pf: "isfin pnl" using tf exf by (simp add: pnl_def isfin_RealizePnL trade_fin_def)
  define tr where "tr = (?T ! i)\<lparr>tr_ExitMid := ex, tr_ExitTime := tm, tr_PnLUSD := pnl, tr_Closed := True\<rparr>"
  let ?e0 = "m_Equity (sm_mgr st)"
  have reach: "risk_reachable rcfg (sm_mgr st)" using fin by (simp add: sim_fin_def)
  have ef: "isfin ?e0" using risk_reachable_inv [OF reach cfg] by (simp add: risk_inv_def)
  have r1: "risk_reachable rcfg (OnClose (sm_mgr st) c pnl tm)"
    by (rule risk_reachable.step [OF reach risk_step.close_it [OF pf]])
  have "isfin (pnl / ?e0)" if "?e0 > 0"
    using that pf ef by (auto simp: isfin_order)
  then have r2: "?e0 > 0 \<Longrightarrow> risk_reachable rcfg (RecordPeriodReturn (OnClose (sm_mgr st) c pnl tm) (pnl / ?e0))"
    using risk_reachable.step [OF r1 risk_step.record_it] by blast
  have "sm_mgr ?st = (if ?e0 > 0 then RecordPeriodReturn (OnClose (sm_mgr st) c pnl tm) (pnl / ?e0)
      else OnClose (sm_mgr st) c pnl tm)"
    and "sm_trades ?st = ?T[i := tr]"
    using i by (simp_all add: close_out_def closeTrade_def Let_def ci ex_def pnl_def tr_def)
  moreover have "trade_fin tr" using tf by (simp add: tr_def trade_fin_def)
  ultimately show ?thesis
    using fin r1 r2 set_update_subset_insert [of ?T i tr] by (auto simp: sim_fin_def)
qed

section \<open>Loops over the open index\<close>

text \<open>
  The contract of a loop over the open index: each turn keeps an invariant that includes the
  consistency of the book, and touches no other entry of the index than its own.
\<close>

locale open_loop =
  fixes turn :: "sim \<Rightarrow> string \<times> nat \<Rightarrow> sim" and P :: "sim \<Rightarrow> bool"
  assumes keep: "P st \<Longrightarrow> e \<in> set (sm_open st) \<Longrightarrow> P (turn st e)"
    and own: "P st \<Longrightarrow> e \<in> set (sm_open st) \<Longrightarrow>
      sm_open (turn st e) = sm_open st \<or> sm_open (turn st e) = go_del (fst e) (sm_open st)"
    and index_wf: "P st \<Longrightarrow> go_wf (sm_open st)"
begin

lemma loop_keeps:
  "P st \<Longrightarrow> distinct (map fst es) \<Longrightarrow> set es \<subseteq> set (sm_open st) \<Longrightarrow> P (foldl turn st es)"
proof (induction es arbitrary: st)
  case (Cons e es)
  then have e: "e \<in> set (sm_open st)" and "fst e \<notin> set (map fst es)" by auto
  then have "set es \<subseteq> set (sm_open (turn st e))"
    using own [OF Cons.prems(1) e] Cons.prems(3) subset_del [of es "sm_open st" "fst e"]
    by (elim disjE) simp_all
  with Cons keep [OF Cons.prems(1) e] show ?case by simp
qed simp

lemma range_keeps:
  assumes "P st" and "range_order ro" shows "P (foldl turn st (ro st (sm_open st)))"
proof (rule loop_keeps [OF assms(1)])
  have m: "mset (ro st (sm_open st)) = mset (sm_open st)" using assms(2) by (simp add: range_order_def)
  then show "set (ro st (sm_open st)) \<subseteq> set (sm_open st)" by (metis set_mset_mset order_refl)
  have "mset (map fst (ro st (sm_open st))) = mset (go_keys (sm_open st))"
    using m by simp
  then show "distinct (map fst (ro st (sm_open st)))"
    using index_wf [OF assms(1)] by (metis mset_eq_imp_distinct_iff)
qed

end

locale closing_loop = open_loop +
  assumes gone: "P st \<Longrightarrow> e \<in> set (sm_open st) \<Longrightarrow> sm_open (turn st e) = go_del (fst e) (sm_open st)"
begin

lemma loop_empties:
  "P st \<Longrightarrow> distinct (map fst es) \<Longrightarrow> set es \<subseteq> set (sm_open st) \<Longrightarrow>
   set (sm_open (foldl turn st es)) = set (sm_open st) - {e. fst e \<in> fst ` set es}"
proof (induction es arbitrary: st)
  case (Cons e es)
  then have e: "e \<in> set (sm_open st)" and ne: "fst e \<notin> set (map fst es)" by auto
  note g = gone [OF Cons.prems(1) e]
  have "set es \<subseteq> set (sm_open (turn st e))"
    using Cons.prems(3) ne unfolding g by (intro subset_del) auto
  with Cons.IH [OF keep [OF Cons.prems(1) e]] Cons.prems(2) show ?case
    by (auto simp: g set_go_del_iff)
qed simp

lemma range_empties:
  assumes "P st" and "range_order ro" shows "sm_open (foldl turn st (ro st (sm_open st))) = []"
proof -
  have m: "mset (ro st (sm_open st)) = mset (sm_open st)" using assms(2) by (simp add: range_order_def)
  then have s: "set (ro st (sm_open st)) = set (sm_open st)" by (metis set_mset_mset)
  have "mset (map fst (ro st (sm_open st))) = mset (go_keys (sm_open st))" using m by simp
  then have d: "distinct (map fst (ro st (sm_open st)))"
    using index_wf [OF assms(1)] by (metis mset_eq_imp_distinct_iff)
  have "set (sm_open (foldl turn st (ro st (sm_open st)))) = {}"
    using loop_empties [OF assms(1) d] s by auto
  then show ?thesis by simp
qed

end

definition sim_good :: "price_index \<Rightarrow> risk_config \<Rightarrow> f64 \<Rightarrow> sim \<Rightarrow> bool" where
  "sim_good prices rcfg eq0 st \<longleftrightarrow>
     sim_inv eq0 st \<and> sim_fin rcfg st \<and> config_fin rcfg \<and> prices_fin prices"

lemma sim_goodD: "sim_good prices rcfg eq0 st \<Longrightarrow> sim_inv eq0 st"
  by (simp add: sim_good_def)

lemma sim_inv_wf: "sim_inv eq0 st \<Longrightarrow> go_wf (sm_open st)"
  by (simp add: sim_inv_def)

lemma close_out_good:
  "sim_good prices rcfg eq0 st \<Longrightarrow> e \<in> set (sm_open st) \<Longrightarrow> sim_good prices rcfg eq0 (close_out prices tm e st)"
  unfolding sim_good_def using close_out_inv(1) close_out_fin by blast

lemma due_step_cases:
  "sim_inv eq0 st \<Longrightarrow> e \<in> set (sm_open st) \<Longrightarrow>
   due_step prices now st e = st \<or>
   due_step prices now st e = close_out prices (tr_ExitTime (sm_trades st ! snd e)) e st"
  by (cases e) (auto simp: due_step_def Let_def dest: close_out_open)

lemma flatten_step_eq:
  "sim_inv eq0 st \<Longrightarrow> e \<in> set (sm_open st) \<Longrightarrow> flatten_step prices now st e = close_out prices now e st"
  by (cases e) (auto simp: flatten_step_def dest: close_out_open)

lemma force_step_eq:
  "sim_inv eq0 st \<Longrightarrow> e \<in> set (sm_open st) \<Longrightarrow> force_step prices now st e = close_out prices now e st"
  by (cases e) (auto simp: force_step_def dest: close_out_open)

interpretation due_loop: open_loop "due_step prices now" "sim_inv eq0" for prices now eq0
proof unfold_locales
  fix st e assume a: "sim_inv eq0 st" "e \<in> set (sm_open st)"
  show "sim_inv eq0 (due_step prices now st e)"
    using due_step_cases [OF a, of prices now] close_out_inv(1) [OF a] a(1) by auto
  show "sm_open (due_step prices now st e) = sm_open st \<or>
      sm_open (due_step prices now st e) = go_del (fst e) (sm_open st)"
    using due_step_cases [OF a, of prices now] close_out_inv(2) [OF a] by auto
qed (rule sim_inv_wf)

interpretation due_loop_good: open_loop "due_step prices now" "sim_good prices rcfg eq0"
  for prices now rcfg eq0
proof unfold_locales
  fix st e assume a: "sim_good prices rcfg eq0 st" "e \<in> set (sm_open st)"
  note i = sim_goodD [OF a(1)]
  show "sim_good prices rcfg eq0 (due_step prices now st e)"
    using due_step_cases [OF i a(2), of prices now] close_out_good [OF a] a(1) by auto
  show "sm_open (due_step prices now st e) = sm_open st \<or>
      sm_open (due_step prices now st e) = go_del (fst e) (sm_open st)"
    using due_step_cases [OF i a(2), of prices now] close_out_inv(2) [OF i a(2)] by auto
qed (rule sim_inv_wf [OF sim_goodD])

interpretation flatten_loop: closing_loop "flatten_step prices now" "sim_inv eq0" for prices now eq0
  by unfold_locales (simp_all add: flatten_step_eq close_out_inv sim_inv_wf)

interpretation flatten_loop_good: closing_loop "flatten_step prices now" "sim_good prices rcfg eq0"
  for prices now rcfg eq0
  by unfold_locales
    (simp_all add: flatten_step_eq [OF sim_goodD] close_out_good close_out_inv(2) [OF sim_goodD]
      sim_inv_wf [OF sim_goodD])

interpretation force_loop: closing_loop "force_step prices now" "sim_inv eq0" for prices now eq0
  by unfold_locales (simp_all add: force_step_eq close_out_inv sim_inv_wf)

interpretation force_loop_good: closing_loop "force_step prices now" "sim_good prices rcfg eq0"
  for prices now rcfg eq0
  by unfold_locales
    (simp_all add: force_step_eq [OF sim_goodD] close_out_good close_out_inv(2) [OF sim_goodD]
      sim_inv_wf [OF sim_goodD])

section \<open>Every step keeps the invariants\<close>

lemma close_first_inv:
  "sim_inv eq0 st \<Longrightarrow> range_order ro \<Longrightarrow> sim_inv eq0 (close_first ro prices now st)"
  by (simp add: close_first_def flattenAll_def closeDue_def Let_def due_loop.range_keeps
      flatten_loop.range_keeps)

lemma close_first_good:
  "sim_good prices rcfg eq0 st \<Longrightarrow> range_order ro \<Longrightarrow> sim_good prices rcfg eq0 (close_first ro prices now st)"
  by (simp add: close_first_def flattenAll_def closeDue_def Let_def due_loop_good.range_keeps
      flatten_loop_good.range_keeps)

lemma Accept_frame [simp]:
  "m_Equity (snd (Accept m sig)) = m_Equity m" "m_Positions (snd (Accept m sig)) = m_Positions m"
  "m_Cfg (snd (Accept m sig)) = m_Cfg m"
  by (simp_all add: Accept_manager)

lemma sim_inv_cong:
  "sm_trades st' = sm_trades st \<Longrightarrow> sm_open st' = sm_open st \<Longrightarrow>
   m_Equity (sm_mgr st') = m_Equity (sm_mgr st) \<Longrightarrow>
   m_Positions (sm_mgr st') = m_Positions (sm_mgr st) \<Longrightarrow> sim_inv eq0 st' = sim_inv eq0 st"
  by (simp add: sim_inv_def)

lemma reject_frame [simp]:
  "sm_mgr (reject d sig st) = sm_mgr st" "sm_trades (reject d sig st) = sm_trades st"
  "sm_open (reject d sig st) = sm_open st"
  "sm_rej (reject d sig st) = bump (reason_str (d_Reason d)) (sm_rej st)"
  by (simp_all add: reject_def Let_def)

lemma outrank_frame [simp]:
  "sm_mgr (outrank sig st) = sm_mgr st" "sm_trades (outrank sig st) = sm_trades st"
  "sm_open (outrank sig st) = sm_open st" "sm_rej (outrank sig st) = bump ''outranked'' (sm_rej st)"
  by (simp_all add: outrank_def reason_str_def)

lemma open_trade_inv:
  assumes inv: "sim_inv eq0 st" and fresh: "go_get (m_Positions (sm_mgr st)) (sg_ConditionID sig) = None"
  shows "sim_inv eq0 (open_trade hz sig d sh c em st)"
proof -
  let ?c = "sg_ConditionID sig" and ?n = "length (sm_trades st)"
  let ?st = "open_trade hz sig d sh c em st"
  have "?c \<notin> set (go_keys (m_Positions (sm_mgr st)))" using fresh by (simp add: map_of_eq_None_iff)
  then have nk: "?c \<notin> set (go_keys (sm_open st))" using inv by (simp add: sim_inv_def)
  then have op: "sm_open ?st = sm_open st @ [(?c, ?n)]"
    by (simp add: open_trade_def Let_def go_put_fresh map_of_eq_None_iff)
  obtain t p where tr: "sm_trades ?st = sm_trades st @ [t]"
    and t: "\<not> tr_Closed t" "tr_ConditionID t = ?c" "tr_PnLUSD t = 0"
    and mg: "sm_mgr ?st = OnOpen (sm_mgr st) p" and p: "pos_ConditionID p = ?c"
    by (simp add: open_trade_def Let_def)
  have pos: "m_Positions (sm_mgr ?st) = m_Positions (sm_mgr st) @ [(?c, p)]"
    by (simp add: mg OnOpen_def p go_put_fresh fresh)
  have "(c', j) \<in> set (sm_open ?st) \<longleftrightarrow> j < length (sm_trades ?st) \<and>
      \<not> tr_Closed (sm_trades ?st ! j) \<and> tr_ConditionID (sm_trades ?st ! j) = c'" for c' j
    using inv t by (auto simp: op tr nth_append less_Suc_eq sim_inv_def)
  moreover have "m_Equity (sm_mgr ?st) = eq0 + fsum (map tr_PnLUSD (sm_trades ?st))"
    using inv t by (simp add: mg tr sim_inv_def)
  moreover have "go_wf (sm_open ?st)" "go_wf (m_Positions (sm_mgr ?st))"
    using inv nk \<open>?c \<notin> set (go_keys (m_Positions (sm_mgr st)))\<close>
    unfolding op pos sim_inv_def by simp_all
  moreover have "set (go_keys (m_Positions (sm_mgr ?st))) = set (go_keys (sm_open ?st))"
    using inv unfolding op pos sim_inv_def by simp
  moreover have "\<forall>tr \<in> set (sm_trades ?st). \<not> tr_Closed tr \<longrightarrow> tr_PnLUSD tr = 0"
    using inv t by (auto simp: tr sim_inv_def)
  ultimately show ?thesis unfolding sim_inv_def by blast
qed

text \<open>\<open>processOne\<close> by its outcomes: the state after closing, the decision, and what follows.\<close>

lemma processOne_cases:
  fixes ro prices hz sig st
  defines "st1 \<equiv> close_first ro prices (sg_Time sig) st"
  defines "d \<equiv> fst (Accept (sm_mgr st1) (signal_input_of sig))"
  defines "st2 \<equiv> st1\<lparr>sm_mgr := snd (Accept (sm_mgr st1) (signal_input_of sig))\<rparr>"
  obtains (rejected) "\<not> d_Accept d" "processOne ro prices hz sig st = reject d sig st2"
  | (unfilled) k where "processOne ro prices hz sig st = st2\<lparr>sm_rej := bump k (sm_rej st2)\<rparr>"
  | (opened) mid sh c em where "d_Accept d" "\<not> sh \<le> 0"
      "mid = (if sg_Mid sig \<le> 0 then MidAsOf (get_or [] prices (sg_TokenID sig)) (sg_Time sig) else sg_Mid sig)"
      "EntryFill (sg_Side sig) (d_SizeUSD d) mid (sg_CostBps sig) = (sh, c, em)"
      "processOne ro prices hz sig st = open_trade hz sig d sh c em st2"
proof -
  let ?mid = "if sg_Mid sig \<le> 0 then MidAsOf (get_or [] prices (sg_TokenID sig)) (sg_Time sig) else sg_Mid sig"
  obtain sh c em where fill: "EntryFill (sg_Side sig) (d_SizeUSD d) ?mid (sg_CostBps sig) = (sh, c, em)"
    by (metis prod_cases3)
  have eq: "processOne ro prices hz sig st =
      (if \<not> d_Accept d then reject d sig st2
       else if ?mid \<le> 0 then st2\<lparr>sm_rej := bump ''no_mid'' (sm_rej st2)\<rparr>
       else if sh \<le> 0 then st2\<lparr>sm_rej := bump (reason_str ReasonSizeZero) (sm_rej st2)\<rparr>
       else open_trade hz sig d sh c em st2)"
    using fill unfolding d_def st2_def st1_def
    by (simp only: processOne_def Let_def case_prod_unfold fst_conv snd_conv)
  show thesis
  proof (cases "\<not> d_Accept d")
    case True
    with eq rejected show thesis by simp
  next
    case acc: False
    show thesis
    proof (cases "?mid \<le> 0 \<or> sh \<le> 0")
      case True
      with eq acc unfilled show thesis by (metis (full_types))
    next
      case False
      with eq acc opened [OF _ _ refl fill] show thesis by simp
    qed
  qed
qed

lemma processOne_inv:
  assumes "sim_inv eq0 st" and "range_order ro"
  shows "sim_inv eq0 (processOne ro prices hz sig st)"
proof -
  let ?st1 = "close_first ro prices (sg_Time sig) st"
  let ?a = "Accept (sm_mgr ?st1) (signal_input_of sig)"
  let ?st2 = "?st1\<lparr>sm_mgr := snd ?a\<rparr>"
  have "sim_inv eq0 ?st1" by (rule close_first_inv [OF assms])
  then have i2: "sim_inv eq0 ?st2" by (subst sim_inv_cong [of ?st2 ?st1]) simp_all
  show ?thesis
  proof (cases rule: processOne_cases [of ro prices sig st hz])
    case rejected
    then show ?thesis using i2 by (subst sim_inv_cong [of _ ?st2]) simp_all
  next
    case (unfilled k)
    then show ?thesis using i2 by (subst sim_inv_cong [of _ ?st2]) simp_all
  next
    case (opened mid sh c em)
    have "go_get (m_Positions (sm_mgr ?st2)) (sg_ConditionID sig) = None"
      using Accept_acceptD(3) [OF opened(1)] by (simp add: signal_input_of_def)
    then show ?thesis using open_trade_inv [OF i2] opened(5) by simp
  qed
qed

definition sig_ok :: "signal_in \<Rightarrow> bool" where
  \<comment> \<open>a signal of ordinary numbers\<close>
  "sig_ok s \<longleftrightarrow> sig_fin (signal_input_of s) \<and> isfin (sg_Mid s) \<and> isfin (sg_CostBps s)"

lemma open_trade_fin:
  assumes reach: "risk_reachable rcfg m" and trs: "\<forall>tr \<in> set (sm_trades st). trade_fin tr"
    and acc: "d_Accept (fst (Accept m (signal_input_of sig)))" and ok: "sig_ok sig"
    and cfg: "config_fin rcfg" and prices: "prices_fin prices"
    and mid: "mid = (if sg_Mid sig \<le> 0 then MidAsOf (get_or [] prices (sg_TokenID sig)) (sg_Time sig)
      else sg_Mid sig)"
    and fill: "EntryFill (sg_Side sig) (d_SizeUSD (fst (Accept m (signal_input_of sig)))) mid
      (sg_CostBps sig) = (sh, c, em)"
    and st: "sm_mgr st = snd (Accept m (signal_input_of sig))"
  shows "sim_fin rcfg (open_trade hz sig (fst (Accept m (signal_input_of sig))) sh c em st)"
proof -
  let ?d = "fst (Accept m (signal_input_of sig))"
  have mf: "isfin mid" using isfin_price [OF prices] ok by (simp add: mid sig_ok_def)
  have sf: "sig_fin (signal_input_of sig)" using ok by (simp add: sig_ok_def)
  have zf: "isfin (d_SizeUSD ?d)"
    by (rule Accept_size_fin(1) [OF risk_reachable_inv [OF reach cfg] sf acc])
  note ff = EntryFill_fin [OF zf mf _ fill]
  obtain t p where tr: "sm_trades (open_trade hz sig ?d sh c em st) = sm_trades st @ [t]"
    and t: "tr_Shares t = sh" "tr_EntryMid t = em" "tr_CostUSD t = c"
    and mg: "sm_mgr (open_trade hz sig ?d sh c em st) = OnOpen (sm_mgr st) p"
    and p: "pos_ConditionID p = sg_ConditionID sig" "pos_SizeUSD p = d_SizeUSD ?d"
    by (simp add: open_trade_def Let_def)
  have "risk_step m (OnOpen (sm_mgr st) p)"
    by (rule risk_step.take_it [OF sf, of m ?d]) (use acc st p in \<open>simp_all add: signal_input_of_def\<close>)
  then have "risk_reachable rcfg (OnOpen (sm_mgr st) p)" by (rule risk_reachable.step [OF reach])
  moreover have "trade_fin t" using ff mf ok by (simp add: trade_fin_def t sig_ok_def)
  ultimately show ?thesis using trs by (simp add: sim_fin_def tr mg)
qed

lemma processOne_good:
  assumes good: "sim_good prices rcfg eq0 st" and ro: "range_order ro" and ok: "sig_ok sig"
  shows "sim_good prices rcfg eq0 (processOne ro prices hz sig st)"
proof -
  let ?st1 = "close_first ro prices (sg_Time sig) st"
  let ?a = "Accept (sm_mgr ?st1) (signal_input_of sig)"
  let ?st2 = "?st1\<lparr>sm_mgr := snd ?a\<rparr>"
  have g1: "sim_good prices rcfg eq0 ?st1" by (rule close_first_good [OF good ro])
  then have reach: "risk_reachable rcfg (sm_mgr ?st1)" by (simp add: sim_good_def sim_fin_def)
  have r2: "risk_reachable rcfg (snd ?a)"
    by (rule risk_reachable.step [OF reach risk_step.leave_it [OF prod.collapse [symmetric]]])
  then have f2: "sim_fin rcfg ?st2" using g1 by (simp add: sim_good_def sim_fin_def)
  have "sim_fin rcfg (processOne ro prices hz sig st)"
  proof (cases rule: processOne_cases [of ro prices sig st hz])
    case rejected
    then show ?thesis using f2 by (simp add: sim_fin_def)
  next
    case (unfilled k)
    then show ?thesis using f2 by (simp add: sim_fin_def)
  next
    case (opened mid sh c em)
    have "\<forall>tr \<in> set (sm_trades ?st2). trade_fin tr" using f2 by (simp add: sim_fin_def)
    from open_trade_fin [OF reach this opened(1) ok _ _ opened(3,4), of hz] g1 show ?thesis
      by (simp add: sim_good_def opened(5))
  qed
  then show ?thesis
    using processOne_inv [OF sim_goodD [OF good] ro] good by (simp add: sim_good_def)
qed

text \<open>What holds through every offered signal holds through the main loop.\<close>

lemma foldl_keeps:
  "(\<And>st x. P st \<Longrightarrow> x \<in> A \<Longrightarrow> P (f st x)) \<Longrightarrow> P st \<Longrightarrow> set xs \<subseteq> A \<Longrightarrow> P (foldl f st xs)"
  by (induction xs arbitrary: st) auto

lemma windows_concat: "concat (windows win xs) = xs"
  by (induction win xs rule: windows.induct) (simp_all add: Let_def)

lemma windows_set: "b \<in> set (windows win xs) \<Longrightarrow> set b \<subseteq> set xs"
  using windows_concat [of win xs] by (metis Union_upper imageI set_concat)


lemma rank_batch_mset:
  "mset (rank_batch rcfg batch) =
     mset (if rc_AuctionDedupe rcfg = ''condition'' \<or>
              (rc_AuctionEnabled rcfg \<and> rc_AuctionDedupe rcfg = '''')
           then dedupeBestPerCondition rcfg batch else batch)"
  unfolding rank_batch_def Let_def by (rule BuildRankOrder_nth) simp

lemma rank_batch_set: "set (rank_batch rcfg batch) \<subseteq> set batch"
proof -
  have "set (rank_batch rcfg batch) = set (if rc_AuctionDedupe rcfg = ''condition'' \<or>
              (rc_AuctionEnabled rcfg \<and> rc_AuctionDedupe rcfg = '''')
           then dedupeBestPerCondition rcfg batch else batch)"
    by (metis rank_batch_mset set_mset_mset)
  also have "\<dots> \<subseteq> set batch" using sim_dedupe.kept_subset by simp
  finally show ?thesis .
qed

lemma main_loop_keeps:
  assumes one: "\<And>st sig. P st \<Longrightarrow> sig \<in> set sigs \<Longrightarrow> P (processOne ro prices hz sig st)"
    and out: "\<And>st sig. P st \<Longrightarrow> P (outrank sig st)" and st: "P st"
  shows "P (main_loop ro prices hz rcfg sigs st)"
proof -
  have off: "P (offer ro prices hz st sig)" if "P st" "sig \<in> set sigs" for st sig
    using that one out by (simp add: offer_def)
  have batch: "P (rankAndProcess ro prices hz rcfg b st batch)"
    if "P st" "set batch \<subseteq> set sigs" for b st batch
  proof -
    have "set (rank_batch rcfg batch) \<subseteq> set sigs" using rank_batch_set that(2) by blast
    then show ?thesis
      using that(1) foldl_keeps [of P "set sigs", OF off that(1)]
        foldl_keeps [of P "set sigs" "\<lambda>st sig. processOne ro prices hz sig st", OF one that(1)]
      by (simp add: rankAndProcess_def)
  qed
  have wins: "P (foldl (rankAndProcess ro prices hz rcfg b) st (windows win sigs))" for b win
    by (rule foldl_keeps [of P "{b. set b \<subseteq> set sigs}", OF _ st]) (auto intro: batch dest: windows_set)
  show ?thesis
    using wins foldl_keeps [of P "set sigs" "\<lambda>st sig. processOne ro prices hz sig st", OF one st]
    by (simp add: main_loop_def Let_def)
qed

lemma wind_down_inv:
  assumes "sim_inv eq0 st" and "range_order ro"
  shows "sim_inv eq0 (wind_down ro prices t st)" and "sm_open (wind_down ro prices t st) = []"
proof -
  let ?s1 = "closeDue ro prices t st"
  let ?s2 = "foldl (force_step prices t) ?s1 (ro ?s1 (sm_open ?s1))"
  let ?s3 = "flattenAll ro prices t ?s2"
  have i1: "sim_inv eq0 ?s1" using assms by (simp add: closeDue_def due_loop.range_keeps)
  have i2: "sim_inv eq0 ?s2" by (rule force_loop.range_keeps [OF i1 assms(2)])
  have o2: "sm_open ?s2 = []" by (rule force_loop.range_empties [OF i1 assms(2)])
  have i3: "sim_inv eq0 ?s3" using i2 assms(2) by (simp add: flattenAll_def flatten_loop.range_keeps)
  have "mset (ro ?s2 []) = {#}" using assms(2) by (simp add: range_order_def)
  then have o3: "sm_open ?s3 = []" using o2 by (simp add: flattenAll_def)
  let ?s4 = "wind_down ro prices t st"
  have "sm_trades ?s4 = sm_trades ?s3" "sm_open ?s4 = sm_open ?s3" "sm_mgr ?s4 = sm_mgr ?s3"
    by (simp_all add: wind_down_def Let_def)
  with i3 o3 show "sim_inv eq0 ?s4" "sm_open ?s4 = []" by (simp_all add: sim_inv_cong [of ?s4 ?s3])
qed

lemma sim_inv_init: "sim_inv (m_Equity (NewManager rcfg)) (init_sim rcfg sigs)"
  by (simp add: sim_inv_def init_sim_def Let_def NewManager_def)

lemma run_sim_inv:
  assumes "range_order ro"
  shows "sim_inv (m_Equity (NewManager (Normalize (cf_Risk cfg)))) (run_sim ro now cfg signals prices)"
    and "sm_open (run_sim ro now cfg signals prices) = []"
proof -
  let ?rcfg = "Normalize (cf_Risk cfg)" and ?s = "sort_sigs signals"
  let ?eq0 = "m_Equity (NewManager ?rcfg)"
  have "sim_inv ?eq0 (main_loop ro prices (horizon_def cfg) ?rcfg ?s (init_sim ?rcfg ?s))"
  proof (rule main_loop_keeps)
    show "sim_inv ?eq0 (outrank sig st)" if "sim_inv ?eq0 st" for st sig
      using that by (subst sim_inv_cong [of _ st]) simp_all
  qed (simp_all add: processOne_inv assms sim_inv_init)
  from wind_down_inv [OF this assms] show
    "sim_inv ?eq0 (run_sim ro now cfg signals prices)" "sm_open (run_sim ro now cfg signals prices) = []"
    by (simp_all add: run_sim_def Let_def)
qed

section \<open>Every signal is accounted for\<close>

definition tally :: "sim \<Rightarrow> int" where
  \<comment> \<open>trades opened plus rejections counted\<close>
  "tally st = int (length (sm_trades st)) + sum_counts (sm_rej st)"

lemma sum_counts_sum: "sum_counts m = sum_list (map snd m)"
proof -
  have "foldl (\<lambda>a c. a + c) a xs = a + sum_list xs" for a :: int and xs
    by (induction xs arbitrary: a) simp_all
  then show ?thesis by (simp add: sum_counts_def)
qed

lemma sum_counts_bump [simp]: "sum_counts (bump k m) = sum_counts m + 1"
proof -
  have "sum_list (map snd (go_put k (get_or 0 m k + 1) m)) = sum_list (map snd m) + 1"
    by (induction m) (auto simp: get_or_def)
  then show ?thesis by (simp add: bump_def sum_counts_sum)
qed

lemma tally_curve: "tally (st\<lparr>sm_curve := c\<rparr>) = tally st"
  by (simp add: tally_def)

lemma closeTrade_tally [simp]:
  "length (sm_trades (closeTrade prices tm i st)) = length (sm_trades st)"
  "sm_rej (closeTrade prices tm i st) = sm_rej st"
  by (simp_all add: closeTrade_def Let_def)

lemma close_turns_tally [simp]:
  "tally (due_step prices now st e) = tally st" "tally (flatten_step prices now st e) = tally st"
  "tally (force_step prices now st e) = tally st"
  by (simp_all add: tally_def due_step_def flatten_step_def force_step_def close_out_def Let_def)

lemma foldl_tally:
  "(\<And>st e. tally (f st e) = tally st + k) \<Longrightarrow> tally (foldl f st es) = tally st + k * int (length es)"
  by (induction es arbitrary: st) (simp_all add: algebra_simps)

lemma close_loops_tally [simp]:
  "tally (closeDue ro prices now st) = tally st" "tally (flattenAll ro prices now st) = tally st"
  "tally (foldl (force_step prices now) st es) = tally st"
  using foldl_tally [of "due_step prices now" 0] foldl_tally [of "flatten_step prices now" 0]
    foldl_tally [of "force_step prices now" 0]
  by (simp_all add: closeDue_def flattenAll_def)

lemma processOne_tally: "tally (processOne ro prices hz sig st) = tally st + 1"
proof -
  let ?st1 = "close_first ro prices (sg_Time sig) st"
  let ?st2 = "?st1\<lparr>sm_mgr := snd (Accept (sm_mgr ?st1) (signal_input_of sig))\<rparr>"
  have "tally ?st1 = tally st" by (simp add: close_first_def Let_def)
  then have t: "tally ?st2 = tally st" by (simp add: tally_def)
  show ?thesis
    by (cases rule: processOne_cases [of ro prices sig st hz])
      (use t in \<open>simp_all add: tally_def open_trade_def Let_def\<close>)
qed

lemma offer_tally: "tally (offer ro prices hz st sig) = tally st + 1"
  by (simp add: offer_def processOne_tally) (simp add: tally_def)

definition offered :: "risk_config \<Rightarrow> signal_in list \<Rightarrow> signal_in list" where
  \<comment> \<open>the signals the main loop offers to the manager, in order\<close>
  "offered rcfg sigs =
     (let burstWin = dur_mul (rc_BatchWindowMs rcfg) millisecond in
      if rc_AuctionEnabled rcfg then concat (map (rank_batch rcfg) (windows (alloc_win rcfg) sigs))
      else if burstWin \<le> 0 then sigs
      else concat (map (rank_batch rcfg) (windows burstWin sigs)))"

lemma batches_tally:
  "[] \<notin> set bs \<Longrightarrow> tally (foldl (rankAndProcess ro prices hz rcfg b) st bs) =
     tally st + int (length (concat (map (rank_batch rcfg) bs)))"
proof (induction bs arbitrary: st)
  case (Cons x bs)
  have "x \<noteq> []" using Cons.prems by auto
  then have "tally (rankAndProcess ro prices hz rcfg b st x) = tally st + int (length (rank_batch rcfg x))"
    using foldl_tally [of "\<lambda>st sig. processOne ro prices hz sig st" 1, OF processOne_tally]
      foldl_tally [of "offer ro prices hz" 1, OF offer_tally]
    by (simp add: rankAndProcess_def)
  with Cons show ?case by simp
qed simp

lemma windows_nonempty: "[] \<notin> set (windows win xs)"
  by (induction win xs rule: windows.induct) (simp_all add: Let_def)

lemma main_loop_tally:
  "tally (main_loop ro prices hz rcfg sigs st) = tally st + int (length (offered rcfg sigs))"
  using foldl_tally [of "\<lambda>st sig. processOne ro prices hz sig st" 1, OF processOne_tally]
  by (simp add: main_loop_def offered_def Let_def batches_tally windows_nonempty)

definition dedupes :: "risk_config \<Rightarrow> bool" where
  "dedupes rcfg \<longleftrightarrow> rc_AuctionDedupe rcfg = ''condition'' \<or>
     (rc_AuctionEnabled rcfg \<and> rc_AuctionDedupe rcfg = '''')"

lemma rank_batch_length:
  "length (rank_batch rcfg b) \<le> length b" "\<not> dedupes rcfg \<Longrightarrow> length (rank_batch rcfg b) = length b"
  using arg_cong [OF rank_batch_mset [of rcfg b], of size] sim_dedupe.kept_length [of rcfg b]
  by (auto simp: dedupes_def)

lemma batches_length:
  "length (concat (map (rank_batch rcfg) bs)) \<le> length (concat bs)"
  "\<not> dedupes rcfg \<Longrightarrow> length (concat (map (rank_batch rcfg) bs)) = length (concat bs)"
  using rank_batch_length [of rcfg] by (induction bs) (simp_all add: add_mono)

lemma offered_length:
  "length (offered rcfg sigs) \<le> length sigs"
  "\<not> dedupes rcfg \<Longrightarrow> length (offered rcfg sigs) = length sigs"
  using batches_length [of rcfg "windows (alloc_win rcfg) sigs"]
    batches_length [of rcfg "windows (dur_mul (rc_BatchWindowMs rcfg) millisecond) sigs"]
  by (simp_all add: offered_def Let_def windows_concat)

lemma length_sort_sigs [simp]: "length (sort_sigs sigs) = length sigs"
  by (simp add: sort_sigs_def sortS.length_srt)

lemma run_sim_tally:
  "tally (run_sim ro now cfg signals prices) =
     int (length (offered (Normalize (cf_Risk cfg)) (sort_sigs signals)))"
proof -
  have "tally (wind_down ro prices t st) = tally st" for t st
    by (simp add: wind_down_def Let_def tally_curve)
  moreover have "tally (init_sim r s) = 0" for r s
    by (simp add: tally_def init_sim_def Let_def sum_counts_def)
  ultimately show ?thesis by (simp add: run_sim_def Let_def main_loop_tally)
qed

section \<open>Properties\<close>

lemma all_closed:
  assumes "sim_inv eq0 st" and "sm_open st = []"
  shows "\<forall>tr \<in> set (sm_trades st). tr_Closed tr" and "m_Positions (sm_mgr st) = []"
proof -
  have e: "(c, i) \<in> set (sm_open st) \<longleftrightarrow> i < length (sm_trades st) \<and>
      \<not> tr_Closed (sm_trades st ! i) \<and> tr_ConditionID (sm_trades st ! i) = c" for c i
    using assms(1) by (simp add: sim_inv_def)
  show "\<forall>tr \<in> set (sm_trades st). tr_Closed tr"
  proof
    fix tr assume "tr \<in> set (sm_trades st)"
    then obtain i where "i < length (sm_trades st)" "tr = sm_trades st ! i" by (auto simp: in_set_conv_nth)
    with e [of "tr_ConditionID tr" i] assms(2) show "tr_Closed tr" by auto
  qed
  show "m_Positions (sm_mgr st) = []" using assms by (simp add: sim_inv_def)
qed

text \<open>C6: The simulation conserves equity and leaves nothing open: whatever the signals, the prices
  and the order in which Go ranges over the open positions, at the end every trade is closed, no
  position is left in the manager, and the ending equity is the starting equity plus the profits
  recorded on the trades.\<close>

theorem simulate_conserves_equity:
  fixes ro now cfg signals prices
  assumes "range_order ro"
  defines "r \<equiv> Simulate ro now cfg signals prices"
  shows "(\<forall>tr \<in> set (rs_Trades r). tr_Closed tr)
    \<and> me_NOpen (rs_Metrics r) = 0 \<and> me_NClosed (rs_Metrics r) = length (rs_Trades r)
    \<and> m_Positions (sm_mgr (run_sim ro now cfg signals prices)) = []
    \<and> me_EndingEquityUSD (rs_Metrics r) =
        me_StartingEquityUSD (rs_Metrics r) + fsum (map tr_PnLUSD (rs_Trades r))"
proof -
  let ?st = "run_sim ro now cfg signals prices"
  note i = run_sim_inv [OF assms(1), where cfg = cfg and now = now and signals = signals
      and prices = prices]
  note c = all_closed [OF i]
  have "filter tr_Closed (sm_trades ?st) = sm_trades ?st" "filter (\<lambda>tr. \<not> tr_Closed tr) (sm_trades ?st) = []"
    using c(1) by (simp_all add: filter_empty_conv)
  then show ?thesis
    using c i(1) by (simp add: r_def Simulate_def Let_def build_metrics_def sim_inv_def)
qed

definition demo_signal :: signal_in where
  "demo_signal = \<lparr>sg_Time = 63000000000000000000, sg_SignalID = ''s1'', sg_Strategy = ''x'',
     sg_StrategyVersionID = None, sg_ConditionID = ''0xa'', sg_TokenID = ''t'', sg_MarketID = ''m'',
     sg_Side = ''BUY'', sg_Action = ''open'', sg_EdgeBps = 80, sg_Conviction = Fin (1 / 2),
     sg_Urgency = 0, sg_SizeUSD = 50, sg_CapacityUSD = 0, sg_CostBps = 10, sg_Mid = Fin (1 / 2),
     sg_HorizonSec = 600, sg_KellyFrac = None, sg_SpreadBps = 20, sg_FVSource = ''book'',
     sg_ScorePath = ''fv''\<rparr>"

definition demo_cfg :: sim_config where
  "demo_cfg = \<lparr>cf_Risk = DefaultConfig, cf_DefaultHorizon = 0, cf_PeriodsPerYear = 0\<rparr>"

lemma range_order_id: "range_order (\<lambda>st xs. xs)"
  by (simp add: range_order_def)

theorem simulate_conserves_equity_witness:
  "me_NOpen (rs_Metrics (Simulate (\<lambda>st xs. xs) 1 demo_cfg [demo_signal] [])) = 0"
  using simulate_conserves_equity [OF range_order_id] by blast

text \<open>Every signal is counted at most once, and every offered one exactly once: accepted trades plus
  counted rejections are the signals offered to the manager, never more than the signals given, and
  all of them when the configuration does not deduplicate.\<close>

theorem simulate_counts:
  assumes "r = Simulate ro now cfg signals prices"
  shows "int (me_NAccepted (rs_Metrics r)) + me_NRejectedRisk (rs_Metrics r) =
      int (length (offered (Normalize (cf_Risk cfg)) (sort_sigs signals)))
    \<and> int (me_NAccepted (rs_Metrics r)) + me_NRejectedRisk (rs_Metrics r) \<le> int (me_NSignals (rs_Metrics r))
    \<and> (dedupes (Normalize (cf_Risk cfg)) \<or>
        int (me_NAccepted (rs_Metrics r)) + me_NRejectedRisk (rs_Metrics r) = int (me_NSignals (rs_Metrics r)))"
  using run_sim_tally [of ro now cfg signals prices]
    offered_length [of "Normalize (cf_Risk cfg)" "sort_sigs signals"]
  by (auto simp: assms Simulate_def build_metrics_def Let_def tally_def)

theorem simulate_counts_witness:
  "int (me_NAccepted (rs_Metrics (Simulate (\<lambda>st xs. xs) 1 demo_cfg [demo_signal] [])))
     + me_NRejectedRisk (rs_Metrics (Simulate (\<lambda>st xs. xs) 1 demo_cfg [demo_signal] []))
   \<le> int (me_NSignals (rs_Metrics (Simulate (\<lambda>st xs. xs) 1 demo_cfg [demo_signal] [])))"
  using simulate_counts [OF refl, of "\<lambda>st xs. xs" 1 demo_cfg "[demo_signal]" "[]"] by blast

text \<open>C9: The simulated portfolio stays within the risk budget at every point of the run: after any
  list of finite signals, with finite prices, the gross exposure, the number of open positions and
  the peak of the equity obey the manager's caps, the open positions are exactly the trades that
  are not closed, and the books balance.\<close>

theorem simulate_within_budget:
  fixes cfg ro prices sigs hz
  assumes "config_fin (cf_Risk cfg)" and "range_order ro" and "prices_fin prices"
    and "\<forall>s \<in> set sigs. sig_ok s"
  defines "rcfg \<equiv> Normalize (cf_Risk cfg)"
  defines "st \<equiv> main_loop ro prices hz rcfg sigs (init_sim rcfg sigs)"
  shows "rval (GrossExposure (sm_mgr st)) \<le> rval (rc_MaxGrossUSD (m_Cfg (sm_mgr st)))
    \<and> int (length (m_Positions (sm_mgr st))) \<le> rc_MaxPositions (m_Cfg (sm_mgr st))
    \<and> rval (m_Equity (sm_mgr st)) \<le> rval (m_PeakEquity (sm_mgr st))
    \<and> distinct (go_keys (sm_open st))
    \<and> set (go_keys (sm_open st)) = set (go_keys (m_Positions (sm_mgr st)))
    \<and> set (go_keys (sm_open st)) = tr_ConditionID ` {tr \<in> set (sm_trades st). \<not> tr_Closed tr}
    \<and> m_Equity (sm_mgr st) = m_Equity (NewManager rcfg) + fsum (map tr_PnLUSD (sm_trades st))"
proof -
  let ?P = "sim_good prices rcfg (m_Equity (NewManager rcfg))"
  have cfg: "config_fin rcfg"
    unfolding rcfg_def by (rule config_ok_fin [OF Normalize_config_ok [OF assms(1)]])
  have "sim_fin rcfg (init_sim rcfg sigs)"
    using risk_reachable.start [of rcfg] by (simp add: sim_fin_def init_sim_def Let_def)
  then have init: "?P (init_sim rcfg sigs)" by (simp add: sim_good_def sim_inv_init cfg assms(3))
  have g: "?P st" unfolding st_def
  proof (rule main_loop_keeps [where P = ?P, OF _ _ init])
    show "?P (processOne ro prices hz sig s)" if "?P s" "sig \<in> set sigs" for s sig
      using processOne_good [OF that(1) assms(2)] assms(4) that(2) by blast
    show "?P (outrank sig s)" if "?P s" for s sig
      using that sim_inv_cong [of "outrank sig s" s] by (simp add: sim_good_def sim_fin_def)
  qed
  then have inv: "sim_inv (m_Equity (NewManager rcfg)) st" by (rule sim_goodD)
  have "risk_reachable rcfg (sm_mgr st)" using g by (simp add: sim_good_def sim_fin_def)
  note ri = risk_reachable_inv [OF this cfg]
  have e: "(c, i) \<in> set (sm_open st) \<longleftrightarrow> i < length (sm_trades st) \<and>
      \<not> tr_Closed (sm_trades st ! i) \<and> tr_ConditionID (sm_trades st ! i) = c" for c i
    using inv by (simp add: sim_inv_def)
  have "set (go_keys (sm_open st)) = tr_ConditionID ` {tr \<in> set (sm_trades st). \<not> tr_Closed tr}"
  proof (intro set_eqI iffI)
    fix c assume "c \<in> set (go_keys (sm_open st))"
    then obtain i where "(c, i) \<in> set (sm_open st)" by auto
    with e [of c i] show "c \<in> tr_ConditionID ` {tr \<in> set (sm_trades st). \<not> tr_Closed tr}" by auto
  next
    fix c assume "c \<in> tr_ConditionID ` {tr \<in> set (sm_trades st). \<not> tr_Closed tr}"
    then obtain i where "i < length (sm_trades st)" "\<not> tr_Closed (sm_trades st ! i)"
      "tr_ConditionID (sm_trades st ! i) = c" by (auto simp: in_set_conv_nth)
    with e [of c i] show "c \<in> set (go_keys (sm_open st))" by (force simp: image_iff)
  qed
  with ri inv show ?thesis by (simp add: risk_inv_def sim_inv_def)
qed

theorem simulate_within_budget_witness:
  "rval (GrossExposure (sm_mgr (main_loop (\<lambda>st xs. xs) [] hour (Normalize DefaultConfig) [demo_signal]
      (init_sim (Normalize DefaultConfig) [demo_signal]))))
   \<le> rval (rc_MaxGrossUSD (m_Cfg (sm_mgr (main_loop (\<lambda>st xs. xs) [] hour (Normalize DefaultConfig)
      [demo_signal] (init_sim (Normalize DefaultConfig) [demo_signal])))))"
proof -
  have "config_fin (cf_Risk demo_cfg)" "prices_fin []" "\<forall>s \<in> set [demo_signal]. sig_ok s"
    by (simp_all add: demo_cfg_def config_fin_Default prices_fin_def sig_ok_def sig_fin_def
        signal_input_of_def demo_signal_def)
  from simulate_within_budget [OF this(1) range_order_id this(2,3), of hour]
  show ?thesis by (simp add: demo_cfg_def)
qed



end
