(* ===== verification/Ws_Book.thy ===== *)
theory Ws_Book
  imports Go_Text
begin

text \<open>
  \<open>internal/ws/market/book.go\<close> and \<open>types.go\<close>: the in-memory order books of the websocket listener.
  A book holds its levels in two maps from a price printed with six decimals to a size; the top of
  the book, the depths and the imbalance are recomputed from them.  The store marks a book dirty
  when it changes enough since the last flush, hands out dirty books and records flushes.
  \<open>time.Now\<close> is the argument \<open>now\<close>; the order in which Go ranges over the store is the argument
  \<open>ro\<close>, any permutation (\<open>any_order\<close>).
  Lemmas: \<open>book_inv\<close> (positive sizes, depths and imbalance match the maps) is kept by every event;
  the price keys round to a millionth; what flushing marks and what it loses.
\<close>

section \<open>Events and books\<close>

definition EventBook :: string where "EventBook = ''book''"
definition EventPriceChange :: string where "EventPriceChange = ''price_change''"
definition EventBestBidAsk :: string where "EventBestBidAsk = ''best_bid_ask''"
definition EventLastTradePrice :: string where "EventLastTradePrice = ''last_trade_price''"
definition EventTickSizeChange :: string where "EventTickSizeChange = ''tick_size_change''"
definition EventNewMarket :: string where "EventNewMarket = ''new_market''"
definition EventMarketResolved :: string where "EventMarketResolved = ''market_resolved''"

lemmas event_types = EventBook_def EventPriceChange_def EventBestBidAsk_def EventLastTradePrice_def
  EventTickSizeChange_def EventNewMarket_def EventMarketResolved_def

record level =
  lv_Price :: f64
  lv_Size :: f64

record book_state =
  bk_TokenID :: string
  bk_MarketID :: string
  bk_Bids :: "(string, f64) gomap"
  bk_Asks :: "(string, f64) gomap"
  bk_BestBid :: f64
  bk_BestAsk :: f64
  bk_LastTradePrice :: f64
  bk_Imbalance :: f64
  bk_BidDepth :: f64
  bk_AskDepth :: f64
  bk_UpdatedAt :: gotime
  bk_Dirty :: bool
  bk_LastFlushMid :: f64
  bk_LastFlushBB :: f64
  bk_LastFlushBA :: f64
  bk_LastSnapMid :: f64
  bk_LastSnapBB :: f64
  bk_LastSnapBA :: f64

definition Mid :: "book_state \<Rightarrow> f64" where
  "Mid b =
     (if bk_BestBid b \<le> 0 \<or> bk_BestAsk b \<le> 0 \<or> bk_BestAsk b < bk_BestBid b then 0
      else (bk_BestBid b + bk_BestAsk b) / 2)"

definition Spread :: "book_state \<Rightarrow> f64" where
  "Spread b = (if bk_BestBid b \<le> 0 \<or> bk_BestAsk b \<le> 0 then 0 else bk_BestAsk b - bk_BestBid b)"

definition ValidBook :: "book_state \<Rightarrow> bool" where
  "ValidBook b \<longleftrightarrow> bk_BestBid b > 0 \<and> bk_BestAsk b > 0 \<and> bk_BestAsk b \<ge> bk_BestBid b"

record leg =
  lg_AssetID :: string
  lg_Price :: f64
  lg_Size :: f64
  lg_Side :: string
  lg_BestBid :: f64
  lg_BestAsk :: f64

record parsed_event =
  pe_Type :: string
  pe_AssetID :: string
  pe_MarketID :: string
  pe_Timestamp :: gotime
  pe_Bids :: "level list"
  pe_Asks :: "level list"
  pe_Price :: f64
  pe_Size :: f64
  pe_Side :: string
  pe_BestBid :: f64
  pe_BestAsk :: f64
  pe_LastTradePrice :: f64
  pe_PriceChanges :: "leg list"
  pe_MarketGammaID :: string
  pe_WinningAssetID :: string
  pe_WinningOutcome :: string
  pe_ResolvedAssetIDs :: "string list"
  pe_Raw :: string

section \<open>Price keys\<close>

definition micro :: "real \<Rightarrow> nat" where
  \<comment> \<open>a nonnegative number in millionths, rounded to nearest and ties to even, as \<open>%.6f\<close> prints it\<close>
  "micro x =
     (let y = x * 1000000; f = nat \<lfloor>y\<rfloor>; r = y - real f in
      if r < 1 / 2 then f else if r > 1 / 2 then f + 1 else if even f then f else f + 1)"

definition priceKey :: "f64 \<Rightarrow> string" where
  "priceKey p =
     (case p of
        Fin x \<Rightarrow> (let m = micro \<bar>x\<bar> in
          (if x < 0 then ''-'' else []) @ dec_digits (m div 1000000) @ ''.'' @ pad_dec 6 (m mod 1000000))
      | PInf \<Rightarrow> ''+Inf'' | NInf \<Rightarrow> ''-Inf'' | NaN \<Rightarrow> ''NaN'')"

definition parsePriceKey :: "string \<Rightarrow> f64" where
  \<comment> \<open>\<open>fmt.Sscanf(k, "%f", &p)\<close> on the keys \<open>priceKey\<close> makes; the variable stays 0 on anything else\<close>
  "parsePriceKey k =
     (if k = ''+Inf'' then PInf else if k = ''-Inf'' then NInf else if k = ''NaN'' then NaN
      else
        let neg = (take 1 k = ''-''); s = (if neg then drop 1 k else k);
            ip = takeWhile is_digit s; fp = takeWhile is_digit (drop 1 (dropWhile is_digit s));
            v = real (digits_val ip) + real (digits_val fp) / 10 ^ length fp
        in Fin (if neg then - v else v))"

section \<open>Recomputing a book\<close>

definition recomputeDepth :: "book_state \<Rightarrow> book_state" where
  "recomputeDepth b =
     (let bidD = fsum (map snd (bk_Bids b)); askD = fsum (map snd (bk_Asks b)); tot = bidD + askD in
      b\<lparr>bk_BidDepth := bidD, bk_AskDepth := askD,
        bk_Imbalance := (if tot > 0 then (bidD - askD) / tot else 0)\<rparr>)"

definition top_bid :: "(string, f64) gomap \<Rightarrow> f64" where
  "top_bid m =
     foldl (\<lambda>best (pk, sz). if sz \<le> 0 then best
              else if parsePriceKey pk > best then parsePriceKey pk else best) 0 m"

definition top_ask :: "(string, f64) gomap \<Rightarrow> f64" where
  "top_ask m =
     fst (foldl (\<lambda>(best, firstAsk) (pk, sz). if sz \<le> 0 then (best, firstAsk)
              else if firstAsk \<or> parsePriceKey pk < best then (parsePriceKey pk, False)
              else (best, firstAsk)) (0, True) m)"

definition recomputeTop :: "book_state \<Rightarrow> book_state" where
  "recomputeTop b =
     recomputeDepth (b\<lparr>bk_BestBid := top_bid (bk_Bids b), bk_BestAsk := top_ask (bk_Asks b)\<rparr>)"

section \<open>The store\<close>

record book_store =
  st_books :: "(string, book_state) gomap"
  st_Epsilon :: f64

definition NewBookStore :: book_store where
  "NewBookStore = \<lparr>st_books = [], st_Epsilon = Fin (5 / 10 ^ 5)\<rparr>"

definition ensureLocked :: "book_store \<Rightarrow> string \<Rightarrow> book_state" where
  \<comment> \<open>the book of a token, created empty when the store has none\<close>
  "ensureLocked s t =
     (case go_get (st_books s) t of
        Some b \<Rightarrow> b
      | None \<Rightarrow> \<lparr>bk_TokenID = t, bk_MarketID = '''', bk_Bids = [], bk_Asks = [], bk_BestBid = 0,
          bk_BestAsk = 0, bk_LastTradePrice = 0, bk_Imbalance = 0, bk_BidDepth = 0, bk_AskDepth = 0,
          bk_UpdatedAt = 0, bk_Dirty = False, bk_LastFlushMid = 0, bk_LastFlushBB = 0,
          bk_LastFlushBA = 0, bk_LastSnapMid = 0, bk_LastSnapBB = 0, bk_LastSnapBA = 0\<rparr>)"

definition put_book :: "string \<Rightarrow> book_state \<Rightarrow> book_store \<Rightarrow> book_store" where
  "put_book t b s = s\<lparr>st_books := go_put t b (st_books s)\<rparr>"

definition changedEnough :: "f64 \<Rightarrow> book_state \<Rightarrow> bool" where
  "changedEnough eps b \<longleftrightarrow>
     feq (bk_LastFlushMid b) 0 \<and> feq (bk_LastFlushBB b) 0 \<or>
     \<bar>Mid b - bk_LastFlushMid b\<bar> \<ge> eps \<or> \<bar>bk_BestBid b - bk_LastFlushBB b\<bar> \<ge> eps \<or>
     \<bar>bk_BestAsk b - bk_LastFlushBA b\<bar> \<ge> eps"

definition load_levels :: "level list \<Rightarrow> (string, f64) gomap" where
  "load_levels ls =
     foldl (\<lambda>m l. if lv_Price l > 0 \<and> lv_Size l > 0 then go_put (priceKey (lv_Price l)) (lv_Size l) m else m)
       [] ls"

definition stamp :: "gotime \<Rightarrow> parsed_event \<Rightarrow> book_state \<Rightarrow> book_state" where
  "stamp now ev b = b\<lparr>bk_UpdatedAt := (if IsZero (pe_Timestamp ev) then now else pe_Timestamp ev)\<rparr>"

definition own_market :: "parsed_event \<Rightarrow> book_state \<Rightarrow> book_state" where
  "own_market ev b = (if bk_MarketID b = '''' then b\<lparr>bk_MarketID := pe_MarketID ev\<rparr> else b)"

definition book_event :: "gotime \<Rightarrow> parsed_event \<Rightarrow> book_state \<Rightarrow> book_state" where
  "book_event now ev b =
     (stamp now ev (recomputeTop (b\<lparr>bk_MarketID := pe_MarketID ev, bk_Bids := load_levels (pe_Bids ev),
         bk_Asks := load_levels (pe_Asks ev)\<rparr>)))\<lparr>bk_Dirty := True\<rparr>"

definition set_level :: "f64 \<Rightarrow> f64 \<Rightarrow> (string, f64) gomap \<Rightarrow> (string, f64) gomap" where
  "set_level price sz m =
     (if sz \<le> 0 then go_del (priceKey price) m
      else if price > 0 then go_put (priceKey price) sz m else m)"

definition change_levels :: "parsed_event \<Rightarrow> book_state \<Rightarrow> book_state" where
  "change_levels ev b =
     (if pe_Side ev = ''BUY'' then b\<lparr>bk_Bids := set_level (pe_Price ev) (pe_Size ev) (bk_Bids b)\<rparr>
      else if pe_Side ev = ''SELL'' then b\<lparr>bk_Asks := set_level (pe_Price ev) (pe_Size ev) (bk_Asks b)\<rparr>
      else b)"

definition set_bba :: "parsed_event \<Rightarrow> book_state \<Rightarrow> book_state" where
  "set_bba ev b =
     b\<lparr>bk_BestBid := (if pe_BestBid ev > 0 then pe_BestBid ev else bk_BestBid b),
       bk_BestAsk := (if pe_BestAsk ev > 0 then pe_BestAsk ev else bk_BestAsk b)\<rparr>"

definition change_event :: "f64 \<Rightarrow> gotime \<Rightarrow> parsed_event \<Rightarrow> book_state \<Rightarrow> book_state" where
  "change_event eps now ev b =
     (let b = change_levels ev (own_market ev b);
          b = (if pe_BestBid ev > 0 \<or> pe_BestAsk ev > 0 then recomputeDepth (set_bba ev b)
               else recomputeTop b);
          b = stamp now ev b
      in if changedEnough eps b then b\<lparr>bk_Dirty := True\<rparr> else b)"

definition bba_event :: "f64 \<Rightarrow> gotime \<Rightarrow> parsed_event \<Rightarrow> book_state \<Rightarrow> book_state \<times> bool" where
  "bba_event eps now ev b =
     (let b0 = own_market ev b;
          b1 = stamp now ev (set_bba ev b0)
      in if \<bar>Mid b1 - Mid b0\<bar> \<ge> eps \<or> \<bar>bk_BestBid b1 - bk_LastFlushBB b1\<bar> \<ge> eps
         then (b1\<lparr>bk_Dirty := True\<rparr>, True) else (b1, False))"

definition trade_event :: "gotime \<Rightarrow> parsed_event \<Rightarrow> book_state \<Rightarrow> book_state" where
  "trade_event now ev b =
     (let b = own_market ev b;
          b = (if pe_LastTradePrice ev > 0 then b\<lparr>bk_LastTradePrice := pe_LastTradePrice ev\<rparr> else b)
      in (stamp now ev b)\<lparr>bk_Dirty := True\<rparr>)"

definition applyBook :: "gotime \<Rightarrow> parsed_event \<Rightarrow> book_store \<Rightarrow> book_store \<times> bool" where
  "applyBook now ev s =
     (if pe_AssetID ev = '''' then (s, False)
      else (put_book (pe_AssetID ev) (book_event now ev (ensureLocked s (pe_AssetID ev))) s, True))"

definition applyPriceChange :: "gotime \<Rightarrow> parsed_event \<Rightarrow> book_store \<Rightarrow> book_store \<times> bool" where
  "applyPriceChange now ev s =
     (if pe_AssetID ev = '''' then (s, False)
      else let b = change_event (st_Epsilon s) now ev (ensureLocked s (pe_AssetID ev))
           in (put_book (pe_AssetID ev) b s, bk_Dirty b))"

definition applyBBA :: "gotime \<Rightarrow> parsed_event \<Rightarrow> book_store \<Rightarrow> book_store \<times> bool" where
  "applyBBA now ev s =
     (if pe_AssetID ev = '''' then (s, False)
      else let (b, d) = bba_event (st_Epsilon s) now ev (ensureLocked s (pe_AssetID ev))
           in (put_book (pe_AssetID ev) b s, d))"

definition applyTrade :: "gotime \<Rightarrow> parsed_event \<Rightarrow> book_store \<Rightarrow> book_store \<times> bool" where
  "applyTrade now ev s =
     (if pe_AssetID ev = '''' then (s, False)
      else (put_book (pe_AssetID ev) (trade_event now ev (ensureLocked s (pe_AssetID ev))) s, True))"

definition Apply :: "gotime \<Rightarrow> parsed_event \<Rightarrow> book_store \<Rightarrow> book_store \<times> bool" where
  "Apply now ev s =
     (if pe_Type ev = EventBook then applyBook now ev s
      else if pe_Type ev = EventPriceChange then
        (if pe_AssetID ev \<noteq> '''' \<and> pe_PriceChanges ev = [] then applyPriceChange now ev s
         else if pe_PriceChanges ev \<noteq> [] then (s, False)
         else applyPriceChange now ev s)
      else if pe_Type ev = EventBestBidAsk then applyBBA now ev s
      else if pe_Type ev = EventLastTradePrice then applyTrade now ev s
      else (s, False))"

definition Snapshot :: "string \<Rightarrow> book_store \<Rightarrow> book_state option" where
  "Snapshot t s = go_get (st_books s) t"

type_synonym book_order = "(string \<times> book_state) list \<Rightarrow> (string \<times> book_state) list"

definition any_order :: "('a list \<Rightarrow> 'a list) \<Rightarrow> bool" where
  "any_order ro \<longleftrightarrow> (\<forall>xs. mset (ro xs) = mset xs)"

definition cap_to :: "int \<Rightarrow> 'a list \<Rightarrow> 'a list" where
  \<comment> \<open>\<open>if maxN > 0 && len(out) >= maxN { break }\<close>\<close>
  "cap_to maxN xs = (if maxN > 0 then take (nat maxN) xs else xs)"

definition PeekDirty :: "book_order \<Rightarrow> int \<Rightarrow> book_store \<Rightarrow> book_state list" where
  "PeekDirty ro maxN s = cap_to maxN (filter bk_Dirty (map snd (ro (st_books s))))"

definition mark_book :: "book_state \<Rightarrow> book_state" where
  "mark_book b = b\<lparr>bk_Dirty := False, bk_LastFlushMid := Mid b, bk_LastFlushBB := bk_BestBid b,
                   bk_LastFlushBA := bk_BestAsk b\<rparr>"

definition mark_one :: "book_store \<Rightarrow> string \<Rightarrow> book_store" where
  "mark_one s t = (case go_get (st_books s) t of None \<Rightarrow> s | Some b \<Rightarrow> put_book t (mark_book b) s)"

definition MarkFlushed :: "string list \<Rightarrow> book_store \<Rightarrow> book_store" where
  "MarkFlushed ids s = foldl mark_one s ids"

definition TakeDirty :: "book_order \<Rightarrow> int \<Rightarrow> book_store \<Rightarrow> book_state list \<times> book_store" where
  "TakeDirty ro maxN s =
     (let out = PeekDirty ro maxN s in
      if out = [] then (out, s) else (out, MarkFlushed (map bk_TokenID out) s))"

definition DirtyCount :: "book_store \<Rightarrow> nat" where
  "DirtyCount s = length (filter bk_Dirty (map snd (st_books s)))"

definition snap_due :: "f64 \<Rightarrow> book_state \<Rightarrow> bool" where
  "snap_due eps b \<longleftrightarrow>
     ValidBook b \<and>
     \<not> (\<not> feq (bk_LastSnapMid b) 0 \<and> \<bar>Mid b - bk_LastSnapMid b\<bar> < eps \<and>
        \<bar>bk_BestBid b - bk_LastSnapBB b\<bar> < eps \<and> \<bar>bk_BestAsk b - bk_LastSnapBA b\<bar> < eps)"

definition snap_mark :: "book_state \<Rightarrow> book_state" where
  "snap_mark b = b\<lparr>bk_LastSnapMid := Mid b, bk_LastSnapBB := bk_BestBid b, bk_LastSnapBA := bk_BestAsk b\<rparr>"

definition TakeChangedForSnapshot :: "book_order \<Rightarrow> int \<Rightarrow> book_store \<Rightarrow> book_state list \<times> book_store" where
  "TakeChangedForSnapshot ro maxN s =
     (let out = cap_to maxN (filter (\<lambda>e. snap_due (st_Epsilon s) (snd e)) (ro (st_books s))) in
      (map snd out, foldl (\<lambda>s (t, b). put_book t (snap_mark b) s) s out))"

definition RemoveTokens :: "string list \<Rightarrow> book_store \<Rightarrow> book_store" where
  "RemoveTokens ids s = s\<lparr>st_books := foldl (\<lambda>m t. go_del t m) (st_books s) ids\<rparr>"

definition Len :: "book_store \<Rightarrow> nat" where
  "Len s = length (st_books s)"

section \<open>Price keys round to a millionth\<close>

lemma micro_near: "0 \<le> x \<Longrightarrow> \<bar>real (micro x) / 1000000 - x\<bar> \<le> 1 / 2000000"
proof -
  assume "0 \<le> x"
  then have f: "real (nat \<lfloor>x * 1000000\<rfloor>) = of_int \<lfloor>x * 1000000\<rfloor>" by simp
  define n where "n = nat \<lfloor>x * 1000000\<rfloor>"
  have n: "real n \<le> x * 1000000" "x * 1000000 < real n + 1" unfolding n_def f by linarith+
  have "micro x = (if x * 1000000 - real n < 1 / 2 then n else if x * 1000000 - real n > 1 / 2 then n + 1
      else if even n then n else n + 1)" unfolding micro_def Let_def n_def [symmetric] ..
  then have "\<bar>real (micro x) - x * 1000000\<bar> \<le> 1 / 2" using n by (auto simp: abs_le_iff)
  then have "real (micro x) - x * 1000000 \<le> 1 / 2" "x * 1000000 - real (micro x) \<le> 1 / 2" by linarith+
  then show ?thesis unfolding abs_le_iff by (intro conjI) linarith+
qed

lemma micro_exact: "micro (real n / 1000000) = n"
  by (simp add: micro_def Let_def)

lemma length_dec_digits: "n < 10 ^ k \<Longrightarrow> 0 < k \<Longrightarrow> length (dec_digits n) \<le> k"
proof (induction n arbitrary: k rule: dec_digits.induct)
  case (1 n)
  show ?case
  proof (cases "n < 10")
    case True
    with 1 show ?thesis by (subst dec_digits.simps) simp
  next
    case False
    then obtain j where k: "k = Suc j" "0 < j" using 1 by (cases k; cases "k - 1") auto
    then have "n div 10 < 10 ^ j" using 1 by (simp add: less_mult_imp_div_less)
    with 1 False k show ?thesis by (subst dec_digits.simps) simp
  qed
qed

lemma digits_val_zeros: "digits_val (replicate n (CHR ''0'') @ s) = digits_val s"
  by (induction n) (simp_all add: digits_val_def digit_val_def)

lemma pad_dec_facts:
  "n < 1000000 \<Longrightarrow> length (pad_dec 6 n) = 6"
  "digits_val (pad_dec w n) = n" "\<forall>c \<in> set (pad_dec w n). is_digit c"
  using length_dec_digits [of n 6] dec_digits_digits [of n]
  by (auto simp: pad_dec_def Let_def digits_val_zeros digits_val_dec is_digit_def)

lemma takeWhile_digits:
  "\<forall>c \<in> set ds. is_digit c \<Longrightarrow> takeWhile is_digit (ds @ ''.'' @ r) = ds"
  "\<forall>c \<in> set ds. is_digit c \<Longrightarrow> dropWhile is_digit (ds @ ''.'' @ r) = ''.'' @ r"
  by (induction ds) (auto simp: is_digit_def)

lemma digit_first: "\<forall>c \<in> set ds. is_digit c \<Longrightarrow> ds \<noteq> [] \<Longrightarrow>
    take 1 (ds @ r) \<noteq> ''-'' \<and> ds @ r \<noteq> ''+Inf'' \<and> ds @ r \<noteq> ''-Inf'' \<and> ds @ r \<noteq> ''NaN''"
  by (cases ds) (auto simp: is_digit_def)

lemma parse_digits:
  assumes "\<forall>c \<in> set a. is_digit c" and "a \<noteq> []" and "\<forall>c \<in> set f. is_digit c"
  shows "parsePriceKey (a @ ''.'' @ f) = Fin (real (digits_val a) + real (digits_val f) / 10 ^ length f)"
    "parsePriceKey (''-'' @ a @ ''.'' @ f) = Fin (- (real (digits_val a) + real (digits_val f) / 10 ^ length f))"
proof -
  have t: "takeWhile is_digit f = f" by (rule takeWhile_eq_all_conv [THEN iffD2, OF assms(3)])
  note p = takeWhile_digits [OF assms(1)] digit_first [OF assms(1,2), of "''.'' @ f"]
  show "parsePriceKey (a @ ''.'' @ f) = Fin (real (digits_val a) + real (digits_val f) / 10 ^ length f)"
    using p by (simp add: parsePriceKey_def Let_def t)
  obtain c cs where a: "a = c # cs" "is_digit c" using assms(1,2) by (cases a) auto
  then have "c \<noteq> CHR ''I''" by (auto simp: is_digit_def)
  then show "parsePriceKey (''-'' @ a @ ''.'' @ f) = Fin (- (real (digits_val a) + real (digits_val f) / 10 ^ length f))"
    using p a by (simp add: parsePriceKey_def Let_def t)
qed

lemma parse_priceKey:
  "parsePriceKey (priceKey (Fin x)) = Fin ((if x < 0 then - 1 else 1) * (real (micro \<bar>x\<bar>) / 1000000))"
proof -
  define m where "m = micro \<bar>x\<bar>"
  let ?a = "dec_digits (m div 1000000)" and ?f = "pad_dec 6 (m mod 1000000)"
  have f: "length ?f = 6" "digits_val ?f = m mod 1000000" by (simp_all add: pad_dec_facts)
  have a: "digits_val ?a = m div 1000000" by (rule digits_val_dec)
  have "real m = real (m div 1000000) * 1000000 + real (m mod 1000000)"
    by (metis div_mult_mod_eq of_nat_add of_nat_mult of_nat_numeral)
  then have v: "real (digits_val ?a) + real (digits_val ?f) / 10 ^ length ?f = real m / 1000000"
    unfolding a f by simp
  note p = parse_digits [OF dec_digits_digits dec_digits_ne pad_dec_facts(3), of "m div 1000000" 6 "m mod 1000000"]
  show ?thesis using p unfolding v
    unfolding priceKey_def Let_def f64.case m_def [symmetric] by (cases "x < 0") simp_all
qed

lemma priceKey_eq: "0 \<le> x \<Longrightarrow> 0 \<le> y \<Longrightarrow> priceKey (Fin x) = priceKey (Fin y) \<longleftrightarrow> micro x = micro y"
  using arg_cong [of "priceKey (Fin x)" "priceKey (Fin y)" parsePriceKey]
  unfolding parse_priceKey by (auto simp add: priceKey_def)

section \<open>Levels\<close>

definition levels_ok :: "(string, f64) gomap \<Rightarrow> bool" where
  "levels_ok m \<longleftrightarrow> go_wf m \<and>
     (\<forall>k v. go_get m k = Some v \<longrightarrow> isfin v \<and> 0 < rval v \<and> (\<exists>p>0. k = priceKey (Fin p)))"

lemma levels_ok_Nil [simp]: "levels_ok []"
  by (simp add: levels_ok_def)

lemma levels_ok_put:
  "levels_ok m \<Longrightarrow> isfin p \<Longrightarrow> p > 0 \<Longrightarrow> isfin v \<Longrightarrow> 0 < rval v \<Longrightarrow> levels_ok (go_put (priceKey p) v m)"
  by (auto simp: levels_ok_def gmap.get_put gmap.wf_put isfin_order elim!: isfinE)

lemma levels_ok_del: "levels_ok m \<Longrightarrow> levels_ok (go_del k m)"
  by (auto simp: levels_ok_def gmap.get_del gmap.wf_del)

lemma levels_ok_mem: "levels_ok m \<Longrightarrow> (k, v) \<in> set m \<Longrightarrow> isfin v \<and> 0 < rval v \<and> (\<exists>p>0. k = priceKey (Fin p))"
  by (auto simp: levels_ok_def go_get_wf)

definition level_num :: "level \<Rightarrow> bool" where
  "level_num l \<longleftrightarrow> isfin (lv_Price l) \<and> isfin (lv_Size l)"

lemma load_levels_snoc:
  "load_levels (ls @ [l]) = (if lv_Price l > 0 \<and> lv_Size l > 0
     then go_put (priceKey (lv_Price l)) (lv_Size l) (load_levels ls) else load_levels ls)"
  by (simp add: load_levels_def)

lemma load_levels_ok: "\<forall>l \<in> set ls. level_num l \<Longrightarrow> levels_ok (load_levels ls)"
proof (induction ls rule: rev_induct)
  case Nil
  show ?case by (simp add: load_levels_def)
next
  case (snoc l ls)
  then show ?case by (auto simp: load_levels_snoc level_num_def isfin_order intro!: levels_ok_put)
qed

lemma go_keys_put [simp]: "fst ` set (go_put k v m) = insert k (fst ` set m)"
  by (simp add: gmap.dom_put flip: dom_map_of_conv_image_fst)

lemma load_levels_keys:
  "set (go_keys (load_levels ls)) = (\<lambda>l. priceKey (lv_Price l)) ` {l \<in> set ls. lv_Price l > 0 \<and> lv_Size l > 0}"
proof (induction ls rule: rev_induct)
  case Nil
  show ?case by (simp add: load_levels_def)
next
  case (snoc l ls)
  then show ?case
    unfolding load_levels_snoc by auto
qed

lemma set_level_ok:
  "levels_ok m \<Longrightarrow> isfin p \<Longrightarrow> isfin v \<Longrightarrow> levels_ok (set_level p v m)"
  by (auto simp: set_level_def isfin_order intro!: levels_ok_put levels_ok_del)

section \<open>Top of the book\<close>

lemma levels_prices:
  assumes "levels_ok m" and "(k, v) \<in> set m"
  shows "isfin (parsePriceKey k)" "0 \<le> rval (parsePriceKey k)" "\<not> v \<le> 0"
  using levels_ok_mem [OF assms] by (auto simp: parse_priceKey isfin_order)

lemma top_bid_fold:
  assumes "\<forall>(k, v) \<in> set m. isfin (parsePriceKey k) \<and> \<not> v \<le> 0"
  shows "isfin (top_bid m) \<and> 0 \<le> rval (top_bid m) \<and> (\<forall>k \<in> set (go_keys m). rval (parsePriceKey k) \<le> rval (top_bid m))
    \<and> (top_bid m = 0 \<or> top_bid m \<in> parsePriceKey ` set (go_keys m))"
  using assms
proof (induction m rule: rev_induct)
  case Nil
  show ?case by (simp add: top_bid_def)
next
  case (snoc e m)
  obtain k v where e: "e = (k, v)" by (cases e)
  have "top_bid (m @ [e]) = (if parsePriceKey k > top_bid m then parsePriceKey k else top_bid m)"
    using snoc.prems by (simp add: top_bid_def e)
  with snoc e show ?case by (auto simp: isfin_order)
qed

lemma top_ask_fold:
  assumes "\<forall>(k, v) \<in> set m. isfin (parsePriceKey k) \<and> \<not> v \<le> 0"
  shows "if m = [] then top_ask m = 0
    else top_ask m \<in> parsePriceKey ` set (go_keys m) \<and>
         (\<forall>k \<in> set (go_keys m). rval (top_ask m) \<le> rval (parsePriceKey k))"
proof -
  let ?step = "\<lambda>(best, firstAsk) (pk, sz :: f64). if sz \<le> 0 then (best, firstAsk)
     else if firstAsk \<or> parsePriceKey pk < best then (parsePriceKey pk, False) else (best, firstAsk)"
  have "if m = [] then foldl ?step (0, True) m = (0, True)
    else snd (foldl ?step (0, True) m) = False \<and> isfin (fst (foldl ?step (0, True) m)) \<and>
      fst (foldl ?step (0, True) m) \<in> parsePriceKey ` set (go_keys m) \<and>
         (\<forall>k \<in> set (go_keys m). rval (fst (foldl ?step (0, True) m)) \<le> rval (parsePriceKey k))"
    using assms
  proof (induction m rule: rev_induct)
    case Nil
    show ?case by simp
  next
    case (snoc e m)
    obtain k v where e: "e = (k, v)" by (cases e)
    obtain best fa where st: "foldl ?step (0, True) m = (best, fa)" by fastforce
    from snoc e st show ?case by (auto simp: isfin_order split: if_splits)
  qed
  then show ?thesis by (auto simp: top_ask_def split: if_splits)
qed

lemma levels_ok_fold: "levels_ok m \<Longrightarrow> \<forall>(k, v) \<in> set m. isfin (parsePriceKey k) \<and> \<not> v \<le> 0"
  using levels_prices by blast

section \<open>The book invariant\<close>

definition book_inv :: "book_state \<Rightarrow> bool" where
  \<comment> \<open>sizes are positive under well-formed keys; depths and imbalance are those of the maps\<close>
  "book_inv b \<longleftrightarrow> levels_ok (bk_Bids b) \<and> levels_ok (bk_Asks b) \<and> recomputeDepth b = b"

definition event_num :: "parsed_event \<Rightarrow> bool" where
  \<comment> \<open>the prices and sizes of a message are ordinary numbers\<close>
  "event_num ev \<longleftrightarrow> (\<forall>l \<in> set (pe_Bids ev). level_num l) \<and> (\<forall>l \<in> set (pe_Asks ev). level_num l) \<and>
     isfin (pe_Price ev) \<and> isfin (pe_Size ev) \<and> isfin (pe_BestBid ev) \<and> isfin (pe_BestAsk ev)"

lemma recomputeDepth_idem [simp]: "recomputeDepth (recomputeDepth b) = recomputeDepth b"
  by (simp add: recomputeDepth_def Let_def)

lemma recomputeDepth_sel [simp]:
  "bk_Bids (recomputeDepth b) = bk_Bids b" "bk_Asks (recomputeDepth b) = bk_Asks b"
  "bk_BestBid (recomputeDepth b) = bk_BestBid b" "bk_BestAsk (recomputeDepth b) = bk_BestAsk b"
  "bk_TokenID (recomputeDepth b) = bk_TokenID b" "bk_LastFlushMid (recomputeDepth b) = bk_LastFlushMid b"
  "bk_LastFlushBB (recomputeDepth b) = bk_LastFlushBB b" "bk_LastFlushBA (recomputeDepth b) = bk_LastFlushBA b"
  "bk_Dirty (recomputeDepth b) = bk_Dirty b"
  by (simp_all add: recomputeDepth_def Let_def)

lemma recomputeDepth_fix:
  "recomputeDepth b = b \<longleftrightarrow>
     bk_BidDepth b = fsum (map snd (bk_Bids b)) \<and> bk_AskDepth b = fsum (map snd (bk_Asks b)) \<and>
     bk_Imbalance b = (if bk_BidDepth b + bk_AskDepth b > 0
       then (bk_BidDepth b - bk_AskDepth b) / (bk_BidDepth b + bk_AskDepth b) else 0)"
  by (cases b) (auto simp: recomputeDepth_def Let_def)

lemma book_inv_frame:
  "book_inv (b\<lparr>bk_Dirty := d\<rparr>) = book_inv b" "book_inv (stamp now ev b) = book_inv b"
  "book_inv (own_market ev b) = book_inv b" "book_inv (set_bba ev b) = book_inv b"
  "book_inv (b\<lparr>bk_LastTradePrice := p\<rparr>) = book_inv b" "book_inv (mark_book b) = book_inv b"
  "book_inv (snap_mark b) = book_inv b"
  by (simp_all add: book_inv_def recomputeDepth_fix stamp_def own_market_def set_bba_def mark_book_def
      snap_mark_def)

lemma token_frame [simp]:
  "bk_TokenID (stamp now ev b) = bk_TokenID b" "bk_TokenID (own_market ev b) = bk_TokenID b"
  "bk_TokenID (set_bba ev b) = bk_TokenID b" "bk_TokenID (change_levels ev b) = bk_TokenID b"
  "bk_TokenID (recomputeTop b) = bk_TokenID b" "bk_TokenID (mark_book b) = bk_TokenID b"
  by (simp_all add: stamp_def own_market_def set_bba_def change_levels_def recomputeTop_def mark_book_def)

lemma book_inv_depth:
  "levels_ok (bk_Bids b) \<Longrightarrow> levels_ok (bk_Asks b) \<Longrightarrow> book_inv (recomputeDepth b)"
  "levels_ok (bk_Bids b) \<Longrightarrow> levels_ok (bk_Asks b) \<Longrightarrow> book_inv (recomputeTop b)"
  by (simp_all add: book_inv_def recomputeTop_def)

lemma change_levels_ok:
  assumes "event_num ev" and "book_inv b"
  shows "levels_ok (bk_Bids (change_levels ev b))" "levels_ok (bk_Asks (change_levels ev b))"
  using assms by (auto simp: change_levels_def event_num_def book_inv_def intro!: set_level_ok)

lemma own_market_levels [simp]:
  "bk_Bids (own_market ev b) = bk_Bids b" "bk_Asks (own_market ev b) = bk_Asks b"
  "bk_Bids (set_bba ev b) = bk_Bids b" "bk_Asks (set_bba ev b) = bk_Asks b"
  by (simp_all add: own_market_def set_bba_def)

lemma book_event_inv: "event_num ev \<Longrightarrow> book_inv (book_event now ev b)"
  by (simp add: book_event_def book_inv_frame book_inv_depth event_num_def load_levels_ok)

lemma change_event_inv:
  assumes "event_num ev" and "book_inv b"
  shows "book_inv (change_event eps now ev b)"
proof -
  have "book_inv (own_market ev b)" using assms(2) by (simp add: book_inv_frame)
  note ok = change_levels_ok [OF assms(1) this]
  show ?thesis by (simp add: change_event_def Let_def book_inv_frame book_inv_depth ok)
qed

lemma bba_event_inv: "book_inv b \<Longrightarrow> book_inv (fst (bba_event eps now ev b))"
  by (simp add: bba_event_def Let_def book_inv_frame)

lemma trade_event_inv: "book_inv b \<Longrightarrow> book_inv (trade_event now ev b)"
  by (simp add: trade_event_def Let_def book_inv_frame)

lemma event_token [simp]:
  "bk_TokenID (book_event now ev b) = bk_TokenID b"
  "bk_TokenID (change_event eps now ev b) = bk_TokenID b"
  "bk_TokenID (fst (bba_event eps now ev b)) = bk_TokenID b"
  "bk_TokenID (trade_event now ev b) = bk_TokenID b"
proof -
  show "bk_TokenID (book_event now ev b) = bk_TokenID b" by (simp add: book_event_def)
  show "bk_TokenID (change_event eps now ev b) = bk_TokenID b" by (simp add: change_event_def Let_def)
  show "bk_TokenID (fst (bba_event eps now ev b)) = bk_TokenID b" by (simp add: bba_event_def Let_def)
  show "bk_TokenID (trade_event now ev b) = bk_TokenID b" by (simp add: trade_event_def Let_def)
qed

definition store_inv :: "book_store \<Rightarrow> bool" where
  "store_inv s \<longleftrightarrow> go_wf (st_books s) \<and>
     (\<forall>t b. go_get (st_books s) t = Some b \<longrightarrow> bk_TokenID b = t \<and> book_inv b)"

lemma store_inv_new: "store_inv NewBookStore"
  by (simp add: store_inv_def NewBookStore_def)

lemma store_inv_put:
  "store_inv s \<Longrightarrow> bk_TokenID b = t \<Longrightarrow> book_inv b \<Longrightarrow> store_inv (put_book t b s)"
  by (simp add: store_inv_def put_book_def gmap.get_put gmap.wf_put)

lemma ensure_ok:
  assumes "store_inv s"
  shows "bk_TokenID (ensureLocked s t) = t" "book_inv (ensureLocked s t)"
proof -
  have "book_inv (ensureLocked s t)" if "go_get (st_books s) t = None"
    using that by (simp add: ensureLocked_def book_inv_def recomputeDepth_fix f64_eval)
  then show "bk_TokenID (ensureLocked s t) = t" "book_inv (ensureLocked s t)"
    using assms by (auto simp: store_inv_def ensureLocked_def split: option.splits)
qed

lemma Apply_inv:
  assumes "store_inv s" and "event_num ev"
  shows "store_inv (fst (Apply now ev s))"
proof -
  note e = ensure_ok [OF assms(1), of "pe_AssetID ev"]
  have "store_inv (fst (applyBook now ev s))"
    using e by (simp add: applyBook_def assms book_event_inv store_inv_put)
  moreover have "store_inv (fst (applyPriceChange now ev s))"
    using e by (simp add: applyPriceChange_def Let_def assms change_event_inv store_inv_put)
  moreover have "store_inv (fst (applyBBA now ev s))"
    using e by (simp add: applyBBA_def assms bba_event_inv store_inv_put split: prod.split)
      (metis bba_event_inv event_token(3) fst_conv store_inv_put assms(1))
  moreover have "store_inv (fst (applyTrade now ev s))"
    using e by (simp add: applyTrade_def assms trade_event_inv store_inv_put)
  ultimately show ?thesis using assms(1) by (simp add: Apply_def)
qed

lemma store_inv_get: "store_inv s \<Longrightarrow> go_get (st_books s) t = Some b \<Longrightarrow> bk_TokenID b = t \<and> book_inv b"
  by (simp add: store_inv_def)

lemma mark_one_inv: "store_inv s \<Longrightarrow> store_inv (mark_one s t)"
  unfolding mark_one_def
  by (cases "go_get (st_books s) t") (auto dest: store_inv_get intro!: store_inv_put simp: book_inv_frame)

lemma MarkFlushed_inv: "store_inv s \<Longrightarrow> store_inv (MarkFlushed ids s)"
  unfolding MarkFlushed_def by (induction ids arbitrary: s) (simp_all add: mark_one_inv)

lemma RemoveTokens_inv: "store_inv s \<Longrightarrow> store_inv (RemoveTokens ids s)"
proof (induction ids arbitrary: s)
  case (Cons t ids)
  have "store_inv (s\<lparr>st_books := go_del t (st_books s)\<rparr>)"
    using Cons.prems by (simp add: store_inv_def gmap.get_del gmap.wf_del)
  from Cons.IH [OF this] show ?case by (simp add: RemoveTokens_def)
qed (simp add: RemoveTokens_def)

lemma imbalance_range:
  assumes "book_inv b"
  shows "isfin (bk_BidDepth b) \<and> 0 \<le> rval (bk_BidDepth b) \<and> isfin (bk_AskDepth b) \<and> 0 \<le> rval (bk_AskDepth b)
    \<and> \<bar>rval (bk_Imbalance b)\<bar> \<le> 1"
proof -
  have sum: "isfin (fsum (map snd m)) \<and> 0 \<le> rval (fsum (map snd m))" if "levels_ok m" for m
  proof -
    have "\<forall>v \<in> set (map snd m). isfin v \<and> 0 < rval v" using levels_ok_mem [OF that] by auto
    then show ?thesis by (induction m) auto
  qed
  have d: "isfin (bk_BidDepth b)" "0 \<le> rval (bk_BidDepth b)" "isfin (bk_AskDepth b)" "0 \<le> rval (bk_AskDepth b)"
    using assms sum by (simp_all add: book_inv_def recomputeDepth_fix)
  have "\<bar>rval (bk_Imbalance b)\<bar> \<le> 1"
  proof (cases "bk_BidDepth b + bk_AskDepth b > 0")
    case True
    then have "0 < rval (bk_BidDepth b) + rval (bk_AskDepth b)" using d by (simp add: isfin_order)
    with True d assms show ?thesis
      by (simp add: book_inv_def recomputeDepth_fix abs_le_iff divide_le_eq le_divide_eq)
  next
    case False
    with assms show ?thesis by (simp add: book_inv_def recomputeDepth_fix)
  qed
  with d show ?thesis by blast
qed

section \<open>Flushing\<close>

lemma MarkFlushed_get:
  "go_get (st_books (MarkFlushed ids s)) t =
     (if t \<in> set ids then map_option mark_book (go_get (st_books s) t) else go_get (st_books s) t)"
  unfolding MarkFlushed_def
proof (induction ids arbitrary: s)
  case (Cons u ids)
  have "mark_book (mark_book b) = mark_book b" for b by (simp add: mark_book_def Mid_def)
  with Cons show ?case
    by (auto simp: mark_one_def put_book_def gmap.get_put option.map_comp o_def split: option.split)
qed simp

lemma MarkFlushed_keys: "store_inv s \<Longrightarrow> go_keys (st_books (MarkFlushed ids s)) = go_keys (st_books s)"
  unfolding MarkFlushed_def
proof (induction ids arbitrary: s)
  case (Cons u ids)
  have "go_keys (st_books (mark_one s u)) = go_keys (st_books s)"
    by (auto simp: mark_one_def put_book_def go_put_present split: option.split)
  with Cons mark_one_inv show ?case by simp
qed simp

definition dirty_tokens :: "book_store \<Rightarrow> string set" where
  "dirty_tokens s = {t. \<exists>b. go_get (st_books s) t = Some b \<and> bk_Dirty b}"

lemma dirty_tokens_mark: "dirty_tokens (MarkFlushed ids s) = dirty_tokens s - set ids"
  by (auto simp: dirty_tokens_def MarkFlushed_get mark_book_def split: if_splits)

lemma DirtyCount_card: "store_inv s \<Longrightarrow> DirtyCount s = card (dirty_tokens s)"
proof -
  assume inv: "store_inv s"
  then have wf: "go_wf (st_books s)" by (simp add: store_inv_def)
  let ?ds = "filter (bk_Dirty \<circ> snd) (st_books s)"
  have "dirty_tokens s = set (map fst ?ds)"
    unfolding dirty_tokens_def using wf by (force simp: go_get_wf)
  moreover have "distinct (map fst ?ds)" using wf by (rule distinct_map_filter)
  ultimately have "card (dirty_tokens s) = length ?ds" by (metis distinct_card length_map)
  then show ?thesis by (simp add: DirtyCount_def filter_map)
qed

lemma PeekDirty_tokens:
  assumes "store_inv s" and "any_order ro"
  shows "map bk_TokenID (PeekDirty ro n s) = cap_to n (map fst (filter (bk_Dirty \<circ> snd) (ro (st_books s))))"
    "distinct (map fst (filter (bk_Dirty \<circ> snd) (ro (st_books s))))"
    "set (map fst (filter (bk_Dirty \<circ> snd) (ro (st_books s)))) = dirty_tokens s"
proof -
  have wf: "go_wf (st_books s)" using assms(1) by (simp add: store_inv_def)
  have m: "mset (ro (st_books s)) = mset (st_books s)" using assms(2) by (simp add: any_order_def)
  then have s: "set (ro (st_books s)) = set (st_books s)" by (metis set_mset_mset)
  have tok: "\<forall>e \<in> set (ro (st_books s)). bk_TokenID (snd e) = fst e"
    unfolding s using assms(1) wf by (auto simp: store_inv_def)
  have "map bk_TokenID (filter bk_Dirty (map snd xs)) = map fst (filter (bk_Dirty \<circ> snd) xs)"
    if "\<forall>e \<in> set xs. bk_TokenID (snd e) = fst e" for xs
    using that by (induction xs) auto
  from this [OF tok] show "map bk_TokenID (PeekDirty ro n s) =
      cap_to n (map fst (filter (bk_Dirty \<circ> snd) (ro (st_books s))))"
    by (simp add: PeekDirty_def cap_to_def flip: take_map)
  have "mset (map fst (ro (st_books s))) = mset (go_keys (st_books s))" using m by simp
  then have "distinct (map fst (ro (st_books s)))" using wf by (metis mset_eq_imp_distinct_iff)
  then show "distinct (map fst (filter (bk_Dirty \<circ> snd) (ro (st_books s))))" by (rule distinct_map_filter)
  show "set (map fst (filter (bk_Dirty \<circ> snd) (ro (st_books s)))) = dirty_tokens s"
    unfolding dirty_tokens_def using wf s by (force simp: go_get_wf)
qed

lemma PeekDirty_mem: "any_order ro \<Longrightarrow> b \<in> set (PeekDirty ro n s) \<Longrightarrow> bk_Dirty b \<and> b \<in> snd ` set (st_books s)"
proof -
  assume "any_order ro"
  then have "set (ro (st_books s)) = set (st_books s)" by (metis any_order_def set_mset_mset)
  then show "b \<in> set (PeekDirty ro n s) \<Longrightarrow> bk_Dirty b \<and> b \<in> snd ` set (st_books s)"
    by (auto simp: PeekDirty_def cap_to_def split: if_splits dest: in_set_takeD)
qed

text \<open>After a mark the book counts as unchanged.\<close>

lemma mark_not_changed:
  "isfin (bk_BestBid b) \<Longrightarrow> isfin (bk_BestAsk b) \<Longrightarrow> 0 < rval (bk_BestBid b) \<Longrightarrow> isfin eps \<Longrightarrow> 0 < rval eps \<Longrightarrow>
   \<not> changedEnough eps (mark_book b)"
  by (auto simp: changedEnough_def mark_book_def Mid_def isfin_order)

section \<open>Properties\<close>

definition demo_event :: parsed_event where
  "demo_event = \<lparr>pe_Type = EventBook, pe_AssetID = ''t'', pe_MarketID = ''m'', pe_Timestamp = 63000000000000000000,
     pe_Bids = [\<lparr>lv_Price = Fin (48 / 100), lv_Size = 100\<rparr>, \<lparr>lv_Price = Fin (47 / 100), lv_Size = 50\<rparr>],
     pe_Asks = [\<lparr>lv_Price = Fin (52 / 100), lv_Size = 80\<rparr>], pe_Price = 0, pe_Size = 0, pe_Side = '''',
     pe_BestBid = 0, pe_BestAsk = 0, pe_LastTradePrice = 0, pe_PriceChanges = [], pe_MarketGammaID = '''',
     pe_WinningAssetID = '''', pe_WinningOutcome = '''', pe_ResolvedAssetIDs = [], pe_Raw = ''''\<rparr>"

definition run_events :: "(gotime \<times> parsed_event) list \<Rightarrow> book_store \<Rightarrow> book_store" where
  "run_events evs s = foldl (\<lambda>s (now, ev). fst (Apply now ev s)) s evs"

lemma run_events_inv:
  "store_inv s \<Longrightarrow> \<forall>e \<in> set evs. event_num (snd e) \<Longrightarrow> store_inv (run_events evs s)"
  unfolding run_events_def by (induction evs arbitrary: s) (auto simp: Apply_inv)

lemma demo_event_num: "event_num demo_event"
  by (simp add: event_num_def demo_event_def level_num_def)

text \<open>C25: Book accounting: whatever messages with ordinary numbers arrive, in whatever order, every book
  of the store is filed under its own token, holds only positive sizes, its depths are the sums of
  its level maps, and its imbalance is the normalised difference of the depths, between -1 and 1.\<close>

theorem book_accounting:
  assumes "\<forall>e \<in> set evs. event_num (snd e)"
    and "Snapshot t (run_events evs NewBookStore) = Some b"
  shows "bk_TokenID b = t \<and> (\<forall>k v. (k, v) \<in> set (bk_Bids b) \<union> set (bk_Asks b) \<longrightarrow> v > 0)
    \<and> bk_BidDepth b = fsum (map snd (bk_Bids b)) \<and> bk_AskDepth b = fsum (map snd (bk_Asks b))
    \<and> bk_Imbalance b * (bk_BidDepth b + bk_AskDepth b) = bk_BidDepth b - bk_AskDepth b
    \<and> - 1 \<le> rval (bk_Imbalance b) \<and> rval (bk_Imbalance b) \<le> 1"
proof -
  have "store_inv (run_events evs NewBookStore)" by (rule run_events_inv [OF store_inv_new assms(1)])
  then have b: "bk_TokenID b = t" "book_inv b" using assms(2) by (simp_all add: store_inv_def Snapshot_def)
  have pos: "v > 0" if "(k, v) \<in> set (bk_Bids b) \<union> set (bk_Asks b)" for k v
    using that b(2) levels_ok_mem by (auto simp: book_inv_def isfin_order)
  note r = imbalance_range [OF b(2)]
  let ?B = "bk_BidDepth b" and ?A = "bk_AskDepth b"
  have i: "bk_Imbalance b = (if ?B + ?A > 0 then (?B - ?A) / (?B + ?A) else 0)"
    using b(2) by (simp add: book_inv_def recomputeDepth_fix)
  obtain x y where xy: "?B = Fin x" "?A = Fin y" "0 \<le> x" "0 \<le> y" using r by (auto elim!: isfinE)
  then have "bk_Imbalance b * (?B + ?A) = ?B - ?A" by (auto simp: i f64_eval)
  with b pos r show ?thesis by (auto simp: book_inv_def recomputeDepth_fix abs_le_iff)
qed

theorem book_accounting_witness:
  "\<exists>b. Snapshot ''t'' (run_events [(1, demo_event)] NewBookStore) = Some b \<and> rval (bk_Imbalance b) \<le> 1"
proof -
  have e: "\<forall>e \<in> set [(1, demo_event)]. event_num (snd e)" by (simp add: demo_event_num)
  have "\<exists>b. Snapshot ''t'' (run_events [(1, demo_event)] NewBookStore) = Some b"
    by (simp add: run_events_def Apply_def applyBook_def Snapshot_def put_book_def gmap.get_put)
      (simp add: demo_event_def)
  then show ?thesis using book_accounting [OF e] by blast
qed

text \<open>The top of the book is exact after a book message, and after a price change that carries no
  quote of its own: the best bid is the largest and the best ask the smallest of the prices in the
  maps (zero when a side is empty), where each price is read back from its key.\<close>

theorem book_top_exact:
  assumes "event_num ev" and "book_inv b"
    and "b' = book_event now ev b \<or> b' = change_event eps now ev b \<and> \<not> pe_BestBid ev > 0 \<and> \<not> pe_BestAsk ev > 0"
  shows "(\<forall>k \<in> set (go_keys (bk_Bids b')). rval (parsePriceKey k) \<le> rval (bk_BestBid b'))
    \<and> (bk_BestBid b' = 0 \<or> bk_BestBid b' \<in> parsePriceKey ` set (go_keys (bk_Bids b')))
    \<and> (if bk_Asks b' = [] then bk_BestAsk b' = 0
       else bk_BestAsk b' \<in> parsePriceKey ` set (go_keys (bk_Asks b'))
         \<and> (\<forall>k \<in> set (go_keys (bk_Asks b')). rval (bk_BestAsk b') \<le> rval (parsePriceKey k)))"
proof -
  have inv: "book_inv b'" using assms book_event_inv change_event_inv by blast
  have "bk_BestBid b' = top_bid (bk_Bids b') \<and> bk_BestAsk b' = top_ask (bk_Asks b')"
    using assms(3)
  proof
    assume "b' = book_event now ev b"
    then show ?thesis by (simp add: book_event_def stamp_def recomputeTop_def)
  next
    assume "b' = change_event eps now ev b \<and> \<not> pe_BestBid ev > 0 \<and> \<not> pe_BestAsk ev > 0"
    then show ?thesis by (simp add: change_event_def Let_def stamp_def recomputeTop_def)
  qed
  then show ?thesis
    using top_bid_fold [OF levels_ok_fold, of "bk_Bids b'"] top_ask_fold [OF levels_ok_fold, of "bk_Asks b'"] inv
    unfolding book_inv_def by metis
qed

theorem book_top_exact_witness:
  "bk_BestBid (book_event 1 demo_event (ensureLocked NewBookStore ''t'')) = 0 \<or>
   bk_BestBid (book_event 1 demo_event (ensureLocked NewBookStore ''t''))
     \<in> parsePriceKey ` set (go_keys (bk_Bids (book_event 1 demo_event (ensureLocked NewBookStore ''t''))))"
  using book_top_exact [OF demo_event_num ensure_ok(2) [OF store_inv_new] disjI1 [OF refl]] by blast

text \<open>Price keys are read back to the nearest millionth: a nonnegative price comes back within half a
  millionth, a price on the six-decimal grid comes back exactly, and two grid prices share a key
  only when they are equal.\<close>

theorem price_key_roundtrip:
  "(0 \<le> x \<longrightarrow> isfin (parsePriceKey (priceKey (Fin x))) \<and> \<bar>rval (parsePriceKey (priceKey (Fin x))) - x\<bar> \<le> 1 / 2000000)
   \<and> parsePriceKey (priceKey (Fin (real n / 1000000))) = Fin (real n / 1000000)
   \<and> (priceKey (Fin (real n / 1000000)) = priceKey (Fin (real m / 1000000)) \<longrightarrow> n = m)"
  using micro_near [of x] priceKey_eq [of "real n / 1000000" "real m / 1000000"]
  by (auto simp: parse_priceKey micro_exact)

theorem price_key_roundtrip_witness:
  "parsePriceKey (priceKey (Fin (real 480000 / 1000000))) = Fin (real 480000 / 1000000)"
  using price_key_roundtrip [of 0 480000 480000] by blast

text \<open>\<open>TakeDirty\<close> drains: whatever order Go ranges over the store in, it returns distinct dirty
  books, as many as the cap allows, and what stays dirty is exactly the rest.  So with a cap of n
  the number of dirty books falls by n each time until none is left.\<close>

theorem take_dirty_drains:
  assumes "store_inv s" and "any_order ro" and "TakeDirty ro n s = (out, s')"
  shows "distinct (map bk_TokenID out) \<and> set (map bk_TokenID out) \<subseteq> dirty_tokens s
    \<and> dirty_tokens s' = dirty_tokens s - set (map bk_TokenID out)
    \<and> length out = (if 0 < n then min (nat n) (DirtyCount s) else DirtyCount s)
    \<and> DirtyCount s' = DirtyCount s - length out \<and> store_inv s'"
proof -
  note p = PeekDirty_tokens [OF assms(1,2)]
  let ?D = "map fst (filter (bk_Dirty \<circ> snd) (ro (st_books s)))"
  have ids: "map bk_TokenID out = cap_to n ?D" and s': "s' = MarkFlushed (map bk_TokenID out) s"
    using assms(3) p(1) [of n] by (auto simp: TakeDirty_def Let_def MarkFlushed_def split: if_splits)
  have dist: "distinct (map bk_TokenID out)" using p(2) by (simp add: ids cap_to_def)
  have sub: "set (map bk_TokenID out) \<subseteq> dirty_tokens s"
    unfolding ids p(3) [symmetric] by (auto simp: cap_to_def dest: in_set_takeD)
  have rest: "dirty_tokens s' = dirty_tokens s - set (map bk_TokenID out)"
    unfolding s' by (rule dirty_tokens_mark)
  have "length ?D = DirtyCount s" unfolding DirtyCount_card [OF assms(1)] p(3) [symmetric]
    by (rule distinct_card [OF p(2), symmetric])
  then have len: "length out = (if 0 < n then min (nat n) (DirtyCount s) else DirtyCount s)"
    using arg_cong [OF ids, of length] by (simp add: cap_to_def min.commute)
  have inv: "store_inv s'" unfolding s' by (rule MarkFlushed_inv [OF assms(1)])
  have "finite (dirty_tokens s)" unfolding p(3) [symmetric] by simp
  then have "DirtyCount s' = DirtyCount s - length out"
    using rest sub dist by (simp add: DirtyCount_card assms(1) inv card_Diff_subset distinct_card)
      (metis distinct_card length_map list.set_map)
  with dist sub rest len inv show ?thesis by blast
qed

theorem take_dirty_drains_witness:
  "DirtyCount (snd (TakeDirty id 0 (run_events [(1, demo_event)] NewBookStore))) = 0"
proof -
  have inv: "store_inv (run_events [(1, demo_event)] NewBookStore)"
    by (rule run_events_inv [OF store_inv_new]) (simp add: demo_event_num)
  obtain out s' where t: "TakeDirty id 0 (run_events [(1, demo_event)] NewBookStore) = (out, s')" by fastforce
  have "any_order id" by (simp add: any_order_def)
  from take_dirty_drains [OF inv this t] show ?thesis by (simp add: t)
qed

end
