(* ===== verification/Ws_Flush.thy ===== *)
theory Ws_Flush
  imports Ws_Book
begin

text \<open>
  What the websocket listener makes durable: the features flush of \<open>cmd/ws-listener\<close> (peek the dirty
  books, upsert their rows, mark them flushed) over the book store, and the queue of market
  resolutions of \<open>internal/ws/market/resolve_queue.go\<close>.  The table \<open>features_latest\<close> is the map from a
  token to the quote last written; the flush is a sequence of atomic operations (\<open>flush_op\<close>), which
  a message may come between, as it may between the goroutines.
  Lemmas: without a message between peek and mark the marks of the store are the table; the queue
  keeps the newest resolution of every market.
\<close>

section \<open>The features flush\<close>

record listener =
  ln_store :: book_store
  ln_table :: "(string, f64 \<times> f64) gomap"
  ln_pending :: "book_state list"

datatype flush_op =
    Message gotime parsed_event
  | Remove "string list"
  | Peek int
  | Upserted
  | UpsertFailed

definition quote_of :: "book_state \<Rightarrow> f64 \<times> f64" where
  "quote_of b = (bk_BestBid b, bk_BestAsk b)"

definition upsert_rows :: "book_state list \<Rightarrow> (string, f64 \<times> f64) gomap \<Rightarrow> (string, f64 \<times> f64) gomap" where
  "upsert_rows bs tab = foldl (\<lambda>m b. go_put (bk_TokenID b) (quote_of b) m) tab bs"

fun flush_step :: "book_order \<Rightarrow> listener \<Rightarrow> flush_op \<Rightarrow> listener" where
  "flush_step ro l (Message now ev) = l\<lparr>ln_store := fst (Apply now ev (ln_store l))\<rparr>"
| "flush_step ro l (Remove ids) = l\<lparr>ln_store := RemoveTokens ids (ln_store l)\<rparr>"
| "flush_step ro l (Peek n) = l\<lparr>ln_pending := PeekDirty ro n (ln_store l)\<rparr>"
| "flush_step ro l Upserted =
     l\<lparr>ln_table := upsert_rows (ln_pending l) (ln_table l),
       ln_store := MarkFlushed (map bk_TokenID (ln_pending l)) (ln_store l), ln_pending := []\<rparr>"
| "flush_step ro l UpsertFailed = l\<lparr>ln_pending := []\<rparr>"

definition run_flush :: "book_order \<Rightarrow> flush_op list \<Rightarrow> listener" where
  "run_flush ro ops = foldl (flush_step ro) \<lparr>ln_store = NewBookStore, ln_table = [], ln_pending = []\<rparr> ops"

fun serial_from :: "bool \<Rightarrow> flush_op list \<Rightarrow> bool" where
  \<comment> \<open>no message and no removal between a peek and the end of its flush\<close>
  "serial_from open_peek [] = True"
| "serial_from open_peek (Message now ev # ops) = (\<not> open_peek \<and> serial_from False ops)"
| "serial_from open_peek (Remove ids # ops) = (\<not> open_peek \<and> serial_from False ops)"
| "serial_from open_peek (Peek n # ops) = serial_from True ops"
| "serial_from open_peek (Upserted # ops) = serial_from False ops"
| "serial_from open_peek (UpsertFailed # ops) = serial_from False ops"

fun op_num :: "flush_op \<Rightarrow> bool" where
  "op_num (Message now ev) = event_num ev"
| "op_num _ = True"

section \<open>Lemmas\<close>

lemma upsert_rows_get:
  "go_get (upsert_rows bs tab) t =
     (case find (\<lambda>b. bk_TokenID b = t) (rev bs) of Some b \<Rightarrow> Some (quote_of b) | None \<Rightarrow> go_get tab t)"
proof (induction bs rule: rev_induct)
  case (snoc b bs)
  then show ?case by (simp add: upsert_rows_def gmap.get_put)
qed (simp add: upsert_rows_def)

lemma upsert_rows_mem:
  assumes "b \<in> set bs" and "distinct (map bk_TokenID bs)"
  shows "go_get (upsert_rows bs tab) (bk_TokenID b) = Some (quote_of b)"
proof -
  have "find (\<lambda>c. bk_TokenID c = bk_TokenID b) (rev bs) = Some b"
    using assms by (induction bs rule: rev_induct) (auto simp: image_iff)
  then show ?thesis by (simp add: upsert_rows_get)
qed

lemma upsert_rows_other: "t \<notin> bk_TokenID ` set bs \<Longrightarrow> go_get (upsert_rows bs tab) t = go_get tab t"
  by (induction bs rule: rev_induct) (auto simp: upsert_rows_def gmap.get_put)

definition never_flushed :: "book_state \<Rightarrow> bool" where
  "never_flushed b \<longleftrightarrow> bk_LastFlushMid b = 0 \<and> bk_LastFlushBB b = 0 \<and> bk_LastFlushBA b = 0"

definition mark_agrees :: "listener \<Rightarrow> bool" where
  \<comment> \<open>what the store believes it has flushed is what the table holds\<close>
  "mark_agrees l \<longleftrightarrow>
     (\<forall>t b. go_get (st_books (ln_store l)) t = Some b \<longrightarrow>
        never_flushed b \<or> go_get (ln_table l) t = Some (bk_LastFlushBB b, bk_LastFlushBA b))"

definition pending_current :: "listener \<Rightarrow> bool" where
  "pending_current l \<longleftrightarrow>
     distinct (map bk_TokenID (ln_pending l)) \<and>
     (\<forall>b \<in> set (ln_pending l). go_get (st_books (ln_store l)) (bk_TokenID b) = Some b)"

lemma event_marks:
  "never_flushed (book_event now ev b) = never_flushed b"
  "never_flushed (change_event eps now ev b) = never_flushed b"
  "never_flushed (fst (bba_event eps now ev b)) = never_flushed b"
  "never_flushed (trade_event now ev b) = never_flushed b"
  by (simp_all add: never_flushed_def book_event_def change_event_def bba_event_def trade_event_def Let_def
      stamp_def own_market_def recomputeTop_def change_levels_def set_bba_def)

lemma event_flush_quotes:
  "bk_LastFlushBB (book_event now ev b) = bk_LastFlushBB b \<and> bk_LastFlushBA (book_event now ev b) = bk_LastFlushBA b"
  "bk_LastFlushBB (change_event eps now ev b) = bk_LastFlushBB b \<and> bk_LastFlushBA (change_event eps now ev b) = bk_LastFlushBA b"
  "bk_LastFlushBB (fst (bba_event eps now ev b)) = bk_LastFlushBB b \<and> bk_LastFlushBA (fst (bba_event eps now ev b)) = bk_LastFlushBA b"
  "bk_LastFlushBB (trade_event now ev b) = bk_LastFlushBB b \<and> bk_LastFlushBA (trade_event now ev b) = bk_LastFlushBA b"
  by (simp_all add: book_event_def change_event_def bba_event_def trade_event_def Let_def
      stamp_def own_market_def recomputeTop_def change_levels_def set_bba_def)

lemma never_flushed_new: "go_get (st_books s) t = None \<Longrightarrow> never_flushed (ensureLocked s t)"
  by (simp add: never_flushed_def ensureLocked_def)

lemma Apply_get:
  "go_get (st_books (fst (Apply now ev s))) t = Some b \<Longrightarrow>
   go_get (st_books s) t = Some b \<or>
   (never_flushed b \<longleftrightarrow> never_flushed (ensureLocked s t)) \<and>
   bk_LastFlushBB b = bk_LastFlushBB (ensureLocked s t) \<and> bk_LastFlushBA b = bk_LastFlushBA (ensureLocked s t)"
  unfolding Apply_def applyBook_def applyPriceChange_def applyBBA_def applyTrade_def Let_def put_book_def
  using event_marks event_flush_quotes
  by (simp add: gmap.get_put split: if_splits prod.splits) (metis fst_conv)+

lemma mark_agrees_message:
  assumes "mark_agrees l" shows "mark_agrees (flush_step ro l (Message now ev))"
  unfolding mark_agrees_def
proof (intro allI impI)
  fix t b
  assume "go_get (st_books (ln_store (flush_step ro l (Message now ev)))) t = Some b"
  from Apply_get [OF this [simplified]]
  show "never_flushed b \<or> go_get (ln_table (flush_step ro l (Message now ev))) t
      = Some (bk_LastFlushBB b, bk_LastFlushBA b)"
    using assms [unfolded mark_agrees_def, rule_format, of t] never_flushed_new [of "ln_store l" t]
    by (cases "go_get (st_books (ln_store l)) t") (auto simp: ensureLocked_def)
qed

lemma RemoveTokens_get: "go_get (st_books (RemoveTokens ids s)) t = Some b \<Longrightarrow> go_get (st_books s) t = Some b"
proof -
  have "go_get (foldl (\<lambda>m t. go_del t m) m ids) t = Some b \<Longrightarrow> go_get m t = Some b" for m :: "(string, book_state) gomap"
    by (induction ids arbitrary: m) (fastforce simp: gmap.get_del split: if_splits)+
  then show "go_get (st_books (RemoveTokens ids s)) t = Some b \<Longrightarrow> go_get (st_books s) t = Some b"
    by (simp add: RemoveTokens_def)
qed

lemma mark_agrees_remove:
  assumes "mark_agrees l" shows "mark_agrees (flush_step ro l (Remove ids))"
  unfolding mark_agrees_def
proof (intro allI impI)
  fix t b
  assume "go_get (st_books (ln_store (flush_step ro l (Remove ids)))) t = Some b"
  then have "go_get (st_books (RemoveTokens ids (ln_store l))) t = Some b" by simp
  from RemoveTokens_get [OF this] show "never_flushed b \<or> go_get (ln_table (flush_step ro l (Remove ids))) t
      = Some (bk_LastFlushBB b, bk_LastFlushBA b)"
    using assms [unfolded mark_agrees_def, rule_format, of t] by simp
qed

lemma mark_agrees_upserted:
  assumes "mark_agrees l" and "pending_current l"
  shows "mark_agrees (flush_step ro l Upserted)"
  unfolding mark_agrees_def
proof (intro allI impI)
  fix t b
  let ?ids = "map bk_TokenID (ln_pending l)"
  assume g: "go_get (st_books (ln_store (flush_step ro l Upserted))) t = Some b"
  show "never_flushed b \<or> go_get (ln_table (flush_step ro l Upserted)) t
      = Some (bk_LastFlushBB b, bk_LastFlushBA b)"
  proof (cases "t \<in> set ?ids")
    case True
    then obtain c where c: "c \<in> set (ln_pending l)" "t = bk_TokenID c" by auto
    have "b = mark_book c"
      using assms(2) g True c by (auto simp: pending_current_def MarkFlushed_get)
    moreover have "distinct (map bk_TokenID (ln_pending l))" using assms(2) by (simp add: pending_current_def)
    ultimately show ?thesis using upsert_rows_mem [OF c(1)] c(2) by (simp add: mark_book_def quote_of_def)
  next
    case False
    then have "go_get (st_books (ln_store l)) t = Some b" using g by (simp add: MarkFlushed_get)
    moreover have "go_get (upsert_rows (ln_pending l) (ln_table l)) t = go_get (ln_table l) t"
      using False by (intro upsert_rows_other) simp
    ultimately show ?thesis using assms(1) by (simp add: mark_agrees_def)
  qed
qed

lemma peek_current: "store_inv (ln_store l) \<Longrightarrow> any_order ro \<Longrightarrow> pending_current (flush_step ro l (Peek n))"
proof -
  assume a: "store_inv (ln_store l)" "any_order ro"
  note p = PeekDirty_tokens [OF a]
  have "distinct (map bk_TokenID (PeekDirty ro n (ln_store l)))"
    using p(2) unfolding p(1) by (simp add: cap_to_def)
  moreover have "go_get (st_books (ln_store l)) (bk_TokenID b) = Some b"
    if b: "b \<in> set (PeekDirty ro n (ln_store l))" for b
  proof -
    obtain t where t: "(t, b) \<in> set (st_books (ln_store l))" using PeekDirty_mem [OF a(2) b] by auto
    then have "go_get (st_books (ln_store l)) t = Some b" using a(1) by (simp add: store_inv_def)
    then show ?thesis using store_inv_get [OF a(1)] by blast
  qed
  ultimately show ?thesis by (simp add: pending_current_def)
qed

lemma flush_step_store: "op_num x \<Longrightarrow> store_inv (ln_store l) \<Longrightarrow> store_inv (ln_store (flush_step ro l x))"
  by (cases x) (simp_all add: Apply_inv RemoveTokens_inv MarkFlushed_inv)

lemma serial_run:
  assumes "any_order ro" and "\<forall>x \<in> set ops. op_num x" and "serial_from opn ops"
    and "store_inv (ln_store l)" and "mark_agrees l" and "pending_current l" and "\<not> opn \<Longrightarrow> ln_pending l = []"
  shows "mark_agrees (foldl (flush_step ro) l ops) \<and> pending_current (foldl (flush_step ro) l ops)
    \<and> store_inv (ln_store (foldl (flush_step ro) l ops))"
  using assms(2-)
proof (induction opn ops arbitrary: l rule: serial_from.induct)
  case (2 opn now ev ops)
  let ?l = "flush_step ro l (Message now ev)"
  have p: "ln_pending ?l = []" using 2 by simp
  have "mark_agrees ?l" by (rule mark_agrees_message) (use 2 in simp)
  moreover have "store_inv (ln_store ?l)" using 2 by (intro flush_step_store) simp_all
  moreover have "pending_current ?l" unfolding pending_current_def p by simp
  ultimately have "mark_agrees (foldl (flush_step ro) ?l ops) \<and> pending_current (foldl (flush_step ro) ?l ops)
      \<and> store_inv (ln_store (foldl (flush_step ro) ?l ops))"
    using 2 p by (intro "2.IH") simp_all
  then show ?case by (simp only: foldl_Cons)
next
  case (3 opn ids ops)
  let ?l = "flush_step ro l (Remove ids)"
  have p: "ln_pending ?l = []" using 3 by simp
  have "mark_agrees ?l" by (rule mark_agrees_remove) (use 3 in simp)
  moreover have "store_inv (ln_store ?l)" using 3 by (intro flush_step_store) simp_all
  moreover have "pending_current ?l" unfolding pending_current_def p by simp
  ultimately have "mark_agrees (foldl (flush_step ro) ?l ops) \<and> pending_current (foldl (flush_step ro) ?l ops)
      \<and> store_inv (ln_store (foldl (flush_step ro) ?l ops))"
    using 3 p by (intro "3.IH") simp_all
  then show ?case by (simp only: foldl_Cons)
next
  case (4 opn n ops)
  then show ?case using peek_current [of l ro n] assms(1) by (simp add: mark_agrees_def)
next
  case (5 opn ops)
  then show ?case using mark_agrees_upserted [of l ro] by (simp add: MarkFlushed_inv pending_current_def)
next
  case (6 opn ops)
  then show ?case by (simp add: mark_agrees_def pending_current_def)
qed simp

section \<open>The resolution queue\<close>

record market_resolution =
  mr_GammaID :: string
  mr_ConditionID :: string
  mr_WinningAssetID :: string
  mr_WinningOutcome :: string
  mr_ResolvedAt :: gotime
  mr_AssetIDs :: "string list"

type_synonym resolve_queue = "(string, market_resolution) gomap"

definition NewResolveQueue :: resolve_queue where "NewResolveQueue = []"

definition mergeResolution :: "market_resolution \<Rightarrow> market_resolution \<Rightarrow> market_resolution" where
  "mergeResolution a b =
     b\<lparr>mr_WinningOutcome := (if mr_WinningOutcome b = '''' then mr_WinningOutcome a else mr_WinningOutcome b),
       mr_WinningAssetID := (if mr_WinningAssetID b = '''' then mr_WinningAssetID a else mr_WinningAssetID b),
       mr_GammaID := (if mr_GammaID b = '''' then mr_GammaID a else mr_GammaID b),
       mr_ConditionID := (if mr_ConditionID b = '''' then mr_ConditionID a else mr_ConditionID b),
       mr_AssetIDs := (if mr_AssetIDs b = [] then mr_AssetIDs a else mr_AssetIDs b)\<rparr>"

definition resolution_key :: "market_resolution \<Rightarrow> string" where
  "resolution_key r = (if mr_ConditionID r = '''' then mr_GammaID r else mr_ConditionID r)"

definition Enqueue :: "gotime \<Rightarrow> market_resolution \<Rightarrow> resolve_queue \<Rightarrow> resolve_queue" where
  "Enqueue now r q =
     (let key = resolution_key r in
      if key = '''' then q
      else
        let r = (if IsZero (mr_ResolvedAt r) then r\<lparr>mr_ResolvedAt := now\<rparr> else r) in
        (case go_get q key of
           None \<Rightarrow> go_put key r q
         | Some prev \<Rightarrow>
             if mr_ResolvedAt r < mr_ResolvedAt prev then q
             else if mr_ResolvedAt r = mr_ResolvedAt prev then go_put key (mergeResolution prev r) q
             else go_put key r q))"

definition TakeAll :: "resolve_queue \<Rightarrow> market_resolution list \<times> resolve_queue" where
  "TakeAll q = (map snd q, [])"

definition queue_Len :: "resolve_queue \<Rightarrow> nat" where "queue_Len q = length q"

definition enqueue_all :: "gotime \<Rightarrow> market_resolution list \<Rightarrow> resolve_queue \<Rightarrow> resolve_queue" where
  \<comment> \<open>the requeue loop after a failed batch, and a run of websocket resolutions\<close>
  "enqueue_all now rs q = foldl (\<lambda>q r. Enqueue now r q) q rs"

lemma merge_sel [simp]: "mr_ResolvedAt (mergeResolution a b) = mr_ResolvedAt b"
  by (simp add: mergeResolution_def)

lemma merge_key [simp]:
  "resolution_key a = resolution_key b \<Longrightarrow> mr_ConditionID a = '''' \<or> mr_ConditionID b \<noteq> '''' \<Longrightarrow>
   resolution_key (mergeResolution a b) = resolution_key b"
  by (auto simp: resolution_key_def mergeResolution_def split: if_splits)

definition queue_time :: "resolve_queue \<Rightarrow> string \<Rightarrow> gotime option" where
  "queue_time q k = map_option mr_ResolvedAt (go_get q k)"

lemma Enqueue_time:
  assumes "mr_ResolvedAt r \<noteq> 0"
  shows "queue_time (Enqueue now r q) k =
    (if k = resolution_key r \<and> k \<noteq> ''''
     then Some (case queue_time q k of None \<Rightarrow> mr_ResolvedAt r | Some t \<Rightarrow> max t (mr_ResolvedAt r))
     else queue_time q k)"
  using assms
  by (auto simp: queue_time_def Enqueue_def Let_def IsZero_def gmap.get_put max_def split: option.split)

lemma Enqueue_wf: "go_wf q \<Longrightarrow> go_wf (Enqueue now r q)"
  by (auto simp: Enqueue_def Let_def gmap.wf_put split: option.split)

lemma enqueue_all_time:
  assumes "\<forall>r \<in> set rs. mr_ResolvedAt r \<noteq> 0" and "k \<noteq> ''''"
  shows "queue_time (enqueue_all now rs q) k =
    foldl (\<lambda>t r. if resolution_key r = k
       then Some (case t of None \<Rightarrow> mr_ResolvedAt r | Some u \<Rightarrow> max u (mr_ResolvedAt r)) else t)
     (queue_time q k) rs"
  using assms(1)
proof (induction rs arbitrary: q)
  case (Cons r rs)
  then show ?case using assms(2) by (simp add: enqueue_all_def Enqueue_time eq_commute [of k])
qed (simp add: enqueue_all_def)

lemma newest_fold:
  "foldl (\<lambda>t r. if P r then Some (case t of None \<Rightarrow> f r | Some u \<Rightarrow> max u (f r)) else t) t0 rs =
   (let S = set_option t0 \<union> f ` {r \<in> set rs. P r} in if S = {} then None else Some (Max S))"
  for f :: "'a \<Rightarrow> int"
proof (induction rs rule: rev_induct)
  case Nil
  show ?case by (cases t0) (simp_all add: Let_def)
next
  case (snoc r rs)
  let ?S = "set_option t0 \<union> f ` {r \<in> set rs. P r}"
  let ?h = "\<lambda>t r. if P r then Some (case t of None \<Rightarrow> f r | Some u \<Rightarrow> max u (f r)) else t"
  have fin: "finite ?S" by (cases t0) simp_all
  have ins: "set_option t0 \<union> f ` {x \<in> set (rs @ [r]). P x} = (if P r then insert (f r) ?S else ?S)" by auto
  show ?case
  proof (cases "?S = {}")
    case True
    then have e: "{r \<in> set rs. P r} = {}" "t0 = None" by auto
    with snoc show ?thesis unfolding ins by (simp add: Let_def e)
  next
    case False
    have F: "foldl ?h t0 rs = Some (Max ?S)" using snoc False by (simp only: Let_def if_False)
    show ?thesis
    proof (cases "P r")
      case True
      have "foldl ?h t0 (rs @ [r]) = Some (max (Max ?S) (f r))" using True unfolding foldl_append F by simp
      also have "max (Max ?S) (f r) = Max (insert (f r) ?S)" by (simp only: Max_insert [OF fin False] max.commute)
      finally show ?thesis unfolding ins using True by (simp only: Let_def insert_not_empty if_True if_False)
    next
      case False
      have "foldl ?h t0 (rs @ [r]) = Some (Max ?S)" using False unfolding foldl_append F by simp
      then show ?thesis unfolding ins using False \<open>?S \<noteq> {}\<close> by (simp only: Let_def if_False)
    qed
  qed
qed

section \<open>Properties\<close>

definition bba_demo :: "f64 \<Rightarrow> parsed_event" where
  "bba_demo bid = demo_event\<lparr>pe_Type := EventBestBidAsk, pe_Bids := [], pe_Asks := [], pe_BestBid := bid,
     pe_BestAsk := Fin (52 / 100)\<rparr>"

lemma bba_demo_num: "isfin bid \<Longrightarrow> event_num (bba_demo bid)"
  by (simp add: bba_demo_def event_num_def demo_event_def)

text \<open>A flush that no message comes between is faithful: in every history of messages, removals, peeks
  and flushes in which nothing arrives between a peek and the end of its flush, the quote a book
  remembers as flushed is the quote in its table row, and completing a flush writes the current
  quote of every peeked book and leaves that book clean.\<close>

theorem serial_flush_faithful:
  assumes "any_order ro" and "\<forall>x \<in> set ops. op_num x" and "serial_from False ops"
  defines "l \<equiv> run_flush ro ops"
  shows "(\<forall>t b. Snapshot t (ln_store l) = Some b \<longrightarrow>
       never_flushed b \<or> go_get (ln_table l) t = Some (bk_LastFlushBB b, bk_LastFlushBA b))
    \<and> (\<forall>b \<in> set (ln_pending l). \<exists>b'. Snapshot (bk_TokenID b) (ln_store (flush_step ro l Upserted)) = Some b'
         \<and> \<not> bk_Dirty b' \<and> quote_of b' = quote_of b
         \<and> go_get (ln_table (flush_step ro l Upserted)) (bk_TokenID b) = Some (quote_of b'))"
proof -
  let ?l0 = "\<lparr>ln_store = NewBookStore, ln_table = [], ln_pending = []\<rparr>"
  have "mark_agrees ?l0" "pending_current ?l0"
    by (simp_all add: mark_agrees_def pending_current_def NewBookStore_def)
  then have l: "mark_agrees l" "pending_current l"
    using serial_run [OF assms(1-3), of ?l0] by (simp_all add: store_inv_new l_def run_flush_def)
  have "Snapshot (bk_TokenID b) (ln_store (flush_step ro l Upserted)) = Some (mark_book b)"
      "go_get (ln_table (flush_step ro l Upserted)) (bk_TokenID b) = Some (quote_of b)"
    if b: "b \<in> set (ln_pending l)" for b
    using l(2) b upsert_rows_mem [OF b] by (simp_all add: pending_current_def Snapshot_def MarkFlushed_get)
  moreover have "\<not> bk_Dirty (mark_book b)" "quote_of (mark_book b) = quote_of b" for b
    by (simp_all add: mark_book_def quote_of_def)
  ultimately show ?thesis using l(1) unfolding mark_agrees_def Snapshot_def by metis
qed

theorem serial_flush_faithful_witness:
  "\<exists>b. b \<in> set (ln_pending (run_flush id [Message 1 demo_event, Peek 100])) \<and>
     go_get (ln_table (flush_step id (run_flush id [Message 1 demo_event, Peek 100]) Upserted)) (bk_TokenID b)
       = Some (quote_of b)"
proof -
  have "any_order id" "\<forall>x \<in> set [Message 1 demo_event, Peek 100]. op_num x"
    "serial_from False [Message 1 demo_event, Peek 100]"
    by (simp_all add: any_order_def demo_event_num)
  note s = serial_flush_faithful [OF this]
  have "ln_pending (run_flush id [Message 1 demo_event, Peek 100]) \<noteq> []"
    by (simp add: run_flush_def Apply_def applyBook_def demo_event_def NewBookStore_def put_book_def
      PeekDirty_def cap_to_def book_event_def)
  then obtain b where "b \<in> set (ln_pending (run_flush id [Message 1 demo_event, Peek 100]))"
    by (metis list.set_sel(1))
  with s show ?thesis by metis
qed

text \<open>A message between the peek and the mark of a flush is lost: after a quote of 0.48, a peek, a quote
  of 0.45 and the completed flush, no book is dirty, the store holds the new bid, believes it has
  flushed it, and the table holds the old one.\<close>

theorem interleaved_flush_loses_update:
  "let l = run_flush id [Message 1 (bba_demo (Fin (48 / 100))), Peek 100,
                         Message 2 (bba_demo (Fin (45 / 100))), Upserted]
   in DirtyCount (ln_store l) = 0 \<and>
      go_get (ln_table l) ''t'' = Some (Fin (48 / 100), Fin (52 / 100)) \<and>
      map_option quote_of (Snapshot ''t'' (ln_store l)) = Some (Fin (45 / 100), Fin (52 / 100)) \<and>
      map_option bk_LastFlushBB (Snapshot ''t'' (ln_store l)) = Some (Fin (45 / 100))"
  by (simp add: run_flush_def bba_demo_def demo_event_def Apply_def applyBBA_def event_types bba_event_def
      ensureLocked_def NewBookStore_def own_market_def set_bba_def stamp_def IsZero_def Mid_def f64_eval
      put_book_def PeekDirty_def cap_to_def upsert_rows_def quote_of_def MarkFlushed_def mark_one_def
      mark_book_def DirtyCount_def Snapshot_def)

text \<open>The queue keeps the newest resolution of every market: whatever sequence of resolutions with
  set times is enqueued, failed batches put back included, the pending resolution of a market has
  the latest time enqueued for it, so a stale requeue never overwrites a fresher one, and each
  market is pending at most once.\<close>

theorem resolve_queue_newest:
  assumes "\<forall>r \<in> set rs. mr_ResolvedAt r \<noteq> 0" and "k \<noteq> ''''"
  shows "(case go_get (enqueue_all now rs NewResolveQueue) k of
       None \<Rightarrow> \<forall>r \<in> set rs. resolution_key r \<noteq> k
     | Some p \<Rightarrow> (\<exists>r \<in> set rs. resolution_key r = k \<and> mr_ResolvedAt r = mr_ResolvedAt p) \<and>
         (\<forall>r \<in> set rs. resolution_key r = k \<longrightarrow> mr_ResolvedAt r \<le> mr_ResolvedAt p))
    \<and> go_wf (enqueue_all now rs NewResolveQueue)"
proof -
  let ?S = "mr_ResolvedAt ` {r \<in> set rs. resolution_key r = k}"
  have q: "queue_time (enqueue_all now rs NewResolveQueue) k = (if ?S = {} then None else Some (Max ?S))"
    unfolding enqueue_all_time [OF assms] newest_fold
    by (simp add: queue_time_def NewResolveQueue_def Let_def)
  have max_in: "Max ?S \<in> ?S" if "?S \<noteq> {}" using that by (intro Max_in) simp_all
  have max_ge: "t \<le> Max ?S" if "t \<in> ?S" for t using that by (intro Max_ge) simp_all
  have "go_wf q \<Longrightarrow> go_wf (enqueue_all now rs q)" for q
    unfolding enqueue_all_def by (induction rs arbitrary: q) (simp_all add: Enqueue_wf)
  then have "go_wf (enqueue_all now rs NewResolveQueue)" by (simp add: NewResolveQueue_def)
  then show ?thesis
  proof (cases "go_get (enqueue_all now rs NewResolveQueue) k")
    case None
    with q have "?S = {}" by (simp add: queue_time_def split: if_splits)
    then show ?thesis using None \<open>go_wf (enqueue_all now rs NewResolveQueue)\<close> by auto
  next
    case (Some p)
    with q have p: "?S \<noteq> {}" "mr_ResolvedAt p = Max ?S" by (auto simp: queue_time_def split: if_splits)
    have "mr_ResolvedAt p \<in> ?S" using max_in [OF p(1)] p(2) by simp
    then have "\<exists>r \<in> set rs. resolution_key r = k \<and> mr_ResolvedAt r = mr_ResolvedAt p" by auto
    moreover have "\<forall>r \<in> set rs. resolution_key r = k \<longrightarrow> mr_ResolvedAt r \<le> mr_ResolvedAt p"
      using max_ge p(2) by auto
    ultimately show ?thesis using Some \<open>go_wf (enqueue_all now rs NewResolveQueue)\<close> by simp
  qed
qed

definition demo_resolution :: "gotime \<Rightarrow> string \<Rightarrow> market_resolution" where
  "demo_resolution t w = \<lparr>mr_GammaID = ''7'', mr_ConditionID = ''0xa'', mr_WinningAssetID = '''',
     mr_WinningOutcome = w, mr_ResolvedAt = t, mr_AssetIDs = []\<rparr>"

theorem resolve_queue_newest_witness:
  "\<exists>p. go_get (enqueue_all 1 [demo_resolution 9 ''Yes'', demo_resolution 5 ''No''] NewResolveQueue) ''0xa'' = Some p
     \<and> mr_ResolvedAt p = 9"
proof -
  let ?rs = "[demo_resolution 9 ''Yes'', demo_resolution 5 ''No'']"
  have h: "\<forall>r \<in> set ?rs. mr_ResolvedAt r \<noteq> 0" "''0xa'' \<noteq> ''''" by (simp_all add: demo_resolution_def)
  have k: "resolution_key (demo_resolution t w) = ''0xa''" "mr_ResolvedAt (demo_resolution t w) = t" for t w
    by (simp_all add: resolution_key_def demo_resolution_def)
  from resolve_queue_newest [OF h, of 1] show ?thesis
    by (auto simp: k split: option.splits)
qed

end
