(* ===== verification/Simulation.thy ===== *)
theory Simulation
  imports Main
begin

text \<open>
  What the stateful components share: a machine is a step function on states and operations with an
  invariant that every admissible operation keeps (\<open>machine\<close>), and a simulation is a machine whose
  states a function maps to those of a simpler machine step by step (\<open>simulation\<close>).  The components
  interpret these on their own steps; what holds of one step holds of every run.
\<close>

locale machine =
  fixes step :: "'s \<Rightarrow> 'e \<Rightarrow> 's"
    and inv :: "'s \<Rightarrow> bool"
    and ok :: "'e \<Rightarrow> bool"
  assumes keep: "inv s \<Longrightarrow> ok e \<Longrightarrow> inv (step s e)"
begin

lemma run_inv: "inv s \<Longrightarrow> \<forall>e \<in> set es. ok e \<Longrightarrow> inv (foldl step s es)"
  by (induction es arbitrary: s) (simp_all add: keep)

lemma run_prefix_inv: "inv s \<Longrightarrow> \<forall>e \<in> set es. ok e \<Longrightarrow> inv (foldl step s (take n es))"
  by (rule run_inv) (auto dest: in_set_takeD)

text \<open>A quantity no step decreases is never decreased by a run.\<close>

lemma run_mono:
  fixes f :: "'s \<Rightarrow> 'n :: preorder"
  assumes "\<And>s e. inv s \<Longrightarrow> ok e \<Longrightarrow> f s \<le> f (step s e)"
  shows "inv s \<Longrightarrow> \<forall>e \<in> set es. ok e \<Longrightarrow> f s \<le> f (foldl step s es)"
proof (induction es arbitrary: s)
  case (Cons e es)
  then have "f (step s e) \<le> f (foldl step (step s e) es)" by (intro Cons.IH) (simp_all add: keep)
  moreover have "f s \<le> f (step s e)" using Cons.prems assms by simp
  ultimately show ?case by (simp add: order_trans [of "f s"])
qed simp

end

locale simulation = machine +
  fixes abs :: "'s \<Rightarrow> 'a"
    and astep :: "'a \<Rightarrow> 'e \<Rightarrow> 'a"
  assumes commute: "inv s \<Longrightarrow> ok e \<Longrightarrow> abs (step s e) = astep (abs s) e"
begin

lemma run_abs: "inv s \<Longrightarrow> \<forall>e \<in> set es. ok e \<Longrightarrow> abs (foldl step s es) = foldl astep (abs s) es"
  by (induction es arbitrary: s) (simp_all add: keep commute)

end

end
