(* ===== verification/Ws_Client.thy ===== *)
theory Ws_Client
  imports Ws_Flush Simulation
begin

text \<open>
  The client side of the market websocket: \<open>internal/ws/market/parse.go\<close> (a decoded message becomes
  events), \<open>subscribe.go\<close> (the difference of two subscription lists) and the subscription state of
  \<open>client.go\<close>.  JSON decoding is a parameter (\<open>codec\<close>), and so is \<open>time.Parse\<close>; the server's view
  of the subscription is a set that every delivered message updates, the session is the sequence of
  operations \<open>client_op\<close>, and whether a write succeeds is the argument \<open>wr\<close>.
  Lemmas: the difference turns one list into the other and touches nothing else; while connected the
  client's list, the wanted list and the server's set agree.
\<close>

section \<open>Subscription differences\<close>

record sub_diff =
  sd_Subscribe :: "string list"
  sd_Unsubscribe :: "string list"

definition DiffSubscriptions :: "string list \<Rightarrow> string list \<Rightarrow> sub_diff" where
  "DiffSubscriptions current desired =
     \<lparr>sd_Subscribe = filter (\<lambda>id. id \<noteq> '''' \<and> id \<notin> set (filter (\<lambda>c. c \<noteq> '''') current)) desired,
      sd_Unsubscribe = filter (\<lambda>id. id \<noteq> '''' \<and> id \<notin> set (filter (\<lambda>d. d \<noteq> '''') desired)) current\<rparr>"

definition CapAssets :: "string list \<Rightarrow> int \<Rightarrow> string list" where
  "CapAssets ids mx = (if mx \<le> 0 \<or> int (length ids) \<le> mx then ids else take (nat mx) ids)"

section \<open>The client\<close>

datatype sub_msg =
    InitSub "string list"    \<comment> \<open>type = market\<close>
  | OpSubscribe "string list"
  | OpUnsubscribe "string list"

record client =
  cl_conn :: bool
  cl_subscribed :: "string list"
  cl_desired :: "string list"

definition write_ids :: "(sub_msg \<Rightarrow> bool) \<Rightarrow> (string list \<Rightarrow> sub_msg) \<Rightarrow> string list \<Rightarrow> sub_msg list \<times> bool" where
  \<comment> \<open>the messages delivered, and whether there was no error\<close>
  "write_ids wr mk ids = (if ids = [] then ([], True) else if wr (mk ids) then ([mk ids], True) else ([], False))"

definition applyDiff :: "(sub_msg \<Rightarrow> bool) \<Rightarrow> sub_diff \<Rightarrow> sub_msg list \<times> bool" where
  "applyDiff wr diff =
     (let (ms, ok) = write_ids wr OpUnsubscribe (sd_Unsubscribe diff) in
      if \<not> ok then (ms, False)
      else let (ms', ok') = write_ids wr OpSubscribe (sd_Subscribe diff) in (ms @ ms', ok'))"

definition SetDesired :: "(sub_msg \<Rightarrow> bool) \<Rightarrow> string list \<Rightarrow> client \<Rightarrow> client \<times> sub_msg list \<times> bool" where
  "SetDesired wr assets c =
     (let c = c\<lparr>cl_desired := assets\<rparr> in
      if \<not> cl_conn c then (c, [], True)
      else
        let (ms, ok) = applyDiff wr (DiffSubscriptions (cl_subscribed c) assets) in
        if \<not> ok then (c, ms, False) else (c\<lparr>cl_subscribed := assets\<rparr>, ms, True))"

definition RemoveAssets :: "(sub_msg \<Rightarrow> bool) \<Rightarrow> string list \<Rightarrow> client \<Rightarrow> client \<times> sub_msg list \<times> bool" where
  "RemoveAssets wr assets c =
     (if assets = [] then (c, [], True)
      else
        let drop = set (filter (\<lambda>a. a \<noteq> '''') assets);
            nxt = filter (\<lambda>a. a \<notin> drop) (cl_desired c);
            c = c\<lparr>cl_desired := nxt\<rparr>
        in if \<not> cl_conn c
           then (c\<lparr>cl_subscribed := filter (\<lambda>a. a \<notin> drop) (cl_subscribed c)\<rparr>, [], True)
           else SetDesired wr nxt c)"

definition session_start :: "(sub_msg \<Rightarrow> bool) \<Rightarrow> client \<Rightarrow> client \<times> sub_msg list \<times> bool" where
  \<comment> \<open>\<open>session\<close> up to its read loop\<close>
  "session_start wr c =
     (let c = c\<lparr>cl_conn := True\<rparr> in
      if cl_desired c = [] then (c, [], True)
      else
        let (ms, ok) = write_ids wr InitSub (cl_desired c) in
        if ok then (c\<lparr>cl_subscribed := cl_desired c\<rparr>, ms, True) else (c, ms, False))"

definition session_end :: "client \<Rightarrow> client" where
  "session_end c = c\<lparr>cl_conn := False, cl_subscribed := []\<rparr>"

definition next_backoff :: "duration \<Rightarrow> duration \<Rightarrow> duration" where
  \<comment> \<open>\<open>backoff *= 2\<close>, capped\<close>
  "next_backoff maxBO b = (if wrap64 (b * 2) > maxBO then maxBO else wrap64 (b * 2))"

definition reconnect_wait :: "duration \<Rightarrow> duration \<Rightarrow> nat \<Rightarrow> duration" where
  \<comment> \<open>what \<open>Run\<close> waits after session \<open>n\<close>, however long the sessions were\<close>
  "reconnect_wait rmin rmax n =
     (let b = (if rmin \<le> 0 then second else rmin); mx = (if rmax \<le> 0 then 30 * second else rmax)
      in (next_backoff mx ^^ n) b)"

section \<open>The server's view\<close>

definition serve :: "string set \<Rightarrow> sub_msg \<Rightarrow> string set" where
  "serve S m =
     (case m of InitSub ids \<Rightarrow> set ids | OpSubscribe ids \<Rightarrow> S \<union> set ids | OpUnsubscribe ids \<Rightarrow> S - set ids)"

datatype client_op = DoSetDesired "string list" | DoRemove "string list" | Connect | Disconnect

record session =
  ss_client :: client
  ss_server :: "string set"

definition finish :: "string set \<Rightarrow> client \<times> sub_msg list \<times> bool \<Rightarrow> session" where
  \<comment> \<open>a failed write ends the session, and a new connection starts without subscriptions\<close>
  "finish S r =
     (case r of (c, ms, ok) \<Rightarrow>
        if ok then \<lparr>ss_client = c, ss_server = foldl serve S ms\<rparr>
        else \<lparr>ss_client = session_end c, ss_server = {}\<rparr>)"

fun client_step :: "(sub_msg \<Rightarrow> bool) \<Rightarrow> session \<Rightarrow> client_op \<Rightarrow> session" where
  "client_step wr s (DoSetDesired ids) = finish (ss_server s) (SetDesired wr ids (ss_client s))"
| "client_step wr s (DoRemove ids) = finish (ss_server s) (RemoveAssets wr ids (ss_client s))"
| "client_step wr s Connect =
     (if cl_conn (ss_client s) then s else finish {} (session_start wr (ss_client s)))"
| "client_step wr s Disconnect = \<lparr>ss_client = session_end (ss_client s), ss_server = {}\<rparr>"

section \<open>Messages\<close>

record envelope_level =
  el_Price :: string
  el_Size :: string

record envelope_leg =
  eg_AssetID :: string
  eg_Price :: string
  eg_Size :: string
  eg_Side :: string
  eg_BestBid :: string
  eg_BestAsk :: string

record envelope =
  en_EventType :: string
  en_AssetID :: string
  en_Market :: string
  en_Timestamp :: string
  en_Bids :: "envelope_level list"
  en_Asks :: "envelope_level list"
  en_PriceChanges :: "envelope_leg list"
  en_BestBid :: string
  en_BestAsk :: string
  en_Price :: string
  en_Size :: string
  en_Side :: string
  en_ID :: string
  en_WinningAssetID :: string
  en_WinningOutcome :: string
  en_AssetsIDs :: "string list"
  en_ClobTokenIDs :: "string list"

record codec =
  cd_Valid :: "string \<Rightarrow> bool"
  cd_Array :: "string \<Rightarrow> string list option"
  cd_Envelope :: "string \<Rightarrow> envelope option"
  cd_RFC3339 :: "string \<Rightarrow> gotime option"

definition upper_char :: "char \<Rightarrow> char" where
  "upper_char c = (let n = of_char c :: nat in if 97 \<le> n \<and> n \<le> 122 then char_of (n - 32) else c)"

definition ToUpper :: "string \<Rightarrow> string" where "ToUpper s = map upper_char s"

definition parseF :: "string \<Rightarrow> f64" where
  "parseF s =
     (let s = TrimSpace s in
      if s = '''' then 0 else case ParseFloat s of None \<Rightarrow> 0 | Some f \<Rightarrow> f)"

definition ParseInt :: "string \<Rightarrow> int option" where
  \<comment> \<open>\<open>strconv.ParseInt(s, 10, 64)\<close>\<close>
  "ParseInt s =
     (let (sg, u) = split_sign s; n = (if sg < 0 then - int (digits_val u) else int (digits_val u)) in
      if u = [] \<or> \<not> list_all is_digit u then None
      else if n < - (2 ^ 63) \<or> n \<ge> 2 ^ 63 then None else Some n)"

definition of_Unix :: "int \<Rightarrow> gotime" where
  \<comment> \<open>\<open>time.Unix(n, 0)\<close>: 62135596800 seconds lie between the zero time and the Unix epoch\<close>
  "of_Unix n = (n + 62135596800) * 1000000000"

definition of_UnixMilli :: "int \<Rightarrow> gotime" where
  "of_UnixMilli n = n * 1000000 + 62135596800 * 1000000000"

definition parseTS :: "codec \<Rightarrow> gotime \<Rightarrow> string \<Rightarrow> gotime" where
  "parseTS cd now s =
     (let s = TrimSpace s in
      if s = '''' then now
      else case ParseInt s of
             Some n \<Rightarrow> (if n > 10 ^ 12 then of_UnixMilli n else of_Unix n)
           | None \<Rightarrow> (case cd_RFC3339 cd s of Some t \<Rightarrow> t | None \<Rightarrow> now))"

definition zero_event :: parsed_event where
  "zero_event = \<lparr>pe_Type = '''', pe_AssetID = '''', pe_MarketID = '''', pe_Timestamp = 0, pe_Bids = [],
     pe_Asks = [], pe_Price = 0, pe_Size = 0, pe_Side = '''', pe_BestBid = 0, pe_BestAsk = 0,
     pe_LastTradePrice = 0, pe_PriceChanges = [], pe_MarketGammaID = '''', pe_WinningAssetID = '''',
     pe_WinningOutcome = '''', pe_ResolvedAssetIDs = [], pe_Raw = ''''\<rparr>"

definition to_leg :: "envelope_leg \<Rightarrow> leg" where
  "to_leg pc = \<lparr>lg_AssetID = eg_AssetID pc, lg_Price = parseF (eg_Price pc), lg_Size = parseF (eg_Size pc),
     lg_Side = ToUpper (eg_Side pc), lg_BestBid = parseF (eg_BestBid pc), lg_BestAsk = parseF (eg_BestAsk pc)\<rparr>"

definition to_level :: "envelope_level \<Rightarrow> level" where
  "to_level l = \<lparr>lv_Price = parseF (el_Price l), lv_Size = parseF (el_Size l)\<rparr>"

definition leg_event :: "string \<Rightarrow> gotime \<Rightarrow> leg \<Rightarrow> parsed_event" where
  "leg_event mkt ts lg = zero_event\<lparr>pe_Type := EventPriceChange, pe_AssetID := lg_AssetID lg, pe_MarketID := mkt,
     pe_Timestamp := ts, pe_Price := lg_Price lg, pe_Size := lg_Size lg, pe_Side := lg_Side lg,
     pe_BestBid := lg_BestBid lg, pe_BestAsk := lg_BestAsk lg\<rparr>"

definition envelope_events :: "codec \<Rightarrow> gotime \<Rightarrow> string \<Rightarrow> envelope \<Rightarrow> parsed_event list" where
  "envelope_events cd now data en =
     (if en_EventType en = '''' then []
      else
        let ts = parseTS cd now (en_Timestamp en);
            base = zero_event\<lparr>pe_Type := en_EventType en, pe_AssetID := en_AssetID en,
                     pe_MarketID := en_Market en, pe_Timestamp := ts, pe_Raw := data\<rparr>
        in if en_EventType en = EventBook then
             [base\<lparr>pe_Bids := map to_level (en_Bids en), pe_Asks := map to_level (en_Asks en)\<rparr>]
           else if en_EventType en = EventPriceChange then
             (let legs = map to_leg (en_PriceChanges en) in
              if legs = [] then []
              else base\<lparr>pe_PriceChanges := legs\<rparr> # map (leg_event (en_Market en) ts) legs)
           else if en_EventType en = EventBestBidAsk then
             [base\<lparr>pe_BestBid := parseF (en_BestBid en), pe_BestAsk := parseF (en_BestAsk en)\<rparr>]
           else if en_EventType en = EventLastTradePrice then
             [base\<lparr>pe_LastTradePrice := parseF (en_Price en), pe_Price := parseF (en_Price en),
                   pe_Size := parseF (en_Size en), pe_Side := ToUpper (en_Side en)\<rparr>]
           else if en_EventType en = EventMarketResolved then
             [base\<lparr>pe_MarketGammaID := en_ID en, pe_WinningAssetID := en_WinningAssetID en,
                   pe_WinningOutcome := en_WinningOutcome en,
                   pe_ResolvedAssetIDs := (if en_AssetsIDs en = [] then en_ClobTokenIDs en else en_AssetsIDs en)\<rparr>]
           else [base])"

definition parseOne :: "codec \<Rightarrow> gotime \<Rightarrow> string \<Rightarrow> parsed_event list option" where
  "parseOne cd now data = map_option (envelope_events cd now data) (cd_Envelope cd data)"

definition ParseMessage :: "codec \<Rightarrow> gotime \<Rightarrow> string \<Rightarrow> parsed_event list option" where
  \<comment> \<open>None is the decoding error\<close>
  "ParseMessage cd now data =
     (let s = TrimSpace data in
      if s = '''' \<or> s = ''PONG'' \<or> s = ''pong'' then Some []
      else if \<not> cd_Valid cd data then Some []
      else if take 1 s = ''['' then
        (case cd_Array cd data of
           None \<Rightarrow> None
         | Some arr \<Rightarrow> Some (concat (map (\<lambda>raw. case parseOne cd now raw of None \<Rightarrow> [] | Some evs \<Rightarrow> evs) arr)))
      else parseOne cd now data)"

section \<open>Lemmas\<close>

lemma diff_applied:
  "((set current - {''''}) - set (sd_Unsubscribe (DiffSubscriptions current desired)))
     \<union> set (sd_Subscribe (DiffSubscriptions current desired)) = set desired - {''''}"
  by (auto simp: DiffSubscriptions_def)

definition in_sync :: "session \<Rightarrow> bool" where
  \<comment> \<open>while connected the client's list is the wanted one and the server serves exactly its identifiers\<close>
  "in_sync s \<longleftrightarrow>
     (if cl_conn (ss_client s)
      then cl_subscribed (ss_client s) = cl_desired (ss_client s) \<and>
           ss_server s - {''''} = set (cl_desired (ss_client s)) - {''''}
      else cl_subscribed (ss_client s) = [] \<and> ss_server s = {})"

definition wanted_step :: "string set \<Rightarrow> client_op \<Rightarrow> string set" where
  \<comment> \<open>the specification: one set of wanted assets\<close>
  "wanted_step W x =
     (case x of DoSetDesired ids \<Rightarrow> set ids | DoRemove ids \<Rightarrow> W - (set ids - {''''}) | Connect \<Rightarrow> W | Disconnect \<Rightarrow> W)"

definition session_step :: "session \<Rightarrow> (sub_msg \<Rightarrow> bool) \<times> client_op \<Rightarrow> session" where
  \<comment> \<open>an operation with the outcome of each of its writes\<close>
  "session_step s x = client_step (fst x) s (snd x)"

definition new_session :: session where
  "new_session = \<lparr>ss_client = \<lparr>cl_conn = False, cl_subscribed = [], cl_desired = []\<rparr>, ss_server = {}\<rparr>"

lemma applyDiff_ok:
  assumes "applyDiff wr (DiffSubscriptions cur ids) = (ms, True)" and "S - {''''} = set cur - {''''}"
  shows "foldl serve S ms - {''''} = set ids - {''''}"
proof -
  let ?d = "DiffSubscriptions cur ids"
  have "foldl serve S ms = (S - set (sd_Unsubscribe ?d)) \<union> set (sd_Subscribe ?d)"
    using assms(1) by (auto simp: applyDiff_def write_ids_def serve_def split: if_splits)
  then have "foldl serve S ms - {''''} = (((S - {''''}) - set (sd_Unsubscribe ?d)) \<union> set (sd_Subscribe ?d)) - {''''}"
    by auto
  then show ?thesis unfolding assms(2) diff_applied by simp
qed

lemma SetDesired_step:
  assumes "in_sync s"
  shows "in_sync (finish (ss_server s) (SetDesired wr ids (ss_client s)))"
    and "cl_desired (ss_client (finish (ss_server s) (SetDesired wr ids (ss_client s)))) = ids"
proof -
  let ?c = "ss_client s"
  obtain ms ok where d: "applyDiff wr (DiffSubscriptions (cl_subscribed ?c) ids) = (ms, ok)" by fastforce
  show "in_sync (finish (ss_server s) (SetDesired wr ids ?c))"
    using assms d applyDiff_ok [of wr "cl_subscribed ?c" ids ms "ss_server s"]
    by (cases "cl_conn ?c"; cases ok) (auto simp: in_sync_def SetDesired_def Let_def finish_def session_end_def)
  show "cl_desired (ss_client (finish (ss_server s) (SetDesired wr ids ?c))) = ids"
    using d by (simp add: SetDesired_def Let_def finish_def session_end_def)
qed

lemma RemoveAssets_step:
  assumes "in_sync s"
  shows "in_sync (finish (ss_server s) (RemoveAssets wr ids (ss_client s)))"
    and "set (cl_desired (ss_client (finish (ss_server s) (RemoveAssets wr ids (ss_client s))))) =
      set (cl_desired (ss_client s)) - (set ids - {''''})"
proof -
  let ?drop = "set (filter (\<lambda>a. a \<noteq> '''') ids)"
  let ?nxt = "filter (\<lambda>a. a \<notin> ?drop) (cl_desired (ss_client s))"
  let ?s = "s\<lparr>ss_client := (ss_client s)\<lparr>cl_desired := ?nxt\<rparr>\<rparr>"
  have drop: "?drop = set ids - {''''}" by auto
  have eq: "RemoveAssets wr ids (ss_client s) =
      (if ids = [] then (ss_client s, [], True)
       else if cl_conn (ss_client s) then SetDesired wr ?nxt (ss_client s)
       else ((ss_client s)\<lparr>cl_desired := ?nxt, cl_subscribed := filter (\<lambda>a. a \<notin> ?drop) (cl_subscribed (ss_client s))\<rparr>, [], True))"
    by (simp add: RemoveAssets_def Let_def SetDesired_def)
  note d = SetDesired_step [OF assms, of wr ?nxt]
  show "in_sync (finish (ss_server s) (RemoveAssets wr ids (ss_client s)))"
    using assms d(1) unfolding eq by (auto simp: in_sync_def finish_def)
  show "set (cl_desired (ss_client (finish (ss_server s) (RemoveAssets wr ids (ss_client s))))) =
      set (cl_desired (ss_client s)) - (set ids - {''''})"
    using d(2) unfolding eq by (auto simp: finish_def)
qed

lemma Connect_step:
  assumes "in_sync s"
  shows "in_sync (client_step wr s Connect)"
    and "cl_desired (ss_client (client_step wr s Connect)) = cl_desired (ss_client s)"
  using assms
  by (auto simp: in_sync_def session_start_def Let_def write_ids_def finish_def session_end_def serve_def)

interpretation client_sync: simulation session_step in_sync "\<lambda>x. True"
    "\<lambda>s. set (cl_desired (ss_client s))" "\<lambda>W x. wanted_step W (snd x)"
proof unfold_locales
  fix s :: session and x :: "(sub_msg \<Rightarrow> bool) \<times> client_op"
  assume s: "in_sync s"
  obtain wr p where x: "x = (wr, p)" by (cases x)
  show "in_sync (session_step s x)"
    by (cases p) (use s SetDesired_step RemoveAssets_step Connect_step in
      \<open>simp_all add: session_step_def x in_sync_def session_end_def del: client_step.simps(3)\<close>)
  show "set (cl_desired (ss_client (session_step s x))) = wanted_step (set (cl_desired (ss_client s))) (snd x)"
    by (cases p) (use s SetDesired_step RemoveAssets_step Connect_step in
      \<open>simp_all add: session_step_def x wanted_step_def session_end_def del: client_step.simps(3)\<close>)
qed

lemma leg_event_sel [simp]:
  "pe_Type (leg_event m ts lg) = EventPriceChange" "pe_PriceChanges (leg_event m ts lg) = []"
  "pe_AssetID (leg_event m ts lg) = lg_AssetID lg"
  by (simp_all add: leg_event_def zero_event_def)

lemma Apply_leg: "Apply now (leg_event m ts lg) s = applyPriceChange now (leg_event m ts lg) s"
  by (simp add: Apply_def event_types)

lemma Apply_aggregate:
  "pe_Type ev = EventPriceChange \<Longrightarrow> pe_PriceChanges ev \<noteq> [] \<Longrightarrow> Apply now ev s = (s, False)"
  by (simp add: Apply_def event_types)

text \<open>The wait before a reconnect doubles up to the cap and is not reset by a session that worked.\<close>

lemma backoff_stays_capped:
  assumes "0 < mx" and "mx < 2 ^ 62"
  shows "next_backoff mx mx = mx"
  using assms by (simp add: next_backoff_def wrap64_id)

lemma reconnect_wait_default: "reconnect_wait second (30 * second) (5 + n) = 30 * second"
proof (induction n)
  case 0
  have nb: "next_backoff 30000000000 b = (if b * 2 > 30000000000 then 30000000000 else b * 2)"
    if "0 \<le> b \<and> b \<le> 30000000000" for b
    using that by (simp add: next_backoff_def wrap64_id)
  have "(next_backoff 30000000000 ^^ Suc (Suc (Suc (Suc (Suc 0))))) 1000000000 = 30000000000"
    unfolding funpow.simps o_def id_apply by (simp add: nb)
  then show ?case
    by (simp add: reconnect_wait_def second_def numeral_eq_Suc)
next
  case (Suc n)
  have "next_backoff (30 * second) (30 * second) = 30 * second"
    by (rule backoff_stays_capped) (simp_all add: second_def)
  moreover have "reconnect_wait second (30 * second) (5 + Suc n) =
      next_backoff (30 * second) (reconnect_wait second (30 * second) (5 + n))"
    unfolding reconnect_wait_def Let_def add_Suc_right funpow.simps o_apply by simp
  ultimately show ?case unfolding Suc by simp
qed

section \<open>Properties\<close>


text \<open>A price-change message changes each leg once: applying everything the parser makes of it, the
  aggregate event included, is applying the legs one after another in message order, each to the
  book of its own asset.\<close>

theorem price_change_applied_once:
  assumes "en_EventType en = EventPriceChange"
  shows "foldl (\<lambda>s ev. fst (Apply now ev s)) s (envelope_events cd now data en) =
    foldl (\<lambda>s pc. fst (applyPriceChange now
        (leg_event (en_Market en) (parseTS cd now (en_Timestamp en)) (to_leg pc)) s)) s (en_PriceChanges en)"
proof -
  let ?ev = "\<lambda>pc. leg_event (en_Market en) (parseTS cd now (en_Timestamp en)) (to_leg pc)"
  let ?agg = "zero_event\<lparr>pe_Type := EventPriceChange, pe_AssetID := en_AssetID en, pe_MarketID := en_Market en,
      pe_Timestamp := parseTS cd now (en_Timestamp en), pe_Raw := data, pe_PriceChanges := map to_leg (en_PriceChanges en)\<rparr>"
  have legs: "foldl (\<lambda>s ev. fst (Apply now ev s)) s (map ?ev pcs) =
      foldl (\<lambda>s pc. fst (applyPriceChange now (?ev pc) s)) s pcs" for s pcs
    by (induction pcs arbitrary: s) (simp_all add: Apply_leg)
  show ?thesis
  proof (cases "en_PriceChanges en")
    case Nil
    then show ?thesis using assms by (simp add: envelope_events_def Let_def event_types)
  next
    case (Cons pc pcs)
    have "envelope_events cd now data en = ?agg # map ?ev (en_PriceChanges en)"
      using assms Cons by (simp add: envelope_events_def Let_def event_types o_def)
    moreover have "Apply now ?agg s = (s, False)" using Cons by (intro Apply_aggregate) simp_all
    ultimately show ?thesis using legs [of s "en_PriceChanges en"] by simp
  qed
qed

definition demo_codec :: codec where
  "demo_codec = \<lparr>cd_Valid = (\<lambda>s. True), cd_Array = (\<lambda>s. None), cd_Envelope = (\<lambda>s. None), cd_RFC3339 = (\<lambda>s. None)\<rparr>"

definition demo_envelope :: envelope where
  "demo_envelope = \<lparr>en_EventType = EventPriceChange, en_AssetID = '''', en_Market = ''m'',
     en_Timestamp = ''1750428146322'', en_Bids = [], en_Asks = [],
     en_PriceChanges = [\<lparr>eg_AssetID = ''t'', eg_Price = ''0.48'', eg_Size = ''100'', eg_Side = ''buy'',
        eg_BestBid = '''', eg_BestAsk = ''''\<rparr>],
     en_BestBid = '''', en_BestAsk = '''', en_Price = '''', en_Size = '''', en_Side = '''', en_ID = '''',
     en_WinningAssetID = '''', en_WinningOutcome = '''', en_AssetsIDs = [], en_ClobTokenIDs = []\<rparr>"

theorem price_change_applied_once_witness:
  "foldl (\<lambda>s ev. fst (Apply 1 ev s)) NewBookStore (envelope_events demo_codec 1 [] demo_envelope) =
   fst (applyPriceChange 1 (leg_event ''m'' (parseTS demo_codec 1 ''1750428146322'')
     (to_leg (List.hd (en_PriceChanges demo_envelope)))) NewBookStore)"
proof -
  have "en_EventType demo_envelope = EventPriceChange" by (simp add: demo_envelope_def)
  from price_change_applied_once [OF this, of 1 NewBookStore demo_codec "[]"] show ?thesis
    by (simp add: demo_envelope_def)
qed

end
