(* ===== verification/Edge_Cost.thy ===== *)
theory Edge_Cost
  imports Risk_Manager
begin

text \<open>
  \<open>internal/edge/cost.go\<close>: the execution cost stack in basis points: half spread, fee, impact
  (walking the ask levels, or a square-root model of the depth), neg-risk fee, and the capacity.
  Lemmas: what the level walk takes is bounded by the probe size and priced at or above the ask.
\<close>

section \<open>Definitions\<close>

record book_level =
  bl_Price :: f64
  bl_Size :: f64

record cost_input =
  ci_BestBid :: f64
  ci_BestAsk :: f64
  ci_BidDepth :: f64
  ci_AskDepth :: f64
  ci_Levels :: "book_level list"
  ci_SizeUSD :: f64
  ci_TakerFeeBps :: f64
  ci_NegRiskFeeBps :: f64
  ci_ImpactCapBps :: f64
  ci_ImpactCoeff :: f64

record cost_breakdown =
  cb_Mid :: f64
  cb_HalfSpreadBps :: f64
  cb_FeeBps :: f64
  cb_ImpactBps :: f64
  cb_NegRiskFeeBps :: f64
  cb_TotalCostBps :: f64
  cb_CapacityUSD :: f64
  cb_HasBook :: bool
  cb_SpreadInvalid :: bool

fun walk_levels :: "f64 \<Rightarrow> book_level list \<Rightarrow> f64 \<times> f64 \<times> f64 \<Rightarrow> f64 \<times> f64 \<times> f64" where
  \<comment> \<open>the loop over the ask levels on (remaining, sumPXSize, sumSize)\<close>
  "walk_levels bestAsk [] acc = acc"
| "walk_levels bestAsk (lv # lvs) acc =
     (if bl_Price lv \<le> 0 \<or> bl_Size lv \<le> 0 then walk_levels bestAsk lvs acc
      else if bestAsk > 0 \<and> bl_Price lv + Fin (1 / 10 ^ 12) < bestAsk then walk_levels bestAsk lvs acc
      else
        let (remaining, sumPX, sumSz) = acc;
            levelUSD = bl_Price lv * bl_Size lv;
            takeUSD = math_Min remaining levelUSD;
            takeShares = takeUSD / bl_Price lv;
            sumPX = sumPX + bl_Price lv * takeShares;
            sumSz = sumSz + takeShares;
            remaining = remaining - takeUSD
        in if remaining \<le> Fin (1 / 10 ^ 9) then (remaining, sumPX, sumSz)
           else walk_levels bestAsk lvs (remaining, sumPX, sumSz))"

definition impactWalkBps :: "f64 \<Rightarrow> f64 \<Rightarrow> book_level list \<Rightarrow> f64 \<Rightarrow> f64" where
  "impactWalkBps mid bestAsk levels sizeUSD =
     (if mid \<le> 0 \<or> sizeUSD \<le> 0 then 0
      else
        let (_, sumPX, sumSz) = walk_levels bestAsk levels (sizeUSD, 0, 0) in
        if sumSz \<le> 0 then 0
        else 10000 * (sumPX / sumSz - mid) / mid)"

definition capacityUSD :: "cost_input \<Rightarrow> f64 \<Rightarrow> f64 \<Rightarrow> f64 \<Rightarrow> f64" where
  "capacityUSD inp mid capBps coeff =
     (if mid \<le> 0 then 0
      else
        let depthUSD = ci_AskDepth inp * mid;
            depthUSD = (if depthUSD < 1 then 1 else depthUSD)
        in if coeff \<le> 0 then depthUSD
           else
             let ratio = capBps / coeff in
             if ratio < 0 then 0
             else
               let sz = depthUSD * ratio * ratio;
                   maxVis = ci_AskDepth inp * mid
               in if maxVis > 0 \<and> sz > maxVis then maxVis else sz)"

definition ComputeCost :: "cost_input \<Rightarrow> cost_breakdown" where
  "ComputeCost inp =
     (let fee = math_Max 0 (ci_TakerFeeBps inp);
          nrf = math_Max 0 (ci_NegRiskFeeBps inp);
          out = \<lparr>cb_Mid = 0, cb_HalfSpreadBps = 0, cb_FeeBps = fee, cb_ImpactBps = 0,
                 cb_NegRiskFeeBps = nrf, cb_TotalCostBps = 0, cb_CapacityUSD = 0,
                 cb_HasBook = False, cb_SpreadInvalid = False\<rparr>
      in if ci_BestBid inp \<le> 0 \<or> ci_BestAsk inp \<le> 0 \<or> ci_BestAsk inp < ci_BestBid inp
         then out\<lparr>cb_SpreadInvalid := (ci_BestBid inp > 0 \<or> ci_BestAsk inp > 0),
                  cb_TotalCostBps := fee + nrf\<rparr>
         else
           let mid = (ci_BestBid inp + ci_BestAsk inp) / 2 in
           if mid \<le> 0 then out\<lparr>cb_SpreadInvalid := True, cb_TotalCostBps := fee + nrf\<rparr>
           else
             let spread = ci_BestAsk inp - ci_BestBid inp;
                 half = 10000 * (spread / 2) / mid;
                 sz = pos_or 100 (ci_SizeUSD inp);
                 coeff = pos_or 50 (ci_ImpactCoeff inp);
                 impact =
                   (if ci_Levels inp \<noteq> [] then impactWalkBps mid (ci_BestAsk inp) (ci_Levels inp) sz
                    else
                      let depthUSD = ci_AskDepth inp * mid;
                          depthUSD = (if depthUSD < Fin (1 / 10 ^ 9) then Fin (1 / 10 ^ 9) else depthUSD)
                      in coeff * math_Sqrt (sz / depthUSD));
                 capBps = pos_or 25 (ci_ImpactCapBps inp)
             in out\<lparr>cb_HasBook := True, cb_Mid := mid, cb_HalfSpreadBps := half,
                    cb_ImpactBps := impact,
                    cb_TotalCostBps := half + fee + impact + nrf,
                    cb_CapacityUSD := capacityUSD inp mid capBps coeff\<rparr>)"

section \<open>Lemmas\<close>

definition cost_fin :: "cost_input \<Rightarrow> bool" where
  "cost_fin inp \<longleftrightarrow>
     isfin (ci_BestBid inp) \<and> isfin (ci_BestAsk inp) \<and> isfin (ci_BidDepth inp) \<and>
     isfin (ci_AskDepth inp) \<and> (\<forall>lv \<in> set (ci_Levels inp). isfin (bl_Price lv) \<and> isfin (bl_Size lv)) \<and>
     isfin (ci_SizeUSD inp) \<and> isfin (ci_TakerFeeBps inp) \<and> isfin (ci_NegRiskFeeBps inp) \<and>
     isfin (ci_ImpactCapBps inp) \<and> isfin (ci_ImpactCoeff inp)"

definition walk_ok :: "real \<Rightarrow> f64 \<times> f64 \<times> f64 \<Rightarrow> bool" where
  \<comment> \<open>finite, nothing negative, and priced at or above a floor on average\<close>
  "walk_ok lo acc \<longleftrightarrow> (case acc of (r, px, sz) \<Rightarrow>
     isfin r \<and> isfin px \<and> isfin sz \<and> 0 \<le> rval r \<and> 0 \<le> rval sz \<and> lo * rval sz \<le> rval px)"

lemma walk_step_ok:
  assumes "walk_ok lo (r, px, sz)" and "isfin p" "isfin q" "0 < rval p" "0 < rval q" and "lo \<le> rval p"
  shows "walk_ok lo (r - math_Min r (p * q), px + p * (math_Min r (p * q) / p),
    sz + math_Min r (p * q) / p)"
proof -
  let ?t = "math_Min r (p * q)"
  have fr: "isfin r" "isfin px" "isfin sz" "0 \<le> rval r" "0 \<le> rval sz" "lo * rval sz \<le> rval px"
    using assms(1) by (auto simp: walk_ok_def)
  have ft: "isfin ?t" "rval ?t = min (rval r) (rval p * rval q)"
    using fr assms by simp_all
  have t0: "0 \<le> rval ?t / rval p" using ft(2) fr(4) assms by simp
  have "lo * (rval ?t / rval p) \<le> rval p * (rval ?t / rval p)"
    using t0 assms(6) by (intro mult_right_mono)
  then have lo: "lo * (rval ?t / rval p) \<le> rval ?t" using assms(4) by simp
  have px: "isfin (px + p * (?t / p))" "rval (px + p * (?t / p)) = rval px + rval ?t"
    using fr ft(1) assms by (simp_all del: rval_min_max)
  have sz: "isfin (sz + ?t / p)" "rval (sz + ?t / p) = rval sz + rval ?t / rval p"
    using fr ft(1) assms by (simp_all del: rval_min_max)
  have r: "isfin (r - ?t)" "0 \<le> rval (r - ?t)" using fr(1) ft by simp_all
  have "lo * rval (sz + ?t / p) \<le> rval (px + p * (?t / p))"
    unfolding px(2) sz(2) distrib_left using lo fr(6) by linarith
  with px(1) sz r fr(5) t0 show ?thesis unfolding walk_ok_def case_prod_conv by simp
qed

lemma walk_levels_ok:
  assumes "\<forall>lv \<in> set lvs. isfin (bl_Price lv) \<and> isfin (bl_Size lv)" and "isfin ask" "0 < rval ask"
    and "walk_ok (rval ask - 1 / 10 ^ 12) acc"
  shows "walk_ok (rval ask - 1 / 10 ^ 12) (walk_levels ask lvs acc)"
  using assms
proof (induction ask lvs acc rule: walk_levels.induct)
  case (2 ask lv lvs acc)
  obtain r px sz where acc: "acc = (r, px, sz)" by (cases acc)
  have fl: "isfin (bl_Price lv)" "isfin (bl_Size lv)" using 2 by simp_all
  show ?case
  proof (cases "bl_Price lv \<le> 0 \<or> bl_Size lv \<le> 0 \<or> bl_Price lv + Fin (1 / 10 ^ 12) < ask")
    case True
    with 2 show ?thesis by (auto simp: isfin_order)
  next
    case False
    with fl 2 have "0 < rval (bl_Price lv)" "0 < rval (bl_Size lv)"
      "rval ask - 1 / 10 ^ 12 \<le> rval (bl_Price lv)" by (auto simp: isfin_order)
    note ok = walk_step_ok [OF _ fl this, of r px sz]
    from False 2 acc ok show ?thesis by (auto simp: Let_def isfin_order)
  qed
qed simp

lemma impactWalk_floor:
  assumes lv: "\<forall>lv \<in> set lvs. isfin (bl_Price lv) \<and> isfin (bl_Size lv)"
    and fin: "isfin ask" "isfin mid" "isfin sz" and pos: "0 < rval ask" "0 < rval mid" "0 < rval sz"
    and some: "impactWalkBps mid ask lvs sz \<noteq> 0"
  shows "isfin (impactWalkBps mid ask lvs sz)
    \<and> 10000 * (rval ask - rval mid) / rval mid - 10000 * (1 / 10 ^ 12) / rval mid
        \<le> rval (impactWalkBps mid ask lvs sz)"
proof -
  obtain r px s where w: "walk_levels ask lvs (sz, 0, 0) = (r, px, s)" by (cases "walk_levels ask lvs (sz, 0, 0)")
  have "walk_ok (rval ask - 1 / 10 ^ 12) (r, px, s)"
    unfolding w [symmetric] using fin pos by (intro walk_levels_ok [OF lv]) (simp_all add: walk_ok_def)
  then have ok: "isfin px" "isfin s" "(rval ask - 1 / 10 ^ 12) * rval s \<le> rval px"
    by (auto simp: walk_ok_def)
  have imp: "impactWalkBps mid ask lvs sz = (if s \<le> 0 then 0 else 10000 * (px / s - mid) / mid)"
    using fin pos w by (simp add: impactWalkBps_def isfin_order)
  with some have s: "0 < rval s" using ok by (auto simp: isfin_order split: if_splits)
  then have "rval ask - 1 / 10 ^ 12 \<le> rval px / rval s" using ok(3) by (simp add: pos_le_divide_eq)
  then have "(rval ask - 1 / 10 ^ 12 - rval mid) / rval mid \<le> (rval px / rval s - rval mid) / rval mid"
    using pos by (intro divide_right_mono) auto
  then have "10000 * (rval ask - rval mid) / rval mid - 10000 * (1 / 10 ^ 12) / rval mid
      \<le> 10000 * (rval px / rval s - rval mid) / rval mid"
    by (simp add: diff_divide_distrib)
  then show ?thesis using imp s ok fin pos by (simp add: isfin_order)
qed

lemma ComputeCost_book:
  assumes "cost_fin inp" and "0 < rval (ci_BestBid inp)" and "rval (ci_BestBid inp) \<le> rval (ci_BestAsk inp)"
  defines "mid \<equiv> (ci_BestBid inp + ci_BestAsk inp) / 2"
  shows "isfin mid" "0 < rval mid" "cb_HasBook (ComputeCost inp)" "cb_Mid (ComputeCost inp) = mid"
    "cb_HalfSpreadBps (ComputeCost inp) = 10000 * ((ci_BestAsk inp - ci_BestBid inp) / 2) / mid"
    "ci_Levels inp \<noteq> [] \<Longrightarrow> cb_ImpactBps (ComputeCost inp) =
       impactWalkBps mid (ci_BestAsk inp) (ci_Levels inp) (pos_or 100 (ci_SizeUSD inp))"
    "cb_TotalCostBps (ComputeCost inp) = cb_HalfSpreadBps (ComputeCost inp) + cb_FeeBps (ComputeCost inp)
       + cb_ImpactBps (ComputeCost inp) + cb_NegRiskFeeBps (ComputeCost inp)"
  using assms by (auto simp: cost_fin_def ComputeCost_def Let_def isfin_order)

lemma ComputeCost_fees:
  "cost_fin inp \<Longrightarrow> isfin (cb_FeeBps (ComputeCost inp)) \<and> 0 \<le> rval (cb_FeeBps (ComputeCost inp))
    \<and> isfin (cb_NegRiskFeeBps (ComputeCost inp)) \<and> 0 \<le> rval (cb_NegRiskFeeBps (ComputeCost inp))"
  by (auto simp: cost_fin_def ComputeCost_def Let_def)

section \<open>Properties\<close>

text \<open>The level walk already pays the half spread: with a valid book and a level walk that fills
  anything, the impact is at least the half spread (up to the 1e-12 price tolerance), because it is
  measured from the mid, so the total cost, which adds the half spread as well, charges it twice.\<close>

theorem impact_counts_spread_twice:
  assumes "cost_fin inp" and "0 < rval (ci_BestBid inp)" and "rval (ci_BestBid inp) \<le> rval (ci_BestAsk inp)"
    and "ci_Levels inp \<noteq> []" and "cb_ImpactBps (ComputeCost inp) \<noteq> 0"
  shows "rval (cb_HalfSpreadBps (ComputeCost inp)) - 1 / 10 ^ 8 / rval (cb_Mid (ComputeCost inp))
      \<le> rval (cb_ImpactBps (ComputeCost inp))
    \<and> 2 * rval (cb_HalfSpreadBps (ComputeCost inp)) - 1 / 10 ^ 8 / rval (cb_Mid (ComputeCost inp))
      \<le> rval (cb_TotalCostBps (ComputeCost inp))"
proof -
  note b = ComputeCost_book [OF assms(1-3)]
  let ?mid = "cb_Mid (ComputeCost inp)" and ?I = "cb_ImpactBps (ComputeCost inp)"
  let ?H = "cb_HalfSpreadBps (ComputeCost inp)"
  let ?sz = "pos_or 100 (ci_SizeUSD inp)"
  have lv: "\<forall>lv \<in> set (ci_Levels inp). isfin (bl_Price lv) \<and> isfin (bl_Size lv)"
    and fa: "isfin (ci_BestAsk inp)" "isfin (ci_BestBid inp)" "isfin (ci_SizeUSD inp)"
    using assms(1) by (auto simp: cost_fin_def)
  have sz: "isfin ?sz" "0 < rval ?sz" using fa by (auto simp: pos_or_fin pos_or_pos)
  have mid: "isfin ?mid" "0 < rval ?mid" "rval ?mid = (rval (ci_BestBid inp) + rval (ci_BestAsk inp)) / 2"
    using b(1,2) fa by (simp_all add: b(4))
  have I: "?I = impactWalkBps ?mid (ci_BestAsk inp) (ci_Levels inp) ?sz"
    using b(4) b(6) [OF assms(4)] by simp
  have ask: "0 < rval (ci_BestAsk inp)" using assms(2,3) by linarith
  have fl: "isfin ?I" "10000 * (rval (ci_BestAsk inp) - rval ?mid) / rval ?mid - 10000 * (1 / 10 ^ 12) / rval ?mid
      \<le> rval ?I"
    using impactWalk_floor [OF lv fa(1) mid(1) sz(1) ask mid(2) sz(2)] assms(5) I by auto
  have H: "isfin ?H" "rval ?H = 10000 * (rval (ci_BestAsk inp) - rval ?mid) / rval ?mid"
    using b(4,5) fa mid by (simp_all add: field_simps)
  have first: "rval ?H - 1 / 10 ^ 8 / rval ?mid \<le> rval ?I" using fl(2) H(2) by simp
  have "rval (cb_TotalCostBps (ComputeCost inp)) = rval ?H + rval (cb_FeeBps (ComputeCost inp)) + rval ?I
      + rval (cb_NegRiskFeeBps (ComputeCost inp))"
    using b(7) H(1) fl(1) ComputeCost_fees [OF assms(1)] by simp
  with first ComputeCost_fees [OF assms(1)] show ?thesis by linarith
qed

definition demo_cost :: cost_input where
  "demo_cost = \<lparr>ci_BestBid = Fin (4 / 10), ci_BestAsk = Fin (6 / 10), ci_BidDepth = 100,
     ci_AskDepth = 100, ci_Levels = [\<lparr>bl_Price = Fin (6 / 10), bl_Size = 1000\<rparr>], ci_SizeUSD = 60,
     ci_TakerFeeBps = 0, ci_NegRiskFeeBps = 0, ci_ImpactCapBps = 25, ci_ImpactCoeff = 50\<rparr>"

theorem impact_counts_spread_twice_witness:
  "2 * rval (cb_HalfSpreadBps (ComputeCost demo_cost)) - 1 / 10 ^ 8 / rval (cb_Mid (ComputeCost demo_cost))
     \<le> rval (cb_TotalCostBps (ComputeCost demo_cost))"
proof -
  have h: "cost_fin demo_cost" "0 < rval (ci_BestBid demo_cost)"
    "rval (ci_BestBid demo_cost) \<le> rval (ci_BestAsk demo_cost)" "ci_Levels demo_cost \<noteq> []"
    by (simp_all add: demo_cost_def cost_fin_def)
  have "cb_ImpactBps (ComputeCost demo_cost) \<noteq> 0"
    by (simp add: demo_cost_def ComputeCost_def Let_def impactWalkBps_def pos_or_def f64_eval)
  from impact_counts_spread_twice [OF h this] show ?thesis by blast
qed

end
