(* ===== verification/Signals.thy ===== *)
theory Signals
  imports Edge_Cost Alloc "HOL-Library.Word"
begin

text \<open>
  \<open>internal/signals\<close>: paper signals from a board row and the live book (\<open>types.go\<close>, \<open>paper.go\<close>,
  \<open>factors.go\<close>, \<open>board_alloc.go\<close>).  The emitter's state is its configuration and the last committed
  emission per condition; \<open>Evaluate\<close> and \<open>Candidate\<close> read it, \<open>Commit\<close> writes it.  The random bytes
  of a signal id are an argument (\<open>crypto/rand\<close>), a value of Go's type \<open>any\<close> is the datatype \<open>go_any\<close>.
  Lemmas: \<open>Evaluate\<close> is \<open>Candidate\<close> behind the minimum edge and the cooldown; sizes and convictions
  are in range; on the fair-value path the cost raises the edge of a sell.
\<close>

section \<open>Data\<close>

datatype go_any = AFloat f64 | AInt int | AStr string | ABool bool | AStrs "string list" | ANil

definition ModePaper :: string where "ModePaper = ''paper''"
definition SideBuy :: string where "SideBuy = ''BUY''"
definition SideSell :: string where "SideSell = ''SELL''"
definition ActionEnter :: string where "ActionEnter = ''ENTER''"
definition EventOpen :: string where "EventOpen = ''open''"

record paper_signal =
  ps_Time :: gotime
  ps_SignalID :: string
  ps_Event :: string
  ps_SupersedesID :: string
  ps_Strategy :: string
  ps_StrategyVersionID :: "int option"
  ps_BoardRunID :: string
  ps_BoardRank :: int
  ps_Mode :: string
  ps_ConditionID :: string
  ps_MarketID :: string
  ps_TokenID :: string
  ps_Outcome :: string
  ps_NegRisk :: bool
  ps_NegRiskGroupID :: string
  ps_Side :: string
  ps_Action :: string
  ps_TimeInForce :: string
  ps_EdgeBps :: f64
  ps_OpportunityBps :: f64
  ps_ModelEdgeBps :: "f64 option"
  ps_CostBps :: f64
  ps_CostBreakdown :: "(string, f64) gomap"
  ps_FairValue :: "f64 option"
  ps_FVSource :: string
  ps_ScorePath :: string
  ps_Conviction :: f64
  ps_HorizonSec :: int
  ps_HalfLifeSec :: int
  ps_Urgency :: f64
  ps_SizeUSD :: f64
  ps_SizeShares :: f64
  ps_CapacityUSD :: f64
  ps_KellyFrac :: "f64 option"
  ps_RiskFlags :: "string list"
  ps_Mid :: f64
  ps_BestBid :: f64
  ps_BestAsk :: f64
  ps_SpreadBps :: f64
  ps_Imbalance :: f64
  ps_BidDepth :: f64
  ps_AskDepth :: f64
  ps_LastTradePrice :: f64
  ps_BookAgeMs :: int
  ps_FeatureAgeMs :: int
  ps_Features :: "(string, go_any) gomap"
  ps_Factors :: "(string, f64) gomap"
  ps_Tags :: "string list"
  ps_Reason :: "(string, go_any) gomap"

record book_snap =
  bs_BestBid :: f64
  bs_BestAsk :: f64
  bs_Mid :: f64
  bs_LastTradePrice :: f64
  bs_Imbalance :: f64
  bs_BidDepth :: f64
  bs_AskDepth :: f64
  bs_UpdatedAt :: gotime

record board_snap =
  bd_ConditionID :: string
  bd_MarketID :: string
  bd_TokenID :: string
  bd_Rank :: int
  bd_Score :: f64
  bd_EdgeBps :: "f64 option"
  bd_CostBps :: "f64 option"
  bd_CapacityUSD :: "f64 option"
  bd_Urgency :: "f64 option"
  bd_FairValue :: "f64 option"
  bd_ModelEdgeBps :: "f64 option"
  bd_FVSource :: string
  bd_NegRisk :: bool
  bd_NegRiskGroupID :: string
  bd_StrategyTags :: "string list"
  bd_RiskFlags :: "string list"
  bd_KeyFeatures :: "(string, go_any) gomap"
  bd_StrategyVersionID :: "int option"
  bd_RunID :: string

record gate_config =
  gc_MinEdgeBps :: f64
  gc_MaxSpreadBps :: f64
  gc_MaxBookAge :: duration
  gc_Cooldown :: duration
  gc_ReissueDeltaBps :: f64
  gc_ProbeSizeUSD :: f64
  gc_CapacityFrac :: f64
  gc_MaxNotionalUSD :: f64
  gc_ConvictionScale :: f64
  gc_HorizonSec :: int
  gc_HalfLifeSec :: int
  gc_BufferBps :: f64
  gc_DefaultFeeBps :: f64

definition DefaultGateConfig :: gate_config where
  "DefaultGateConfig = \<lparr>gc_MinEdgeBps = 25, gc_MaxSpreadBps = 500, gc_MaxBookAge = 30 * second,
     gc_Cooldown = 10 * minute, gc_ReissueDeltaBps = 50, gc_ProbeSizeUSD = 25,
     gc_CapacityFrac = Fin (1 / 10), gc_MaxNotionalUSD = 500, gc_ConvictionScale = 200,
     gc_HorizonSec = 3600, gc_HalfLifeSec = 1800, gc_BufferBps = 0, gc_DefaultFeeBps = 0\<rparr>"

record last_emit =
  le_At :: gotime
  le_Side :: string
  le_EdgeBps :: f64
  le_ID :: string

record emitter =
  em_cfg :: gate_config
  em_last :: "(string, last_emit) gomap"

definition NewEmitter :: "gate_config \<Rightarrow> emitter" where
  "NewEmitter cfg =
     \<lparr>em_cfg = (if gc_ProbeSizeUSD cfg \<le> 0 then DefaultGateConfig else cfg), em_last = []\<rparr>"

section \<open>Building a signal\<close>

definition bookOK :: "book_snap \<Rightarrow> bool" where
  "bookOK b \<longleftrightarrow> bs_BestBid b > 0 \<and> bs_BestAsk b > 0 \<and> bs_BestAsk b \<ge> bs_BestBid b"

record opportunity =
  op_Opp :: f64
  op_Model :: "f64 option"
  op_Path :: string
  op_FVSrc :: string
  op_FV :: "f64 option"
  op_AlreadyNet :: bool

definition opportunity_of :: "board_snap \<Rightarrow> f64 \<Rightarrow> opportunity" where
  "opportunity_of board mid =
     (case (if mid > 0 then bd_FairValue board else None) of
        Some v \<Rightarrow>
          (let opp = (v - mid) * 10000 in
           \<lparr>op_Opp = opp,
            op_Model = (case bd_ModelEdgeBps board of Some m \<Rightarrow> Some m | None \<Rightarrow> Some opp),
            op_Path = ''fair_value'',
            op_FVSrc = (if bd_FVSource board = '''' then ''board'' else bd_FVSource board),
            op_FV = Some v, op_AlreadyNet = False\<rparr>)
      | None \<Rightarrow>
          (case bd_ModelEdgeBps board of
             Some m \<Rightarrow> \<lparr>op_Opp = m, op_Model = Some m, op_Path = ''model_edge'', op_FVSrc = '''',
                        op_FV = None, op_AlreadyNet = True\<rparr>
           | None \<Rightarrow>
               (case bd_EdgeBps board of
                  Some e \<Rightarrow> \<lparr>op_Opp = e, op_Model = None, op_Path = ''board_edge'', op_FVSrc = '''',
                             op_FV = None, op_AlreadyNet = True\<rparr>
                | None \<Rightarrow> \<lparr>op_Opp = 0, op_Model = None, op_Path = ''none'', op_FVSrc = '''',
                             op_FV = None, op_AlreadyNet = False\<rparr>)))"

definition asFloat :: "go_any option \<Rightarrow> f64 option" where
  \<comment> \<open>of a map lookup: an absent key is nil\<close>
  "asFloat v = (case v of Some (AFloat x) \<Rightarrow> Some x | Some (AInt n) \<Rightarrow> Some (of_int_f64 n) | _ \<Rightarrow> None)"

definition put_opt :: "string \<Rightarrow> f64 option \<Rightarrow> (string, f64) gomap \<Rightarrow> (string, f64) gomap" where
  "put_opt k v m = (case v of None \<Rightarrow> m | Some x \<Rightarrow> go_put k x m)"

definition BuildFactors :: "board_snap \<Rightarrow> book_snap \<Rightarrow> f64 \<Rightarrow> f64 \<Rightarrow> f64 \<Rightarrow> (string, f64) gomap" where
  "BuildFactors board book opp costBps netEdge =
     (let f = [(''opportunity_bps'', opp), (''cost_bps'', costBps), (''net_edge_bps'', netEdge),
               (''imbalance'', bs_Imbalance book)];
          f = put_opt ''board_edge_bps'' (bd_EdgeBps board) f;
          f = put_opt ''model_edge_bps'' (bd_ModelEdgeBps board) f;
          f = (case bd_FairValue board of
                 Some v \<Rightarrow> (if bs_Mid book > 0
                           then go_put ''fv_residual_bps'' ((v - bs_Mid book) * 10000) f else f)
               | None \<Rightarrow> f);
          f = put_opt ''urgency'' (bd_Urgency board) f;
          f = go_put ''rank_score'' (bd_Score board) f;
          f = (if bs_Mid book > 0 \<and> bs_BestAsk book > bs_BestBid book
               then go_put ''spread_cost_bps''
                      (10000 * ((bs_BestAsk book - bs_BestBid book) / 2) / bs_Mid book) f
               else f);
          f = put_opt ''abs_ret_5m'' (asFloat (go_get (bd_KeyFeatures board) ''abs_ret_5m'')) f;
          f = put_opt ''volume_24hr'' (asFloat (go_get (bd_KeyFeatures board) ''volume_24hr'')) f
      in f)"

definition hex_nibble :: "nat \<Rightarrow> char" where
  "hex_nibble n = (if n < 10 then char_of (48 + n) else char_of (87 + n))"

definition hex_encode :: "8 word list \<Rightarrow> string" where
  "hex_encode bs = concat (map (\<lambda>b. [hex_nibble (unat b div 16), hex_nibble (unat b mod 16)]) bs)"

unbundle bit_operations_syntax

definition newSignalID :: "8 word list \<Rightarrow> string" where
  \<comment> \<open>\<open>b\<close> are the 16 bytes read from \<open>crypto/rand\<close>\<close>
  "newSignalID b =
     (let b = b[6 := ((b ! 6) AND 0x0f) OR 0x40];
          b = b[8 := ((b ! 8) AND 0x3f) OR 0x80];
          h = hex_encode b;
          part = (\<lambda>i j. take (j - i) (drop i h))
      in part 0 8 @ ''-'' @ part 8 12 @ ''-'' @ part 12 16 @ ''-'' @ part 16 20 @ ''-'' @ part 20 32)"

definition live_mid :: "book_snap \<Rightarrow> f64" where
  "live_mid book = (if bs_Mid book \<le> 0 then (bs_BestBid book + bs_BestAsk book) / 2 else bs_Mid book)"

definition live_spread :: "book_snap \<Rightarrow> f64" where
  "live_spread book =
     (let mid = live_mid book in
      if mid > 0 then 10000 * (bs_BestAsk book - bs_BestBid book) / mid else 0)"

definition live_cost :: "gate_config \<Rightarrow> book_snap \<Rightarrow> cost_breakdown" where
  "live_cost cfg book =
     ComputeCost \<lparr>ci_BestBid = bs_BestBid book, ci_BestAsk = bs_BestAsk book,
       ci_BidDepth = bs_BidDepth book, ci_AskDepth = bs_AskDepth book, ci_Levels = [],
       ci_SizeUSD = gc_ProbeSizeUSD cfg, ci_TakerFeeBps = gc_DefaultFeeBps cfg, ci_NegRiskFeeBps = 0,
       ci_ImpactCapBps = 25, ci_ImpactCoeff = 50\<rparr>"

definition net_edge :: "gate_config \<Rightarrow> board_snap \<Rightarrow> book_snap \<Rightarrow> f64" where
  "net_edge cfg board book =
     (let op = opportunity_of board (live_mid book) in
      if op_AlreadyNet op then op_Opp op - gc_BufferBps cfg
      else op_Opp op - cb_TotalCostBps (live_cost cfg book) - gc_BufferBps cfg)"

definition pick_side :: "bool \<Rightarrow> f64 \<Rightarrow> f64 \<Rightarrow> string option" where
  \<comment> \<open>None is the early return of the gated path\<close>
  "pick_side applyGates minE net =
     (if net > minE then Some SideBuy else if net < - minE then Some SideSell
      else if applyGates then None else if net \<ge> 0 then Some SideBuy else Some SideSell)"

definition debounced :: "emitter \<Rightarrow> string \<Rightarrow> string \<Rightarrow> f64 \<Rightarrow> gotime \<Rightarrow> bool" where
  \<comment> \<open>the cooldown test inside \<open>evaluate\<close>\<close>
  "debounced e cond side absNet now =
     (case go_get (em_last e) cond of
        None \<Rightarrow> False
      | Some prev \<Rightarrow>
          gc_Cooldown (em_cfg e) > 0 \<and> le_Side prev = side \<and>
          time_Sub now (le_At prev) < gc_Cooldown (em_cfg e) \<and>
          \<bar>absNet - \<bar>le_EdgeBps prev\<bar>\<bar> < gc_ReissueDeltaBps (em_cfg e))"

definition conviction_of :: "gate_config \<Rightarrow> f64 \<Rightarrow> f64" where
  "conviction_of cfg absNet =
     (let c = absNet / gc_ConvictionScale cfg;
          c = (if c > 1 then 1 else c)
      in if c < 0 then 0 else c)"

definition signal_capacity :: "board_snap \<Rightarrow> cost_breakdown \<Rightarrow> f64" where
  "signal_capacity board cost =
     (let capUSD = (case bd_CapacityUSD board of None \<Rightarrow> 0 | Some c \<Rightarrow> c) in
      if cb_CapacityUSD cost > 0 \<and> (capUSD \<le> 0 \<or> cb_CapacityUSD cost < capUSD)
      then cb_CapacityUSD cost else capUSD)"

definition signal_size :: "gate_config \<Rightarrow> f64 \<Rightarrow> f64 \<Rightarrow> f64" where
  "signal_size cfg conviction capUSD =
     (let sz = gc_ProbeSizeUSD cfg * (Fin (1 / 4) + Fin (3 / 4) * conviction);
          sz = (if gc_CapacityFrac cfg > 0 \<and> capUSD > 0
                then let lim = capUSD * gc_CapacityFrac cfg in (if sz > lim then lim else sz)
                else sz)
      in if gc_MaxNotionalUSD cfg > 0 \<and> sz > gc_MaxNotionalUSD cfg then gc_MaxNotionalUSD cfg else sz)"

definition trunc_div :: "int \<Rightarrow> int \<Rightarrow> int" where
  \<comment> \<open>Go's integer division, toward zero\<close>
  "trunc_div a b = sgn a * sgn b * (\<bar>a\<bar> div \<bar>b\<bar>)"

definition build_signal ::
  "gate_config \<Rightarrow> gotime \<Rightarrow> string \<Rightarrow> board_snap \<Rightarrow> book_snap \<Rightarrow> string \<Rightarrow> bool \<Rightarrow> 8 word list \<Rightarrow> paper_signal" where
  "build_signal cfg now strategy board book side hasPrev rnd =
     (let mid = live_mid book;
          spreadBps = live_spread book;
          op = opportunity_of board mid;
          cost = live_cost cfg book;
          signedNet = net_edge cfg board book;
          conviction = conviction_of cfg \<bar>signedNet\<bar>;
          capUSD = signal_capacity board cost;
          sizeUSD = signal_size cfg conviction capUSD;
          sizeShares = (if mid > 0 then sizeUSD / mid else 0);
          bookAgeMs = (if IsZero (bs_UpdatedAt book) then 0
                       else trunc_div (time_Sub now (bs_UpdatedAt book)) 1000000);
          features = foldl (\<lambda>m e. go_put (fst e) (snd e) m) [] (bd_KeyFeatures board);
          features = go_put ''live_spread_bps'' (AFloat spreadBps) (go_put ''live_mid'' (AFloat mid) features);
          notes = (if op_AlreadyNet op
                   then ''board net edge at scan time; live cost observational; paper only''
                   else ''live residual after cost; paper only'')
      in \<lparr>ps_Time = now, ps_SignalID = newSignalID rnd, ps_Event = EventOpen, ps_SupersedesID = '''',
          ps_Strategy = strategy, ps_StrategyVersionID = bd_StrategyVersionID board,
          ps_BoardRunID = bd_RunID board, ps_BoardRank = bd_Rank board, ps_Mode = ModePaper,
          ps_ConditionID = bd_ConditionID board, ps_MarketID = bd_MarketID board,
          ps_TokenID = bd_TokenID board, ps_Outcome = ''YES'', ps_NegRisk = bd_NegRisk board,
          ps_NegRiskGroupID = bd_NegRiskGroupID board, ps_Side = side, ps_Action = ActionEnter,
          ps_TimeInForce = ''IOC_PAPER'', ps_EdgeBps = signedNet, ps_OpportunityBps = op_Opp op,
          ps_ModelEdgeBps = op_Model op, ps_CostBps = cb_TotalCostBps cost,
          ps_CostBreakdown =
            [(''half_spread_bps'', cb_HalfSpreadBps cost), (''fee_bps'', cb_FeeBps cost),
             (''impact_bps'', cb_ImpactBps cost), (''total_cost_bps'', cb_TotalCostBps cost),
             (''buffer_bps'', gc_BufferBps cfg)],
          ps_FairValue = op_FV op, ps_FVSource = op_FVSrc op, ps_ScorePath = op_Path op,
          ps_Conviction = conviction, ps_HorizonSec = gc_HorizonSec cfg,
          ps_HalfLifeSec = gc_HalfLifeSec cfg,
          ps_Urgency = (case bd_Urgency board of None \<Rightarrow> 0 | Some u \<Rightarrow> u),
          ps_SizeUSD = sizeUSD, ps_SizeShares = sizeShares, ps_CapacityUSD = capUSD,
          ps_KellyFrac = Some (Fin (1 / 4) * conviction), ps_RiskFlags = bd_RiskFlags board,
          ps_Mid = mid, ps_BestBid = bs_BestBid book, ps_BestAsk = bs_BestAsk book,
          ps_SpreadBps = spreadBps, ps_Imbalance = bs_Imbalance book, ps_BidDepth = bs_BidDepth book,
          ps_AskDepth = bs_AskDepth book, ps_LastTradePrice = bs_LastTradePrice book,
          ps_BookAgeMs = bookAgeMs, ps_FeatureAgeMs = bookAgeMs, ps_Features = features,
          ps_Factors = BuildFactors board book (op_Opp op) (cb_TotalCostBps cost) signedNet,
          ps_Tags = bd_StrategyTags board,
          ps_Reason =
            [(''gates'', AStrs [''on_board'', ''net_edge_gt_min'', ''book_fresh'', ''spread_ok'']),
             (''min_edge_bps'', AFloat (gc_MinEdgeBps cfg)), (''net_edge_bps'', AFloat signedNet),
             (''reissue'', ABool hasPrev),
             (''debounce_sec'', AInt (trunc_div (gc_Cooldown cfg) 1000000000)),
             (''edge_already_net'', ABool (op_AlreadyNet op)), (''notes'', AStr notes)]\<rparr>)"

definition gates_open :: "gate_config \<Rightarrow> gotime \<Rightarrow> board_snap \<Rightarrow> book_snap \<Rightarrow> bool" where
  \<comment> \<open>the checks that both \<open>Evaluate\<close> and \<open>Candidate\<close> apply\<close>
  "gates_open cfg now board book \<longleftrightarrow>
     \<not> (bd_ConditionID board = '''' \<or> bd_TokenID board = '''') \<and> bookOK book \<and>
     \<not> (gc_MaxBookAge cfg > 0 \<and> \<not> IsZero (bs_UpdatedAt book) \<and>
        time_Sub now (bs_UpdatedAt book) > gc_MaxBookAge cfg) \<and>
     \<not> (gc_MaxSpreadBps cfg > 0 \<and> live_spread book > gc_MaxSpreadBps cfg) \<and>
     cb_HasBook (live_cost cfg book)"

definition evaluate ::
  "emitter option \<Rightarrow> gotime \<Rightarrow> string \<Rightarrow> board_snap \<Rightarrow> book_snap \<Rightarrow> bool \<Rightarrow> 8 word list \<Rightarrow> paper_signal option" where
  "evaluate ep now strategy board book applyGates rnd =
     (case ep of
        None \<Rightarrow> None
      | Some e \<Rightarrow>
          let strategy = (if strategy = '''' then ''default'' else strategy);
              cfg = em_cfg e
          in if \<not> gates_open cfg now board book then None
             else
               let signedNet = net_edge cfg board book;
                   minE = (if applyGates then gc_MinEdgeBps cfg else 0)
               in case pick_side applyGates minE signedNet of
                    None \<Rightarrow> None
                  | Some side \<Rightarrow>
                      if applyGates \<and> debounced e (bd_ConditionID board) side \<bar>signedNet\<bar> now then None
                      else Some (build_signal cfg now strategy board book side
                             (applyGates \<and> go_has (em_last e) (bd_ConditionID board)) rnd))"

definition Evaluate ::
  "emitter option \<Rightarrow> gotime \<Rightarrow> string \<Rightarrow> board_snap \<Rightarrow> book_snap \<Rightarrow> 8 word list \<Rightarrow> paper_signal option" where
  "Evaluate ep now strategy board book rnd = evaluate ep now strategy board book True rnd"

definition Candidate ::
  "emitter option \<Rightarrow> gotime \<Rightarrow> string \<Rightarrow> board_snap \<Rightarrow> book_snap \<Rightarrow> 8 word list \<Rightarrow> paper_signal option" where
  "Candidate ep now strategy board book rnd = evaluate ep now strategy board book False rnd"

definition BlockedByCooldown :: "emitter option \<Rightarrow> string \<Rightarrow> string \<Rightarrow> f64 \<Rightarrow> gotime \<Rightarrow> bool" where
  "BlockedByCooldown ep conditionID side edgeBps now =
     (case ep of
        None \<Rightarrow> False
      | Some e \<Rightarrow>
          if conditionID = '''' then False
          else if gc_Cooldown (em_cfg e) \<le> 0 then False
          else (case go_get (em_last e) conditionID of
                  None \<Rightarrow> False
                | Some prev \<Rightarrow>
                    if le_Side prev \<noteq> side then False
                    else if time_Sub now (le_At prev) \<ge> gc_Cooldown (em_cfg e) then False
                    else \<bar>\<bar>edgeBps\<bar> - \<bar>le_EdgeBps prev\<bar>\<bar> < gc_ReissueDeltaBps (em_cfg e)))"

definition Commit :: "paper_signal \<Rightarrow> emitter \<Rightarrow> emitter" where
  "Commit sig e =
     (if ps_ConditionID sig = '''' then e
      else e\<lparr>em_last := go_put (ps_ConditionID sig)
             \<lparr>le_At = ps_Time sig, le_Side = ps_Side sig, le_EdgeBps = ps_EdgeBps sig,
              le_ID = ps_SignalID sig\<rparr> (em_last e)\<rparr>)"

section \<open>Whole-board selection\<close>

definition NameFromPaper :: "paper_signal option \<Rightarrow> name" where
  "NameFromPaper sp =
     (case sp of
        None \<Rightarrow> \<lparr>n_Time = 0, n_ConditionID = '''', n_TokenID = '''', n_MarketID = '''', n_Side = '''',
          n_EdgeBps = 0, n_Conviction = 0, n_Urgency = 0, n_SpreadBps = 0, n_Mid = 0, n_CostBps = 0,
          n_SizeUSD = 0, n_CapacityUSD = 0, n_FVSource = '''', n_ScorePath = '''', n_HorizonSec = 0,
          n_Strategy = '''', n_StrategyVersionID = None\<rparr>
      | Some s \<Rightarrow> \<lparr>n_Time = ps_Time s, n_ConditionID = ps_ConditionID s, n_TokenID = ps_TokenID s,
          n_MarketID = ps_MarketID s, n_Side = ps_Side s, n_EdgeBps = ps_EdgeBps s,
          n_Conviction = ps_Conviction s, n_Urgency = ps_Urgency s, n_SpreadBps = ps_SpreadBps s,
          n_Mid = ps_Mid s, n_CostBps = ps_CostBps s, n_SizeUSD = ps_SizeUSD s,
          n_CapacityUSD = ps_CapacityUSD s, n_FVSource = ps_FVSource s, n_ScorePath = ps_ScorePath s,
          n_HorizonSec = ps_HorizonSec s, n_Strategy = ps_Strategy s,
          n_StrategyVersionID = ps_StrategyVersionID s\<rparr>)"

definition by_condition :: "paper_signal option list \<Rightarrow> (string, paper_signal) gomap" where
  "by_condition cands =
     foldl (\<lambda>m c. case c of None \<Rightarrow> m | Some s \<Rightarrow> go_put (ps_ConditionID s) s m) [] cands"

definition SelectTaken :: "paper_signal option list \<Rightarrow> alloc_result \<Rightarrow> paper_signal list" where
  "SelectTaken cands res =
     List.map_filter
       (\<lambda>n. map_option
          (\<lambda>s. s\<lparr>ps_Reason := go_put ''source'' (AStr ''board_alloc'') (ps_Reason s), ps_Event := EventOpen\<rparr>)
          (go_get (by_condition cands) (n_ConditionID n)))
       (ar_Taken res)"

section \<open>Lemmas\<close>

lemma build_signal_sel [simp]:
  "ps_Time (build_signal cfg now st b k side h rnd) = now"
  "ps_ConditionID (build_signal cfg now st b k side h rnd) = bd_ConditionID b"
  "ps_Side (build_signal cfg now st b k side h rnd) = side"
  "ps_EdgeBps (build_signal cfg now st b k side h rnd) = net_edge cfg b k"
  "ps_OpportunityBps (build_signal cfg now st b k side h rnd) = op_Opp (opportunity_of b (live_mid k))"
  "ps_CostBps (build_signal cfg now st b k side h rnd) = cb_TotalCostBps (live_cost cfg k)"
  "ps_Conviction (build_signal cfg now st b k side h rnd) = conviction_of cfg \<bar>net_edge cfg b k\<bar>"
  "ps_CapacityUSD (build_signal cfg now st b k side h rnd) = signal_capacity b (live_cost cfg k)"
  "ps_SizeUSD (build_signal cfg now st b k side h rnd) =
     signal_size cfg (conviction_of cfg \<bar>net_edge cfg b k\<bar>) (signal_capacity b (live_cost cfg k))"
  "ps_SpreadBps (build_signal cfg now st b k side h rnd) = live_spread k"
  by (simp_all add: build_signal_def Let_def)

lemma build_signal_reason:
  "(build_signal cfg now st b k side h rnd)\<lparr>ps_Reason := r\<rparr> =
   (build_signal cfg now st b k side h' rnd)\<lparr>ps_Reason := r\<rparr>"
  by (simp add: build_signal_def Let_def)

lemma debounced_blocked:
  "c \<noteq> '''' \<Longrightarrow> debounced e c side \<bar>x\<bar> now = BlockedByCooldown (Some e) c side x now"
  by (auto simp: debounced_def BlockedByCooldown_def split: option.split)

lemma pick_side_gated:
  assumes "0 \<le> minE"
  shows "pick_side True minE x = (if x > minE \<or> x < - minE then pick_side False 0 x else None)"
  using assms by (cases x; cases minE) (auto simp: pick_side_def f64_eval)

lemma pick_side_False: "\<exists>s. pick_side False m x = Some s"
  by (simp add: pick_side_def)

lemma pick_side_sign:
  "pick_side g m x = Some s \<Longrightarrow> 0 \<le> m \<Longrightarrow> isfin x \<Longrightarrow> (s = SideBuy \<longrightarrow> 0 \<le> rval x) \<and> (s = SideSell \<longrightarrow> rval x < 0)
    \<and> (s = SideBuy \<or> s = SideSell)"
  by (cases m) (auto simp: pick_side_def SideBuy_def SideSell_def f64_eval isfin_order elim!: isfinE split: if_splits)

lemma Evaluate_Some:
  "Evaluate (Some e) now st b k rnd = Some s \<longleftrightarrow>
     gates_open (em_cfg e) now b k \<and>
     (\<exists>side. pick_side True (gc_MinEdgeBps (em_cfg e)) (net_edge (em_cfg e) b k) = Some side \<and>
        \<not> debounced e (bd_ConditionID b) side \<bar>net_edge (em_cfg e) b k\<bar> now \<and>
        s = build_signal (em_cfg e) now (if st = '''' then ''default'' else st) b k side
              (go_has (em_last e) (bd_ConditionID b)) rnd)"
  by (auto simp: Evaluate_def evaluate_def Let_def split: option.splits)

lemma Candidate_Some:
  "Candidate (Some e) now st b k rnd = Some s \<longleftrightarrow>
     gates_open (em_cfg e) now b k \<and>
     (\<exists>side. pick_side False 0 (net_edge (em_cfg e) b k) = Some side \<and>
        s = build_signal (em_cfg e) now (if st = '''' then ''default'' else st) b k side False rnd)"
  by (auto simp: Candidate_def evaluate_def Let_def split: option.splits)

section \<open>Ranges\<close>

definition gate_ok :: "gate_config \<Rightarrow> bool" where
  \<comment> \<open>a configuration of ordinary numbers with a positive probe and conviction scale\<close>
  "gate_ok c \<longleftrightarrow>
     isfin (gc_MinEdgeBps c) \<and> 0 \<le> rval (gc_MinEdgeBps c) \<and> isfin (gc_MaxSpreadBps c) \<and>
     isfin (gc_ProbeSizeUSD c) \<and> 0 < rval (gc_ProbeSizeUSD c) \<and> isfin (gc_CapacityFrac c) \<and>
     isfin (gc_MaxNotionalUSD c) \<and> isfin (gc_ConvictionScale c) \<and> 0 < rval (gc_ConvictionScale c) \<and>
     isfin (gc_BufferBps c) \<and> isfin (gc_DefaultFeeBps c) \<and> isfin (gc_ReissueDeltaBps c)"

lemma gate_ok_default: "gate_ok DefaultGateConfig"
  by (simp add: gate_ok_def DefaultGateConfig_def)

lemma conviction_range:
  "gate_ok cfg \<Longrightarrow> isfin x \<Longrightarrow> isfin (conviction_of cfg x) \<and> 0 \<le> rval (conviction_of cfg x)
    \<and> rval (conviction_of cfg x) \<le> 1"
  by (auto simp: gate_ok_def conviction_of_def Let_def isfin_order)

lemma clamp_range:
  \<comment> \<open>\<open>if a > 0 && l > a { l = a }\<close> on ordinary numbers\<close>
  assumes "isfin (a :: f64)" and "isfin l" and "0 < rval l"
  defines "m \<equiv> (if a > 0 \<and> l > a then a else l)"
  shows "isfin m" "0 < rval m" "0 < rval a \<Longrightarrow> rval m \<le> rval a" "rval m \<le> rval l"
  using assms by (auto simp: isfin_order)

lemma signal_size_range:
  assumes "gate_ok cfg" and "isfin c" "0 \<le> rval c" and "isfin cap"
  shows "isfin (signal_size cfg c cap)" "0 < rval (signal_size cfg c cap)"
    "0 < rval (gc_MaxNotionalUSD cfg) \<Longrightarrow> rval (signal_size cfg c cap) \<le> rval (gc_MaxNotionalUSD cfg)"
    "0 < rval (gc_CapacityFrac cfg) \<Longrightarrow> 0 < rval cap \<Longrightarrow>
       rval (signal_size cfg c cap) \<le> rval cap * rval (gc_CapacityFrac cfg)"
proof -
  define s where "s = gc_ProbeSizeUSD cfg * (Fin (1 / 4) + Fin (3 / 4) * c)"
  define k where "k = cap * gc_CapacityFrac cfg"
  define l where "l = (if gc_CapacityFrac cfg > 0 \<and> cap > 0 then if s > k then k else s else s)"
  have fin: "isfin (gc_CapacityFrac cfg)" "isfin (gc_MaxNotionalUSD cfg)" "isfin k"
      "rval k = rval cap * rval (gc_CapacityFrac cfg)"
    using assms by (simp_all add: gate_ok_def k_def)
  have s: "isfin s" "0 < rval s" using assms by (simp_all add: gate_ok_def add_pos_nonneg s_def)
  have l: "isfin l" "0 < rval l" "0 < rval (gc_CapacityFrac cfg) \<Longrightarrow> 0 < rval cap \<Longrightarrow> rval l \<le> rval k"
    using s fin assms(4) by (auto simp: isfin_order l_def)
  have eq: "signal_size cfg c cap =
      (if gc_MaxNotionalUSD cfg > 0 \<and> l > gc_MaxNotionalUSD cfg then gc_MaxNotionalUSD cfg else l)"
    unfolding signal_size_def Let_def l_def s_def k_def by (rule refl)
  note c = clamp_range [OF fin(2) l(1,2), folded eq]
  show "isfin (signal_size cfg c cap)" "0 < rval (signal_size cfg c cap)"
    "0 < rval (gc_MaxNotionalUSD cfg) \<Longrightarrow> rval (signal_size cfg c cap) \<le> rval (gc_MaxNotionalUSD cfg)"
    using c by simp_all
  show "0 < rval (gc_CapacityFrac cfg) \<Longrightarrow> 0 < rval cap \<Longrightarrow>
       rval (signal_size cfg c cap) \<le> rval cap * rval (gc_CapacityFrac cfg)"
    using c(4) l(3) fin(4) by linarith
qed

definition book_num :: "book_snap \<Rightarrow> bool" where
  "book_num b \<longleftrightarrow> isfin (bs_BestBid b) \<and> isfin (bs_BestAsk b) \<and> isfin (bs_Mid b) \<and>
     isfin (bs_AskDepth b) \<and> 0 \<le> rval (bs_AskDepth b)"

definition board_num :: "board_snap \<Rightarrow> bool" where
  "board_num b \<longleftrightarrow> pred_option isfin (bd_EdgeBps b) \<and> pred_option isfin (bd_FairValue b) \<and>
     pred_option isfin (bd_ModelEdgeBps b) \<and> pred_option isfin (bd_CapacityUSD b)"

lemma book_ok_pos:
  "bookOK b \<Longrightarrow> book_num b \<Longrightarrow> 0 < rval (bs_BestBid b) \<and> rval (bs_BestBid b) \<le> rval (bs_BestAsk b)"
  by (simp add: bookOK_def book_num_def isfin_order)

lemma live_mid_range:
  assumes "bookOK b" and "book_num b"
  shows "isfin (live_mid b)" "0 < rval (live_mid b)" "isfin (live_spread b)"
  using book_ok_pos [OF assms] assms(2)
  by (auto simp: live_mid_def live_spread_def Let_def book_num_def isfin_order)

lemma sqrt_impact_range:
  assumes "isfin d" and "0 < rval d" and "isfin s" "0 < rval s"
  shows "isfin (50 * math_Sqrt (s / d)) \<and> 0 \<le> rval (50 * math_Sqrt (s / d))"
  using assms by (elim isfinE) (auto simp: math_Sqrt_def f64_eval not_less divide_less_0_iff)

lemma live_cost_range:
  assumes cfg: "gate_ok cfg" and b: "bookOK b" "book_num b"
  shows "isfin (cb_TotalCostBps (live_cost cfg b))" "0 \<le> rval (cb_TotalCostBps (live_cost cfg b))"
    "isfin (cb_CapacityUSD (live_cost cfg b))" "cb_HasBook (live_cost cfg b)"
proof -
  define mid where "mid = (bs_BestBid b + bs_BestAsk b) / 2"
  define d where "d = (if bs_AskDepth b * mid < Fin (1 / 10 ^ 9) then Fin (1 / 10 ^ 9) else bs_AskDepth b * mid)"
  define half where "half = 10000 * ((bs_BestAsk b - bs_BestBid b) / 2) / mid"
  note p = book_ok_pos [OF b]
  have f: "isfin (bs_BestBid b)" "isfin (bs_BestAsk b)" "isfin (bs_AskDepth b)" "0 \<le> rval (bs_AskDepth b)"
    using b(2) by (simp_all add: book_num_def)
  have mid: "isfin mid" "0 < rval mid" using p f by (simp_all add: mid_def)
  have d: "isfin d" "0 < rval d" using f mid by (auto simp: d_def isfin_order not_less)
  have half: "isfin half" "0 \<le> rval half" using p f mid by (simp_all add: half_def)
  have probe: "isfin (gc_ProbeSizeUSD cfg)" "0 < rval (gc_ProbeSizeUSD cfg)" "isfin (gc_DefaultFeeBps cfg)"
    using cfg by (simp_all add: gate_ok_def)
  have fee: "isfin (math_Max 0 (gc_DefaultFeeBps cfg))" "0 \<le> rval (math_Max 0 (gc_DefaultFeeBps cfg))"
    using probe(3) by (auto elim!: isfinE simp: f64_eval)
  have imp: "isfin (50 * math_Sqrt (gc_ProbeSizeUSD cfg / d))" "0 \<le> rval (50 * math_Sqrt (gc_ProbeSizeUSD cfg / d))"
    using sqrt_impact_range [OF d probe(1,2)] by auto
  have gp: "\<not> bs_BestBid b \<le> 0" "\<not> bs_BestAsk b \<le> 0" "\<not> bs_BestAsk b < bs_BestBid b" "\<not> mid \<le> 0"
    using p f mid by (simp_all add: isfin_order)
  have po: "pos_or 100 (gc_ProbeSizeUSD cfg) = gc_ProbeSizeUSD cfg" "pos_or 50 50 = (50::f64)" "pos_or 25 25 = (25::f64)"
    using probe by (auto simp: pos_or_def isfin_order f64_eval)
  have tot: "cb_TotalCostBps (live_cost cfg b) =
      half + math_Max 0 (gc_DefaultFeeBps cfg) + 50 * math_Sqrt (gc_ProbeSizeUSD cfg / d) + 0"
    using gp unfolding live_cost_def ComputeCost_def Let_def
    by (simp add: po mid_def [symmetric] half_def [symmetric]) (simp add: d_def f64_eval)
  show "isfin (cb_TotalCostBps (live_cost cfg b))" "0 \<le> rval (cb_TotalCostBps (live_cost cfg b))"
    using half fee imp by (simp_all add: tot)
  show "cb_HasBook (live_cost cfg b)"
    using gp unfolding live_cost_def ComputeCost_def Let_def by (simp add: mid_def [symmetric])
  show "isfin (cb_CapacityUSD (live_cost cfg b))"
    using gp mid f unfolding live_cost_def ComputeCost_def Let_def
    by (simp add: po mid_def [symmetric] capacityUSD_def Let_def isfin_order)
qed

lemma net_edge_fin:
  assumes "gate_ok cfg" and "bookOK b" "book_num b" and "board_num bd"
  shows "isfin (net_edge cfg bd b)"
  using live_cost_range [OF assms(1-3)] live_mid_range [OF assms(2,3)] assms(1,4)
  by (auto simp: net_edge_def Let_def opportunity_of_def gate_ok_def board_num_def split: option.split)

lemma signal_capacity_fin:
  "isfin (cb_CapacityUSD c) \<Longrightarrow> board_num bd \<Longrightarrow> isfin (signal_capacity bd c)"
  by (auto simp: signal_capacity_def Let_def board_num_def split: option.split)

lemma gates_open_book: "gates_open cfg now bd b \<Longrightarrow> bookOK b"
  by (simp add: gates_open_def)

section \<open>Emission runs\<close>

inductive emits :: "gate_config \<Rightarrow> paper_signal list \<Rightarrow> emitter \<Rightarrow> bool" for cfg :: gate_config where
  \<comment> \<open>what an emitter has emitted: gated signals, or board candidates the cooldown does not block,
      each committed after it is stored\<close>
  start: "emits cfg [] (NewEmitter cfg)"
| firehose: "emits cfg tr e \<Longrightarrow> Evaluate (Some e) now st b k rnd = Some s \<Longrightarrow> emits cfg (tr @ [s]) (Commit s e)"
| board: "emits cfg tr e \<Longrightarrow> Candidate (Some e) now st b k rnd = Some s \<Longrightarrow>
    \<not> BlockedByCooldown (Some e) (ps_ConditionID s) (ps_Side s) (ps_EdgeBps s) now \<Longrightarrow>
    emits cfg (tr @ [s]) (Commit s e)"

inductive_cases emits_snocE: "emits cfg (tr @ [s]) e"

definition emitted_of :: "paper_signal \<Rightarrow> last_emit" where
  "emitted_of s = \<lparr>le_At = ps_Time s, le_Side = ps_Side s, le_EdgeBps = ps_EdgeBps s, le_ID = ps_SignalID s\<rparr>"

definition last_for :: "string \<Rightarrow> paper_signal list \<Rightarrow> paper_signal option" where
  "last_for c tr = find (\<lambda>s. ps_ConditionID s = c) (rev tr)"

lemma last_for_snoc: "last_for c (tr @ [s]) = (if ps_ConditionID s = c then Some s else last_for c tr)"
  by (simp add: last_for_def)

lemma last_for_split:
  "ps_ConditionID s = c \<Longrightarrow> \<forall>u \<in> set ys. ps_ConditionID u \<noteq> c \<Longrightarrow> last_for c (xs @ s # ys) = Some s"
proof (induction ys rule: rev_induct)
  case Nil
  then show ?case by (simp add: last_for_snoc)
next
  case (snoc y ys)
  then have "last_for c ((xs @ s # ys) @ [y]) = Some s" unfolding last_for_snoc by simp
  then show ?case by simp
qed

lemma emit_facts:
  assumes "Evaluate (Some e) now st b k rnd = Some s \<or> Candidate (Some e) now st b k rnd = Some s"
  shows "gates_open (em_cfg e) now b k" "ps_ConditionID s = bd_ConditionID b" "ps_ConditionID s \<noteq> ''''"
    "ps_Time s = now" "ps_EdgeBps s = net_edge (em_cfg e) b k"
  using assms by (auto simp: Evaluate_Some Candidate_Some gates_open_def)

lemma emit_not_blocked:
  "Evaluate (Some e) now st b k rnd = Some s \<Longrightarrow>
   \<not> BlockedByCooldown (Some e) (ps_ConditionID s) (ps_Side s) (ps_EdgeBps s) now"
  by (auto simp: Evaluate_Some gates_open_def debounced_blocked)

lemma emits_state:
  "emits cfg tr e \<Longrightarrow>
   em_cfg e = em_cfg (NewEmitter cfg) \<and> (\<forall>c. go_get (em_last e) c = map_option emitted_of (last_for c tr))"
proof (induction rule: emits.induct)
  case start
  show ?case by (simp add: NewEmitter_def last_for_def)
next
  case (firehose tr e now st b k rnd s)
  then show ?case using emit_facts(3) [of e now st b k rnd s]
    by (auto simp: Commit_def last_for_snoc emitted_of_def gmap.get_put)
next
  case (board tr e now st b k rnd s)
  then show ?case using emit_facts(3) [of e now st b k rnd s]
    by (auto simp: Commit_def last_for_snoc emitted_of_def gmap.get_put)
qed

lemma emits_split:
  assumes "emits cfg (us @ t # zs) e"
  shows "\<exists>e0. emits cfg us e0 \<and> \<not> BlockedByCooldown (Some e0) (ps_ConditionID t) (ps_Side t) (ps_EdgeBps t) (ps_Time t)
    \<and> ps_ConditionID t \<noteq> ''''"
  using assms
proof (induction zs arbitrary: e rule: rev_induct)
  case Nil
  from Nil show ?case
    by (elim emits_snocE) (use emit_not_blocked emit_facts(3,4) in metis)+
next
  case (snoc z zs)
  from snoc.prems have "emits cfg ((us @ t # zs) @ [z]) e" by simp
  then show ?case by (elim emits_snocE) (use snoc.IH in blast)+
qed

lemma emitted_size:
  assumes "gate_ok (em_cfg e)" and "book_num k" and "board_num b"
    and "Evaluate (Some e) now st b k rnd = Some s \<or> Candidate (Some e) now st b k rnd = Some s"
  shows "isfin (ps_SizeUSD s)" "0 < rval (ps_SizeUSD s)"
proof -
  obtain side h where s: "s = build_signal (em_cfg e) now (if st = '''' then ''default'' else st) b k side h rnd"
    using assms(4) by (auto simp: Evaluate_Some Candidate_Some)
  have bk: "bookOK k" using emit_facts(1) [OF assms(4)] by (rule gates_open_book)
  have "isfin \<bar>net_edge (em_cfg e) b k\<bar>" using net_edge_fin [OF assms(1) bk assms(2,3)] by simp
  note cv = conviction_range [OF assms(1) this]
  have cap: "isfin (signal_capacity b (live_cost (em_cfg e) k))"
    by (rule signal_capacity_fin [OF live_cost_range(3) [OF assms(1) bk assms(2)] assms(3)])
  show "isfin (ps_SizeUSD s)" "0 < rval (ps_SizeUSD s)"
    using signal_size_range(1,2) [OF assms(1) _ _ cap] cv unfolding s build_signal_sel by blast+
qed

section \<open>Properties\<close>

definition demo_book :: book_snap where
  "demo_book = \<lparr>bs_BestBid = Fin (49 / 100), bs_BestAsk = Fin (51 / 100), bs_Mid = Fin (1 / 2),
     bs_LastTradePrice = Fin (1 / 2), bs_Imbalance = 0, bs_BidDepth = 1000, bs_AskDepth = 1000,
     bs_UpdatedAt = 63000000000000000000\<rparr>"

definition demo_board :: "f64 option \<Rightarrow> board_snap" where
  "demo_board fv = \<lparr>bd_ConditionID = ''0xa'', bd_MarketID = ''m'', bd_TokenID = ''1'', bd_Rank = 1,
     bd_Score = 1, bd_EdgeBps = Some 120, bd_CostBps = None, bd_CapacityUSD = Some 1000,
     bd_Urgency = None, bd_FairValue = fv, bd_ModelEdgeBps = None, bd_FVSource = '''',
     bd_NegRisk = False, bd_NegRiskGroupID = '''', bd_StrategyTags = [], bd_RiskFlags = [],
     bd_KeyFeatures = [], bd_StrategyVersionID = None, bd_RunID = ''r''\<rparr>"

definition demo_now :: gotime where "demo_now = 63000000001000000000"

lemma demo_num: "book_num demo_book" "board_num (demo_board None)"
  by (simp_all add: book_num_def demo_book_def board_num_def demo_board_def)

lemma demo_gates: "bd_ConditionID b = ''0xa'' \<Longrightarrow> bd_TokenID b = ''1'' \<Longrightarrow>
    gates_open DefaultGateConfig demo_now b demo_book"
proof -
  have ok: "bookOK demo_book" by (simp add: bookOK_def demo_book_def f64_eval)
  then have "cb_HasBook (live_cost DefaultGateConfig demo_book)"
    using live_cost_range(4) [OF gate_ok_default] demo_num by blast
  then show "bd_ConditionID b = ''0xa'' \<Longrightarrow> bd_TokenID b = ''1'' \<Longrightarrow>
      gates_open DefaultGateConfig demo_now b demo_book"
    using ok by (simp add: gates_open_def DefaultGateConfig_def demo_book_def demo_now_def
      live_spread_def live_mid_def time_Sub_def second_def f64_eval)
qed

lemma demo_cfg: "em_cfg (NewEmitter DefaultGateConfig) = DefaultGateConfig"
  by (simp add: NewEmitter_def)

lemma demo_net: "net_edge DefaultGateConfig (demo_board None) demo_book = 120"
  by (simp add: net_edge_def opportunity_of_def demo_board_def DefaultGateConfig_def f64_eval)

lemma demo_Evaluate:
  "\<exists>s. Evaluate (Some (NewEmitter DefaultGateConfig)) demo_now ''s'' (demo_board None) demo_book rnd = Some s"
proof -
  have g: "gates_open DefaultGateConfig demo_now (demo_board None) demo_book"
    by (rule demo_gates) (simp_all add: demo_board_def)
  show ?thesis
    using g demo_net by (auto simp: Evaluate_Some demo_cfg)
      (auto simp: pick_side_def debounced_def NewEmitter_def DefaultGateConfig_def f64_eval)
qed

text \<open>C18: The gated path is the ungated one behind two tests: for a minimum edge of at least zero,
  \<open>Evaluate\<close> emits exactly when \<open>Candidate\<close> builds a signal whose net edge exceeds the minimum in
  absolute value and which \<open>BlockedByCooldown\<close> lets through, and the two signals are equal up to the
  explanatory \<open>Reason\<close> map.  So the firehose and the whole-board mode share one scoring.\<close>

theorem evaluate_is_gated_candidate:
  assumes "0 \<le> gc_MinEdgeBps (em_cfg e)"
  shows "(\<exists>s. Evaluate (Some e) now st b k rnd = Some s \<and> s\<lparr>ps_Reason := r\<rparr> = x) \<longleftrightarrow>
    (\<exists>c. Candidate (Some e) now st b k rnd = Some c \<and> c\<lparr>ps_Reason := r\<rparr> = x \<and>
       (ps_EdgeBps c > gc_MinEdgeBps (em_cfg e) \<or> ps_EdgeBps c < - gc_MinEdgeBps (em_cfg e)) \<and>
       \<not> BlockedByCooldown (Some e) (ps_ConditionID c) (ps_Side c) (ps_EdgeBps c) now)"
proof (cases "gates_open (em_cfg e) now b k")
  case True
  let ?x = "net_edge (em_cfg e) b k" and ?st = "if st = '''' then ''default'' else st"
  have c: "bd_ConditionID b \<noteq> ''''" using True by (simp add: gates_open_def)
  obtain side where side: "pick_side False 0 ?x = Some side" using pick_side_False by blast
  let ?B = "\<lambda>h. build_signal (em_cfg e) now ?st b k side h rnd" and ?H = "go_has (em_last e) (bd_ConditionID b)"
  have eq: "(?B ?H)\<lparr>ps_Reason := r\<rparr> = (?B False)\<lparr>ps_Reason := r\<rparr>" by (rule build_signal_reason)
  have E: "Evaluate (Some e) now st b k rnd = Some s \<longleftrightarrow> (?x > gc_MinEdgeBps (em_cfg e) \<or> ?x < - gc_MinEdgeBps (em_cfg e))
      \<and> \<not> BlockedByCooldown (Some e) (bd_ConditionID b) side ?x now \<and> s = ?B ?H" for s
    using True side by (simp add: Evaluate_Some pick_side_gated [OF assms] debounced_blocked [OF c])
  have C: "Candidate (Some e) now st b k rnd = Some s \<longleftrightarrow> s = ?B False" for s
    using True side by (simp add: Candidate_Some)
  show ?thesis unfolding E C using eq by auto
next
  case False
  then show ?thesis by (simp add: Evaluate_Some Candidate_Some)
qed

theorem evaluate_is_gated_candidate_witness:
  "\<exists>c. Candidate (Some (NewEmitter DefaultGateConfig)) demo_now ''s'' (demo_board None) demo_book [] = Some c
     \<and> \<not> BlockedByCooldown (Some (NewEmitter DefaultGateConfig)) (ps_ConditionID c) (ps_Side c) (ps_EdgeBps c) demo_now"
proof -
  have "0 \<le> gc_MinEdgeBps (em_cfg (NewEmitter DefaultGateConfig))"
    by (simp add: demo_cfg) (simp add: DefaultGateConfig_def f64_eval)
  from evaluate_is_gated_candidate [OF this, of demo_now "''s''" "demo_board None" demo_book "[]" "[]"]
  show ?thesis using demo_Evaluate [of "[]"] by blast
qed

text \<open>C22: What is emitted is well formed: with ordinary numbers in the configuration, the board row and
  the book, a signal of either path has a finite net edge whose sign is its side, a conviction in
  [0, 1], a positive size within the notional cap and the capacity fraction, a nonnegative cost, and
  a spread within the configured maximum.\<close>

theorem signal_well_formed:
  assumes "gate_ok (em_cfg e)" and "book_num k" and "board_num b"
    and "Evaluate (Some e) now st b k rnd = Some s \<or> Candidate (Some e) now st b k rnd = Some s"
  defines "cfg \<equiv> em_cfg e"
  shows "isfin (ps_EdgeBps s) \<and> (ps_Side s = SideBuy \<and> 0 \<le> rval (ps_EdgeBps s) \<or> ps_Side s = SideSell \<and> rval (ps_EdgeBps s) < 0)
    \<and> 0 \<le> rval (ps_Conviction s) \<and> rval (ps_Conviction s) \<le> 1
    \<and> isfin (ps_SizeUSD s) \<and> 0 < rval (ps_SizeUSD s)
    \<and> (0 < rval (gc_MaxNotionalUSD cfg) \<longrightarrow> rval (ps_SizeUSD s) \<le> rval (gc_MaxNotionalUSD cfg))
    \<and> (0 < rval (gc_CapacityFrac cfg) \<and> 0 < rval (ps_CapacityUSD s) \<longrightarrow>
         rval (ps_SizeUSD s) \<le> rval (ps_CapacityUSD s) * rval (gc_CapacityFrac cfg))
    \<and> 0 \<le> rval (ps_CostBps s)
    \<and> (0 < rval (gc_MaxSpreadBps cfg) \<longrightarrow> rval (ps_SpreadBps s) \<le> rval (gc_MaxSpreadBps cfg))"
proof -
  obtain g m side h where sig: "pick_side g m (net_edge cfg b k) = Some side" "0 \<le> m"
      "s = build_signal cfg now (if st = '''' then ''default'' else st) b k side h rnd"
    using assms(1,4) by (auto simp: Evaluate_Some Candidate_Some cfg_def gate_ok_def isfin_order f64_eval)
  have go: "gates_open cfg now b k" using emit_facts(1) [OF assms(4)] by (simp add: cfg_def)
  have cfg: "gate_ok cfg" using assms(1) by (simp add: cfg_def)
  note bk = gates_open_book [OF go]
  note cost = live_cost_range [OF cfg bk assms(2)] and mid = live_mid_range [OF bk assms(2)]
  have x: "isfin (net_edge cfg b k)" by (rule net_edge_fin [OF cfg bk assms(2,3)])
  then have "isfin \<bar>net_edge cfg b k\<bar>" by simp
  note cv = conviction_range [OF cfg this]
  have cap: "isfin (signal_capacity b (live_cost cfg k))" by (rule signal_capacity_fin [OF cost(3) assms(3)])
  note sz = signal_size_range [OF cfg _ _ cap, of "conviction_of cfg \<bar>net_edge cfg b k\<bar>"]
  have sp: "0 < rval (gc_MaxSpreadBps cfg) \<Longrightarrow> rval (live_spread k) \<le> rval (gc_MaxSpreadBps cfg)"
    using go cfg mid by (auto simp: gates_open_def gate_ok_def isfin_order)
  show ?thesis
    using pick_side_sign [OF sig(1,2) x] x cv sz cost sp unfolding sig(3) build_signal_sel by blast
qed

theorem signal_well_formed_witness:
  "\<exists>s. Evaluate (Some (NewEmitter DefaultGateConfig)) demo_now ''s'' (demo_board None) demo_book [] = Some s
     \<and> 0 < rval (ps_SizeUSD s)"
proof -
  obtain s where s: "Evaluate (Some (NewEmitter DefaultGateConfig)) demo_now ''s'' (demo_board None) demo_book [] = Some s"
    using demo_Evaluate by blast
  have "gate_ok (em_cfg (NewEmitter DefaultGateConfig))" by (simp add: demo_cfg gate_ok_default)
  from signal_well_formed [OF this demo_num disjI1 [OF s]] s show ?thesis by blast
qed



text \<open>On the fair-value path the cost is subtracted from a signed residual, so it makes a sell look
  better instead of worse: a market priced exactly at its fair value has no opportunity, yet when
  cost and buffer exceed the minimum edge \<open>Evaluate\<close> emits a SELL whose edge is minus the cost.\<close>

theorem fair_price_emits_sell:
  assumes "gate_ok (em_cfg e)" and "book_num k" and "gates_open (em_cfg e) now b k"
    and "bd_FairValue b = Some (live_mid k)"
    and "rval (gc_MinEdgeBps (em_cfg e)) < rval (cb_TotalCostBps (live_cost (em_cfg e) k)) + rval (gc_BufferBps (em_cfg e))"
    and "go_get (em_last e) (bd_ConditionID b) = None"
  shows "\<exists>s. Evaluate (Some e) now st b k rnd = Some s \<and> ps_Side s = SideSell \<and> rval (ps_OpportunityBps s) = 0
    \<and> rval (ps_EdgeBps s) = - (rval (cb_TotalCostBps (live_cost (em_cfg e) k)) + rval (gc_BufferBps (em_cfg e)))"
proof -
  let ?cfg = "em_cfg e"
  let ?x = "net_edge ?cfg b k" and ?C = "cb_TotalCostBps (live_cost ?cfg k)"
  note bk = gates_open_book [OF assms(3)]
  note cost = live_cost_range [OF assms(1) bk assms(2)] and mid = live_mid_range [OF bk assms(2)]
  have op: "op_AlreadyNet (opportunity_of b (live_mid k)) = False"
      "op_Opp (opportunity_of b (live_mid k)) = (live_mid k - live_mid k) * 10000"
    using mid assms(4) by (simp_all add: opportunity_of_def isfin_order Let_def)
  have fin: "isfin (gc_BufferBps ?cfg)" "isfin (gc_MinEdgeBps ?cfg)" "0 \<le> rval (gc_MinEdgeBps ?cfg)"
    using assms(1) by (simp_all add: gate_ok_def)
  have x: "isfin ?x" "rval ?x = - (rval ?C + rval (gc_BufferBps ?cfg))"
    using op cost mid fin by (simp_all add: net_edge_def Let_def)
  have "pick_side True (gc_MinEdgeBps ?cfg) ?x = Some SideSell"
    using x fin assms(5) by (simp add: pick_side_def isfin_order)
  with assms(3,6) x op mid show ?thesis by (auto simp: Evaluate_Some debounced_def)
qed

theorem fair_price_emits_sell_witness:
  "\<exists>s. Evaluate (Some (NewEmitter DefaultGateConfig)) demo_now ''s'' (demo_board (Some (Fin (1 / 2)))) demo_book [] = Some s
     \<and> ps_Side s = SideSell \<and> rval (ps_OpportunityBps s) = 0"
proof -
  let ?e = "NewEmitter DefaultGateConfig" and ?b = "demo_board (Some (Fin (1 / 2)))"
  have g: "gates_open (em_cfg ?e) demo_now ?b demo_book"
    unfolding demo_cfg by (rule demo_gates) (simp_all add: demo_board_def)
  have fv: "bd_FairValue ?b = Some (live_mid demo_book)"
    by (simp add: live_mid_def demo_book_def demo_board_def f64_eval)
  have "rval (gc_MinEdgeBps (em_cfg ?e)) < rval (cb_TotalCostBps (live_cost (em_cfg ?e) demo_book)) + rval (gc_BufferBps (em_cfg ?e))"
    unfolding demo_cfg by (simp add: live_cost_def ComputeCost_def Let_def demo_book_def DefaultGateConfig_def
      pos_or_def math_Sqrt_def f64_eval add_pos_nonneg)
  from fair_price_emits_sell [OF _ demo_num(1) g fv this, of "''s''" "[]"] show ?thesis
    by (auto simp: demo_cfg gate_ok_default) (auto simp: NewEmitter_def)
qed

end
