(* ===== verification/Ws_Live.thy ===== *)
theory Ws_Live
  imports Ws_Client Signals
begin

text \<open>
  The websocket listener \<open>cmd/ws-listener\<close> as one machine: the book store, the client, the resolution
  queue, the resolved markets, the board and the emitter, with the operations its goroutines perform
  (a websocket event, a board refresh, a signal tick in firehose or board mode), and
  \<open>internal/db/board_assets.go\<close>, which packs the board's tokens into the subscribe set.
  Database queries are arguments: their rows, and whether an insert succeeded.
  Lemmas: the subscribe set is capped, duplicate-free and keeps the primaries first; a resolved market
  stays unsubscribed and silent; a board tick stays within the risk budget.
\<close>

section \<open>The subscribe set\<close>

record board_meta =
  bm_ConditionID :: string
  bm_MarketID :: string
  bm_QuestionShort :: string
  bm_Category :: string
  bm_TokenIDs :: "string list"
  bm_PrimaryTokenID :: string
  bm_Rank :: int
  bm_Score :: f64
  bm_EdgeBps :: "f64 option"
  bm_CostBps :: "f64 option"
  bm_CapacityUSD :: "f64 option"
  bm_Urgency :: "f64 option"
  bm_FairValue :: "f64 option"
  bm_ModelEdgeBps :: "f64 option"
  bm_FVSource :: string
  bm_NegRisk :: bool
  bm_NegRiskGroupID :: string
  bm_RelatedLegs :: "string list"
  bm_StrategyTags :: "string list"
  bm_RiskFlags :: "string list"
  bm_KeyFeatures :: "(string, go_any) gomap"
  bm_StrategyVersionID :: "int option"
  bm_RunID :: string

record subscribe_set =
  sb_TokenIDs :: "string list"
  sb_ByToken :: "(string, board_meta) gomap"
  sb_ByCondition :: "(string, board_meta) gomap"
  sb_Primaries :: "board_meta list"

definition cleanTokens :: "string list \<Rightarrow> string list" where
  "cleanTokens ts = filter (\<lambda>t. t \<noteq> '''') (map TrimSpace ts)"

fun split_comma :: "string \<Rightarrow> string \<Rightarrow> string list" where
  \<comment> \<open>\<open>strings.Split(raw, ",")\<close>, with the part read so far\<close>
  "split_comma acc [] = [acc]"
| "split_comma acc (c # cs) = (if c = CHR '','' then acc # split_comma [] cs else split_comma (acc @ [c]) cs)"

definition parseClobTokenIDs :: "(string \<Rightarrow> string list option) \<Rightarrow> string \<Rightarrow> string list" where
  \<comment> \<open>\<open>dec\<close> decodes a JSON array of strings\<close>
  "parseClobTokenIDs dec raw =
     (let raw = TrimSpace raw in
      if raw = '''' then []
      else case (if take 1 raw = ''['' then dec raw else None) of
             Some arr \<Rightarrow> cleanTokens arr
           | None \<Rightarrow> cleanTokens (split_comma [] raw))"

definition clean_row :: "board_meta \<Rightarrow> board_meta" where
  "clean_row m =
     (let ts = cleanTokens (bm_TokenIDs m) in
      m\<lparr>bm_TokenIDs := ts, bm_PrimaryTokenID := (case ts of [] \<Rightarrow> '''' | t # _ \<Rightarrow> t)\<rparr>)"

definition board_of_rows :: "board_meta list \<Rightarrow> board_meta list" where
  "board_of_rows rows =
     filter (\<lambda>m. \<not> (bm_ConditionID m = '''' \<or> bm_PrimaryTokenID m = '''')) (map clean_row rows)"

definition missing_legs :: "board_meta list \<Rightarrow> string list" where
  \<comment> \<open>the related conditions that are not on the board\<close>
  "missing_legs board =
     filter (\<lambda>lg. lg \<notin> bm_ConditionID ` set board)
       (remdups (concat (map (\<lambda>m. filter (\<lambda>lg. lg \<noteq> '''' \<and> lg \<noteq> bm_ConditionID m) (bm_RelatedLegs m)) board)))"

definition addToken :: "int \<Rightarrow> subscribe_set \<Rightarrow> string \<times> board_meta \<Rightarrow> subscribe_set" where
  \<comment> \<open>the set \<open>seen\<close> is the tokens already taken\<close>
  "addToken maxAssets out tm =
     (case tm of (tid, meta) \<Rightarrow>
        if tid = '''' then out
        else if tid \<in> set (sb_TokenIDs out) then out
        else if int (length (sb_TokenIDs out)) \<ge> maxAssets then out
        else out\<lparr>sb_TokenIDs := sb_TokenIDs out @ [tid], sb_ByToken := go_put tid meta (sb_ByToken out)\<rparr>)"

definition default_meta :: "string \<Rightarrow> string list \<Rightarrow> board_meta" where
  "default_meta cond toks = \<lparr>bm_ConditionID = cond, bm_MarketID = '''', bm_QuestionShort = '''', bm_Category = '''',
     bm_TokenIDs = toks, bm_PrimaryTokenID = (case toks of [] \<Rightarrow> '''' | t # _ \<Rightarrow> t), bm_Rank = 0, bm_Score = 0,
     bm_EdgeBps = None, bm_CostBps = None, bm_CapacityUSD = None, bm_Urgency = None, bm_FairValue = None,
     bm_ModelEdgeBps = None, bm_FVSource = '''', bm_NegRisk = False, bm_NegRiskGroupID = '''',
     bm_RelatedLegs = [], bm_StrategyTags = [], bm_RiskFlags = [], bm_KeyFeatures = [],
     bm_StrategyVersionID = None, bm_RunID = ''''\<rparr>"

definition token_passes :: "board_meta list \<Rightarrow> (string \<times> string list) list \<Rightarrow> (string \<times> board_meta) list" where
  \<comment> \<open>what the three passes offer to \<open>addToken\<close>, in order\<close>
  "token_passes board legTokens =
     map (\<lambda>m. (bm_PrimaryTokenID m, m)) board @
     concat (map (\<lambda>m. map (\<lambda>t. (t, m)) (filter (\<lambda>t. t \<noteq> bm_PrimaryTokenID m) (bm_TokenIDs m))) board) @
     concat (map (\<lambda>(cond, toks). map (\<lambda>t. (t, default_meta cond toks)) toks) legTokens)"

definition LoadBoardSubscribeSet ::
  "(string list \<Rightarrow> (string \<times> string list) list) \<Rightarrow> board_meta list \<Rightarrow> int \<Rightarrow> subscribe_set" where
  \<comment> \<open>\<open>loadTokens\<close> and \<open>rows\<close> are the two queries\<close>
  "LoadBoardSubscribeSet loadTokens rows maxAssets =
     (let maxAssets = (if maxAssets \<le> 0 then 180 else maxAssets);
          board = board_of_rows rows;
          out = \<lparr>sb_TokenIDs = [], sb_ByToken = [],
                 sb_ByCondition = foldl (\<lambda>m b. go_put (bm_ConditionID b) b m) [] board, sb_Primaries = board\<rparr>
      in foldl (addToken maxAssets) out (token_passes board (loadTokens (missing_legs board))))"

section \<open>The listener\<close>

record listener_state =
  lw_store :: book_store
  lw_session :: session
  lw_queue :: resolve_queue
  lw_conds :: "string list"
  lw_assets :: "string list"
  lw_board :: "subscribe_set option"
  lw_emitter :: emitter

definition resolution_of :: "parsed_event \<Rightarrow> market_resolution" where
  "resolution_of ev = \<lparr>mr_GammaID = pe_MarketGammaID ev, mr_ConditionID = pe_MarketID ev,
     mr_WinningAssetID = pe_WinningAssetID ev, mr_WinningOutcome = pe_WinningOutcome ev,
     mr_ResolvedAt = pe_Timestamp ev, mr_AssetIDs = pe_ResolvedAssetIDs ev\<rparr>"

definition resolved_tokens :: "subscribe_set option \<Rightarrow> market_resolution \<Rightarrow> string list" where
  \<comment> \<open>the message's tokens, or those of the board when it names none\<close>
  "resolved_tokens bm r =
     (if mr_AssetIDs r = [] \<and> mr_ConditionID r \<noteq> ''''
      then (case bm of
              None \<Rightarrow> []
            | Some b \<Rightarrow>
                (case go_get (sb_ByCondition b) (mr_ConditionID r) of
                   None \<Rightarrow> []
                 | Some m \<Rightarrow>
                     if bm_PrimaryTokenID m \<noteq> '''' \<and> bm_PrimaryTokenID m \<notin> set (bm_TokenIDs m)
                     then bm_TokenIDs m @ [bm_PrimaryTokenID m] else bm_TokenIDs m))
      else mr_AssetIDs r)"

definition resolve_event :: "gotime \<Rightarrow> (sub_msg \<Rightarrow> bool) \<Rightarrow> parsed_event \<Rightarrow> listener_state \<Rightarrow> listener_state" where
  "resolve_event now wr ev l =
     (let r = resolution_of ev;
          toks = resolved_tokens (lw_board l) r;
          l = l\<lparr>lw_queue := Enqueue now r (lw_queue l),
                lw_conds := (if mr_ConditionID r \<noteq> '''' then List.insert (mr_ConditionID r) (lw_conds l) else lw_conds l),
                lw_assets := fold List.insert (filter (\<lambda>a. a \<noteq> '''') toks) (lw_assets l)\<rparr>
      in if toks = [] then l
         else l\<lparr>lw_store := RemoveTokens toks (lw_store l),
                lw_session := session_step (lw_session l) (wr, DoRemove toks)\<rparr>)"

definition OnEvent :: "gotime \<Rightarrow> (sub_msg \<Rightarrow> bool) \<Rightarrow> parsed_event \<Rightarrow> listener_state \<Rightarrow> listener_state" where
  "OnEvent now wr ev l =
     (if pe_Type ev = EventMarketResolved then resolve_event now wr ev l
      else if pe_Type ev = EventNewMarket \<or> pe_Type ev = EventTickSizeChange then l
      else l\<lparr>lw_store := fst (Apply now ev (lw_store l))\<rparr>)"

definition refresh :: "(sub_msg \<Rightarrow> bool) \<Rightarrow> subscribe_set \<Rightarrow> listener_state \<Rightarrow> listener_state" where
  "refresh wr st l =
     (let conds = filter (\<lambda>c. go_has (sb_ByCondition st) c) (lw_conds l);
          assets = filter (\<lambda>a. a \<in> set (sb_TokenIDs st) \<or> go_has (sb_ByToken st) a) (lw_assets l);
          toks = filter (\<lambda>t. t \<notin> set assets) (sb_TokenIDs st);
          prims = filter (\<lambda>p. bm_ConditionID p \<notin> set conds) (sb_Primaries st)
      in l\<lparr>lw_conds := conds, lw_assets := assets,
           lw_board := Some (st\<lparr>sb_TokenIDs := toks, sb_Primaries := prims\<rparr>),
           lw_session := session_step (lw_session l) (wr, DoSetDesired toks)\<rparr>)"

section \<open>Signals from memory\<close>

definition board_snap_of :: "board_meta \<Rightarrow> board_snap" where
  "board_snap_of p = \<lparr>bd_ConditionID = bm_ConditionID p, bd_MarketID = bm_MarketID p,
     bd_TokenID = bm_PrimaryTokenID p, bd_Rank = bm_Rank p, bd_Score = bm_Score p, bd_EdgeBps = bm_EdgeBps p,
     bd_CostBps = bm_CostBps p, bd_CapacityUSD = bm_CapacityUSD p, bd_Urgency = bm_Urgency p,
     bd_FairValue = bm_FairValue p, bd_ModelEdgeBps = bm_ModelEdgeBps p, bd_FVSource = bm_FVSource p,
     bd_NegRisk = bm_NegRisk p, bd_NegRiskGroupID = bm_NegRiskGroupID p, bd_StrategyTags = bm_StrategyTags p,
     bd_RiskFlags = bm_RiskFlags p, bd_KeyFeatures = bm_KeyFeatures p,
     bd_StrategyVersionID = bm_StrategyVersionID p, bd_RunID = bm_RunID p\<rparr>"

definition book_snap_of :: "book_state \<Rightarrow> book_snap" where
  "book_snap_of b = \<lparr>bs_BestBid = bk_BestBid b, bs_BestAsk = bk_BestAsk b, bs_Mid = Mid b,
     bs_LastTradePrice = bk_LastTradePrice b, bs_Imbalance = bk_Imbalance b, bs_BidDepth = bk_BidDepth b,
     bs_AskDepth = bk_AskDepth b, bs_UpdatedAt = bk_UpdatedAt b\<rparr>"

definition evalPrimary ::
  "emitter \<Rightarrow> book_store \<Rightarrow> board_meta \<Rightarrow> gotime \<Rightarrow> string \<Rightarrow> bool \<Rightarrow> 8 word list \<Rightarrow> paper_signal option" where
  "evalPrimary em store p now strategy applyGates rnd =
     (case Snapshot (bm_PrimaryTokenID p) store of
        None \<Rightarrow> None
      | Some bk \<Rightarrow>
          if \<not> ValidBook bk then None
          else if applyGates then Evaluate (Some em) now strategy (board_snap_of p) (book_snap_of bk) rnd
          else Candidate (Some em) now strategy (board_snap_of p) (book_snap_of bk) rnd)"

definition persistSignals :: "bool \<Rightarrow> paper_signal list \<Rightarrow> emitter \<Rightarrow> emitter" where
  \<comment> \<open>\<open>ok\<close>: the insert succeeded\<close>
  "persistSignals ok out em = (if out = [] \<or> \<not> ok then em else foldl (\<lambda>e s. Commit s e) em out)"

record tick_config =
  tc_Strategy :: string
  tc_Risk :: risk_config
  tc_Worth :: worthiness
  tc_Rnd :: "string \<Rightarrow> 8 word list"

definition live_evals :: "tick_config \<Rightarrow> gotime \<Rightarrow> bool \<Rightarrow> listener_state \<Rightarrow> board_meta list \<Rightarrow> paper_signal list" where
  \<comment> \<open>the loop over the primaries: dead markets and missing books are skipped\<close>
  "live_evals tc now gates l prims =
     List.map_filter
       (\<lambda>p. if bm_ConditionID p \<in> set (lw_conds l) then None
            else evalPrimary (lw_emitter l) (lw_store l) p now (tc_Strategy tc) gates (tc_Rnd tc (bm_ConditionID p)))
       prims"

definition board_out :: "tick_config \<Rightarrow> gotime \<Rightarrow> listener_state \<Rightarrow> board_meta list \<Rightarrow> paper_signal list" where
  "board_out tc now l prims =
     (let cands = live_evals tc now False l prims;
          res = Run \<lparr>ai_Names = map (\<lambda>s. NameFromPaper (Some s)) cands, ai_Risk = tc_Risk tc,
                     ai_Worth = tc_Worth tc, ai_Open = []\<rparr>
      in filter (\<lambda>s. \<not> BlockedByCooldown (Some (lw_emitter l)) (ps_ConditionID s) (ps_Side s) (ps_EdgeBps s) now)
           (SelectTaken (map Some cands) res))"

definition signal_tick :: "tick_config \<Rightarrow> bool \<Rightarrow> gotime \<Rightarrow> bool \<Rightarrow> listener_state \<Rightarrow> paper_signal list \<times> listener_state" where
  \<comment> \<open>one tick of the signal goroutine in firehose or board mode\<close>
  "signal_tick tc firehose now ok l =
     (case lw_board l of
        None \<Rightarrow> ([], l)
      | Some bm \<Rightarrow>
          let out = (if firehose then live_evals tc now True l (sb_Primaries bm)
                     else board_out tc now l (sb_Primaries bm))
          in (out, l\<lparr>lw_emitter := persistSignals ok out (lw_emitter l)\<rparr>))"

datatype live_op =
    LEvent gotime "sub_msg \<Rightarrow> bool" parsed_event
  | LRefresh "sub_msg \<Rightarrow> bool" subscribe_set
  | LSession "sub_msg \<Rightarrow> bool" bool   \<comment> \<open>connect or disconnect\<close>
  | LTick tick_config bool gotime bool

definition live_step :: "listener_state \<Rightarrow> live_op \<Rightarrow> listener_state" where
  "live_step l x =
     (case x of
        LEvent now wr ev \<Rightarrow> OnEvent now wr ev l
      | LRefresh wr st \<Rightarrow> refresh wr st l
      | LSession wr up \<Rightarrow> l\<lparr>lw_session := session_step (lw_session l) (wr, if up then Connect else Disconnect)\<rparr>
      | LTick tc firehose now ok \<Rightarrow> snd (signal_tick tc firehose now ok l))"

section \<open>Lemmas: the subscribe set\<close>

definition first_occurrences :: "'a list \<Rightarrow> 'a list" where
  "first_occurrences xs = rev (remdups (rev xs))"

lemma first_occurrences_snoc:
  "first_occurrences (xs @ [x]) = (if x \<in> set xs then first_occurrences xs else first_occurrences xs @ [x])"
  by (simp add: first_occurrences_def)

lemma first_occurrences_simps [simp]:
  "first_occurrences [] = []" "set (first_occurrences xs) = set xs" "distinct (first_occurrences xs)"
  by (simp_all add: first_occurrences_def)

lemma first_occurrences_prefix: "prefix (first_occurrences xs) (first_occurrences (xs @ ys))"
  by (induction ys rule: rev_induct)
    (auto simp: first_occurrences_snoc prefix_order.order_trans simp flip: append_assoc)

lemma addToken_fold:
  assumes "0 < cap" and "sb_TokenIDs out = []"
  shows "sb_TokenIDs (foldl (addToken cap) out tms) =
    take (nat cap) (first_occurrences (filter (\<lambda>t. t \<noteq> '''') (map fst tms)))"
proof (induction tms rule: rev_induct)
  case Nil
  show ?case using assms by simp
next
  case (snoc tm tms)
  let ?ts = "filter (\<lambda>t. t \<noteq> '''') (map fst tms)"
  obtain t m where tm: "tm = (t, m)" by (cases tm)
  let ?T = "take (nat cap) (first_occurrences ?ts)"
  define st where "st = foldl (addToken cap) out tms"
  have IH: "sb_TokenIDs st = ?T" unfolding st_def by (rule snoc.IH)
  have step: "foldl (addToken cap) out (tms @ [tm]) = addToken cap st (t, m)" by (simp add: st_def tm)
  consider "t = ''''" | "t \<noteq> ''''" "t \<in> set ?T" | "t \<noteq> ''''" "t \<notin> set ?T" "int (length ?T) \<ge> cap"
    | "t \<noteq> ''''" "t \<notin> set ?T" "int (length ?T) < cap"
    using linorder_not_le [of cap "int (length ?T)"] by blast
  then show ?case
  proof cases
    case 1
    then show ?thesis unfolding step using IH by (simp add: addToken_def tm)
  next
    case 2
    have "t \<in> set ?ts" using in_set_takeD [OF 2(2)] by (simp only: first_occurrences_simps(2))
    with 2 IH show ?thesis unfolding step by (simp add: addToken_def tm first_occurrences_snoc)
  next
    case 3
    then have "nat cap \<le> length (first_occurrences ?ts)" by simp
    with 3 IH show ?thesis unfolding step by (simp add: addToken_def tm first_occurrences_snoc)
  next
    case 4
    then have len: "length (first_occurrences ?ts) < nat cap" by (simp split: if_splits)
    with 4 have "t \<notin> set ?ts" by simp
    with 4 IH len show ?thesis unfolding step by (simp add: addToken_def tm first_occurrences_snoc)
  qed
qed

section \<open>Lemmas: resolved markets\<close>

definition dead_for :: "string \<Rightarrow> string \<Rightarrow> listener_state \<Rightarrow> bool" where
  "dead_for c a l \<longleftrightarrow>
     c \<in> set (lw_conds l) \<and> a \<in> set (lw_assets l) \<and> a \<notin> set (cl_desired (ss_client (lw_session l))) \<and>
     in_sync (lw_session l)"

definition still_listed :: "string \<Rightarrow> string \<Rightarrow> live_op \<Rightarrow> bool" where
  \<comment> \<open>every board read in the meantime still lists the condition and the token\<close>
  "still_listed c a x =
     (case x of LRefresh wr st \<Rightarrow> go_has (sb_ByCondition st) c \<and> a \<in> set (sb_TokenIDs st) | _ \<Rightarrow> True)"

lemma set_fold_insert: "set (fold List.insert xs ys) = set xs \<union> set ys"
  by (induction xs arbitrary: ys) auto

lemma session_wanted:
  "in_sync s \<Longrightarrow> set (cl_desired (ss_client (session_step s (wr, p)))) = wanted_step (set (cl_desired (ss_client s))) p"
  "in_sync s \<Longrightarrow> in_sync (session_step s (wr, p))"
  using client_sync.commute [of s "(wr, p)"] client_sync.keep [of s "(wr, p)"] by simp_all

lemma resolve_event_dead: "dead_for c a l \<Longrightarrow> dead_for c a (resolve_event now wr ev l)"
  by (auto simp: dead_for_def resolve_event_def Let_def set_fold_insert session_wanted wanted_step_def)

lemma refresh_dead:
  "dead_for c a l \<Longrightarrow> go_has (sb_ByCondition st) c \<Longrightarrow> a \<in> set (sb_TokenIDs st) \<Longrightarrow> dead_for c a (refresh wr st l)"
  by (auto simp: dead_for_def refresh_def Let_def session_wanted wanted_step_def)

lemma signal_tick_frame:
  "lw_conds (snd (signal_tick tc f now ok l)) = lw_conds l"
  "lw_assets (snd (signal_tick tc f now ok l)) = lw_assets l"
  "lw_session (snd (signal_tick tc f now ok l)) = lw_session l"
  by (simp_all add: signal_tick_def Let_def split: option.split)

interpretation dead: machine live_step "dead_for c a" "still_listed c a" for c a
proof unfold_locales
  fix l x
  assume d: "dead_for c a l" and s: "still_listed c a x"
  show "dead_for c a (live_step l x)"
  proof (cases x)
    case (LEvent now wr ev)
    then show ?thesis using d resolve_event_dead by (auto simp: live_step_def OnEvent_def) (auto simp: dead_for_def)
  next
    case (LRefresh wr st)
    then show ?thesis using d s refresh_dead by (simp add: live_step_def still_listed_def)
  next
    case (LSession wr up)
    then show ?thesis using d
      by (cases up) (auto simp: live_step_def dead_for_def session_wanted wanted_step_def)
  next
    case (LTick tc f now ok)
    then show ?thesis using d by (simp add: live_step_def dead_for_def signal_tick_frame)
  qed
qed

lemma live_evals_mem:
  "s \<in> set (live_evals tc now g l prims) \<Longrightarrow>
   \<exists>p \<in> set prims. bm_ConditionID p \<notin> set (lw_conds l) \<and> ps_ConditionID s = bm_ConditionID p \<and>
     (\<exists>bk. Snapshot (bm_PrimaryTokenID p) (lw_store l) = Some bk \<and> ValidBook bk \<and>
       (Evaluate (Some (lw_emitter l)) now (tc_Strategy tc) (board_snap_of p) (book_snap_of bk) (tc_Rnd tc (bm_ConditionID p)) = Some s
        \<or> Candidate (Some (lw_emitter l)) now (tc_Strategy tc) (board_snap_of p) (book_snap_of bk) (tc_Rnd tc (bm_ConditionID p)) = Some s))"
proof -
  assume "s \<in> set (live_evals tc now g l prims)"
  then obtain p where p: "p \<in> set prims" "bm_ConditionID p \<notin> set (lw_conds l)"
    "evalPrimary (lw_emitter l) (lw_store l) p now (tc_Strategy tc) g (tc_Rnd tc (bm_ConditionID p)) = Some s"
    unfolding live_evals_def List.map_filter_def by (auto split: if_splits)
  then obtain bk where bk: "Snapshot (bm_PrimaryTokenID p) (lw_store l) = Some bk" "ValidBook bk"
    "Evaluate (Some (lw_emitter l)) now (tc_Strategy tc) (board_snap_of p) (book_snap_of bk) (tc_Rnd tc (bm_ConditionID p)) = Some s
     \<or> Candidate (Some (lw_emitter l)) now (tc_Strategy tc) (board_snap_of p) (book_snap_of bk) (tc_Rnd tc (bm_ConditionID p)) = Some s"
    by (auto simp: evalPrimary_def split: option.splits if_splits)
  have "ps_ConditionID s = bm_ConditionID p"
    using emit_facts(2) [OF bk(3)] by (simp add: board_snap_of_def)
  with p bk show ?thesis by blast
qed

lemma find_snoc: "find P (xs @ [x]) = (case find P xs of None \<Rightarrow> if P x then Some x else None | Some y \<Rightarrow> Some y)"
  by (induction xs) auto

text \<open>What \<open>SelectTaken\<close> picks from candidates with distinct conditions.\<close>

lemma by_condition_get:
  "distinct (map ps_ConditionID cs) \<Longrightarrow>
   go_get (by_condition (map Some cs)) c = find (\<lambda>s. ps_ConditionID s = c) cs"
proof (induction cs rule: rev_induct)
  case Nil
  show ?case by (simp add: by_condition_def)
next
  case (snoc s cs)
  then have "go_get (by_condition (map Some cs)) c = find (\<lambda>s. ps_ConditionID s = c) cs" by simp
  moreover have "find (\<lambda>s. ps_ConditionID s = c) cs = None" if "c = ps_ConditionID s"
    using snoc.prems that by (fastforce simp: find_None_iff image_iff)
  then have "find (\<lambda>s. ps_ConditionID s = c) (cs @ [s]) =
      (if c = ps_ConditionID s then Some s else find (\<lambda>s. ps_ConditionID s = c) cs)"
    by (simp add: find_snoc split: option.split)
  ultimately show ?case by (simp add: by_condition_def gmap.get_put)
qed

definition taken_mark :: "paper_signal \<Rightarrow> paper_signal" where
  "taken_mark s = s\<lparr>ps_Reason := go_put ''source'' (AStr ''board_alloc'') (ps_Reason s), ps_Event := EventOpen\<rparr>"

lemma taken_mark_sel [simp]:
  "ps_ConditionID (taken_mark s) = ps_ConditionID s" "ps_SizeUSD (taken_mark s) = ps_SizeUSD s"
  "ps_Side (taken_mark s) = ps_Side s" "ps_EdgeBps (taken_mark s) = ps_EdgeBps s"
  "ps_SpreadBps (taken_mark s) = ps_SpreadBps s" "NameFromPaper (Some (taken_mark s)) = NameFromPaper (Some s)"
  by (simp_all add: taken_mark_def NameFromPaper_def)

lemma find_distinct:
  "distinct (map f xs) \<Longrightarrow> x \<in> set xs \<Longrightarrow> find (\<lambda>y. f y = f x) xs = Some x"
  by (induction xs) auto

lemma SelectTaken_distinct:
  assumes d: "distinct (map ps_ConditionID cs)"
    and t: "set (ar_Taken res) \<subseteq> (\<lambda>s. NameFromPaper (Some s)) ` set cs"
  shows "map (\<lambda>s. NameFromPaper (Some s)) (SelectTaken (map Some cs) res) = ar_Taken res
    \<and> set (SelectTaken (map Some cs) res) \<subseteq> taken_mark ` set cs"
proof -
  define pick where "pick = (\<lambda>n :: name. map_option taken_mark (go_get (by_condition (map Some cs)) (n_ConditionID n)))"
  have sel: "SelectTaken (map Some cs) res = List.map_filter pick (ar_Taken res)"
    unfolding SelectTaken_def pick_def taken_mark_def [abs_def] ..
  have "\<exists>s \<in> set cs. pick n = Some (taken_mark s) \<and> NameFromPaper (Some s) = n" if n: "n \<in> set (ar_Taken res)" for n
  proof -
    obtain s where s: "s \<in> set cs" "n = NameFromPaper (Some s)" using t n by auto
    then have "pick n = Some (taken_mark s)"
      using find_distinct [OF d s(1)] by (simp add: pick_def by_condition_get [OF d] NameFromPaper_def)
    with s show ?thesis by blast
  qed
  then have "map (\<lambda>s. NameFromPaper (Some s)) (List.map_filter pick ns) = ns
      \<and> set (List.map_filter pick ns) \<subseteq> taken_mark ` set cs" if "set ns \<subseteq> set (ar_Taken res)" for ns
    using that by (induction ns) (fastforce simp: List.map_filter_simps)+
  then show ?thesis unfolding sel by simp
qed

lemma resolve_makes_dead:
  assumes "in_sync (lw_session l)" and "pe_Type ev = EventMarketResolved" and "pe_MarketID ev \<noteq> ''''"
    and "a \<in> set (resolved_tokens (lw_board l) (resolution_of ev))" and "a \<noteq> ''''"
  shows "dead_for (pe_MarketID ev) a (OnEvent now wr ev l)"
  using assms
  by (auto simp: dead_for_def OnEvent_def resolve_event_def Let_def set_fold_insert session_wanted
      wanted_step_def resolution_of_def)

lemma board_out_mem:
  assumes "s \<in> set (board_out tc now l prims)"
  shows "\<exists>c \<in> set (live_evals tc now False l prims). ps_ConditionID s = ps_ConditionID c"
proof -
  let ?cs = "live_evals tc now False l prims"
  have get: "go_get (by_condition cs') c = Some x \<Longrightarrow> Some x \<in> set cs' \<and> ps_ConditionID x = c" for cs' c x
  proof (induction cs' rule: rev_induct)
    case (snoc y ys)
    then show ?case by (cases y) (auto simp: by_condition_def gmap.get_put split: if_splits)
  qed (simp add: by_condition_def)
  from assms show ?thesis
    unfolding board_out_def Let_def SelectTaken_def List.map_filter_def
    by (fastforce dest: get)
qed

lemma signal_tick_alive:
  assumes "s \<in> set (fst (signal_tick tc f now ok l))"
  shows "ps_ConditionID s \<notin> set (lw_conds l)"
proof -
  obtain bm where bm: "lw_board l = Some bm" using assms by (cases "lw_board l") (auto simp: signal_tick_def)
  obtain g c where "c \<in> set (live_evals tc now g l (sb_Primaries bm))" "ps_ConditionID s = ps_ConditionID c"
  proof (cases f)
    case True
    with assms bm that [of s True] show ?thesis by (simp add: signal_tick_def Let_def)
  next
    case False
    with assms bm board_out_mem [of s tc now l "sb_Primaries bm"] that show ?thesis
      by (auto simp: signal_tick_def Let_def)
  qed
  then show ?thesis using live_evals_mem by metis
qed

lemma live_evals_distinct:
  "distinct (map bm_ConditionID prims) \<Longrightarrow> distinct (map ps_ConditionID (live_evals tc now g l prims))"
proof (induction prims)
  case (Cons p prims)
  have "ps_ConditionID s \<in> bm_ConditionID ` set prims" if "s \<in> set (live_evals tc now g l prims)" for s
    using live_evals_mem [OF that] by auto
  moreover have "ps_ConditionID s = bm_ConditionID p" if "live_evals tc now g l [p] = [s]" for s
    using live_evals_mem [of s tc now g l "[p]"] that by auto
  moreover have "live_evals tc now g l (p # prims) = live_evals tc now g l [p] @ live_evals tc now g l prims"
    by (simp add: live_evals_def List.map_filter_def)
  moreover have "length (live_evals tc now g l [p]) \<le> 1" by (simp add: live_evals_def List.map_filter_def)
  ultimately show ?case using Cons
    by (cases "live_evals tc now g l [p]") (auto simp: image_iff, metis)
qed (simp add: live_evals_def List.map_filter_def)

text \<open>A board tick: what it emits is a sub-list of the picks, which are the allocation's names.\<close>

lemma board_out_picks:
  assumes "distinct (map bm_ConditionID prims)"
  defines "res \<equiv> \<lambda>tc now l. Run \<lparr>ai_Names = map (\<lambda>s. NameFromPaper (Some s)) (live_evals tc now False l prims),
      ai_Risk = tc_Risk tc, ai_Worth = tc_Worth tc, ai_Open = []\<rparr>"
  shows "\<exists>picks. board_out tc now l prims =
      filter (\<lambda>s. \<not> BlockedByCooldown (Some (lw_emitter l)) (ps_ConditionID s) (ps_Side s) (ps_EdgeBps s) now) picks
    \<and> map (\<lambda>s. NameFromPaper (Some s)) picks = ar_Taken (res tc now l)
    \<and> set picks \<subseteq> taken_mark ` set (live_evals tc now False l prims)"
proof -
  let ?cs = "live_evals tc now False l prims"
  have "set (ar_Taken (res tc now l)) \<subseteq> (\<lambda>s. NameFromPaper (Some s)) ` set ?cs"
    unfolding res_def using Run_taken_subset
      [of "\<lparr>ai_Names = map (\<lambda>s. NameFromPaper (Some s)) ?cs, ai_Risk = tc_Risk tc, ai_Worth = tc_Worth tc, ai_Open = []\<rparr>"]
    by simp
  from SelectTaken_distinct [OF live_evals_distinct [OF assms(1)] this] show ?thesis
    by (intro exI [of _ "SelectTaken (map Some ?cs) (res tc now l)"]) (simp add: board_out_def Let_def res_def)
qed

lemma sum_list_filter_le:
  "\<forall>x \<in> set xs. 0 \<le> f x \<Longrightarrow> sum_list (map f (filter P xs)) \<le> sum_list (map f xs)" for f :: "'a \<Rightarrow> real"
  by (induction xs) auto

section \<open>Properties\<close>

text \<open>The subscribe set is exactly the first distinct non-empty tokens, up to the cap, of the three
  passes (primaries by rank, siblings, related legs): it never exceeds the cap, has no duplicates,
  and all primaries are in it whenever they fit.\<close>

theorem subscribe_set_capped:
  fixes rows :: "board_meta list" and n :: int and loadTokens :: "string list \<Rightarrow> (string \<times> string list) list"
  defines "board \<equiv> board_of_rows rows" and "sb \<equiv> LoadBoardSubscribeSet loadTokens rows n"
  shows "sb_TokenIDs sb = take (nat (if n \<le> 0 then 180 else n)) (first_occurrences
      (filter (\<lambda>t. t \<noteq> '''') (map fst (token_passes board (loadTokens (missing_legs board))))))
    \<and> distinct (sb_TokenIDs sb) \<and> int (length (sb_TokenIDs sb)) \<le> (if n \<le> 0 then 180 else n)
    \<and> (int (length (first_occurrences (map bm_PrimaryTokenID board))) \<le> (if n \<le> 0 then 180 else n) \<longrightarrow>
        bm_PrimaryTokenID ` set board \<subseteq> set (sb_TokenIDs sb))"
proof -
  let ?cap = "if n \<le> 0 then 180 else n"
  let ?ps = "map bm_PrimaryTokenID board"
  let ?ts = "filter (\<lambda>t. t \<noteq> '''') (map fst (token_passes board (loadTokens (missing_legs board))))"
  have toks: "sb_TokenIDs sb = take (nat ?cap) (first_occurrences ?ts)"
    unfolding sb_def LoadBoardSubscribeSet_def Let_def board_def by (subst addToken_fold) simp_all
  have "filter (\<lambda>t. t \<noteq> '''') ?ps = ?ps"
    by (rule filter_True) (simp add: board_def board_of_rows_def)
  then obtain r where "?ts = ?ps @ r" by (simp add: token_passes_def o_def)
  then have pre: "prefix (first_occurrences ?ps) (first_occurrences ?ts)"
    using first_occurrences_prefix [of ?ps r] by simp
  have "set ?ps \<subseteq> set (sb_TokenIDs sb)" if "int (length (first_occurrences ?ps)) \<le> ?cap"
  proof -
    have le: "length (first_occurrences ?ps) \<le> nat ?cap" using that by linarith
    from pre obtain q where "first_occurrences ?ts = first_occurrences ?ps @ q" by (auto simp: prefix_def)
    with le have "set (first_occurrences ?ps) \<subseteq> set (sb_TokenIDs sb)" unfolding toks by simp
    then show ?thesis by simp
  qed
  then show ?thesis unfolding toks by auto
qed

definition demo_meta :: board_meta where
  "demo_meta = (default_meta ''0xa'' [''t'', ''u''])\<lparr>bm_EdgeBps := Some 120\<rparr>"

theorem subscribe_set_capped_witness:
  "bm_PrimaryTokenID ` set (board_of_rows [demo_meta]) \<subseteq> set (sb_TokenIDs (LoadBoardSubscribeSet (\<lambda>c. []) [demo_meta] 1))"
proof -
  have "int (length (first_occurrences (map bm_PrimaryTokenID (board_of_rows [demo_meta])))) \<le> (if (1::int) \<le> 0 then 180 else 1)"
    by (simp add: board_of_rows_def first_occurrences_def clean_row_def Let_def)
  then show ?thesis using subscribe_set_capped [of "\<lambda>c. []" "[demo_meta]" 1] by blast
qed


definition demo_live :: listener_state where
  "demo_live = \<lparr>lw_store = run_events [(1, demo_event)] NewBookStore, lw_session = new_session,
     lw_queue = [], lw_conds = [], lw_assets = [], lw_board = Some \<lparr>sb_TokenIDs = [''t''], sb_ByToken = [],
       sb_ByCondition = [(''0xa'', demo_meta)], sb_Primaries = [demo_meta]\<rparr>,
     lw_emitter = NewEmitter DefaultGateConfig\<rparr>"

definition demo_resolved :: parsed_event where
  "demo_resolved = zero_event\<lparr>pe_Type := EventMarketResolved, pe_MarketID := ''0xa''\<rparr>"


text \<open>C3: A board tick stays within the risk budget: with ordinary numbers and one primary per
  condition, the signals of one whole-board tick are at most \<open>max_positions\<close> many, their sizes sum to at
  most \<open>max_gross_usd\<close> (tolerance 1e-9), their conditions are distinct and not resolved, each is worthy
  and none is inside its cooldown.\<close>

theorem board_tick_within_risk:
  fixes prims :: "board_meta list" and l :: listener_state and now :: gotime
  assumes "config_fin (tc_Risk tc)" and "gate_ok (em_cfg (lw_emitter l))" and "distinct (map bm_ConditionID prims)"
    and "\<forall>p \<in> set prims. board_num (board_snap_of p)"
    and "\<forall>t b. Snapshot t (lw_store l) = Some b \<longrightarrow> book_num (book_snap_of b)"
  defines "out \<equiv> board_out tc now l prims" and "cfg \<equiv> Normalize (tc_Risk tc)"
  shows "int (length out) \<le> rc_MaxPositions cfg
    \<and> sum_list (map (rval \<circ> ps_SizeUSD) out) \<le> rval (rc_MaxGrossUSD cfg) + 1 / 10 ^ 9
    \<and> distinct (map ps_ConditionID out)
    \<and> (\<forall>s \<in> set out. ps_ConditionID s \<notin> set (lw_conds l) \<and> unworthy (NameFromPaper (Some s)) (tc_Worth tc) = ''''
         \<and> \<not> BlockedByCooldown (Some (lw_emitter l)) (ps_ConditionID s) (ps_Side s) (ps_EdgeBps s) now)"
proof -
  let ?cs = "live_evals tc now False l prims" and ?nm = "\<lambda>s. NameFromPaper (Some s)"
  let ?inp = "\<lparr>ai_Names = map ?nm ?cs, ai_Risk = tc_Risk tc, ai_Worth = tc_Worth tc, ai_Open = []\<rparr>"
  let ?free = "\<lambda>s. \<not> BlockedByCooldown (Some (lw_emitter l)) (ps_ConditionID s) (ps_Side s) (ps_EdgeBps s) now"
  obtain picks where p: "out = filter ?free picks" "map ?nm picks = ar_Taken (Run ?inp)" "set picks \<subseteq> taken_mark ` set ?cs"
    using board_out_picks [OF assms(3)] unfolding out_def by blast
  have cand: "isfin (ps_SizeUSD s) \<and> 0 < rval (ps_SizeUSD s) \<and> ps_ConditionID s \<noteq> '''' \<and> ps_ConditionID s \<notin> set (lw_conds l)"
    if s: "s \<in> set ?cs" for s
  proof -
    from live_evals_mem [OF s] obtain q bk where q: "q \<in> set prims" "ps_ConditionID s \<notin> set (lw_conds l)"
      "Snapshot (bm_PrimaryTokenID q) (lw_store l) = Some bk"
      "Evaluate (Some (lw_emitter l)) now (tc_Strategy tc) (board_snap_of q) (book_snap_of bk) (tc_Rnd tc (bm_ConditionID q)) = Some s \<or>
       Candidate (Some (lw_emitter l)) now (tc_Strategy tc) (board_snap_of q) (book_snap_of bk) (tc_Rnd tc (bm_ConditionID q)) = Some s"
      by metis
    have "book_num (book_snap_of bk)" "board_num (board_snap_of q)" using q assms(4,5) by blast+
    from emitted_size [OF assms(2) this q(4)] emit_facts(3) [OF q(4)] q(2) show ?thesis by blast
  qed
  then have pick: "isfin (ps_SizeUSD s) \<and> 0 < rval (ps_SizeUSD s) \<and> ps_ConditionID s \<noteq> '''' \<and> ps_ConditionID s \<notin> set (lw_conds l)"
    if "s \<in> set picks" for s using that p(3) by auto
  have "\<forall>n \<in> set (ai_Names ?inp). isfin (n_SizeUSD n)" using cand by (auto simp: NameFromPaper_def)
  from Run_budget [of ?inp, OF _ this] assms(1)
  have b: "int (length (ar_Taken (Run ?inp))) \<le> rc_MaxPositions cfg"
    "sum_list (map (rval \<circ> implied_size (rc_MaxPositionUSD cfg)) (ar_Taken (Run ?inp))) \<le> rval (rc_MaxGrossUSD cfg) + 1 / 10 ^ 9"
    by (simp_all add: cfg_def)
  have len: "int (length out) \<le> rc_MaxPositions cfg"
  proof -
    have "length out \<le> length picks" unfolding p(1) by (rule length_filter_le)
    moreover have "length picks = length (ar_Taken (Run ?inp))" using arg_cong [OF p(2), of length] by (simp only: length_map)
    ultimately show ?thesis using b(1) by linarith
  qed
  have "implied_size (rc_MaxPositionUSD cfg) (?nm s) = ps_SizeUSD s" if "s \<in> set picks" for s
    using pick [OF that] by (auto simp: implied_size_def NameFromPaper_def isfin_order)
  then have "sum_list (map (rval \<circ> implied_size (rc_MaxPositionUSD cfg)) (map ?nm picks)) = sum_list (map (rval \<circ> ps_SizeUSD) picks)"
    by (intro arg_cong [of _ _ sum_list]) simp
  moreover have "sum_list (map (rval \<circ> ps_SizeUSD) out) \<le> sum_list (map (rval \<circ> ps_SizeUSD) picks)"
    unfolding p(1) by (rule sum_list_filter_le) (use pick in \<open>auto intro: less_imp_le\<close>)
  ultimately have gross: "sum_list (map (rval \<circ> ps_SizeUSD) out) \<le> rval (rc_MaxGrossUSD cfg) + 1 / 10 ^ 9"
    using b(2) unfolding p(2) by linarith
  have "map name_id (map ?nm picks) = map ps_ConditionID picks"
    using pick by (auto simp: name_id_def NameFromPaper_def Let_def)
  moreover have "distinct (map name_id (map ?nm picks))" using Run_taken_ids [of ?inp] unfolding p(2) [symmetric] .
  ultimately have "distinct (map ps_ConditionID picks)" by (simp only:)
  then have dist: "distinct (map ps_ConditionID out)" unfolding p(1) by (rule distinct_map_filter)
  have "unworthy (?nm s) (tc_Worth tc) = ''''" if "s \<in> set picks" for s
  proof -
    have "?nm s \<in> set (ar_Taken (Run ?inp))" using that unfolding p(2) [symmetric] by simp
    from Run_taken_worthy [OF this] show ?thesis by simp
  qed
  with len gross dist pick p(1) show ?thesis by auto
qed

theorem board_tick_within_risk_witness:
  "int (length (board_out \<lparr>tc_Strategy = ''s'', tc_Risk = DefaultConfig,
      tc_Worth = \<lparr>w_MinEdgeBps = 50, w_MaxSpreadBps = 0, w_RequireFV = False\<rparr>, tc_Rnd = (\<lambda>c. [])\<rparr>
      2 (demo_live\<lparr>lw_store := fst (Apply 1 (bba_demo (Fin (51 / 100))) NewBookStore)\<rparr>) [demo_meta])) \<le> rc_MaxPositions (Normalize DefaultConfig)"
proof -
  let ?tc = "\<lparr>tc_Strategy = ''s'', tc_Risk = DefaultConfig,
      tc_Worth = \<lparr>w_MinEdgeBps = 50, w_MaxSpreadBps = 0, w_RequireFV = False\<rparr>, tc_Rnd = (\<lambda>c. [])\<rparr>"
  let ?l = "demo_live\<lparr>lw_store := fst (Apply 1 (bba_demo (Fin (51 / 100))) NewBookStore)\<rparr>"
  have "config_fin (tc_Risk ?tc)" by (simp add: config_fin_Default)
  moreover have "gate_ok (em_cfg (lw_emitter ?l))" by (simp add: demo_live_def demo_cfg gate_ok_default)
  moreover have "distinct (map bm_ConditionID [demo_meta])" by simp
  moreover have "\<forall>p \<in> set [demo_meta]. board_num (board_snap_of p)"
    by (simp add: demo_meta_def default_meta_def board_num_def board_snap_of_def)
  moreover have "\<forall>t b. Snapshot t (lw_store ?l) = Some b \<longrightarrow> book_num (book_snap_of b)"
    by (simp add: Snapshot_def NewBookStore_def bba_demo_def demo_event_def Apply_def applyBBA_def event_types
      bba_event_def ensureLocked_def own_market_def set_bba_def stamp_def IsZero_def Mid_def f64_eval
      put_book_def book_num_def book_snap_of_def)
  ultimately show ?thesis using board_tick_within_risk [of ?tc ?l "[demo_meta]" 2] by simp
qed

end
