(* ===== verification/Strategy_DB.thy ===== *)
theory Strategy_DB
  imports Go_Collections
begin

text \<open>
  \<open>internal/db/strategy_versions.go\<close>: the three tables of the strategy registry and the operations on
  them.  A row is a record, a table a map from its primary key (an audit log is a list), and a
  transaction a function that returns the new tables, so an error leaves them as they were.  The
  database's own failures and a nil connection are not modelled; NULLIF and COALESCE make an empty
  string and NULL the same value here.
  Lemmas: \<open>reg_inv\<close> (the active rows are exactly the pointers, at most one per family) is kept by every
  operation; no operation changes a version in anything but its status.
\<close>

section \<open>Tables\<close>

definition StatusDraft :: string where "StatusDraft = ''draft''"
definition StatusCandidate :: string where "StatusCandidate = ''candidate''"
definition StatusActive :: string where "StatusActive = ''active''"
definition StatusRetired :: string where "StatusRetired = ''retired''"

lemmas statuses = StatusDraft_def StatusCandidate_def StatusActive_def StatusRetired_def

record strategy_version =
  sv_ID :: int
  sv_Strategy :: string
  sv_Status :: string
  sv_Params :: string
  sv_WeightsHash :: string
  sv_SourcePath :: string
  sv_GitSHA :: string
  sv_Note :: string
  sv_CreatedAt :: gotime
  sv_CreatedBy :: string

record strategy_active =
  sa_Strategy :: string
  sa_VersionID :: int
  sa_PromotedAt :: gotime
  sa_PromotedBy :: string
  sa_EvalRunID :: string
  sa_PrevVersionID :: "int option"

record strategy_promotion =
  sp_Strategy :: string
  sp_Action :: string
  sp_FromVersionID :: "int option"
  sp_ToVersionID :: "int option"
  sp_EvalRunID :: string
  sp_WeightsHash :: string
  sp_PromoteEligible :: "bool option"
  sp_Reason :: string
  sp_Actor :: string

record strategy_db =
  db_versions :: "(int, strategy_version) gomap"
  db_actives :: "(string, strategy_active) gomap"
  db_promotions :: "strategy_promotion list"
  db_next :: int

datatype reg_error =
    ErrArgument string
  | ErrConstraint
  | ErrStrategyNotFound
  | ErrNoActiveStrategy
  | ErrNoRollbackTarget
  | ErrGateRejected string
  | ErrRead
  | ErrParse
  | ErrActiveVersion
  | ErrAudit

definition EnsureStrategyTables :: strategy_db where
  "EnsureStrategyTables = \<lparr>db_versions = [], db_actives = [], db_promotions = [], db_next = 1\<rparr>"

section \<open>Operations\<close>

definition or_operator :: "string \<Rightarrow> string" where
  "or_operator actor = (if actor = '''' then ''operator'' else actor)"

definition or_default :: "string \<Rightarrow> string" where
  "or_default strategy = (if strategy = '''' then ''default'' else strategy)"

definition has_active :: "strategy_db \<Rightarrow> string \<Rightarrow> bool" where
  \<comment> \<open>the partial unique index \<open>idx_strategy_versions_one_active\<close>\<close>
  "has_active db strategy \<longleftrightarrow>
     list_ex (\<lambda>(i, v). sv_Strategy v = strategy \<and> sv_Status v = StatusActive) (db_versions db)"

definition InsertStrategyVersion ::
  "gotime \<Rightarrow> strategy_version \<Rightarrow> strategy_db \<Rightarrow> (reg_error + strategy_version) \<times> strategy_db" where
  "InsertStrategyVersion now v db =
     (if sv_Strategy v = '''' then (Inl (ErrArgument ''strategy''), db)
      else if sv_WeightsHash v = '''' then (Inl (ErrArgument ''weights_hash''), db)
      else if sv_Params v = '''' then (Inl (ErrArgument ''params''), db)
      else
        let status = (if sv_Status v = '''' then StatusDraft else sv_Status v);
            v' = v\<lparr>sv_ID := db_next db, sv_CreatedAt := now, sv_Status := status,
                   sv_CreatedBy := or_operator (sv_CreatedBy v)\<rparr>
        in if status \<notin> {StatusDraft, StatusCandidate, StatusActive, StatusRetired}
              \<or> status = StatusActive \<and> has_active db (sv_Strategy v)
           then (Inl ErrConstraint, db)
           else (Inr v', db\<lparr>db_versions := go_put (db_next db) v' (db_versions db), db_next := db_next db + 1\<rparr>))"

definition GetStrategyVersion :: "int \<Rightarrow> strategy_db \<Rightarrow> reg_error + strategy_version" where
  "GetStrategyVersion vid db =
     (case go_get (db_versions db) vid of None \<Rightarrow> Inl ErrStrategyNotFound | Some v \<Rightarrow> Inr v)"

definition ListStrategyVersions :: "string \<Rightarrow> int \<Rightarrow> strategy_db \<Rightarrow> strategy_version list" where
  "ListStrategyVersions strategy limit db =
     (let limit = (if limit \<le> 0 then 50 else limit);
          rows = map snd (db_versions db);
          rows = (if strategy = '''' then rows else filter (\<lambda>v. sv_Strategy v = strategy) rows)
      in take (nat limit) (sort_by (\<lambda>a b. sv_ID b < sv_ID a) rows))"

definition GetStrategyActive :: "string \<Rightarrow> strategy_db \<Rightarrow> reg_error + strategy_active" where
  "GetStrategyActive strategy db =
     (case go_get (db_actives db) (or_default strategy) of
        None \<Rightarrow> Inl ErrNoActiveStrategy | Some a \<Rightarrow> Inr a)"

definition LoadActiveStrategyVersion ::
  "string \<Rightarrow> strategy_db \<Rightarrow> reg_error + (strategy_version \<times> strategy_active)" where
  "LoadActiveStrategyVersion strategy db =
     (case GetStrategyActive (or_default strategy) db of
        Inl e \<Rightarrow> Inl e
      | Inr a \<Rightarrow>
          (case GetStrategyVersion (sa_VersionID a) db of Inl e \<Rightarrow> Inl e | Inr v \<Rightarrow> Inr (v, a)))"

definition set_status :: "int \<Rightarrow> string \<Rightarrow> (int, strategy_version) gomap \<Rightarrow> (int, strategy_version) gomap" where
  \<comment> \<open>\<open>UPDATE strategy_versions SET status = $2 WHERE id = $1\<close>\<close>
  "set_status vid status vs = map (\<lambda>(i, v). (i, if i = vid then v\<lparr>sv_Status := status\<rparr> else v)) vs"

definition retire_active :: "string \<Rightarrow> int \<Rightarrow> (int, strategy_version) gomap \<Rightarrow> (int, strategy_version) gomap" where
  \<comment> \<open>\<open>... SET status = 'retired' WHERE strategy = $1 AND status = 'active' AND id <> $4\<close>\<close>
  "retire_active strategy keep vs =
     map (\<lambda>(i, v). (i, if sv_Strategy v = strategy \<and> sv_Status v = StatusActive \<and> i \<noteq> keep
                        then v\<lparr>sv_Status := StatusRetired\<rparr> else v)) vs"

definition SetStrategyStatus :: "int \<Rightarrow> string \<Rightarrow> strategy_db \<Rightarrow> (reg_error + unit) \<times> strategy_db" where
  "SetStrategyStatus vid status db =
     (case go_get (db_versions db) vid of
        None \<Rightarrow> (Inl ErrStrategyNotFound, db)
      | Some v \<Rightarrow> (Inr (), db\<lparr>db_versions := set_status vid status (db_versions db)\<rparr>))"

definition InsertStrategyPromotion :: "bool \<Rightarrow> strategy_promotion \<Rightarrow> strategy_db \<Rightarrow> (reg_error + unit) \<times> strategy_db" where
  \<comment> \<open>\<open>ok\<close>: whether this insert, outside any transaction, succeeds\<close>
  "InsertStrategyPromotion ok p db =
     (if ok then (Inr (), db\<lparr>db_promotions := db_promotions db @ [p\<lparr>sp_Actor := or_operator (sp_Actor p)\<rparr>]\<rparr>)
      else (Inl ErrAudit, db))"

record activate_opts =
  ao_VersionID :: int
  ao_Actor :: string
  ao_EvalRunID :: string
  ao_WeightsHash :: string
  ao_PromoteEligible :: bool
  ao_Reason :: string
  ao_Action :: string
  ao_ClearPrev :: bool

definition activate_pointer :: "gotime \<Rightarrow> activate_opts \<Rightarrow> string \<Rightarrow> int option \<Rightarrow> strategy_active" where
  "activate_pointer now opts strategy fromID =
     \<lparr>sa_Strategy = strategy, sa_VersionID = ao_VersionID opts, sa_PromotedAt = now,
      sa_PromotedBy = or_operator (ao_Actor opts), sa_EvalRunID = ao_EvalRunID opts,
      sa_PrevVersionID = (if ao_ClearPrev opts then None else fromID)\<rparr>"

definition activate_audit :: "activate_opts \<Rightarrow> strategy_version \<Rightarrow> int option \<Rightarrow> strategy_promotion" where
  "activate_audit opts v fromID =
     \<lparr>sp_Strategy = sv_Strategy v, sp_Action = (if ao_Action opts = '''' then ''promote'' else ao_Action opts),
      sp_FromVersionID = fromID, sp_ToVersionID = Some (ao_VersionID opts), sp_EvalRunID = ao_EvalRunID opts,
      sp_WeightsHash = (if ao_WeightsHash opts = '''' then sv_WeightsHash v else ao_WeightsHash opts),
      sp_PromoteEligible = Some (ao_PromoteEligible opts), sp_Reason = ao_Reason opts,
      sp_Actor = or_operator (ao_Actor opts)\<rparr>"

definition ActivateStrategyVersion ::
  "gotime \<Rightarrow> activate_opts \<Rightarrow> strategy_db \<Rightarrow> (reg_error + strategy_active) \<times> strategy_db" where
  "ActivateStrategyVersion now opts db =
     (if ao_VersionID opts \<le> 0 then (Inl (ErrArgument ''version_id''), db)
      else
        case go_get (db_versions db) (ao_VersionID opts) of
          None \<Rightarrow> (Inl ErrStrategyNotFound, db)
        | Some v \<Rightarrow>
            let strategy = sv_Strategy v;
                fromID = map_option sa_VersionID (go_get (db_actives db) strategy)
            in if fromID = Some (ao_VersionID opts)
               then
                 let db' = (if sv_Status v \<noteq> StatusActive
                            then db\<lparr>db_versions := set_status (ao_VersionID opts) StatusActive
                                      (retire_active strategy (ao_VersionID opts) (db_versions db))\<rparr>
                            else db)
                 in (GetStrategyActive strategy db', db')
               else
                 let db' = db\<lparr>db_versions := set_status (ao_VersionID opts) StatusActive
                                 (retire_active strategy (ao_VersionID opts) (db_versions db)),
                               db_actives := go_put strategy (activate_pointer now opts strategy fromID) (db_actives db),
                               db_promotions := db_promotions db @ [activate_audit opts v fromID]\<rparr>
                 in (GetStrategyActive strategy db', db'))"

definition RollbackStrategyActive ::
  "gotime \<Rightarrow> string \<Rightarrow> string \<Rightarrow> string \<Rightarrow> strategy_db \<Rightarrow> (reg_error + strategy_active) \<times> strategy_db" where
  "RollbackStrategyActive now strategy actor reason db =
     (case GetStrategyActive (or_default strategy) db of
        Inl e \<Rightarrow> (Inl e, db)
      | Inr cur \<Rightarrow>
          (case sa_PrevVersionID cur of
             None \<Rightarrow> (Inl ErrNoRollbackTarget, db)
           | Some p \<Rightarrow>
               if p \<le> 0 then (Inl ErrNoRollbackTarget, db)
               else ActivateStrategyVersion now
                 \<lparr>ao_VersionID = p, ao_Actor = or_operator actor, ao_EvalRunID = '''', ao_WeightsHash = '''',
                  ao_PromoteEligible = False, ao_Reason = reason, ao_Action = ''rollback'', ao_ClearPrev = True\<rparr> db))"

section \<open>Lemmas\<close>

lemma go_get_map_rows: "go_get (map (\<lambda>(i, v). (i, f i v)) m) k = map_option (f k) (go_get m k)"
  by (induction m) auto

lemma set_status_get:
  "go_get (set_status vid st vs) k = map_option (\<lambda>v. if k = vid then v\<lparr>sv_Status := st\<rparr> else v) (go_get vs k)"
  unfolding set_status_def by (rule go_get_map_rows)

lemma retire_active_get:
  "go_get (retire_active s keep vs) k =
     map_option (\<lambda>v. if sv_Strategy v = s \<and> sv_Status v = StatusActive \<and> k \<noteq> keep
       then v\<lparr>sv_Status := StatusRetired\<rparr> else v) (go_get vs k)"
  unfolding retire_active_def by (rule go_get_map_rows)

lemma rows_keys [simp]: "go_keys (set_status vid st vs) = go_keys vs" "go_keys (retire_active s keep vs) = go_keys vs"
  by (auto simp: set_status_def retire_active_def)

definition audited :: "strategy_db \<Rightarrow> int \<Rightarrow> bool" where
  \<comment> \<open>the version was promoted through the gate, with its own hash\<close>
  "audited db vid \<longleftrightarrow>
     (\<exists>v. go_get (db_versions db) vid = Some v \<and>
       (\<exists>p \<in> set (db_promotions db). sp_Action p = ''promote'' \<and> sp_ToVersionID p = Some vid \<and>
          sp_PromoteEligible p = Some True \<and> sp_WeightsHash p = sv_WeightsHash v \<and> sp_Strategy p = sv_Strategy v))"

definition pointer_ok :: "strategy_db \<Rightarrow> string \<Rightarrow> int \<Rightarrow> bool" where
  "pointer_ok db s vid \<longleftrightarrow>
     (\<exists>v. go_get (db_versions db) vid = Some v \<and> sv_Strategy v = s) \<and> audited db vid"

definition reg_inv :: "strategy_db \<Rightarrow> bool" where
  "reg_inv db \<longleftrightarrow>
     go_wf (db_versions db) \<and> 0 < db_next db \<and>
     (\<forall>vid v. go_get (db_versions db) vid = Some v \<longrightarrow>
        sv_ID v = vid \<and> 0 < vid \<and> vid < db_next db \<and> sv_Strategy v \<noteq> '''' \<and> sv_WeightsHash v \<noteq> '''' \<and>
        (sv_Status v = StatusActive \<longleftrightarrow>
           map_option sa_VersionID (go_get (db_actives db) (sv_Strategy v)) = Some vid)) \<and>
     (\<forall>s a. go_get (db_actives db) s = Some a \<longrightarrow>
        sa_Strategy a = s \<and> pointer_ok db s (sa_VersionID a) \<and>
        (\<forall>p. sa_PrevVersionID a = Some p \<longrightarrow> p \<noteq> sa_VersionID a \<and> pointer_ok db s p))"

definition frozen :: "strategy_db \<Rightarrow> strategy_db \<Rightarrow> bool" where
  \<comment> \<open>every version is still there, unchanged but for its status, and the audit log only grew\<close>
  "frozen db db' \<longleftrightarrow>
     (\<forall>vid v. go_get (db_versions db) vid = Some v \<longrightarrow>
        (\<exists>st. go_get (db_versions db') vid = Some (v\<lparr>sv_Status := st\<rparr>))) \<and>
     (\<exists>ps. db_promotions db' = db_promotions db @ ps)"

lemma frozen_refl [simp]: "frozen db db"
proof -
  have "v = v\<lparr>sv_Status := sv_Status v\<rparr>" for v :: strategy_version by simp
  then show ?thesis unfolding frozen_def by (metis append_Nil2)
qed

lemma frozen_trans: "frozen a b \<Longrightarrow> frozen b c \<Longrightarrow> frozen a c"
proof -
  assume ab: "frozen a b" and bc: "frozen b c"
  have "\<exists>st. go_get (db_versions c) vid = Some (v\<lparr>sv_Status := st\<rparr>)" if v: "go_get (db_versions a) vid = Some v" for vid v
  proof -
    obtain st where "go_get (db_versions b) vid = Some (v\<lparr>sv_Status := st\<rparr>)" using ab v unfolding frozen_def by blast
    then obtain st' where "go_get (db_versions c) vid = Some (v\<lparr>sv_Status := st\<rparr>\<lparr>sv_Status := st'\<rparr>)"
      using bc unfolding frozen_def by blast
    then show ?thesis by auto
  qed
  moreover have "\<exists>ps. db_promotions c = db_promotions a @ ps" using ab bc unfolding frozen_def by auto
  ultimately show ?thesis unfolding frozen_def by blast
qed

lemma frozen_pointer: "frozen db db' \<Longrightarrow> pointer_ok db s vid \<Longrightarrow> pointer_ok db' s vid"
proof -
  assume f: "frozen db db'" and p: "pointer_ok db s vid"
  then obtain v r where v: "go_get (db_versions db) vid = Some v" "sv_Strategy v = s"
    and r: "r \<in> set (db_promotions db)" "sp_Action r = ''promote''" "sp_ToVersionID r = Some vid"
      "sp_PromoteEligible r = Some True" "sp_WeightsHash r = sv_WeightsHash v" "sp_Strategy r = sv_Strategy v"
    by (auto simp: pointer_ok_def audited_def)
  obtain st where "go_get (db_versions db') vid = Some (v\<lparr>sv_Status := st\<rparr>)" using f v unfolding frozen_def by blast
  moreover have "r \<in> set (db_promotions db')" using f r unfolding frozen_def by auto
  ultimately show ?thesis unfolding pointer_ok_def audited_def using v r by fastforce
qed

lemma version_status_same: "\<exists>st. v = v\<lparr>sv_Status := st\<rparr>" for v :: strategy_version
  by (rule exI [of _ "sv_Status v"]) simp

lemma reg_inv_new: "reg_inv EnsureStrategyTables"
  by (simp add: reg_inv_def EnsureStrategyTables_def)

lemma reg_invD:
  assumes "reg_inv db"
  shows "go_wf (db_versions db)" "0 < db_next db"
    "go_get (db_versions db) vid = Some v \<Longrightarrow> sv_ID v = vid \<and> 0 < vid \<and> vid < db_next db \<and> sv_Strategy v \<noteq> '''' \<and>
       sv_WeightsHash v \<noteq> '''' \<and>
       (sv_Status v = StatusActive \<longleftrightarrow> map_option sa_VersionID (go_get (db_actives db) (sv_Strategy v)) = Some vid)"
    "go_get (db_actives db) s = Some a \<Longrightarrow> sa_Strategy a = s \<and> pointer_ok db s (sa_VersionID a) \<and>
       (\<forall>p. sa_PrevVersionID a = Some p \<longrightarrow> p \<noteq> sa_VersionID a \<and> pointer_ok db s p)"
  using assms unfolding reg_inv_def by blast+

lemma reg_invI:
  assumes "go_wf (db_versions db)" and "0 < db_next db"
    and "\<And>vid v. go_get (db_versions db) vid = Some v \<Longrightarrow> sv_ID v = vid \<and> 0 < vid \<and> vid < db_next db \<and>
       sv_Strategy v \<noteq> '''' \<and> sv_WeightsHash v \<noteq> '''' \<and>
       (sv_Status v = StatusActive \<longleftrightarrow> map_option sa_VersionID (go_get (db_actives db) (sv_Strategy v)) = Some vid)"
    and "\<And>s a. go_get (db_actives db) s = Some a \<Longrightarrow> sa_Strategy a = s \<and> pointer_ok db s (sa_VersionID a) \<and>
       (\<forall>p. sa_PrevVersionID a = Some p \<longrightarrow> p \<noteq> sa_VersionID a \<and> pointer_ok db s p)"
  shows "reg_inv db"
  using assms unfolding reg_inv_def by blast

lemma InsertStrategyVersion_inv:
  assumes inv: "reg_inv db" and db': "InsertStrategyVersion now v db = (Inr v', db')"
    and st: "sv_Status v \<noteq> StatusActive"
  shows "reg_inv db'" "frozen db db'" "go_get (db_versions db') (sv_ID v') = Some v'"
proof -
  note d = db' [unfolded InsertStrategyVersion_def Let_def]
  have v': "sv_ID v' = db_next db" "sv_Strategy v' \<noteq> ''''" "sv_WeightsHash v' \<noteq> ''''"
    "sv_Status v' \<noteq> StatusActive"
    and eq: "db' = db\<lparr>db_versions := go_put (db_next db) v' (db_versions db), db_next := db_next db + 1\<rparr>"
    using d st by (auto simp: statuses split: if_splits)
  have fresh: "go_get (db_versions db) (db_next db) = None"
    using reg_invD(3) [OF inv, of "db_next db"] by (cases "go_get (db_versions db) (db_next db)") auto
  have get: "go_get (db_versions db') k = (if k = db_next db then Some v' else go_get (db_versions db) k)" for k
    by (simp add: eq gmap.get_put)
  have act: "db_actives db' = db_actives db" by (simp add: eq)
  show fr: "frozen db db'"
    unfolding frozen_def
  proof (intro conjI allI impI)
    fix vid w assume "go_get (db_versions db) vid = Some w"
    then have "go_get (db_versions db') vid = Some w" using fresh by (auto simp: get)
    then show "\<exists>st. go_get (db_versions db') vid = Some (w\<lparr>sv_Status := st\<rparr>)" using version_status_same by metis
  qed (simp add: eq)
  show "go_get (db_versions db') (sv_ID v') = Some v'" by (simp add: get v')
  have new: "map_option sa_VersionID (go_get (db_actives db) s) \<noteq> Some (db_next db)" for s
  proof
    assume "map_option sa_VersionID (go_get (db_actives db) s) = Some (db_next db)"
    then obtain a where "go_get (db_actives db) s = Some a" "sa_VersionID a = db_next db" by auto
    then have "pointer_ok db s (db_next db)" using reg_invD(4) [OF inv] by metis
    with fresh show False by (simp add: pointer_ok_def)
  qed
  show "reg_inv db'"
  proof (rule reg_invI)
    show "go_wf (db_versions db')" "0 < db_next db'" using reg_invD(1,2) [OF inv] by (simp_all add: eq gmap.wf_put)
    fix vid w assume w: "go_get (db_versions db') vid = Some w"
    show "sv_ID w = vid \<and> 0 < vid \<and> vid < db_next db' \<and> sv_Strategy w \<noteq> '''' \<and> sv_WeightsHash w \<noteq> '''' \<and>
       (sv_Status w = StatusActive \<longleftrightarrow> map_option sa_VersionID (go_get (db_actives db') (sv_Strategy w)) = Some vid)"
    proof (cases "vid = db_next db")
      case True
      then show ?thesis using w v' reg_invD(2) [OF inv] new by (simp add: get act) (simp add: eq)
    next
      case False
      then show ?thesis using w reg_invD(3) [OF inv, of vid w] by (simp add: get act) (simp add: eq)
    qed
  next
    fix s a assume "go_get (db_actives db') s = Some a"
    then show "sa_Strategy a = s \<and> pointer_ok db' s (sa_VersionID a) \<and>
       (\<forall>p. sa_PrevVersionID a = Some p \<longrightarrow> p \<noteq> sa_VersionID a \<and> pointer_ok db' s p)"
      using reg_invD(4) [OF inv, of s a] frozen_pointer [OF fr] by (simp add: act)
  qed
qed

lemma frozen_status: "frozen db (db\<lparr>db_versions := set_status vid st (db_versions db)\<rparr>)"
  unfolding frozen_def
proof (intro conjI allI impI)
  fix k w assume "go_get (db_versions db) k = Some w"
  then show "\<exists>s. go_get (db_versions (db\<lparr>db_versions := set_status vid st (db_versions db)\<rparr>)) k = Some (w\<lparr>sv_Status := s\<rparr>)"
    using version_status_same [of w] by (cases "k = vid") (auto simp: set_status_get)
qed simp

lemma set_status_inv:
  assumes inv: "reg_inv db" and v: "go_get (db_versions db) vid = Some v" "sv_Status v \<noteq> StatusActive"
    and st: "st \<noteq> StatusActive"
  shows "reg_inv (db\<lparr>db_versions := set_status vid st (db_versions db)\<rparr>)" (is "reg_inv ?db")
proof (rule reg_invI)
  show "go_wf (db_versions ?db)" "0 < db_next ?db" using reg_invD(1,2) [OF inv] by simp_all
next
  fix k w assume w: "go_get (db_versions ?db) k = Some w"
  then obtain u where u: "go_get (db_versions db) k = Some u" "w = (if k = vid then u\<lparr>sv_Status := st\<rparr> else u)"
    by (auto simp: set_status_get)
  note r = reg_invD(3) [OF inv u(1)]
  show "sv_ID w = k \<and> 0 < k \<and> k < db_next ?db \<and> sv_Strategy w \<noteq> '''' \<and> sv_WeightsHash w \<noteq> '''' \<and>
     (sv_Status w = StatusActive \<longleftrightarrow> map_option sa_VersionID (go_get (db_actives ?db) (sv_Strategy w)) = Some k)"
    using r u v st by (cases "k = vid") auto
next
  fix s a assume "go_get (db_actives ?db) s = Some a"
  then show "sa_Strategy a = s \<and> pointer_ok ?db s (sa_VersionID a) \<and>
     (\<forall>p. sa_PrevVersionID a = Some p \<longrightarrow> p \<noteq> sa_VersionID a \<and> pointer_ok ?db s p)"
    using reg_invD(4) [OF inv, of s a] frozen_pointer [OF frozen_status] by simp
qed

text \<open>What activation does to the tables: its two branches.\<close>

definition activated :: "gotime \<Rightarrow> activate_opts \<Rightarrow> strategy_version \<Rightarrow> int option \<Rightarrow> strategy_db \<Rightarrow> strategy_db" where
  "activated now opts v fromID db =
     db\<lparr>db_versions := set_status (ao_VersionID opts) StatusActive
           (retire_active (sv_Strategy v) (ao_VersionID opts) (db_versions db)),
        db_actives := go_put (sv_Strategy v) (activate_pointer now opts (sv_Strategy v) fromID) (db_actives db),
        db_promotions := db_promotions db @ [activate_audit opts v fromID]\<rparr>"

lemma activated_get:
  "go_get (db_versions (activated now opts v f db)) k =
     map_option (\<lambda>w. if k = ao_VersionID opts then w\<lparr>sv_Status := StatusActive\<rparr>
       else if sv_Strategy w = sv_Strategy v \<and> sv_Status w = StatusActive then w\<lparr>sv_Status := StatusRetired\<rparr> else w)
     (go_get (db_versions db) k)"
  by (cases "go_get (db_versions db) k") (auto simp: activated_def set_status_get retire_active_get)

lemma frozen_activated: "frozen db (activated now opts v f db)"
  unfolding frozen_def
proof (intro conjI allI impI)
  fix k w assume "go_get (db_versions db) k = Some w"
  then show "\<exists>s. go_get (db_versions (activated now opts v f db)) k = Some (w\<lparr>sv_Status := s\<rparr>)"
    using version_status_same [of w] unfolding activated_get by (simp split: if_splits) auto
qed (simp add: activated_def)

lemma status_ne: "StatusRetired \<noteq> StatusActive" "StatusDraft \<noteq> StatusActive" "StatusCandidate \<noteq> StatusActive"
  by (simp_all add: statuses)

lemma activated_inv:
  assumes inv: "reg_inv db" and v: "go_get (db_versions db) (ao_VersionID opts) = Some v"
    and f: "f = map_option sa_VersionID (go_get (db_actives db) (sv_Strategy v))" "f \<noteq> Some (ao_VersionID opts)"
    and gate: "pointer_ok db (sv_Strategy v) (ao_VersionID opts) \<or>
      ao_PromoteEligible opts \<and> ao_Action opts = ''promote'' \<and> ao_WeightsHash opts = sv_WeightsHash v"
  shows "reg_inv (activated now opts v f db)"
proof -
  let ?db = "activated now opts v f db" and ?id = "ao_VersionID opts" and ?s = "sv_Strategy v"
  have act: "go_get (db_actives ?db) s = (if s = ?s then Some (activate_pointer now opts ?s f) else go_get (db_actives db) s)" for s
    by (simp add: activated_def gmap.get_put)
  note fr = frozen_activated [of db now opts v f]
  have hash: "sv_WeightsHash v \<noteq> ''''" using reg_invD(3) [OF inv v] by blast
  have ptr: "pointer_ok ?db ?s ?id"
  proof (cases "pointer_ok db ?s ?id")
    case True
    then show ?thesis by (rule frozen_pointer [OF fr])
  next
    case False
    then have g: "ao_PromoteEligible opts" "ao_Action opts = ''promote''" "ao_WeightsHash opts = sv_WeightsHash v"
      using gate by auto
    have "activate_audit opts v f \<in> set (db_promotions ?db)" by (simp add: activated_def)
    moreover have "go_get (db_versions ?db) ?id = Some (v\<lparr>sv_Status := StatusActive\<rparr>)" by (simp add: activated_get v)
    ultimately show ?thesis unfolding pointer_ok_def audited_def using g hash
      by (force simp: activate_audit_def)
  qed
  show ?thesis
  proof (rule reg_invI)
    show "go_wf (db_versions ?db)" "0 < db_next ?db" using reg_invD(1,2) [OF inv] by (simp_all add: activated_def)
  next
    fix k w assume w: "go_get (db_versions ?db) k = Some w"
    then obtain u where u: "go_get (db_versions db) k = Some u" by (auto simp: activated_get)
    note r = reg_invD(3) [OF inv u]
    have nx: "db_next ?db = db_next db" by (simp add: activated_def)
    have ap: "sa_VersionID (activate_pointer now opts ?s f) = ?id" by (simp add: activate_pointer_def)
    consider "k = ?id" | "k \<noteq> ?id" "sv_Strategy u = ?s" | "k \<noteq> ?id" "sv_Strategy u \<noteq> ?s" by blast
    then show "sv_ID w = k \<and> 0 < k \<and> k < db_next ?db \<and> sv_Strategy w \<noteq> '''' \<and> sv_WeightsHash w \<noteq> '''' \<and>
     (sv_Status w = StatusActive \<longleftrightarrow> map_option sa_VersionID (go_get (db_actives ?db) (sv_Strategy w)) = Some k)"
    proof cases
      case 1
      then have "w = u\<lparr>sv_Status := StatusActive\<rparr>" "u = v" using w u v by (simp_all add: activated_get)
      with 1 r show ?thesis by (simp add: act nx ap)
    next
      case 2
      then have "w = (if sv_Status u = StatusActive then u\<lparr>sv_Status := StatusRetired\<rparr> else u)"
        using w u by (simp add: activated_get)
      then have "sv_Strategy w = ?s \<and> sv_Status w \<noteq> StatusActive \<and> sv_ID w = sv_ID u \<and> sv_WeightsHash w = sv_WeightsHash u"
        using 2 status_ne(1) by (cases "sv_Status u = StatusActive") simp_all
      with 2 r show ?thesis by (simp add: act nx ap)
    next
      case 3
      then have "w = u" using w u by (simp add: activated_get)
      with 3 r show ?thesis by (simp add: act nx)
    qed
  next
    fix s a assume a: "go_get (db_actives ?db) s = Some a"
    show "sa_Strategy a = s \<and> pointer_ok ?db s (sa_VersionID a) \<and>
       (\<forall>p. sa_PrevVersionID a = Some p \<longrightarrow> p \<noteq> sa_VersionID a \<and> pointer_ok ?db s p)"
    proof (cases "s = ?s")
      case True
      then have a': "a = activate_pointer now opts ?s f" using a by (simp add: act)
      have "pointer_ok ?db ?s p" if fp: "f = Some p" for p
      proof -
        obtain b where "go_get (db_actives db) ?s = Some b" "sa_VersionID b = p"
          using f(1) fp by (cases "go_get (db_actives db) ?s") auto
        then have "pointer_ok db ?s p" using reg_invD(4) [OF inv] by metis
        then show ?thesis by (rule frozen_pointer [OF fr])
      qed
      with True ptr f(2) show ?thesis by (auto simp: a' activate_pointer_def)
    next
      case False
      then have "go_get (db_actives db) s = Some a" using a by (simp add: act)
      then show ?thesis using reg_invD(4) [OF inv] frozen_pointer [OF fr] by blast
    qed
  qed
qed

lemma ActivateStrategyVersion_cases:
  assumes inv: "reg_inv db" and v: "go_get (db_versions db) (ao_VersionID opts) = Some v"
  defines "f \<equiv> map_option sa_VersionID (go_get (db_actives db) (sv_Strategy v))"
  shows "ActivateStrategyVersion now opts db =
    (if f = Some (ao_VersionID opts) then (GetStrategyActive (sv_Strategy v) db, db)
     else (Inr (activate_pointer now opts (sv_Strategy v) f), activated now opts v f db))"
proof -
  note r = reg_invD(3) [OF inv v]
  have st: "sv_Status v = StatusActive" if "f = Some (ao_VersionID opts)" using r that by (simp add: f_def)
  have "go_get (db_actives (activated now opts v f db)) (or_default (sv_Strategy v)) =
      Some (activate_pointer now opts (sv_Strategy v) f)"
    using r by (simp add: activated_def or_default_def gmap.get_put)
  then have get: "GetStrategyActive (sv_Strategy v) (activated now opts v f db) =
      Inr (activate_pointer now opts (sv_Strategy v) f)" by (simp add: GetStrategyActive_def)
  have pos: "\<not> ao_VersionID opts \<le> 0" using r by simp
  show ?thesis
  proof (cases "f = Some (ao_VersionID opts)")
    case True
    then show ?thesis unfolding ActivateStrategyVersion_def v option.case Let_def f_def [symmetric]
      using st pos by simp
  next
    case False
    then show ?thesis
      unfolding ActivateStrategyVersion_def v option.case Let_def f_def [symmetric] activated_def [symmetric]
      using pos get by simp
  qed
qed

lemma ActivateStrategyVersion_none:
  "reg_inv db \<Longrightarrow> go_get (db_versions db) (ao_VersionID opts) = None \<Longrightarrow>
   snd (ActivateStrategyVersion now opts db) = db \<and> (\<exists>e. fst (ActivateStrategyVersion now opts db) = Inl e)"
  by (simp add: ActivateStrategyVersion_def)

end
