(* ===== verification/Edge_Fair.thy ===== *)
theory Edge_Fair
  imports Edge_Cost
begin

text \<open>
  \<open>internal/edge\<close>: the feature vector (\<open>features.go\<close>), the weights (\<open>weights.go\<close>) and the fair-value
  providers (\<open>fv.go\<close>, \<open>fv_negrisk.go\<close>, \<open>fv_external.go\<close>, \<open>negrisk.go\<close>).  What the chain relies on of
  a provider, a quote inside the clamp with a confidence in [0,1], is the locale \<open>fv_provider\<close>,
  interpreted on both providers, on the dispatch over them and on the chain itself.
  Reading the weights from YAML is not modelled.
\<close>

section \<open>Features and weights\<close>

record feature_vector =
  fv_ConditionID :: string
  fv_TokenID :: string
  fv_BestBid :: f64
  fv_BestAsk :: f64
  fv_Mid :: f64
  fv_SpreadBps :: f64
  fv_Imbalance :: f64
  fv_BidDepth :: f64
  fv_AskDepth :: f64
  fv_BookAgeSec :: f64
  fv_AbsRet1m :: f64
  fv_AbsRet5m :: f64
  fv_AbsRet1h :: f64
  fv_OneDayAbs :: f64
  fv_OI :: f64
  fv_DOI1h :: f64
  fv_DOI24h :: f64
  fv_TTRHours :: f64
  fv_AgeDays :: f64
  fv_Volume24hr :: f64
  fv_VolumeProxy :: f64
  fv_BuyRatio5m :: f64
  fv_NegRisk :: bool
  fv_NegRiskGroupID :: string
  fv_NegRiskResidualBps :: f64
  fv_NegRiskIncomplete :: bool
  fv_FeaturesAsOfUnix :: int
  fv_FeatureAgeSec :: f64
  fv_MissingBook :: bool
  fv_ThinBook :: bool
  fv_StaleFeatures :: bool

record weights =
  wt_Name :: string
  wt_WVol :: f64
  wt_WOI :: f64
  wt_WImbalance :: f64
  wt_WTTR :: f64
  wt_WNegRisk :: f64
  wt_WFlow :: f64
  wt_WActivity :: f64
  wt_DefaultTakerFeeBps :: f64
  wt_ImpactCapBps :: f64
  wt_ImpactCoeff :: f64
  wt_ProbeSizeUSD :: f64
  wt_ModelBufferBps :: f64
  wt_MaxFeatureAgeSec :: f64
  wt_MaxBookAgeSec :: f64
  wt_WideSpreadBps :: f64
  wt_MinDepthShares :: f64
  wt_DropMissingBook :: bool
  wt_StalePenaltyBps :: f64
  wt_VolScale :: f64
  wt_VolCapBps :: f64
  wt_OIScale :: f64
  wt_OICapBps :: f64
  wt_FVEnabled :: bool
  wt_FVMinConfidence :: f64
  wt_FVMinOtherLegs :: int
  wt_DropExtremePrice :: bool
  wt_ExtremeLo :: f64
  wt_ExtremeHi :: f64
  wt_GroupExpandCap :: int

definition DefaultWeights :: weights where
  "DefaultWeights = \<lparr>
     wt_Name = ''default'', wt_WVol = Fin (30 / 100), wt_WOI = Fin (15 / 100),
     wt_WImbalance = Fin (10 / 100), wt_WTTR = Fin (15 / 100), wt_WNegRisk = Fin (15 / 100),
     wt_WFlow = Fin (5 / 100), wt_WActivity = Fin (10 / 100), wt_DefaultTakerFeeBps = 0,
     wt_ImpactCapBps = 25, wt_ImpactCoeff = 50, wt_ProbeSizeUSD = 100, wt_ModelBufferBps = 20,
     wt_MaxFeatureAgeSec = 300, wt_MaxBookAgeSec = 300, wt_WideSpreadBps = 300,
     wt_MinDepthShares = 10, wt_DropMissingBook = False, wt_StalePenaltyBps = 50, wt_VolScale = 1,
     wt_VolCapBps = 500, wt_OIScale = 100, wt_OICapBps = 200, wt_FVEnabled = True,
     wt_FVMinConfidence = Fin (4 / 10), wt_FVMinOtherLegs = 1, wt_DropExtremePrice = True,
     wt_ExtremeLo = Fin (5 / 100), wt_ExtremeHi = Fin (95 / 100), wt_GroupExpandCap = 100\<rparr>"

definition roundN :: "f64 \<Rightarrow> f64 \<Rightarrow> f64" where
  "roundN k v = math_Round (v * k) / k"

definition KeyFeatures :: "feature_vector \<Rightarrow> (string, f64) gomap" where
  "KeyFeatures f =
     [(''mid'', roundN 100000 (fv_Mid f)),
      (''spread_bps'', roundN 10 (fv_SpreadBps f)),
      (''imbalance'', roundN 1000 (fv_Imbalance f)),
      (''abs_ret_5m'', roundN 100000 (fv_AbsRet5m f)),
      (''one_day_abs'', roundN 100000 (fv_OneDayAbs f)),
      (''doi_1h'', roundN 100 (fv_DOI1h f)),
      (''ttr_hours'', roundN 100 (fv_TTRHours f)),
      (''neg_risk_residual_bps'', roundN 10 (fv_NegRiskResidualBps f)),
      (''volume_24hr'', roundN 10 (fv_Volume24hr f)),
      (''book_age_sec'', roundN 10 (fv_BookAgeSec f)),
      (''feature_age_sec'', roundN 10 (fv_FeatureAgeSec f))]"

definition RiskFlags :: "feature_vector \<Rightarrow> weights \<Rightarrow> string list" where
  "RiskFlags f cfg =
     (if fv_MissingBook f then [''missing_book''] else []) @
     (if fv_ThinBook f then [''thin_book''] else []) @
     (if fv_StaleFeatures f then [''stale_features''] else []) @
     (if fv_SpreadBps f > wt_WideSpreadBps cfg then [''wide_spread''] else []) @
     (if fv_Mid f > 0 \<and> (fv_Mid f < Fin (2 / 100) \<or> fv_Mid f > Fin (98 / 100))
      then [''extreme_price''] else []) @
     (if fv_NegRiskIncomplete f then [''neg_risk_incomplete_group''] else []) @
     (if fv_BookAgeSec f > wt_MaxBookAgeSec cfg \<and> wt_MaxBookAgeSec cfg > 0
      then [''stale_book''] else [])"

definition FillBookDerived :: "f64 \<Rightarrow> feature_vector \<Rightarrow> feature_vector" where
  "FillBookDerived minDepth f =
     (if fv_BestBid f \<le> 0 \<or> fv_BestAsk f \<le> 0 \<or> fv_BestAsk f < fv_BestBid f
      then f\<lparr>fv_MissingBook := True\<rparr>
      else
        let f = f\<lparr>fv_MissingBook := False, fv_Mid := (fv_BestBid f + fv_BestAsk f) / 2\<rparr>;
            f = (if fv_Mid f > 0
                 then f\<lparr>fv_SpreadBps := 10000 * (fv_BestAsk f - fv_BestBid f) / fv_Mid f\<rparr> else f);
            total = fv_BidDepth f + fv_AskDepth f;
            f = (if total > 0 \<and> feq (fv_Imbalance f) 0
                 then f\<lparr>fv_Imbalance := fv_BidDepth f / total\<rparr> else f);
            minDepth = pos_or 10 minDepth
        in if total < minDepth then f\<lparr>fv_ThinBook := True\<rparr> else f)"

definition NegRiskResidualBpsFromMids :: "f64 list \<Rightarrow> f64" where
  "NegRiskResidualBpsFromMids mids =
     (if length mids < 2 then 0 else \<bar>fsum mids - 1\<bar> * 10000)"

record group_leg =
  gl_ConditionID :: string
  gl_Mid :: f64

definition GroupResidual :: "group_leg list \<Rightarrow> f64 \<times> bool" where
  "GroupResidual legs =
     (let mids = map gl_Mid (filter (\<lambda>leg. gl_Mid leg > 0) legs) in
      if length mids < 2 then (0, True) else (NegRiskResidualBpsFromMids mids, False))"

section \<open>Providers\<close>

record fv_input =
  fi_ConditionID :: string
  fi_Features :: feature_vector
  fi_GroupMids :: "(string, f64) gomap"
  fi_KnownGroupSize :: int
  fi_NegRiskFeeBips :: f64
  fi_Underlying :: "f64 option"
  fi_WindowOpen :: "f64 option"

record fv_output =
  fo_FairValue :: f64
  fo_Confidence :: f64
  fo_Source :: string
  fo_Incomplete :: bool

definition clamp01 :: "f64 \<Rightarrow> f64 \<Rightarrow> f64 \<Rightarrow> f64" where
  "clamp01 v lo hi = (if v < lo then lo else if v > hi then hi else v)"

definition fvClampLo :: f64 where "fvClampLo = Fin (1 / 100)"
definition fvClampHi :: f64 where "fvClampHi = Fin (99 / 100)"

datatype provider =
    NegRiskComplement int f64
  | ExternalUnderlying
  | NilProvider

definition other_mids :: "fv_input \<Rightarrow> f64 list" where
  \<comment> \<open>the mids of the other legs that the loop of \<open>Quote\<close> accepts\<close>
  "other_mids inp =
     map snd (filter (\<lambda>e. fst e \<noteq> fi_ConditionID inp \<and> \<not> (snd e \<le> 0 \<or> snd e \<ge> 1)) (fi_GroupMids inp))"

definition negrisk_confidence :: "fv_input \<Rightarrow> int \<Rightarrow> f64 \<Rightarrow> int \<Rightarrow> f64" where
  "negrisk_confidence inp nOthers sumOthers known =
     (let conf = of_int_f64 (nOthers + 1) / of_int_f64 known;
          conf =
            (case go_get (fi_GroupMids inp) (fi_ConditionID inp) of
               None \<Rightarrow> conf
             | Some self \<Rightarrow>
                 (if self > 0 then
                    let dev = \<bar>(sumOthers + self) - 1\<bar> in
                    if dev < Fin (5 / 100) then math_Min 1 (conf + Fin (15 / 100))
                    else if dev > Fin (25 / 100) then math_Max 0 (conf - Fin (15 / 100))
                    else conf
                  else conf))
      in if conf > 1 then 1 else conf)"

definition known_legs :: "fv_input \<Rightarrow> int \<Rightarrow> int" where
  "known_legs inp nOthers =
     (let known = fi_KnownGroupSize inp;
          known = (if known \<le> 0 then int (length (fi_GroupMids inp)) else known)
      in if known < nOthers + 1 then nOthers + 1 else known)"

definition NegRisk_Quote :: "int \<Rightarrow> f64 \<Rightarrow> fv_input \<Rightarrow> fv_output option" where
  "NegRisk_Quote minOtherLegs feeScale inp =
     (if fi_ConditionID inp = '''' \<or> fi_GroupMids inp = [] then None
      else
        let minOthers = pos_or_int 1 minOtherLegs;
            sumOthers = fsum (other_mids inp);
            nOthers = int (length (other_mids inp))
        in if nOthers < minOthers then None
           else
             let fv = 1 - sumOthers;
                 fv = (if feeScale > 0 \<and> fi_NegRiskFeeBips inp > 0
                       then fv - fi_NegRiskFeeBips inp / 10000 * feeScale else fv);
                 fv = clamp01 fv fvClampLo fvClampHi;
                 known = known_legs inp nOthers
             in Some \<lparr>fo_FairValue = fv, fo_Confidence = negrisk_confidence inp nOthers sumOthers known,
                      fo_Source = ''neg_risk_complement'', fo_Incomplete = (known > nOthers + 1)\<rparr>)"

definition External_Quote :: "fv_input \<Rightarrow> fv_output option" where
  "External_Quote inp =
     (case fi_Underlying inp of
        None \<Rightarrow> None
      | Some spot \<Rightarrow>
          (case fi_WindowOpen inp of
             None \<Rightarrow> None
           | Some opn \<Rightarrow>
               (if opn \<le> 0 then None
                else
                  let move = (spot - opn) / opn;
                      fv = clamp01 (Fin (1 / 2) + move * 2) fvClampLo fvClampHi
                  in Some \<lparr>fo_FairValue = fv, fo_Confidence = Fin (35 / 100),
                           fo_Source = ''external_underlying'', fo_Incomplete = False\<rparr>)))"

definition Name :: "provider \<Rightarrow> string" where
  "Name p = (case p of NegRiskComplement _ _ \<Rightarrow> ''neg_risk_complement''
     | ExternalUnderlying \<Rightarrow> ''external_underlying'' | NilProvider \<Rightarrow> '''')"

definition Quote :: "provider \<Rightarrow> fv_input \<Rightarrow> fv_output option" where
  \<comment> \<open>the method call through the interface; the loop of \<open>Resolve\<close> skips a nil provider\<close>
  "Quote p inp =
     (case p of NegRiskComplement n s \<Rightarrow> NegRisk_Quote n s inp
      | ExternalUnderlying \<Rightarrow> External_Quote inp | NilProvider \<Rightarrow> None)"

record fv_chain =
  ch_Providers :: "provider list"
  ch_MinConfidence :: f64
  ch_Enabled :: bool

definition DefaultFVChainFromWeights :: "weights \<Rightarrow> fv_chain" where
  "DefaultFVChainFromWeights w =
     \<lparr>ch_Providers = [NegRiskComplement (pos_or_int 1 (wt_FVMinOtherLegs w)) 0, ExternalUnderlying],
      ch_MinConfidence = pos_or (Fin (4 / 10)) (wt_FVMinConfidence w), ch_Enabled = wt_FVEnabled w\<rparr>"

definition zero_weights :: weights where
  \<comment> \<open>the zero value of the struct\<close>
  "zero_weights = \<lparr>
     wt_Name = '''', wt_WVol = 0, wt_WOI = 0, wt_WImbalance = 0, wt_WTTR = 0, wt_WNegRisk = 0,
     wt_WFlow = 0, wt_WActivity = 0, wt_DefaultTakerFeeBps = 0, wt_ImpactCapBps = 0,
     wt_ImpactCoeff = 0, wt_ProbeSizeUSD = 0, wt_ModelBufferBps = 0, wt_MaxFeatureAgeSec = 0,
     wt_MaxBookAgeSec = 0, wt_WideSpreadBps = 0, wt_MinDepthShares = 0, wt_DropMissingBook = False,
     wt_StalePenaltyBps = 0, wt_VolScale = 0, wt_VolCapBps = 0, wt_OIScale = 0, wt_OICapBps = 0,
     wt_FVEnabled = False, wt_FVMinConfidence = 0, wt_FVMinOtherLegs = 0,
     wt_DropExtremePrice = False, wt_ExtremeLo = 0, wt_ExtremeHi = 0, wt_GroupExpandCap = 0\<rparr>"

definition DefaultFVChain :: "f64 \<Rightarrow> fv_chain" where
  "DefaultFVChain minConf =
     DefaultFVChainFromWeights (zero_weights\<lparr>wt_FVEnabled := True, wt_FVMinConfidence := minConf,
       wt_FVMinOtherLegs := 1\<rparr>)"

definition IsExtremeMid :: "f64 \<Rightarrow> f64 \<Rightarrow> f64 \<Rightarrow> bool" where
  "IsExtremeMid mid lo hi =
     (if mid \<le> 0 then False
      else let lo = pos_or (Fin (5 / 100)) lo; hi = pos_or (Fin (95 / 100)) hi
           in mid < lo \<or> mid > hi)"

fun first_quote :: "f64 \<Rightarrow> fv_input \<Rightarrow> provider list \<Rightarrow> fv_output option" where
  "first_quote minC inp [] = None"
| "first_quote minC inp (p # ps) =
     (case Quote p inp of
        None \<Rightarrow> first_quote minC inp ps
      | Some q \<Rightarrow> (if fo_Confidence q < minC then first_quote minC inp ps else Some q))"

definition Resolve :: "fv_chain \<Rightarrow> fv_input \<Rightarrow> fv_output option" where
  "Resolve c inp =
     (if \<not> ch_Enabled c then None
      else first_quote (pos_or (Fin (4 / 10)) (ch_MinConfidence c)) inp (ch_Providers c))"

section \<open>What a provider promises\<close>

definition fv_input_fin :: "fv_input \<Rightarrow> bool" where
  "fv_input_fin inp \<longleftrightarrow>
     (\<forall>e \<in> set (fi_GroupMids inp). isfin (snd e)) \<and> isfin (fi_NegRiskFeeBips inp) \<and>
     (case fi_Underlying inp of None \<Rightarrow> True | Some x \<Rightarrow> isfin x) \<and>
     (case fi_WindowOpen inp of None \<Rightarrow> True | Some x \<Rightarrow> isfin x)"

definition quote_ok :: "fv_output \<Rightarrow> bool" where
  "quote_ok q \<longleftrightarrow>
     isfin (fo_FairValue q) \<and> 1 / 100 \<le> rval (fo_FairValue q) \<and> rval (fo_FairValue q) \<le> 99 / 100 \<and>
     isfin (fo_Confidence q) \<and> 0 \<le> rval (fo_Confidence q) \<and> rval (fo_Confidence q) \<le> 1"

locale fv_provider =
  fixes quote :: "fv_input \<Rightarrow> fv_output option" and ok :: "fv_input \<Rightarrow> bool"
  assumes in_range: "ok inp \<Longrightarrow> quote inp = Some q \<Longrightarrow> quote_ok q"
begin

lemma priced_inside: "ok inp \<Longrightarrow> quote inp = Some q \<Longrightarrow> \<bar>rval (fo_FairValue q) - 1 / 2\<bar> \<le> 49 / 100"
  by (drule (1) in_range) (simp only: quote_ok_def abs_le_iff, linarith)

lemma model_edge_bound:
  "ok inp \<Longrightarrow> quote inp = Some q \<Longrightarrow> isfin mid \<Longrightarrow> 0 \<le> rval mid \<Longrightarrow> rval mid \<le> 1 \<Longrightarrow>
   isfin ((fo_FairValue q - mid) * 10000) \<and> \<bar>rval ((fo_FairValue q - mid) * 10000)\<bar> \<le> 9900"
  using in_range [of inp q] by (auto simp: quote_ok_def abs_le_iff)

end

lemma clamp01_fin:
  "isfin v \<Longrightarrow> isfin (clamp01 v fvClampLo fvClampHi) \<and>
   1 / 100 \<le> rval (clamp01 v fvClampLo fvClampHi) \<and> rval (clamp01 v fvClampLo fvClampHi) \<le> 99 / 100"
  by (auto simp: clamp01_def fvClampLo_def fvClampHi_def isfin_order)

lemma other_mids_fin: "fv_input_fin inp \<Longrightarrow> \<forall>m \<in> set (other_mids inp). isfin m"
  by (auto simp: fv_input_fin_def other_mids_def)

lemma negrisk_confidence_range:
  assumes "fv_input_fin inp" and "isfin s" and "0 \<le> n" and "n + 1 \<le> k"
  shows "isfin (negrisk_confidence inp n s k) \<and> 0 \<le> rval (negrisk_confidence inp n s k)
    \<and> rval (negrisk_confidence inp n s k) \<le> 1"
proof -
  have k: "0 < k" using assms by linarith
  let ?c = "of_int_f64 (n + 1) / of_int_f64 k"
  have c: "isfin ?c" "0 \<le> rval ?c" "rval ?c \<le> 1"
    using assms k by (simp_all add: of_int_f64_def)
  have self: "isfin x" if "go_get (fi_GroupMids inp) (fi_ConditionID inp) = Some x" for x
    using map_of_SomeD [OF that] assms(1) by (auto simp: fv_input_fin_def)
  show ?thesis
    unfolding negrisk_confidence_def Let_def
    using c self assms(2) by (auto simp: isfin_order split: option.splits)
qed

interpretation negrisk_provider:
  fv_provider "NegRisk_Quote n feeScale" "\<lambda>inp. fv_input_fin inp \<and> isfin feeScale" for n feeScale
proof unfold_locales
  fix inp q assume "fv_input_fin inp \<and> isfin feeScale" and q: "NegRisk_Quote n feeScale inp = Some q"
  then have fin: "fv_input_fin inp" and scale: "isfin feeScale" by simp_all
  let ?s = "fsum (other_mids inp)" and ?n = "int (length (other_mids inp))"
  have s: "isfin ?s" by (intro isfin_fsum other_mids_fin [OF fin])
  let ?fv = "if feeScale > 0 \<and> fi_NegRiskFeeBips inp > 0
    then 1 - ?s - fi_NegRiskFeeBips inp / 10000 * feeScale else 1 - ?s"
  have f: "isfin ?fv" using s scale fin by (simp add: fv_input_fin_def)
  let ?k = "known_legs inp ?n"
  have k: "?n + 1 \<le> ?k" by (simp add: known_legs_def Let_def)
  have "q = \<lparr>fo_FairValue = clamp01 ?fv fvClampLo fvClampHi, fo_Confidence = negrisk_confidence inp ?n ?s ?k,
          fo_Source = ''neg_risk_complement'', fo_Incomplete = (?k > ?n + 1)\<rparr>"
    using q by (auto simp: NegRisk_Quote_def Let_def split: if_splits)
  then show "quote_ok q"
    using clamp01_fin [OF f] negrisk_confidence_range [OF fin s _ k] by (simp add: quote_ok_def)
qed

interpretation external_provider: fv_provider External_Quote fv_input_fin
proof unfold_locales
  fix inp q assume fin: "fv_input_fin inp" and q: "External_Quote inp = Some q"
  then obtain spot opn where so: "fi_Underlying inp = Some spot" "fi_WindowOpen inp = Some opn"
    "\<not> opn \<le> 0" and eq: "q = \<lparr>fo_FairValue = clamp01 (Fin (1 / 2) + (spot - opn) / opn * 2) fvClampLo fvClampHi,
      fo_Confidence = Fin (35 / 100), fo_Source = ''external_underlying'', fo_Incomplete = False\<rparr>"
    by (auto simp: External_Quote_def Let_def split: option.splits if_splits)
  have "isfin spot" "isfin opn" using fin so by (simp_all add: fv_input_fin_def)
  moreover then have "0 < rval opn" using so by (simp add: isfin_order)
  ultimately have "isfin (Fin (1 / 2) + (spot - opn) / opn * 2)" by simp
  from clamp01_fin [OF this] show "quote_ok q" by (simp add: eq quote_ok_def)
qed

definition provider_ok :: "provider \<Rightarrow> bool" where
  "provider_ok p \<longleftrightarrow> (case p of NegRiskComplement _ s \<Rightarrow> isfin s | _ \<Rightarrow> True)"

interpretation any_provider: fv_provider "Quote p" "\<lambda>inp. fv_input_fin inp \<and> provider_ok p" for p
  by unfold_locales
    (auto simp: Quote_def provider_ok_def split: provider.splits
      intro: negrisk_provider.in_range [OF conjI] external_provider.in_range)

lemma first_quote_ok:
  "\<forall>p \<in> set ps. provider_ok p \<Longrightarrow> fv_input_fin inp \<Longrightarrow> first_quote c inp ps = Some q \<Longrightarrow>
   quote_ok q \<and> \<not> fo_Confidence q < c \<and> (\<exists>p \<in> set ps. Quote p inp = Some q)"
  by (induction ps) (auto split: option.splits if_splits intro: any_provider.in_range [OF conjI])

interpretation chain_provider:
  fv_provider "Resolve c" "\<lambda>inp. fv_input_fin inp \<and> (\<forall>p \<in> set (ch_Providers c). provider_ok p)" for c
  by unfold_locales (auto simp: Resolve_def split: if_splits dest: first_quote_ok)

lemma default_chain_ok: "\<forall>p \<in> set (ch_Providers (DefaultFVChainFromWeights w)). provider_ok p"
  by (simp add: DefaultFVChainFromWeights_def provider_ok_def)

section \<open>Properties\<close>

definition leg_input :: "(string, f64) gomap \<Rightarrow> feature_vector \<Rightarrow> string \<Rightarrow> fv_input" where
  \<comment> \<open>the quote request for one leg of an observed group\<close>
  "leg_input mids f c = \<lparr>fi_ConditionID = c, fi_Features = f, fi_GroupMids = mids,
     fi_KnownGroupSize = int (length mids), fi_NegRiskFeeBips = 0, fi_Underlying = None, fi_WindowOpen = None\<rparr>"

definition total_mid :: "(string, f64) gomap \<Rightarrow> real" where
  "total_mid mids = sum_list (map (rval \<circ> snd) mids)"

lemma total_mid_del:
  assumes "go_wf mids" "go_get mids c = Some m" "\<forall>e \<in> set mids. isfin (snd e)"
  shows "rval (fsum (map snd (go_del c mids))) = total_mid mids - rval m" and "isfin m"
proof -
  have fin: "\<forall>x \<in> set (map snd mids). isfin x" "\<forall>x \<in> set (map snd (go_del c mids)). isfin x"
    using assms(3) set_go_del [of c mids] by auto
  show m: "isfin m" using assms(2,3) map_of_SomeD by fastforce
  have "fsum (map snd mids) = m + fsum (map snd (go_del c mids))"
    using fsum_go_del [OF assms(1,2), of "\<lambda>x. x"] by (simp add: o_def)
  moreover have "rval (fsum (map snd mids)) = total_mid mids"
    using fin(1) by (simp add: rval_fsum total_mid_def)
  ultimately show "rval (fsum (map snd (go_del c mids))) = total_mid mids - rval m"
    using m fin(2) by (simp add: isfin_fsum)
qed

lemma other_mids_del:
  assumes "\<forall>e \<in> set mids. isfin (snd e) \<and> 0 < rval (snd e) \<and> rval (snd e) < 1"
  shows "other_mids (leg_input mids f c) = map snd (go_del c mids)"
  unfolding other_mids_def go_del_filter leg_input_def
  by (rule arg_cong [where f = "map snd"], rule filter_cong)
    (use assms in \<open>auto simp: isfin_order\<close>)

text \<open>In a fully observed neg-risk group every leg gets the same raw model edge, the group residual:
  for mids strictly between zero and one and a complement inside the clamp, the quoted fair value
  minus the leg's own mid is one minus the sum of all mids, whichever leg is asked.\<close>

theorem negrisk_residual_same:
  assumes "go_wf mids" and "\<forall>e \<in> set mids. isfin (snd e) \<and> 0 < rval (snd e) \<and> rval (snd e) < 1"
    and "go_get mids c = Some m" and "c \<noteq> ''''" and "2 \<le> length mids"
    and "1 / 100 \<le> 1 - total_mid mids + rval m" and "1 - total_mid mids + rval m \<le> 99 / 100"
  shows "\<exists>q. Quote (NegRiskComplement 1 0) (leg_input mids f c) = Some q
    \<and> rval (fo_FairValue q) - rval m = 1 - total_mid mids \<and> \<not> fo_Incomplete q"
proof -
  let ?i = "leg_input mids f c"
  have om: "other_mids ?i = map snd (go_del c mids)" by (rule other_mids_del [OF assms(2)])
  have fin: "\<forall>e \<in> set mids. isfin (snd e)" using assms(2) by blast
  note tm = total_mid_del [OF assms(1,3) fin]
  have len: "length (other_mids ?i) = length mids - 1"
    using gmap.len_del [OF assms(1), of c] assms(3) by (simp add: om)
  have sf: "isfin (fsum (other_mids ?i))"
    using fin set_go_del [of c mids] by (intro isfin_fsum) (auto simp: om)
  have "fo_FairValue (the (NegRisk_Quote 1 0 ?i)) = clamp01 (1 - fsum (other_mids ?i)) fvClampLo fvClampHi"
    and ex: "NegRisk_Quote 1 0 ?i \<noteq> None" "\<not> fo_Incomplete (the (NegRisk_Quote 1 0 ?i))"
    using assms(4,5) len
    by (auto simp: NegRisk_Quote_def Let_def leg_input_def pos_or_int_def known_legs_def)
  moreover have "clamp01 (1 - fsum (other_mids ?i)) fvClampLo fvClampHi = 1 - fsum (other_mids ?i)"
    using assms(6,7) sf tm by (auto simp: clamp01_def fvClampLo_def fvClampHi_def isfin_order om)
  ultimately have "rval (fo_FairValue (the (NegRisk_Quote 1 0 ?i))) - rval m = 1 - total_mid mids"
    using sf tm by (simp add: om)
  with ex show ?thesis by (auto simp: Quote_def)
qed

definition zero_features :: feature_vector where
  "zero_features = \<lparr>fv_ConditionID = '''', fv_TokenID = '''', fv_BestBid = 0, fv_BestAsk = 0, fv_Mid = 0,
     fv_SpreadBps = 0, fv_Imbalance = 0, fv_BidDepth = 0, fv_AskDepth = 0, fv_BookAgeSec = 0,
     fv_AbsRet1m = 0, fv_AbsRet5m = 0, fv_AbsRet1h = 0, fv_OneDayAbs = 0, fv_OI = 0, fv_DOI1h = 0,
     fv_DOI24h = 0, fv_TTRHours = 0, fv_AgeDays = 0, fv_Volume24hr = 0, fv_VolumeProxy = 0,
     fv_BuyRatio5m = 0, fv_NegRisk = False, fv_NegRiskGroupID = '''', fv_NegRiskResidualBps = 0,
     fv_NegRiskIncomplete = False, fv_FeaturesAsOfUnix = 0, fv_FeatureAgeSec = 0,
     fv_MissingBook = False, fv_ThinBook = False, fv_StaleFeatures = False\<rparr>"

theorem negrisk_residual_same_witness:
  "\<exists>q. Quote (NegRiskComplement 1 0)
       (leg_input [(''a'', Fin (3 / 10)), (''b'', Fin (4 / 10)), (''c'', Fin (2 / 10))] zero_features ''b'') = Some q
     \<and> rval (fo_FairValue q) - 4 / 10 = 1 / 10 \<and> \<not> fo_Incomplete q"
  using negrisk_residual_same [of "[(''a'', Fin (3 / 10)), (''b'', Fin (4 / 10)), (''c'', Fin (2 / 10))]"
      "''b''" "Fin (4 / 10)" zero_features]
  by (simp add: total_mid_def)

text \<open>The production chain quotes only usable prices: on finite inputs a quote is inside
  [0.01, 0.99] with a confidence in [0, 1] and not below the minimum; and as long as the minimum
  confidence is left at its default the external stub never wins, every quote is the neg-risk one.\<close>

theorem fv_chain_quotes:
  assumes "fv_input_fin inp" and "Resolve (DefaultFVChainFromWeights w) inp = Some q"
  shows "wt_FVEnabled w \<and> quote_ok q
    \<and> \<not> fo_Confidence q < pos_or (Fin (4 / 10)) (wt_FVMinConfidence w)
    \<and> (wt_FVMinConfidence w \<le> 0 \<longrightarrow> fo_Source q = ''neg_risk_complement'')"
proof -
  let ?c = "DefaultFVChainFromWeights w"
  let ?m = "pos_or (Fin (4 / 10)) (wt_FVMinConfidence w)"
  have en: "wt_FVEnabled w" and q: "first_quote (pos_or (Fin (4 / 10)) ?m) inp (ch_Providers ?c) = Some q"
    using assms(2) by (auto simp: Resolve_def DefaultFVChainFromWeights_def split: if_splits)
  have "pos_or (Fin (4 / 10)) ?m = ?m" by (rule pos_or_idem)
  with q have q: "first_quote ?m inp (ch_Providers ?c) = Some q" by simp
  from first_quote_ok [OF default_chain_ok assms(1) q]
  have ok: "quote_ok q" "\<not> fo_Confidence q < ?m" and ex: "\<exists>p \<in> set (ch_Providers ?c). Quote p inp = Some q"
    by simp_all
  have "fo_Source q = ''neg_risk_complement''" if "wt_FVMinConfidence w \<le> 0"
  proof -
    have m: "?m = Fin (4 / 10)" using that by (simp add: pos_or_def)
    have "fo_Source x = ''neg_risk_complement''" if "NegRisk_Quote n s inp = Some x" for n s x
      using that by (auto simp: NegRisk_Quote_def Let_def split: if_splits)
    moreover have "fo_Confidence x = Fin (35 / 100)" if "External_Quote inp = Some x" for x
      using that by (auto simp: External_Quote_def Let_def split: option.splits if_splits)
    ultimately show ?thesis
      using ex ok(2) m by (auto simp: DefaultFVChainFromWeights_def Quote_def)
  qed
  with en ok show ?thesis by simp
qed

theorem fv_chain_quotes_witness:
  "\<exists>q. Resolve (DefaultFVChainFromWeights DefaultWeights)
       (leg_input [(''a'', Fin (3 / 10)), (''b'', Fin (6 / 10))] zero_features ''b'') = Some q
     \<and> quote_ok q \<and> fo_Source q = ''neg_risk_complement''"
proof -
  let ?i = "leg_input [(''a'', Fin (3 / 10)), (''b'', Fin (6 / 10))] zero_features ''b''"
  let ?w = "DefaultWeights\<lparr>wt_FVMinConfidence := 0\<rparr>"
  have eq: "DefaultFVChainFromWeights DefaultWeights = DefaultFVChainFromWeights ?w"
    by (simp add: DefaultFVChainFromWeights_def DefaultWeights_def pos_or_def f64_eval)
  have fin: "fv_input_fin ?i" by (simp add: fv_input_fin_def leg_input_def)
  have "Resolve (DefaultFVChainFromWeights ?w) ?i \<noteq> None"
    by (simp add: Resolve_def DefaultFVChainFromWeights_def DefaultWeights_def Quote_def NegRisk_Quote_def
        leg_input_def other_mids_def known_legs_def negrisk_confidence_def pos_or_def pos_or_int_def
        Let_def of_int_f64_def f64_eval)
  then obtain q where "Resolve (DefaultFVChainFromWeights ?w) ?i = Some q" by blast
  with fv_chain_quotes [OF fin this] show ?thesis unfolding eq by (simp add: f64_eval)
qed

end
