(* ===== verification/Strategy_Reg.thy ===== *)
theory Strategy_Reg
  imports Strategy_DB Edge_Fair Simulation
begin

text \<open>
  \<open>internal/strategyreg\<close>: versions are registered from weight files, marked, retired, promoted when an
  evaluation surface passes the gate, rolled back once, and resolved for the live scan.  What the
  package takes from elsewhere is the record \<open>reg_env\<close>: reading a file, the YAML and JSON libraries and
  the SHA-256 digest.  A promotion audit outside a transaction may fail (\<open>audit_ok\<close>).
  Lemmas: every operation keeps \<open>reg_inv\<close> and freezes what is registered, so in every reachable registry
  each family has at most the one active version its pointer names, and that version, and the one a
  rollback would restore, once passed the gate with its own hash.
\<close>

section \<open>Environment and the gate\<close>

record surface_summary =
  ss_OK :: bool
  ss_PromoteEligible :: bool
  ss_WeightsHash :: string
  ss_RunID :: string
  ss_StrategyName :: string
  ss_Status :: string

record reg_env =
  re_Read :: "string \<Rightarrow> string option"
  re_Exists :: "string \<Rightarrow> bool"
  re_Yaml :: "string \<Rightarrow> weights \<Rightarrow> weights option"
  re_Marshal :: "weights \<Rightarrow> string"
  re_Unmarshal :: "string \<Rightarrow> weights \<Rightarrow> weights option"
  re_Surface :: "string \<Rightarrow> surface_summary option"
  re_SHA :: "string \<Rightarrow> string"

definition WeightsHashBytes :: "reg_env \<Rightarrow> string \<Rightarrow> string" where
  "WeightsHashBytes env b = (if b = '''' then '''' else re_SHA env b)"

definition WeightsHashFile :: "reg_env \<Rightarrow> string \<Rightarrow> string option" where
  "WeightsHashFile env path = (if path = '''' then Some '''' else map_option (re_SHA env) (re_Read env path))"

definition ParseWeightsYAML :: "reg_env \<Rightarrow> string \<Rightarrow> weights option" where
  "ParseWeightsYAML env b =
     (if b = '''' then Some DefaultWeights
      else map_option (\<lambda>w. if wt_Name w = '''' then w\<lparr>wt_Name := ''default''\<rparr> else w) (re_Yaml env b DefaultWeights))"

definition LoadWeightsFile :: "reg_env \<Rightarrow> string \<Rightarrow> weights option" where
  "LoadWeightsFile env path = (case re_Read env path of None \<Rightarrow> None | Some b \<Rightarrow> ParseWeightsYAML env b)"

definition LoadSurfaceSummary :: "reg_env \<Rightarrow> string \<Rightarrow> reg_error + surface_summary" where
  "LoadSurfaceSummary env path =
     (if path = '''' then Inl (ErrGateRejected ''surface path required'')
      else case re_Read env path of
             None \<Rightarrow> Inl ErrRead
           | Some b \<Rightarrow> (case re_Surface env b of None \<Rightarrow> Inl ErrParse | Some s \<Rightarrow> Inr s))"

definition CheckPromoteGate :: "surface_summary \<Rightarrow> string \<Rightarrow> string \<Rightarrow> reg_error option" where
  \<comment> \<open>None is admission\<close>
  "CheckPromoteGate surface versionWeightsHash versionStrategy =
     (if versionWeightsHash = '''' then Some (ErrGateRejected ''version weights_hash empty'')
      else if ss_WeightsHash surface = '''' then Some (ErrGateRejected ''surface weights_hash empty'')
      else if ss_WeightsHash surface \<noteq> versionWeightsHash then Some (ErrGateRejected ''weights_hash mismatch'')
      else if ss_StrategyName surface \<noteq> '''' \<and> versionStrategy \<noteq> '''' \<and> ss_StrategyName surface \<noteq> versionStrategy
        then Some (ErrGateRejected ''strategy_name mismatch'')
      else if \<not> ss_OK surface then Some (ErrGateRejected ''ok=false'')
      else if \<not> ss_PromoteEligible surface then Some (ErrGateRejected ''promote_eligible=false'')
      else None)"

section \<open>Operations\<close>

record register_opts =
  ro_WeightsPath :: string
  ro_Strategy :: string
  ro_GitSHA :: string
  ro_Note :: string
  ro_Actor :: string
  ro_Status :: string

definition audit_row :: "string \<Rightarrow> string \<Rightarrow> int \<Rightarrow> string \<Rightarrow> string \<Rightarrow> string \<Rightarrow> strategy_promotion" where
  "audit_row strategy action vid hash reason actor =
     \<lparr>sp_Strategy = strategy, sp_Action = action, sp_FromVersionID = None, sp_ToVersionID = Some vid,
      sp_EvalRunID = '''', sp_WeightsHash = hash, sp_PromoteEligible = None, sp_Reason = reason,
      sp_Actor = or_operator actor\<rparr>"

definition with_audit ::
  "bool \<Rightarrow> strategy_promotion \<Rightarrow> 'a \<Rightarrow> strategy_db \<Rightarrow> (reg_error + 'a) \<times> strategy_db" where
  "with_audit ok row r db =
     (case InsertStrategyPromotion ok row db of (Inl e, db') \<Rightarrow> (Inl e, db') | (Inr _, db') \<Rightarrow> (Inr r, db'))"

definition Register ::
  "reg_env \<Rightarrow> gotime \<Rightarrow> bool \<Rightarrow> register_opts \<Rightarrow> strategy_db \<Rightarrow> (reg_error + strategy_version) \<times> strategy_db" where
  "Register env now audit_ok opts db =
     (if ro_WeightsPath opts = '''' then (Inl (ErrArgument ''weights''), db)
      else case re_Read env (ro_WeightsPath opts) of
        None \<Rightarrow> (Inl ErrRead, db)
      | Some b \<Rightarrow>
          (case ParseWeightsYAML env b of
             None \<Rightarrow> (Inl ErrParse, db)
           | Some w \<Rightarrow>
               let strategy = (if ro_Strategy opts = '''' then wt_Name w else ro_Strategy opts);
                   strategy = or_default strategy;
                   w = w\<lparr>wt_Name := strategy\<rparr>;
                   hash = WeightsHashBytes env b;
                   status = (if ro_Status opts = '''' then StatusDraft else ro_Status opts)
               in if hash = '''' then (Inl (ErrArgument ''empty weights file''), db)
                  else if status \<noteq> StatusDraft \<and> status \<noteq> StatusCandidate then (Inl (ErrArgument ''status''), db)
                  else
                    (case InsertStrategyVersion now
                        \<lparr>sv_ID = 0, sv_Strategy = strategy, sv_Status = status, sv_Params = re_Marshal env w,
                         sv_WeightsHash = hash, sv_SourcePath = ro_WeightsPath opts, sv_GitSHA = ro_GitSHA opts,
                         sv_Note = ro_Note opts, sv_CreatedAt = 0, sv_CreatedBy = or_operator (ro_Actor opts)\<rparr> db of
                       (Inl e, db') \<Rightarrow> (Inl e, db')
                     | (Inr v, db') \<Rightarrow>
                         with_audit audit_ok
                           (audit_row strategy ''register'' (sv_ID v) hash (ro_Note opts) (ro_Actor opts)) v db')))"

definition move_status ::
  "string \<Rightarrow> string \<Rightarrow> bool \<Rightarrow> int \<Rightarrow> string \<Rightarrow> string \<Rightarrow> strategy_db \<Rightarrow> (reg_error + unit) \<times> strategy_db" where
  \<comment> \<open>the common body of \<open>MarkCandidate\<close> and \<open>Retire\<close>\<close>
  "move_status status action audit_ok vid actor reason db =
     (case GetStrategyVersion vid db of
        Inl e \<Rightarrow> (Inl e, db)
      | Inr v \<Rightarrow>
          if sv_Status v = StatusActive then (Inl ErrActiveVersion, db)
          else (case SetStrategyStatus vid status db of
                  (Inl e, db') \<Rightarrow> (Inl e, db')
                | (Inr _, db') \<Rightarrow>
                    with_audit audit_ok (audit_row (sv_Strategy v) action vid (sv_WeightsHash v) reason actor) () db'))"

definition MarkCandidate :: "bool \<Rightarrow> int \<Rightarrow> string \<Rightarrow> string \<Rightarrow> strategy_db \<Rightarrow> (reg_error + unit) \<times> strategy_db" where
  "MarkCandidate = move_status StatusCandidate ''candidate''"

definition Retire :: "bool \<Rightarrow> int \<Rightarrow> string \<Rightarrow> string \<Rightarrow> strategy_db \<Rightarrow> (reg_error + unit) \<times> strategy_db" where
  "Retire = move_status StatusRetired ''retire''"

record promote_opts =
  po_VersionID :: int
  po_SurfacePath :: string
  po_Actor :: string
  po_Reason :: string

definition promote_activate :: "promote_opts \<Rightarrow> surface_summary \<Rightarrow> strategy_version \<Rightarrow> activate_opts" where
  "promote_activate opts surface v =
     \<lparr>ao_VersionID = po_VersionID opts, ao_Actor = or_operator (po_Actor opts), ao_EvalRunID = ss_RunID surface,
      ao_WeightsHash = sv_WeightsHash v, ao_PromoteEligible = True, ao_Reason = po_Reason opts,
      ao_Action = ''promote'', ao_ClearPrev = False\<rparr>"

definition Promote ::
  "reg_env \<Rightarrow> gotime \<Rightarrow> promote_opts \<Rightarrow> strategy_db \<Rightarrow> (reg_error + strategy_active) \<times> strategy_db" where
  "Promote env now opts db =
     (if po_VersionID opts \<le> 0 then (Inl (ErrArgument ''id''), db)
      else if po_SurfacePath opts = '''' then (Inl (ErrGateRejected ''surface path required''), db)
      else case GetStrategyVersion (po_VersionID opts) db of
        Inl e \<Rightarrow> (Inl e, db)
      | Inr v \<Rightarrow>
          (case LoadSurfaceSummary env (po_SurfacePath opts) of
             Inl e \<Rightarrow> (Inl e, db)
           | Inr surface \<Rightarrow>
               (case CheckPromoteGate surface (sv_WeightsHash v) (sv_Strategy v) of
                  Some e \<Rightarrow> (Inl e, db)
                | None \<Rightarrow> ActivateStrategyVersion now (promote_activate opts surface v) db)))"

definition Rollback ::
  "gotime \<Rightarrow> string \<Rightarrow> string \<Rightarrow> string \<Rightarrow> strategy_db \<Rightarrow> (reg_error + strategy_active) \<times> strategy_db" where
  "Rollback now strategy actor reason db = RollbackStrategyActive now (or_default strategy) actor reason db"

section \<open>Loading\<close>

definition ParamsToWeights :: "reg_env \<Rightarrow> string \<Rightarrow> weights option" where
  "ParamsToWeights env params = (if params = '''' then None else re_Unmarshal env params DefaultWeights)"

record loaded_active =
  la_Version :: strategy_version
  la_Active :: strategy_active
  la_Weights :: weights

definition LoadActive :: "reg_env \<Rightarrow> string \<Rightarrow> strategy_db \<Rightarrow> reg_error + loaded_active" where
  "LoadActive env strategy db =
     (let strategy = or_default strategy in
      case LoadActiveStrategyVersion strategy db of
        Inl e \<Rightarrow> Inl e
      | Inr (v, a) \<Rightarrow>
          (case ParamsToWeights env (sv_Params v) of
             None \<Rightarrow> Inl ErrParse
           | Some w \<Rightarrow>
               Inr \<lparr>la_Version = v, la_Active = a,
                    la_Weights = (if wt_Name w = '''' then w\<lparr>wt_Name := strategy\<rparr> else w)\<rparr>))"

definition LoadVersion :: "reg_env \<Rightarrow> int \<Rightarrow> strategy_db \<Rightarrow> reg_error + (weights \<times> strategy_version)" where
  "LoadVersion env vid db =
     (case GetStrategyVersion vid db of
        Inl e \<Rightarrow> Inl e
      | Inr v \<Rightarrow> (case ParamsToWeights env (sv_Params v) of None \<Rightarrow> Inl ErrParse | Some w \<Rightarrow> Inr (w, v)))"

definition TryLoadActive :: "reg_env \<Rightarrow> string \<Rightarrow> strategy_db \<Rightarrow> reg_error + loaded_active option" where
  "TryLoadActive env strategy db =
     (case LoadActive env strategy db of
        Inr la \<Rightarrow> Inr (Some la)
      | Inl e \<Rightarrow> if e = ErrNoActiveStrategy then Inr None else Inl e)"

record resolve_opts =
  rs_Strategy :: string
  rs_ExplicitPath :: string
  rs_FallbackPath :: string

datatype weight_source = SourceActive | SourceFile | SourceDefault

datatype load_note = NoNote | LoadFailed reg_error | FileMissing | FileError

record resolved =
  rd_Weights :: weights
  rd_VersionID :: "int option"
  rd_Hash :: string
  rd_Source :: weight_source
  rd_Path :: string
  rd_OverrideDiffers :: bool
  rd_ActiveVersionID :: int
  rd_ActiveHash :: string
  rd_LoadNote :: load_note

definition resolveFile :: "reg_env \<Rightarrow> strategy_db option \<Rightarrow> string \<Rightarrow> string \<Rightarrow> resolved" where
  "resolveFile env conn strategy path =
     (let r = (case LoadWeightsFile env path of
                 None \<Rightarrow> \<lparr>rd_Weights = DefaultWeights, rd_VersionID = None, rd_Hash = '''', rd_Source = SourceDefault,
                    rd_Path = path, rd_OverrideDiffers = False, rd_ActiveVersionID = 0, rd_ActiveHash = '''',
                    rd_LoadNote = (if re_Exists env path then FileError else FileMissing)\<rparr>
               | Some w \<Rightarrow> \<lparr>rd_Weights = w, rd_VersionID = None,
                    rd_Hash = (case WeightsHashFile env path of None \<Rightarrow> '''' | Some h \<Rightarrow> h), rd_Source = SourceFile,
                    rd_Path = path, rd_OverrideDiffers = False, rd_ActiveVersionID = 0, rd_ActiveHash = '''',
                    rd_LoadNote = NoNote\<rparr>)
      in case conn of
           None \<Rightarrow> r
         | Some db \<Rightarrow>
             (case TryLoadActive env strategy db of
                Inr (Some la) \<Rightarrow>
                  let h = sv_WeightsHash (la_Version la) in
                  r\<lparr>rd_ActiveVersionID := sv_ID (la_Version la), rd_ActiveHash := h,
                    rd_OverrideDiffers := (rd_Hash r \<noteq> '''' \<and> h \<noteq> '''' \<and> rd_Hash r \<noteq> h)\<rparr>
              | _ \<Rightarrow> r))"

definition ResolveLive :: "reg_env \<Rightarrow> strategy_db option \<Rightarrow> resolve_opts \<Rightarrow> resolved" where
  "ResolveLive env conn opts =
     (let strategy = or_default (rs_Strategy opts);
          fallback = (if rs_FallbackPath opts = '''' then ''configs/strategies/default.yaml'' else rs_FallbackPath opts)
      in if rs_ExplicitPath opts \<noteq> '''' then resolveFile env conn strategy (rs_ExplicitPath opts)
         else case conn of
           None \<Rightarrow> resolveFile env conn strategy fallback
         | Some db \<Rightarrow>
             (case TryLoadActive env strategy db of
                Inl e \<Rightarrow> (resolveFile env conn strategy fallback)\<lparr>rd_LoadNote := LoadFailed e\<rparr>
              | Inr (Some la) \<Rightarrow>
                  \<lparr>rd_Weights = la_Weights la, rd_VersionID = Some (sv_ID (la_Version la)),
                   rd_Hash = sv_WeightsHash (la_Version la), rd_Source = SourceActive,
                   rd_Path = sv_SourcePath (la_Version la), rd_OverrideDiffers = False, rd_ActiveVersionID = 0,
                   rd_ActiveHash = '''', rd_LoadNote = NoNote\<rparr>
              | Inr None \<Rightarrow> resolveFile env conn strategy fallback))"

section \<open>The registry as a machine\<close>

datatype reg_op =
    ORegister gotime bool register_opts
  | OCandidate bool int string string
  | ORetire bool int string string
  | OPromote gotime promote_opts
  | ORollback gotime string string string

definition reg_step :: "reg_env \<Rightarrow> strategy_db \<Rightarrow> reg_op \<Rightarrow> strategy_db" where
  "reg_step env db x =
     (case x of
        ORegister now ok opts \<Rightarrow> snd (Register env now ok opts db)
      | OCandidate ok vid actor reason \<Rightarrow> snd (MarkCandidate ok vid actor reason db)
      | ORetire ok vid actor reason \<Rightarrow> snd (Retire ok vid actor reason db)
      | OPromote now opts \<Rightarrow> snd (Promote env now opts db)
      | ORollback now strategy actor reason \<Rightarrow> snd (Rollback now strategy actor reason db))"

lemma audit_log_inv:
  assumes "reg_inv db"
  shows "reg_inv (db\<lparr>db_promotions := db_promotions db @ ps\<rparr>)" "frozen db (db\<lparr>db_promotions := db_promotions db @ ps\<rparr>)"
proof -
  let ?db = "db\<lparr>db_promotions := db_promotions db @ ps\<rparr>"
  show fr: "frozen db ?db" unfolding frozen_def using version_status_same by simp
  show "reg_inv ?db"
    by (rule reg_invI) (use reg_invD [OF assms] frozen_pointer [OF fr] in simp_all)
qed

lemma with_audit_inv:
  "reg_inv db \<Longrightarrow> reg_inv (snd (with_audit ok row r db)) \<and> frozen db (snd (with_audit ok row r db))"
  using audit_log_inv by (simp add: with_audit_def InsertStrategyPromotion_def)

lemma move_status_inv:
  assumes "reg_inv db" and "status \<noteq> StatusActive"
  shows "reg_inv (snd (move_status status action ok vid actor reason db))
    \<and> frozen db (snd (move_status status action ok vid actor reason db))"
proof (cases "go_get (db_versions db) vid")
  case None
  then show ?thesis using assms(1) by (simp add: move_status_def GetStrategyVersion_def)
next
  case (Some v)
  let ?db = "db\<lparr>db_versions := set_status vid status (db_versions db)\<rparr>"
  show ?thesis
  proof (cases "sv_Status v = StatusActive")
    case True
    then show ?thesis using assms(1) Some by (simp add: move_status_def GetStrategyVersion_def)
  next
    case False
    have inv: "reg_inv ?db" by (rule set_status_inv [OF assms(1) Some False assms(2)])
    have "snd (move_status status action ok vid actor reason db) =
        snd (with_audit ok (audit_row (sv_Strategy v) action vid (sv_WeightsHash v) reason actor) () ?db)"
      using False Some by (simp add: move_status_def GetStrategyVersion_def SetStrategyStatus_def)
    then show ?thesis using with_audit_inv [OF inv] frozen_trans [OF frozen_status] by metis
  qed
qed

definition register_row :: "reg_env \<Rightarrow> register_opts \<Rightarrow> string \<Rightarrow> weights \<Rightarrow> strategy_version" where
  "register_row env opts b w =
     (let strategy = or_default (if ro_Strategy opts = '''' then wt_Name w else ro_Strategy opts) in
      \<lparr>sv_ID = 0, sv_Strategy = strategy,
       sv_Status = (if ro_Status opts = '''' then StatusDraft else ro_Status opts),
       sv_Params = re_Marshal env (w\<lparr>wt_Name := strategy\<rparr>), sv_WeightsHash = WeightsHashBytes env b,
       sv_SourcePath = ro_WeightsPath opts, sv_GitSHA = ro_GitSHA opts, sv_Note = ro_Note opts,
       sv_CreatedAt = 0, sv_CreatedBy = or_operator (ro_Actor opts)\<rparr>)"

lemma Register_body:
  assumes "ro_WeightsPath opts \<noteq> ''''" and "re_Read env (ro_WeightsPath opts) = Some b"
    and "ParseWeightsYAML env b = Some w" and "WeightsHashBytes env b \<noteq> ''''"
    and "ro_Status opts \<in> {'''', StatusDraft, StatusCandidate}"
  shows "Register env now ok opts db =
    (case InsertStrategyVersion now (register_row env opts b w) db of
       (Inl e, db') \<Rightarrow> (Inl e, db')
     | (Inr v, db') \<Rightarrow> with_audit ok (audit_row (sv_Strategy (register_row env opts b w)) ''register'' (sv_ID v)
          (WeightsHashBytes env b) (ro_Note opts) (ro_Actor opts)) v db')"
  using assms by (simp add: Register_def register_row_def Let_def cong: prod.case_cong sum.case_cong) auto

lemma Register_refused:
  assumes "\<not> (\<exists>b w. ro_WeightsPath opts \<noteq> '''' \<and> re_Read env (ro_WeightsPath opts) = Some b \<and>
    ParseWeightsYAML env b = Some w \<and> WeightsHashBytes env b \<noteq> '''' \<and>
    ro_Status opts \<in> {'''', StatusDraft, StatusCandidate})"
  shows "snd (Register env now ok opts db) = db \<and> (\<exists>e. fst (Register env now ok opts db) = Inl e)"
proof (cases "re_Read env (ro_WeightsPath opts)")
  case None
  then show ?thesis by (simp add: Register_def)
next
  case (Some b)
  show ?thesis
  proof (cases "ParseWeightsYAML env b")
    case None
    with Some show ?thesis by (simp add: Register_def)
  next
    case (Some w)
    with \<open>re_Read env (ro_WeightsPath opts) = Some b\<close> assms
    have "ro_WeightsPath opts = '''' \<or> WeightsHashBytes env b = '''' \<or> ro_Status opts \<notin> {'''', StatusDraft, StatusCandidate}"
      by blast
    with Some \<open>re_Read env (ro_WeightsPath opts) = Some b\<close> show ?thesis
      by (auto simp: Register_def Let_def)
  qed
qed

lemma Register_inv:
  assumes inv: "reg_inv db"
  shows "reg_inv (snd (Register env now ok opts db)) \<and> frozen db (snd (Register env now ok opts db))"
proof (cases "\<exists>b w. ro_WeightsPath opts \<noteq> '''' \<and> re_Read env (ro_WeightsPath opts) = Some b \<and>
    ParseWeightsYAML env b = Some w \<and> WeightsHashBytes env b \<noteq> '''' \<and>
    ro_Status opts \<in> {'''', StatusDraft, StatusCandidate}")
  case False
  from Register_refused [OF this] inv show ?thesis by simp
next
  case True
  then obtain b w where h: "ro_WeightsPath opts \<noteq> ''''" "re_Read env (ro_WeightsPath opts) = Some b"
    "ParseWeightsYAML env b = Some w" "WeightsHashBytes env b \<noteq> ''''"
    "ro_Status opts \<in> {'''', StatusDraft, StatusCandidate}" by blast
  let ?v = "register_row env opts b w"
  have st: "sv_Status ?v \<noteq> StatusActive" using h(5) status_ne by (auto simp: register_row_def Let_def)
  obtain r db' where ins: "InsertStrategyVersion now ?v db = (r, db')" by fastforce
  show ?thesis
  proof (cases r)
    case (Inl e)
    then have "db' = db" using ins by (auto simp: InsertStrategyVersion_def Let_def split: if_splits)
    then show ?thesis using inv ins Inl by (simp add: Register_body [OF h])
  next
    case (Inr v)
    note i = InsertStrategyVersion_inv [OF inv ins [unfolded Inr] st]
    have "snd (Register env now ok opts db) = snd (with_audit ok (audit_row (sv_Strategy ?v) ''register'' (sv_ID v)
        (WeightsHashBytes env b) (ro_Note opts) (ro_Actor opts)) v db')"
      by (simp add: Register_body [OF h] ins Inr)
    then show ?thesis using with_audit_inv [OF i(1)] frozen_trans [OF i(2)] by metis
  qed
qed

lemma gate_open:
  "CheckPromoteGate s h str = None \<longleftrightarrow>
     h \<noteq> '''' \<and> ss_WeightsHash s = h \<and> (ss_StrategyName s = '''' \<or> str = '''' \<or> ss_StrategyName s = str) \<and>
     ss_OK s \<and> ss_PromoteEligible s"
  by (auto simp: CheckPromoteGate_def)

definition promotable :: "reg_env \<Rightarrow> promote_opts \<Rightarrow> strategy_db \<Rightarrow> bool" where
  \<comment> \<open>what the documentation asks of a promotion\<close>
  "promotable env opts db \<longleftrightarrow>
     0 < po_VersionID opts \<and> po_SurfacePath opts \<noteq> '''' \<and>
     (case (go_get (db_versions db) (po_VersionID opts), Option.bind (re_Read env (po_SurfacePath opts)) (re_Surface env)) of
        (Some v, Some s) \<Rightarrow>
          sv_WeightsHash v \<noteq> '''' \<and> ss_WeightsHash s = sv_WeightsHash v \<and>
          (ss_StrategyName s = '''' \<or> sv_Strategy v = '''' \<or> ss_StrategyName s = sv_Strategy v) \<and>
          ss_OK s \<and> ss_PromoteEligible s
      | _ \<Rightarrow> False)"

lemma Promote_refused:
  "\<not> promotable env opts db \<Longrightarrow> snd (Promote env now opts db) = db \<and> (\<exists>e. fst (Promote env now opts db) = Inl e)"
  by (auto simp: promotable_def Promote_def GetStrategyVersion_def LoadSurfaceSummary_def gate_open [symmetric]
      split: option.splits bind_splits)

lemma Promote_granted:
  assumes "promotable env opts db"
  obtains v s where "go_get (db_versions db) (po_VersionID opts) = Some v"
    and "Promote env now opts db = ActivateStrategyVersion now (promote_activate opts s v) db"
  using assms
  by (auto simp: promotable_def Promote_def GetStrategyVersion_def LoadSurfaceSummary_def gate_open [symmetric]
      split: option.splits bind_splits)

lemma promote_activate_fields [simp]:
  "ao_VersionID (promote_activate opts s v) = po_VersionID opts" "ao_ClearPrev (promote_activate opts s v) = False"
  "ao_WeightsHash (promote_activate opts s v) = sv_WeightsHash v" "ao_PromoteEligible (promote_activate opts s v)"
  "ao_Action (promote_activate opts s v) = ''promote''"
  by (simp_all add: promote_activate_def)

text \<open>Activation of a version that may go live keeps the invariant.\<close>

lemma ActivateStrategyVersion_inv:
  assumes inv: "reg_inv db" and v: "go_get (db_versions db) (ao_VersionID opts) = Some v"
    and gate: "pointer_ok db (sv_Strategy v) (ao_VersionID opts) \<or>
      ao_PromoteEligible opts \<and> ao_Action opts = ''promote'' \<and> ao_WeightsHash opts = sv_WeightsHash v"
  shows "reg_inv (snd (ActivateStrategyVersion now opts db)) \<and> frozen db (snd (ActivateStrategyVersion now opts db))"
  using activated_inv [OF inv v refl _ gate] inv
  by (simp add: ActivateStrategyVersion_cases [OF inv v] frozen_activated)

lemma Promote_inv:
  assumes inv: "reg_inv db"
  shows "reg_inv (snd (Promote env now opts db)) \<and> frozen db (snd (Promote env now opts db))"
proof (cases "promotable env opts db")
  case False
  with Promote_refused [OF this] inv show ?thesis by simp
next
  case True
  then obtain v s where v: "go_get (db_versions db) (po_VersionID opts) = Some v"
    and p: "Promote env now opts db = ActivateStrategyVersion now (promote_activate opts s v) db"
    by (rule Promote_granted)
  show ?thesis unfolding p by (rule ActivateStrategyVersion_inv [OF inv, of _ v]) (simp_all add: v)
qed

lemma Rollback_cases:
  "Rollback now s actor reason db =
     (case go_get (db_actives db) (or_default s) of
        None \<Rightarrow> (Inl ErrNoActiveStrategy, db)
      | Some cur \<Rightarrow>
          (case sa_PrevVersionID cur of
             None \<Rightarrow> (Inl ErrNoRollbackTarget, db)
           | Some p \<Rightarrow> if p \<le> 0 then (Inl ErrNoRollbackTarget, db)
               else ActivateStrategyVersion now
                 \<lparr>ao_VersionID = p, ao_Actor = or_operator actor, ao_EvalRunID = '''', ao_WeightsHash = '''',
                  ao_PromoteEligible = False, ao_Reason = reason, ao_Action = ''rollback'', ao_ClearPrev = True\<rparr> db))"
  by (auto simp: Rollback_def RollbackStrategyActive_def GetStrategyActive_def or_default_def
      split: option.splits)

lemma Rollback_inv:
  assumes inv: "reg_inv db"
  shows "reg_inv (snd (Rollback now s actor reason db)) \<and> frozen db (snd (Rollback now s actor reason db))"
proof (cases "\<exists>cur p. go_get (db_actives db) (or_default s) = Some cur \<and> sa_PrevVersionID cur = Some p \<and> 0 < p")
  case False
  then have "snd (Rollback now s actor reason db) = db"
    by (auto simp: Rollback_cases not_le split: option.splits)
  then show ?thesis using inv by simp
next
  case True
  then obtain cur p where c: "go_get (db_actives db) (or_default s) = Some cur" "sa_PrevVersionID cur = Some p" "0 < p"
    by blast
  then have ok: "pointer_ok db (or_default s) p" using reg_invD(4) [OF inv] by blast
  then obtain v where v: "go_get (db_versions db) p = Some v" "sv_Strategy v = or_default s"
    by (auto simp: pointer_ok_def)
  show ?thesis using c by (simp add: Rollback_cases ActivateStrategyVersion_inv [OF inv, of _ v] v ok)
qed

lemma reg_step_inv: "reg_inv db \<Longrightarrow> reg_inv (reg_step env db x) \<and> frozen db (reg_step env db x)"
  by (cases x) (simp_all only: reg_step_def reg_op.case Register_inv Promote_inv Rollback_inv MarkCandidate_def
      Retire_def move_status_inv status_ne not_False_eq_True)

interpretation registry: machine "reg_step env" reg_inv "\<lambda>_. True" for env
  by unfold_locales (simp add: reg_step_inv)

section \<open>What every reachable registry satisfies\<close>

definition registry_after :: "reg_env \<Rightarrow> reg_op list \<Rightarrow> strategy_db" where
  "registry_after env xs = foldl (reg_step env) EnsureStrategyTables xs"

lemma registry_after_inv: "reg_inv (registry_after env xs)"
  unfolding registry_after_def by (rule registry.run_inv) (simp_all add: reg_inv_new)

lemma foldl_frozen: "reg_inv db \<Longrightarrow> frozen db (foldl (reg_step env) db xs)"
proof (induction xs arbitrary: db)
  case (Cons x xs)
  from reg_step_inv [OF Cons.prems, of env x] Cons.IH show ?case by (simp add: frozen_trans [of db "reg_step env db x"])
qed simp

lemma registry_after_append: "registry_after env (xs @ ys) = foldl (reg_step env) (registry_after env xs) ys"
  by (simp add: registry_after_def)

lemma filter_key:
  assumes "go_wf m" and "\<And>k v. go_get m k = Some v \<Longrightarrow> P k v \<longleftrightarrow> Some k = k0"
  shows "filter (\<lambda>(k, v). P k v) m =
    (case k0 of None \<Rightarrow> [] | Some k \<Rightarrow> (case go_get m k of None \<Rightarrow> [] | Some v \<Rightarrow> [(k, v)]))"
  using assms
proof (induction m)
  case (Cons e m)
  obtain k v where e: "e = (k, v)" by fastforce
  have wf: "go_wf m" and k: "k \<notin> set (go_keys m)" using Cons.prems(1) e by auto
  have here: "P k v \<longleftrightarrow> Some k = k0" using Cons.prems(2) [of k v] e by simp
  have none: "go_get m k = None" using k by (simp add: map_of_eq_None_iff)
  have pres: "P k' v' \<longleftrightarrow> Some k' = k0" if "go_get m k' = Some v'" for k' v'
    using Cons.prems(2) [of k' v'] that none e by (cases "k' = k") simp_all
  show ?case
    using Cons.IH [OF wf pres] here none e by (cases k0) (auto split: option.splits)
qed (simp split: option.splits)

lemma active_rows:
  assumes "reg_inv db"
  shows "map fst (filter (\<lambda>(i, v). sv_Strategy v = s \<and> sv_Status v = StatusActive) (db_versions db)) =
    (case go_get (db_actives db) s of None \<Rightarrow> [] | Some a \<Rightarrow> [sa_VersionID a])"
proof -
  let ?k = "map_option sa_VersionID (go_get (db_actives db) s)"
  have "(sv_Strategy v = s \<and> sv_Status v = StatusActive) \<longleftrightarrow> Some i = ?k" if g: "go_get (db_versions db) i = Some v" for i v
  proof
    assume "sv_Strategy v = s \<and> sv_Status v = StatusActive"
    then show "Some i = ?k" using reg_invD(3) [OF assms g] by metis
  next
    assume k: "Some i = ?k"
    then obtain a where "go_get (db_actives db) s = Some a" "sa_VersionID a = i" by (cases "go_get (db_actives db) s") auto
    then have "pointer_ok db s i" using reg_invD(4) [OF assms] by metis
    then have "sv_Strategy v = s" using g by (simp add: pointer_ok_def)
    with k show "sv_Strategy v = s \<and> sv_Status v = StatusActive" using reg_invD(3) [OF assms g] by metis
  qed
  from filter_key [OF reg_invD(1) [OF assms] this]
  have "filter (\<lambda>(i, v). sv_Strategy v = s \<and> sv_Status v = StatusActive) (db_versions db) =
    (case ?k of None \<Rightarrow> [] | Some k \<Rightarrow> (case go_get (db_versions db) k of None \<Rightarrow> [] | Some v \<Rightarrow> [(k, v)]))" .
  moreover have "go_get (db_versions db) (sa_VersionID a) \<noteq> None" if "go_get (db_actives db) s = Some a" for a
    using reg_invD(4) [OF assms that] by (auto simp: pointer_ok_def)
  ultimately show ?thesis by (cases "go_get (db_actives db) s") auto
qed

text \<open>C27: in every registry reached from the empty tables by any sequence of register, candidate, retire,
  promote and rollback calls (failing ones included), the active versions of a family are exactly the one
  version the family's pointer names, or none when it has no pointer: at most one version per family is
  ever live.\<close>

theorem one_active_per_strategy:
  "map fst (filter (\<lambda>(i, v). sv_Strategy v = s \<and> sv_Status v = StatusActive) (db_versions (registry_after env xs))) =
   (case go_get (db_actives (registry_after env xs)) s of None \<Rightarrow> [] | Some a \<Rightarrow> [sa_VersionID a])"
  by (rule active_rows [OF registry_after_inv])


text \<open>C28: \<open>Promote\<close> succeeds exactly when the gate's conditions hold: a positive version id that exists,
  a surface that can be read, with ok and promote_eligible set, the version's own non-empty weights hash, and the
  version's strategy name or none.  On success the pointer of the family is the returned one and names the version;
  on every failure the tables are as before.\<close>

theorem promote_gate_exact:
  "case Promote env now opts (registry_after env xs) of
     (Inr a, db') \<Rightarrow> promotable env opts (registry_after env xs) \<and> sa_VersionID a = po_VersionID opts \<and>
        go_get (db_actives db') (sa_Strategy a) = Some a
   | (Inl e, db') \<Rightarrow> \<not> promotable env opts (registry_after env xs) \<and> db' = registry_after env xs"
proof (cases "promotable env opts (registry_after env xs)")
  case False
  with Promote_refused [OF this, of now] show ?thesis by (auto split: prod.split)
next
  case True
  let ?db = "registry_after env xs"
  from True obtain v s where v: "go_get (db_versions ?db) (po_VersionID opts) = Some v"
    and p: "Promote env now opts ?db = ActivateStrategyVersion now (promote_activate opts s v) ?db"
    by (rule Promote_granted)
  note inv = registry_after_inv [of env xs]
  have "sv_Strategy v \<noteq> ''''" using reg_invD(3) [OF inv v] by blast
  moreover have "sa_Strategy a = sv_Strategy v" if "go_get (db_actives ?db) (sv_Strategy v) = Some a" for a
    using reg_invD(4) [OF inv that] by blast
  ultimately show ?thesis using v True
    by (simp add: p ActivateStrategyVersion_cases [OF inv] GetStrategyActive_def or_default_def gmap.get_put
        activated_def activate_pointer_def split: option.split)
qed

text \<open>C29: rollback is one-shot.  When the family's pointer has a previous version, \<open>Rollback\<close> makes it
  the live one and clears the way back, so that an immediate second \<open>Rollback\<close>, by anyone, is refused with
  \<open>ErrNoRollbackTarget\<close> and changes nothing.\<close>

theorem rollback_one_shot:
  assumes "go_get (db_actives (registry_after env xs)) (or_default s) = Some cur"
    and "sa_PrevVersionID cur = Some p"
  shows "\<exists>a. fst (Rollback now s actor reason (registry_after env xs)) = Inr a \<and> sa_VersionID a = p \<and>
    sa_PrevVersionID a = None \<and>
    go_get (db_actives (snd (Rollback now s actor reason (registry_after env xs)))) (or_default s) = Some a \<and>
    Rollback now2 s actor2 reason2 (snd (Rollback now s actor reason (registry_after env xs))) =
      (Inl ErrNoRollbackTarget, snd (Rollback now s actor reason (registry_after env xs)))"
proof -
  let ?db = "registry_after env xs"
  note inv = registry_after_inv [of env xs]
  from reg_invD(4) [OF inv assms(1)] assms(2) have ok: "pointer_ok ?db (or_default s) p" "p \<noteq> sa_VersionID cur" by blast+
  then obtain v where v: "go_get (db_versions ?db) p = Some v" "sv_Strategy v = or_default s"
    by (auto simp: pointer_ok_def)
  have "0 < p" using reg_invD(3) [OF inv v(1)] by simp
  with assms have roll: "Rollback now s actor reason ?db = ActivateStrategyVersion now
      \<lparr>ao_VersionID = p, ao_Actor = or_operator actor, ao_EvalRunID = '''', ao_WeightsHash = '''',
       ao_PromoteEligible = False, ao_Reason = reason, ao_Action = ''rollback'', ao_ClearPrev = True\<rparr> ?db"
    (is "_ = ActivateStrategyVersion now ?o ?db") by (simp add: Rollback_cases)
  have act: "Rollback now s actor reason ?db =
      (Inr (activate_pointer now ?o (or_default s) (Some (sa_VersionID cur))),
       activated now ?o v (Some (sa_VersionID cur)) ?db)"
    unfolding roll using ActivateStrategyVersion_cases [OF inv, of ?o v now] v assms(1) ok(2) by simp
  have "go_get (db_actives (snd (Rollback now s actor reason ?db))) (or_default s) =
      Some (activate_pointer now ?o (or_default s) (Some (sa_VersionID cur)))"
    using v(2) by (simp add: act activated_def gmap.get_put)
  then show ?thesis using Rollback_cases [of now2 s actor2 reason2 "snd (Rollback now s actor reason ?db)"]
    by (simp add: act activate_pointer_def)
qed

section \<open>A registry\<close>

definition reg_env_one :: reg_env where
  "reg_env_one =
     \<lparr>re_Read = (\<lambda>p. if p = ''a.yaml'' then Some ''a'' else if p = ''b.yaml'' then Some ''b''
                   else if p = ''a.json'' then Some ''A'' else if p = ''b.json'' then Some ''B'' else None),
      re_Exists = (\<lambda>p. True), re_Yaml = (\<lambda>b w. Some w), re_Marshal = (\<lambda>w. ''{}''), re_Unmarshal = (\<lambda>s w. Some w),
      re_Surface = (\<lambda>b. if b = ''A'' then Some \<lparr>ss_OK = True, ss_PromoteEligible = True, ss_WeightsHash = ''#a'',
                                         ss_RunID = ''r1'', ss_StrategyName = '''', ss_Status = ''ok''\<rparr>
                        else if b = ''B'' then Some \<lparr>ss_OK = True, ss_PromoteEligible = True, ss_WeightsHash = ''#b'',
                                         ss_RunID = ''r2'', ss_StrategyName = '''', ss_Status = ''ok''\<rparr> else None),
      re_SHA = (\<lambda>b. CHR ''#'' # b)\<rparr>"

definition registry_ops :: "reg_op list" where
  "registry_ops =
     [ORegister 1 True \<lparr>ro_WeightsPath = ''a.yaml'', ro_Strategy = ''default'', ro_GitSHA = '''', ro_Note = '''',
        ro_Actor = '''', ro_Status = ''''\<rparr>,
      ORegister 2 True \<lparr>ro_WeightsPath = ''b.yaml'', ro_Strategy = ''default'', ro_GitSHA = '''', ro_Note = '''',
        ro_Actor = '''', ro_Status = ''''\<rparr>,
      OPromote 3 \<lparr>po_VersionID = 1, po_SurfacePath = ''a.json'', po_Actor = '''', po_Reason = ''''\<rparr>,
      OPromote 4 \<lparr>po_VersionID = 2, po_SurfacePath = ''b.json'', po_Actor = '''', po_Reason = ''''\<rparr>]"

definition live_two :: strategy_active where
  "live_two = \<lparr>sa_Strategy = ''default'', sa_VersionID = 2, sa_PromotedAt = 4, sa_PromotedBy = ''operator'',
     sa_EvalRunID = ''r2'', sa_PrevVersionID = Some 1\<rparr>"

lemma registry_one: "go_get (db_actives (registry_after reg_env_one registry_ops)) ''default'' = Some live_two"
  by code_simp


theorem rollback_one_shot_witness:
  "Rollback 6 '''' ''bob'' '''' (snd (Rollback 5 '''' ''al'' '''' (registry_after reg_env_one registry_ops))) =
     (Inl ErrNoRollbackTarget, snd (Rollback 5 '''' ''al'' '''' (registry_after reg_env_one registry_ops)))"
proof -
  have "go_get (db_actives (registry_after reg_env_one registry_ops)) (or_default '''') = Some live_two"
    by (simp add: or_default_def registry_one)
  moreover have "sa_PrevVersionID live_two = Some 1" by (simp add: live_two_def)
  ultimately show ?thesis using rollback_one_shot by blast
qed

end
