(* ===== verification/Worker_Pool.thy ===== *)
theory Worker_Pool
  imports Go_Collections "HOL-Library.Word"
begin

text \<open>
  \<open>internal/workerpool\<close>: the bounded pool of a pipeline stage, at the grain of its channel operations
  and atomic counters.  A state holds the two channels, the workers and the calls of \<open>Submit\<close> and
  \<open>SubmitWait\<close> (each at a point of its code), the phase of the stop routine and the counters; the
  inductive relations \<open>submit_step\<close>, \<open>worker_step\<close>, \<open>stop_step\<close> and \<open>outside_step\<close> have one rule per
  statement, so that every interleaving of the goroutines is a run.  What \<open>processFunc\<close> returns and
  how long it takes is arbitrary; the counters are unbounded, the sequence number wraps.
  Lemmas: \<open>pool_inv\<close> holds in every reachable state; from the moment the input is closed every internal
  step lowers \<open>work_left\<close>, and some step is possible until the stop has finished.
\<close>

section \<open>Data\<close>

datatype pool_error = ErrPoolStopped | ErrInvalidConfig | ErrQueueFull | ErrCtx

record 'a input =
  in_ID :: string
  in_WorkerID :: nat
  in_Data :: 'a
  in_SubmittedAt :: gotime

record 'r result =
  res_Value :: 'r
  res_Err :: "string option"
  res_Duration :: int

record stats =
  st_Submitted :: int
  st_Completed :: int
  st_Failed :: int
  st_InProgress :: int
  st_TotalDuration :: int

definition AverageDuration :: "stats \<Rightarrow> int" where
  "AverageDuration s =
     (let total = st_Completed s + st_Failed s in if total = 0 then 0 else st_TotalDuration s div total)"

definition Pending :: "stats \<Rightarrow> int" where
  "Pending s = (let p = st_Submitted s - st_Completed s - st_Failed s in if p < 0 then 0 else p)"

function digits_of :: "64 word \<Rightarrow> string \<Rightarrow> string" where
  \<comment> \<open>the loop of \<open>formatID\<close>: the written suffix of the buffer grows to the left\<close>
  "digits_of n buf = (if n = 0 then buf else digits_of (n div 10) (''0123456789'' ! unat (n mod 10) # buf))"
  by pat_completeness auto
termination
  by (relation "measure (\<lambda>(n, b). unat n)") (auto simp: unat_div unat_gt_0 intro!: div_less_dividend)

declare digits_of.simps [simp del]

definition formatID :: "64 word \<Rightarrow> string" where
  "formatID n = (if n = 0 then ''0'' else digits_of n '''')"

datatype ('a, 'r) worker =
    WIdle                  \<comment> \<open>at the select\<close>
  | WGot "'a input"        \<comment> \<open>has an input\<close>
  | WRun "'a input"        \<comment> \<open>in \<open>processFunc\<close>\<close>
  | WTimed "'r result"     \<comment> \<open>has its result, not yet counted\<close>
  | WCounted "'r result"   \<comment> \<open>counted, still in progress\<close>
  | WSend "'r result"      \<comment> \<open>in \<open>sendResult\<close>\<close>
  | WDone                  \<comment> \<open>returned\<close>
  | WPanicked

datatype 'a call =
    CNew bool 'a           \<comment> \<open>\<open>SubmitWait\<close> (True) or \<open>Submit\<close> called\<close>
  | CChecked bool 'a       \<comment> \<open>past the check of \<open>stopped\<close>\<close>
  | CCounted bool "'a input"  \<comment> \<open>at the select\<close>
  | CDone "pool_error option"
  | CPanicked

datatype phase =
    Running
  | StopFlagged | StopClosed | StopWaited | StopCancelled | StopFinished
  | NowFlagged | NowCancelled | NowClosed | NowWaited | NowFinished

record ('a, 'r) pool =
  p_in :: "'a input list"
  p_in_cap :: nat
  p_in_closed :: bool
  p_out :: "'r result list"
  p_out_cap :: nat
  p_out_closed :: bool
  p_discard :: bool
  p_workers :: "('a, 'r) worker list"
  p_calls :: "'a call list"
  p_stopped :: bool
  p_parent :: bool         \<comment> \<open>the context given to \<open>NewPool\<close> is done\<close>
  p_cancel :: bool         \<comment> \<open>\<open>cancel\<close> was called\<close>
  p_phase :: phase
  p_stats :: stats
  p_idSeq :: "64 word"
  p_received :: "'r result list"  \<comment> \<open>what the consumer of \<open>Outputs\<close> has read\<close>

definition pool_done :: "('a, 'r) pool \<Rightarrow> bool" where
  "pool_done p \<longleftrightarrow> p_parent p \<or> p_cancel p"

definition NewPool :: "int \<Rightarrow> int \<Rightarrow> bool \<Rightarrow> bool \<Rightarrow> pool_error + ('a, 'r) pool" where
  "NewPool numWorkers queueSize hasFunc discard =
     (if numWorkers \<le> 0 then Inl ErrInvalidConfig
      else if queueSize \<le> 0 then Inl ErrInvalidConfig
      else if \<not> hasFunc then Inl ErrInvalidConfig
      else
        let outSize = sint (word_of_int (queueSize * 2 + numWorkers) :: 64 word);
            outSize = (if outSize < queueSize then queueSize else outSize)
        in Inr \<lparr>p_in = [], p_in_cap = nat queueSize, p_in_closed = False,
                p_out = [], p_out_cap = (if discard then 0 else nat outSize), p_out_closed = False,
                p_discard = discard, p_workers = replicate (nat numWorkers) WIdle, p_calls = [],
                p_stopped = False, p_parent = False, p_cancel = False, p_phase = Running,
                p_stats = \<lparr>st_Submitted = 0, st_Completed = 0, st_Failed = 0, st_InProgress = 0, st_TotalDuration = 0\<rparr>,
                p_idSeq = 0, p_received = []\<rparr>)"

section \<open>Steps\<close>

abbreviation set_call :: "nat \<Rightarrow> 'a call \<Rightarrow> ('a, 'r) pool \<Rightarrow> ('a, 'r) pool" where
  "set_call i c p \<equiv> p\<lparr>p_calls := (p_calls p)[i := c]\<rparr>"

abbreviation set_worker :: "nat \<Rightarrow> ('a, 'r) worker \<Rightarrow> ('a, 'r) pool \<Rightarrow> ('a, 'r) pool" where
  "set_worker i w p \<equiv> p\<lparr>p_workers := (p_workers p)[i := w]\<rparr>"

abbreviation call_at :: "('a, 'r) pool \<Rightarrow> nat \<Rightarrow> 'a call \<Rightarrow> bool" where
  "call_at p i c \<equiv> i < length (p_calls p) \<and> p_calls p ! i = c"

abbreviation worker_at :: "('a, 'r) pool \<Rightarrow> nat \<Rightarrow> ('a, 'r) worker \<Rightarrow> bool" where
  "worker_at p i w \<equiv> i < length (p_workers p) \<and> p_workers p ! i = w"

definition bump :: "(stats \<Rightarrow> stats) \<Rightarrow> ('a, 'r) pool \<Rightarrow> ('a, 'r) pool" where
  "bump f p = p\<lparr>p_stats := f (p_stats p)\<rparr>"

definition makeInput :: "64 word \<Rightarrow> 'a \<Rightarrow> gotime \<Rightarrow> 'a input" where
  "makeInput seq d now = \<lparr>in_ID = formatID seq, in_WorkerID = 0, in_Data = d, in_SubmittedAt = now\<rparr>"

definition undo :: "('a, 'r) pool \<Rightarrow> ('a, 'r) pool" where
  \<comment> \<open>\<open>p.stats.Submitted.Add(-1)\<close>\<close>
  "undo = bump (st_Submitted_update (\<lambda>n. n - 1))"

inductive submit_step :: "('a, 'r) pool \<Rightarrow> ('a, 'r) pool \<Rightarrow> bool" where
  refused: "call_at p i (CNew w d) \<Longrightarrow> p_stopped p \<Longrightarrow>
    submit_step p (set_call i (CDone (Some ErrPoolStopped)) p)"
| checked: "call_at p i (CNew w d) \<Longrightarrow> \<not> p_stopped p \<Longrightarrow> submit_step p (set_call i (CChecked w d) p)"
| counted: "call_at p i (CChecked w d) \<Longrightarrow>
    submit_step p (set_call i (CCounted w (makeInput (p_idSeq p + 1) d now))
      (bump (st_Submitted_update (\<lambda>n. n + 1)) (p\<lparr>p_idSeq := p_idSeq p + 1\<rparr>)))"
| queued: "call_at p i (CCounted w x) \<Longrightarrow> \<not> p_in_closed p \<Longrightarrow> length (p_in p) < p_in_cap p \<Longrightarrow>
    submit_step p (set_call i (CDone None) (p\<lparr>p_in := p_in p @ [x]\<rparr>))"
| send_on_closed: "call_at p i (CCounted w x) \<Longrightarrow> p_in_closed p \<Longrightarrow> submit_step p (set_call i CPanicked p)"
| ctx_done: "call_at p i (CCounted w x) \<Longrightarrow> submit_step p (set_call i (CDone (Some ErrCtx)) (undo p))"
| pool_ctx_done: "call_at p i (CCounted w x) \<Longrightarrow> pool_done p \<Longrightarrow>
    submit_step p (set_call i (CDone (Some ErrPoolStopped)) (undo p))"
| full: "call_at p i (CCounted False x) \<Longrightarrow> \<not> p_in_closed p \<Longrightarrow> p_in_cap p \<le> length (p_in p) \<Longrightarrow> \<not> pool_done p \<Longrightarrow>
    submit_step p (set_call i (CDone (Some ErrQueueFull)) (undo p))"

inductive worker_step :: "('a, 'r) pool \<Rightarrow> ('a, 'r) pool \<Rightarrow> bool" where
  cancelled: "worker_at p i WIdle \<Longrightarrow> pool_done p \<Longrightarrow> worker_step p (set_worker i WDone p)"
| closed: "worker_at p i WIdle \<Longrightarrow> p_in p = [] \<Longrightarrow> p_in_closed p \<Longrightarrow> worker_step p (set_worker i WDone p)"
| receive: "worker_at p i WIdle \<Longrightarrow> p_in p = x # xs \<Longrightarrow>
    worker_step p (set_worker i (WGot (x\<lparr>in_WorkerID := i\<rparr>)) (p\<lparr>p_in := xs\<rparr>))"
| enter: "worker_at p i (WGot x) \<Longrightarrow>
    worker_step p (set_worker i (WRun x) (bump (st_InProgress_update (\<lambda>n. n + 1)) p))"
| process: "worker_at p i (WRun x) \<Longrightarrow> 0 \<le> res_Duration r \<Longrightarrow>
    worker_step p (set_worker i (WTimed r) (bump (st_TotalDuration_update (\<lambda>n. n + res_Duration r)) p))"
| tally: "worker_at p i (WTimed r) \<Longrightarrow>
    worker_step p (set_worker i (WCounted r)
      (bump (if res_Err r = None then st_Completed_update (\<lambda>n. n + 1) else st_Failed_update (\<lambda>n. n + 1)) p))"
| leave: "worker_at p i (WCounted r) \<Longrightarrow>
    worker_step p (set_worker i (if p_discard p then WIdle else WSend r)
      (bump (st_InProgress_update (\<lambda>n. n - 1)) p))"
| send: "worker_at p i (WSend r) \<Longrightarrow> \<not> p_out_closed p \<Longrightarrow> length (p_out p) < p_out_cap p \<Longrightarrow>
    worker_step p (set_worker i WIdle (p\<lparr>p_out := p_out p @ [r]\<rparr>))"
| send_closed: "worker_at p i (WSend r) \<Longrightarrow> p_out_closed p \<Longrightarrow> worker_step p (set_worker i WPanicked p)"
| drop_result: "worker_at p i (WSend r) \<Longrightarrow> pool_done p \<Longrightarrow> worker_step p (set_worker i WIdle p)"

inductive stop_step :: "('a, 'r) pool \<Rightarrow> ('a, 'r) pool \<Rightarrow> bool" where
  stop: "p_phase p = Running \<Longrightarrow> stop_step p (p\<lparr>p_phase := StopFlagged, p_stopped := True\<rparr>)"
| stop_close: "p_phase p = StopFlagged \<Longrightarrow> stop_step p (p\<lparr>p_phase := StopClosed, p_in_closed := True\<rparr>)"
| stop_wait: "p_phase p = StopClosed \<Longrightarrow> \<forall>w \<in> set (p_workers p). w = WDone \<Longrightarrow> stop_step p (p\<lparr>p_phase := StopWaited\<rparr>)"
| stop_cancel: "p_phase p = StopWaited \<Longrightarrow> stop_step p (p\<lparr>p_phase := StopCancelled, p_cancel := True\<rparr>)"
| stop_finish: "p_phase p = StopCancelled \<Longrightarrow>
    stop_step p (p\<lparr>p_phase := StopFinished, p_out_closed := \<not> p_discard p\<rparr>)"
| now: "p_phase p = Running \<Longrightarrow> stop_step p (p\<lparr>p_phase := NowFlagged, p_stopped := True\<rparr>)"
| now_cancel: "p_phase p = NowFlagged \<Longrightarrow> stop_step p (p\<lparr>p_phase := NowCancelled, p_cancel := True\<rparr>)"
| now_close: "p_phase p = NowCancelled \<Longrightarrow> stop_step p (p\<lparr>p_phase := NowClosed, p_in_closed := True\<rparr>)"
| now_wait: "p_phase p = NowClosed \<Longrightarrow> \<forall>w \<in> set (p_workers p). w = WDone \<Longrightarrow> stop_step p (p\<lparr>p_phase := NowWaited\<rparr>)"
| now_finish: "p_phase p = NowWaited \<Longrightarrow>
    stop_step p (p\<lparr>p_phase := NowFinished, p_out_closed := \<not> p_discard p\<rparr>)"

inductive drain_step :: "('a, 'r) pool \<Rightarrow> ('a, 'r) pool \<Rightarrow> bool" where
  drain: "p_out p = r # rs \<Longrightarrow> drain_step p (p\<lparr>p_out := rs, p_received := p_received p @ [r]\<rparr>)"

inductive outside_step :: "('a, 'r) pool \<Rightarrow> ('a, 'r) pool \<Rightarrow> bool" where
  call: "outside_step p (p\<lparr>p_calls := p_calls p @ [CNew w d]\<rparr>)"
| parent_done: "outside_step p (p\<lparr>p_parent := True\<rparr>)"

definition internal_step :: "('a, 'r) pool \<Rightarrow> ('a, 'r) pool \<Rightarrow> bool" where
  "internal_step p q \<longleftrightarrow> worker_step p q \<or> stop_step p q \<or> drain_step p q"

definition pool_step :: "('a, 'r) pool \<Rightarrow> ('a, 'r) pool \<Rightarrow> bool" where
  "pool_step p q \<longleftrightarrow> internal_step p q \<or> submit_step p q \<or> outside_step p q"

inductive reachable :: "('a, 'r) pool \<Rightarrow> bool" where
  new: "NewPool n q f d = Inr p \<Longrightarrow> reachable p"
| step: "reachable p \<Longrightarrow> pool_step p p' \<Longrightarrow> reachable p'"

section \<open>Sequence numbers\<close>

definition decimal :: "string \<Rightarrow> nat" where
  "decimal s = foldl (\<lambda>a c. 10 * a + (of_char c - 48)) 0 s"

lemma digit_value: "m < 10 \<Longrightarrow> of_char (''0123456789'' ! m) - 48 = m" for m :: nat
proof -
  assume "m < 10"
  then have "m \<in> {0, 1, 2, 3, 4, 5, 6, 7, 8, 9}" by auto
  then show ?thesis by (elim insertE) simp_all
qed

lemma decimal_digits_of: "foldl (\<lambda>a c. 10 * a + (of_char c - 48)) 0 (digits_of n buf) =
  foldl (\<lambda>a c. 10 * a + (of_char c - 48)) (unat n) buf"
proof (induction n buf rule: digits_of.induct)
  case (1 n buf)
  show ?case
  proof (cases "n = 0")
    case True
    then show ?thesis by (simp add: digits_of.simps)
  next
    case False
    have "unat n mod 10 < 10" by simp
    with False 1 show ?thesis
      by (subst digits_of.simps) (simp add: unat_div unat_mod digit_value del: One_nat_def)
  qed
qed

lemma length_digits_of: "unat n < 10 ^ k \<Longrightarrow> length (digits_of n buf) \<le> k + length buf"
proof (induction k arbitrary: n buf)
  case 0
  then have "n = 0" by (simp add: unat_eq_0)
  then show ?case by (simp add: digits_of.simps)
next
  case (Suc k)
  then have "unat (n div 10) < 10 ^ k" by (simp add: unat_div less_mult_imp_div_less mult.commute)
  from Suc.IH [OF this, of "''0123456789'' ! unat (n mod 10) # buf"] show ?case
    by (subst digits_of.simps) simp
qed

text \<open>\<open>formatID\<close> writes a sequence number in decimal: reading the text back gives the number,
  so that two numbers never share an identifier, and the twenty bytes of its buffer are always enough.\<close>

theorem formatID_roundtrip: "decimal (formatID n) = unat n \<and> length (formatID n) \<le> 20"
proof -
  have "unat n < 10 ^ 20" using unsigned_less [of n, where 'a = nat] by simp
  from length_digits_of [OF this, of "''''"] show ?thesis
    using decimal_digits_of [of n "''''"] by (auto simp: formatID_def decimal_def)
qed

section \<open>The invariant\<close>

definition wsum :: "('w \<Rightarrow> int) \<Rightarrow> 'w list \<Rightarrow> int" where
  "wsum f ws = sum_list (map f ws)"

lemma wsum_simps [simp]: "wsum f [] = 0" "wsum f (w # ws) = f w + wsum f ws" "wsum f (xs @ ys) = wsum f xs + wsum f ys"
  by (simp_all add: wsum_def)

lemma wsum_update: "i < length ws \<Longrightarrow> wsum f (ws[i := w]) = wsum f ws - f (ws ! i) + f w"
  by (induction ws arbitrary: i) (auto split: nat.split)

lemma in_set_update: "w \<in> set (ws[i := x]) \<Longrightarrow> w = x \<or> w \<in> set ws"
  using set_update_subset_insert by fastforce

lemma wsum_nonneg: "(\<And>w. 0 \<le> f w) \<Longrightarrow> 0 \<le> wsum f ws"
  by (induction ws) simp_all

lemma wsum_const: "\<forall>w \<in> set ws. f w = 0 \<Longrightarrow> wsum f ws = 0"
  by (induction ws) simp_all

fun w_pending :: "('a, 'r) worker \<Rightarrow> int" where
  \<comment> \<open>holds an input that is not counted as completed or failed\<close>
  "w_pending (WGot x) = 1"
| "w_pending (WRun x) = 1"
| "w_pending (WTimed r) = 1"
| "w_pending _ = 0"

fun w_active :: "('a, 'r) worker \<Rightarrow> int" where
  "w_active (WRun x) = 1"
| "w_active (WTimed r) = 1"
| "w_active (WCounted r) = 1"
| "w_active _ = 0"

fun w_holds :: "('a, 'r) worker \<Rightarrow> int" where
  \<comment> \<open>holds a counted result that is not in the output channel\<close>
  "w_holds (WCounted r) = 1"
| "w_holds (WSend r) = 1"
| "w_holds _ = 0"

fun c_pending :: "'a call \<Rightarrow> int" where
  \<comment> \<open>counted as submitted without an input in the channel\<close>
  "c_pending (CCounted w x) = 1"
| "c_pending CPanicked = 1"
| "c_pending _ = 0"

fun in_closed_phase :: "phase \<Rightarrow> bool" where
  "in_closed_phase ph = (ph \<in> {StopClosed, StopWaited, StopCancelled, StopFinished, NowClosed, NowWaited, NowFinished})"

fun waited_phase :: "phase \<Rightarrow> bool" where
  "waited_phase ph = (ph \<in> {StopWaited, StopCancelled, StopFinished, NowWaited, NowFinished})"

fun own_cancel_phase :: "phase \<Rightarrow> bool" where
  "own_cancel_phase ph = (ph \<in> {StopCancelled, StopFinished, NowCancelled, NowClosed, NowWaited, NowFinished})"

definition counters_inv :: "('a, 'r) pool \<Rightarrow> bool" where
  "counters_inv p \<longleftrightarrow>
     st_Submitted (p_stats p) = st_Completed (p_stats p) + st_Failed (p_stats p) + int (length (p_in p)) +
       wsum w_pending (p_workers p) + wsum c_pending (p_calls p) \<and>
     st_InProgress (p_stats p) = wsum w_active (p_workers p) \<and>
     0 \<le> st_Completed (p_stats p) \<and> 0 \<le> st_Failed (p_stats p) \<and> 0 \<le> st_TotalDuration (p_stats p)"

definition channels_inv :: "('a, 'r) pool \<Rightarrow> bool" where
  "channels_inv p \<longleftrightarrow>
     length (p_in p) \<le> p_in_cap p \<and> length (p_out p) \<le> p_out_cap p \<and>
     p_workers p \<noteq> [] \<and> 0 < p_in_cap p \<and> (p_discard p \<or> 0 < p_out_cap p) \<and>
     (p_discard p \<longrightarrow> (\<forall>w \<in> set (p_workers p). \<forall>r. w \<noteq> WSend r))"

definition phase_inv :: "('a, 'r) pool \<Rightarrow> bool" where
  "phase_inv p \<longleftrightarrow>
     (p_stopped p \<longleftrightarrow> p_phase p \<noteq> Running) \<and>
     (p_in_closed p \<longleftrightarrow> in_closed_phase (p_phase p)) \<and>
     (p_cancel p \<longleftrightarrow> own_cancel_phase (p_phase p)) \<and>
     (p_out_closed p \<longleftrightarrow> \<not> p_discard p \<and> p_phase p \<in> {StopFinished, NowFinished}) \<and>
     (waited_phase (p_phase p) \<longrightarrow> (\<forall>w \<in> set (p_workers p). w = WDone)) \<and>
     (\<forall>w \<in> set (p_workers p). w \<noteq> WPanicked)"

lemmas bumps = bump_def undo_def makeInput_def

lemma counters_step: "counters_inv p \<Longrightarrow> pool_step p q \<Longrightarrow> counters_inv q"
  unfolding pool_step_def internal_step_def counters_inv_def
  by (elim disjE submit_step.cases worker_step.cases stop_step.cases drain_step.cases outside_step.cases)
    (auto simp: wsum_update bumps)

lemma channels_step: "channels_inv p \<Longrightarrow> pool_step p q \<Longrightarrow> channels_inv q"
  unfolding pool_step_def internal_step_def channels_inv_def
  by (elim disjE submit_step.cases worker_step.cases stop_step.cases drain_step.cases outside_step.cases)
    (auto simp: bumps dest!: in_set_update)

definition same_frame :: "('a, 'r) pool \<Rightarrow> ('a, 'r) pool \<Rightarrow> bool" where
  \<comment> \<open>what only the stop routine and the outside write\<close>
  "same_frame p q \<longleftrightarrow>
     p_phase q = p_phase p \<and> p_stopped q = p_stopped p \<and> p_in_closed q = p_in_closed p \<and> p_cancel q = p_cancel p \<and>
     p_out_closed q = p_out_closed p \<and> p_discard q = p_discard p \<and> p_parent q = p_parent p"

lemma submit_frame: "submit_step p q \<Longrightarrow> same_frame p q \<and> p_workers q = p_workers p \<and> p_out q = p_out p"
  by (erule submit_step.cases) (simp_all add: same_frame_def bumps)

lemma drain_frame: "drain_step p q \<Longrightarrow> same_frame p q \<and> p_workers q = p_workers p \<and> p_in q = p_in p"
  by (erule drain_step.cases) (simp add: same_frame_def)

lemma worker_shape:
  assumes "worker_step p q"
  obtains i w where "same_frame p q" "i < length (p_workers p)" "p_workers p ! i \<noteq> WDone"
    "p_workers q = (p_workers p)[i := w]" "w = WPanicked \<longrightarrow> p_out_closed p"
    "w = WDone \<longrightarrow> pool_done p \<or> p_in p = [] \<and> p_in_closed p" "p_in p = [] \<longrightarrow> p_in q = []"
  using assms by (cases rule: worker_step.cases) (auto simp: same_frame_def bumps split: if_splits)

lemma phase_worker: "phase_inv p \<Longrightarrow> worker_step p q \<Longrightarrow> phase_inv q"
proof (erule worker_shape)
  fix i w
  assume inv: "phase_inv p" and fr: "same_frame p q" and i: "i < length (p_workers p)" "p_workers p ! i \<noteq> WDone"
    and q: "p_workers q = (p_workers p)[i := w]" and pan: "w = WPanicked \<longrightarrow> p_out_closed p"
  have alive: "\<not> waited_phase (p_phase p)" using inv i nth_mem [OF i(1)] unfolding phase_inv_def by blast
  then have "\<not> p_out_closed p" using inv unfolding phase_inv_def by auto
  with inv alive fr pan show "phase_inv q"
    unfolding phase_inv_def same_frame_def q by (auto dest!: in_set_update)
qed

lemma phase_stop: "phase_inv p \<Longrightarrow> stop_step p q \<Longrightarrow> phase_inv q"
  by (erule stop_step.cases) (simp_all add: phase_inv_def)

lemma phase_frame: "phase_inv p \<Longrightarrow> same_frame p q \<Longrightarrow> p_workers q = p_workers p \<Longrightarrow> phase_inv q"
  by (simp add: phase_inv_def same_frame_def)

lemma phase_outside: "phase_inv p \<Longrightarrow> outside_step p q \<Longrightarrow> phase_inv q"
  by (erule outside_step.cases) (simp_all add: phase_inv_def)

lemma phase_step: "phase_inv p \<Longrightarrow> pool_step p q \<Longrightarrow> phase_inv q"
  unfolding pool_step_def internal_step_def
  by (metis phase_worker phase_stop phase_frame submit_frame drain_frame phase_outside)

text \<open>Until the context is done no input and no result is given up.\<close>

definition inputs_inv :: "('a, 'r) pool \<Rightarrow> bool" where
  "inputs_inv p \<longleftrightarrow>
     (\<not> pool_done p \<longrightarrow> WDone \<in> set (p_workers p) \<longrightarrow> p_in p = [] \<and> p_in_closed p) \<and>
     (p_phase p \<in> {StopWaited, StopCancelled, StopFinished} \<longrightarrow> \<not> p_parent p \<longrightarrow> p_in p = [])"

definition results_inv :: "('a, 'r) pool \<Rightarrow> bool" where
  "results_inv p \<longleftrightarrow>
     (\<not> p_parent p \<longrightarrow> \<not> p_cancel p \<or> p_phase p \<in> {StopCancelled, StopFinished} \<longrightarrow> \<not> p_discard p \<longrightarrow>
        st_Completed (p_stats p) + st_Failed (p_stats p) =
          int (length (p_received p)) + int (length (p_out p)) + wsum w_holds (p_workers p))"

lemma submit_input: "submit_step p q \<Longrightarrow> p_in_closed p \<Longrightarrow> p_in q = p_in p"
  by (erule submit_step.cases) (simp_all add: bumps)

lemma inputs_submit: "phase_inv p \<Longrightarrow> inputs_inv p \<Longrightarrow> submit_step p q \<Longrightarrow> inputs_inv q"
  using submit_frame [of p q] submit_input [of p q]
  unfolding inputs_inv_def pool_done_def same_frame_def phase_inv_def by auto

lemma inputs_drain: "inputs_inv p \<Longrightarrow> drain_step p q \<Longrightarrow> inputs_inv q"
  using drain_frame [of p q] unfolding inputs_inv_def pool_done_def same_frame_def by auto

lemma inputs_worker: "inputs_inv p \<Longrightarrow> worker_step p q \<Longrightarrow> inputs_inv q"
proof (erule worker_shape)
  fix i w
  assume inv: "inputs_inv p" and fr: "same_frame p q" and q: "p_workers q = (p_workers p)[i := w]"
    and don: "w = WDone \<longrightarrow> pool_done p \<or> p_in p = [] \<and> p_in_closed p" and emp: "p_in p = [] \<longrightarrow> p_in q = []"
  have "p_in q = [] \<and> p_in_closed q" if "\<not> pool_done q" "WDone \<in> set (p_workers q)"
    using that inv fr don emp in_set_update [of WDone "p_workers p" i w]
    unfolding inputs_inv_def same_frame_def pool_done_def q by auto
  moreover have "p_in q = []" if "p_phase q \<in> {StopWaited, StopCancelled, StopFinished}" "\<not> p_parent q"
    using that inv fr emp unfolding inputs_inv_def same_frame_def by auto
  ultimately show "inputs_inv q" unfolding inputs_inv_def by blast
qed

lemma inputs_stop: "channels_inv p \<Longrightarrow> phase_inv p \<Longrightarrow> inputs_inv p \<Longrightarrow> stop_step p q \<Longrightarrow> inputs_inv q"
proof (erule stop_step.cases, goal_cases)
  case (3 p')
  then have "WDone \<in> set (p_workers p)" by (metis channels_inv_def last_in_set)
  moreover have "\<not> p_cancel p" using 3 by (simp add: phase_inv_def)
  ultimately show ?case using 3 by (auto simp: inputs_inv_def pool_done_def)
qed (auto simp: inputs_inv_def pool_done_def phase_inv_def)

lemma results_step: "phase_inv p \<Longrightarrow> results_inv p \<Longrightarrow> submit_step p q \<or> drain_step p q \<or> outside_step p q \<Longrightarrow> results_inv q"
  unfolding results_inv_def
  by (elim disjE submit_step.cases drain_step.cases outside_step.cases) (simp_all add: bumps)

lemma results_stop: "phase_inv p \<Longrightarrow> results_inv p \<Longrightarrow> stop_step p q \<Longrightarrow> results_inv q"
  unfolding results_inv_def phase_inv_def by (erule stop_step.cases) simp_all

lemma results_worker: "phase_inv p \<Longrightarrow> results_inv p \<Longrightarrow> worker_step p q \<Longrightarrow> results_inv q"
proof -
  assume inv: "phase_inv p" "results_inv p" and st: "worker_step p q"
  have alive: "\<not> waited_phase (p_phase p)"
    using worker_shape [OF st] inv(1) unfolding phase_inv_def by (metis nth_mem)
  then have oc: "\<not> p_out_closed p" "p_phase p \<notin> {StopCancelled, StopFinished}" using inv(1) unfolding phase_inv_def by auto
  from st inv(2) oc show ?thesis
    unfolding results_inv_def by cases (auto simp: bumps wsum_update pool_done_def)
qed

definition pool_inv :: "('a, 'r) pool \<Rightarrow> bool" where
  "pool_inv p \<longleftrightarrow> counters_inv p \<and> channels_inv p \<and> phase_inv p \<and> inputs_inv p \<and> results_inv p"

lemma inputs_outside: "inputs_inv p \<Longrightarrow> outside_step p q \<Longrightarrow> inputs_inv q"
  by (erule outside_step.cases) (auto simp: inputs_inv_def pool_done_def)

lemma pool_inv_step: "pool_inv p \<Longrightarrow> pool_step p q \<Longrightarrow> pool_inv q"
proof -
  assume inv: "pool_inv p" and st: "pool_step p q"
  then have c: "channels_inv p" "phase_inv p" "inputs_inv p" "results_inv p" by (simp_all add: pool_inv_def)
  have "inputs_inv q" using st c inputs_submit inputs_drain inputs_worker inputs_stop inputs_outside
    unfolding pool_step_def internal_step_def by metis
  moreover have "results_inv q" using st c results_step results_stop results_worker
    unfolding pool_step_def internal_step_def by metis
  moreover have "counters_inv q" "channels_inv q" "phase_inv q"
    using inv st counters_step channels_step phase_step unfolding pool_inv_def by blast+
  ultimately show ?thesis unfolding pool_inv_def by blast
qed

lemma NewPool_inv: "NewPool n k f d = Inr p \<Longrightarrow> pool_inv p"
  by (auto simp: NewPool_def Let_def pool_inv_def counters_inv_def channels_inv_def phase_inv_def inputs_inv_def
      results_inv_def pool_done_def wsum_const split: if_splits)

lemma reachable_inv: "reachable p \<Longrightarrow> pool_inv p"
  by (induction rule: reachable.induct) (auto intro: NewPool_inv pool_inv_step)

lemma reachable_parts:
  assumes "reachable p"
  shows "counters_inv p" "channels_inv p" "phase_inv p" "inputs_inv p" "results_inv p"
  using reachable_inv [OF assms] by (simp_all add: pool_inv_def)

section \<open>Progress of the stop routine\<close>

fun w_rank :: "('a, 'r) worker \<Rightarrow> int" where
  "w_rank (WGot x) = 7"
| "w_rank (WRun x) = 6"
| "w_rank (WTimed r) = 5"
| "w_rank (WCounted r) = 4"
| "w_rank (WSend r) = 3"
| "w_rank WIdle = 1"
| "w_rank WDone = 0"
| "w_rank WPanicked = 0"

fun phase_rank :: "phase \<Rightarrow> int" where
  "phase_rank StopClosed = 3"
| "phase_rank StopWaited = 2"
| "phase_rank StopCancelled = 1"
| "phase_rank NowClosed = 2"
| "phase_rank NowWaited = 1"
| "phase_rank _ = 0"

definition work_left :: "('a, 'r) pool \<Rightarrow> int" where
  "work_left p = 7 * int (length (p_in p)) + wsum w_rank (p_workers p) + int (length (p_out p)) + phase_rank (p_phase p)"

lemma w_rank_nonneg: "0 \<le> w_rank w"
  by (cases w) simp_all

lemma work_left_nonneg: "0 \<le> work_left p"
  using wsum_nonneg [of w_rank "p_workers p", OF w_rank_nonneg] by (cases "p_phase p") (simp_all add: work_left_def)

lemma work_left_worker: "worker_step p q \<Longrightarrow> work_left q < work_left p"
  by (erule worker_step.cases) (auto simp: work_left_def bumps wsum_update)

lemma work_left_internal: "internal_step p q \<Longrightarrow> in_closed_phase (p_phase p) \<Longrightarrow> work_left q < work_left p"
  unfolding internal_step_def
  by (elim disjE stop_step.cases drain_step.cases) (auto simp: work_left_worker, auto simp: work_left_def)

lemma work_left_submit: "phase_inv p \<Longrightarrow> submit_step p q \<Longrightarrow> in_closed_phase (p_phase p) \<Longrightarrow> work_left q = work_left p"
  using submit_input [of p q] submit_frame [of p q] by (simp add: work_left_def same_frame_def phase_inv_def)

lemma worker_frame: "worker_step p q \<Longrightarrow> same_frame p q"
  by (erule worker_shape)

lemma frame_phase: "same_frame p q \<Longrightarrow> p_phase q = p_phase p"
  by (simp add: same_frame_def)

lemma closed_phase_stop: "stop_step p q \<Longrightarrow> in_closed_phase (p_phase p) \<Longrightarrow> in_closed_phase (p_phase q)"
  by (erule stop_step.cases) simp_all

lemma closed_phase_outside: "outside_step p q \<Longrightarrow> p_phase q = p_phase p \<and> work_left q = work_left p"
  by (erule outside_step.cases) (simp_all add: work_left_def)

lemma closed_phase_step: "pool_step p q \<Longrightarrow> in_closed_phase (p_phase p) \<Longrightarrow> in_closed_phase (p_phase q)"
  unfolding pool_step_def internal_step_def
  by (metis frame_phase worker_frame submit_frame drain_frame closed_phase_stop closed_phase_outside)

lemma work_left_step: "phase_inv p \<Longrightarrow> pool_step p q \<Longrightarrow> in_closed_phase (p_phase p) \<Longrightarrow> work_left q \<le> work_left p"
  unfolding pool_step_def by (metis work_left_internal work_left_submit closed_phase_outside order.strict_implies_order order.refl)

lemma out_open:
  assumes "phase_inv p" and "w \<in> set (p_workers p)" and "w \<noteq> WDone"
  shows "\<not> p_out_closed p"
proof
  assume "p_out_closed p"
  then have "waited_phase (p_phase p)" using assms(1) unfolding phase_inv_def by auto
  then show False using assms unfolding phase_inv_def by blast
qed

lemma worker_can_step:
  assumes "channels_inv p" and "phase_inv p" and "in_closed_phase (p_phase p)" and "w \<in> set (p_workers p)" and "w \<noteq> WDone"
  shows "\<exists>q. worker_step p q \<or> drain_step p q"
proof -
  obtain i where i: "worker_at p i w" using assms(4) by (meson in_set_conv_nth)
  show ?thesis
  proof (cases w)
    case WIdle
    have "p_in_closed p" using assms(2,3) unfolding phase_inv_def by blast
    with i WIdle show ?thesis
      by (cases "p_in p") (blast intro: worker_step.closed worker_step.receive)+
  next
    case (WRun x)
    obtain r :: "'b result" where r: "0 \<le> res_Duration r"
      by (rule that [of "\<lparr>res_Value = undefined, res_Err = None, res_Duration = 0\<rparr>"]) simp
    have "worker_at p i (WRun x)" using i WRun by simp
    from worker_step.process [OF this r] have "\<exists>q. worker_step p q" by (rule exI)
    then show ?thesis by blast
  next
    case (WSend r)
    have oc: "\<not> p_out_closed p" by (rule out_open [OF assms(2,4,5)])
    show ?thesis
    proof (cases "p_out p")
      case Nil
      have "\<not> p_discard p" using assms(1,4) WSend unfolding channels_inv_def by blast
      then have "length (p_out p) < p_out_cap p" using assms(1) Nil by (simp add: channels_inv_def)
      with i WSend oc show ?thesis by (blast intro: worker_step.send)
    next
      case (Cons r' rs)
      then show ?thesis by (blast intro: drain_step.drain)
    qed
  next
    case WPanicked
    then show ?thesis using assms(2,4) unfolding phase_inv_def by blast
  next
    case (WGot x)
    have "worker_at p i (WGot x)" using i WGot by simp
    from worker_step.enter [OF this] show ?thesis by blast
  next
    case (WTimed r)
    have "worker_at p i (WTimed r)" using i WTimed by simp
    from worker_step.tally [OF this] show ?thesis by blast
  next
    case (WCounted r)
    have "worker_at p i (WCounted r)" using i WCounted by simp
    from worker_step.leave [OF this] show ?thesis by blast
  next
    case WDone
    then show ?thesis using assms(5) by contradiction
  qed
qed

lemma internal_enabled:
  assumes "channels_inv p" and "phase_inv p" and "in_closed_phase (p_phase p)"
    and "p_phase p \<noteq> StopFinished" and "p_phase p \<noteq> NowFinished"
  shows "\<exists>q. internal_step p q"
proof (cases "\<forall>w \<in> set (p_workers p). w = WDone")
  case True
  then have "\<exists>q. stop_step p q" using assms(3-5)
    by (cases "p_phase p") (auto intro: stop_step.stop_wait stop_step.stop_cancel stop_step.stop_finish
        stop_step.now_wait stop_step.now_finish)
  then show ?thesis by (auto simp: internal_step_def)
next
  case False
  then show ?thesis using worker_can_step [OF assms(1-3)] by (auto simp: internal_step_def)
qed

inductive internal_run :: "nat \<Rightarrow> ('a, 'r) pool \<Rightarrow> ('a, 'r) pool \<Rightarrow> bool" where
  \<comment> \<open>a run with so many steps of the workers, the stop routine and the consumer\<close>
  here: "internal_run 0 p p"
| internal: "internal_run n p q \<Longrightarrow> internal_step q r \<Longrightarrow> internal_run (Suc n) p r"
| other: "internal_run n p q \<Longrightarrow> pool_step q r \<Longrightarrow> internal_run n p r"

lemma internal_run_work:
  assumes "internal_run n p q" and "phase_inv p" and "in_closed_phase (p_phase p)"
  shows "phase_inv q \<and> in_closed_phase (p_phase q) \<and> work_left q + int n \<le> work_left p"
  using assms
proof (induction rule: internal_run.induct)
  case (internal n p q r)
  then have q: "phase_inv q" "in_closed_phase (p_phase q)" "work_left q + int n \<le> work_left p" by blast+
  have "pool_step q r" using internal(2) by (simp add: pool_step_def)
  from phase_step [OF q(1) this] closed_phase_step [OF this q(2)] work_left_internal [OF internal(2) q(2)] q(3)
  show ?case by (simp del: in_closed_phase.simps)
next
  case (other n p q r)
  then have q: "phase_inv q" "in_closed_phase (p_phase q)" "work_left q + int n \<le> work_left p" by blast+
  from phase_step [OF q(1) other(2)] closed_phase_step [OF other(2) q(2)] work_left_step [OF q(1) other(2) q(2)] q(3)
  show ?case by (simp del: in_closed_phase.simps)
qed simp

lemma internal_run_reachable: "internal_run n p q \<Longrightarrow> reachable p \<Longrightarrow> reachable q"
  by (induction rule: internal_run.induct) (auto intro: reachable.step simp: pool_step_def)

section \<open>What the pool promises\<close>

text \<open>the counters of a pool are exact in every interleaving.  The submissions not yet completed or
  failed are the inputs in the channel, those a worker holds and those of calls between their count and
  their return; the work in progress is that of the workers between its two counts; and both channels stay
  within their capacities.\<close>

theorem pool_counters_exact:
  assumes "reachable p"
  shows "Pending (p_stats p) = int (length (p_in p)) + wsum w_pending (p_workers p) + wsum c_pending (p_calls p) \<and>
    st_InProgress (p_stats p) = wsum w_active (p_workers p) \<and>
    length (p_in p) \<le> p_in_cap p \<and> length (p_out p) \<le> p_out_cap p"
proof -
  have "0 \<le> wsum w_pending (p_workers p)"
  proof (rule wsum_nonneg)
    show "0 \<le> w_pending w" for w :: "('a, 'b) worker" by (cases w) simp_all
  qed
  moreover have "0 \<le> wsum c_pending (p_calls p)"
  proof (rule wsum_nonneg)
    show "0 \<le> c_pending c" for c :: "'a call" by (cases c) simp_all
  qed
  ultimately show ?thesis
    using reachable_parts(1,2) [OF assms] by (simp add: counters_inv_def channels_inv_def Pending_def Let_def)
qed

text \<open>C32: a stop finishes.  Once the input channel is closed, whatever calls and cancellations come in
  between, the workers, the stop routine and a consumer of the outputs can take only a bounded number of
  steps, and as long as the stop has not returned one of them can move; so a stop whose outputs are drained
  and whose \<open>processFunc\<close> returns always returns.\<close>

theorem stop_finishes:
  assumes "reachable p" and "p_in_closed p" and "internal_run n p q"
  shows "int n \<le> work_left p \<and> (p_phase q \<in> {StopFinished, NowFinished} \<or> (\<exists>r. internal_step q r))"
proof -
  have ph: "phase_inv p" "in_closed_phase (p_phase p)"
    using reachable_parts(3) [OF assms(1)] assms(2) by (simp_all add: phase_inv_def)
  note q = internal_run_work [OF assms(3) ph]
  have "channels_inv q" using reachable_parts(2) internal_run_reachable assms(1,3) by blast
  then have "(\<exists>r. internal_step q r) \<or> p_phase q \<in> {StopFinished, NowFinished}"
    using internal_enabled [of q] q by blast
  moreover have "int n \<le> work_left p" using q work_left_nonneg [of q] by linarith
  ultimately show ?thesis by blast
qed

text \<open>C33: the graceful stop loses nothing.  When \<open>Stop\<close> has returned and the pool's context was not
  cancelled from outside, the input channel is empty and nothing is in progress; every input that was accepted
  has been counted as completed or failed, and, unless the pool discards its outputs, every result was
  delivered or waits in the closed output channel.\<close>

theorem graceful_stop_drains:
  assumes "reachable p" and "p_phase p = StopFinished" and "\<not> p_parent p"
  shows "p_in p = [] \<and> st_InProgress (p_stats p) = 0 \<and>
    st_Completed (p_stats p) + st_Failed (p_stats p) = st_Submitted (p_stats p) - wsum c_pending (p_calls p) \<and>
    (p_discard p \<or> st_Completed (p_stats p) + st_Failed (p_stats p) = int (length (p_received p) + length (p_out p)))"
proof -
  note r = reachable_parts [OF assms(1)]
  have don: "\<forall>w \<in> set (p_workers p). w = WDone" using r(3) assms(2) by (simp add: phase_inv_def)
  then have z: "wsum w_active (p_workers p) = 0" "wsum w_pending (p_workers p) = 0" "wsum w_holds (p_workers p) = 0"
    by (auto intro!: wsum_const)
  have emp: "p_in p = []" using r(4) assms(2,3) by (simp add: inputs_inv_def)
  moreover have "p_discard p \<or>
      st_Completed (p_stats p) + st_Failed (p_stats p) = int (length (p_received p) + length (p_out p))"
    using r(5) assms(2,3) z by (auto simp: results_inv_def)
  ultimately show ?thesis using r(1) z by (simp add: counters_inv_def)
qed

text \<open>no worker ever sends on the closed output channel: in every reachable state no worker has
  panicked, and once the output is closed every worker has returned.\<close>

theorem workers_never_panic:
  assumes "reachable p"
  shows "WPanicked \<notin> set (p_workers p) \<and> (p_out_closed p \<longrightarrow> set (p_workers p) \<subseteq> {WDone})"
proof -
  note ph = reachable_parts(3) [OF assms]
  have "WPanicked \<notin> set (p_workers p)" using ph unfolding phase_inv_def by blast
  with out_open [OF ph] show ?thesis by blast
qed

section \<open>A run\<close>

lemma reach:
  "reachable p \<Longrightarrow> submit_step p q \<Longrightarrow> reachable q"
  "reachable p \<Longrightarrow> worker_step p q \<Longrightarrow> reachable q"
  "reachable p \<Longrightarrow> stop_step p q \<Longrightarrow> reachable q"
  "reachable p \<Longrightarrow> drain_step p q \<Longrightarrow> reachable q"
  "reachable p \<Longrightarrow> outside_step p q \<Longrightarrow> reachable q"
  by (auto intro: reachable.step simp: pool_step_def internal_step_def)

definition pool_one :: "(int, int) pool" where
  "pool_one = \<lparr>p_in = [], p_in_cap = 1, p_in_closed = False, p_out = [], p_out_cap = 3, p_out_closed = False,
     p_discard = False, p_workers = [WIdle], p_calls = [], p_stopped = False, p_parent = False, p_cancel = False,
     p_phase = Running,
     p_stats = \<lparr>st_Submitted = 0, st_Completed = 0, st_Failed = 0, st_InProgress = 0, st_TotalDuration = 0\<rparr>,
     p_idSeq = 0, p_received = []\<rparr>"

lemma reachable_one: "reachable pool_one"
  by (rule reachable.new [of 1 1 True False]) (simp add: NewPool_def pool_one_def)

lemma reachable_counted:
  "reachable (pool_one\<lparr>p_calls := [CCounted True (makeInput 1 7 100)], p_idSeq := 1,
     p_stats := (p_stats pool_one)\<lparr>st_Submitted := 1\<rparr>\<rparr>)"
proof -
  note r1 = reach(5) [OF reachable_one outside_step.call [where w = True and d = 7], simplified pool_one_def, simplified]
  note r2 = reach(1) [OF r1 submit_step.checked [where i = 0 and w = True and d = 7], simplified]
  note r3 = reach(1) [OF r2 submit_step.counted [where i = 0 and w = True and d = 7 and now = 100], simplified bump_def, simplified]
  from r3 show ?thesis by (simp add: pool_one_def)
qed

lemma reachable_panicked:
  "reachable (pool_one\<lparr>p_calls := [CPanicked], p_idSeq := 1, p_stats := (p_stats pool_one)\<lparr>st_Submitted := 1\<rparr>,
     p_stopped := True, p_in_closed := True, p_phase := StopClosed\<rparr>)"
proof -
  note r1 = reach(3) [OF reachable_counted stop_step.stop, simplified pool_one_def, simplified]
  note r2 = reach(3) [OF r1 stop_step.stop_close, simplified]
  note r3 = reach(1) [OF r2 submit_step.send_on_closed [where i = 0 and w = True and x = "makeInput 1 7 100"], simplified]
  from r3 show ?thesis by (simp add: pool_one_def)
qed

definition pool_finished :: "(int, int) pool" where
  "pool_finished = pool_one\<lparr>p_in_closed := True, p_out := [\<lparr>res_Value = 49, res_Err = None, res_Duration = 5\<rparr>],
     p_out_closed := True, p_workers := [WDone], p_calls := [CDone None], p_stopped := True, p_cancel := True,
     p_phase := StopFinished, p_idSeq := 1,
     p_stats := \<lparr>st_Submitted = 1, st_Completed = 1, st_Failed = 0, st_InProgress = 0, st_TotalDuration = 5\<rparr>\<rparr>"

lemma reachable_finished: "reachable pool_finished"
proof -
  let ?x = "makeInput 1 7 100 :: int input" and ?r = "\<lparr>res_Value = 49 :: int, res_Err = None, res_Duration = 5\<rparr>"
  note q = reach(1) [OF reachable_counted submit_step.queued [where i = 0 and w = True and x = ?x], simplified pool_one_def, simplified]
  note w1 = reach(2) [OF q worker_step.receive [where i = 0 and x = ?x and xs = "[]"], simplified]
  note w2 = reach(2) [OF w1 worker_step.enter [where i = 0 and x = "?x\<lparr>in_WorkerID := 0\<rparr>"], simplified bump_def, simplified]
  note w3 = reach(2) [OF w2 worker_step.process [where i = 0 and x = "?x\<lparr>in_WorkerID := 0\<rparr>" and r = ?r], simplified bump_def, simplified]
  note w4 = reach(2) [OF w3 worker_step.tally [where i = 0 and r = ?r], simplified bump_def, simplified]
  note w5 = reach(2) [OF w4 worker_step.leave [where i = 0 and r = ?r], simplified bump_def, simplified]
  note w6 = reach(2) [OF w5 worker_step.send [where i = 0 and r = ?r], simplified]
  note s1 = reach(3) [OF w6 stop_step.stop, simplified]
  note s2 = reach(3) [OF s1 stop_step.stop_close, simplified]
  note w7 = reach(2) [OF s2 worker_step.closed [where i = 0], simplified]
  note s3 = reach(3) [OF w7 stop_step.stop_wait, simplified]
  note s4 = reach(3) [OF s3 stop_step.stop_cancel, simplified]
  note s5 = reach(3) [OF s4 stop_step.stop_finish, simplified]
  from s5 show ?thesis by (simp add: pool_finished_def pool_one_def)
qed
theorem pool_counters_exact_witness:
  "Pending (p_stats pool_finished) = int (length (p_in pool_finished)) + wsum w_pending (p_workers pool_finished) +
     wsum c_pending (p_calls pool_finished) \<and> length (p_out pool_finished) \<le> 3"
  using pool_counters_exact [OF reachable_finished] by (simp add: pool_finished_def pool_one_def)

theorem stop_finishes_witness:
  "p_phase pool_finished \<in> {StopFinished, NowFinished} \<or> (\<exists>r. internal_step pool_finished r)"
proof -
  have "p_in_closed pool_finished" by (simp add: pool_finished_def)
  from stop_finishes [OF reachable_finished this internal_run.here] show ?thesis by blast
qed

theorem graceful_stop_drains_witness:
  "p_in pool_finished = [] \<and>
   st_Completed (p_stats pool_finished) + st_Failed (p_stats pool_finished) =
     int (length (p_received pool_finished) + length (p_out pool_finished))"
proof -
  have "p_phase pool_finished = StopFinished" "\<not> p_parent pool_finished" "\<not> p_discard pool_finished"
    by (simp_all add: pool_finished_def pool_one_def)
  with graceful_stop_drains [OF reachable_finished this(1,2)] show ?thesis by blast
qed

theorem workers_never_panic_witness: "WPanicked \<notin> set (p_workers pool_finished) \<and> p_out_closed pool_finished"
  using workers_never_panic [OF reachable_finished] by (simp add: pool_finished_def)

text \<open>C34: \<open>Submit\<close> and \<open>SubmitWait\<close> are not safe against a concurrent \<open>Stop\<close>.  There is an
  interleaving, without any cancellation, in which a call checks \<open>stopped\<close>, the stop closes the input channel, and
  the call then sends on the closed channel and panics, instead of returning \<open>ErrPoolStopped\<close>.\<close>

theorem submit_race_panics:
  "\<exists>p :: (int, int) pool. reachable p \<and> CPanicked \<in> set (p_calls p) \<and> \<not> p_parent p \<and> p_phase p = StopClosed"
  by (rule exI, rule conjI [OF reachable_panicked]) (simp add: pool_one_def)

section \<open>Bridge and drain\<close>

datatype 'a bridge_event =
    BCtxDone
  | BClosed
  | BResult "'a result" "pool_error option"  \<comment> \<open>with what \<open>dest.SubmitWait\<close> answers, when it is called\<close>

datatype bridge_report = FromUpstream string | FromDest pool_error

fun Bridge :: "'a bridge_event list \<Rightarrow> 'a list \<times> bridge_report list" where
  \<comment> \<open>what the select of the loop yields, in order, to the values offered downstream and the calls of \<open>onErr\<close>\<close>
  "Bridge [] = ([], [])"
| "Bridge (BCtxDone # evs) = ([], [])"
| "Bridge (BClosed # evs) = ([], [])"
| "Bridge (BResult res answer # evs) =
     (case res_Err res of
        Some e \<Rightarrow> (let (sent, errs) = Bridge evs in (sent, FromUpstream e # errs))
      | None \<Rightarrow>
          (case answer of
             None \<Rightarrow> (let (sent, errs) = Bridge evs in (res_Value res # sent, errs))
           | Some e \<Rightarrow>
               if e = ErrPoolStopped \<or> e = ErrCtx then ([res_Value res], [FromDest e])
               else (let (sent, errs) = Bridge evs in (res_Value res # sent, FromDest e # errs))))"

fun Drain :: "'a bridge_event list \<Rightarrow> nat" where
  \<comment> \<open>how many results are read and dropped\<close>
  "Drain [] = 0"
| "Drain (BCtxDone # evs) = 0"
| "Drain (BClosed # evs) = 0"
| "Drain (BResult res answer # evs) = Suc (Drain evs)"

fun bridge_goes_on :: "'a bridge_event \<Rightarrow> bool" where
  "bridge_goes_on (BResult res answer) \<longleftrightarrow> res_Err res \<noteq> None \<or> answer \<notin> {Some ErrPoolStopped, Some ErrCtx}"
| "bridge_goes_on _ \<longleftrightarrow> False"

fun bridge_value :: "'a bridge_event \<Rightarrow> 'a option" where
  "bridge_value (BResult res answer) = (if res_Err res = None then Some (res_Value res) else None)"
| "bridge_value _ = None"

text \<open>a bridge offers downstream exactly the successful upstream values, in order and once each, up
  to the first event that ends it; without such an event nothing is lost.\<close>

theorem bridge_in_order:
  "\<exists>tail. fst (Bridge evs) = List.map_filter bridge_value (takeWhile bridge_goes_on evs) @ tail \<and> length tail \<le> 1 \<and>
     (takeWhile bridge_goes_on evs = evs \<longrightarrow> tail = [])"
proof (induction evs rule: Bridge.induct)
  case (4 res answer evs)
  then show ?case
    by (cases "res_Err res"; cases answer)
      (auto simp: List.map_filter_simps split: prod.splits option.splits)
qed (simp_all add: List.map_filter_simps)

end
