(* ===== verification/Paginate.thy ===== *)
theory Paginate
  imports Go_Text "HOL-Library.Sublist"
begin

text \<open>
  \<open>internal/fetcher/paginate.go\<close>: the two loops that collect the pages of an API.  The server is a function
  of the number of the request and of its offset or cursor, the context one that says at each check whether
  it is done.  Neither loop has a bound of its own, so both are partial functions: \<open>None\<close> is a fetch
  that never returns.
  Lemmas: against a server that pages one list by offset the fetch returns and is complete when its limit is
  the real page size; a walk along the cursors of a server returns the pages of the walk; a server that repeats
  its cursor is never left.
\<close>

section \<open>Requests\<close>

datatype fetch_error = FetchCtx | FetchTransport | FetchStatus int string | FetchRead | FetchDecode | FetchBaseURL

datatype 'a page_response =
    TransportError
  | BadStatus int string       \<comment> \<open>a status other than 200, with the body\<close>
  | Undecodable
  | Page "'a list"

datatype 'a keyset_response =
    KsTransportError
  | KsReadError
  | KsBadStatus int string
  | KsUndecodable
  | KsPage "'a list" string    \<comment> \<open>the events and \<open>next_cursor\<close>, empty when omitted\<close>

definition deep_offset :: "int \<Rightarrow> string \<Rightarrow> bool" where
  "deep_offset code body \<longleftrightarrow> code = 422 \<and> (sublist ''offset too large'' body \<or> sublist ''keyset'' body)"

definition enough :: "int \<Rightarrow> 'a list \<Rightarrow> bool" where
  "enough limitThreshold acc \<longleftrightarrow> limitThreshold > 0 \<and> int (length acc) \<ge> limitThreshold"

partial_function (option) fetch_pages ::
  "(nat \<Rightarrow> bool) \<Rightarrow> (nat \<Rightarrow> nat \<Rightarrow> 'a page_response) \<Rightarrow> int \<Rightarrow> int \<Rightarrow> nat \<Rightarrow> nat \<Rightarrow> 'a list \<Rightarrow>
   ('a list \<times> fetch_error option) option" where
  \<comment> \<open>the loop of \<open>FetchPaginated\<close> at its \<open>k\<close>th request; the context is checked twice per request\<close>
  "fetch_pages done server limit thr k offset acc =
     (if done (2 * k) then Some (acc, Some FetchCtx)
      else case server k offset of
        TransportError \<Rightarrow> Some ([], Some FetchTransport)
      | BadStatus code body \<Rightarrow>
          if acc \<noteq> [] \<and> deep_offset code body then Some (acc, None) else Some ([], Some (FetchStatus code body))
      | Undecodable \<Rightarrow> Some ([], Some FetchDecode)
      | Page pg \<Rightarrow>
          if pg = [] then Some (acc, None)
          else if enough thr (acc @ pg) then Some (acc @ pg, None)
          else if int (length pg) < limit then Some (acc @ pg, None)
          else if done (2 * k + 1) then Some (acc @ pg, Some FetchCtx)
          else fetch_pages done server limit thr (k + 1) (offset + length pg) (acc @ pg))"

definition FetchPaginated ::
  "(nat \<Rightarrow> bool) \<Rightarrow> (nat \<Rightarrow> nat \<Rightarrow> 'a page_response) \<Rightarrow> int \<Rightarrow> int \<Rightarrow> ('a list \<times> fetch_error option) option" where
  "FetchPaginated done server limit thr = fetch_pages done server limit thr 0 0 []"

partial_function (option) fetch_keyset ::
  "(nat \<Rightarrow> bool) \<Rightarrow> (nat \<Rightarrow> int \<Rightarrow> string \<Rightarrow> 'a keyset_response) \<Rightarrow> int \<Rightarrow> int \<Rightarrow> nat \<Rightarrow> string \<Rightarrow> 'a list \<Rightarrow>
   ('a list \<times> fetch_error option) option" where
  "fetch_keyset done server limit thr k cursor acc =
     (if done (2 * k) then Some (acc, Some FetchCtx)
      else case server k limit cursor of
        KsTransportError \<Rightarrow> Some ([], Some FetchTransport)
      | KsReadError \<Rightarrow> Some ([], Some FetchRead)
      | KsBadStatus code body \<Rightarrow> Some ([], Some (FetchStatus code body))
      | KsUndecodable \<Rightarrow> Some ([], Some FetchDecode)
      | KsPage events next \<Rightarrow>
          if events = [] then Some (acc, None)
          else if enough thr (acc @ events) then Some (acc @ events, None)
          else if next = '''' then Some (acc @ events, None)
          else if done (2 * k + 1) then Some (acc @ events, Some FetchCtx)
          else fetch_keyset done server limit thr (k + 1) next (acc @ events))"

definition FetchPaginatedKeyset ::
  "(nat \<Rightarrow> bool) \<Rightarrow> (nat \<Rightarrow> int \<Rightarrow> string \<Rightarrow> 'a keyset_response) \<Rightarrow> int \<Rightarrow> int \<Rightarrow> ('a list \<times> fetch_error option) option" where
  "FetchPaginatedKeyset done server limit thr =
     fetch_keyset done server (if limit \<le> 0 then 100 else limit) thr 0 '''' []"

section \<open>A server that pages a list\<close>

definition offset_server :: "'a list \<Rightarrow> nat \<Rightarrow> nat \<Rightarrow> nat \<Rightarrow> nat \<Rightarrow> 'a page_response" where
  \<comment> \<open>pages of the requested size, but never of more than \<open>cap\<close> entries\<close>
  "offset_server xs limit cap k offset = Page (take (min limit cap) (drop offset xs))"

lemma fetch_pages_complete:
  assumes "0 < limit" and "limit \<le> cap" and "thr \<le> 0"
  shows "fetch_pages (\<lambda>_. False) (offset_server xs limit cap) (int limit) thr k offset acc =
    Some (acc @ drop offset xs, None)"
  using assms
proof (induction "length xs - offset" arbitrary: k offset acc rule: less_induct)
  case less
  show ?case
  proof (cases "length xs - offset < limit")
    case True
    with less.prems show ?thesis
      by (subst fetch_pages.simps) (auto simp: offset_server_def enough_def min_def)
  next
    case False
    let ?pg = "take limit (drop offset xs)"
    have len: "length ?pg = limit" using False by simp
    then have ne: "?pg \<noteq> []" using less.prems by auto
    have "length xs - (offset + limit) < length xs - offset" using False less.prems by simp
    from less.hyps [OF this less.prems, of "k + 1" "acc @ ?pg"] have
      "fetch_pages (\<lambda>_. False) (offset_server xs limit cap) (int limit) thr (k + 1) (offset + limit) (acc @ ?pg) =
        Some ((acc @ ?pg) @ drop (offset + limit) xs, None)" .
    moreover have "?pg @ drop (offset + limit) xs = drop offset xs"
      by (metis append_take_drop_id drop_drop add.commute)
    ultimately show ?thesis using less.prems len ne
      by (subst fetch_pages.simps) (simp add: offset_server_def enough_def min_absorb1)
  qed
qed

text \<open>against a server that pages a fixed list, a fetch without threshold or cancellation returns.
  When its limit is at most the server's own page size, it returns the whole list; when it asks for more, every
  page looks short, and it silently returns the first page only.\<close>

theorem fetch_paginated_total:
  assumes "0 < limit" and "0 < cap" and "thr \<le> 0"
  shows "FetchPaginated (\<lambda>_. False) (offset_server xs limit cap) (int limit) thr =
    Some (if limit \<le> cap then xs else take cap xs, None)"
proof (cases "limit \<le> cap")
  case True
  then show ?thesis using fetch_pages_complete [OF assms(1) True assms(3), where k = 0 and offset = 0 and acc = "[]" and xs = xs] by (simp add: FetchPaginated_def)
next
  case False
  then show ?thesis using assms unfolding FetchPaginated_def
    by (subst fetch_pages.simps) (auto simp: offset_server_def enough_def min_def)
qed

theorem fetch_paginated_total_witness:
  "FetchPaginated (\<lambda>_. False) (offset_server [1, 2, 3, 4, 5 :: int] 2 2) 2 0 = Some ([1, 2, 3, 4, 5], None) \<and>
   FetchPaginated (\<lambda>_. False) (offset_server [1, 2, 3, 4, 5 :: int] 4 2) 4 0 = Some ([1, 2], None)"
  using fetch_paginated_total [of 2 2 0 "[1, 2, 3, 4, 5 :: int]"] fetch_paginated_total [of 4 2 0 "[1, 2, 3, 4, 5 :: int]"]
  by simp

section \<open>Cursors\<close>

fun cursor_walk :: "(nat \<Rightarrow> int \<Rightarrow> string \<Rightarrow> 'a keyset_response) \<Rightarrow> int \<Rightarrow> nat \<Rightarrow> string \<Rightarrow> 'a list list \<Rightarrow> bool" where
  \<comment> \<open>the pages the server gives along its cursors, the last one without a next cursor\<close>
  "cursor_walk server limit k c [] \<longleftrightarrow> False"
| "cursor_walk server limit k c (pg # pgs) \<longleftrightarrow>
     pg \<noteq> [] \<and>
     (case server k limit c of
        KsPage events nxt \<Rightarrow> events = pg \<and> (if pgs = [] then nxt = '''' else nxt \<noteq> '''' \<and> cursor_walk server limit (k + 1) nxt pgs)
      | _ \<Rightarrow> False)"

lemma fetch_keyset_walk:
  "cursor_walk server limit k c pgs \<Longrightarrow> thr \<le> 0 \<Longrightarrow>
   fetch_keyset (\<lambda>_. False) server limit thr k c acc = Some (acc @ concat pgs, None)"
proof (induction pgs arbitrary: k c acc)
  case (Cons pg pgs)
  then obtain nxt where s: "server k limit c = KsPage pg nxt" "pg \<noteq> []"
    and n: "if pgs = [] then nxt = '''' else nxt \<noteq> '''' \<and> cursor_walk server limit (k + 1) nxt pgs"
    by (auto split: keyset_response.splits if_splits)
  show ?case
  proof (cases "pgs = []")
    case True
    with s n Cons.prems show ?thesis by (subst fetch_keyset.simps) (simp add: enough_def)
  next
    case False
    with n Cons have "fetch_keyset (\<lambda>_. False) server limit thr (k + 1) nxt (acc @ pg) = Some ((acc @ pg) @ concat pgs, None)"
      by simp
    with False s n Cons.prems(2) show ?thesis by (subst fetch_keyset.simps) (simp add: enough_def)
  qed
qed simp

lemma fetch_keyset_stuck:
  assumes ret: "fetch_keyset (\<lambda>_. False) server limit thr k c' acc = Some y"
    and s: "\<And>k c'. \<exists>ev. ev \<noteq> [] \<and> server k limit c' = KsPage ev c" and c: "c \<noteq> ''''" and t: "thr \<le> 0"
  shows False
proof -
  let ?P = "\<lambda>(dn :: nat \<Rightarrow> bool) sv l th (k :: nat) (c' :: string) (acc :: 'a list) (y :: 'a list \<times> fetch_error option).
     \<not> (dn = (\<lambda>_. False) \<and> sv = server \<and> l = limit \<and> th = thr)"
  have "?P (\<lambda>_. False) server limit thr k c' acc y"
  proof (rule fetch_keyset.raw_induct [where P = ?P, OF _ ret])
    fix f dn sv l th k c' acc y
    assume IH: "\<And>dn sv l th k c' acc y. f dn sv l th k c' acc = Some y \<Longrightarrow> ?P dn sv l th k c' acc y"
      and eq: "(if dn (2 * k) then Some (acc, Some FetchCtx)
      else case sv k l c' of
        KsTransportError \<Rightarrow> Some ([], Some FetchTransport)
      | KsReadError \<Rightarrow> Some ([], Some FetchRead)
      | KsBadStatus code body \<Rightarrow> Some ([], Some (FetchStatus code body))
      | KsUndecodable \<Rightarrow> Some ([], Some FetchDecode)
      | KsPage events next \<Rightarrow>
          if events = [] then Some (acc, None)
          else if enough th (acc @ events) then Some (acc @ events, None)
          else if next = '''' then Some (acc @ events, None)
          else if dn (2 * k + 1) then Some (acc @ events, Some FetchCtx)
          else f dn sv l th (k + 1) next (acc @ events)) = Some y"
    show "?P dn sv l th k c' acc y"
    proof
    assume here: "dn = (\<lambda>_. False) \<and> sv = server \<and> l = limit \<and> th = thr"
    obtain ev where "ev \<noteq> []" "server k limit c' = KsPage ev c" using s by blast
    with eq here c t have "f dn sv l th (k + 1) c (acc @ ev) = Some y" by (simp add: enough_def)
    with IH here show False by blast
    qed
  qed
  then show False by simp
qed

text \<open>C35: a keyset fetch without threshold or cancellation returns exactly the pages that lie along the
  server's cursors, once the walk ends; but it does not compare a cursor with the one before, so on a server that
  goes on answering with the same cursor it never returns.\<close>

theorem keyset_follows_cursors:
  assumes "thr \<le> 0" and "0 < limit"
  shows "(cursor_walk server limit 0 '''' pgs \<longrightarrow> FetchPaginatedKeyset (\<lambda>_. False) server limit thr = Some (concat pgs, None)) \<and>
    (c \<noteq> '''' \<and> (\<forall>k c'. \<exists>ev. ev \<noteq> [] \<and> server k limit c' = KsPage ev c) \<longrightarrow>
       FetchPaginatedKeyset (\<lambda>_. False) server limit thr = None)"
proof (intro conjI impI)
  assume "cursor_walk server limit 0 '''' pgs"
  from fetch_keyset_walk [OF this assms(1), of "[]"] assms(2)
  show "FetchPaginatedKeyset (\<lambda>_. False) server limit thr = Some (concat pgs, None)" by (simp add: FetchPaginatedKeyset_def)
next
  assume "c \<noteq> '''' \<and> (\<forall>k c'. \<exists>ev. ev \<noteq> [] \<and> server k limit c' = KsPage ev c)"
  then show "FetchPaginatedKeyset (\<lambda>_. False) server limit thr = None"
    using fetch_keyset_stuck [of server limit thr 0 "''''" "[]"] assms
    by (cases "fetch_keyset (\<lambda>_. False) server limit thr 0 '''' []") (auto simp: FetchPaginatedKeyset_def)
qed

definition three_pages :: "nat \<Rightarrow> int \<Rightarrow> string \<Rightarrow> int keyset_response" where
  "three_pages k limit c =
     (if c = '''' then KsPage [1, 2] ''a'' else if c = ''a'' then KsPage [3, 4] ''b'' else KsPage [5] '''')"

theorem keyset_follows_cursors_witness:
  "FetchPaginatedKeyset (\<lambda>_. False) three_pages 2 0 = Some ([1, 2, 3, 4, 5], None) \<and>
   FetchPaginatedKeyset (\<lambda>_. False) (\<lambda>k limit c. KsPage [1 :: int] ''a'') 2 0 = None"
proof -
  have "cursor_walk three_pages 2 0 '''' [[1, 2], [3, 4], [5]]" by (simp add: three_pages_def)
  then show ?thesis
    using keyset_follows_cursors [of 0 2 three_pages "[[1, 2], [3, 4], [5]]"]
      keyset_follows_cursors [of 0 2 "\<lambda>k limit c. KsPage [1 :: int] ''a''" _ "''a''"] by simp
qed

end
