(* ===== verification/Go_Search.thy ===== *)
theory Go_Search
  imports Go_Collections
begin

text \<open>
  \<open>sort.Search\<close> of the standard library, as the bisection it is, and the lookups on times in ascending
  order that the code builds on it.  Lemmas: with a predicate that once true stays true the bisection finds the
  first index where it holds, so over ascending times it counts those at or before \<open>t\<close>; and a lookup at
  \<open>t\<close> sees nothing of the points after \<open>t\<close>.
\<close>

section \<open>Bisection\<close>

function bisect :: "(nat \<Rightarrow> bool) \<Rightarrow> nat \<Rightarrow> nat \<Rightarrow> nat" where
  "bisect f i j = (if i < j then (let h = (i + j) div 2 in if f h then bisect f i h else bisect f (h + 1) j) else i)"
  by pat_completeness auto
termination
  by (relation "measure (\<lambda>(f, i, j). j - i)") auto

declare bisect.simps [simp del]

definition sort_Search :: "nat \<Rightarrow> (nat \<Rightarrow> bool) \<Rightarrow> nat" where
  "sort_Search n f = bisect f 0 n"

lemma bisect_first:
  assumes "i \<le> m" and "m \<le> j" and "\<And>k. k < j \<Longrightarrow> f k \<longleftrightarrow> m \<le> k"
  shows "bisect f i j = m"
  using assms
proof (induction f i j rule: bisect.induct)
  case (1 f i j)
  let ?h = "(i + j) div 2"
  show ?case
  proof (cases "i < j")
    case False
    then show ?thesis using "1.prems"(1,2) by (subst bisect.simps) simp
  next
    case True
    then have h: "i \<le> ?h" "?h < j" by auto
    show ?thesis
    proof (cases "f ?h")
      case True
      then have "m \<le> ?h" using "1.prems"(3) h by simp
      with 1(1) [OF \<open>i < j\<close> refl True] "1.prems" h have "bisect f i ?h = m" by simp
      with True \<open>i < j\<close> show ?thesis by (subst bisect.simps) simp
    next
      case False
      then have "?h + 1 \<le> m" using "1.prems"(3) [of ?h] h by simp
      with 1(2) [OF \<open>i < j\<close> refl False] "1.prems" have "bisect f (?h + 1) j = m" by simp
      with False \<open>i < j\<close> show ?thesis by (subst bisect.simps) simp
    qed
  qed
qed

lemma sort_Search_first:
  "m \<le> n \<Longrightarrow> (\<And>k. k < n \<Longrightarrow> f k \<longleftrightarrow> m \<le> k) \<Longrightarrow> sort_Search n f = m"
  unfolding sort_Search_def by (rule bisect_first) simp_all

lemma bisect_range: "i \<le> j \<Longrightarrow> i \<le> bisect f i j \<and> bisect f i j \<le> j"
proof (induction f i j rule: bisect.induct)
  case (1 f i j)
  show ?case
  proof (cases "i < j")
    case True
    have "bisect f i j = (if f ((i + j) div 2) then bisect f i ((i + j) div 2) else bisect f ((i + j) div 2 + 1) j)"
      using True by (subst bisect.simps) (simp add: Let_def)
    moreover have "i \<le> (i + j) div 2" "(i + j) div 2 + 1 \<le> j" using True by auto
    ultimately show ?thesis using 1(1) [OF True refl] 1(2) [OF True refl] by (auto simp del: One_nat_def split: if_splits)
  next
    case False
    then show ?thesis using 1(3) by (subst (1 2) bisect.simps) simp
  qed
qed

lemma sort_Search_le: "sort_Search n f \<le> n"
  using bisect_range [of 0 n f] by (simp add: sort_Search_def)

section \<open>Times\<close>

definition at_or_before :: "gotime list \<Rightarrow> gotime \<Rightarrow> int" where
  \<comment> \<open>the last index at or before \<open>t\<close>, or -1\<close>
  "at_or_before ts t = int (sort_Search (length ts) (\<lambda>i. ts ! i > t)) - 1"

lemma sorted_takeWhile_le:
  fixes t :: gotime
  assumes "sorted ts" and "k < length ts"
  shows "ts ! k > t \<longleftrightarrow> length (takeWhile (\<lambda>x. x \<le> t) ts) \<le> k"
proof
  assume "t < ts ! k"
  then show "length (takeWhile (\<lambda>x. x \<le> t) ts) \<le> k" using assms(2) nth_length_takeWhile
    by (metis not_le takeWhile_nth set_takeWhileD nth_mem linorder_not_less)
next
  assume k: "length (takeWhile (\<lambda>x. x \<le> t) ts) \<le> k"
  let ?m = "length (takeWhile (\<lambda>x. x \<le> t) ts)"
  have "?m < length ts" using k assms(2) by simp
  then have "t < ts ! ?m" using nth_length_takeWhile [of "\<lambda>x. x \<le> t" ts] by simp
  also have "\<dots> \<le> ts ! k" using assms k by (simp add: sorted_nth_mono)
  finally show "t < ts ! k" .
qed

lemma search_after:
  fixes ts :: "gotime list"
  assumes "sorted ts"
  shows "sort_Search (length ts) (\<lambda>i. ts ! i > t) = length (takeWhile (\<lambda>x. x \<le> t) ts)"
  by (rule sort_Search_first) (simp_all add: length_takeWhile_le sorted_takeWhile_le [OF assms])

lemma at_or_before_sorted:
  "sorted ts \<Longrightarrow> at_or_before ts t = int (length (takeWhile (\<lambda>x. x \<le> t) ts)) - 1"
  by (simp add: at_or_before_def search_after)

lemma sorted_takeWhile_filter: "sorted ts \<Longrightarrow> takeWhile (\<lambda>x. x \<le> t) ts = filter (\<lambda>x. x \<le> t) ts" for t :: gotime
  by (induction ts) (auto simp: filter_empty_conv eq_commute [of "[]"])

lemma at_or_before_none: "sorted ts \<Longrightarrow> at_or_before ts t < 0 \<longleftrightarrow> (\<forall>x \<in> set ts. t < x)"
proof -
  assume "sorted ts"
  then have "at_or_before ts t < 0 \<longleftrightarrow> filter (\<lambda>x. x \<le> t) ts = []"
    by (simp add: at_or_before_sorted sorted_takeWhile_filter)
  then show ?thesis by (auto simp: filter_empty_conv not_le)
qed

lemma at_or_before_Max:
  assumes "sorted ts" and "0 \<le> at_or_before ts t"
  shows "ts ! nat (at_or_before ts t) = Max {x \<in> set ts. x \<le> t}"
proof -
  let ?tw = "takeWhile (\<lambda>x. x \<le> t) ts"
  have ne: "?tw \<noteq> []" using assms(2) by (simp add: at_or_before_sorted [OF assms(1)]) 
  have "nat (at_or_before ts t) = length ?tw - 1" by (simp add: at_or_before_sorted [OF assms(1)])
  then have "ts ! nat (at_or_before ts t) = last ?tw" using ne by (simp add: last_conv_nth takeWhile_nth)
  moreover have "set ?tw = {x \<in> set ts. x \<le> t}" by (simp add: sorted_takeWhile_filter [OF assms(1)])
  moreover have "last ?tw = Max (set ?tw)"
  proof (rule Max_eqI [symmetric])
    fix y assume "y \<in> set ?tw"
    then obtain i where "i < length ?tw" "y = ?tw ! i" by (metis in_set_conv_nth)
    moreover have "sorted ?tw" using assms(1) by (simp add: sorted_takeWhile)
    ultimately show "y \<le> last ?tw" using ne by (simp add: last_conv_nth sorted_nth_mono)
  qed (use ne in auto)
  ultimately show ?thesis by simp
qed

end
