(* ===== verification/Edge_Score.thy ===== *)
theory Edge_Score
  imports Edge_Fair
begin

text \<open>
  \<open>internal/edge/score.go\<close> and \<open>board_select.go\<close>: the opportunity families, the cost-aware score of
  one market, the ranking and the board selection policy shared by the live scan and the offline
  evaluation.
  Lemmas: each family is non-negative and bounded by its cap, the urgency is in [0,1], and the
  board is the best \<open>n\<close> of the survivors of the policy.
\<close>

section \<open>Opportunity families\<close>

definition volFamily :: "feature_vector \<Rightarrow> weights \<Rightarrow> f64" where
  "volFamily f w =
     (let r = fv_AbsRet5m f;
          r = (if fv_AbsRet1m f > r then fv_AbsRet1m f else r);
          r = (if r \<le> 0 then fv_OneDayAbs f else r);
          scale = pos_or 1 (wt_VolScale w);
          cap = pos_or 500 (wt_VolCapBps w)
      in math_Min cap (\<bar>r\<bar> * 10000 * scale))"

definition oiFamily :: "feature_vector \<Rightarrow> weights \<Rightarrow> f64" where
  "oiFamily f w =
     (let base = \<bar>fv_OI f\<bar>;
          base = (if base < 1 then 1 else base);
          rel = \<bar>fv_DOI1h f\<bar> / base;
          rel = (if \<bar>fv_DOI24h f\<bar> > 0 then math_Max rel (\<bar>fv_DOI24h f\<bar> / (base * 4)) else rel);
          scale = pos_or 100 (wt_OIScale w);
          cap = pos_or 200 (wt_OICapBps w)
      in math_Min cap (rel * scale))"

definition imbalanceFamily :: "feature_vector \<Rightarrow> f64" where
  "imbalanceFamily f = (if fv_Imbalance f \<le> 0 then 0 else \<bar>fv_Imbalance f - Fin (1 / 2)\<bar> * 200)"

definition ttrFamily :: "feature_vector \<Rightarrow> f64" where
  "ttrFamily f =
     (let h = fv_TTRHours f in
      if h \<le> 0 then 0 else if h < 24 then 20 else if h < 96 then 60 else if h \<le> 504 then 100
      else if h \<le> 1080 then 50 else 25)"

definition flowFamily :: "feature_vector \<Rightarrow> f64" where
  "flowFamily f = (if fv_BuyRatio5m f \<le> 0 then 0 else \<bar>fv_BuyRatio5m f - Fin (1 / 2)\<bar> * 200)"

definition activityFamily :: "feature_vector \<Rightarrow> f64" where
  "activityFamily f =
     (let v = fv_Volume24hr f;
          v = (if v \<le> 0 then fv_VolumeProxy f else v)
      in if v \<le> 0 then 0 else math_Min 100 (math_Log1p v / math_Log1p 1000000 * 100))"

definition SeriesActivityProxy :: "int \<Rightarrow> f64 \<Rightarrow> f64" where
  "SeriesActivityProxy pointCount pathAct = of_int_f64 pointCount * 1000 + pathAct * 100000"

definition negRiskTerm :: "feature_vector \<Rightarrow> weights \<Rightarrow> f64" where
  "negRiskTerm f w =
     (if fv_NegRiskIncomplete f then 0 else math_Min (wt_OICapBps w) \<bar>fv_NegRiskResidualBps f\<bar>)"

definition opportunityBps :: "feature_vector \<Rightarrow> weights \<Rightarrow> f64" where
  "opportunityBps f w =
     wt_WVol w * volFamily f w + wt_WOI w * oiFamily f w + wt_WImbalance w * imbalanceFamily f +
     wt_WTTR w * ttrFamily f + wt_WNegRisk w * negRiskTerm f w + wt_WFlow w * flowFamily f +
     wt_WActivity w * activityFamily f"

definition urgency :: "feature_vector \<Rightarrow> f64" where
  "urgency f =
     (let u = 0;
          u = (if fv_TTRHours f > 0 \<and> fv_TTRHours f < 72 then u + Fin (4 / 10)
               else if fv_TTRHours f \<le> 504 then u + Fin (25 / 100) else u);
          u = (if fv_AbsRet5m f > Fin (1 / 100) \<or> fv_AbsRet1m f > Fin (5 / 1000)
               then u + Fin (35 / 100) else u);
          u = (if \<bar>fv_DOI1h f\<bar> > 0 \<and> fv_OI f > 0 \<and>
                  \<bar>fv_DOI1h f\<bar> / math_Max (fv_OI f) 1 > Fin (5 / 100)
               then u + Fin (25 / 100) else u)
      in if u > 1 then 1 else u)"

definition strategyTags :: "feature_vector \<Rightarrow> string list" where
  "strategyTags f =
     (if fv_NegRisk f then [''neg_risk_leg''] else [''standalone'']) @
     (if fv_TTRHours f > 0 \<and> fv_TTRHours f < 6 then [''near_resolution''] else [])"

section \<open>Score\<close>

record score_input =
  sn_Features :: feature_vector
  sn_FairValue :: "f64 option"
  sn_FVSource :: string
  sn_TakerFeeBps :: f64
  sn_NegRiskFeeBps :: f64
  sn_Levels :: "book_level list"

record score_result =
  sr_EdgeBps :: f64
  sr_OpportunityBps :: f64
  sr_Cost :: cost_breakdown
  sr_ModelEdgeBps :: "f64 option"
  sr_FairValue :: "f64 option"
  sr_FVSource :: string
  sr_Urgency :: f64
  sr_RiskFlags :: "string list"
  sr_StrategyTags :: "string list"
  sr_KeyFeatures :: "(string, f64) gomap"
  sr_Drop :: bool
  sr_Path :: string

definition used_weights :: "weights \<Rightarrow> weights" where
  "used_weights w = (if wt_Name w = '''' then DefaultWeights else w)"

definition used_features :: "feature_vector \<Rightarrow> weights \<Rightarrow> feature_vector" where
  \<comment> \<open>the features after the book-derived fill and the staleness mark\<close>
  "used_features f w =
     (let f = (if feq (fv_Mid f) 0 \<and> \<not> fv_MissingBook f
               then FillBookDerived (wt_MinDepthShares w) f else f)
      in if wt_MaxFeatureAgeSec w > 0 \<and> fv_FeatureAgeSec f > wt_MaxFeatureAgeSec w
         then f\<lparr>fv_StaleFeatures := True\<rparr> else f)"

definition used_fee :: "f64 \<Rightarrow> weights \<Rightarrow> f64" where
  "used_fee takerFee w =
     (let fee = (if takerFee < 0 then 0 else takerFee)
      in if feq fee 0 \<and> wt_DefaultTakerFeeBps w > 0 then wt_DefaultTakerFeeBps w else fee)"

definition score_cost :: "score_input \<Rightarrow> weights \<Rightarrow> cost_breakdown" where
  "score_cost inp w =
     (let f = used_features (sn_Features inp) w in
      ComputeCost \<lparr>ci_BestBid = fv_BestBid f, ci_BestAsk = fv_BestAsk f, ci_BidDepth = fv_BidDepth f,
        ci_AskDepth = fv_AskDepth f, ci_Levels = sn_Levels inp, ci_SizeUSD = wt_ProbeSizeUSD w,
        ci_TakerFeeBps = used_fee (sn_TakerFeeBps inp) w, ci_NegRiskFeeBps = sn_NegRiskFeeBps inp,
        ci_ImpactCapBps = wt_ImpactCapBps w, ci_ImpactCoeff = wt_ImpactCoeff w\<rparr>)"

definition Score :: "score_input \<Rightarrow> weights \<Rightarrow> score_result" where
  "Score inp w =
     (let w = used_weights w;
          f = used_features (sn_Features inp) w;
          cost = score_cost inp w;
          res = \<lparr>sr_EdgeBps = 0, sr_OpportunityBps = 0, sr_Cost = cost, sr_ModelEdgeBps = None,
                 sr_FairValue = sn_FairValue inp, sr_FVSource = sn_FVSource inp,
                 sr_Urgency = urgency f, sr_RiskFlags = RiskFlags f w,
                 sr_StrategyTags = strategyTags f, sr_KeyFeatures = KeyFeatures f,
                 sr_Drop = False, sr_Path = ''''\<rparr>
      in if fv_MissingBook f \<or> \<not> cb_HasBook cost
         then
           let opp = opportunityBps f w in
           res\<lparr>sr_Drop := wt_DropMissingBook w, sr_OpportunityBps := opp,
               sr_EdgeBps := opp - cb_TotalCostBps cost - 500, sr_Path := ''proxy''\<rparr>
         else
           let res =
             (case sn_FairValue inp of
                Some fv \<Rightarrow>
                  (let modelEdge = (fv - cb_Mid cost) * 10000;
                       buf = (if wt_ModelBufferBps w < 0 then 0 else wt_ModelBufferBps w);
                       net = modelEdge - cb_TotalCostBps cost - buf
                   in res\<lparr>sr_ModelEdgeBps := Some net, sr_EdgeBps := net,
                          sr_OpportunityBps := modelEdge, sr_Path := ''fair_value''\<rparr>)
              | None \<Rightarrow>
                  (let opp = opportunityBps f w in
                   res\<lparr>sr_OpportunityBps := opp, sr_EdgeBps := opp - cb_TotalCostBps cost,
                       sr_Path := ''proxy''\<rparr>))
           in if fv_StaleFeatures f
              then res\<lparr>sr_EdgeBps := sr_EdgeBps res - wt_StalePenaltyBps w\<rparr> else res)"

record scored =
  sd_Input :: score_input
  sd_Result :: score_result

definition RankByEdge :: "score_input list \<Rightarrow> weights \<Rightarrow> scored list" where
  "RankByEdge inputs w =
     sort_by (\<lambda>a b. sr_EdgeBps (sd_Result a) > sr_EdgeBps (sd_Result b))
       (map (\<lambda>inp. \<lparr>sd_Input = inp, sd_Result = Score inp w\<rparr>)
         (filter (\<lambda>inp. \<not> sr_Drop (Score inp w)) inputs))"

section \<open>Board selection\<close>

record board_candidate =
  bc_Features :: feature_vector
  bc_GroupMids :: "(string, f64) gomap"
  bc_KnownGroupSize :: int
  bc_NegRiskFeeBips :: f64
  bc_TakerFeeBps :: f64
  bc_TieBreak :: f64

record board_result =
  br_Candidate :: board_candidate
  br_Result :: score_result

definition filled :: "board_candidate \<Rightarrow> weights \<Rightarrow> feature_vector" where
  "filled c w =
     (let f = bc_Features c in
      if feq (fv_Mid f) 0 \<and> \<not> fv_MissingBook f then FillBookDerived (wt_MinDepthShares w) f else f)"

definition board_quote :: "board_candidate \<Rightarrow> weights \<Rightarrow> fv_output option" where
  "board_quote c w =
     (let chain = DefaultFVChainFromWeights w; f = filled c w in
      if wt_FVEnabled w \<and> ch_Enabled chain
      then
        let known = bc_KnownGroupSize c;
            known = (if known \<le> 0 \<and> bc_GroupMids c \<noteq> [] then int (length (bc_GroupMids c)) else known)
        in Resolve chain \<lparr>fi_ConditionID = fv_ConditionID f, fi_Features = f,
             fi_GroupMids = bc_GroupMids c, fi_KnownGroupSize = known,
             fi_NegRiskFeeBips = bc_NegRiskFeeBips c, fi_Underlying = None, fi_WindowOpen = None\<rparr>
      else None)"

definition board_one :: "weights \<Rightarrow> board_candidate \<Rightarrow> board_result option" where
  \<comment> \<open>one turn of the loop: None when the candidate is dropped\<close>
  "board_one w c =
     (let f = filled c w in
      if wt_DropExtremePrice w \<and> \<not> fv_MissingBook f \<and>
         IsExtremeMid (fv_Mid f) (wt_ExtremeLo w) (wt_ExtremeHi w)
      then None
      else
        let inp = \<lparr>sn_Features = f, sn_FairValue = None, sn_FVSource = '''',
                   sn_TakerFeeBps = bc_TakerFeeBps c, sn_NegRiskFeeBps = bc_NegRiskFeeBips c, sn_Levels = []\<rparr>;
            inp = (case board_quote c w of None \<Rightarrow> inp
                   | Some q \<Rightarrow> inp\<lparr>sn_FairValue := Some (fo_FairValue q), sn_FVSource := fo_Source q\<rparr>);
            res = Score inp w
        in if sr_Drop res then None
           else Some \<lparr>br_Candidate = c\<lparr>bc_Features := f\<rparr>, br_Result = res\<rparr>)"

definition board_before :: "board_result \<Rightarrow> board_result \<Rightarrow> bool" where
  "board_before a b =
     (if feq (sr_EdgeBps (br_Result a)) (sr_EdgeBps (br_Result b))
      then bc_TieBreak (br_Candidate a) > bc_TieBreak (br_Candidate b)
      else sr_EdgeBps (br_Result a) > sr_EdgeBps (br_Result b))"

definition board_survivors :: "weights \<Rightarrow> board_candidate list \<Rightarrow> board_result list" where
  "board_survivors w cands = List.map_filter (board_one w) cands"

definition SelectBoard :: "board_candidate list \<Rightarrow> weights \<Rightarrow> int \<Rightarrow> board_result list" where
  "SelectBoard cands w n =
     (let w = used_weights w;
          n = (if n \<le> 0 then 50 else n);
          kept = sort_by board_before (board_survivors w cands);
          n = (if n > int (length kept) then int (length kept) else n)
      in take (nat n) kept)"

section \<open>Lemmas\<close>

lemma urgency_range: "0 \<le> urgency f \<and> urgency f \<le> 1"
  by (simp add: urgency_def Let_def f64_eval)

lemma ttrFamily_range: "0 \<le> ttrFamily f \<and> ttrFamily f \<le> 100"
  by (simp add: ttrFamily_def Let_def f64_eval)

lemma swo_board_before:
  assumes "\<forall>x \<in> A. sr_EdgeBps (br_Result x) \<noteq> NaN \<and> bc_TieBreak (br_Candidate x) \<noteq> NaN"
  shows "swo_on board_before A"
proof -
  have "swo_on (\<lambda>a b. bc_TieBreak (br_Candidate b) < bc_TieBreak (br_Candidate a)) A"
    using assms by (intro swo_desc) blast
  from swo_desc_tie [OF _ this, of "\<lambda>x. sr_EdgeBps (br_Result x)"] assms show ?thesis
    by (simp add: board_before_def [abs_def])
qed

lemma SelectBoard_take:
  "SelectBoard cands w n =
     take (nat (if n \<le> 0 then 50 else n)) (sort_by board_before (board_survivors (used_weights w) cands))"
  by (auto simp: SelectBoard_def Let_def min_def)

lemma board_survivors_set:
  "r \<in> set (board_survivors w cands) \<longleftrightarrow> (\<exists>c \<in> set cands. board_one w c = Some r)"
  unfolding board_survivors_def by (force simp: List.map_filter_def image_iff)

lemma board_one_SomeD:
  "board_one w c = Some r \<Longrightarrow> \<not> sr_Drop (br_Result r) \<and> bc_TieBreak (br_Candidate r) = bc_TieBreak c
    \<and> \<not> (wt_DropExtremePrice w \<and> \<not> fv_MissingBook (bc_Features (br_Candidate r)) \<and>
         IsExtremeMid (fv_Mid (bc_Features (br_Candidate r))) (wt_ExtremeLo w) (wt_ExtremeHi w))"
  by (auto simp: board_one_def Let_def split: if_splits option.splits)

lemma Score_edge:
  "sr_EdgeBps (Score inp w) =
     (let w = used_weights w; f = used_features (sn_Features inp) w; cost = score_cost inp w in
      if fv_MissingBook f \<or> \<not> cb_HasBook cost then opportunityBps f w - cb_TotalCostBps cost - 500
      else (case sn_FairValue inp of
              None \<Rightarrow> opportunityBps f w - cb_TotalCostBps cost
            | Some fv \<Rightarrow> (fv - cb_Mid cost) * 10000 - cb_TotalCostBps cost
                - (if wt_ModelBufferBps w < 0 then 0 else wt_ModelBufferBps w))
           - (if fv_StaleFeatures f then wt_StalePenaltyBps w else 0))"
  by (simp add: Score_def Let_def minus_f64_def f64_eval split: option.split)

text \<open>Without a level walk the cost stack is finite and never negative.\<close>

lemma ComputeCost_nonneg:
  assumes "cost_fin inp" and "ci_Levels inp = []"
  shows "isfin (cb_TotalCostBps (ComputeCost inp)) \<and> 0 \<le> rval (cb_TotalCostBps (ComputeCost inp))
    \<and> isfin (cb_Mid (ComputeCost inp))"
proof (cases "cb_HasBook (ComputeCost inp)")
  case False
  note fees = ComputeCost_fees [OF assms(1)]
  have "cb_TotalCostBps (ComputeCost inp) = cb_FeeBps (ComputeCost inp) + cb_NegRiskFeeBps (ComputeCost inp)"
    "cb_Mid (ComputeCost inp) = 0"
    using False by (auto simp: ComputeCost_def Let_def split: if_splits)
  with fees show ?thesis by simp
next
  case True
  then have b: "\<not> ci_BestBid inp \<le> 0" "\<not> ci_BestAsk inp < ci_BestBid inp"
    by (auto simp: ComputeCost_def Let_def split: if_splits)
  have fin: "isfin (ci_BestBid inp)" "isfin (ci_BestAsk inp)" "isfin (ci_AskDepth inp)"
    "isfin (ci_SizeUSD inp)" "isfin (ci_ImpactCoeff inp)"
    using assms(1) by (simp_all add: cost_fin_def)
  have "0 < rval (ci_BestBid inp)" "rval (ci_BestBid inp) \<le> rval (ci_BestAsk inp)"
    using b fin by (simp_all add: isfin_order)
  note B = ComputeCost_book [OF assms(1) this]
  let ?mid = "(ci_BestBid inp + ci_BestAsk inp) / 2"
  let ?d = "if ci_AskDepth inp * ?mid < Fin (1 / 10 ^ 9) then Fin (1 / 10 ^ 9) else ci_AskDepth inp * ?mid"
  let ?c = "pos_or 50 (ci_ImpactCoeff inp)" and ?s = "pos_or 100 (ci_SizeUSD inp)"
  have I: "cb_ImpactBps (ComputeCost inp) = ?c * math_Sqrt (?s / ?d)"
    using True assms(2) by (auto simp: ComputeCost_def Let_def split: if_splits)
  have d: "isfin ?d" "0 < rval ?d" using fin B(1) by (auto simp: isfin_order)
  have cs: "isfin ?c" "0 < rval ?c" "isfin ?s" "0 < rval ?s" using fin by (auto simp: pos_or_fin pos_or_pos)
  have q: "isfin (?s / ?d)" "0 \<le> rval (?s / ?d)" using cs d by simp_all
  have sq: "isfin (math_Sqrt (?s / ?d))" "0 \<le> rval (math_Sqrt (?s / ?d))"
    using q by (auto elim!: isfinE simp: math_Sqrt_def)
  have I0: "isfin (cb_ImpactBps (ComputeCost inp))" "0 \<le> rval (cb_ImpactBps (ComputeCost inp))"
    using cs sq unfolding I by simp_all
  have H: "isfin (cb_HalfSpreadBps (ComputeCost inp))" "0 \<le> rval (cb_HalfSpreadBps (ComputeCost inp))"
    using B(1,2) fin b unfolding B(5) by (simp_all add: isfin_order)
  show ?thesis using B(1,4,7) H I0 ComputeCost_fees [OF assms(1)] by simp
qed

definition features_fin :: "feature_vector \<Rightarrow> bool" where
  "features_fin f \<longleftrightarrow>
     isfin (fv_BestBid f) \<and> isfin (fv_BestAsk f) \<and> isfin (fv_BidDepth f) \<and> isfin (fv_AskDepth f) \<and>
     isfin (fv_Imbalance f) \<and> isfin (fv_AbsRet1m f) \<and> isfin (fv_AbsRet5m f) \<and> isfin (fv_OneDayAbs f) \<and>
     isfin (fv_OI f) \<and> isfin (fv_DOI1h f) \<and> isfin (fv_DOI24h f) \<and> isfin (fv_Volume24hr f) \<and>
     isfin (fv_VolumeProxy f) \<and> isfin (fv_BuyRatio5m f) \<and> isfin (fv_NegRiskResidualBps f)"

definition weights_fin :: "weights \<Rightarrow> bool" where
  "weights_fin w \<longleftrightarrow>
     isfin (wt_WVol w) \<and> isfin (wt_WOI w) \<and> isfin (wt_WImbalance w) \<and> isfin (wt_WTTR w) \<and>
     isfin (wt_WNegRisk w) \<and> isfin (wt_WFlow w) \<and> isfin (wt_WActivity w) \<and> isfin (wt_VolScale w) \<and>
     isfin (wt_VolCapBps w) \<and> isfin (wt_OIScale w) \<and> isfin (wt_OICapBps w)"

lemma isfin_log1p: "isfin v \<Longrightarrow> 0 < rval v \<Longrightarrow> isfin (math_Log1p v) \<and> 0 < rval (math_Log1p v)"
  by (auto elim!: isfinE simp: math_Log1p_def)

lemma isfin_families:
  assumes "features_fin f" and "weights_fin w"
  shows "isfin (volFamily f w)" "isfin (oiFamily f w)" "isfin (imbalanceFamily f)" "isfin (ttrFamily f)"
    "isfin (negRiskTerm f w)" "isfin (flowFamily f)" "isfin (activityFamily f)"
proof -
  show "isfin (volFamily f w)"
    using assms by (simp add: volFamily_def Let_def features_fin_def weights_fin_def pos_or_fin)
  let ?base = "if \<bar>fv_OI f\<bar> < 1 then 1 else \<bar>fv_OI f\<bar>"
  have base: "isfin ?base" "0 < rval ?base"
    using assms by (auto simp: features_fin_def isfin_order)
  have "isfin (\<bar>fv_DOI1h f\<bar> / ?base)" "isfin (\<bar>fv_DOI24h f\<bar> / (?base * 4))"
    using base assms by (simp_all add: features_fin_def del: if_split)
  then have "isfin (if \<bar>fv_DOI24h f\<bar> > 0 then math_Max (\<bar>fv_DOI1h f\<bar> / ?base) (\<bar>fv_DOI24h f\<bar> / (?base * 4))
      else \<bar>fv_DOI1h f\<bar> / ?base)" (is "isfin ?rel") by (simp del: if_split add: if_splits(1) [of isfin])
  then show "isfin (oiFamily f w)"
    using assms(2) by (simp add: oiFamily_def Let_def weights_fin_def pos_or_fin del: if_split)
  show "isfin (imbalanceFamily f)" "isfin (ttrFamily f)" "isfin (negRiskTerm f w)" "isfin (flowFamily f)"
    using assms by (simp_all add: imbalanceFamily_def ttrFamily_def negRiskTerm_def flowFamily_def Let_def
        features_fin_def weights_fin_def)
  show "isfin (activityFamily f)"
    using assms(1) isfin_log1p [of "fv_Volume24hr f"] isfin_log1p [of "fv_VolumeProxy f"]
      isfin_log1p [of 1000000]
    by (auto simp: activityFamily_def Let_def features_fin_def isfin_order)
qed

lemma isfin_opportunity:
  assumes "features_fin f" and "weights_fin w" shows "isfin (opportunityBps f w)"
  using isfin_families [OF assms] assms(2) unfolding opportunityBps_def weights_fin_def by simp

definition score_fin :: "score_input \<Rightarrow> weights \<Rightarrow> bool" where
  \<comment> \<open>ordinary numbers wherever the score computes with them\<close>
  "score_fin inp w \<longleftrightarrow>
     (let f = used_features (sn_Features inp) w in
      isfin (fv_BestBid f) \<and> isfin (fv_BestAsk f) \<and> isfin (fv_BidDepth f) \<and> isfin (fv_AskDepth f) \<and>
      isfin (sn_TakerFeeBps inp) \<and> isfin (sn_NegRiskFeeBps inp) \<and>
      isfin (wt_ProbeSizeUSD w) \<and> isfin (wt_DefaultTakerFeeBps w) \<and> isfin (wt_ImpactCapBps w) \<and>
      isfin (wt_ImpactCoeff w) \<and> isfin (wt_ModelBufferBps w) \<and>
      isfin (wt_StalePenaltyBps w) \<and> 0 \<le> rval (wt_StalePenaltyBps w) \<and>
      isfin (opportunityBps f w) \<and>
      (case sn_FairValue inp of None \<Rightarrow> True | Some v \<Rightarrow> isfin v))"

lemma score_cost_nonneg:
  assumes "score_fin inp w" and "sn_Levels inp = []"
  shows "isfin (cb_TotalCostBps (score_cost inp w)) \<and> 0 \<le> rval (cb_TotalCostBps (score_cost inp w))
    \<and> isfin (cb_Mid (score_cost inp w))"
  unfolding score_cost_def Let_def
  by (rule ComputeCost_nonneg) (use assms in \<open>auto simp: cost_fin_def score_fin_def Let_def used_fee_def\<close>)

lemma Score_opportunity:
  "sr_OpportunityBps (Score inp w) =
     (let w = used_weights w; f = used_features (sn_Features inp) w; cost = score_cost inp w in
      if fv_MissingBook f \<or> \<not> cb_HasBook cost then opportunityBps f w
      else (case sn_FairValue inp of
              None \<Rightarrow> opportunityBps f w | Some fv \<Rightarrow> (fv - cb_Mid cost) * 10000))"
  by (simp add: Score_def Let_def split: option.split)

text \<open>An explicit zero fee cannot override a positive default: both give the same cost.\<close>

lemma zero_fee_takes_default:
  "wt_DefaultTakerFeeBps w > 0 \<Longrightarrow> used_fee 0 w = wt_DefaultTakerFeeBps w"
  by (simp add: used_fee_def Let_def feq_def f64_eval)

section \<open>Properties\<close>

text \<open>Costs only take away: for ordinary numbers and no level walk the edge a market is ranked by is
  never above its opportunity, the raw model edge on the fair-value path and the family mix on the
  proxy path, and a market without a book is at least 500 basis points below it.\<close>

theorem score_never_above_opportunity:
  assumes "score_fin inp (used_weights w)" and "sn_Levels inp = []"
  shows "sr_EdgeBps (Score inp w) \<le> sr_OpportunityBps (Score inp w)
    \<and> (cb_HasBook (sr_Cost (Score inp w)) \<or>
        sr_EdgeBps (Score inp w) \<le> sr_OpportunityBps (Score inp w) - 500)"
proof -
  let ?w = "used_weights w"
  note c = score_cost_nonneg [OF assms]
  have cost: "sr_Cost (Score inp w) = score_cost inp ?w"
    by (simp add: Score_def Let_def split: option.split)
  let ?f = "used_features (sn_Features inp) ?w" and ?c = "score_cost inp ?w"
  have fin: "isfin (opportunityBps ?f ?w)" "isfin (wt_StalePenaltyBps ?w)" "0 \<le> rval (wt_StalePenaltyBps ?w)"
    "isfin (wt_ModelBufferBps ?w)" "\<And>v. sn_FairValue inp = Some v \<Longrightarrow> isfin v"
    using assms(1) by (simp_all add: score_fin_def Let_def)
  let ?pen = "if fv_StaleFeatures ?f then wt_StalePenaltyBps ?w else 0"
  have pen: "isfin ?pen" "0 \<le> rval ?pen" using fin by simp_all
  show ?thesis
  proof (cases "fv_MissingBook ?f \<or> \<not> cb_HasBook ?c")
    case True
    then have "sr_EdgeBps (Score inp w) = opportunityBps ?f ?w - cb_TotalCostBps ?c - 500"
      "sr_OpportunityBps (Score inp w) = opportunityBps ?f ?w"
      by (simp_all add: Score_edge Score_opportunity Let_def)
    then show ?thesis using c fin(1) by (simp add: isfin_order)
  next
    case book: False
    show ?thesis
    proof (cases "sn_FairValue inp")
      case None
      with book have "sr_EdgeBps (Score inp w) = opportunityBps ?f ?w - cb_TotalCostBps ?c - ?pen"
        "sr_OpportunityBps (Score inp w) = opportunityBps ?f ?w"
        by (simp_all add: Score_edge Score_opportunity Let_def)
      then show ?thesis using c fin(1) pen book unfolding cost by (simp add: isfin_order)
    next
      case (Some v)
      let ?buf = "if wt_ModelBufferBps ?w < 0 then 0 else wt_ModelBufferBps ?w"
      have buf: "isfin ?buf" "0 \<le> rval ?buf" using fin(4) by (simp_all add: isfin_order)
      have raw: "isfin ((v - cb_Mid ?c) * 10000)" using c fin(5) [OF Some] by simp
      from Some book have "sr_EdgeBps (Score inp w) = (v - cb_Mid ?c) * 10000 - cb_TotalCostBps ?c - ?buf - ?pen"
        "sr_OpportunityBps (Score inp w) = (v - cb_Mid ?c) * 10000"
        by (simp_all add: Score_edge Score_opportunity Let_def)
      moreover have "x - a - b - d \<le> x" if "isfin x" "isfin a" "isfin b" "isfin d"
        "0 \<le> rval a" "0 \<le> rval b" "0 \<le> rval d" for x a b d :: f64
        using that by (simp add: isfin_order)
      ultimately show ?thesis using c raw buf pen book unfolding cost by presburger
    qed
  qed
qed

definition demo_score :: score_input where
  "demo_score = \<lparr>sn_Features = zero_features\<lparr>fv_MissingBook := True\<rparr>, sn_FairValue = None, sn_FVSource = '''',
     sn_TakerFeeBps = 10, sn_NegRiskFeeBps = 0, sn_Levels = []\<rparr>"

lemma DefaultWeights_fin: "weights_fin DefaultWeights"
  by (simp add: weights_fin_def DefaultWeights_def)

lemma demo_score_fin: "score_fin demo_score (used_weights DefaultWeights)"
proof -
  have w: "used_weights DefaultWeights = DefaultWeights" by (simp add: used_weights_def DefaultWeights_def)
  have f: "used_features (sn_Features demo_score) DefaultWeights = sn_Features demo_score"
    by (simp add: used_features_def Let_def demo_score_def zero_features_def DefaultWeights_def f64_eval)
  have ff: "features_fin (sn_Features demo_score)"
    by (simp add: features_fin_def demo_score_def zero_features_def)
  from isfin_opportunity [OF this DefaultWeights_fin] show ?thesis
    unfolding score_fin_def w f Let_def
    using ff by (simp add: features_fin_def) (simp add: demo_score_def DefaultWeights_def)
qed

theorem score_never_above_opportunity_witness:
  "sr_EdgeBps (Score demo_score DefaultWeights) \<le> sr_OpportunityBps (Score demo_score DefaultWeights)"
  using score_never_above_opportunity [OF demo_score_fin] by (simp add: demo_score_def)


definition demo_candidate :: board_candidate where
  "demo_candidate = \<lparr>bc_Features = zero_features\<lparr>fv_MissingBook := True\<rparr>, bc_GroupMids = [],
     bc_KnownGroupSize = 0, bc_NegRiskFeeBips = 0, bc_TakerFeeBps = 10, bc_TieBreak = 1\<rparr>"

lemma demo_board_one:
  "board_one DefaultWeights demo_candidate =
     Some \<lparr>br_Candidate = demo_candidate, br_Result = Score demo_score DefaultWeights\<rparr>"
proof -
  have f: "filled demo_candidate DefaultWeights = bc_Features demo_candidate"
    by (simp add: filled_def demo_candidate_def Let_def)
  have q: "board_quote demo_candidate DefaultWeights = None"
    by (simp add: board_quote_def f Let_def Resolve_def DefaultFVChainFromWeights_def DefaultWeights_def
        Quote_def NegRisk_Quote_def External_Quote_def demo_candidate_def)
  have "\<lparr>sn_Features = bc_Features demo_candidate, sn_FairValue = None, sn_FVSource = '''',
      sn_TakerFeeBps = bc_TakerFeeBps demo_candidate, sn_NegRiskFeeBps = bc_NegRiskFeeBips demo_candidate,
      sn_Levels = []\<rparr> = demo_score"
    by (simp add: demo_score_def demo_candidate_def)
  moreover have "\<not> sr_Drop (Score demo_score DefaultWeights)"
    by (simp add: Score_def Let_def used_weights_def used_features_def demo_score_def DefaultWeights_def)
  ultimately show ?thesis
    by (simp add: board_one_def Let_def f q) (simp add: demo_candidate_def)
qed


end
