(* ===== verification/Eval_Series.thy ===== *)
theory Eval_Series
  imports Go_Search Edge_Score
begin

text \<open>
  \<open>internal/eval/series.go\<close>, \<open>features.go\<close> and \<open>snapshots.go\<close>: the price and book histories of the
  offline evaluation, the features of a market as of a decision time, and the index of board snapshots.
  Times are in ascending order, as the code requires, and a series has one price per time.
  Lemmas: everything computed as of \<open>t\<close> is the same on the series cut after \<open>t\<close>: no feature looks ahead.
\<close>

section \<open>Series\<close>

record price_series =
  ps_TokenID :: string
  ps_Times :: "gotime list"
  ps_Prices :: "f64 list"

definition indexAtOrBefore :: "price_series \<Rightarrow> gotime \<Rightarrow> int" where
  "indexAtOrBefore s t = (if ps_Times s = [] then -1 else at_or_before (ps_Times s) t)"

definition series_MidAsOf :: "price_series \<Rightarrow> gotime \<Rightarrow> f64 option" where
  \<comment> \<open>\<open>PriceSeries.MidAsOf\<close>; None is \<open>ok = false\<close>\<close>
  "series_MidAsOf s t =
     (let i = indexAtOrBefore s t in if i < 0 then None else Some (ps_Prices s ! nat i))"

definition AbsRet :: "price_series \<Rightarrow> gotime \<Rightarrow> duration \<Rightarrow> f64" where
  "AbsRet s t window =
     (case series_MidAsOf s t of
        None \<Rightarrow> 0
      | Some midT \<Rightarrow>
          if midT \<le> 0 then 0
          else (case series_MidAsOf s (time_Add t (- window)) of
                  None \<Rightarrow> 0
                | Some mid0 \<Rightarrow> if mid0 \<le> 0 then 0 else \<bar>midT / mid0 - 1\<bar>))"

definition first_after :: "price_series \<Rightarrow> gotime \<Rightarrow> int" where
  "first_after s lo = int (sort_Search (length (ps_Times s)) (\<lambda>i. ps_Times s ! i > lo))"

definition PointCount :: "price_series \<Rightarrow> gotime \<Rightarrow> duration \<Rightarrow> int" where
  "PointCount s t window =
     (if ps_Times s = [] \<or> window \<le> 0 then 0
      else
        let i0 = first_after s (time_Add t (- window));
            i1 = indexAtOrBefore s t
        in if i1 < i0 then 0 else i1 - i0 + 1)"

definition PathActivity :: "price_series \<Rightarrow> gotime \<Rightarrow> duration \<Rightarrow> f64" where
  "PathActivity s t window =
     (if length (ps_Times s) < 2 \<or> window \<le> 0 then 0
      else
        let i0 = first_after s (time_Add t (- window));
            i1 = indexAtOrBefore s t
        in if i1 \<le> i0 then 0
           else fsum (map (\<lambda>i. \<bar>ps_Prices s ! i - ps_Prices s ! (i - 1)\<bar>) [nat i0 + 1..<nat i1 + 1]))"

record book_point =
  bp_Time :: gotime
  bp_BestBid :: f64
  bp_BestAsk :: f64
  bp_TotalBidDepth :: f64
  bp_TotalAskDepth :: f64

record book_series =
  bs_TokenID :: string
  bs_Points :: "book_point list"

definition book_AsOf :: "book_series \<Rightarrow> gotime \<Rightarrow> duration \<Rightarrow> book_point option" where
  \<comment> \<open>\<open>BookSeries.AsOf\<close>\<close>
  "book_AsOf s t maxAge =
     (if bs_Points s = [] then None
      else
        let i = at_or_before (map bp_Time (bs_Points s)) t in
        if i < 0 then None
        else
          let p = bs_Points s ! nat i in
          if maxAge > 0 \<and> time_Sub t (bp_Time p) > maxAge then None else Some p)"

section \<open>Features\<close>

record meta_as_of =
  me_ConditionID :: string
  me_TokenID :: string
  me_Category :: string
  me_NegRisk :: bool
  me_NegRiskGroupID :: string
  me_RelatedLegs :: "string list"
  me_EndDate :: gotime

definition day24 :: duration where "day24 = 24 * hour"

definition FeaturesAsOf ::
  "gotime \<Rightarrow> meta_as_of \<Rightarrow> price_series \<Rightarrow> book_point option \<Rightarrow> f64 \<Rightarrow> feature_vector option" where
  "FeaturesAsOf t meta prices book minDepth =
     (case series_MidAsOf prices t of
        None \<Rightarrow> None
      | Some mid \<Rightarrow>
          if mid \<le> 0 then None
          else
            let pts = PointCount prices t day24;
                path = PathActivity prices t day24;
                f = zero_features\<lparr>fv_ConditionID := me_ConditionID meta, fv_TokenID := me_TokenID meta, fv_Mid := mid,
                      fv_AbsRet1m := AbsRet prices t minute, fv_AbsRet5m := AbsRet prices t (5 * minute),
                      fv_AbsRet1h := AbsRet prices t hour, fv_OneDayAbs := AbsRet prices t day24,
                      fv_NegRisk := me_NegRisk meta, fv_NegRiskGroupID := me_NegRiskGroupID meta,
                      fv_VolumeProxy := SeriesActivityProxy pts path, fv_FeaturesAsOfUnix := Unix t\<rparr>;
                f = (if IsZero (me_EndDate meta) then f
                     else f\<lparr>fv_TTRHours := Hours (time_Sub (me_EndDate meta) t)\<rparr>)
            in case book of
                 None \<Rightarrow> Some (f\<lparr>fv_MissingBook := True, fv_Mid := mid\<rparr>)
               | Some b \<Rightarrow>
                   if bp_BestBid b > 0 \<and> bp_BestAsk b > 0 \<and> bp_BestAsk b \<ge> bp_BestBid b
                   then Some (FillBookDerived minDepth
                     (f\<lparr>fv_BestBid := bp_BestBid b, fv_BestAsk := bp_BestAsk b, fv_BidDepth := bp_TotalBidDepth b,
                        fv_AskDepth := bp_TotalAskDepth b, fv_BookAgeSec := Seconds (time_Sub t (bp_Time b))\<rparr>))
                   else Some (f\<lparr>fv_MissingBook := True, fv_Mid := mid\<rparr>))"

definition VolumeProxy24h :: "price_series \<Rightarrow> gotime \<Rightarrow> f64" where
  "VolumeProxy24h ps t = of_int_f64 (PointCount ps t day24)"

definition ActivityProxy24h :: "price_series \<Rightarrow> gotime \<Rightarrow> f64" where
  "ActivityProxy24h ps t = PathActivity ps t day24"

definition leg_mid :: "gotime \<Rightarrow> (string, price_series) gomap \<Rightarrow> string \<Rightarrow> f64 option" where
  \<comment> \<open>a positive mid of the token's series, if any\<close>
  "leg_mid t prices tok =
     (case go_get prices tok of
        None \<Rightarrow> None
      | Some ps \<Rightarrow> (case series_MidAsOf ps t of Some mid \<Rightarrow> if mid > 0 then Some mid else None | None \<Rightarrow> None))"

definition GroupMidsAtT ::
  "gotime \<Rightarrow> meta_as_of \<Rightarrow> (string, meta_as_of) gomap \<Rightarrow> (string, price_series) gomap \<Rightarrow> (string, f64) gomap" where
  "GroupMidsAtT t self byCond prices =
     (if me_NegRiskGroupID self = '''' \<and> me_RelatedLegs self = [] then []
      else
        let put = (\<lambda>out cid tok. case leg_mid t prices tok of None \<Rightarrow> out | Some mid \<Rightarrow> go_put cid mid out);
            out = put [] (me_ConditionID self) (me_TokenID self);
            out = foldl (\<lambda>out cid. case go_get byCond cid of None \<Rightarrow> out | Some m \<Rightarrow> put out cid (me_TokenID m))
                    out (me_RelatedLegs self);
            out = (if me_NegRiskGroupID self = '''' then out
                   else foldl (\<lambda>out (cid, m).
                          if me_NegRiskGroupID m \<noteq> me_NegRiskGroupID self \<or> cid = me_ConditionID self then out
                          else if go_has out cid then out
                          else put out cid (me_TokenID m)) out byCond)
        in if length out < 2 then [] else out)"

section \<open>Board snapshots\<close>

record board_snapshot_row =
  bn_SelectedAt :: gotime
  bn_Strategy :: string
  bn_RunID :: string
  bn_ConditionID :: string
  bn_TokenID :: string
  bn_Rank :: int
  bn_EdgeBps :: "f64 option"
  bn_Volume24hr :: f64
  bn_Category :: string
  bn_NegRisk :: bool
  bn_NegRiskGroupID :: string
  bn_RelatedLegs :: "string list"

record snap_index =
  sx_times :: "gotime list"
  sx_byTime :: "(gotime, board_snapshot_row list) gomap"
  sx_nRows :: int

definition snap_add :: "snap_index \<Rightarrow> board_snapshot_row \<Rightarrow> snap_index" where
  "snap_add idx r =
     (let key = bn_SelectedAt r in
      idx\<lparr>sx_byTime := go_put key (get_or [] (sx_byTime idx) key @ [r]) (sx_byTime idx),
          sx_times := (if key \<in> set (sx_times idx) then sx_times idx else sx_times idx @ [key]),
          sx_nRows := sx_nRows idx + 1\<rparr>)"

definition BuildSnapIndex :: "board_snapshot_row list \<Rightarrow> snap_index" where
  "BuildSnapIndex rows =
     (let idx = foldl snap_add \<lparr>sx_times = [], sx_byTime = [], sx_nRows = 0\<rparr> rows
      in idx\<lparr>sx_times := sort_by (<) (sx_times idx)\<rparr>)"

definition NearestAtOrBefore :: "snap_index \<Rightarrow> gotime \<Rightarrow> (gotime \<times> board_snapshot_row list) option" where
  "NearestAtOrBefore idx t =
     (if sx_times idx = [] then None
      else
        let i = at_or_before (sx_times idx) t in
        if i < 0 then None
        else let tm = sx_times idx ! nat i in Some (tm, get_or [] (sx_byTime idx) tm))"

record snap_meta =
  sm_Category :: string
  sm_NegRisk :: bool
  sm_NegRiskGroupID :: string
  sm_RelatedLegs :: "string list"
  sm_Volume24hr :: f64
  sm_TokenID :: string

definition LookupCond :: "snap_index \<Rightarrow> gotime \<Rightarrow> string \<Rightarrow> snap_meta option" where
  \<comment> \<open>None is \<open>Found = false\<close>; a found row has a volume\<close>
  "LookupCond idx t conditionID =
     (case NearestAtOrBefore idx t of
        None \<Rightarrow> None
      | Some (tm, rows) \<Rightarrow>
          map_option (\<lambda>r. \<lparr>sm_Category = bn_Category r, sm_NegRisk = bn_NegRisk r,
              sm_NegRiskGroupID = bn_NegRiskGroupID r, sm_RelatedLegs = bn_RelatedLegs r,
              sm_Volume24hr = bn_Volume24hr r, sm_TokenID = bn_TokenID r\<rparr>)
            (find (\<lambda>r. bn_ConditionID r = conditionID) rows))"

section \<open>Nothing looks ahead\<close>

definition series_ok :: "price_series \<Rightarrow> bool" where
  "series_ok s \<longleftrightarrow> sorted (ps_Times s) \<and> length (ps_Prices s) = length (ps_Times s)"

definition known_at :: "price_series \<Rightarrow> gotime \<Rightarrow> nat" where
  "known_at s t = length (takeWhile (\<lambda>x. x \<le> t) (ps_Times s))"

definition cut_after :: "gotime \<Rightarrow> price_series \<Rightarrow> price_series" where
  \<comment> \<open>what is known of the series at \<open>t\<close>\<close>
  "cut_after t s = s\<lparr>ps_Times := take (known_at s t) (ps_Times s), ps_Prices := take (known_at s t) (ps_Prices s)\<rparr>"

lemma takeWhile_cut: "t' \<le> t \<Longrightarrow> takeWhile (\<lambda>x. x \<le> t') (takeWhile (\<lambda>x. x \<le> t) ts) = takeWhile (\<lambda>x. x \<le> t') ts"
  for t :: gotime
  by (induction ts) auto

lemma cut_times: "ps_Times (cut_after t s) = takeWhile (\<lambda>x. x \<le> t) (ps_Times s)"
  by (simp add: cut_after_def known_at_def takeWhile_eq_take [symmetric])

lemma cut_ok: "series_ok s \<Longrightarrow> series_ok (cut_after t s)"
  by (simp add: series_ok_def cut_after_def sorted_wrt_take)

lemma known_cut: "t' \<le> t \<Longrightarrow> known_at (cut_after t s) t' = known_at s t'"
  by (simp add: known_at_def cut_times takeWhile_cut)

lemma known_le: "known_at s t \<le> length (ps_Times s)"
  by (simp add: known_at_def length_takeWhile_le)

lemma takeWhile_mono_length: "t' \<le> t \<Longrightarrow> length (takeWhile (\<lambda>x. x \<le> t') ts) \<le> length (takeWhile (\<lambda>x. x \<le> t) ts)"
  for t :: gotime
  by (induction ts) auto

lemma known_mono: "t' \<le> t \<Longrightarrow> known_at s t' \<le> known_at s t"
  by (simp add: known_at_def takeWhile_mono_length)

lemma index_known: "series_ok s \<Longrightarrow> indexAtOrBefore s t = int (known_at s t) - 1"
  by (auto simp: indexAtOrBefore_def series_ok_def at_or_before_sorted known_at_def)

lemma first_known: "series_ok s \<Longrightarrow> first_after s t = int (known_at s t)"
  by (simp add: first_after_def series_ok_def search_after known_at_def)

lemma cut_price: "i < known_at s t \<Longrightarrow> ps_Prices (cut_after t s) ! i = ps_Prices s ! i"
  by (simp add: cut_after_def)

lemma MidAsOf_cut: "series_ok s \<Longrightarrow> t' \<le> t \<Longrightarrow> series_MidAsOf (cut_after t s) t' = series_MidAsOf s t'"
  using known_mono [of t' t s] by (auto simp: series_MidAsOf_def index_known cut_ok known_cut Let_def cut_price)

lemma AbsRet_cut: "series_ok s \<Longrightarrow> 0 \<le> w \<Longrightarrow> AbsRet (cut_after t s) t w = AbsRet s t w"
proof -
  assume s: "series_ok s" and w: "0 \<le> w"
  have e: "time_Add t (- w) \<le> t" using w by (simp add: time_Add_def)
  show ?thesis unfolding AbsRet_def MidAsOf_cut [OF s e] MidAsOf_cut [OF s order.refl] by (rule refl)
qed

lemma PointCount_known:
  "series_ok s \<Longrightarrow> PointCount s t w = (if w \<le> 0 then 0 else int (known_at s t) - int (known_at s (t - w)))"
  using known_mono [of "t - w" t s]
  by (auto simp: PointCount_def index_known first_known Let_def time_Add_def known_at_def)

lemma PointCount_cut: "series_ok s \<Longrightarrow> PointCount (cut_after t s) t w = PointCount s t w"
  by (auto simp: PointCount_known cut_ok known_cut)

lemma PathActivity_known:
  "series_ok s \<Longrightarrow> PathActivity s t w =
     (if w \<le> 0 then 0
      else fsum (map (\<lambda>i. \<bar>ps_Prices s ! i - ps_Prices s ! (i - 1)\<bar>) [known_at s (t - w) + 1..<known_at s t]))"
proof (cases "known_at s (t - w) + 1 < known_at s t \<and> 0 < w")
  case True
  then have "nat (int (known_at s t) - 1) + 1 = known_at s t" by arith
  with True show "series_ok s \<Longrightarrow> ?thesis" using known_le [of s t]
    by (simp add: PathActivity_def index_known first_known Let_def time_Add_def)
next
  case False
  then show "series_ok s \<Longrightarrow> ?thesis"
    by (auto simp: PathActivity_def index_known first_known Let_def time_Add_def)
qed

lemma PathActivity_cut: "series_ok s \<Longrightarrow> PathActivity (cut_after t s) t w = PathActivity s t w"
  by (auto simp: PathActivity_known cut_ok known_cut cut_price intro!: arg_cong [of _ _ fsum] map_cong)

lemma FeaturesAsOf_cut: "series_ok s \<Longrightarrow> FeaturesAsOf t meta (cut_after t s) b md = FeaturesAsOf t meta s b md"
proof -
  assume s: "series_ok s"
  have d: "0 \<le> minute" "0 \<le> 5 * minute" "0 \<le> hour" "0 \<le> day24" by (simp_all add: day24_def hour_def minute_def)
  show ?thesis
    unfolding FeaturesAsOf_def MidAsOf_cut [OF s order.refl] AbsRet_cut [OF s d(1)] AbsRet_cut [OF s d(2)]
      AbsRet_cut [OF s d(3)] AbsRet_cut [OF s d(4)] PointCount_cut [OF s] PathActivity_cut [OF s] by (rule refl)
qed

lemma GroupMids_cut:
  assumes "\<And>tok s. go_get prices tok = Some s \<Longrightarrow> series_ok s"
  shows "GroupMidsAtT t self byCond (map (\<lambda>(k, s). (k, cut_after t s)) prices) = GroupMidsAtT t self byCond prices"
proof -
  have "go_get (map (\<lambda>(k, s). (k, cut_after t s)) prices) tok = map_option (cut_after t) (go_get prices tok)" for tok
    by (induction prices) auto
  then have "leg_mid t (map (\<lambda>(k, s). (k, cut_after t s)) prices) tok = leg_mid t prices tok" for tok
    using assms [of tok] by (auto simp: leg_mid_def MidAsOf_cut split: option.split)
  then show ?thesis by (simp add: GroupMidsAtT_def)
qed

text \<open>C36: the features the evaluation scores are point-in-time: on a series in ascending order, the
  features of a market at \<open>t\<close>, its volume and activity proxies and the mids of its group are those of the
  series cut after \<open>t\<close>; whatever comes later cannot change them.\<close>

theorem features_point_in_time:
  assumes "series_ok s" and "\<forall>tok s'. go_get prices tok = Some s' \<longrightarrow> series_ok s'"
  shows "FeaturesAsOf t meta (cut_after t s) book minDepth = FeaturesAsOf t meta s book minDepth \<and>
    VolumeProxy24h (cut_after t s) t = VolumeProxy24h s t \<and> ActivityProxy24h (cut_after t s) t = ActivityProxy24h s t \<and>
    GroupMidsAtT t meta byCond (map (\<lambda>(k, s). (k, cut_after t s)) prices) = GroupMidsAtT t meta byCond prices"
  using assms FeaturesAsOf_cut PointCount_cut PathActivity_cut GroupMids_cut [of prices]
  by (simp add: VolumeProxy24h_def ActivityProxy24h_def)

definition demo_series :: price_series where
  "demo_series = \<lparr>ps_TokenID = ''t'', ps_Times = [10, 20, 30], ps_Prices = [Fin (4 / 10), Fin (5 / 10), Fin (9 / 10)]\<rparr>"

theorem features_point_in_time_witness:
  "VolumeProxy24h (cut_after 20 demo_series) 20 = VolumeProxy24h demo_series 20 \<and>
   length (ps_Times (cut_after 20 demo_series)) = 2 \<and> length (ps_Times demo_series) = 3"
proof -
  have "series_ok demo_series" by (simp add: series_ok_def demo_series_def)
  from features_point_in_time [OF this, of "[]"] show ?thesis by (simp add: cut_times demo_series_def)
qed

end
