(* ===== verification/Price_DB.thy ===== *)
theory Price_DB
  imports Eval_Series Go_Text
begin

text \<open>
  \<open>internal/db/prices.go\<close> and \<open>labels.go\<close>: the price history keyed by token and stored timestamp, the book snapshots,
  the market metadata the evaluation reads, and the label rows.  A table is a Go map over its primary key; a query
  is a function of the table; SQL leaves the order of equal keys open and the model keeps the stored one.  A nil
  connection and the failures of the database are not modelled.
  Lemmas: timestamps convert back and forth within a scale; a series loaded from rows of one scale is in ascending order, as
  the evaluation needs it, and its last point is the price as of a time; and two defects of mixed scales.
\<close>

section \<open>Timestamps\<close>

definition unix_time :: "int \<Rightarrow> gotime" where
  \<comment> \<open>\<open>time.Unix(s, 0)\<close>\<close>
  "unix_time s = (s + 62135596800) * 1000000000"

definition unix_milli_time :: "int \<Rightarrow> gotime" where
  \<comment> \<open>\<open>time.UnixMilli(ms)\<close>\<close>
  "unix_milli_time ms = (ms + 62135596800000) * 1000000"

definition UnixMilli :: "gotime \<Rightarrow> int" where
  "UnixMilli t = t div 1000000 - 62135596800000"

definition ms_scale :: int where "ms_scale = 1000000000000"

definition NormalizePriceTS :: "int \<Rightarrow> gotime" where
  "NormalizePriceTS ts = (if ts \<le> 0 then 0 else if ts \<ge> ms_scale then unix_milli_time ts else unix_time ts)"

definition PriceTSUnix :: "gotime \<Rightarrow> int" where
  "PriceTSUnix t = (if IsZero t then 0 else Unix t)"

section \<open>The price history\<close>

record price_row =
  pw_TokenID :: string
  pw_TimestampUnix :: int
  pw_Price :: f64
  pw_MarketID :: string
  pw_Fidelity :: int
  pw_UpdatedAt :: int

record price_point =
  pp_TokenID :: string
  pp_Timestamp :: gotime
  pp_Price :: f64
  pp_MarketID :: string
  pp_Fidelity :: int
  pp_RawTS :: int

type_synonym price_table = "(string \<times> int, price_row) gomap"

definition insertable :: "price_row \<Rightarrow> bool" where
  "insertable r \<longleftrightarrow> pw_TokenID r \<noteq> '''' \<and> pw_TimestampUnix r > 0"

definition upsert_price :: "int \<Rightarrow> price_table \<Rightarrow> price_row \<Rightarrow> price_table" where
  \<comment> \<open>the new market and fidelity are never NULL, so COALESCE takes them\<close>
  "upsert_price now tbl r =
     go_put (pw_TokenID r, pw_TimestampUnix r)
       (r\<lparr>pw_UpdatedAt := (if pw_UpdatedAt r \<le> 0 then now else pw_UpdatedAt r)\<rparr>) tbl"

definition InsertPricesHistory :: "int \<Rightarrow> price_row list \<Rightarrow> price_table \<Rightarrow> price_table" where
  "InsertPricesHistory now rows tbl = foldl (upsert_price now) tbl (filter insertable rows)"

definition point_of :: "price_row \<Rightarrow> price_point" where
  "point_of r =
     \<lparr>pp_TokenID = pw_TokenID r, pp_Timestamp = NormalizePriceTS (pw_TimestampUnix r), pp_Price = pw_Price r,
      pp_MarketID = pw_MarketID r, pp_Fidelity = pw_Fidelity r, pp_RawTS = pw_TimestampUnix r\<rparr>"

definition token_rows :: "price_table \<Rightarrow> string \<Rightarrow> price_row list" where
  "token_rows tbl tok = map snd (filter (\<lambda>((k, _), _). k = tok) tbl)"

definition raw_as_of :: "gotime \<Rightarrow> price_row \<Rightarrow> bool" where
  \<comment> \<open>the WHERE clause, scale by scale\<close>
  "raw_as_of asOf r \<longleftrightarrow>
     pw_TimestampUnix r < ms_scale \<and> pw_TimestampUnix r \<le> Unix asOf \<or>
     pw_TimestampUnix r \<ge> ms_scale \<and> pw_TimestampUnix r \<le> UnixMilli asOf"

definition newest_first :: "price_row list \<Rightarrow> price_row list" where
  "newest_first rs = sort_by (\<lambda>a b. pw_TimestampUnix a > pw_TimestampUnix b) rs"

definition price_as_of :: "gotime \<Rightarrow> price_table \<Rightarrow> string \<Rightarrow> price_point option" where
  \<comment> \<open>one token: the first row by descending stored timestamp, unless it lies a minute after \<open>asOf\<close>\<close>
  "price_as_of asOf tbl tok =
     (case newest_first (filter (raw_as_of asOf) (token_rows tbl tok)) of
        [] \<Rightarrow> None
      | r # _ \<Rightarrow> if pp_Timestamp (point_of r) > time_Add asOf minute then None else Some (point_of r))"

definition LoadPriceAsOf :: "string list \<Rightarrow> gotime \<Rightarrow> price_table \<Rightarrow> (string, price_point) gomap" where
  "LoadPriceAsOf tokenIDs asOf tbl =
     (if tokenIDs = [] \<or> IsZero asOf then []
      else List.map_filter (\<lambda>tok. map_option (Pair tok) (price_as_of asOf tbl tok)) (remdups tokenIDs))"

definition LoadMaxPriceTimestamp :: "string list \<Rightarrow> price_table \<Rightarrow> (string, int) gomap" where
  "LoadMaxPriceTimestamp tokenIDs tbl =
     List.map_filter (\<lambda>tok. case newest_first (token_rows tbl tok) of [] \<Rightarrow> None | r # _ \<Rightarrow> Some (tok, pw_TimestampUnix r))
       (remdups tokenIDs)"

definition raw_between :: "gotime \<Rightarrow> gotime \<Rightarrow> price_row \<Rightarrow> bool" where
  "raw_between from_t to_t r \<longleftrightarrow>
     pw_TimestampUnix r < ms_scale \<and> Unix from_t \<le> pw_TimestampUnix r \<and> pw_TimestampUnix r \<le> Unix to_t \<or>
     pw_TimestampUnix r \<ge> ms_scale \<and> UnixMilli from_t \<le> pw_TimestampUnix r \<and> pw_TimestampUnix r \<le> UnixMilli to_t"

definition series_points :: "gotime \<Rightarrow> gotime \<Rightarrow> price_table \<Rightarrow> string \<Rightarrow> price_point list" where
  \<comment> \<open>one token's rows, by ascending stored timestamp\<close>
  "series_points from_t to_t tbl tok =
     filter (\<lambda>p. \<not> (pp_Timestamp p < time_Add from_t (- minute) \<or> pp_Timestamp p > time_Add to_t minute))
       (map point_of (sort_by (\<lambda>a b. pw_TimestampUnix a < pw_TimestampUnix b)
         (filter (raw_between from_t to_t) (token_rows tbl tok))))"

definition LoadPriceSeries :: "string list \<Rightarrow> gotime \<Rightarrow> gotime \<Rightarrow> price_table \<Rightarrow> (string, price_point list) gomap" where
  "LoadPriceSeries tokenIDs from_t to_t tbl =
     List.map_filter (\<lambda>tok. case series_points from_t to_t tbl tok of [] \<Rightarrow> None | ps \<Rightarrow> Some (tok, ps)) (remdups tokenIDs)"

section \<open>Books\<close>

record book_as_of =
  ba_TokenID :: string
  ba_Time :: gotime
  ba_BestBid :: f64
  ba_BestAsk :: f64
  ba_TotalBidDepth :: f64
  ba_TotalAskDepth :: f64

definition book_of_token :: "gotime \<Rightarrow> duration \<Rightarrow> book_as_of list \<Rightarrow> string \<Rightarrow> book_as_of option" where
  "book_of_token asOf maxAge rows tok =
     (case sort_by (\<lambda>a b. ba_Time a > ba_Time b) (filter (\<lambda>b. ba_TokenID b = tok \<and> ba_Time b \<le> asOf) rows) of
        [] \<Rightarrow> None
      | b # _ \<Rightarrow> if maxAge > 0 \<and> time_Sub asOf (ba_Time b) > maxAge then None else Some b)"

definition LoadBookAsOf :: "string list \<Rightarrow> gotime \<Rightarrow> duration \<Rightarrow> book_as_of list \<Rightarrow> (string, book_as_of) gomap" where
  "LoadBookAsOf tokenIDs asOf maxAge rows =
     (if tokenIDs = [] \<or> IsZero asOf then []
      else List.map_filter (\<lambda>tok. map_option (Pair tok) (book_of_token asOf maxAge rows tok)) (remdups tokenIDs))"

definition LoadBookSeries :: "string list \<Rightarrow> gotime \<Rightarrow> gotime \<Rightarrow> book_as_of list \<Rightarrow> (string, book_as_of list) gomap" where
  "LoadBookSeries tokenIDs from_t to_t rows =
     List.map_filter (\<lambda>tok.
       case sort_by (\<lambda>a b. ba_Time a < ba_Time b)
              (filter (\<lambda>b. ba_TokenID b = tok \<and> from_t \<le> ba_Time b \<and> ba_Time b \<le> to_t) rows) of
         [] \<Rightarrow> None | bs \<Rightarrow> Some (tok, bs)) (remdups tokenIDs)"

section \<open>Markets\<close>

record eval_market_meta =
  mm_ConditionID :: string
  mm_MarketID :: string
  mm_TokenID :: string
  mm_Category :: string
  mm_NegRisk :: bool
  mm_NegRiskGroupID :: string
  mm_RelatedLegs :: "string list"
  mm_Volume24hr :: f64
  mm_Spread :: f64
  mm_OneDayChange :: f64
  mm_EndDate :: gotime
  mm_Active :: bool

definition blank :: "char \<Rightarrow> bool" where
  "blank c \<longleftrightarrow> c = CHR '' '' \<or> c = CHR 0x09 \<or> c = CHR 0x0A"

definition trimSpace :: "string \<Rightarrow> string" where
  "trimSpace s = rev (dropWhile blank (rev (dropWhile blank s)))"

fun quoted :: "bool \<Rightarrow> string \<Rightarrow> string \<Rightarrow> string" where
  \<comment> \<open>\<open>inQ\<close>, the bytes so far, the rest; the end of the text gives the empty token\<close>
  "quoted inQ b [] = ''''"
| "quoted inQ b (c # cs) =
     (if c = CHR 0x22 then if inQ then b else quoted True [] cs
      else if inQ then quoted True (b @ [c]) cs else quoted False b cs)"

definition primaryTokenFromJSON :: "string \<Rightarrow> string" where
  "primaryTokenFromJSON raw =
     (let raw = trimSpace raw in
      if raw = '''' then '''' else if hd raw = CHR ''['' then quoted False [] raw else raw)"

record market_query_row =
  mq_ConditionID :: string
  mq_MarketID :: string
  mq_ClobTokenIDs :: string
  mq_Category :: string
  mq_NegRisk :: bool
  mq_Volume24hr :: "f64 option"
  mq_Spread :: f64
  mq_OneDayChange :: f64
  mq_EndDate :: "gotime option"
  mq_Active :: bool

definition volume_before :: "market_query_row \<Rightarrow> market_query_row \<Rightarrow> bool" where
  \<comment> \<open>\<open>ORDER BY volume_24hr DESC NULLS LAST\<close>\<close>
  "volume_before a b =
     (case (mq_Volume24hr a, mq_Volume24hr b) of
        (Some x, Some y) \<Rightarrow> x > y | (Some x, None) \<Rightarrow> True | _ \<Rightarrow> False)"

definition meta_of_row :: "market_query_row \<Rightarrow> eval_market_meta" where
  "meta_of_row q =
     \<lparr>mm_ConditionID = mq_ConditionID q, mm_MarketID = mq_MarketID q, mm_TokenID = primaryTokenFromJSON (mq_ClobTokenIDs q),
      mm_Category = mq_Category q, mm_NegRisk = mq_NegRisk q, mm_NegRiskGroupID = '''', mm_RelatedLegs = [],
      mm_Volume24hr = (case mq_Volume24hr q of None \<Rightarrow> 0 | Some v \<Rightarrow> v), mm_Spread = mq_Spread q,
      mm_OneDayChange = mq_OneDayChange q, mm_EndDate = (case mq_EndDate q of None \<Rightarrow> 0 | Some e \<Rightarrow> e), mm_Active = True\<rparr>"

definition LoadTopVolumeMarkets :: "int \<Rightarrow> market_query_row list \<Rightarrow> eval_market_meta list" where
  "LoadTopVolumeMarkets limit rows =
     (let limit = (if limit \<le> 0 then 300 else limit) in
      filter (\<lambda>m. mm_TokenID m \<noteq> '''')
        (map meta_of_row (take (nat limit)
          (sort_by volume_before (filter (\<lambda>q. mq_Active q \<and> mq_ClobTokenIDs q \<noteq> '''') rows)))))"

section \<open>Label rows\<close>

record label_row =
  lr_DecisionTime :: gotime
  lr_Horizon :: string
  lr_ConditionID :: string
  lr_SelectionSet :: string
  lr_RunID :: string
  lr_Hit :: bool
  lr_AfterCostReturnBps :: f64
  lr_Category :: string
  lr_NegRisk :: bool
  lr_FVSource :: string
  lr_TTRBucket :: string
  lr_MidAtT :: f64
  lr_EdgeBpsAtT :: f64

type_synonym label_table = "(gotime \<times> string \<times> string \<times> string, label_row) gomap"

definition label_key :: "label_row \<Rightarrow> gotime \<times> string \<times> string \<times> string" where
  "label_key r = (lr_DecisionTime r, lr_Horizon r, lr_ConditionID r, lr_SelectionSet r)"

definition label_stored :: "label_row \<Rightarrow> label_row" where
  "label_stored r = r\<lparr>lr_SelectionSet := (if lr_SelectionSet r = '''' then ''board_at_t'' else lr_SelectionSet r)\<rparr>"

definition label_storable :: "label_row \<Rightarrow> bool" where
  "label_storable r \<longleftrightarrow> \<not> (lr_ConditionID r = '''' \<or> lr_Horizon r = '''' \<or> IsZero (lr_DecisionTime r))"

definition InsertLabelRows :: "label_row list \<Rightarrow> label_table \<Rightarrow> label_table" where
  "InsertLabelRows rows tbl =
     foldl (\<lambda>t r. go_put (label_key (label_stored r)) (label_stored r) t) tbl (filter label_storable rows)"


section \<open>Conversions\<close>

text \<open>a time survives storage.  A time between 1970 and the year 33658 comes back from its stored
  seconds truncated to the second, and the stored seconds come back exactly; a stored millisecond timestamp is read
  as the time with exactly those milliseconds.\<close>

theorem price_ts_roundtrip:
  "(0 < Unix t \<and> Unix t < ms_scale \<longrightarrow> NormalizePriceTS (PriceTSUnix t) = Truncate t second) \<and>
   (0 < ts \<and> ts < ms_scale \<longrightarrow> PriceTSUnix (NormalizePriceTS ts) = ts) \<and>
   (ms_scale \<le> ts \<longrightarrow> UnixMilli (NormalizePriceTS ts) = ts)"
proof (intro conjI impI)
  assume "0 < Unix t \<and> Unix t < ms_scale"
  then show "NormalizePriceTS (PriceTSUnix t) = Truncate t second"
    by (auto simp: NormalizePriceTS_def PriceTSUnix_def Unix_def IsZero_def unix_time_def Truncate_def second_def
        minus_mod_eq_div_mult)
next
  assume "0 < ts \<and> ts < ms_scale"
  then show "PriceTSUnix (NormalizePriceTS ts) = ts"
    by (auto simp: NormalizePriceTS_def PriceTSUnix_def Unix_def IsZero_def unix_time_def)
next
  assume "ms_scale \<le> ts"
  then show "UnixMilli (NormalizePriceTS ts) = ts"
    by (auto simp: NormalizePriceTS_def UnixMilli_def unix_milli_time_def ms_scale_def)
qed

theorem price_ts_roundtrip_witness:
  "NormalizePriceTS (PriceTSUnix (unix_time 1700000000 + 5)) = Truncate (unix_time 1700000000 + 5) second \<and>
   PriceTSUnix (NormalizePriceTS 1700000000) = 1700000000 \<and>
   UnixMilli (NormalizePriceTS 1700000000000) = 1700000000000"
  using price_ts_roundtrip [of "unix_time 1700000000 + 5" 1700000000] price_ts_roundtrip [of 0 1700000000000]
  by (simp add: Unix_def unix_time_def ms_scale_def)

section \<open>The table\<close>

definition price_ok :: "price_table \<Rightarrow> bool" where
  "price_ok tbl \<longleftrightarrow> go_wf tbl \<and> (\<forall>((k, ts), r) \<in> set tbl. pw_TokenID r = k \<and> pw_TimestampUnix r = ts \<and> k \<noteq> '''' \<and> 0 < ts)"

lemma go_put_mem: "x \<in> set (go_put k v m) \<Longrightarrow> x = (k, v) \<or> x \<in> set m"
  by (induction m) (auto split: if_splits)

lemma price_ok_upsert: "price_ok tbl \<Longrightarrow> insertable r \<Longrightarrow> price_ok (upsert_price now tbl r)"
proof -
  assume ok: "price_ok tbl" and r: "insertable r"
  let ?r = "r\<lparr>pw_UpdatedAt := (if pw_UpdatedAt r \<le> 0 then now else pw_UpdatedAt r)\<rparr>"
  have wf: "go_wf (upsert_price now tbl r)" using ok by (simp add: price_ok_def upsert_price_def distinct_update)
  have "((k, ts), x) \<in> set tbl \<or> (k = pw_TokenID r \<and> ts = pw_TimestampUnix r \<and> x = ?r)"
    if "((k, ts), x) \<in> set (upsert_price now tbl r)" for k ts x
    using map_of_is_SomeI [OF wf that] by (auto simp: upsert_price_def update_conv' dest: map_of_SomeD split: if_splits)
  with ok r wf show ?thesis by (fastforce simp: price_ok_def insertable_def)
qed

lemma InsertPricesHistory_ok: "price_ok tbl \<Longrightarrow> price_ok (InsertPricesHistory now rows tbl)"
proof -
  have "price_ok tbl \<Longrightarrow> \<forall>r \<in> set rs. insertable r \<Longrightarrow> price_ok (foldl (upsert_price now) tbl rs)" for rs
    by (induction rs arbitrary: tbl) (auto intro: price_ok_upsert)
  then show "price_ok tbl \<Longrightarrow> price_ok (InsertPricesHistory now rows tbl)" by (simp add: InsertPricesHistory_def)
qed

lemma token_rows_mem: "r \<in> set (token_rows tbl tok) \<longleftrightarrow> (\<exists>ts. ((tok, ts), r) \<in> set tbl)"
  by (force simp: token_rows_def)

lemma token_rows_distinct:
  assumes "price_ok tbl"
  shows "distinct (map pw_TimestampUnix (token_rows tbl tok))"
proof -
  have "map pw_TimestampUnix (token_rows tbl tok) = map (snd \<circ> fst) (filter (\<lambda>((k, _), _). k = tok) tbl)"
    using assms by (auto simp: token_rows_def price_ok_def)
  moreover have "distinct (map (snd \<circ> fst) (filter (\<lambda>((k, _), _). k = tok) t))" if "go_wf t" for t :: price_table
    using that by (induction t) force+
  ultimately show ?thesis using assms by (simp add: price_ok_def)
qed

section \<open>Series in one scale\<close>

definition seconds_only :: "price_table \<Rightarrow> string \<Rightarrow> bool" where
  "seconds_only tbl tok \<longleftrightarrow> (\<forall>r \<in> set (token_rows tbl tok). pw_TimestampUnix r < ms_scale)"

lemma row_time:
  assumes "price_ok tbl" and "seconds_only tbl tok" and "r \<in> set (token_rows tbl tok)"
  shows "pp_Timestamp (point_of r) = unix_time (pw_TimestampUnix r)" "pw_TimestampUnix r < ms_scale"
proof -
  have "0 < pw_TimestampUnix r" using assms(1,3) by (auto simp: price_ok_def token_rows_mem)
  moreover show "pw_TimestampUnix r < ms_scale" using assms(2,3) by (auto simp: seconds_only_def)
  ultimately show "pp_Timestamp (point_of r) = unix_time (pw_TimestampUnix r)"
    by (simp add: point_of_def NormalizePriceTS_def)
qed

lemma unix_time_mono [simp]: "unix_time a < unix_time b \<longleftrightarrow> a < b" "unix_time a = unix_time b \<longleftrightarrow> a = b"
  by (auto simp: unix_time_def)

lemma unix_time_floor: "unix_time (Unix t) \<le> t" "t < unix_time (Unix t) + second"
  by (simp_all add: unix_time_def Unix_def second_def)

lemma unix_time_le: "a \<le> Unix t \<longleftrightarrow> unix_time a \<le> t"
proof
  assume "a \<le> Unix t"
  then have "unix_time a \<le> unix_time (Unix t)" by (simp add: unix_time_def)
  then show "unix_time a \<le> t" using unix_time_floor(1) [of t] by simp
next
  assume "unix_time a \<le> t"
  then have "unix_time a < unix_time (Unix t + 1)" using unix_time_floor(2) [of t] by (simp add: unix_time_def second_def)
  then show "a \<le> Unix t" by simp
qed

lemma key_sort_strict:
  fixes key :: "'a \<Rightarrow> int"
  assumes "distinct (map key xs)"
  shows "sorted_wrt (<) (map key (sort_by (\<lambda>a b. key a < key b) xs))"
proof -
  have "distinct (map key (sort_by (\<lambda>a b. key a < key b) xs))"
    using assms by (metis mset_map mset_sort_by mset_eq_imp_distinct_iff)
  with sorted_key_sort [of key xs] show ?thesis by (simp add: strict_sorted_iff)
qed

lemma last_max_key:
  fixes key :: "'a \<Rightarrow> int"
  assumes d: "distinct (map key xs)" and ne: "sort_by (\<lambda>a b. key a < key b) xs \<noteq> []"
    and r: "r \<in> set xs" "\<forall>q \<in> set xs. key q \<le> key r"
  shows "last (sort_by (\<lambda>a b. key a < key b) xs) = r"
proof -
  let ?S = "sort_by (\<lambda>a b. key a < key b) xs"
  have S: "?S = butlast ?S @ [last ?S]" using ne by simp
  have "r \<in> set ?S" using r(1) by simp
  then consider "r = last ?S" | "r \<in> set (butlast ?S)" using S by (metis in_set_butlastD Un_iff empty_iff insert_iff list.set set_append)
  then show ?thesis
  proof cases
    case 2
    have "sorted_wrt (<) (map key (butlast ?S @ [last ?S]))" using key_sort_strict [OF d] S by simp
    with 2 have "key r < key (last ?S)" by (auto simp: sorted_wrt_append)
    moreover have "last ?S \<in> set xs" using ne by (metis last_in_set set_sort_by)
    ultimately show ?thesis using r(2) by fastforce
  qed simp
qed

lemma series_filter:
  assumes "price_ok tbl" and "seconds_only tbl tok"
  shows "series_points f t tbl tok = map point_of (sort_by (\<lambda>a b. pw_TimestampUnix a < pw_TimestampUnix b)
    (filter (\<lambda>r. Unix f \<le> pw_TimestampUnix r \<and> pw_TimestampUnix r \<le> Unix t) (token_rows tbl tok)))"
proof -
  have eq: "filter (raw_between f t) (token_rows tbl tok) =
      filter (\<lambda>r. Unix f \<le> pw_TimestampUnix r \<and> pw_TimestampUnix r \<le> Unix t) (token_rows tbl tok)"
    by (intro filter_cong refl) (fastforce simp: raw_between_def dest: row_time(2) [OF assms])
  have "\<not> (pp_Timestamp (point_of r) < time_Add f (- minute) \<or> pp_Timestamp (point_of r) > time_Add t minute)"
    if "r \<in> set (token_rows tbl tok)" "Unix f \<le> pw_TimestampUnix r" "pw_TimestampUnix r \<le> Unix t" for r
    using that row_time(1) [OF assms that(1)] unix_time_floor [of f] unix_time_floor [of t]
    by (auto simp: time_Add_def minute_def second_def unix_time_def)
  then show ?thesis unfolding series_points_def eq by (intro filter_True) auto
qed

lemma series_ascend:
  assumes "price_ok tbl" and "seconds_only tbl tok"
  shows "sorted_wrt (<) (map pp_Timestamp (series_points f t tbl tok))"
proof -
  let ?R = "filter (\<lambda>r. Unix f \<le> pw_TimestampUnix r \<and> pw_TimestampUnix r \<le> Unix t) (token_rows tbl tok)"
  have d: "distinct (map pw_TimestampUnix ?R)"
    using token_rows_distinct [OF assms(1)] distinct_map_filter by blast
  have stamps: "map pp_Timestamp (series_points f t tbl tok) =
      map (\<lambda>r. unix_time (pw_TimestampUnix r)) (sort_by (\<lambda>a b. pw_TimestampUnix a < pw_TimestampUnix b) ?R)"
    unfolding series_filter [OF assms] using row_time(1) [OF assms] by simp
  show ?thesis unfolding stamps using key_sort_strict [OF d] by (simp add: sorted_wrt_map)
qed

text \<open>a loaded price series is what the evaluation searches by bisection: where every row of the token is stored in
  seconds, the points come in strictly ascending order of time, one for each row of the window, and the price
  as of the end of the window is the last of them.\<close>

theorem price_series_ascending:
  assumes "price_ok tbl" and "seconds_only tbl tok"
  shows "sorted_wrt (<) (map pp_Timestamp (series_points f t tbl tok)) \<and>
    set (series_points f t tbl tok) =
      point_of ` {r \<in> set (token_rows tbl tok). Unix f \<le> pw_TimestampUnix r \<and> pw_TimestampUnix r \<le> Unix t} \<and>
    ((\<forall>r \<in> set (token_rows tbl tok). Unix f \<le> pw_TimestampUnix r) \<longrightarrow>
      price_as_of t tbl tok = (if series_points f t tbl tok = [] then None else Some (last (series_points f t tbl tok))))"
proof (intro conjI impI)
  let ?in = "\<lambda>r. Unix f \<le> pw_TimestampUnix r \<and> pw_TimestampUnix r \<le> Unix t"
  let ?R = "filter ?in (token_rows tbl tok)"
  let ?S = "sort_by (\<lambda>a b. pw_TimestampUnix a < pw_TimestampUnix b) ?R"
  have d: "distinct (map pw_TimestampUnix ?R)"
    using token_rows_distinct [OF assms(1)] distinct_map_filter by blast
  show "sorted_wrt (<) (map pp_Timestamp (series_points f t tbl tok))" by (rule series_ascend [OF assms])
  show "set (series_points f t tbl tok) = point_of ` {r \<in> set (token_rows tbl tok). ?in r}"
    unfolding series_filter [OF assms] by simp
  assume all: "\<forall>r \<in> set (token_rows tbl tok). Unix f \<le> pw_TimestampUnix r"
  have eq: "filter (raw_as_of t) (token_rows tbl tok) = ?R"
    using all by (intro filter_cong refl) (fastforce simp: raw_as_of_def dest: row_time(2) [OF assms])
  show "price_as_of t tbl tok = (if series_points f t tbl tok = [] then None else Some (last (series_points f t tbl tok)))"
  proof (cases "?R = []")
    case True
    then show ?thesis by (simp add: price_as_of_def eq newest_first_def series_filter [OF assms])
  next
    case False
    moreover have "set (newest_first ?R) = set ?R" "set ?S = set ?R" unfolding newest_first_def by (rule set_sort_by)+
    ultimately have ne: "newest_first ?R \<noteq> []" "?S \<noteq> []" by (metis set_empty)+
    then obtain r rs where n: "newest_first ?R = r # rs" by (cases "newest_first ?R") auto
    have "sorted_wrt (\<lambda>a b. \<not> pw_TimestampUnix a < pw_TimestampUnix b) (r # rs)"
      using sortS.ordered [of "\<lambda>a b. pw_TimestampUnix a > pw_TimestampUnix b" ?R]
      unfolding n [symmetric] newest_first_def by (auto simp: swo_on_def)
    moreover have "set (r # rs) = set ?R" unfolding n [symmetric] newest_first_def by (rule set_sort_by)
    ultimately have r: "r \<in> set ?R" "\<forall>q \<in> set ?R. pw_TimestampUnix q \<le> pw_TimestampUnix r" by force+
    have "last ?S = r"
      using last_max_key [OF d ne(2)] r by blast
    moreover have "\<not> pp_Timestamp (point_of r) > time_Add t minute"
      using r(1) row_time(1) [OF assms, of r] unix_time_le [of "pw_TimestampUnix r" t]
      by (auto simp: time_Add_def minute_def)
    ultimately show ?thesis
      using ne(2) by (simp add: price_as_of_def eq n series_filter [OF assms] last_map)
  qed
qed

definition demo_price :: "int \<Rightarrow> real \<Rightarrow> price_row" where
  "demo_price ts p = \<lparr>pw_TokenID = ''t'', pw_TimestampUnix = ts, pw_Price = Fin p, pw_MarketID = '''', pw_Fidelity = 0, pw_UpdatedAt = 1\<rparr>"

lemma price_ok_Nil: "price_ok []" by (simp add: price_ok_def)

definition one_scale :: price_table where
  "one_scale = InsertPricesHistory 1 [demo_price 1700003600 (6 / 10), demo_price 1700000000 (5 / 10)] []"

lemma one_scale_facts:
  "price_ok one_scale" "seconds_only one_scale ''t''" "length (token_rows one_scale ''t'') = 2"
  "\<forall>r \<in> set (token_rows one_scale ''t''). Unix (unix_time 0) \<le> pw_TimestampUnix r \<and> pw_TimestampUnix r \<le> Unix (unix_time 1700007200)"
proof -
  show "price_ok one_scale" unfolding one_scale_def by (rule InsertPricesHistory_ok [OF price_ok_Nil])
  have rows: "token_rows one_scale ''t'' =
      [demo_price 1700003600 (6 / 10), demo_price 1700000000 (5 / 10)]"
    by (simp add: one_scale_def InsertPricesHistory_def insertable_def demo_price_def upsert_price_def token_rows_def)
  then show "seconds_only one_scale ''t''" "length (token_rows one_scale ''t'') = 2"
    "\<forall>r \<in> set (token_rows one_scale ''t''). Unix (unix_time 0) \<le> pw_TimestampUnix r \<and> pw_TimestampUnix r \<le> Unix (unix_time 1700007200)"
    by (simp_all add: seconds_only_def demo_price_def ms_scale_def Unix_def unix_time_def)
qed

theorem price_series_ascending_witness:
  "sorted_wrt (<) (map pp_Timestamp (series_points (unix_time 0) (unix_time 1700007200) one_scale ''t'')) \<and>
   length (token_rows one_scale ''t'') = 2"
  using price_series_ascending [OF one_scale_facts(1,2), of "unix_time 0" "unix_time 1700007200"] one_scale_facts(3) by simp

section \<open>Mixed scales\<close>

definition mixed_scales :: price_table where
  \<comment> \<open>an hour-old price in milliseconds, and the present one in seconds\<close>
  "mixed_scales = InsertPricesHistory 1 [demo_price 1700000000000 (5 / 10), demo_price 1700003600 (6 / 10)] []"

text \<open>a history that mixes seconds and milliseconds, which the loaders accept, is read in the wrong order: the
  query orders by the stored integer, so the price as of a time is the older one, and the series does not ascend.\<close>

theorem mixed_scales_misorder:
  "price_ok mixed_scales \<and>
   map_option pp_Price (price_as_of (unix_time 1700003600) mixed_scales ''t'') = Some (Fin (5 / 10)) \<and>
   (\<exists>p \<in> set (series_points (unix_time 0) (unix_time 1700003600) mixed_scales ''t'').
      pp_Timestamp p = unix_time 1700003600 \<and> pp_Price p = Fin (6 / 10)) \<and>
   \<not> sorted (map pp_Timestamp (series_points (unix_time 0) (unix_time 1700003600) mixed_scales ''t''))"
proof -
  have rows: "token_rows mixed_scales ''t'' = [demo_price 1700000000000 (5 / 10), demo_price 1700003600 (6 / 10)]"
    by (simp add: mixed_scales_def InsertPricesHistory_def insertable_def demo_price_def upsert_price_def token_rows_def)
  have "price_ok mixed_scales" unfolding mixed_scales_def by (rule InsertPricesHistory_ok [OF price_ok_Nil])
  moreover have "map_option pp_Price (price_as_of (unix_time 1700003600) mixed_scales ''t'') = Some (Fin (5 / 10))"
    by (simp add: price_as_of_def rows raw_as_of_def demo_price_def ms_scale_def unix_time_def Unix_def UnixMilli_def
        newest_first_def sort_by_def point_of_def NormalizePriceTS_def unix_milli_time_def time_Add_def minute_def)
  moreover have "series_points (unix_time 0) (unix_time 1700003600) mixed_scales ''t'' =
      map point_of [demo_price 1700003600 (6 / 10), demo_price 1700000000000 (5 / 10)]"
    by (simp add: series_points_def rows raw_between_def demo_price_def ms_scale_def unix_time_def Unix_def UnixMilli_def
        sort_by_def point_of_def NormalizePriceTS_def unix_milli_time_def time_Add_def minute_def)
  ultimately show ?thesis
    by (simp add: point_of_def demo_price_def NormalizePriceTS_def ms_scale_def unix_time_def unix_milli_time_def)
qed

section \<open>Labels\<close>

lemma go_put_all_get:
  "go_get (foldl (\<lambda>t r. go_put (key r) (val r) t) tbl rs) k =
     (case find (\<lambda>r. key r = k) (rev rs) of Some r \<Rightarrow> Some (val r) | None \<Rightarrow> go_get tbl k)"
  by (induction rs rule: rev_induct) (auto simp: update_conv' split: option.splits)

text \<open>label rows are an upsert by decision, horizon, market and selection set: the stored row of a key is the
  last given with it, and a row without a market, a horizon or a time changes nothing.\<close>

theorem labels_upserted:
  "go_get (InsertLabelRows rows tbl) k =
     (case find (\<lambda>r. label_key (label_stored r) = k) (rev (filter label_storable rows)) of
        Some r \<Rightarrow> Some (label_stored r) | None \<Rightarrow> go_get tbl k)"
  unfolding InsertLabelRows_def by (rule go_put_all_get)

end
