(* ===== verification/Board_DB.thy ===== *)
theory Board_DB
  imports Price_DB Strategy_DB
begin

text \<open>
  \<open>internal/db/edge_board.go\<close> and \<open>board_snapshots.go\<close>: the current board of each strategy, replaced as a whole in one
  transaction, and its history.  A table is a Go map over its primary key; a text column that is stored as NULL
  when empty and read through COALESCE is a text.  \<open>now\<close> is the clock at a row without a time.
  Lemmas: a replacement is all or nothing, leaves the boards of other strategies alone and is read back by rank; history rows
  are written once; and what a scan publishes is what the evaluation finds at the time of the scan.
\<close>

section \<open>The current board\<close>

record edge_board_row =
  eb_Strategy :: string
  eb_ConditionID :: string
  eb_MarketID :: string
  eb_QuestionShort :: string
  eb_Category :: string
  eb_ClobTokenIDs :: "string list"
  eb_Rank :: int
  eb_Score :: f64
  eb_EdgeBps :: "f64 option"
  eb_StrategyVersionID :: "int option"
  eb_NegRisk :: bool
  eb_NegRiskGroupID :: string
  eb_RelatedLegs :: "string list"
  eb_Volume24hr :: f64
  eb_Liquidity :: f64
  eb_Spread :: f64
  eb_SelectedAt :: gotime
  eb_RunID :: string
  eb_CostBps :: "f64 option"
  eb_CapacityUSD :: "f64 option"
  eb_Urgency :: "f64 option"
  eb_KeyFeatures :: string
  eb_RiskFlags :: "string list"
  eb_StrategyTags :: "string list"
  eb_FeaturesAsOf :: "gotime option"
  eb_FairValue :: "f64 option"
  eb_ModelEdgeBps :: "f64 option"
  eb_FVSource :: string

type_synonym board_table = "(string \<times> string, edge_board_row) gomap"

definition board_stored :: "gotime \<Rightarrow> string \<Rightarrow> edge_board_row \<Rightarrow> edge_board_row" where
  "board_stored now strategy r =
     r\<lparr>eb_Strategy := (if eb_Strategy r = '''' then strategy else eb_Strategy r),
       eb_SelectedAt := (if IsZero (eb_SelectedAt r) then now else eb_SelectedAt r)\<rparr>"

definition insert_board_row ::
  "gotime \<Rightarrow> string \<Rightarrow> string + board_table \<Rightarrow> edge_board_row \<Rightarrow> string + board_table" where
  \<comment> \<open>an INSERT fails on its primary key; the error names the condition\<close>
  "insert_board_row now strategy acc r =
     (case acc of
        Inl e \<Rightarrow> Inl e
      | Inr tbl \<Rightarrow>
          if eb_ConditionID r = '''' then Inr tbl
          else
            let s = board_stored now strategy r; k = (eb_Strategy s, eb_ConditionID s) in
            if go_has tbl k then Inl (eb_ConditionID r) else Inr (go_put k s tbl))"

definition ReplaceEdgeBoard ::
  "gotime \<Rightarrow> string \<Rightarrow> edge_board_row list \<Rightarrow> board_table \<Rightarrow> string option \<times> board_table" where
  \<comment> \<open>one transaction: on an error the table is as before\<close>
  "ReplaceEdgeBoard now strategy rows tbl =
     (let strategy = or_default strategy;
          cleared = filter (\<lambda>((s, _), _). s \<noteq> strategy) tbl
      in case foldl (insert_board_row now strategy) (Inr cleared) rows of
           Inl e \<Rightarrow> (Some e, tbl)
         | Inr tbl' \<Rightarrow> (None, tbl'))"

definition board_rows :: "string \<Rightarrow> board_table \<Rightarrow> edge_board_row list" where
  \<comment> \<open>\<open>WHERE strategy = $1 ORDER BY rank\<close>\<close>
  "board_rows strategy tbl =
     sort_by (\<lambda>a b. eb_Rank a < eb_Rank b) (map snd (filter (\<lambda>((s, _), _). s = or_default strategy) tbl))"

definition LoadEdgeBoardConditionIDs :: "string \<Rightarrow> board_table \<Rightarrow> string list" where
  "LoadEdgeBoardConditionIDs strategy tbl = filter (\<lambda>c. c \<noteq> '''') (map eb_ConditionID (board_rows strategy tbl))"

definition board_loaded :: "edge_board_row \<Rightarrow> edge_board_row" where
  \<comment> \<open>the columns the query reads; the others keep Go's zero value\<close>
  "board_loaded r =
     r\<lparr>eb_CostBps := None, eb_CapacityUSD := None, eb_Urgency := None, eb_KeyFeatures := '''', eb_RiskFlags := [],
       eb_StrategyTags := [], eb_FeaturesAsOf := None, eb_FairValue := None, eb_ModelEdgeBps := None, eb_FVSource := ''''\<rparr>"

definition LoadEdgeBoard :: "string \<Rightarrow> board_table \<Rightarrow> edge_board_row list" where
  "LoadEdgeBoard strategy tbl = map board_loaded (board_rows strategy tbl)"

definition first_text :: "string list \<Rightarrow> string" where
  "first_text xs = (case xs of [] \<Rightarrow> '''' | x # _ \<Rightarrow> x)"

definition meta_of_board :: "edge_board_row \<Rightarrow> eval_market_meta" where
  "meta_of_board r =
     \<lparr>mm_ConditionID = eb_ConditionID r, mm_MarketID = eb_MarketID r, mm_TokenID = first_text (eb_ClobTokenIDs r),
      mm_Category = eb_Category r, mm_NegRisk = eb_NegRisk r, mm_NegRiskGroupID = eb_NegRiskGroupID r,
      mm_RelatedLegs = eb_RelatedLegs r, mm_Volume24hr = eb_Volume24hr r, mm_Spread = eb_Spread r,
      mm_OneDayChange = 0, mm_EndDate = 0, mm_Active = False\<rparr>"

definition LoadEdgeBoardTokens :: "string \<Rightarrow> board_table \<Rightarrow> eval_market_meta list" where
  "LoadEdgeBoardTokens strategy tbl =
     filter (\<lambda>m. mm_TokenID m \<noteq> '''') (map meta_of_board (board_rows strategy tbl))"

section \<open>The history\<close>

type_synonym snapshot_table = "(string \<times> gotime \<times> string, board_snapshot_row) gomap"

definition SnapshotRowsFromBoard :: "edge_board_row list \<Rightarrow> board_snapshot_row list" where
  "SnapshotRowsFromBoard rows =
     map (\<lambda>r. \<lparr>bn_SelectedAt = eb_SelectedAt r, bn_Strategy = eb_Strategy r, bn_RunID = eb_RunID r,
        bn_ConditionID = eb_ConditionID r, bn_TokenID = first_text (eb_ClobTokenIDs r), bn_Rank = eb_Rank r,
        bn_EdgeBps = eb_EdgeBps r, bn_Volume24hr = eb_Volume24hr r, bn_Category = eb_Category r,
        bn_NegRisk = eb_NegRisk r, bn_NegRiskGroupID = eb_NegRiskGroupID r, bn_RelatedLegs = eb_RelatedLegs r\<rparr>) rows"

definition snapshot_stored :: "gotime \<Rightarrow> board_snapshot_row \<Rightarrow> board_snapshot_row" where
  "snapshot_stored now r =
     r\<lparr>bn_Strategy := (if bn_Strategy r = '''' then ''default'' else bn_Strategy r),
       bn_SelectedAt := (if IsZero (bn_SelectedAt r) then now else bn_SelectedAt r)\<rparr>"

definition snapshot_key :: "board_snapshot_row \<Rightarrow> string \<times> gotime \<times> string" where
  "snapshot_key r = (bn_Strategy r, bn_SelectedAt r, bn_ConditionID r)"

definition insert_snapshot :: "gotime \<Rightarrow> snapshot_table \<Rightarrow> board_snapshot_row \<Rightarrow> snapshot_table" where
  \<comment> \<open>\<open>ON CONFLICT DO NOTHING\<close>\<close>
  "insert_snapshot now tbl r =
     (if bn_ConditionID r = '''' then tbl
      else let s = snapshot_stored now r in if go_has tbl (snapshot_key s) then tbl else go_put (snapshot_key s) s tbl)"

definition InsertEdgeBoardSnapshots :: "gotime \<Rightarrow> board_snapshot_row list \<Rightarrow> snapshot_table \<Rightarrow> snapshot_table" where
  "InsertEdgeBoardSnapshots now rows tbl = foldl (insert_snapshot now) tbl rows"

definition snapshot_before :: "board_snapshot_row \<Rightarrow> board_snapshot_row \<Rightarrow> bool" where
  "snapshot_before a b \<longleftrightarrow>
     (if bn_SelectedAt a = bn_SelectedAt b then bn_Rank a < bn_Rank b else bn_SelectedAt a < bn_SelectedAt b)"

definition LoadEdgeBoardSnapshots :: "string \<Rightarrow> gotime \<Rightarrow> gotime \<Rightarrow> snapshot_table \<Rightarrow> board_snapshot_row list" where
  "LoadEdgeBoardSnapshots strategy from_t to_t tbl =
     sort_by snapshot_before (filter (\<lambda>r. bn_Strategy r = or_default strategy \<and> from_t \<le> bn_SelectedAt r \<and> bn_SelectedAt r \<le> to_t)
       (map snd tbl))"

definition group_step ::
  "board_snapshot_row list list \<times> board_snapshot_row list \<times> gotime option \<Rightarrow> board_snapshot_row \<Rightarrow>
   board_snapshot_row list list \<times> board_snapshot_row list \<times> gotime option" where
  \<comment> \<open>(out, cur, t); None before the first row\<close>
  "group_step st r =
     (let (out, cur, t) = st in
      if t \<noteq> Some (bn_SelectedAt r)
      then (if cur \<noteq> [] then out @ [cur] else out, [r], Some (bn_SelectedAt r))
      else (out, cur @ [r], t))"

definition GroupSnapshotsBySelectedAt :: "board_snapshot_row list \<Rightarrow> board_snapshot_row list list" where
  "GroupSnapshotsBySelectedAt rows =
     (if rows = [] then []
      else let (out, cur, _) = foldl group_step ([], [], None) rows in if cur \<noteq> [] then out @ [cur] else out)"

section \<open>Replacement\<close>

lemma board_stored_sel [simp]:
  "eb_ConditionID (board_stored now s r) = eb_ConditionID r" "eb_Rank (board_stored now s r) = eb_Rank r"
  "eb_Strategy (board_stored now s r) = (if eb_Strategy r = '''' then s else eb_Strategy r)"
  by (simp_all add: board_stored_def)

lemma insert_board_Inl [simp]: "foldl (insert_board_row now s) (Inl e) rows = Inl e"
  by (induction rows) (simp_all add: insert_board_row_def)

definition own_rows :: "string \<Rightarrow> edge_board_row list \<Rightarrow> bool" where
  \<comment> \<open>every row is for the strategy, none twice\<close>
  "own_rows strategy rows \<longleftrightarrow>
     (\<forall>r \<in> set rows. eb_Strategy r = '''' \<or> eb_Strategy r = or_default strategy) \<and>
     distinct (map eb_ConditionID (filter (\<lambda>r. eb_ConditionID r \<noteq> '''') rows))"

definition key_row :: "gotime \<Rightarrow> string \<Rightarrow> edge_board_row \<Rightarrow> (string \<times> string) \<times> edge_board_row" where
  "key_row now s r = ((eb_Strategy (board_stored now s r), eb_ConditionID r), board_stored now s r)"

lemma has_snoc: "go_has (tbl @ [kv]) k \<longleftrightarrow> go_has tbl k \<or> k = fst kv"
  by (cases kv) (auto simp: go_has_def map_add_def split: option.splits)

lemma insert_board_put:
  "eb_ConditionID r \<noteq> '''' \<Longrightarrow> \<not> go_has tbl (fst (key_row now s r)) \<Longrightarrow>
   insert_board_row now s (Inr tbl) r = Inr (tbl @ [key_row now s r])"
  by (simp add: insert_board_row_def key_row_def Let_def go_has_def go_put_fresh)

lemma insert_board_fold:
  assumes "distinct (map (\<lambda>r. fst (key_row now s r)) (filter (\<lambda>r. eb_ConditionID r \<noteq> '''') rows))"
    and "\<And>r. r \<in> set rows \<Longrightarrow> eb_ConditionID r \<noteq> '''' \<Longrightarrow> \<not> go_has tbl (fst (key_row now s r))"
  shows "foldl (insert_board_row now s) (Inr tbl) rows =
    Inr (tbl @ map (key_row now s) (filter (\<lambda>r. eb_ConditionID r \<noteq> '''') rows))"
  using assms
proof (induction rows arbitrary: tbl)
  case (Cons r rows)
  show ?case
  proof (cases "eb_ConditionID r = ''''")
    case True
    then show ?thesis using Cons.IH [of tbl] Cons.prems by (simp add: insert_board_row_def)
  next
    case False
    have new: "\<not> go_has (tbl @ [key_row now s r]) (fst (key_row now s q))" if "q \<in> set rows" "eb_ConditionID q \<noteq> ''''" for q
      unfolding has_snoc using Cons.prems(1) Cons.prems(2) [of q] that False by (auto simp: image_iff)
    have d: "distinct (map (\<lambda>r. fst (key_row now s r)) (filter (\<lambda>r. eb_ConditionID r \<noteq> '''') rows))"
      using Cons.prems(1) False by simp
    show ?thesis
      using Cons.IH [OF d new] insert_board_put [OF False Cons.prems(2)] False by simp
  qed
qed simp

lemma insert_board_clash:
  assumes "\<not> distinct (map (\<lambda>r. fst (key_row now s r)) (filter (\<lambda>r. eb_ConditionID r \<noteq> '''') rows))"
  shows "\<exists>e. foldl (insert_board_row now s) (Inr tbl) rows = Inl e"
proof -
  have clash: "\<exists>e. foldl (insert_board_row now s) (Inr tbl) rows = Inl e"
    if "r \<in> set rows" "eb_ConditionID r \<noteq> ''''" "go_has tbl (fst (key_row now s r))" for r rows tbl
    using that
  proof (induction rows arbitrary: tbl)
    case (Cons q rows)
    show ?case
    proof (cases "eb_ConditionID q = '''' \<or> \<not> go_has tbl (fst (key_row now s q))")
      case True
      then consider "eb_ConditionID q = ''''" "r \<in> set rows" | "eb_ConditionID q \<noteq> ''''" "\<not> go_has tbl (fst (key_row now s q))" "r \<in> set rows"
        using Cons.prems by auto
      then show ?thesis
        using Cons.IH Cons.prems insert_board_put [of q tbl now s]
        by cases (simp_all add: insert_board_row_def has_snoc)
    next
      case False
      then have "insert_board_row now s (Inr tbl) q = Inl (eb_ConditionID q)"
        by (simp add: insert_board_row_def key_row_def Let_def)
      then show ?thesis by simp
    qed
  qed simp
  show ?thesis using assms
  proof (induction rows arbitrary: tbl)
    case (Cons q rows)
    show ?case
    proof (cases "eb_ConditionID q = '''' \<or> go_has tbl (fst (key_row now s q))")
      case True
      show ?thesis
      proof (cases "eb_ConditionID q = ''''")
        case empty: True
        then have "insert_board_row now s (Inr tbl) q = Inr tbl" by (simp add: insert_board_row_def)
        then show ?thesis using Cons.IH [of tbl] Cons.prems empty by simp
      next
        case False
        with True show ?thesis using clash [of q "q # rows" tbl] by simp
      qed
    next
      case False
      then have put: "insert_board_row now s (Inr tbl) q = Inr (tbl @ [key_row now s q])" by (simp add: insert_board_put)
      show ?thesis
      proof (cases "distinct (map (\<lambda>r. fst (key_row now s r)) (filter (\<lambda>r. eb_ConditionID r \<noteq> '''') rows))")
        case True
        with Cons.prems False obtain r where "r \<in> set rows" "eb_ConditionID r \<noteq> ''''" "fst (key_row now s r) = fst (key_row now s q)"
          by auto
        then show ?thesis using clash [of r rows "tbl @ [key_row now s q]"] put by (simp add: has_snoc)
      next
        case False
        then show ?thesis using Cons.IH put by simp
      qed
    qed
  qed simp
qed

lemma replace_board_facts:
  assumes "\<forall>r \<in> set rows. eb_Strategy r = '''' \<or> eb_Strategy r = or_default strategy"
  shows "(if distinct (map eb_ConditionID (filter (\<lambda>r. eb_ConditionID r \<noteq> '''') rows))
     then fst (ReplaceEdgeBoard now strategy rows tbl) = None \<and>
       board_rows strategy (snd (ReplaceEdgeBoard now strategy rows tbl)) =
         sort_by (\<lambda>a b. eb_Rank a < eb_Rank b)
           (map (board_stored now (or_default strategy)) (filter (\<lambda>r. eb_ConditionID r \<noteq> '''') rows))
     else fst (ReplaceEdgeBoard now strategy rows tbl) \<noteq> None \<and> snd (ReplaceEdgeBoard now strategy rows tbl) = tbl) \<and>
   (\<forall>s. or_default s \<noteq> or_default strategy \<longrightarrow>
      board_rows s (snd (ReplaceEdgeBoard now strategy rows tbl)) = board_rows s tbl)"
proof -
  let ?s = "or_default strategy"
  let ?rows = "filter (\<lambda>r. eb_ConditionID r \<noteq> '''') rows"
  let ?cleared = "filter (\<lambda>((s, _), _). s \<noteq> ?s) tbl"
  have ne: "?s \<noteq> ''''" by (simp add: or_default_def)
  have own: "fst (key_row now ?s r) = (?s, eb_ConditionID r)" if "r \<in> set rows" for r
    using assms that by (auto simp: key_row_def)
  have keys: "map (\<lambda>r. fst (key_row now ?s r)) ?rows = map (Pair ?s) (map eb_ConditionID ?rows)" using own by simp
  have free: "\<not> go_has ?cleared (?s, c)" for c
    by (auto simp: go_has_def map_of_eq_None_iff)
  show ?thesis
  proof (cases "distinct (map eb_ConditionID ?rows)")
    case True
    have "distinct (map (\<lambda>r. fst (key_row now ?s r)) ?rows)" unfolding keys using True by (simp add: distinct_map inj_on_def)
    then have "foldl (insert_board_row now ?s) (Inr ?cleared) rows = Inr (?cleared @ map (key_row now ?s) ?rows)"
      by (rule insert_board_fold) (simp add: own free)
    then have r: "ReplaceEdgeBoard now strategy rows tbl = (None, ?cleared @ map (key_row now ?s) ?rows)"
      by (simp add: ReplaceEdgeBoard_def Let_def)
    have "filter (\<lambda>((s, _), _). s = ?s) ?cleared = []" by (auto simp: filter_empty_conv)
    moreover have "filter (\<lambda>((s, _), _). s = ?s) (map (key_row now ?s) ?rows) = map (key_row now ?s) ?rows"
      using own by (intro filter_True) (auto simp: case_prod_beta)
    ultimately have "board_rows strategy (?cleared @ map (key_row now ?s) ?rows) =
        sort_by (\<lambda>a b. eb_Rank a < eb_Rank b) (map (board_stored now ?s) ?rows)"
      by (simp add: board_rows_def key_row_def comp_def)
    moreover have "board_rows q (?cleared @ map (key_row now ?s) ?rows) = board_rows q tbl" if "or_default q \<noteq> ?s" for q
    proof -
      have "filter (\<lambda>((s, _), _). s = or_default q) (map (key_row now ?s) ?rows) = []"
        using own that by (auto simp: filter_empty_conv case_prod_beta)
      moreover have "filter (\<lambda>((s, _), _). s = or_default q) ?cleared = filter (\<lambda>((s, _), _). s = or_default q) tbl"
        using that by (induction tbl) auto
      ultimately show ?thesis by (simp add: board_rows_def)
    qed
    ultimately show ?thesis using True r by simp
  next
    case False
    then have "\<not> distinct (map (\<lambda>r. fst (key_row now ?s r)) ?rows)"
      unfolding keys using distinct_map [of "Pair ?s" "map eb_ConditionID ?rows"] by blast
    from insert_board_clash [OF this] have "\<exists>e. foldl (insert_board_row now ?s) (Inr ?cleared) rows = Inl e" .
    then show ?thesis using False by (auto simp: ReplaceEdgeBoard_def Let_def)
  qed
qed

text \<open>replacing a board is all or nothing.  Rows of the strategy without a duplicate condition are what the board then
  holds, in the order of their ranks, and no other strategy's board changes; on a duplicate the
  replacement reports it and the table is as it was.\<close>

theorem replace_edge_board:
  assumes "\<forall>r \<in> set rows. eb_Strategy r = '''' \<or> eb_Strategy r = or_default strategy"
  shows "(if distinct (map eb_ConditionID (filter (\<lambda>r. eb_ConditionID r \<noteq> '''') rows))
     then fst (ReplaceEdgeBoard now strategy rows tbl) = None \<and>
       board_rows strategy (snd (ReplaceEdgeBoard now strategy rows tbl)) =
         sort_by (\<lambda>a b. eb_Rank a < eb_Rank b)
           (map (board_stored now (or_default strategy)) (filter (\<lambda>r. eb_ConditionID r \<noteq> '''') rows))
     else fst (ReplaceEdgeBoard now strategy rows tbl) \<noteq> None \<and> snd (ReplaceEdgeBoard now strategy rows tbl) = tbl) \<and>
   (\<forall>s. or_default s \<noteq> or_default strategy \<longrightarrow>
      board_rows s (snd (ReplaceEdgeBoard now strategy rows tbl)) = board_rows s tbl)"
  by (rule replace_board_facts [OF assms])

section \<open>From a scan to the evaluation\<close>

lemma snapshot_put_get:
  "go_get (insert_snapshot now tbl r) k =
     (if bn_ConditionID r \<noteq> '''' \<and> k = snapshot_key (snapshot_stored now r) \<and> go_get tbl k = None
      then Some (snapshot_stored now r) else go_get tbl k)"
  by (auto simp: insert_snapshot_def Let_def go_has_def update_conv')

text \<open>History rows are written once: a second insertion of the same rows changes nothing.\<close>

lemma snapshot_present:
  "go_has tbl k \<Longrightarrow> go_has (foldl (insert_snapshot now) tbl rows) k"
  by (induction rows arbitrary: tbl) (auto simp: go_has_def snapshot_put_get)

lemma snapshot_fixed:
  "(\<And>r. r \<in> set rows \<Longrightarrow> bn_ConditionID r = '''' \<or> go_has tbl (snapshot_key (snapshot_stored now r))) \<Longrightarrow>
   foldl (insert_snapshot now) tbl rows = tbl"
  by (induction rows) (auto simp: insert_snapshot_def Let_def)

lemma snapshot_inserted:
  "r \<in> set rows \<Longrightarrow> bn_ConditionID r \<noteq> '''' \<Longrightarrow>
   go_has (foldl (insert_snapshot now) tbl rows) (snapshot_key (snapshot_stored now r))"
proof (induction rows arbitrary: tbl)
  case (Cons q rows)
  show ?case
  proof (cases "r = q")
    case True
    then have "go_has (insert_snapshot now tbl q) (snapshot_key (snapshot_stored now r))"
      using Cons.prems(2) by (simp add: go_has_def snapshot_put_get)
    then show ?thesis by (simp add: snapshot_present)
  qed (use Cons in auto)
qed simp

text \<open>publishing the same board twice is publishing it once: the history keeps the first row of each strategy, time and
  condition, and inserting the same rows again changes nothing.\<close>

theorem snapshots_idempotent:
  "InsertEdgeBoardSnapshots now rows (InsertEdgeBoardSnapshots now rows tbl) = InsertEdgeBoardSnapshots now rows tbl \<and>
   map_le (go_get tbl) (go_get (InsertEdgeBoardSnapshots now rows tbl))"
proof -
  have "go_get tbl k = Some v \<Longrightarrow> go_get (foldl (insert_snapshot now) tbl rows) k = Some v" for k v
    by (induction rows arbitrary: tbl) (auto simp: snapshot_put_get)
  moreover have "foldl (insert_snapshot now) (foldl (insert_snapshot now) tbl rows) rows = foldl (insert_snapshot now) tbl rows"
    by (rule snapshot_fixed) (use snapshot_inserted in blast)
  ultimately show ?thesis by (auto simp: InsertEdgeBoardSnapshots_def map_le_def)
qed
lemma snap_fold:
  fixes idx0 R defines "idx0 \<equiv> \<lparr>sx_times = [], sx_byTime = [], sx_nRows = 0\<rparr>" and "idx \<equiv> foldl snap_add idx0 R"
  shows "set (sx_times idx) = bn_SelectedAt ` set R"
    "get_or [] (sx_byTime idx) tm = filter (\<lambda>r. bn_SelectedAt r = tm) R"
proof -
  have "set (sx_times (foldl snap_add idx0 R)) = bn_SelectedAt ` set R \<and>
      (\<forall>tm. get_or [] (sx_byTime (foldl snap_add idx0 R)) tm = filter (\<lambda>r. bn_SelectedAt r = tm) R)"
  proof (induction R rule: rev_induct)
    case Nil
    then show ?case by (simp add: idx0_def get_or_def)
  next
    case (snoc r R)
    then show ?case by (auto simp: snap_add_def Let_def get_or_def update_conv')
  qed
  then show "set (sx_times idx) = bn_SelectedAt ` set R"
    "get_or [] (sx_byTime idx) tm = filter (\<lambda>r. bn_SelectedAt r = tm) R" unfolding idx_def by auto
qed

lemma find_filter: "find P (filter Q xs) = find (\<lambda>x. P x \<and> Q x) xs"
  by (induction xs) auto

definition meta_of_snapshot :: "board_snapshot_row \<Rightarrow> snap_meta" where
  "meta_of_snapshot r =
     \<lparr>sm_Category = bn_Category r, sm_NegRisk = bn_NegRisk r, sm_NegRiskGroupID = bn_NegRiskGroupID r,
      sm_RelatedLegs = bn_RelatedLegs r, sm_Volume24hr = bn_Volume24hr r, sm_TokenID = bn_TokenID r\<rparr>"

lemma LookupCond_latest:
  "LookupCond (BuildSnapIndex R) t c =
     (if \<exists>r \<in> set R. bn_SelectedAt r \<le> t
      then map_option meta_of_snapshot
        (find (\<lambda>r. bn_ConditionID r = c \<and> bn_SelectedAt r = Max {x \<in> bn_SelectedAt ` set R. x \<le> t}) R)
      else None)"
proof -
  let ?idx = "foldl snap_add \<lparr>sx_times = [], sx_byTime = [], sx_nRows = 0\<rparr> R"
  let ?ts = "sort_by (<) (sx_times ?idx)"
  have srt: "sorted ?ts" using sorted_key_sort [of "\<lambda>x. x" "sx_times ?idx"] by simp
  have ts: "set ?ts = bn_SelectedAt ` set R" using snap_fold(1) [of R] by simp
  have b: "BuildSnapIndex R = ?idx\<lparr>sx_times := ?ts\<rparr>" by (simp add: BuildSnapIndex_def Let_def)
  show ?thesis
  proof (cases "\<exists>r \<in> set R. bn_SelectedAt r \<le> t")
    case True
    then have i: "0 \<le> at_or_before ?ts t" using at_or_before_none [OF srt, of t] ts by fastforce
    have "?ts \<noteq> []" using True ts by (metis empty_iff image_is_empty set_empty)
    moreover have "?ts ! nat (at_or_before ?ts t) = Max {x \<in> bn_SelectedAt ` set R. x \<le> t}"
      using at_or_before_Max [OF srt i] unfolding ts .
    ultimately have "NearestAtOrBefore (BuildSnapIndex R) t =
        Some (Max {x \<in> bn_SelectedAt ` set R. x \<le> t},
          filter (\<lambda>r. bn_SelectedAt r = Max {x \<in> bn_SelectedAt ` set R. x \<le> t}) R)"
      using i by (simp add: NearestAtOrBefore_def b Let_def snap_fold(2))
    then show ?thesis using True by (simp add: LookupCond_def find_filter meta_of_snapshot_def [abs_def])
  next
    case False
    then have "at_or_before ?ts t < 0" using at_or_before_none [OF srt, of t] ts by fastforce
    then have "NearestAtOrBefore (BuildSnapIndex R) t = None" by (simp add: NearestAtOrBefore_def b)
    then show ?thesis using False by (simp add: LookupCond_def)
  qed
qed

lemma snapshot_keys:
  "go_wf tbl \<and> (\<forall>(k, r) \<in> set tbl. k = snapshot_key r) \<Longrightarrow>
   go_wf (InsertEdgeBoardSnapshots now rows tbl) \<and> (\<forall>(k, r) \<in> set (InsertEdgeBoardSnapshots now rows tbl). k = snapshot_key r)"
  unfolding InsertEdgeBoardSnapshots_def
proof (induction rows arbitrary: tbl)
  case (Cons r rows)
  have "go_wf (insert_snapshot now tbl r) \<and> (\<forall>(k, r) \<in> set (insert_snapshot now tbl r). k = snapshot_key r)"
    using Cons.prems by (auto simp: insert_snapshot_def Let_def go_has_def go_put_fresh distinct_update map_of_eq_None_iff)
  from Cons.IH [OF this] show ?case by simp
qed simp

lemma snapshot_origin:
  "(k, q) \<in> set (InsertEdgeBoardSnapshots now rows tbl) \<Longrightarrow>
   (k, q) \<in> set tbl \<or> (\<exists>p \<in> set rows. q = snapshot_stored now p)"
  unfolding InsertEdgeBoardSnapshots_def
proof (induction rows arbitrary: tbl)
  case (Cons r rows)
  from Cons.IH [of "insert_snapshot now tbl r"] Cons.prems
  have "(k, q) \<in> set (insert_snapshot now tbl r) \<or> (\<exists>p \<in> set rows. q = snapshot_stored now p)" by simp
  then show ?case by (auto simp: insert_snapshot_def Let_def go_has_def go_put_fresh split: if_splits)
qed simp

lemma find_unique:
  assumes "x \<in> set xs" and "P x" and "\<And>y. y \<in> set xs \<Longrightarrow> P y \<Longrightarrow> y = x"
  shows "find P xs = Some x"
proof (cases "find P xs")
  case None
  then show ?thesis using assms(1,2) by (simp add: find_None_iff)
next
  case (Some y)
  then have "y \<in> set xs" "P y" by (auto simp: find_Some_iff)
  then show ?thesis using Some assms(3) by simp
qed

text \<open>C31: what a scan publishes is what the evaluation sees.  Once a board of a strategy, stamped with the time of the scan, is in
  a history that had no row of the strategy after that time, then at that time and until the next
  publication the lookup of a condition of the board gives the metadata of its own row, and no later row matters.\<close>

theorem published_board_found:
  assumes "r \<in> set board" and "eb_ConditionID r \<noteq> ''''"
    and scan: "\<And>q. q \<in> set board \<Longrightarrow> eb_SelectedAt q = T \<and> eb_Strategy q = s" "T \<noteq> 0" "s \<noteq> ''''"
    and "distinct (map eb_ConditionID board)"
    and tbl: "go_wf tbl" "\<forall>(k, q) \<in> set tbl. k = snapshot_key q" "\<forall>(k, q) \<in> set tbl. bn_Strategy q = s \<longrightarrow> bn_SelectedAt q < T"
    and range: "from_t \<le> T" "T \<le> t" "t \<le> to_t"
  shows "LookupCond (BuildSnapIndex (LoadEdgeBoardSnapshots s from_t to_t
      (InsertEdgeBoardSnapshots now (SnapshotRowsFromBoard board) tbl))) t (eb_ConditionID r) =
    Some (meta_of_snapshot (hd (SnapshotRowsFromBoard [r])))"
proof -
  let ?new = "InsertEdgeBoardSnapshots now (SnapshotRowsFromBoard board) tbl"
  let ?R = "LoadEdgeBoardSnapshots s from_t to_t ?new"
  let ?row = "hd (SnapshotRowsFromBoard [r])"
  have row: "?row \<in> set (SnapshotRowsFromBoard board)" "bn_ConditionID ?row = eb_ConditionID r" "bn_SelectedAt ?row = T" "bn_Strategy ?row = s"
    using assms(1) scan by (auto simp: SnapshotRowsFromBoard_def)
  have stored: "snapshot_stored now q = q" if "q \<in> set (SnapshotRowsFromBoard board)" for q
    using that scan by (auto simp: SnapshotRowsFromBoard_def snapshot_stored_def IsZero_def)
  have wf: "go_wf ?new" "\<And>k q. (k, q) \<in> set ?new \<Longrightarrow> k = snapshot_key q"
    using snapshot_keys [of tbl now "SnapshotRowsFromBoard board"] tbl(1,2) by auto
  have same: "q = ?row" if "q \<in> set (SnapshotRowsFromBoard board)" "bn_ConditionID q = eb_ConditionID r" for q
    using that assms(1,6) by (auto simp: SnapshotRowsFromBoard_def distinct_map dest: inj_onD)
  have late: "q = ?row" if "(k, q) \<in> set ?new" "bn_Strategy q = s" "\<not> bn_SelectedAt q < T" "bn_ConditionID q = eb_ConditionID r" for k q
    using snapshot_origin [OF that(1)]
  proof
    assume "(k, q) \<in> set tbl"
    with tbl(3) that(2,3) show ?thesis by blast
  next
    assume "\<exists>p \<in> set (SnapshotRowsFromBoard board). q = snapshot_stored now p"
    with stored have "q \<in> set (SnapshotRowsFromBoard board)" by auto
    with same that(4) show ?thesis by blast
  qed
  have early: "bn_SelectedAt q \<le> T" if "(k, q) \<in> set ?new" "bn_Strategy q = s" for k q
    using snapshot_origin [OF that(1)]
  proof
    assume "(k, q) \<in> set tbl"
    with tbl(3) that(2) show ?thesis by fastforce
  next
    assume "\<exists>p \<in> set (SnapshotRowsFromBoard board). q = snapshot_stored now p"
    with stored have "q \<in> set (SnapshotRowsFromBoard board)" by auto
    with scan(1) show ?thesis by (auto simp: SnapshotRowsFromBoard_def)
  qed
  have "go_has ?new (snapshot_key ?row)"
    using snapshot_inserted [OF row(1), of now tbl] row(2) assms(2) stored [OF row(1)] by (simp add: InsertEdgeBoardSnapshots_def)
  then obtain v where v: "(snapshot_key ?row, v) \<in> set ?new" by (auto simp: go_has_def dest: map_of_SomeD)
  from wf(2) [OF v] have "bn_Strategy v = s" "bn_SelectedAt v = T" "bn_ConditionID v = eb_ConditionID r"
    using row by (auto simp: snapshot_key_def)
  with late [OF v] have "v = ?row" by simp
  with v have "?row \<in> snd ` set ?new" by force
  then have mem: "?row \<in> set ?R" using row(3,4) range scan(3) by (simp add: LoadEdgeBoardSnapshots_def or_default_def)
  have loaded: "\<exists>k. (k, q) \<in> set ?new \<and> bn_Strategy q = s" if "q \<in> set ?R" for q
    using that scan(3) by (auto simp: LoadEdgeBoardSnapshots_def or_default_def) blast
  have max: "Max {x \<in> bn_SelectedAt ` set ?R. x \<le> t} = T"
  proof (rule Max_eqI)
    show "T \<in> {x \<in> bn_SelectedAt ` set ?R. x \<le> t}" using mem row(3) range(2) by force
    show "y \<le> T" if "y \<in> {x \<in> bn_SelectedAt ` set ?R. x \<le> t}" for y using that loaded early by blast
    show "finite {x \<in> bn_SelectedAt ` set ?R. x \<le> t}" by simp
  qed
  have "find (\<lambda>q. bn_ConditionID q = eb_ConditionID r \<and> bn_SelectedAt q = T) ?R = Some ?row"
  proof (rule find_unique [OF mem])
    show "q = ?row" if "q \<in> set ?R" "bn_ConditionID q = eb_ConditionID r \<and> bn_SelectedAt q = T" for q
      using loaded [OF that(1)] late that(2) by force
  qed (use row in simp)
  moreover have "\<exists>q \<in> set ?R. bn_SelectedAt q \<le> t" using mem row(3) range(2) by force
  ultimately show ?thesis unfolding LookupCond_latest max by simp
qed

definition demo_board_row :: "string \<Rightarrow> int \<Rightarrow> edge_board_row" where
  "demo_board_row c rank =
     \<lparr>eb_Strategy = ''default'', eb_ConditionID = c, eb_MarketID = '''', eb_QuestionShort = '''', eb_Category = ''sports'',
      eb_ClobTokenIDs = [''t'' @ c], eb_Rank = rank, eb_Score = 1, eb_EdgeBps = None, eb_StrategyVersionID = None,
      eb_NegRisk = False, eb_NegRiskGroupID = '''', eb_RelatedLegs = [], eb_Volume24hr = 10, eb_Liquidity = 0, eb_Spread = 0,
      eb_SelectedAt = hour, eb_RunID = ''r'', eb_CostBps = None, eb_CapacityUSD = None, eb_Urgency = None, eb_KeyFeatures = '''',
      eb_RiskFlags = [], eb_StrategyTags = [], eb_FeaturesAsOf = None, eb_FairValue = None, eb_ModelEdgeBps = None, eb_FVSource = ''''\<rparr>"

definition demo_board :: "edge_board_row list" where
  "demo_board = [demo_board_row ''a'' 1, demo_board_row ''b'' 2]"

theorem published_board_found_witness:
  "\<exists>m. LookupCond (BuildSnapIndex (LoadEdgeBoardSnapshots ''default'' 0 (3 * hour)
      (InsertEdgeBoardSnapshots 1 (SnapshotRowsFromBoard demo_board) []))) (2 * hour) ''b'' = Some m \<and> sm_TokenID m = ''tb''"
proof -
  have c: "eb_ConditionID (demo_board_row ''b'' 2) = ''b''" by (simp add: demo_board_row_def)
  have "sm_TokenID (meta_of_snapshot (hd (SnapshotRowsFromBoard [demo_board_row ''b'' 2]))) = ''tb''"
    by (simp add: demo_board_row_def SnapshotRowsFromBoard_def meta_of_snapshot_def first_text_def)
  moreover have "LookupCond (BuildSnapIndex (LoadEdgeBoardSnapshots ''default'' 0 (3 * hour)
      (InsertEdgeBoardSnapshots 1 (SnapshotRowsFromBoard demo_board) []))) (2 * hour) (eb_ConditionID (demo_board_row ''b'' 2)) =
      Some (meta_of_snapshot (hd (SnapshotRowsFromBoard [demo_board_row ''b'' 2])))"
    by (rule published_board_found [where T = hour]) (auto simp: demo_board_def demo_board_row_def hour_def)
  ultimately show ?thesis unfolding c by blast
qed

theorem replace_edge_board_witness:
  "fst (ReplaceEdgeBoard 1 '''' [demo_board_row ''b'' 2, demo_board_row ''a'' 1] []) = None \<and>
   map eb_ConditionID (board_rows '''' (snd (ReplaceEdgeBoard 1 '''' [demo_board_row ''b'' 2, demo_board_row ''a'' 1] []))) = [''a'', ''b'']"
  using replace_edge_board [of "[demo_board_row ''b'' 2, demo_board_row ''a'' 1]" "''''" 1 "[]"]
  by (simp add: demo_board_row_def or_default_def sort_by_def board_stored_def IsZero_def)

end
