(* ===== verification/Datagap.thy ===== *)
theory Datagap
  imports Go_Search
begin

text \<open>
  \<open>internal/datagap\<close>: the development gap fill of price and book histories, the counts by source and the
  report on the synthetic share.  \<open>sort.Slice\<close> is taken to keep the order of equal elements; the text of a
  warning is a constructor, its numbers are the fields of the report.
  Lemmas: venue prices survive the fill unchanged and every price is clamped; the counts add up; and two defects:
  interpolation uses the next price, which lies after the time it fills, and the book fill searches a slice it
  has appended to.
\<close>

section \<open>Options and points\<close>

definition SourceVenue :: string where "SourceVenue = ''venue''"
definition SourceSynthInterp :: string where "SourceSynthInterp = ''synth_interp''"
definition SourceSynthHold :: string where "SourceSynthHold = ''synth_hold''"
definition SourceSynthBook :: string where "SourceSynthBook = ''synth_book_from_mid''"
definition SourceMissing :: string where "SourceMissing = ''missing''"

lemmas sources = SourceVenue_def SourceSynthInterp_def SourceSynthHold_def SourceSynthBook_def SourceMissing_def

record gap_opts =
  gp_MaxGap :: duration
  gp_HoldMax :: duration
  gp_GridStep :: duration
  gp_PriceFloor :: f64
  gp_PriceCeil :: f64
  gp_DefaultHalfSpreadBps :: f64
  gp_BookReuseMax :: duration
  gp_DefaultDepth :: f64

definition DefaultOpts :: gap_opts where
  "DefaultOpts = \<lparr>gp_MaxGap = 48 * hour, gp_HoldMax = 6 * hour, gp_GridStep = hour, gp_PriceFloor = Fin (1 / 1000),
     gp_PriceCeil = Fin (999 / 1000), gp_DefaultHalfSpreadBps = 50, gp_BookReuseMax = 24 * hour, gp_DefaultDepth = 100\<rparr>"

definition Normalize_opts :: "gap_opts \<Rightarrow> gap_opts" where
  "Normalize_opts o1 =
     (let d = DefaultOpts in
      \<lparr>gp_MaxGap = (if gp_MaxGap o1 \<le> 0 then gp_MaxGap d else gp_MaxGap o1),
       gp_HoldMax = (if gp_HoldMax o1 \<le> 0 then gp_HoldMax d else gp_HoldMax o1),
       gp_GridStep = (if gp_GridStep o1 \<le> 0 then gp_GridStep d else gp_GridStep o1),
       gp_PriceFloor = (if gp_PriceFloor o1 \<le> 0 then gp_PriceFloor d else gp_PriceFloor o1),
       gp_PriceCeil = (if gp_PriceCeil o1 \<le> 0 then gp_PriceCeil d else gp_PriceCeil o1),
       gp_DefaultHalfSpreadBps =
         (if gp_DefaultHalfSpreadBps o1 \<le> 0 then gp_DefaultHalfSpreadBps d else gp_DefaultHalfSpreadBps o1),
       gp_BookReuseMax = (if gp_BookReuseMax o1 \<le> 0 then gp_BookReuseMax d else gp_BookReuseMax o1),
       gp_DefaultDepth = (if gp_DefaultDepth o1 \<le> 0 then gp_DefaultDepth d else gp_DefaultDepth o1)\<rparr>)"

record gap_price =
  gq_Time :: gotime
  gq_Price :: f64
  gq_Source :: string

record gap_book =
  gb_Time :: gotime
  gb_BestBid :: f64
  gb_BestAsk :: f64
  gb_TotalBidDepth :: f64
  gb_TotalAskDepth :: f64
  gb_Source :: string

record mix =
  mx_Venue :: int
  mx_SynthInterp :: int
  mx_SynthHold :: int
  mx_SynthBook :: int
  mx_Missing :: int

definition no_mix :: mix where
  "no_mix = \<lparr>mx_Venue = 0, mx_SynthInterp = 0, mx_SynthHold = 0, mx_SynthBook = 0, mx_Missing = 0\<rparr>"

section \<open>Prices\<close>

definition clampPrice :: "f64 \<Rightarrow> gap_opts \<Rightarrow> f64" where
  "clampPrice p opts =
     (if p < gp_PriceFloor opts then gp_PriceFloor opts else if p > gp_PriceCeil opts then gp_PriceCeil opts else p)"

definition dedupe_times :: "gap_price list \<Rightarrow> gap_price list" where
  \<comment> \<open>of equal times the last stays\<close>
  "dedupe_times ps =
     foldl (\<lambda>d a. if d \<noteq> [] \<and> gq_Time (last d) = gq_Time a then butlast d @ [a] else d @ [a]) [] ps"

definition anchors_of :: "gap_opts \<Rightarrow> gap_price list \<Rightarrow> gap_price list" where
  "anchors_of opts rows =
     dedupe_times (sort_by (\<lambda>a b. gq_Time a < gq_Time b)
       (map (\<lambda>p. p\<lparr>gq_Price := clampPrice (gq_Price p) opts,
                   gq_Source := (if gq_Source p = '''' then SourceVenue else gq_Source p)\<rparr>)
         (filter (\<lambda>p. \<not> (IsZero (gq_Time p) \<or> gq_Price p \<le> 0 \<or> gq_Price p = NaN)) rows)))"

definition venue_tol :: "duration \<Rightarrow> duration" where
  "venue_tol step =
     (let tol = (if step > 0 \<and> step div 4 < minute then step div 4 else minute) in if tol \<le> 0 then minute else tol)"

definition hasVenueNear :: "gap_price list \<Rightarrow> gotime \<Rightarrow> duration \<Rightarrow> bool" where
  "hasVenueNear anchors t step =
     (let tol = venue_tol step; i = at_or_before (map gq_Time anchors) t in
      (i \<ge> 0 \<and> (let dt = time_Sub t (gq_Time (anchors ! nat i)) in dt \<ge> 0 \<and> dt \<le> tol)) \<or>
      (i + 1 < int (length anchors) \<and>
        (let dt = time_Sub (gq_Time (anchors ! nat (i + 1))) t in dt \<ge> 0 \<and> dt \<le> tol)))"

definition interp :: "gap_price \<Rightarrow> gap_price \<Rightarrow> gotime \<Rightarrow> f64" where
  "interp left right t =
     (let frac = of_int_f64 (time_Sub t (gq_Time left)) / of_int_f64 (time_Sub (gq_Time right) (gq_Time left));
          frac = (if frac < 0 then 0 else frac);
          frac = (if frac > 1 then 1 else frac)
      in gq_Price left + frac * (gq_Price right - gq_Price left))"

definition synthAt :: "gap_price list \<Rightarrow> gotime \<Rightarrow> gap_opts \<Rightarrow> (f64 \<times> string) option" where
  "synthAt anchors t opts =
     (let i = at_or_before (map gq_Time anchors) t;
          left = (if i \<ge> 0 then Some (anchors ! nat i) else None);
          right = (if i + 1 < int (length anchors) then Some (anchors ! nat (i + 1)) else None);
          hold = (case left of
              Some l \<Rightarrow>
                if 0 \<le> time_Sub t (gq_Time l) \<and> time_Sub t (gq_Time l) \<le> gp_HoldMax opts
                then Some (clampPrice (gq_Price l) opts, SourceSynthHold) else None
            | None \<Rightarrow> None);
          back = (case right of
              Some r \<Rightarrow>
                if 0 \<le> time_Sub (gq_Time r) t \<and> time_Sub (gq_Time r) t \<le> gp_HoldMax opts
                then Some (clampPrice (gq_Price r) opts, SourceSynthHold) else None
            | None \<Rightarrow> None);
          rest = (case hold of Some h \<Rightarrow> Some h | None \<Rightarrow> back)
      in case (left, right) of
           (Some l, Some r) \<Rightarrow>
             (let gap = time_Sub (gq_Time r) (gq_Time l) in
              if gap \<le> gp_MaxGap opts \<and> gap > 0
              then Some (clampPrice (interp l r t) opts, SourceSynthInterp) else rest)
         | _ \<Rightarrow> rest)"

definition mix_count :: "string \<Rightarrow> mix \<Rightarrow> mix" where
  "mix_count src m =
     (if src = SourceSynthInterp then m\<lparr>mx_SynthInterp := mx_SynthInterp m + 1\<rparr>
      else if src = SourceSynthHold then m\<lparr>mx_SynthHold := mx_SynthHold m + 1\<rparr>
      else m\<lparr>mx_Venue := mx_Venue m + 1\<rparr>)"

definition fill_step :: "gap_opts \<Rightarrow> gap_price list \<Rightarrow> gap_price list \<times> mix \<Rightarrow> gotime \<Rightarrow> gap_price list \<times> mix" where
  \<comment> \<open>one turn of the loop over the grid\<close>
  "fill_step opts anchors st t =
     (if hasVenueNear anchors t (gp_GridStep opts) then st
      else case synthAt anchors t opts of
             None \<Rightarrow> (fst st, (snd st)\<lparr>mx_Missing := mx_Missing (snd st) + 1\<rparr>)
           | Some (p, src) \<Rightarrow>
               (fst st @ [\<lparr>gq_Time = t, gq_Price = p, gq_Source = src\<rparr>], mix_count src (snd st)))"

definition price_before :: "gap_price \<Rightarrow> gap_price \<Rightarrow> bool" where
  "price_before a b =
     (if gq_Time a = gq_Time b then gq_Source a = SourceVenue \<and> gq_Source b \<noteq> SourceVenue
      else gq_Time a < gq_Time b)"

function drop_shadowed :: "gap_price list \<Rightarrow> gap_price list" where
  \<comment> \<open>the last loop: of equal times a venue point stands alone\<close>
  "drop_shadowed [] = []"
| "drop_shadowed [p] = [p]"
| "drop_shadowed (p # q # ps) =
     (if gq_Time p = gq_Time q
      then if gq_Source p = SourceVenue then p # drop_shadowed (dropWhile (\<lambda>x. gq_Time x = gq_Time p) (q # ps))
           else if gq_Source q = SourceVenue then drop_shadowed (q # ps)
           else p # drop_shadowed (q # ps)
      else p # drop_shadowed (q # ps))"
  by pat_completeness auto
termination
  by (relation "measure length") (auto simp: le_imp_less_Suc length_dropWhile_le le_SucI)

definition FillPrices :: "gap_price list \<Rightarrow> gotime list \<Rightarrow> gap_opts \<Rightarrow> gap_price list \<times> mix" where
  "FillPrices rows grid opts =
     (let opts = Normalize_opts opts;
          anchors = anchors_of opts rows;
          st = (anchors, no_mix\<lparr>mx_Venue := int (length anchors)\<rparr>)
      in if grid = [] \<or> anchors = [] then st
         else
           let (out, m) = foldl (fill_step opts anchors) st grid
           in (drop_shadowed (sort_by price_before out), m))"

function grid_loop :: "gotime \<Rightarrow> gotime \<Rightarrow> duration \<Rightarrow> gotime list" where
  "grid_loop t to step = (if step \<le> 0 \<or> to < t then [] else t # grid_loop (t + step) to step)"
  by pat_completeness auto
termination
  by (relation "measure (\<lambda>(t, to, step). nat (to - t + 1))") auto

declare grid_loop.simps [simp del]

definition BuildHourlyGrid :: "gotime \<Rightarrow> gotime \<Rightarrow> duration \<Rightarrow> gotime list" where
  "BuildHourlyGrid from_t to_t step =
     (let step = (if step \<le> 0 then hour else step);
          from_t = Truncate from_t step
      in if \<not> to_t > from_t then [] else grid_loop from_t to_t step)"

section \<open>Books\<close>

definition lastBook :: "gap_book list \<Rightarrow> gotime \<Rightarrow> gap_book option" where
  "lastBook books t =
     (let i = at_or_before (map gb_Time books) t in if i < 0 then None else Some (books ! nat i))"

definition bookCovers :: "gap_book list \<Rightarrow> gotime \<Rightarrow> duration \<Rightarrow> bool" where
  "bookCovers books t step =
     (let step = (if step \<le> 0 then hour else step) in
      case lastBook books t of None \<Rightarrow> False | Some b \<Rightarrow> time_Sub t (gb_Time b) \<le> step)"

definition synth_book :: "gap_opts \<Rightarrow> f64 \<Rightarrow> gap_book list \<Rightarrow> gotime \<Rightarrow> f64 \<Rightarrow> gap_book" where
  "synth_book opts half out t mid =
     (let depth = gp_DefaultDepth opts;
          (hs, dBid, dAsk) =
            (case lastBook out t of
               Some lb \<Rightarrow>
                 if time_Sub t (gb_Time lb) \<le> gp_BookReuseMax opts
                 then ((if gb_BestAsk lb > gb_BestBid lb \<and> gb_BestBid lb > 0 \<and> (gb_BestBid lb + gb_BestAsk lb) / 2 > 0
                        then (gb_BestAsk lb - gb_BestBid lb) / 2 else half),
                       (if gb_TotalBidDepth lb > 0 then gb_TotalBidDepth lb else depth),
                       (if gb_TotalAskDepth lb > 0 then gb_TotalAskDepth lb else depth))
                 else (half, depth, depth)
             | None \<Rightarrow> (half, depth, depth));
          bb = mid - hs;
          ba = mid + hs;
          bb = (if bb < gp_PriceFloor opts then gp_PriceFloor opts else bb);
          ba = (if ba > gp_PriceCeil opts then gp_PriceCeil opts else ba);
          ba = (if ba \<le> bb then bb + 2 * gp_PriceFloor opts else ba)
      in \<lparr>gb_Time = t, gb_BestBid = bb, gb_BestAsk = ba, gb_TotalBidDepth = dBid, gb_TotalAskDepth = dAsk,
          gb_Source = SourceSynthBook\<rparr>)"

definition book_step ::
  "gap_opts \<Rightarrow> f64 \<Rightarrow> (gotime \<Rightarrow> f64 option) \<Rightarrow> gap_book list \<times> mix \<Rightarrow> gotime \<Rightarrow> gap_book list \<times> mix" where
  "book_step opts half midAt st t =
     (if bookCovers (fst st) t (gp_GridStep opts) then st
      else case midAt t of
             None \<Rightarrow> (fst st, (snd st)\<lparr>mx_Missing := mx_Missing (snd st) + 1\<rparr>)
           | Some mid \<Rightarrow>
               if mid \<le> 0 then (fst st, (snd st)\<lparr>mx_Missing := mx_Missing (snd st) + 1\<rparr>)
               else (fst st @ [synth_book opts half (fst st) t mid],
                     (snd st)\<lparr>mx_SynthBook := mx_SynthBook (snd st) + 1\<rparr>))"

definition venue_books :: "gap_book list \<Rightarrow> gap_book list" where
  "venue_books rows =
     sort_by (\<lambda>a b. gb_Time a < gb_Time b)
       (map (\<lambda>b. b\<lparr>gb_Source := (if gb_Source b = '''' then SourceVenue else gb_Source b)\<rparr>)
         (filter (\<lambda>b. \<not> (IsZero (gb_Time b) \<or> gb_BestBid b \<le> 0 \<or> gb_BestAsk b \<le> 0)) rows))"

definition FillBooks ::
  "gap_book list \<Rightarrow> gotime list \<Rightarrow> (gotime \<Rightarrow> f64 option) option \<Rightarrow> gap_opts \<Rightarrow> gap_book list \<times> mix" where
  "FillBooks rows grid midAt opts =
     (let opts = Normalize_opts opts;
          out = venue_books rows;
          st = (out, no_mix\<lparr>mx_Venue := int (length out)\<rparr>)
      in case midAt of
           None \<Rightarrow> st
         | Some mid \<Rightarrow>
             if grid = [] then st
             else
               let half = gp_DefaultHalfSpreadBps opts / 10000 / 2;
                   half = (if half \<le> 0 then Fin (25 / 10000) else half);
                   (out, m) = foldl (book_step opts half mid) st grid
               in (sort_by (\<lambda>a b. gb_Time a < gb_Time b) out, m))"

section \<open>The report\<close>

definition Observed :: "mix \<Rightarrow> int" where
  "Observed m = mx_Venue m + mx_SynthInterp m + mx_SynthHold m + mx_SynthBook m"

definition SynthShare :: "mix \<Rightarrow> f64" where
  "SynthShare m =
     (let obs = Observed m in
      if obs = 0 then 0
      else of_int_f64 (mx_SynthInterp m + mx_SynthHold m + mx_SynthBook m) / of_int_f64 obs)"

definition VenueShare :: "mix \<Rightarrow> f64" where
  "VenueShare m = (let obs = Observed m in if obs = 0 then 0 else of_int_f64 (mx_Venue m) / of_int_f64 obs)"

definition mix_Add :: "mix \<Rightarrow> mix \<Rightarrow> mix" where
  "mix_Add m x =
     \<lparr>mx_Venue = mx_Venue m + mx_Venue x, mx_SynthInterp = mx_SynthInterp m + mx_SynthInterp x,
      mx_SynthHold = mx_SynthHold m + mx_SynthHold x, mx_SynthBook = mx_SynthBook m + mx_SynthBook x,
      mx_Missing = mx_Missing m + mx_Missing x\<rparr>"

datatype synth_warning = NoWarning | SignificantWarning | DevelopmentWarning

record report =
  rp_PriceMix :: mix
  rp_BookMix :: mix
  rp_SynthPriceShare :: f64
  rp_SynthBookShare :: f64
  rp_FillMode :: string
  rp_Warning :: synth_warning
  rp_Significant :: bool
  rp_BlockPromote :: bool

definition SignificantSynthShare :: f64 where "SignificantSynthShare = Fin (20 / 100)"
definition PromoteMaxSynthShare :: f64 where "PromoteMaxSynthShare = Fin (5 / 100)"

definition Finalize :: "f64 \<Rightarrow> f64 \<Rightarrow> report \<Rightarrow> report" where
  "Finalize maxPromoteShare significantShare r =
     (let maxPromoteShare = (if maxPromoteShare < 0 then PromoteMaxSynthShare else maxPromoteShare);
          significantShare = (if significantShare \<le> 0 then SignificantSynthShare else significantShare);
          ps = SynthShare (rp_PriceMix r);
          bs = SynthShare (rp_BookMix r);
          mode = (if rp_FillMode r = ''''
                  then if mx_SynthInterp (rp_PriceMix r) + mx_SynthHold (rp_PriceMix r) + mx_SynthBook (rp_BookMix r) > 0
                       then ''real_plus_synth'' else ''venue_only''
                  else rp_FillMode r);
          maxSynth = (if bs > ps then bs else ps);
          sig = (maxSynth \<ge> significantShare);
          block = (ps > maxPromoteShare \<or> bs > maxPromoteShare)
      in r\<lparr>rp_SynthPriceShare := ps, rp_SynthBookShare := bs, rp_FillMode := mode, rp_Significant := sig,
           rp_BlockPromote := block,
           rp_Warning := (if sig then SignificantWarning
                          else if block \<or> ps > 0 \<or> bs > 0 then DevelopmentWarning else rp_Warning r)\<rparr>)"

definition Banner :: "report \<Rightarrow> string option" where
  \<comment> \<open>the level of the alert, if there is one\<close>
  "Banner r =
     (if rp_SynthPriceShare r \<le> 0 \<and> rp_SynthBookShare r \<le> 0 then None
      else Some (if rp_Significant r then ''ALERT'' else ''NOTICE''))"

section \<open>Venue prices survive\<close>

abbreviation times :: "gap_price list \<Rightarrow> gotime list" where
  "times ps \<equiv> map gq_Time ps"

lemma dedupe_snoc:
  "dedupe_times (ps @ [a]) =
     (let d = dedupe_times ps in if d \<noteq> [] \<and> gq_Time (last d) = gq_Time a then butlast d @ [a] else d @ [a])"
  by (simp add: dedupe_times_def Let_def)

lemma dedupe_props:
  "sorted (times ps) \<Longrightarrow>
   sorted_wrt (<) (times (dedupe_times ps)) \<and> set (dedupe_times ps) \<subseteq> set ps \<and>
   (ps \<noteq> [] \<longrightarrow> dedupe_times ps \<noteq> [] \<and> gq_Time (last (dedupe_times ps)) = gq_Time (last ps))"
proof (induction ps rule: rev_induct)
  case Nil
  then show ?case by (simp add: dedupe_times_def)
next
  case (snoc a ps)
  let ?d = "dedupe_times ps"
  have s: "sorted (times ps)" "\<forall>p \<in> set ps. gq_Time p \<le> gq_Time a" using snoc.prems by (auto simp: sorted_append)
  note IH = snoc.IH [OF s(1)]
  show ?case
  proof (cases "ps = []")
    case True
    then show ?thesis by (simp add: dedupe_times_def)
  next
    case False
    with IH have d: "?d \<noteq> []" "sorted_wrt (<) (times ?d)" "set ?d \<subseteq> set ps" by blast+
    then obtain b x where b: "?d = b @ [x]" by (meson rev_exhaust)
    with d s(2) have le: "\<forall>p \<in> set b. gq_Time p < gq_Time x" "gq_Time x \<le> gq_Time a"
      by (auto simp: sorted_wrt_append)
    show ?thesis
    proof (cases "gq_Time x = gq_Time a")
      case True
      with b d le show ?thesis unfolding dedupe_snoc b by (auto simp: sorted_wrt_append)
    next
      case False
      with le have "gq_Time x < gq_Time a" by simp
      with b d le False show ?thesis unfolding dedupe_snoc b by (auto simp: sorted_wrt_append)
    qed
  qed
qed

lemma sorted_times_sort: "sorted (times (sort_by (\<lambda>a b. gq_Time a < gq_Time b) ps))"
  by (rule sorted_key_sort)

lemma anchors_increasing: "sorted_wrt (<) (times (anchors_of opts rows))"
  unfolding anchors_of_def using dedupe_props [OF sorted_times_sort] by blast

lemma anchors_from:
  "p \<in> set (anchors_of opts rows) \<Longrightarrow>
   \<exists>q \<in> set rows. \<not> IsZero (gq_Time q) \<and> \<not> gq_Price q \<le> 0 \<and> gq_Price q \<noteq> NaN \<and>
     p = q\<lparr>gq_Price := clampPrice (gq_Price q) opts, gq_Source := (if gq_Source q = '''' then SourceVenue else gq_Source q)\<rparr>"
  unfolding anchors_of_def using dedupe_props [OF sorted_times_sort] by fastforce

lemma strict_sorted_le: "sorted_wrt (<) ts \<Longrightarrow> sorted ts" for ts :: "gotime list"
  by (rule sorted_wrt_mono_rel [of _ "(<)"]) auto

lemma venue_tol_pos: "0 < venue_tol step"
  by (simp add: venue_tol_def minute_def Let_def)

lemma known_index:
  fixes ts :: "gotime list"
  assumes "sorted ts" and "t \<in> set ts"
  shows "0 \<le> at_or_before ts t \<and> nat (at_or_before ts t) < length ts \<and> ts ! nat (at_or_before ts t) = t"
proof -
  let ?m = "length (takeWhile (\<lambda>x. x \<le> t) ts)"
  obtain k where k: "k < length ts" "ts ! k = t" using assms(2) by (meson in_set_conv_nth)
  have km: "k < ?m" using sorted_takeWhile_le [OF assms(1) k(1), of t] k(2) by simp
  have ml: "?m \<le> length ts" by (rule length_takeWhile_le)
  have "takeWhile (\<lambda>x. x \<le> t) ts ! (?m - 1) \<in> set (takeWhile (\<lambda>x. x \<le> t) ts)" using km by (intro nth_mem) simp
  then have "takeWhile (\<lambda>x. x \<le> t) ts ! (?m - 1) \<le> t" by (auto dest: set_takeWhileD)
  then have "ts ! (?m - 1) \<le> t" using km by (simp add: takeWhile_nth)
  moreover have "t \<le> ts ! (?m - 1)" using sorted_nth_mono [OF assms(1), of k "?m - 1"] km ml k by simp
  moreover have "at_or_before ts t = int ?m - 1" by (rule at_or_before_sorted [OF assms(1)])
  moreover have "nat (int ?m - 1) = ?m - 1" using km by arith
  ultimately show ?thesis using km ml by auto
qed

lemma not_near_absent:
  assumes "sorted (times anchors)" and "\<not> hasVenueNear anchors t step"
  shows "t \<notin> set (times anchors)"
proof
  assume "t \<in> set (times anchors)"
  from known_index [OF assms(1) this] have i: "0 \<le> at_or_before (times anchors) t"
    "gq_Time (anchors ! nat (at_or_before (times anchors) t)) = t" by auto
  then have "hasVenueNear anchors t step"
    using venue_tol_pos [of step] by (simp add: hasVenueNear_def Let_def time_Sub_def)
  with assms(2) show False by contradiction
qed

lemma synth_source: "synthAt anchors t opts = Some (p, src) \<Longrightarrow> src = SourceSynthInterp \<or> src = SourceSynthHold"
  by (auto simp: synthAt_def Let_def split: option.splits if_splits)

lemma synth_not_venue: "synthAt anchors t opts = Some (p, src) \<Longrightarrow> src \<noteq> SourceVenue"
  using synth_source by (force simp: sources)

definition synth_of :: "gap_opts \<Rightarrow> gap_price list \<Rightarrow> gotime list \<Rightarrow> gap_price list" where
  "synth_of opts anchors grid =
     List.map_filter (\<lambda>t. if hasVenueNear anchors t (gp_GridStep opts) then None
       else map_option (\<lambda>(p, src). \<lparr>gq_Time = t, gq_Price = p, gq_Source = src\<rparr>) (synthAt anchors t opts)) grid"

lemma fill_steps: "fst (foldl (fill_step opts anchors) st grid) = fst st @ synth_of opts anchors grid"
  by (induction grid arbitrary: st) (auto simp: synth_of_def fill_step_def List.map_filter_simps split: option.splits)

lemma synth_of_mem:
  assumes "sorted (times anchors)" and "p \<in> set (synth_of opts anchors grid)"
  shows "gq_Time p \<in> set grid \<and> gq_Time p \<notin> set (times anchors) \<and> gq_Source p \<noteq> SourceVenue"
  using assms not_near_absent [OF assms(1)] synth_not_venue
  by (fastforce simp: synth_of_def List.map_filter_def split: if_splits)

lemma synth_of_value:
  "p \<in> set (synth_of opts anchors grid) \<Longrightarrow> \<exists>t src. synthAt anchors t opts = Some (gq_Price p, src)"
  by (induction grid) (force simp: synth_of_def List.map_filter_simps split: option.splits if_splits)+

lemma drop_shadowed_id:
  assumes "\<forall>p \<in> set xs. \<forall>q \<in> set xs. gq_Time p = gq_Time q \<and> p \<noteq> q \<longrightarrow> gq_Source p \<noteq> SourceVenue"
    and "distinct (filter (\<lambda>p. gq_Source p = SourceVenue) xs)"
  shows "drop_shadowed xs = xs"
  using assms
proof (induction xs rule: drop_shadowed.induct)
  case (3 p q ps)
  have IH: "drop_shadowed (q # ps) = q # ps" if "gq_Time p \<noteq> gq_Time q \<or> gq_Source p \<noteq> SourceVenue"
  proof -
    have d: "distinct (filter (\<lambda>p. gq_Source p = SourceVenue) (q # ps))" using 3(6) by (simp split: if_splits)
    have A: "\<forall>p' \<in> set (q # ps). \<forall>q' \<in> set (q # ps). gq_Time p' = gq_Time q' \<and> p' \<noteq> q' \<longrightarrow> gq_Source p' \<noteq> SourceVenue"
      using 3(5) by (meson list.set_intros(2))
    show ?thesis
    proof (cases "gq_Time p = gq_Time q")
      case True
      with that have np: "gq_Source p \<noteq> SourceVenue" by simp
      show ?thesis using 3(2) [OF True np _ A d] 3(3) [OF True np _ A d] by blast
    next
      case False
      show ?thesis by (rule 3(4) [OF False A d])
    qed
  qed
  have "gq_Source p \<noteq> SourceVenue \<and> gq_Source q \<noteq> SourceVenue" if "gq_Time p = gq_Time q"
    using 3(5,6) that by (cases "p = q") (auto split: if_splits)
  with IH show ?case by auto
qed simp_all

lemma swo_price_before: "swo_on price_before A"
  unfolding swo_on_def price_before_def by (auto split: if_splits)

lemma mix_count_synth:
  "src = SourceSynthInterp \<or> src = SourceSynthHold \<Longrightarrow>
   mx_SynthInterp (mix_count src m) + mx_SynthHold (mix_count src m) = mx_SynthInterp m + mx_SynthHold m + 1 \<and>
   mx_Venue (mix_count src m) = mx_Venue m \<and> mx_Missing (mix_count src m) = mx_Missing m \<and>
   mx_SynthBook (mix_count src m) = mx_SynthBook m"
  by (auto simp: mix_count_def sources)

lemma fill_mix:
  fixes opts :: gap_opts and anchors :: "gap_price list"
  defines "m' \<equiv> \<lambda>st grid. snd (foldl (fill_step opts anchors) st grid)"
  shows "mx_Venue (m' st grid) = mx_Venue (snd st) \<and> mx_SynthBook (m' st grid) = mx_SynthBook (snd st) \<and>
    mx_SynthInterp (m' st grid) + mx_SynthHold (m' st grid) =
      mx_SynthInterp (snd st) + mx_SynthHold (snd st) + int (length (synth_of opts anchors grid)) \<and>
    mx_Missing (m' st grid) + int (length (synth_of opts anchors grid)) =
      mx_Missing (snd st) + int (length (filter (\<lambda>t. \<not> hasVenueNear anchors t (gp_GridStep opts)) grid))"
  unfolding m'_def
proof (induction grid arbitrary: st)
  case (Cons t grid)
  let ?st = "fill_step opts anchors st t"
  note IH = Cons.IH [of ?st]
  show ?case
  proof (cases "hasVenueNear anchors t (gp_GridStep opts)")
    case True
    with IH show ?thesis by (simp add: fill_step_def synth_of_def List.map_filter_simps)
  next
    case False
    show ?thesis
    proof (cases "synthAt anchors t opts")
      case None
      with IH False show ?thesis by (simp add: fill_step_def synth_of_def List.map_filter_simps)
    next
      case (Some ps)
      obtain p src where ps: "ps = (p, src)" by fastforce
      from Some ps have "src = SourceSynthInterp \<or> src = SourceSynthHold" using synth_source by blast
      from mix_count_synth [OF this, of "snd st"] IH Some ps False show ?thesis
        by (simp add: fill_step_def synth_of_def List.map_filter_simps)
    qed
  qed
qed (simp add: synth_of_def List.map_filter_simps)

definition gap_bounds :: "gap_opts \<Rightarrow> bool" where
  "gap_bounds opts \<longleftrightarrow> isfin (gp_PriceFloor opts) \<and> isfin (gp_PriceCeil opts) \<and> gp_PriceFloor opts \<le> gp_PriceCeil opts"

lemma clamp_bounds:
  "gap_bounds opts \<Longrightarrow> p \<noteq> NaN \<Longrightarrow>
   gp_PriceFloor opts \<le> clampPrice p opts \<and> clampPrice p opts \<le> gp_PriceCeil opts \<and> isfin (clampPrice p opts)"
  by (cases p) (auto simp: gap_bounds_def clampPrice_def isfin_iff)

lemma interp_fin:
  assumes "isfin (gq_Price l)" and "isfin (gq_Price r)" and "time_Sub (gq_Time r) (gq_Time l) > 0"
  shows "isfin (interp l r t)"
  using assms by (auto simp: interp_def Let_def of_int_f64_def isfin_iff zero_f64_def one_f64_def)

lemma synth_bounds:
  assumes opts: "gap_bounds opts" and a: "\<forall>p \<in> set anchors. isfin (gq_Price p)"
    and s: "synthAt anchors t opts = Some (p, src)"
  shows "gp_PriceFloor opts \<le> p \<and> p \<le> gp_PriceCeil opts"
proof -
  let ?i = "at_or_before (times anchors) t"
  have le: "sort_Search (length (times anchors)) (\<lambda>i. times anchors ! i > t) \<le> length anchors"
    using sort_Search_le [of "length (times anchors)"] by simp
  have nn: "x \<noteq> NaN" if "isfin x" for x using that by auto
  have l: "isfin (gq_Price (anchors ! nat ?i))" if "0 \<le> ?i"
    using a le that by (simp add: at_or_before_def)
  have r: "isfin (gq_Price (anchors ! nat (?i + 1)))" if "?i + 1 < int (length anchors)"
    using a that by (simp add: at_or_before_def)
  show ?thesis using s clamp_bounds [OF opts] l r nn interp_fin
    by (auto simp: synthAt_def Let_def split: if_splits option.splits)
qed

lemma out_sorted: "sorted (times (sort_by price_before xs))"
proof -
  have "sorted_wrt (\<lambda>a b. \<not> price_before b a) (sort_by price_before xs)" by (rule sortS.ordered [OF swo_price_before])
  then have "sorted_wrt (\<lambda>a b. gq_Time a \<le> gq_Time b) (sort_by price_before xs)"
    by (rule sorted_wrt_mono_rel [rotated]) (auto simp: price_before_def split: if_splits)
  then show ?thesis by (simp add: sorted_wrt_map)
qed

lemma anchors_inj: "distinct (times xs) \<Longrightarrow> inj_on gq_Time (set xs)"
  by (simp add: distinct_map)

lemma sorted_times_filter: "sorted (times xs) \<Longrightarrow> sorted (times (filter P xs))"
  by (simp add: sorted_wrt_map sorted_wrt_filter)

text \<open>The result of a fill: the venue points and the synthetic ones, in order of time.\<close>

lemma fill_prices_split:
  fixes opts :: gap_opts
  assumes src: "\<forall>p \<in> set rows. gq_Source p = '''' \<or> gq_Source p = SourceVenue"
  defines "o1 \<equiv> Normalize_opts opts"
  defines "anchors \<equiv> anchors_of o1 rows"
  shows "filter (\<lambda>p. gq_Source p = SourceVenue) (fst (FillPrices rows grid opts)) = anchors"
    and "sorted (times (fst (FillPrices rows grid opts)))"
    and "set (fst (FillPrices rows grid opts)) \<subseteq> set anchors \<union> set (synth_of o1 anchors grid)"
    and "\<not> (grid = [] \<or> anchors = []) \<Longrightarrow>
      length (fst (FillPrices rows grid opts)) = length anchors + length (synth_of o1 anchors grid)"
proof -
  have inc: "sorted_wrt (<) (times anchors)" unfolding anchors_def by (rule anchors_increasing)
  then have srt: "sorted (times anchors)" by (rule strict_sorted_le)
  have dis: "distinct (times anchors)" using inc by (induction anchors) auto
  have ven: "\<forall>p \<in> set anchors. gq_Source p = SourceVenue"
    using anchors_from [of _ o1 rows] src unfolding anchors_def by fastforce
  let ?S = "synth_of o1 anchors grid"
  have syn: "\<forall>p \<in> set ?S. gq_Time p \<notin> set (times anchors) \<and> gq_Source p \<noteq> SourceVenue"
    using synth_of_mem [OF srt] by blast
  let ?L = "sort_by price_before (anchors @ ?S)"
  have flt: "filter (\<lambda>p. gq_Source p = SourceVenue) (anchors @ ?S) = anchors"
    using ven syn by (auto simp: filter_id_conv)
  let ?V = "filter (\<lambda>p. gq_Source p = SourceVenue) ?L"
  have "mset ?V = mset anchors"
    using sortS.perm_filter [of "\<lambda>p. gq_Source p = SourceVenue" price_before "anchors @ ?S"] unfolding flt .
  moreover have "sorted (times ?V)" by (rule sorted_times_filter [OF out_sorted])
  moreover have "distinct (times ?V)"
    using arg_cong [OF \<open>mset ?V = mset anchors\<close>, of "image_mset gq_Time"] dis mset_eq_imp_distinct_iff
    by (metis mset_map)
  moreover have "set ?V = set anchors" using mset_eq_setD [OF \<open>mset ?V = mset anchors\<close>] .
  ultimately have V: "?V = anchors"
    using map_sorted_distinct_set_unique [of gq_Time ?V anchors] anchors_inj [OF dis] srt dis by simp
  have "drop_shadowed ?L = ?L"
  proof (rule drop_shadowed_id)
    show "\<forall>p\<in>set ?L. \<forall>q\<in>set ?L. gq_Time p = gq_Time q \<and> p \<noteq> q \<longrightarrow> gq_Source p \<noteq> SourceVenue"
      using ven syn dis by (auto simp: distinct_map inj_on_def image_iff) metis
    show "distinct (filter (\<lambda>p. gq_Source p = SourceVenue) ?L)" using V dis by (simp add: distinct_map)
  qed
  then have out: "fst (FillPrices rows grid opts) = (if grid = [] \<or> anchors = [] then anchors else ?L)"
    using fill_steps [of o1 anchors _ grid] unfolding FillPrices_def Let_def o1_def [symmetric] anchors_def [symmetric]
    by (simp add: case_prod_unfold)
  show "filter (\<lambda>p. gq_Source p = SourceVenue) (fst (FillPrices rows grid opts)) = anchors"
    using V ven by (simp add: out filter_id_conv)
  show "sorted (times (fst (FillPrices rows grid opts)))" using out_sorted srt by (simp add: out)
  show "set (fst (FillPrices rows grid opts)) \<subseteq> set anchors \<union> set ?S" by (auto simp: out)
  show "length (fst (FillPrices rows grid opts)) = length anchors + length ?S" if "\<not> (grid = [] \<or> anchors = [])"
    using that sortS.length_srt [of price_before "anchors @ ?S"] by (simp add: out)
qed

lemma convex_between:
  fixes f :: real
  assumes "0 < f" and "f < 1" and "lo \<le> a" and "a \<le> hi" and "lo \<le> c" and "c \<le> hi"
  shows "lo \<le> a + f * (c - a) \<and> a + f * (c - a) \<le> hi"
proof -
  have eq: "a + f * (c - a) = (1 - f) * a + f * c" by (simp add: algebra_simps)
  have "(1 - f) * lo + f * lo \<le> (1 - f) * a + f * c" "(1 - f) * a + f * c \<le> (1 - f) * hi + f * hi"
    using assms by (intro add_mono mult_left_mono; simp)+
  then show ?thesis unfolding eq by (simp add: algebra_simps)
qed

text \<open>the gap fill keeps the venue data.  For rows that are venue samples, the venue points of the
  result are exactly the usable samples (positive prices, clamped, one per time), in ascending order; every price lies
  within the floor and the ceiling; every other point lies on the grid; and the counts by source add up to the
  points returned.\<close>

theorem fill_prices_keeps_venue:
  assumes "\<forall>p \<in> set rows. gq_Source p = '''' \<or> gq_Source p = SourceVenue" and "gap_bounds (Normalize_opts opts)"
  shows "filter (\<lambda>p. gq_Source p = SourceVenue) (fst (FillPrices rows grid opts)) = anchors_of (Normalize_opts opts) rows \<and>
    sorted (times (fst (FillPrices rows grid opts))) \<and>
    (\<forall>p \<in> set (fst (FillPrices rows grid opts)).
       gp_PriceFloor (Normalize_opts opts) \<le> gq_Price p \<and> gq_Price p \<le> gp_PriceCeil (Normalize_opts opts) \<and>
       (gq_Source p = SourceVenue \<or> gq_Time p \<in> set grid)) \<and>
    Observed (snd (FillPrices rows grid opts)) = int (length (fst (FillPrices rows grid opts)))"
proof -
  let ?o = "Normalize_opts opts" and ?out = "fst (FillPrices rows grid opts)"
  let ?a = "anchors_of ?o rows"
  note sp = fill_prices_split [OF assms(1), where opts = opts and grid = grid]
  have srt: "sorted (times ?a)" by (rule strict_sorted_le [OF anchors_increasing])
  have a: "gp_PriceFloor ?o \<le> gq_Price p \<and> gq_Price p \<le> gp_PriceCeil ?o \<and> isfin (gq_Price p)" if "p \<in> set ?a" for p
    using anchors_from [OF that] clamp_bounds [OF assms(2)] by fastforce
  have s: "gp_PriceFloor ?o \<le> gq_Price p \<and> gq_Price p \<le> gp_PriceCeil ?o" if ps: "p \<in> set (synth_of ?o ?a grid)" for p
  proof -
    obtain t src where "synthAt ?a t ?o = Some (gq_Price p, src)"
      using synth_of_value [OF ps] by blast
    then show ?thesis using synth_bounds [OF assms(2)] a by blast
  qed
  have all: "gp_PriceFloor ?o \<le> gq_Price p \<and> gq_Price p \<le> gp_PriceCeil ?o \<and>
      (gq_Source p = SourceVenue \<or> gq_Time p \<in> set grid)" if p: "p \<in> set ?out" for p
  proof (cases "p \<in> set ?a")
    case True
    have "p \<in> set (filter (\<lambda>p. gq_Source p = SourceVenue) ?out)" using True sp(1) by simp
    then have "gq_Source p = SourceVenue" by simp
    with a [OF True] show ?thesis by blast
  next
    case False
    with sp(3) p have "p \<in> set (synth_of ?o ?a grid)" by blast
    with s synth_of_mem [OF srt] show ?thesis by blast
  qed
  have "Observed (snd (FillPrices rows grid opts)) = int (length ?out)"
  proof (cases "grid = [] \<or> ?a = []")
    case True
    then show ?thesis by (auto simp: FillPrices_def Let_def Observed_def no_mix_def)
  next
    case False
    then show ?thesis
      using fill_mix [of ?o ?a "(?a, no_mix\<lparr>mx_Venue := int (length ?a)\<rparr>)" grid]
        sp(4) [OF False]
      by (simp add: FillPrices_def Let_def Observed_def no_mix_def case_prod_unfold)
  qed
  with sp(1,2) all show ?thesis by blast
qed

lemma interp_value:
  assumes "gq_Price l = Fin a" and "gq_Price r = Fin c" and "time_Sub (gq_Time r) (gq_Time l) = g"
    and "time_Sub t (gq_Time l) = d" and "g \<noteq> 0" and "fr = real_of_int d / real_of_int g" and "0 < fr" and "fr < 1"
  shows "interp l r t = Fin (a + fr * (c - a))"
proof -
  have "of_int_f64 d / of_int_f64 g = Fin fr" using assms(5,6) by (simp add: of_int_f64_def)
  with assms(1-4,7,8) show ?thesis by (simp add: interp_def Let_def zero_f64_def one_f64_def)
qed

lemma synth_between:
  assumes t: "gq_Time l < t" "t < gq_Time r" and gap: "gq_Time r - gq_Time l \<le> gp_MaxGap opts" "gp_MaxGap opts < 2 ^ 63"
    and v: "gq_Price l = Fin a" "gq_Price r = Fin c" and b: "gp_PriceFloor opts = Fin lo" "gp_PriceCeil opts = Fin hi"
    and r: "lo \<le> a" "a \<le> hi" "lo \<le> c" "c \<le> hi"
  shows "synthAt [l, r] t opts =
    Some (Fin (a + real_of_int (t - gq_Time l) / real_of_int (gq_Time r - gq_Time l) * (c - a)), SourceSynthInterp)"
proof -
  let ?g = "gq_Time r - gq_Time l" and ?d = "t - gq_Time l"
  let ?f = "real_of_int ?d / real_of_int ?g"
  have f: "0 < ?f" "?f < 1" using t by (simp_all add: divide_less_eq)
  have idx: "at_or_before [gq_Time l, gq_Time r] t = 0"
    using at_or_before_sorted [of "[gq_Time l, gq_Time r]" t] t by simp
  have sub: "time_Sub (gq_Time r) (gq_Time l) = ?g" "time_Sub t (gq_Time l) = ?d"
    using t gap by (simp_all add: time_Sub_def)
  have ip: "interp l r t = Fin (a + ?f * (c - a))"
    by (rule interp_value [OF v sub _ refl f]) (use t in simp)
  have "lo \<le> a + ?f * (c - a)" "a + ?f * (c - a) \<le> hi"
    using convex_between [of ?f lo a hi c] f r by auto
  then have "clampPrice (interp l r t) opts = interp l r t" using b by (simp add: clampPrice_def ip)
  then show ?thesis using t gap by (simp add: synthAt_def Let_def idx sub ip)
qed

text \<open>interpolation looks ahead.  Between two venue samples the filled price is a fraction of the way
  to the later one: two histories that agree up to the filled time, and differ in the next sample only, are
  filled differently, so a feature computed from the filled series at that time depends on the future.\<close>

theorem interpolation_looks_ahead:
  assumes "gq_Time l < t" and "t < gq_Time r" and "gq_Time r - gq_Time l \<le> gp_MaxGap opts"
    and "gp_MaxGap opts < 2 ^ 63" and "gq_Time r' = gq_Time r"
    and "gq_Price l = Fin a" and "gq_Price r = Fin b" and "gq_Price r' = Fin b'" and "b < b'"
    and "gp_PriceFloor opts = Fin lo" and "gp_PriceCeil opts = Fin hi"
    and "lo \<le> a" and "a \<le> hi" and "lo \<le> b" and "b' \<le> hi"
  shows "\<exists>x y. synthAt [l, r] t opts = Some (Fin x, SourceSynthInterp) \<and>
    synthAt [l, r'] t opts = Some (Fin y, SourceSynthInterp) \<and> x < y"
proof -
  let ?f = "real_of_int (t - gq_Time l) / real_of_int (gq_Time r - gq_Time l)"
  have val: "synthAt [l, q] t opts = Some (Fin (a + ?f * (c - a)), SourceSynthInterp)"
    if "gq_Time q = gq_Time r" "gq_Price q = Fin c" "lo \<le> c" "c \<le> hi" for q c
    using synth_between [of l t q opts a c lo hi] that assms(1-4,6,10-13) by simp
  have "0 < ?f" using assms(1,2) by simp
  then have "?f * (b - a) < ?f * (b' - a)" using assms(9) by (intro mult_strict_left_mono) simp_all
  then have "a + ?f * (b - a) < a + ?f * (b' - a)" by (rule add_strict_left_mono)
  with val [OF refl assms(7)] val [OF assms(5,8)] assms(9,12-15) show ?thesis by auto
qed

definition left_sample :: gap_price where
  "left_sample = \<lparr>gq_Time = 10 * hour, gq_Price = Fin (4 / 10), gq_Source = SourceVenue\<rparr>"

definition right_sample :: "real \<Rightarrow> gap_price" where
  "right_sample p = \<lparr>gq_Time = 20 * hour, gq_Price = Fin p, gq_Source = SourceVenue\<rparr>"

lemma default_norm: "Normalize_opts DefaultOpts = DefaultOpts"
  by (simp add: Normalize_opts_def DefaultOpts_def Let_def zero_f64_def hour_def numeral_f64)

lemma sample_anchors:
  assumes "1 / 1000 \<le> p" "p \<le> 999 / 1000"
  shows "anchors_of DefaultOpts [left_sample, right_sample p] = [left_sample, right_sample p]"
  using assms by (simp add: anchors_of_def dedupe_times_def left_sample_def right_sample_def DefaultOpts_def
      clampPrice_def sort_by_def IsZero_def hour_def zero_f64_def sources)

lemma fill_half_way:
  assumes "1 / 1000 \<le> p" "p \<le> 999 / 1000"
  shows "fst (FillPrices [left_sample, right_sample p] [15 * hour] DefaultOpts) =
    [left_sample, \<lparr>gq_Time = 15 * hour, gq_Price = Fin (4 / 10 + 1 / 2 * (p - 4 / 10)), gq_Source = SourceSynthInterp\<rparr>, right_sample p]"
proof -
  let ?ps = "[left_sample, right_sample p]"
  have "at_or_before (times ?ps) (15 * hour) = 0"
    using at_or_before_sorted [of "times ?ps" "15 * hour"] by (simp add: left_sample_def right_sample_def hour_def)
  then have far: "\<not> hasVenueNear ?ps (15 * hour) (gp_GridStep DefaultOpts)"
    by (simp add: hasVenueNear_def venue_tol_def Let_def left_sample_def right_sample_def DefaultOpts_def hour_def minute_def
        time_Sub_def)
  have "synthAt ?ps (15 * hour) DefaultOpts = Some (Fin (4 / 10 + 1 / 2 * (p - 4 / 10)), SourceSynthInterp)"
    using synth_between [of left_sample "15 * hour" "right_sample p" DefaultOpts "4 / 10" p "1 / 1000" "999 / 1000"] assms
    by (simp add: left_sample_def right_sample_def DefaultOpts_def hour_def)
  then have step: "fst (fill_step DefaultOpts ?ps st (15 * hour)) =
      fst st @ [\<lparr>gq_Time = 15 * hour, gq_Price = Fin (4 / 10 + 1 / 2 * (p - 4 / 10)), gq_Source = SourceSynthInterp\<rparr>]" for st
    using far by (simp add: fill_step_def Let_def case_prod_unfold)
  show ?thesis
    unfolding FillPrices_def Let_def default_norm sample_anchors [OF assms] case_prod_unfold
    by (simp add: step, simp add: sort_by_def price_before_def left_sample_def right_sample_def hour_def sources drop_shadowed.simps)
qed

lemma fill_too_early:
  assumes "1 / 1000 \<le> p" "p \<le> 999 / 1000"
  shows "fst (FillPrices [left_sample, right_sample p] [hour] DefaultOpts) = [left_sample, right_sample p]"
proof -
  let ?ps = "[left_sample, right_sample p]"
  have idx: "at_or_before [36000000000000, 72000000000000] 3600000000000 = - 1"
    using at_or_before_sorted [of "[36000000000000, 72000000000000]" 3600000000000] by simp
  have far: "\<not> hasVenueNear ?ps hour (gp_GridStep DefaultOpts)" "synthAt ?ps hour DefaultOpts = None"
    by (simp_all add: hasVenueNear_def venue_tol_def Let_def left_sample_def right_sample_def DefaultOpts_def hour_def minute_def
        time_Sub_def idx synthAt_def)
  then have step: "fst (fill_step DefaultOpts ?ps st hour) = fst st" for st
    by (simp add: fill_step_def Let_def case_prod_unfold)
  show ?thesis
    unfolding FillPrices_def Let_def default_norm sample_anchors [OF assms] case_prod_unfold
    by (simp add: step, simp add: sort_by_def price_before_def left_sample_def right_sample_def hour_def sources drop_shadowed.simps)
qed

lemma no_book_without_mid:
  "m t = None \<Longrightarrow> FillBooks [] [t] (Some m) DefaultOpts = ([], no_mix\<lparr>mx_Missing := 1\<rparr>)"
  unfolding FillBooks_def Let_def default_norm
  by (simp add: venue_books_def book_step_def bookCovers_def at_or_before_def sort_Search_def bisect.simps no_mix_def
      DefaultOpts_def hour_def lastBook_def)

theorem fill_prices_keeps_venue_witness:
  "filter (\<lambda>p. gq_Source p = SourceVenue) (fst (FillPrices [right_sample (6 / 10), left_sample] [15 * hour] DefaultOpts)) =
     anchors_of (Normalize_opts DefaultOpts) [right_sample (6 / 10), left_sample] \<and>
   Observed (snd (FillPrices [right_sample (6 / 10), left_sample] [15 * hour] DefaultOpts)) =
     int (length (fst (FillPrices [right_sample (6 / 10), left_sample] [15 * hour] DefaultOpts)))"
proof -
  have "gap_bounds (Normalize_opts DefaultOpts)"
    by (simp add: gap_bounds_def Normalize_opts_def DefaultOpts_def Let_def zero_f64_def hour_def)
  moreover have "\<forall>p \<in> set [right_sample (6 / 10), left_sample]. gq_Source p = '''' \<or> gq_Source p = SourceVenue"
    by (simp add: right_sample_def left_sample_def)
  ultimately show ?thesis using fill_prices_keeps_venue by blast
qed

theorem interpolation_looks_ahead_witness:
  "\<exists>x y. synthAt [left_sample, right_sample (5 / 10)] (15 * hour) DefaultOpts = Some (Fin x, SourceSynthInterp) \<and>
    synthAt [left_sample, right_sample (8 / 10)] (15 * hour) DefaultOpts = Some (Fin y, SourceSynthInterp) \<and> x < y"
  by (rule interpolation_looks_ahead [where a = "4 / 10" and b = "5 / 10" and b' = "8 / 10" and lo = "1 / 1000"
      and hi = "999 / 1000"])
    (simp_all add: left_sample_def right_sample_def DefaultOpts_def hour_def)

definition late_venue_book :: gap_book where
  "late_venue_book = \<lparr>gb_Time = 20 * hour, gb_BestBid = Fin (40 / 100), gb_BestAsk = Fin (42 / 100),
     gb_TotalBidDepth = 100, gb_TotalAskDepth = 100, gb_Source = SourceVenue\<rparr>"

text \<open>the book fill can cover up a venue book.  It appends each synthetic book at the end of the slice
  in which it then looks for the last book by bisection, so after a grid time before the first venue book the slice is
  out of order: here a venue book of half an hour ago, well within the grid step, is missed, and a synthetic
  book is written over it.\<close>

theorem book_fill_misses_venue:
  "bookCovers (venue_books [late_venue_book]) (20 * hour + 30 * minute) (gp_GridStep (Normalize_opts DefaultOpts)) \<and>
   (\<exists>b. b \<in> set (fst (FillBooks [late_venue_book] [12 * hour, 20 * hour + 30 * minute] (Some (\<lambda>t. Some (Fin (1 / 2)))) DefaultOpts)) \<and>
     gb_Time b = 20 * hour + 30 * minute \<and> gb_Source b = SourceSynthBook)"
proof -
  let ?o = "Normalize_opts DefaultOpts" and ?t1 = "12 * hour" and ?t2 = "20 * hour + 30 * minute"
  let ?mid = "\<lambda>t :: gotime. Some (Fin (1 / 2))"
  have v: "venue_books [late_venue_book] = [late_venue_book]"
    by (simp add: venue_books_def late_venue_book_def IsZero_def hour_def zero_f64_def SourceVenue_def)
  have step: "gp_GridStep ?o = hour" by (simp add: Normalize_opts_def DefaultOpts_def Let_def hour_def)
  have tm: "gb_Time late_venue_book = 20 * hour" by (simp add: late_venue_book_def)
  have c0: "bookCovers [late_venue_book] ?t2 hour"
    by (simp add: bookCovers_def lastBook_def Let_def at_or_before_def sort_Search_def bisect.simps tm time_Sub_def hour_def
        minute_def)
  have c1: "\<not> bookCovers [late_venue_book] ?t1 hour"
    by (simp add: bookCovers_def lastBook_def Let_def at_or_before_def sort_Search_def bisect.simps tm hour_def)
  have c2: "\<not> bookCovers [late_venue_book, b] ?t2 hour" if "gb_Time b = ?t1" for b
    using that by (simp add: bookCovers_def lastBook_def Let_def at_or_before_def sort_Search_def bisect.simps tm time_Sub_def
        hour_def minute_def)
  have bt: "gb_Time (synth_book o1 h out t m) = t" "gb_Source (synth_book o1 h out t m) = SourceSynthBook" for o1 h out t m
    by (simp_all add: synth_book_def Let_def case_prod_unfold)
  have bs: "book_step ?o h ?mid (out, m) t = (out @ [synth_book ?o h out t (Fin (1 / 2))], m\<lparr>mx_SynthBook := mx_SynthBook m + 1\<rparr>)"
    if "\<not> bookCovers out t hour" for h out m t
    using that by (simp add: book_step_def step zero_f64_def)
  obtain h where fb: "fst (FillBooks [late_venue_book] [?t1, ?t2] (Some ?mid) DefaultOpts) =
      sort_by (\<lambda>a b. gb_Time a < gb_Time b)
        (fst (foldl (book_step ?o h ?mid) ([late_venue_book], no_mix\<lparr>mx_Venue := 1\<rparr>) [?t1, ?t2]))"
    by (simp add: FillBooks_def v Let_def case_prod_unfold)
  let ?s1 = "synth_book ?o h [late_venue_book] ?t1 (Fin (1 / 2))"
  let ?s2 = "synth_book ?o h [late_venue_book, ?s1] ?t2 (Fin (1 / 2))"
  have "?s2 \<in> set (fst (FillBooks [late_venue_book] [?t1, ?t2] (Some ?mid) DefaultOpts))"
    unfolding fb using bs [OF c1] bs [OF c2 [OF bt(1)]] by simp
  then show ?thesis using bt c0 by (auto simp: v step)
qed

section \<open>Shares\<close>

lemma SynthShare_range:
  assumes "0 \<le> mx_Venue m" and "0 \<le> mx_SynthInterp m" and "0 \<le> mx_SynthHold m" and "0 \<le> mx_SynthBook m"
  shows "\<exists>s. SynthShare m = Fin s \<and> 0 \<le> s \<and> s \<le> 1"
proof (cases "Observed m = 0")
  case True
  then show ?thesis by (simp add: SynthShare_def zero_f64_def)
next
  case False
  with assms have "0 < Observed m" by (simp add: Observed_def)
  then have "0 < real_of_int (Observed m)" by simp
  moreover have "real_of_int (mx_SynthInterp m + mx_SynthHold m + mx_SynthBook m) \<le> real_of_int (Observed m)"
    using assms by (simp add: Observed_def)
  moreover have "0 \<le> real_of_int (mx_SynthInterp m + mx_SynthHold m + mx_SynthBook m)" using assms by simp
  ultimately show ?thesis using False by (simp add: SynthShare_def Let_def of_int_f64_def del: of_int_add)
qed

definition mix_nonneg :: "mix \<Rightarrow> bool" where
  "mix_nonneg m \<longleftrightarrow> 0 \<le> mx_Venue m \<and> 0 \<le> mx_SynthInterp m \<and> 0 \<le> mx_SynthHold m \<and> 0 \<le> mx_SynthBook m"

text \<open>the report is sound.  Both shares lie between zero and one; with the default thresholds the
  promotion is blocked exactly when one of them exceeds a twentieth, a significant share, a fifth or more,
  always blocks it, and a run without a warning of its own gets one as soon as a share is positive.\<close>

theorem report_shares_sound:
  assumes "mix_nonneg (rp_PriceMix r)" and "mix_nonneg (rp_BookMix r)"
  shows "\<exists>p b. rp_SynthPriceShare (Finalize (- 1) 0 r) = Fin p \<and> rp_SynthBookShare (Finalize (- 1) 0 r) = Fin b \<and>
    0 \<le> p \<and> p \<le> 1 \<and> 0 \<le> b \<and> b \<le> 1 \<and>
    (rp_BlockPromote (Finalize (- 1) 0 r) \<longleftrightarrow> 1 / 20 < p \<or> 1 / 20 < b) \<and>
    (rp_Significant (Finalize (- 1) 0 r) \<longleftrightarrow> 1 / 5 \<le> max p b) \<and>
    (rp_Significant (Finalize (- 1) 0 r) \<longrightarrow> rp_BlockPromote (Finalize (- 1) 0 r)) \<and>
    (0 < p \<or> 0 < b \<longrightarrow> rp_Warning (Finalize (- 1) 0 r) \<noteq> NoWarning)"
proof -
  obtain p where p: "SynthShare (rp_PriceMix r) = Fin p" "0 \<le> p" "p \<le> 1"
    using SynthShare_range assms(1) unfolding mix_nonneg_def by blast
  obtain b where b: "SynthShare (rp_BookMix r) = Fin b" "0 \<le> b" "b \<le> 1"
    using SynthShare_range assms(2) unfolding mix_nonneg_def by blast
  show ?thesis
    by (rule exI [of _ p], rule exI [of _ b])
      (use p b in \<open>auto simp: Finalize_def Let_def zero_f64_def one_f64_def PromoteMaxSynthShare_def SignificantSynthShare_def\<close>)
qed

definition demo_report :: report where
  "demo_report = \<lparr>rp_PriceMix = no_mix\<lparr>mx_Venue := 9, mx_SynthInterp := 1\<rparr>, rp_BookMix = no_mix,
     rp_SynthPriceShare = 0, rp_SynthBookShare = 0, rp_FillMode = '''', rp_Warning = NoWarning,
     rp_Significant = False, rp_BlockPromote = False\<rparr>"

theorem report_shares_sound_witness:
  "\<exists>p. rp_SynthPriceShare (Finalize (- 1) 0 demo_report) = Fin p \<and> 0 \<le> p \<and> p \<le> 1"
  using report_shares_sound [of demo_report] by (auto simp: demo_report_def mix_nonneg_def no_mix_def)

end
