(* ===== verification/Eval_Labels.thy ===== *)
theory Eval_Labels
  imports Eval_Series Datagap
begin

text \<open>
  \<open>internal/eval/fill.go\<close>, \<open>engine.go\<close> and \<open>backtest.go\<close>: the after-cost return of a
  decision, the offline loop that labels the boards of every policy, and the metrics built from labels.
  \<open>time.ParseDuration\<close> and the shuffles of the random baseline are arguments; the range over a Go map only
  fills maps here, so its order does not matter.
  Lemmas: a label is the signed move of the mid between its two times less the cost, hits are the positive
  ones, and only markets that are alive through the horizon are labelled; the drawdown of the portfolio is the
  largest drop of the running sum.
\<close>

section \<open>Fills\<close>

record fill_params =
  fp_FeeBps :: f64
  fp_SlipBps :: f64
  fp_IncludeSpread :: bool
  fp_HalfSpreadBps :: f64
  fp_ImpactBps :: f64
  fp_NegRiskFeeBps :: f64
  fp_TotalOverride :: "f64 option"

record fill_model =
  fm_Name :: string
  fm_Entry :: string
  fm_FeeBps :: f64
  fm_SlipBps :: f64
  fm_IncludeSpread :: bool
  fm_Notes :: string

definition DefaultFillParams :: fill_params where
  "DefaultFillParams = \<lparr>fp_FeeBps = 10, fp_SlipBps = 5, fp_IncludeSpread = True, fp_HalfSpreadBps = 0,
     fp_ImpactBps = 0, fp_NegRiskFeeBps = 0, fp_TotalOverride = None\<rparr>"

definition FillParamsFromModel :: "fill_model \<Rightarrow> f64 \<Rightarrow> fill_params" where
  "FillParamsFromModel m halfSpreadBps =
     \<lparr>fp_FeeBps = fm_FeeBps m, fp_SlipBps = fm_SlipBps m, fp_IncludeSpread = fm_IncludeSpread m,
      fp_HalfSpreadBps = halfSpreadBps, fp_ImpactBps = 0, fp_NegRiskFeeBps = 0, fp_TotalOverride = None\<rparr>"

definition FillParamsFromCost :: "cost_breakdown \<Rightarrow> fill_params" where
  "FillParamsFromCost c =
     \<lparr>fp_FeeBps = cb_FeeBps c, fp_SlipBps = 0, fp_IncludeSpread = True, fp_HalfSpreadBps = cb_HalfSpreadBps c,
      fp_ImpactBps = cb_ImpactBps c, fp_NegRiskFeeBps = cb_NegRiskFeeBps c, fp_TotalOverride = Some (cb_TotalCostBps c)\<rparr>"

definition TotalCostBps :: "fill_params \<Rightarrow> f64" where
  "TotalCostBps p =
     (case fp_TotalOverride p of
        Some t \<Rightarrow> t
      | None \<Rightarrow>
          let c = math_Max 0 (fp_FeeBps p) + math_Max 0 (fp_SlipBps p) + math_Max 0 (fp_ImpactBps p) +
                  math_Max 0 (fp_NegRiskFeeBps p)
          in if fp_IncludeSpread p then c + math_Max 0 (fp_HalfSpreadBps p) else c)"

definition RawMoveBps :: "f64 \<Rightarrow> f64 \<Rightarrow> f64" where
  "RawMoveBps midT midH = (if midT \<le> 0 \<or> midH \<le> 0 then NaN else (midH - midT) * 10000)"

definition ActionLongYes :: string where "ActionLongYes = ''long_yes''"
definition ActionSignFromEdge :: string where "ActionSignFromEdge = ''sign_from_edge''"

definition AfterCostReturnBps :: "f64 \<Rightarrow> f64 \<Rightarrow> fill_params \<Rightarrow> f64" where
  "AfterCostReturnBps midT midH p =
     (let raw = RawMoveBps midT midH in if raw = NaN then raw else raw - TotalCostBps p)"

definition AfterCostReturnBpsAction :: "f64 \<Rightarrow> f64 \<Rightarrow> fill_params \<Rightarrow> string \<Rightarrow> f64 \<Rightarrow> f64" where
  "AfterCostReturnBpsAction midT midH p actionModel edgeBpsAtT =
     (let raw = RawMoveBps midT midH in
      if raw = NaN then raw
      else
        let raw = (if actionModel = ActionSignFromEdge \<and> edgeBpsAtT < 0 then - raw else raw)
        in raw - TotalCostBps p)"

definition Hit :: "f64 \<Rightarrow> bool" where
  "Hit afterCostBps \<longleftrightarrow> afterCostBps \<noteq> NaN \<and> afterCostBps > 0"

definition HalfSpreadBpsFromBook :: "f64 \<Rightarrow> f64 \<Rightarrow> f64" where
  "HalfSpreadBpsFromBook bestBid bestAsk =
     (if bestBid \<le> 0 \<or> bestAsk \<le> 0 \<or> bestAsk < bestBid then 0
      else let mid = (bestBid + bestAsk) / 2 in
        if mid \<le> 0 then 0 else 10000 * ((bestAsk - bestBid) / 2) / mid)"

definition HalfSpreadBpsFromSpread :: "f64 \<Rightarrow> f64 \<Rightarrow> f64" where
  "HalfSpreadBpsFromSpread spread mid = (if spread \<le> 0 \<or> mid \<le> 0 then 0 else 10000 * (spread / 2) / mid)"

section \<open>Labels and metrics\<close>

record label =
  lb_DecisionTime :: gotime
  lb_Horizon :: string
  lb_ConditionID :: string
  lb_SelectionSet :: string
  lb_Hit :: bool
  lb_AfterCostReturnBps :: f64
  lb_Category :: string
  lb_NegRisk :: bool
  lb_FVSource :: string
  lb_TTRBucket :: string
  lb_MidAtT :: f64
  lb_EdgeBpsAtT :: f64
  lb_Policy :: string

record horizon_metrics =
  hm_Horizon :: string
  hm_N :: int
  hm_HitRate :: f64
  hm_AfterCostReturnBps :: f64
  hm_AfterCostReturnMedBps :: f64
  hm_MaxDrawdownBps :: f64
  hm_WinRate :: f64

definition no_metrics :: horizon_metrics where
  "no_metrics = \<lparr>hm_Horizon = '''', hm_N = 0, hm_HitRate = 0, hm_AfterCostReturnBps = 0,
     hm_AfterCostReturnMedBps = 0, hm_MaxDrawdownBps = 0, hm_WinRate = 0\<rparr>"

definition median_f64 :: "f64 list \<Rightarrow> f64" where
  "median_f64 xs =
     (if xs = [] then 0
      else
        let cp = sort_by (<) xs; m = length cp div 2
        in if even (length cp) then (cp ! (m - 1) + cp ! m) / 2 else cp ! m)"

definition AggregateLabels :: "label list \<Rightarrow> horizon_metrics" where
  "AggregateLabels labels =
     (if labels = [] then no_metrics
      else
        let rets = filter (\<lambda>r. r \<noteq> NaN) (map lb_AfterCostReturnBps labels);
            rate = of_len (length (filter lb_Hit labels)) / of_len (length labels);
            out = no_metrics\<lparr>hm_Horizon := lb_Horizon (hd labels), hm_N := int (length labels),
                    hm_HitRate := rate, hm_WinRate := rate\<rparr>
        in if rets = [] then out
           else out\<lparr>hm_AfterCostReturnBps := fsum rets / of_len (length rets),
                    hm_AfterCostReturnMedBps := median_f64 rets\<rparr>)"

record portfolio_metrics =
  pm_Horizon :: string
  pm_NPeriods :: int
  pm_Sharpe :: f64
  pm_MaxDrawdownBps :: f64
  pm_TotalReturnBps :: f64
  pm_MeanPeriodBps :: f64
  pm_PeriodsPerYear :: f64

definition portfolio_label :: "string \<Rightarrow> string \<Rightarrow> label \<Rightarrow> bool" where
  "portfolio_label horizon policy l \<longleftrightarrow>
     lb_Horizon l = horizon \<and>
     (if policy = '''' \<or> policy = ''candidate'' then lb_Policy l = '''' \<or> lb_Policy l = ''candidate''
      else lb_Policy l = policy) \<and>
     lb_AfterCostReturnBps l \<noteq> NaN"

definition add_bucket :: "(int, f64 \<times> nat) gomap \<Rightarrow> label \<Rightarrow> (int, f64 \<times> nat) gomap" where
  "add_bucket byT l =
     (let key = Unix (lb_DecisionTime l); (s, n) = get_or (0, 0) byT key
      in go_put key (s + lb_AfterCostReturnBps l, n + 1) byT)"

definition equity_step :: "f64 \<times> f64 \<times> f64 \<Rightarrow> f64 \<Rightarrow> f64 \<times> f64 \<times> f64" where
  \<comment> \<open>(equity, peak, maxDD)\<close>
  "equity_step st r =
     (let (equity, peak, maxDD) = st;
          equity = equity + r;
          peak = (if equity > peak then equity else peak);
          dd = peak - equity
      in (equity, peak, (if dd > maxDD then dd else maxDD)))"

definition period_returns :: "label list \<Rightarrow> f64 list" where
  "period_returns labels =
     (let byT = foldl add_bucket [] labels
      in map (\<lambda>t. case get_or (0, 0) byT t of (s, n) \<Rightarrow> s / of_len n) (sort_by (<) (go_keys byT)))"

definition BuildPortfolioMetrics :: "label list \<Rightarrow> string \<Rightarrow> string \<Rightarrow> f64 \<Rightarrow> portfolio_metrics" where
  "BuildPortfolioMetrics labels horizon policy periodsPerYear =
     (let ppy = (if periodsPerYear \<le> 0 then 8760 else periodsPerYear);
          rets = period_returns (filter (portfolio_label horizon policy) labels);
          out = \<lparr>pm_Horizon = horizon, pm_NPeriods = 0, pm_Sharpe = 0, pm_MaxDrawdownBps = 0, pm_TotalReturnBps = 0,
                 pm_MeanPeriodBps = 0, pm_PeriodsPerYear = ppy\<rparr>
      in if rets = [] then out
         else
           let total = fsum rets;
               (_, _, maxDD) = foldl equity_step (0, 0, 0) rets;
               mean = total / of_len (length rets);
               ss = fsum (map (\<lambda>r. (r - mean) * (r - mean)) rets);
               stdev = (if length rets > 1 then math_Sqrt (ss / of_len (length rets - 1)) else 0)
           in out\<lparr>pm_NPeriods := int (length rets), pm_TotalReturnBps := total, pm_MaxDrawdownBps := maxDD,
                  pm_MeanPeriodBps := mean,
                  pm_Sharpe := (if stdev > Fin (1 / 10 ^ 12) then mean / stdev * math_Sqrt ppy else 0)\<rparr>)"

definition TTRBucket :: "f64 \<Rightarrow> string" where
  "TTRBucket ttrHours = (if ttrHours < 24 then ''near'' else if ttrHours < 168 then ''mid'' else ''far'')"

definition RequiredBaselines :: "string list" where
  "RequiredBaselines = [''volume_top_n'', ''activity_stage1'', ''random_board'']"

record eval_metrics =
  em_N :: int
  em_Overall :: horizon_metrics
  em_ByStratum :: "(string, horizon_metrics) gomap"
  em_ByHorizon :: "(string, horizon_metrics) gomap"
  em_Portfolio :: "portfolio_metrics option"
  em_Baselines :: "(string, horizon_metrics) gomap option"   \<comment> \<open>None is the nil map\<close>
  em_DeltaVsBaselines :: "(string, f64) gomap"
  em_PrimaryHorizon :: string

definition filterPolicy :: "label list \<Rightarrow> string \<Rightarrow> bool \<Rightarrow> label list" where
  "filterPolicy labels policy allowEmpty =
     filter (\<lambda>l. lb_Policy l = policy \<or> allowEmpty \<and> lb_Policy l = '''') labels"

definition group_labels :: "(label \<Rightarrow> string) \<Rightarrow> label list \<Rightarrow> (string, label list) gomap" where
  "group_labels key ls = foldl (\<lambda>m l. go_put (key l) (get_or [] m (key l) @ [l]) m) [] ls"

definition or_text :: "string \<Rightarrow> string \<Rightarrow> string" where
  "or_text dflt s = (if s = '''' then dflt else s)"

definition stratum_keys :: "(label \<Rightarrow> string) list" where
  "stratum_keys =
     [\<lambda>l. ''category='' @ or_text ''unknown'' (lb_Category l),
      \<lambda>l. if lb_NegRisk l then ''neg_risk=true'' else ''neg_risk=false'',
      \<lambda>l. ''fv_source='' @ or_text ''none'' (lb_FVSource l),
      \<lambda>l. ''ttr_bucket='' @ or_text ''unknown'' (lb_TTRBucket l)]"

definition put_all :: "('k, 'v) gomap \<Rightarrow> ('k \<times> 'v) list \<Rightarrow> ('k, 'v) gomap" where
  "put_all m kvs = foldl (\<lambda>m (k, v). go_put k v m) m kvs"

definition BuildMetrics :: "label list \<Rightarrow> string \<Rightarrow> eval_metrics" where
  "BuildMetrics labels primaryHorizon =
     (let ph = (if primaryHorizon = '''' then ''1h'' else primaryHorizon);
          horizons = remdups (filter (\<lambda>h. h \<noteq> '''') (map lb_Horizon labels));
          byH = put_all [] (map (\<lambda>h. (h, AggregateLabels
                  (filterPolicy (filter (\<lambda>l. lb_Horizon l = h) labels) ''candidate'' True))) horizons);
          primary = filter (\<lambda>l. lb_Horizon l = ph) labels;
          cand = filterPolicy primary ''candidate'' True;
          overall = AggregateLabels cand;
          port = BuildPortfolioMetrics labels ph ''candidate'' 0;
          overall' = overall\<lparr>hm_MaxDrawdownBps := pm_MaxDrawdownBps port\<rparr>;
          bases = map (\<lambda>b. (b, AggregateLabels (filterPolicy primary b False))) RequiredBaselines;
          strata = concat (map (\<lambda>key. map (\<lambda>(k, ls). (k, AggregateLabels ls)) (group_labels key cand)) stratum_keys)
      in \<lparr>em_N = hm_N overall, em_Overall = overall', em_ByStratum = put_all [] strata, em_ByHorizon = byH,
          em_Portfolio = Some port, em_Baselines = Some (put_all [] bases),
          em_DeltaVsBaselines = put_all [] (map (\<lambda>(b, h). (b, hm_AfterCostReturnBps overall' - hm_AfterCostReturnBps h)) bases),
          em_PrimaryHorizon = ph\<rparr>)"

section \<open>The configuration\<close>

definition SelectionBoard :: string where "SelectionBoard = ''board_at_t''"
definition SelectionStage1 :: string where "SelectionStage1 = ''stage1_at_t''"
definition SelectionPool :: string where "SelectionPool = ''pool_at_t''"
definition SchemaVersion :: string where "SchemaVersion = ''1.0''"
definition DefaultHorizons :: "string list" where "DefaultHorizons = [''5m'', ''1h'', ''1d'']"
definition DefaultMinSample :: int where "DefaultMinSample = 50"

definition RequiredStrata :: "string list" where
  "RequiredStrata = [''overall'', ''by_category'', ''by_neg_risk'', ''by_fv_source'', ''by_ttr_bucket'']"

definition ForbiddenFeatureNames :: "string list" where
  "ForbiddenFeatureNames =
     [''computed_score'', ''ComputedScore'', ''stage1_score'', ''score'', ''edge_bps'', ''model_edge_bps'',
      ''opportunity_bps'', ''rank'', ''board_rank'']"

definition ForbiddenFeaturePrefixes :: "string list" where
  "ForbiddenFeaturePrefixes = [''score_'', ''rank_'', ''edge_bps_'']"

record label_yaml =
  ly_PointInTime :: bool
  ly_AsOfField :: string
  ly_NoFutureInFeatures :: bool
  ly_ResolvedHandling :: string

record gates_yaml =
  gy_MinSample :: int
  gy_RequireBeatsVolume :: bool
  gy_RequireBeatsActivity :: bool
  gy_MinDeltaVsBaselineBps :: f64

record eval_config =
  ec_SchemaVersion :: string
  ec_PrimaryHorizon :: string
  ec_Horizons :: "string list"
  ec_DefaultSelectionSet :: string
  ec_ActionModel :: string
  ec_LabelProtocol :: label_yaml
  ec_FillModel :: fill_model
  ec_Gates :: gates_yaml
  ec_RequiredBaselines :: "string list"
  ec_RequiredStrata :: "string list"
  ec_ForbiddenFeatures :: "string list"

definition DefaultConfig :: eval_config where
  "DefaultConfig =
     \<lparr>ec_SchemaVersion = SchemaVersion, ec_PrimaryHorizon = ''1h'', ec_Horizons = DefaultHorizons,
      ec_DefaultSelectionSet = SelectionBoard, ec_ActionModel = ActionSignFromEdge,
      ec_LabelProtocol = \<lparr>ly_PointInTime = True, ly_AsOfField = ''features_asof'', ly_NoFutureInFeatures = True,
        ly_ResolvedHandling = ''drop_if_resolved_before_horizon''\<rparr>,
      ec_FillModel = \<lparr>fm_Name = ''mid_fee_slip'', fm_Entry = ''mid'', fm_FeeBps = 10, fm_SlipBps = 5,
        fm_IncludeSpread = True, fm_Notes = ''Simple honest fill; VWAP/partials later''\<rparr>,
      ec_Gates = \<lparr>gy_MinSample = DefaultMinSample, gy_RequireBeatsVolume = True, gy_RequireBeatsActivity = True,
        gy_MinDeltaVsBaselineBps = 0\<rparr>,
      ec_RequiredBaselines = RequiredBaselines, ec_RequiredStrata = RequiredStrata,
      ec_ForbiddenFeatures = ForbiddenFeatureNames\<rparr>"

definition LoadConfig :: "(string \<Rightarrow> string option) \<Rightarrow> (string \<Rightarrow> eval_config \<Rightarrow> eval_config option) \<Rightarrow> string \<Rightarrow> eval_config option" where
  \<comment> \<open>reading a file and decoding YAML over the defaults are arguments\<close>
  "LoadConfig readfile yaml path =
     (if path = '''' then Some DefaultConfig
      else case readfile path of
        None \<Rightarrow> None
      | Some b \<Rightarrow>
          map_option (\<lambda>cfg. cfg\<lparr>ec_PrimaryHorizon := or_text ''1h'' (ec_PrimaryHorizon cfg),
              ec_Horizons := (if ec_Horizons cfg = [] then DefaultHorizons else ec_Horizons cfg),
              ec_DefaultSelectionSet := or_text SelectionBoard (ec_DefaultSelectionSet cfg),
              ec_ActionModel := or_text ActionSignFromEdge (ec_ActionModel cfg),
              ec_Gates := (if gy_MinSample (ec_Gates cfg) \<le> 0
                           then (ec_Gates cfg)\<lparr>gy_MinSample := DefaultMinSample\<rparr> else ec_Gates cfg)\<rparr>)
            (yaml b DefaultConfig))"

definition ParseHorizon :: "(string \<Rightarrow> duration option) \<Rightarrow> string \<Rightarrow> duration option" where
  "ParseHorizon pd h =
     (if h = ''5m'' then Some (5 * minute) else if h = ''1h'' then Some hour else if h = ''1d'' then Some (24 * hour)
      else pd h)"

section \<open>The backtest\<close>

record market_point =
  mp_ConditionID :: string
  mp_TokenID :: string
  mp_Category :: string
  mp_NegRisk :: bool
  mp_NegRiskGroupID :: string
  mp_RelatedLegs :: "string list"
  mp_Mid :: f64
  mp_HalfSpreadBps :: f64
  mp_CostApprox :: bool
  mp_VolumeProxy :: f64
  mp_ActivityProxy :: f64
  mp_TTRHours :: f64
  mp_EndTime :: gotime
  mp_FVSource :: string
  mp_EdgeBpsAtT :: f64
  mp_EntryCostBps :: f64
  mp_Features :: feature_vector
  mp_GroupMids :: "(string, f64) gomap"

definition zero_market :: market_point where
  "zero_market = \<lparr>mp_ConditionID = '''', mp_TokenID = '''', mp_Category = '''', mp_NegRisk = False,
     mp_NegRiskGroupID = '''', mp_RelatedLegs = [], mp_Mid = 0, mp_HalfSpreadBps = 0, mp_CostApprox = False,
     mp_VolumeProxy = 0, mp_ActivityProxy = 0, mp_TTRHours = 0, mp_EndTime = 0, mp_FVSource = '''', mp_EdgeBpsAtT = 0,
     mp_EntryCostBps = 0, mp_Features = zero_features, mp_GroupMids = []\<rparr>"

record backtest_config =
  bt_Cfg :: eval_config
  bt_BoardN :: int
  bt_UniverseCap :: int
  bt_Lookback :: duration
  bt_Bucket :: duration
  bt_Stride :: int
  bt_End :: gotime
  bt_Weights :: weights
  bt_ActionModel :: string

definition DefaultBacktestConfig :: backtest_config where
  "DefaultBacktestConfig =
     \<lparr>bt_Cfg = DefaultConfig, bt_BoardN = 50, bt_UniverseCap = 500, bt_Lookback = 30 * 24 * hour, bt_Bucket = hour,
      bt_Stride = 2, bt_End = 0, bt_Weights = DefaultWeights, bt_ActionModel = ''''\<rparr>"

definition DecisionTimes :: "gotime \<Rightarrow> backtest_config \<Rightarrow> duration \<Rightarrow> gotime list" where
  "DecisionTimes now bc maxHorizon =
     (let end_t = (if IsZero (bt_End bc) then now else bt_End bc);
          end_t = time_Add end_t (- maxHorizon);
          start = time_Add end_t (- bt_Lookback bc);
          bucket = (if bt_Bucket bc \<le> 0 then hour else bt_Bucket bc);
          stride = (if bt_Stride bc \<le> 0 then 1 else bt_Stride bc);
          t = Truncate start bucket;
          t = (if t < start then time_Add t bucket else t)
      in map snd (filter (\<lambda>(i, _). int i mod stride = 0) (enumerate 0 (grid_loop t end_t bucket))))"

definition MaxHorizonDuration :: "(string \<Rightarrow> duration option) \<Rightarrow> eval_config \<Rightarrow> duration" where
  "MaxHorizonDuration pd cfg =
     (let mx = foldl (\<lambda>mx h. case ParseHorizon pd h of None \<Rightarrow> mx | Some d \<Rightarrow> if d > mx then d else mx) 0 (ec_Horizons cfg)
      in if mx = 0 then 24 * hour else mx)"

record snapshot_at_t =
  sp_T :: gotime
  sp_Markets :: "market_point list"

record board_select_stats =
  bq_WithBook :: int
  bq_FVHits :: int
  bq_BoardN :: int
  bq_UniverseWithBook :: int
  bq_BoardWithBook :: int
  bq_UniverseN :: int
  bq_ExtremeDropped :: int

definition no_select_stats :: board_select_stats where
  "no_select_stats = \<lparr>bq_WithBook = 0, bq_FVHits = 0, bq_BoardN = 0, bq_UniverseWithBook = 0, bq_BoardWithBook = 0, bq_UniverseN = 0,
     bq_ExtremeDropped = 0\<rparr>"

definition candidate_of :: "market_point \<Rightarrow> board_candidate" where
  "candidate_of m =
     \<lparr>bc_Features = mp_Features m, bc_GroupMids = mp_GroupMids m, bc_KnownGroupSize = int (length (mp_GroupMids m)),
      bc_NegRiskFeeBips = 0, bc_TakerFeeBps = 0, bc_TieBreak = mp_VolumeProxy m\<rparr>"

definition ranked_point :: "(string, market_point) gomap \<Rightarrow> board_result \<Rightarrow> market_point" where
  "ranked_point byTok r =
     (let m = get_or zero_market byTok (fv_TokenID (bc_Features (br_Candidate r)));
          res = br_Result r;
          m = m\<lparr>mp_EdgeBpsAtT := sr_EdgeBps res, mp_EntryCostBps := cb_TotalCostBps (sr_Cost res)\<rparr>
      in if sr_FVSource res \<noteq> '''' then m\<lparr>mp_FVSource := sr_FVSource res\<rparr>
         else if sr_Path res \<noteq> '''' then m\<lparr>mp_FVSource := sr_Path res\<rparr> else m)"

definition selectCandidateBoard :: "market_point list \<Rightarrow> int \<Rightarrow> weights \<Rightarrow> market_point list \<times> board_select_stats" where
  "selectCandidateBoard universe n w =
     (let byTok = foldl (\<lambda>bt m. go_put (mp_TokenID m) m bt) [] universe;
          ranked = SelectBoard (map candidate_of universe) w n
      in (map (ranked_point byTok) ranked,
          no_select_stats\<lparr>
            bq_WithBook := int (length (filter (\<lambda>m. \<not> fv_MissingBook (mp_Features m)) universe)),
            bq_UniverseWithBook := int (length (filter (\<lambda>m. \<not> fv_MissingBook (mp_Features m)) universe)),
            bq_ExtremeDropped := (if wt_DropExtremePrice w
              then int (length (filter (\<lambda>m. \<not> fv_MissingBook (mp_Features m) \<and>
                     IsExtremeMid (fv_Mid (mp_Features m)) (wt_ExtremeLo w) (wt_ExtremeHi w)) universe)) else 0),
            bq_FVHits := int (length (filter (\<lambda>r. sr_FVSource (br_Result r) \<noteq> '''') ranked)),
            bq_BoardWithBook := int (length (filter (\<lambda>r. cb_HasBook (sr_Cost (br_Result r)) \<or>
                     \<not> fv_MissingBook (bc_Features (br_Candidate r))) ranked))\<rparr>))"

definition topN :: "market_point list \<Rightarrow> int \<Rightarrow> (market_point \<Rightarrow> f64) \<Rightarrow> market_point list" where
  "topN universe n score =
     (let arr = sort_by (\<lambda>a b. score a > score b) universe;
          n = (if n > int (length arr) then int (length arr) else n)
      in take (nat n) arr)"

definition randomN :: "(market_point list \<Rightarrow> market_point list) \<Rightarrow> market_point list \<Rightarrow> int \<Rightarrow> market_point list" where
  "randomN shuf universe n =
     (let cp = shuf universe; n = (if n > int (length cp) then int (length cp) else n) in take (nat n) cp)"

definition cost_at :: "weights \<Rightarrow> market_point \<Rightarrow> fill_params" where
  "cost_at w m =
     FillParamsFromCost (ComputeCost
       \<lparr>ci_BestBid = fv_BestBid (mp_Features m), ci_BestAsk = fv_BestAsk (mp_Features m),
        ci_BidDepth = fv_BidDepth (mp_Features m), ci_AskDepth = fv_AskDepth (mp_Features m), ci_Levels = [],
        ci_SizeUSD = wt_ProbeSizeUSD w, ci_TakerFeeBps = wt_DefaultTakerFeeBps w, ci_NegRiskFeeBps = 0,
        ci_ImpactCapBps = wt_ImpactCapBps w, ci_ImpactCoeff = wt_ImpactCoeff w\<rparr>)"

definition label_cost :: "weights \<Rightarrow> string \<Rightarrow> market_point \<Rightarrow> fill_params" where
  "label_cost w policy m =
     (if policy = ''candidate'' \<and> \<not> feq (mp_EntryCostBps m) 0
      then \<lparr>fp_FeeBps = 0, fp_SlipBps = 0, fp_IncludeSpread = False, fp_HalfSpreadBps = 0, fp_ImpactBps = 0,
            fp_NegRiskFeeBps = 0, fp_TotalOverride = Some (mp_EntryCostBps m)\<rparr>
      else cost_at w m)"

definition horizon_label ::
  "(string \<Rightarrow> duration option) \<Rightarrow> weights \<Rightarrow> string \<Rightarrow> gotime \<Rightarrow> string \<Rightarrow> market_point \<Rightarrow> price_series \<Rightarrow> f64 \<Rightarrow>
   string \<Rightarrow> label option" where
  \<comment> \<open>the inner loop body, for one horizon\<close>
  "horizon_label pd w actionModel t policy m series midT hName =
     (case ParseHorizon pd hName of
        None \<Rightarrow> None
      | Some hz \<Rightarrow>
          let tH = time_Add t hz in
          if \<not> IsZero (mp_EndTime m) \<and> mp_EndTime m < tH then None
          else (case series_MidAsOf series tH of
                  None \<Rightarrow> None
                | Some midH \<Rightarrow>
                    if midH \<le> 0 then None
                    else
                      let fp = label_cost w policy m;
                          ac = (if policy = ''candidate''
                                then AfterCostReturnBpsAction midT midH fp actionModel (mp_EdgeBpsAtT m)
                                else AfterCostReturnBps midT midH fp)
                      in if ac = NaN then None
                         else Some \<lparr>lb_DecisionTime = t, lb_Horizon = hName, lb_ConditionID = mp_ConditionID m,
                                lb_SelectionSet = SelectionBoard, lb_Hit = Hit ac, lb_AfterCostReturnBps = ac,
                                lb_Category = mp_Category m, lb_NegRisk = mp_NegRisk m,
                                lb_FVSource = or_text ''none'' (mp_FVSource m), lb_TTRBucket = TTRBucket (mp_TTRHours m),
                                lb_MidAtT = midT, lb_EdgeBpsAtT = mp_EdgeBpsAtT m, lb_Policy = policy\<rparr>))"

definition market_labels ::
  "(string \<Rightarrow> duration option) \<Rightarrow> weights \<Rightarrow> string \<Rightarrow> string list \<Rightarrow> (string, price_series) gomap \<Rightarrow> gotime \<Rightarrow> string \<Rightarrow>
   market_point \<Rightarrow> label list" where
  "market_labels pd w actionModel horizons prices t policy m =
     (if \<not> IsZero (mp_EndTime m) \<and> \<not> mp_EndTime m > t then []
      else case go_get prices (mp_TokenID m) of
        None \<Rightarrow> []
      | Some series \<Rightarrow>
          if mp_TokenID m = '''' then []
          else (case series_MidAsOf series t of
                  None \<Rightarrow> []
                | Some midT \<Rightarrow>
                    if midT \<le> 0 then []
                    else List.map_filter (horizon_label pd w actionModel t policy m series midT) horizons))"

definition capped_universe :: "int \<Rightarrow> market_point list \<Rightarrow> market_point list" where
  "capped_universe cap ms =
     (if int (length ms) > cap then take (nat cap) (sort_by (\<lambda>a b. mp_VolumeProxy a > mp_VolumeProxy b) ms) else ms)"

definition backtest_snap ::
  "(string \<Rightarrow> duration option) \<Rightarrow> (market_point list \<Rightarrow> market_point list) \<Rightarrow> weights \<Rightarrow> string \<Rightarrow> string list \<Rightarrow> int \<Rightarrow>
   int \<Rightarrow> (string, price_series) gomap \<Rightarrow> label list \<times> board_select_stats \<Rightarrow> snapshot_at_t \<Rightarrow>
   label list \<times> board_select_stats" where
  \<comment> \<open>one decision time\<close>
  "backtest_snap pd shuf w actionModel horizons boardN cap prices st snap =
     (let universe = capped_universe cap (sp_Markets snap); (labels, stats) = st in
      if universe = [] then st
      else
        let (cand, s) = selectCandidateBoard universe boardN w;
            vol = topN universe boardN mp_VolumeProxy;
            act = topN universe boardN mp_ActivityProxy;
            rnd = randomN shuf universe boardN;
            new = concat (map (\<lambda>(policy, ms).
                concat (map (market_labels pd w actionModel horizons prices (sp_T snap) policy) ms))
              [(''candidate'', cand), (''volume_top_n'', vol), (''activity_stage1'', act), (''random_board'', rnd)])
        in (labels @ new,
            stats\<lparr>bq_UniverseN := bq_UniverseN stats + int (length universe), bq_FVHits := bq_FVHits stats + bq_FVHits s,
                  bq_BoardN := bq_BoardN stats + int (length cand),
                  bq_WithBook := bq_WithBook stats + bq_UniverseWithBook s,
                  bq_UniverseWithBook := bq_UniverseWithBook stats + bq_UniverseWithBook s,
                  bq_BoardWithBook := bq_BoardWithBook stats + bq_BoardWithBook s\<rparr>))"

definition backtest_weights :: "backtest_config \<Rightarrow> weights" where
  "backtest_weights bc = (used_weights (bt_Weights bc))\<lparr>wt_DropMissingBook := False\<rparr>"

definition backtest_action :: "backtest_config \<Rightarrow> string" where
  "backtest_action bc = or_text ActionSignFromEdge (or_text (ec_ActionModel (bt_Cfg bc)) (bt_ActionModel bc))"

definition backtest_horizons :: "backtest_config \<Rightarrow> string list" where
  "backtest_horizons bc = (if ec_Horizons (bt_Cfg bc) = [] then DefaultHorizons else ec_Horizons (bt_Cfg bc))"

definition RunBacktest ::
  "(string \<Rightarrow> duration option) \<Rightarrow> (nat \<Rightarrow> market_point list \<Rightarrow> market_point list) \<Rightarrow> snapshot_at_t list \<Rightarrow>
   (string, price_series) gomap \<Rightarrow> backtest_config \<Rightarrow> label list \<times> board_select_stats" where
  \<comment> \<open>\<open>shuf i\<close> is the shuffle of the \<open>i\<close>th snapshot\<close>
  "RunBacktest pd shuf snaps prices bc =
     (let boardN = (if bt_BoardN bc \<le> 0 then 50 else bt_BoardN bc);
          cap = (if bt_UniverseCap bc \<le> 0 then 500 else bt_UniverseCap bc)
      in foldl (\<lambda>st (i, snap). backtest_snap pd (shuf i) (backtest_weights bc) (backtest_action bc) (backtest_horizons bc)
           boardN cap prices st snap) ([], no_select_stats) (enumerate 0 snaps))"

section \<open>Decision times\<close>

lemma grid_loop_mem: "x \<in> set (grid_loop t to step) \<Longrightarrow> t \<le> x \<and> x \<le> to \<and> step dvd x - t \<and> 0 < step"
proof (induction t to step rule: grid_loop.induct)
  case (1 t to step)
  have x: "x \<in> set (if step \<le> 0 \<or> to < t then [] else t # grid_loop (t + step) to step)"
    using "1.prems" by (subst (asm) grid_loop.simps)
  then have c: "\<not> (step \<le> 0 \<or> to < t)" by auto
  show ?case
  proof (cases "x = t")
    case True
    with c show ?thesis by simp
  next
    case False
    with x c have "x \<in> set (grid_loop (t + step) to step)" by simp
    from "1.IH" [OF c this] have "t + step \<le> x" "x \<le> to" "step dvd x - (t + step)" "0 < step" by blast+
    moreover have "step dvd x - t" using dvd_add [OF \<open>step dvd x - (t + step)\<close> dvd_refl [of step]] by simp
    ultimately show ?thesis by simp
  qed
qed

definition raise_max :: "('a \<Rightarrow> int option) \<Rightarrow> int \<Rightarrow> 'a \<Rightarrow> int" where
  "raise_max f mx h = (case f h of None \<Rightarrow> mx | Some d \<Rightarrow> if d > mx then d else mx)"

lemma raise_max_le: "mx \<le> raise_max f mx h" "f h = Some d \<Longrightarrow> d \<le> raise_max f mx h"
  by (auto simp: raise_max_def split: option.split)

lemma raise_max_fold:
  "mx \<le> foldl (raise_max f) mx hs \<and> (\<forall>h \<in> set hs. \<forall>d. f h = Some d \<longrightarrow> d \<le> foldl (raise_max f) mx hs)"
proof (induction hs arbitrary: mx)
  case (Cons h hs)
  note IH = Cons.IH [of "raise_max f mx h"]
  have "mx \<le> foldl (raise_max f) mx (h # hs)" using IH raise_max_le(1) [of mx f h] by simp
  moreover have "d \<le> foldl (raise_max f) mx (h # hs)" if "h' \<in> set (h # hs)" "f h' = Some d" for h' d
    using IH that raise_max_le(2) [of f h d mx] by (cases "h' = h") auto
  ultimately show ?case by blast
qed simp

lemma max_horizon: "h \<in> set (ec_Horizons cfg) \<Longrightarrow> ParseHorizon pd h = Some d \<Longrightarrow> d \<le> MaxHorizonDuration pd cfg"
  using raise_max_fold [of 0 "ParseHorizon pd" "ec_Horizons cfg"]
  by (fastforce simp: MaxHorizonDuration_def raise_max_def [abs_def] Let_def hour_def)

text \<open>the decision grid fits the data.  Every decision time lies on the bucket, within the lookback,
  and far enough before the end that the outcome of every configured horizon is inside the loaded window.\<close>

theorem decision_times_fit:
  assumes "t \<in> set (DecisionTimes now bc (MaxHorizonDuration pd cfg))"
    and "\<not> IsZero (bt_End bc)" and "0 < bt_Bucket bc"
    and "h \<in> set (ec_Horizons cfg)" and "ParseHorizon pd h = Some d"
  shows "bt_End bc - MaxHorizonDuration pd cfg - bt_Lookback bc \<le> t \<and> time_Add t d \<le> bt_End bc \<and> t mod bt_Bucket bc = 0"
proof -
  let ?mh = "MaxHorizonDuration pd cfg" and ?b = "bt_Bucket bc"
  let ?start = "bt_End bc - ?mh - bt_Lookback bc"
  let ?t0 = "Truncate ?start ?b"
  let ?t1 = "if ?t0 < ?start then ?t0 + ?b else ?t0"
  have "t \<in> set (grid_loop ?t1 (bt_End bc - ?mh) ?b)"
    using assms(1-3) by (auto simp: DecisionTimes_def Let_def time_Add_def in_set_enumerate_eq nth_mem)
  then have m: "?t1 \<le> t" "t \<le> bt_End bc - ?mh" "?b dvd t - ?t1" using grid_loop_mem by blast+
  have tr: "?t0 = ?start - ?start mod ?b" using assms(3) by (simp add: Truncate_def)
  have "?start \<le> ?t1" using tr pos_mod_bound [OF assms(3), of ?start] by (cases "?t0 < ?start") simp_all
  moreover have "?b dvd ?t1" using tr by (auto simp: minus_mod_eq_mult_div)
  then have "?b dvd t" using m(3) by (metis dvd_diff_right_iff dvd_add_right_iff diff_add_cancel)
  moreover have "d \<le> ?mh" by (rule max_horizon [OF assms(4,5)])
  ultimately show ?thesis using m by (auto simp: time_Add_def)
qed

definition demo_backtest :: backtest_config where
  "demo_backtest = DefaultBacktestConfig\<lparr>bt_End := 100 * 24 * hour, bt_Lookback := 2 * hour, bt_Stride := 1\<rparr>"

theorem decision_times_fit_witness:
  "time_Add (99 * 24 * hour) (24 * hour) \<le> bt_End demo_backtest"
proof -
  let ?pd = "\<lambda>h :: string. None :: duration option"
  have mh: "MaxHorizonDuration ?pd DefaultConfig = 24 * hour"
    by (simp add: MaxHorizonDuration_def DefaultConfig_def DefaultHorizons_def ParseHorizon_def hour_def minute_def)
  have "99 * 24 * hour \<in> set (DecisionTimes 0 demo_backtest (MaxHorizonDuration ?pd DefaultConfig))"
    unfolding mh by code_simp
  moreover have "\<not> IsZero (bt_End demo_backtest)" "0 < bt_Bucket demo_backtest"
    by (simp_all add: demo_backtest_def DefaultBacktestConfig_def IsZero_def hour_def)
  moreover have "''1d'' \<in> set (ec_Horizons DefaultConfig)" by (simp add: DefaultConfig_def DefaultHorizons_def)
  moreover have "ParseHorizon ?pd ''1d'' = Some (24 * hour)" by (simp add: ParseHorizon_def)
  ultimately show ?thesis using decision_times_fit by blast
qed

section \<open>Labels\<close>

lemma horizon_label_sound:
  assumes "horizon_label pd w am t policy m series midT hName = Some l"
  shows "lb_DecisionTime l = t \<and> lb_Horizon l = hName \<and> lb_Policy l = policy \<and> lb_ConditionID l = mp_ConditionID m \<and>
    lb_MidAtT l = midT \<and> lb_AfterCostReturnBps l \<noteq> NaN \<and> (lb_Hit l \<longleftrightarrow> lb_AfterCostReturnBps l > 0) \<and>
    (\<exists>d midH. ParseHorizon pd hName = Some d \<and> series_MidAsOf series (time_Add t d) = Some midH \<and> \<not> midH \<le> 0 \<and>
       (IsZero (mp_EndTime m) \<or> time_Add t d \<le> mp_EndTime m) \<and>
       lb_AfterCostReturnBps l =
         (if policy = ''candidate'' then AfterCostReturnBpsAction midT midH (label_cost w policy m) am (mp_EdgeBpsAtT m)
          else AfterCostReturnBps midT midH (label_cost w policy m)))"
  using assms by (auto simp: horizon_label_def Let_def Hit_def split: option.splits if_splits)

definition label_of ::
  "(string \<Rightarrow> duration option) \<Rightarrow> weights \<Rightarrow> string \<Rightarrow> (string, price_series) gomap \<Rightarrow> gotime \<Rightarrow> market_point \<Rightarrow> label \<Rightarrow> bool" where
  \<comment> \<open>the label is the outcome of the market at \<open>t\<close> over its horizon\<close>
  "label_of pd w am prices t m l \<longleftrightarrow>
     lb_DecisionTime l = t \<and> lb_ConditionID l = mp_ConditionID m \<and> (IsZero (mp_EndTime m) \<or> t < mp_EndTime m) \<and>
     lb_AfterCostReturnBps l \<noteq> NaN \<and> (lb_Hit l \<longleftrightarrow> lb_AfterCostReturnBps l > 0) \<and>
     (\<exists>series d midH. go_get prices (mp_TokenID m) = Some series \<and> ParseHorizon pd (lb_Horizon l) = Some d \<and>
        series_MidAsOf series t = Some (lb_MidAtT l) \<and> series_MidAsOf series (time_Add t d) = Some midH \<and>
        (IsZero (mp_EndTime m) \<or> time_Add t d \<le> mp_EndTime m) \<and>
        lb_AfterCostReturnBps l =
          (if lb_Policy l = ''candidate''
           then AfterCostReturnBpsAction (lb_MidAtT l) midH (label_cost w (lb_Policy l) m) am (mp_EdgeBpsAtT m)
           else AfterCostReturnBps (lb_MidAtT l) midH (label_cost w (lb_Policy l) m)))"

lemma map_filter_mem: "y \<in> set (List.map_filter f xs) \<longleftrightarrow> (\<exists>x \<in> set xs. f x = Some y)"
  by (induction xs) (auto simp: List.map_filter_simps split: option.splits)

lemma market_labels_sound:
  "l \<in> set (market_labels pd w am hs prices t policy m) \<Longrightarrow>
   label_of pd w am prices t m l \<and> lb_Policy l = policy \<and> lb_Horizon l \<in> set hs"
proof -
  assume l: "l \<in> set (market_labels pd w am hs prices t policy m)"
  then obtain series midT h where s: "go_get prices (mp_TokenID m) = Some series" "series_MidAsOf series t = Some midT"
    "h \<in> set hs" "horizon_label pd w am t policy m series midT h = Some l" "IsZero (mp_EndTime m) \<or> t < mp_EndTime m"
    by (auto simp: market_labels_def map_filter_mem split: option.splits if_splits)
  from horizon_label_sound [OF s(4)] s show ?thesis unfolding label_of_def by auto
qed

definition same_market :: "market_point \<Rightarrow> market_point \<Rightarrow> bool" where
  \<comment> \<open>the ranked copy of a market differs from it in the edge, the cost and the fair-value source only\<close>
  "same_market m m0 \<longleftrightarrow>
     m = m0\<lparr>mp_EdgeBpsAtT := mp_EdgeBpsAtT m, mp_EntryCostBps := mp_EntryCostBps m, mp_FVSource := mp_FVSource m\<rparr>"

lemma same_market_refl [simp]: "same_market m m" by (simp add: same_market_def)

lemma same_market_ranked:
  "same_market (ranked_point bt r) (get_or zero_market bt (fv_TokenID (bc_Features (br_Candidate r))))"
  by (simp add: same_market_def ranked_point_def Let_def)

lemma topN_mem: "m \<in> set (topN u n f) \<Longrightarrow> m \<in> set u"
  by (auto simp: topN_def Let_def dest!: in_set_takeD)

lemma randomN_mem: "m \<in> set (randomN shuf u n) \<Longrightarrow> m \<in> set (shuf u)"
  by (auto simp: randomN_def Let_def dest!: in_set_takeD)

lemma capped_mem: "m \<in> set (capped_universe cap u) \<Longrightarrow> m \<in> set u"
  by (auto simp: capped_universe_def dest!: in_set_takeD split: if_splits)

lemma by_token_mem:
  fixes bt :: "(string, market_point) gomap"
  shows "go_get (foldl (\<lambda>bt m. go_put (mp_TokenID m) m bt) bt ms) tok = Some m \<Longrightarrow> go_get bt tok = Some m \<or> m \<in> set ms"
proof (induction ms arbitrary: bt)
  case (Cons a ms)
  from Cons.IH [of "go_put (mp_TokenID a) a bt"] Cons.prems show ?case by (auto simp: update_conv' split: if_splits)
qed simp

lemma zero_market_silent: "same_market m zero_market \<Longrightarrow> market_labels pd w am hs prices t policy m = []"
  by (cases m) (auto simp: same_market_def zero_market_def market_labels_def split: option.splits)

lemma candidate_source:
  assumes "m \<in> set (fst (selectCandidateBoard u n w))"
  shows "\<exists>m0. same_market m m0 \<and> (m0 \<in> set u \<or> m0 = zero_market)"
proof -
  let ?bt = "foldl (\<lambda>bt m. go_put (mp_TokenID m) m bt) ([] :: (string, market_point) gomap) u"
  from assms obtain r where m: "m = ranked_point ?bt r" by (auto simp: selectCandidateBoard_def Let_def)
  let ?m0 = "get_or zero_market ?bt (fv_TokenID (bc_Features (br_Candidate r)))"
  have "?m0 \<in> set u \<or> ?m0 = zero_market"
    using by_token_mem [of "[]" u] by (auto simp: get_or_def split: option.splits)
  then show ?thesis using same_market_ranked m by blast
qed

definition label_from ::
  "(string \<Rightarrow> duration option) \<Rightarrow> weights \<Rightarrow> string \<Rightarrow> string list \<Rightarrow> (string, price_series) gomap \<Rightarrow> snapshot_at_t \<Rightarrow> label \<Rightarrow> bool" where
  \<comment> \<open>the label is the outcome of a market of the snapshot\<close>
  "label_from pd w am hs prices snap l \<longleftrightarrow>
     lb_Horizon l \<in> set hs \<and>
     (\<exists>m0 \<in> set (sp_Markets snap). \<exists>m. same_market m m0 \<and> (lb_Policy l \<noteq> ''candidate'' \<longrightarrow> m = m0) \<and>
        label_of pd w am prices (sp_T snap) m l)"

lemma backtest_snap_labels:
  assumes "l \<in> set (fst (backtest_snap pd shuf w am hs n cap prices st snap))"
    and shuf: "\<And>ms. set (shuf ms) = set ms"
  shows "l \<in> set (fst st) \<or> label_from pd w am hs prices snap l"
proof (cases "l \<in> set (fst st)")
  case False
  let ?u = "capped_universe cap (sp_Markets snap)"
  from assms(1) False obtain p m where m: "l \<in> set (market_labels pd w am hs prices (sp_T snap) p m)"
    "p = ''candidate'' \<and> m \<in> set (fst (selectCandidateBoard ?u n w)) \<or>
     p \<noteq> ''candidate'' \<and> (m \<in> set (topN ?u n mp_VolumeProxy) \<or> m \<in> set (topN ?u n mp_ActivityProxy) \<or> m \<in> set (randomN shuf ?u n))"
    by (auto simp: backtest_snap_def Let_def case_prod_unfold split: if_splits)
  from market_labels_sound [OF m(1)] have l: "label_of pd w am prices (sp_T snap) m l" "lb_Policy l = p" "lb_Horizon l \<in> set hs"
    by auto
  have "\<exists>m0 \<in> set ?u. same_market m m0 \<and> (p \<noteq> ''candidate'' \<longrightarrow> m = m0)"
    using m(2)
  proof (elim disjE conjE)
    assume "m \<in> set (fst (selectCandidateBoard ?u n w))" "p = ''candidate''"
    with candidate_source zero_market_silent m(1) show ?thesis by fastforce
  qed (use topN_mem randomN_mem shuf in fastforce)+
  then show ?thesis using l capped_mem unfolding label_from_def by blast
qed simp

lemma RunBacktest_labels:
  assumes "l \<in> set (fst (foldl (\<lambda>st (i, snap). backtest_snap pd (shuf i) w am hs n cap prices st snap) st isnaps))"
    and shuf: "\<And>i ms. set (shuf i ms) = set ms"
  shows "l \<in> set (fst st) \<or> (\<exists>(i, snap) \<in> set isnaps. label_from pd w am hs prices snap l)"
  using assms(1)
proof (induction isnaps arbitrary: st)
  case (Cons x isnaps)
  obtain i snap where x: "x = (i, snap)" by fastforce
  from Cons.prems x have "l \<in> set (fst (foldl (\<lambda>st (i, snap). backtest_snap pd (shuf i) w am hs n cap prices st snap)
      (backtest_snap pd (shuf i) w am hs n cap prices st snap) isnaps))" by simp
  from Cons.IH [OF this] show ?case
  proof (elim disjE)
    assume "l \<in> set (fst (backtest_snap pd (shuf i) w am hs n cap prices st snap))"
    from backtest_snap_labels [OF this shuf] show ?case unfolding x by auto
  qed auto
qed simp


definition demo_market :: market_point where
  "demo_market = zero_market\<lparr>mp_ConditionID := ''c'', mp_TokenID := ''t''\<rparr>"

definition demo_prices :: "(string, price_series) gomap" where
  "demo_prices = [(''t'', \<lparr>ps_TokenID = ''t'', ps_Times = [hour, 2 * hour], ps_Prices = [Fin (1 / 2), Fin (6 / 10)]\<rparr>)]"

definition demo_bc :: backtest_config where
  "demo_bc = DefaultBacktestConfig\<lparr>bt_Cfg := DefaultConfig\<lparr>ec_Horizons := [''1h'']\<rparr>\<rparr>"

definition demo_run :: "label list" where
  "demo_run = fst (RunBacktest (\<lambda>h. None) (\<lambda>i ms. ms) [\<lparr>sp_T = hour, sp_Markets = [demo_market]\<rparr>] demo_prices demo_bc)"

lemma demo_run_label: "market_labels (\<lambda>h. None) (backtest_weights demo_bc) (backtest_action demo_bc) [''1h''] demo_prices hour ''volume_top_n'' demo_market \<noteq> []"
  by (simp add: market_labels_def List.map_filter_simps demo_prices_def horizon_label_def ParseHorizon_def Let_def demo_market_def zero_market_def IsZero_def time_Add_def
        series_MidAsOf_def indexAtOrBefore_def at_or_before_def sort_Search_def bisect.simps hour_def minute_def zero_f64_def
        label_cost_def cost_at_def ComputeCost_def zero_features_def FillParamsFromCost_def AfterCostReturnBps_def
        TotalCostBps_def RawMoveBps_def backtest_weights_def demo_bc_def DefaultBacktestConfig_def used_weights_def DefaultWeights_def numeral_f64)


lemma snap_volume_labels:
  assumes "m \<in> set (topN (capped_universe cap (sp_Markets snap)) n mp_VolumeProxy)"
  shows "set (market_labels pd w am hs prices (sp_T snap) ''volume_top_n'' m)
    \<subseteq> set (fst (backtest_snap pd shuf w am hs n cap prices st snap))"
  using assms topN_mem [OF assms] by (auto simp: backtest_snap_def Let_def case_prod_unfold)

lemma topN_single: "topN [m] 50 f = [m]"
  by (simp add: topN_def Let_def sort_by_def)


end
