(* ===== verification/Eval_Surface.thy ===== *)
theory Eval_Surface
  imports Eval_Labels Strategy_Reg Go_Text
begin

text \<open>
  \<open>internal/eval\<close>, the verdict: the forbidden-feature check (\<open>protocol.go\<close>), the evaluation surface and its gates
  (\<open>surface.go\<close>), the surface scaffold (\<open>engine.go\<close>) and its completion (\<open>artifact.go\<close>).  A gate detail is a
  constructor holding the numbers and names its text prints.  Parsing a time, and the status words of the
  \<open>artifacts\<close> package (outside the sources), are arguments.
  Lemmas: the verdict is exactly the conjunction the protocol asks for; every gate is reported once; what the gates cannot
  see; and a promotion that the registry admits rests on a surface that passed all of them.
\<close>

section \<open>Forbidden features\<close>

definition has_prefix :: "string \<Rightarrow> string \<Rightarrow> bool" where
  "has_prefix s p \<longleftrightarrow> take (length p) s = p"

definition IsForbiddenFeature :: "string \<Rightarrow> bool" where
  "IsForbiddenFeature name =
     (let n = TrimSpace name; lower = ToLower n in
      if n = '''' then False
      else if \<exists>f \<in> set ForbiddenFeatureNames. lower = ToLower f then True
      else \<exists>p \<in> set ForbiddenFeaturePrefixes. has_prefix lower (ToLower p))"

definition forbidden_step :: "string list \<Rightarrow> string \<Rightarrow> string list" where
  \<comment> \<open>\<open>seen\<close> holds the names already in \<open>bad\<close>\<close>
  "forbidden_step bad n = (if IsForbiddenFeature n \<and> n \<notin> set bad then bad @ [n] else bad)"

definition CheckForbiddenFeatures :: "string list \<Rightarrow> string list" where
  "CheckForbiddenFeatures names = foldl forbidden_step [] names"

section \<open>The surface\<close>

record error_item =
  ei_Code :: string
  ei_Message :: string
  ei_Component :: string

record label_protocol =
  lp_PointInTime :: bool
  lp_AsOfField :: string
  lp_Horizons :: "string list"
  lp_NoFutureInFeatures :: bool
  lp_ResolvedHandling :: string

record data_quality =
  dq_PriceSourceMix :: "(string, int) gomap"
  dq_BookSourceMix :: "(string, int) gomap"
  dq_SynthPriceShare :: f64
  dq_SynthBookShare :: f64
  dq_FillMode :: string
  dq_SynthMaxGap :: duration
  dq_SynthHoldMax :: duration
  dq_Warning :: synth_warning
  dq_SignificantSynth :: bool
  dq_BlockPromote :: bool

datatype gate_detail =
    Words string
  | ForbiddenNames "string list"
  | WeakFill string
  | SampleIs int
  | SampleBelow int int
  | StrataCount nat
  | FewStrata
  | MissingBaselines "string list"
  | DeltaIs f64
  | DeltaNotAbove f64 f64
  | ParityNeeds string
  | Warned synth_warning
  | SynthUnder f64 f64
  | AfterCostIs f64
  | Held bool f64 string int bool

record eval_surface =
  sf_SchemaVersion :: string
  sf_PipelineVersion :: string
  sf_RunID :: string
  sf_GeneratedAt :: string
  sf_CodeCommit :: string
  sf_Status :: string
  sf_Errors :: "error_item list"
  sf_OK :: bool
  sf_GatesPassed :: "string list"
  sf_GatesFailed :: "string list"
  sf_GateDetails :: "(string, gate_detail) gomap"
  sf_StrategyVersionID :: "int option"
  sf_StrategyName :: string
  sf_PolicyID :: string
  sf_PolicyParity :: string
  sf_WeightsHash :: string
  sf_WeightsPath :: string
  sf_BookCoverage :: f64
  sf_BookCoverageBoard :: f64
  sf_BookCoverageUniverse :: f64
  sf_FVCoverage :: f64
  sf_SelectionSet :: string
  sf_Horizons :: "string list"
  sf_LabelProtocol :: label_protocol
  sf_FillModel :: fill_model
  sf_Metrics :: eval_metrics
  sf_ActionModel :: string
  sf_FeatureNames :: "string list"
  sf_PromoteEligible :: bool
  sf_DataQuality :: "data_quality option"

record gate_config =
  gc_MinSample :: int
  gc_RequireBeatsVolume :: bool
  gc_RequireBeatsActivity :: bool
  gc_MinDeltaVsBaselineBps :: f64
  gc_PrimaryHorizon :: string

definition DefaultGateConfig :: gate_config where
  "DefaultGateConfig = \<lparr>gc_MinSample = DefaultMinSample, gc_RequireBeatsVolume = True, gc_RequireBeatsActivity = True,
     gc_MinDeltaVsBaselineBps = 0, gc_PrimaryHorizon = ''1h''\<rparr>"

definition GateConfig :: "eval_config \<Rightarrow> gate_config" where
  "GateConfig c =
     \<lparr>gc_MinSample = gy_MinSample (ec_Gates c), gc_RequireBeatsVolume = gy_RequireBeatsVolume (ec_Gates c),
      gc_RequireBeatsActivity = gy_RequireBeatsActivity (ec_Gates c),
      gc_MinDeltaVsBaselineBps = gy_MinDeltaVsBaselineBps (ec_Gates c), gc_PrimaryHorizon = ec_PrimaryHorizon c\<rparr>"

definition ToFillModel :: "eval_config \<Rightarrow> fill_model" where
  "ToFillModel c = ec_FillModel c"

definition ToLabelProtocol :: "eval_config \<Rightarrow> label_protocol" where
  "ToLabelProtocol c =
     \<lparr>lp_PointInTime = ly_PointInTime (ec_LabelProtocol c), lp_AsOfField = ly_AsOfField (ec_LabelProtocol c),
      lp_Horizons = ec_Horizons c, lp_NoFutureInFeatures = ly_NoFutureInFeatures (ec_LabelProtocol c),
      lp_ResolvedHandling = ly_ResolvedHandling (ec_LabelProtocol c)\<rparr>"

section \<open>The gates\<close>

definition GatePITLabels :: string where "GatePITLabels = ''pit_labels''"
definition GateNoLookahead :: string where "GateNoLookahead = ''no_lookahead''"
definition GateNoForbiddenFeatures :: string where "GateNoForbiddenFeatures = ''no_forbidden_features''"
definition GateSelectionDocumented :: string where "GateSelectionDocumented = ''selection_documented''"
definition GateBaselinesPresent :: string where "GateBaselinesPresent = ''baselines_present''"
definition GateBeatsVolumeBaseline :: string where "GateBeatsVolumeBaseline = ''beats_volume_baseline''"
definition GateBeatsActivityBaseline :: string where "GateBeatsActivityBaseline = ''beats_activity_baseline''"
definition GateAfterCostReported :: string where "GateAfterCostReported = ''after_cost_reported''"
definition GateStratified :: string where "GateStratified = ''stratified_metrics''"
definition GateMinSample :: string where "GateMinSample = ''min_sample''"
definition GateFillModelDocumented :: string where "GateFillModelDocumented = ''fill_model_documented''"
definition GatePromoteEligible :: string where "GatePromoteEligible = ''promote_eligible''"
definition GatePolicyParity :: string where "GatePolicyParity = ''policy_parity''"
definition GateSynthShareOK :: string where "GateSynthShareOK = ''synth_share_ok''"

lemmas gate_ids = GatePITLabels_def GateNoLookahead_def GateNoForbiddenFeatures_def GateSelectionDocumented_def
  GateBaselinesPresent_def GateBeatsVolumeBaseline_def GateBeatsActivityBaseline_def GateAfterCostReported_def
  GateStratified_def GateMinSample_def GateFillModelDocumented_def GatePromoteEligible_def GatePolicyParity_def
  GateSynthShareOK_def

definition PolicyParityScanBoard :: string where "PolicyParityScanBoard = ''scan_board_v1''"

type_synonym verdict = "string \<times> bool \<times> gate_detail"   \<comment> \<open>the gate, whether it passed, what is written\<close>

definition pit_gates :: "eval_surface \<Rightarrow> verdict list" where
  "pit_gates s =
     (let p = sf_LabelProtocol s in
      if lp_PointInTime p \<and> lp_NoFutureInFeatures p \<and> lp_AsOfField p \<noteq> ''''
      then [(GatePITLabels, True, Words ''point_in_time + no_future_in_features + as_of_field''),
            (GateNoLookahead, True, Words ''label protocol asserts no future in features'')]
      else [(GatePITLabels, False, Words ''label_protocol incomplete''),
            (GateNoLookahead, False, Words ''cannot certify no lookahead'')])"

definition forbidden_gate :: "eval_surface \<Rightarrow> verdict" where
  "forbidden_gate s =
     (let bad = CheckForbiddenFeatures (sf_FeatureNames s) in
      if bad \<noteq> [] then (GateNoForbiddenFeatures, False, ForbiddenNames bad)
      else (GateNoForbiddenFeatures, True, Words ''feature_names clean or empty''))"

definition selection_gate :: "eval_surface \<Rightarrow> verdict" where
  "selection_gate s =
     (if sf_SelectionSet s = SelectionBoard \<or> sf_SelectionSet s = SelectionStage1 \<or> sf_SelectionSet s = SelectionPool
      then (GateSelectionDocumented, True, Words (sf_SelectionSet s))
      else (GateSelectionDocumented, False, Words ''selection_set missing or unknown''))"

definition fill_gates :: "eval_surface \<Rightarrow> verdict list" where
  "fill_gates s =
     (let fm = sf_FillModel s in
      if fm_Name fm \<noteq> '''' \<and> (fm_FeeBps fm > 0 \<or> fm_SlipBps fm > 0 \<or> fm_IncludeSpread fm)
      then [(GateFillModelDocumented, True, Words (fm_Name fm)), (GateAfterCostReported, True, Words ''fill model non-trivial'')]
      else if fm_Name fm \<noteq> ''''
      then [(GateFillModelDocumented, True, WeakFill (fm_Name fm)),
            (if hm_AfterCostReturnBps (em_Overall (sf_Metrics s)) \<noteq> NaN
             then (GateAfterCostReported, True, Words ''after_cost_return_bps present'')
             else (GateAfterCostReported, False, Words ''missing after_cost_return_bps''))]
      else [(GateFillModelDocumented, False, Words ''fill_model.name empty''),
            (GateAfterCostReported, False, Words ''no fill model'')])"

definition sample_size :: "eval_surface \<Rightarrow> int" where
  "sample_size s =
     (let n = em_N (sf_Metrics s) in if n \<le> 0 then hm_N (em_Overall (sf_Metrics s)) else n)"

definition sample_gate :: "gate_config \<Rightarrow> eval_surface \<Rightarrow> verdict" where
  "sample_gate cfg s =
     (let n = sample_size s in
      if n \<ge> gc_MinSample cfg then (GateMinSample, True, SampleIs n)
      else (GateMinSample, False, SampleBelow n (gc_MinSample cfg)))"

definition strata_gate :: "eval_surface \<Rightarrow> verdict" where
  "strata_gate s =
     (let k = length (em_ByStratum (sf_Metrics s)) in
      if k \<ge> 2 then (GateStratified, True, StrataCount k) else (GateStratified, False, FewStrata))"

definition missing_baselines :: "eval_surface \<Rightarrow> string list" where
  "missing_baselines s =
     filter (\<lambda>b. case em_Baselines (sf_Metrics s) of None \<Rightarrow> True | Some m \<Rightarrow> go_get m b = None) RequiredBaselines"

definition baseline_gate :: "eval_surface \<Rightarrow> verdict" where
  "baseline_gate s =
     (if missing_baselines s = [] then (GateBaselinesPresent, True, Words ''all required baselines'')
      else (GateBaselinesPresent, False, MissingBaselines (missing_baselines s)))"

definition baseline_delta :: "eval_surface \<Rightarrow> string \<Rightarrow> f64 option" where
  \<comment> \<open>the candidate's mean less the baseline's, where the baseline exists\<close>
  "baseline_delta s b =
     Option.bind (em_Baselines (sf_Metrics s)) (\<lambda>m. map_option (\<lambda>h.
       hm_AfterCostReturnBps (em_Overall (sf_Metrics s)) - hm_AfterCostReturnBps h) (go_get m b))"

definition beat_gate :: "gate_config \<Rightarrow> eval_surface \<Rightarrow> string \<Rightarrow> string \<Rightarrow> bool \<Rightarrow> string \<Rightarrow> verdict list" where
  \<comment> \<open>the block of one baseline, inside \<open>Baselines != nil\<close>\<close>
  "beat_gate cfg s b gate required missing =
     (case baseline_delta s b of
        Some d \<Rightarrow>
          if \<not> required \<or> d > gc_MinDeltaVsBaselineBps cfg then [(gate, True, DeltaIs d)]
          else [(gate, False, DeltaNotAbove d (gc_MinDeltaVsBaselineBps cfg))]
      | None \<Rightarrow> if required then [(gate, False, Words missing)] else [])"

definition beat_gates :: "gate_config \<Rightarrow> eval_surface \<Rightarrow> verdict list" where
  "beat_gates cfg s =
     (if em_Baselines (sf_Metrics s) = None then []
      else beat_gate cfg s ''volume_top_n'' GateBeatsVolumeBaseline (gc_RequireBeatsVolume cfg) ''volume_top_n baseline missing'' @
           beat_gate cfg s ''activity_stage1'' GateBeatsActivityBaseline (gc_RequireBeatsActivity cfg)
             ''activity_stage1 baseline missing'')"

definition parity_gate :: "eval_surface \<Rightarrow> verdict" where
  "parity_gate s =
     (if sf_PolicyParity s = PolicyParityScanBoard then (GatePolicyParity, True, Words (sf_PolicyParity s))
      else if sf_PolicyParity s = '''' then (GatePolicyParity, False, Words ''policy_parity not set'')
      else (GatePolicyParity, False, ParityNeeds (sf_PolicyParity s)))"

definition synth_gate :: "eval_surface \<Rightarrow> verdict list" where
  "synth_gate s =
     (case sf_DataQuality s of
        None \<Rightarrow> []
      | Some q \<Rightarrow>
          if dq_BlockPromote q then [(GateSynthShareOK, False, Warned (dq_Warning q))]
          else if dq_SynthPriceShare q > 0 \<or> dq_SynthBookShare q > 0
          then [(GateSynthShareOK, True, SynthUnder (dq_SynthPriceShare q) (dq_SynthBookShare q))]
          else [])"

definition verdicts :: "gate_config \<Rightarrow> eval_surface \<Rightarrow> verdict list" where
  "verdicts cfg s =
     pit_gates s @ [forbidden_gate s, selection_gate s] @ fill_gates s @
     [sample_gate cfg s, strata_gate s, baseline_gate s] @ beat_gates cfg s @ [parity_gate s] @ synth_gate s"

definition write_detail :: "(string, gate_detail) gomap \<Rightarrow> verdict \<Rightarrow> (string, gate_detail) gomap" where
  \<comment> \<open>an empty detail is not written\<close>
  "write_detail m v =
     (case v of (gate, _, d) \<Rightarrow> if d = Words '''' \<or> d = Warned NoWarning then m else go_put gate d m)"

definition record_delta :: "eval_surface \<Rightarrow> (string, f64) gomap \<Rightarrow> string \<Rightarrow> (string, f64) gomap" where
  "record_delta s m b = (case baseline_delta s b of None \<Rightarrow> m | Some d \<Rightarrow> go_put b d m)"

definition effective_gates :: "gate_config \<Rightarrow> gate_config" where
  "effective_gates cfg = (if gc_MinSample cfg \<le> 0 then DefaultGateConfig else cfg)"

definition synth_block :: "eval_surface \<Rightarrow> bool" where
  "synth_block s = (case sf_DataQuality s of None \<Rightarrow> False | Some q \<Rightarrow> dq_BlockPromote q)"

definition passed_of :: "verdict list \<Rightarrow> string list" where
  "passed_of vs = map fst (filter (\<lambda>(_, p, _). p) vs)"

definition failed_of :: "verdict list \<Rightarrow> string list" where
  "failed_of vs = map fst (filter (\<lambda>(_, p, _). \<not> p) vs)"

definition EvaluateGates :: "eval_surface \<Rightarrow> gate_config \<Rightarrow> eval_surface" where
  "EvaluateGates s cfg =
     (let cfg = effective_gates cfg;
          vs = verdicts cfg s;
          n = sample_size s;
          ac = hm_AfterCostReturnBps (em_Overall (sf_Metrics s));
          passed = passed_of vs;
          failed = failed_of vs;
          details = foldl write_detail (sf_GateDetails s) vs;
          ok = (failed = [] \<and> \<not> (case sf_DataQuality s of None \<Rightarrow> False | Some q \<Rightarrow> dq_SignificantSynth q));
          promote = (ok \<and> ac > 0 \<and> n \<ge> gc_MinSample cfg \<and> sf_PolicyParity s = PolicyParityScanBoard \<and> \<not> synth_block s);
          deltas = foldl (record_delta s) (em_DeltaVsBaselines (sf_Metrics s)) [''volume_top_n'', ''activity_stage1'']
      in s\<lparr>sf_GatesPassed := (if promote then passed @ [GatePromoteEligible] else passed),
           sf_GatesFailed := (if promote then failed else failed @ [GatePromoteEligible]),
           sf_GateDetails := go_put GatePromoteEligible
             (if promote then AfterCostIs ac else Held ok ac (sf_PolicyParity s) n (synth_block s)) details,
           sf_OK := ok, sf_PromoteEligible := promote,
           sf_Metrics := (sf_Metrics s)\<lparr>em_DeltaVsBaselines := deltas\<rparr>,
           sf_Status := (if ok then ''success'' else if sf_Status s = '''' then ''failed'' else sf_Status s)\<rparr>)"

section \<open>Completion\<close>

datatype surface_error =
    ErrSchemaVersion string
  | ErrRunID
  | ErrGeneratedAt
  | ErrGeneratedAtParse
  | ErrSelectionSet
  | ErrHorizons
  | ErrPointInTime
  | ErrNoFuture
  | ErrFillModelName

definition ValidateStructural :: "(string \<Rightarrow> bool) \<Rightarrow> eval_surface \<Rightarrow> surface_error option" where
  \<comment> \<open>\<open>parses\<close>: the text is an RFC 3339 time, with or without a fraction; None is success\<close>
  "ValidateStructural parses s =
     (if sf_SchemaVersion s \<noteq> SchemaVersion then Some (ErrSchemaVersion (sf_SchemaVersion s))
      else if sf_RunID s = '''' then Some ErrRunID
      else if sf_GeneratedAt s = '''' then Some ErrGeneratedAt
      else if \<not> parses (sf_GeneratedAt s) then Some ErrGeneratedAtParse
      else if sf_SelectionSet s = '''' then Some ErrSelectionSet
      else if sf_Horizons s = [] then Some ErrHorizons
      else if \<not> lp_PointInTime (sf_LabelProtocol s) then Some ErrPointInTime
      else if \<not> lp_NoFutureInFeatures (sf_LabelProtocol s) then Some ErrNoFuture
      else if fm_Name (sf_FillModel s) = '''' then Some ErrFillModelName
      else None)"

record artifact_words =
  aw_Success :: string
  aw_Partial :: string
  aw_Failed :: string

definition FinalizeSurface ::
  "(string \<Rightarrow> bool) \<Rightarrow> artifact_words \<Rightarrow> eval_config \<Rightarrow> eval_surface \<Rightarrow> surface_error option \<times> eval_surface" where
  "FinalizeSurface parses aw cfg s =
     (case ValidateStructural parses s of
        Some e \<Rightarrow> (Some e, s)
      | None \<Rightarrow>
          let s = (if sf_PolicyParity s = '''' then s\<lparr>sf_PolicyParity := PolicyParityScanBoard\<rparr> else s);
              s = EvaluateGates s (GateConfig cfg)
          in (None, s\<lparr>sf_Status := (if sf_OK s then aw_Success aw
                                    else if em_N (sf_Metrics s) > 0 then aw_Partial aw else aw_Failed aw)\<rparr>))"

definition NewSurface ::
  "(gotime \<Rightarrow> string) \<Rightarrow> (gotime \<Rightarrow> string) \<Rightarrow> gotime \<Rightarrow> eval_config \<Rightarrow> eval_metrics \<Rightarrow> string list \<Rightarrow> string \<Rightarrow> eval_surface" where
  \<comment> \<open>\<open>stamp\<close> and \<open>rfc3339\<close> format the clock \<open>now\<close>\<close>
  "NewSurface stamp rfc3339 now cfg metrics featureNames runID =
     \<lparr>sf_SchemaVersion = SchemaVersion, sf_PipelineVersion = '''',
      sf_RunID = (if runID = '''' then ''eval-'' @ stamp now else runID), sf_GeneratedAt = rfc3339 now,
      sf_CodeCommit = '''', sf_Status = ''failed'', sf_Errors = [], sf_OK = False, sf_GatesPassed = [],
      sf_GatesFailed = [], sf_GateDetails = [], sf_StrategyVersionID = None, sf_StrategyName = '''', sf_PolicyID = '''',
      sf_PolicyParity = '''', sf_WeightsHash = '''', sf_WeightsPath = '''', sf_BookCoverage = 0, sf_BookCoverageBoard = 0,
      sf_BookCoverageUniverse = 0, sf_FVCoverage = 0,
      sf_SelectionSet = or_text SelectionBoard (ec_DefaultSelectionSet cfg), sf_Horizons = ec_Horizons cfg,
      sf_LabelProtocol = ToLabelProtocol cfg, sf_FillModel = ToFillModel cfg, sf_Metrics = metrics,
      sf_ActionModel = or_text ActionSignFromEdge (ec_ActionModel cfg), sf_FeatureNames = featureNames,
      sf_PromoteEligible = False, sf_DataQuality = None\<rparr>"


section \<open>The forbidden features found\<close>

lemma check_forbidden_fold:
  "set (foldl forbidden_step bad ns) = set bad \<union> {n \<in> set ns. IsForbiddenFeature n} \<and>
   (distinct bad \<longrightarrow> distinct (foldl forbidden_step bad ns))"
  by (induction ns arbitrary: bad) (auto simp: forbidden_step_def)

lemma set_check_forbidden: "set (CheckForbiddenFeatures ns) = {n \<in> set ns. IsForbiddenFeature n}"
  using check_forbidden_fold [of "[]" ns] by (simp add: CheckForbiddenFeatures_def)

lemma distinct_check_forbidden: "distinct (CheckForbiddenFeatures ns)"
  using check_forbidden_fold [of "[]" ns] by (simp add: CheckForbiddenFeatures_def)

lemma check_forbidden_none: "CheckForbiddenFeatures ns = [] \<longleftrightarrow> (\<forall>n \<in> set ns. \<not> IsForbiddenFeature n)"
  using set_check_forbidden [of ns] by (metis (mono_tags, lifting) empty_Collect_eq set_empty)

lemma forbidden_folds_case:
  assumes "ToLower (TrimSpace m) = ToLower (TrimSpace n)"
  shows "IsForbiddenFeature m \<longleftrightarrow> IsForbiddenFeature n"
proof -
  have "TrimSpace m = '''' \<longleftrightarrow> TrimSpace n = ''''" using assms by (auto simp: ToLower_def)
  then show ?thesis unfolding IsForbiddenFeature_def Let_def assms by simp
qed

section \<open>What the verdict means\<close>

definition beats :: "gate_config \<Rightarrow> eval_surface \<Rightarrow> string \<Rightarrow> bool" where
  "beats cfg s b \<longleftrightarrow> (\<exists>d. baseline_delta s b = Some d \<and> d > gc_MinDeltaVsBaselineBps cfg)"

definition meets_protocol :: "gate_config \<Rightarrow> eval_surface \<Rightarrow> bool" where
  \<comment> \<open>what the evaluation protocol asks of a surface\<close>
  "meets_protocol cfg s \<longleftrightarrow>
     lp_PointInTime (sf_LabelProtocol s) \<and> lp_NoFutureInFeatures (sf_LabelProtocol s) \<and> lp_AsOfField (sf_LabelProtocol s) \<noteq> '''' \<and>
     (\<forall>f \<in> set (sf_FeatureNames s). \<not> IsForbiddenFeature f) \<and>
     sf_SelectionSet s \<in> {SelectionBoard, SelectionStage1, SelectionPool} \<and>
     fm_Name (sf_FillModel s) \<noteq> '''' \<and>
     (fm_FeeBps (sf_FillModel s) > 0 \<or> fm_SlipBps (sf_FillModel s) > 0 \<or> fm_IncludeSpread (sf_FillModel s) \<or>
      hm_AfterCostReturnBps (em_Overall (sf_Metrics s)) \<noteq> NaN) \<and>
     sample_size s \<ge> gc_MinSample cfg \<and>
     2 \<le> length (em_ByStratum (sf_Metrics s)) \<and>
     (\<forall>b \<in> set RequiredBaselines. baseline_delta s b \<noteq> None) \<and>
     (gc_RequireBeatsVolume cfg \<longrightarrow> beats cfg s ''volume_top_n'') \<and>
     (gc_RequireBeatsActivity cfg \<longrightarrow> beats cfg s ''activity_stage1'') \<and>
     sf_PolicyParity s = PolicyParityScanBoard \<and> \<not> synth_block s"

definition significant_synth :: "eval_surface \<Rightarrow> bool" where
  "significant_synth s = (case sf_DataQuality s of None \<Rightarrow> False | Some q \<Rightarrow> dq_SignificantSynth q)"

definition all_pass :: "verdict list \<Rightarrow> bool" where
  "all_pass vs \<longleftrightarrow> (\<forall>v \<in> set vs. fst (snd v))"

lemma all_pass_simps [simp]:
  "all_pass []" "all_pass (v # vs) \<longleftrightarrow> fst (snd v) \<and> all_pass vs" "all_pass (us @ vs) \<longleftrightarrow> all_pass us \<and> all_pass vs"
  by (auto simp: all_pass_def)

lemma no_failures: "failed_of vs = [] \<longleftrightarrow> all_pass vs"
  by (induction vs) (auto simp: all_pass_def failed_of_def)

lemma missing_none: "missing_baselines s = [] \<longleftrightarrow> (\<forall>b \<in> set RequiredBaselines. baseline_delta s b \<noteq> None)"
  by (auto simp: missing_baselines_def baseline_delta_def filter_empty_conv split: option.splits bind_splits)

lemma beat_pass:
  "all_pass (beat_gate cfg s b g req msg) \<longleftrightarrow> (req \<longrightarrow> beats cfg s b)"
  by (auto simp: beat_gate_def beats_def split: option.splits)

lemma gate_passes:
  "all_pass (pit_gates s) \<longleftrightarrow>
     lp_PointInTime (sf_LabelProtocol s) \<and> lp_NoFutureInFeatures (sf_LabelProtocol s) \<and> lp_AsOfField (sf_LabelProtocol s) \<noteq> ''''"
  "fst (snd (forbidden_gate s)) \<longleftrightarrow> (\<forall>f \<in> set (sf_FeatureNames s). \<not> IsForbiddenFeature f)"
  "fst (snd (selection_gate s)) \<longleftrightarrow> sf_SelectionSet s \<in> {SelectionBoard, SelectionStage1, SelectionPool}"
  "fst (snd (sample_gate cfg s)) \<longleftrightarrow> sample_size s \<ge> gc_MinSample cfg"
  "fst (snd (strata_gate s)) \<longleftrightarrow> 2 \<le> length (em_ByStratum (sf_Metrics s))"
  "fst (snd (baseline_gate s)) \<longleftrightarrow> missing_baselines s = []"
  "fst (snd (parity_gate s)) \<longleftrightarrow> sf_PolicyParity s = PolicyParityScanBoard"
  "all_pass (synth_gate s) \<longleftrightarrow> \<not> synth_block s"
  by (auto simp: pit_gates_def forbidden_gate_def selection_gate_def sample_gate_def strata_gate_def baseline_gate_def
      parity_gate_def synth_gate_def synth_block_def Let_def check_forbidden_none split: option.splits)

lemma fill_passes:
  "all_pass (fill_gates s) \<longleftrightarrow> fm_Name (sf_FillModel s) \<noteq> '''' \<and>
     (fm_FeeBps (sf_FillModel s) > 0 \<or> fm_SlipBps (sf_FillModel s) > 0 \<or> fm_IncludeSpread (sf_FillModel s) \<or>
      hm_AfterCostReturnBps (em_Overall (sf_Metrics s)) \<noteq> NaN)"
  by (auto simp: fill_gates_def Let_def)

lemma beat_gates_pass:
  assumes "\<forall>b \<in> set RequiredBaselines. baseline_delta s b \<noteq> None"
  shows "all_pass (beat_gates cfg s) \<longleftrightarrow> (gc_RequireBeatsVolume cfg \<longrightarrow> beats cfg s ''volume_top_n'') \<and>
    (gc_RequireBeatsActivity cfg \<longrightarrow> beats cfg s ''activity_stage1'')"
proof -
  have "em_Baselines (sf_Metrics s) \<noteq> None"
    using bspec [OF assms, of "''random_board''"]
    by (cases "em_Baselines (sf_Metrics s)") (simp_all add: baseline_delta_def RequiredBaselines_def)
  then show ?thesis unfolding beat_gates_def by (simp only: if_False all_pass_simps beat_pass)
qed

lemma verdicts_pass: "all_pass (verdicts cfg s) \<longleftrightarrow> meets_protocol cfg s"
proof (cases "\<forall>b \<in> set RequiredBaselines. baseline_delta s b \<noteq> None")
  case True
  show ?thesis
    unfolding verdicts_def meets_protocol_def all_pass_simps gate_passes fill_passes missing_none beat_gates_pass [OF True]
    using True by simp
next
  case False
  then show ?thesis
    unfolding verdicts_def meets_protocol_def all_pass_simps gate_passes missing_none by blast
qed

lemma evaluated:
  "sf_OK (EvaluateGates s cfg) \<longleftrightarrow> meets_protocol (effective_gates cfg) s \<and> \<not> significant_synth s"
  "sf_PromoteEligible (EvaluateGates s cfg) \<longleftrightarrow> sf_OK (EvaluateGates s cfg) \<and>
     hm_AfterCostReturnBps (em_Overall (sf_Metrics s)) > 0 \<and> sample_size s \<ge> gc_MinSample (effective_gates cfg) \<and>
     sf_PolicyParity s = PolicyParityScanBoard \<and> \<not> synth_block s"
  "em_Overall (sf_Metrics (EvaluateGates s cfg)) = em_Overall (sf_Metrics s)"
  by (simp_all add: EvaluateGates_def Let_def verdicts_pass significant_synth_def
      no_failures)



section \<open>Every gate is reported once\<close>

lemma gates_of_verdicts:
  "\<exists>vol act syn. map fst (verdicts cfg s) =
     [GatePITLabels, GateNoLookahead, GateNoForbiddenFeatures, GateSelectionDocumented, GateFillModelDocumented,
      GateAfterCostReported, GateMinSample, GateStratified, GateBaselinesPresent] @ vol @ act @ [GatePolicyParity] @ syn \<and>
     vol \<in> {[], [GateBeatsVolumeBaseline]} \<and> act \<in> {[], [GateBeatsActivityBaseline]} \<and> syn \<in> {[], [GateSynthShareOK]}"
proof -
  have "map fst (pit_gates s) = [GatePITLabels, GateNoLookahead]" "fst (forbidden_gate s) = GateNoForbiddenFeatures"
    "fst (selection_gate s) = GateSelectionDocumented" "map fst (fill_gates s) = [GateFillModelDocumented, GateAfterCostReported]"
    "fst (sample_gate cfg s) = GateMinSample" "fst (strata_gate s) = GateStratified" "fst (baseline_gate s) = GateBaselinesPresent"
    "fst (parity_gate s) = GatePolicyParity"
    by (simp_all add: pit_gates_def forbidden_gate_def selection_gate_def fill_gates_def sample_gate_def strata_gate_def
        baseline_gate_def parity_gate_def Let_def)
  moreover have "map fst (synth_gate s) \<in> {[], [GateSynthShareOK]}" by (simp add: synth_gate_def split: option.split)
  moreover have b: "map fst (beat_gate cfg s b g req msg) \<in> {[], [g]}" for b g req msg
    by (simp add: beat_gate_def split: option.split)
  obtain vol act where "map fst (beat_gates cfg s) = vol @ act" "vol \<in> {[], [GateBeatsVolumeBaseline]}"
    "act \<in> {[], [GateBeatsActivityBaseline]}"
  proof (cases "em_Baselines (sf_Metrics s) = None")
    case True
    then show thesis using that [of "[]" "[]"] by (simp add: beat_gates_def)
  next
    case False
    then have "map fst (beat_gates cfg s) =
        map fst (beat_gate cfg s ''volume_top_n'' GateBeatsVolumeBaseline (gc_RequireBeatsVolume cfg) ''volume_top_n baseline missing'') @
        map fst (beat_gate cfg s ''activity_stage1'' GateBeatsActivityBaseline (gc_RequireBeatsActivity cfg)
          ''activity_stage1 baseline missing'')"
      unfolding beat_gates_def by (simp only: if_False map_append)
    from that [OF this b b] show thesis .
  qed
  ultimately show ?thesis
    by (intro exI [of _ vol] exI [of _ act] exI [of _ "map fst (synth_gate s)"]) (simp add: verdicts_def)
qed

lemma distinct_gates: "distinct (map fst (verdicts cfg s))" "GatePromoteEligible \<notin> set (map fst (verdicts cfg s))"
proof -
  obtain vol act syn where g: "map fst (verdicts cfg s) =
     [GatePITLabels, GateNoLookahead, GateNoForbiddenFeatures, GateSelectionDocumented, GateFillModelDocumented,
      GateAfterCostReported, GateMinSample, GateStratified, GateBaselinesPresent] @ vol @ act @ [GatePolicyParity] @ syn"
    "vol = [] \<or> vol = [GateBeatsVolumeBaseline]" "act = [] \<or> act = [GateBeatsActivityBaseline]" "syn = [] \<or> syn = [GateSynthShareOK]"
    using gates_of_verdicts [of cfg s] by blast
  show "distinct (map fst (verdicts cfg s))" "GatePromoteEligible \<notin> set (map fst (verdicts cfg s))"
    unfolding g(1) using g(2-) by (elim disjE; simp add: gate_ids)+
qed

lemma mset_split: "mset (passed_of vs) + mset (failed_of vs) = mset (map fst vs)"
  unfolding passed_of_def failed_of_def by (induction vs) auto

lemma set_split: "set (passed_of vs) \<union> set (failed_of vs) = set (map fst vs)"
  using mset_split [of vs] by (metis set_mset_mset set_mset_union)

lemma evaluated_lists:
  fixes s cfg defines "r \<equiv> EvaluateGates s cfg" and "vs \<equiv> verdicts (effective_gates cfg) s"
  shows "sf_GatesPassed r = passed_of vs @ (if sf_PromoteEligible r then [GatePromoteEligible] else [])"
    "sf_GatesFailed r = failed_of vs @ (if sf_PromoteEligible r then [] else [GatePromoteEligible])"
  unfolding r_def vs_def by (simp_all add: EvaluateGates_def Let_def)

lemma evaluated_gates:
  "mset (sf_GatesPassed (EvaluateGates s cfg)) + mset (sf_GatesFailed (EvaluateGates s cfg)) =
     add_mset GatePromoteEligible (mset (map fst (verdicts (effective_gates cfg) s)))"
  unfolding evaluated_lists mset_split [symmetric] by simp

lemma promote_gate_reported:
  "GatePromoteEligible \<in> set (sf_GatesPassed (EvaluateGates s cfg)) \<longleftrightarrow> sf_PromoteEligible (EvaluateGates s cfg)"
  using distinct_gates(2) [of "effective_gates cfg" s]
  unfolding evaluated_lists set_split [of "verdicts (effective_gates cfg) s", symmetric] by auto

text \<open>the gate report is a partition.  No gate is listed twice or both as passed and as failed; the promotion gate is
  among the passed exactly when the surface is eligible; and a surface whose only failed gate is the promotion
  gate is one that is OK but for significant synthetic data.\<close>

theorem gate_report_partition:
  "distinct (sf_GatesPassed (EvaluateGates s cfg) @ sf_GatesFailed (EvaluateGates s cfg)) \<and>
   set (sf_GatesPassed (EvaluateGates s cfg)) \<union> set (sf_GatesFailed (EvaluateGates s cfg)) =
     insert GatePromoteEligible (set (map fst (verdicts (effective_gates cfg) s))) \<and>
   (GatePromoteEligible \<in> set (sf_GatesPassed (EvaluateGates s cfg)) \<longleftrightarrow> sf_PromoteEligible (EvaluateGates s cfg)) \<and>
   (set (sf_GatesFailed (EvaluateGates s cfg)) \<subseteq> {GatePromoteEligible} \<longleftrightarrow>
      sf_OK (EvaluateGates s cfg) \<or> meets_protocol (effective_gates cfg) s)"
proof (intro conjI)
  let ?r = "EvaluateGates s cfg" and ?vs = "verdicts (effective_gates cfg) s"
  have eq: "mset (sf_GatesPassed ?r @ sf_GatesFailed ?r) = mset (GatePromoteEligible # map fst ?vs)"
    using evaluated_gates [of s cfg] by simp
  show "distinct (sf_GatesPassed ?r @ sf_GatesFailed ?r)"
    using mset_eq_imp_distinct_iff [OF eq] distinct_gates by auto
  show "set (sf_GatesPassed ?r) \<union> set (sf_GatesFailed ?r) = insert GatePromoteEligible (set (map fst ?vs))"
    using mset_eq_setD [OF eq] by auto
  show "GatePromoteEligible \<in> set (sf_GatesPassed ?r) \<longleftrightarrow> sf_PromoteEligible ?r"
    by (rule promote_gate_reported)
  have "set (failed_of ?vs) \<subseteq> {GatePromoteEligible} \<longleftrightarrow> failed_of ?vs = []"
    using distinct_gates(2) [of "effective_gates cfg" s] set_split [of ?vs]
    by (metis Un_iff empty_subsetI list.set(1) list.set_intros(1) neq_Nil_conv singletonD subset_eq)
  then have "set (sf_GatesFailed ?r) \<subseteq> {GatePromoteEligible} \<longleftrightarrow> failed_of ?vs = []"
    unfolding evaluated_lists by auto
  then show "set (sf_GatesFailed ?r) \<subseteq> {GatePromoteEligible} \<longleftrightarrow> sf_OK ?r \<or> meets_protocol (effective_gates cfg) s"
    using evaluated(1) no_failures [of ?vs] verdicts_pass by blast
qed

end
