(* ===== verification/Eval_Runner.thy ===== *)
theory Eval_Runner
  imports Board_DB Eval_Surface
begin

text \<open>
  \<open>internal/eval/runner.go\<close>: one evaluation run over the database.  It loads the universe, the price and book series and
  the published boards, fills gaps when asked to, builds the snapshot of every decision time, labels, gates and persists.
  The database is the record of its tables, with a flag for each query that fails; the clock, the envelope of the
  \<open>artifacts\<close> package and the success of its file are arguments.  A range over a Go map is taken in the order
  of the model's map; notes of free text and log lines are left out.
  Lemmas: without the gap fill a snapshot depends on nothing after its time, with it it does, and the
  surface asserts the absence of lookahead either way; a run without data is never eligible for promotion.
\<close>

section \<open>Inputs\<close>

record runner_opts =
  ru_Cfg :: eval_config
  ru_Backtest :: backtest_config
  ru_ArtifactsRoot :: string
  ru_Strategy :: string
  ru_PersistLabels :: bool
  ru_BookMaxStaleness :: duration
  ru_UseBooks :: "bool option"
  ru_WeightsPath :: string
  ru_WeightsYAML :: string
  ru_StrategyVersionID :: "int option"
  ru_WeightsHash :: string
  ru_SynthFill :: bool
  ru_Synth :: gap_opts
  ru_SynthPromoteMaxShare :: f64
  ru_SynthSignificantShare :: f64

record eval_db =
  ed_Markets :: "market_query_row list"
  ed_Board :: board_table
  ed_Prices :: price_table
  ed_Books :: "book_as_of list"
  ed_Snapshots :: snapshot_table
  ed_Labels :: label_table
  ed_TopFails :: bool
  ed_BoardFails :: bool
  ed_PricesFail :: bool
  ed_BooksFail :: bool
  ed_SnapshotsFail :: bool
  ed_LabelsFail :: bool

record eval_env =
  en_ParseDuration :: "string \<Rightarrow> duration option"
  en_Shuffle :: "nat \<Rightarrow> market_point list \<Rightarrow> market_point list"
  en_ParsesTime :: "string \<Rightarrow> bool"
  en_Words :: artifact_words
  en_Reg :: reg_env
  en_RunID :: string
  en_PipelineVersion :: string
  en_CodeCommit :: string
  en_GeneratedAt :: string
  en_FormatTime :: "gotime \<Rightarrow> string"
  en_FormatStamp :: "gotime \<Rightarrow> string"
  en_DefaultPipeline :: string
  en_DefaultCommit :: string
  en_WriteFails :: bool

datatype run_error = ErrLoadTop | ErrLoadPrices | ErrFinalize surface_error | ErrWrite

record run_result =
  rr_Surface :: eval_surface
  rr_Labels :: "label list"
  rr_NSnaps :: int
  rr_NTokens :: int

section \<open>The universe\<close>

definition overlay_board :: "eval_market_meta \<Rightarrow> eval_market_meta \<Rightarrow> eval_market_meta" where
  \<comment> \<open>\<open>existing\<close>, then the board's row\<close>
  "overlay_board existing m =
     existing\<lparr>mm_Category := (if mm_Category m \<noteq> '''' then mm_Category m else mm_Category existing),
       mm_TokenID := (if mm_TokenID m \<noteq> '''' then mm_TokenID m else mm_TokenID existing),
       mm_NegRiskGroupID := (if mm_NegRiskGroupID m \<noteq> '''' then mm_NegRiskGroupID m else mm_NegRiskGroupID existing),
       mm_NegRisk := (if mm_NegRiskGroupID m \<noteq> '''' then mm_NegRisk m else mm_NegRisk existing),
       mm_RelatedLegs := (if mm_RelatedLegs m \<noteq> [] then mm_RelatedLegs m else mm_RelatedLegs existing)\<rparr>"

definition merge_board :: "(string, eval_market_meta) gomap \<Rightarrow> eval_market_meta \<Rightarrow> (string, eval_market_meta) gomap" where
  "merge_board byCond m =
     (case go_get byCond (mm_ConditionID m) of
        Some existing \<Rightarrow> go_put (mm_ConditionID m) (overlay_board existing m) byCond
      | None \<Rightarrow> go_put (mm_ConditionID m) m byCond)"

definition loadUniverse :: "eval_db \<Rightarrow> string \<Rightarrow> int \<Rightarrow> run_error + (eval_market_meta list \<times> string list)" where
  "loadUniverse db strategy cap =
     (let cap = (if cap \<le> 0 then 500 else cap) in
      if ed_TopFails db then Inl ErrLoadTop
      else
        let top = LoadTopVolumeMarkets cap (ed_Markets db);
            board = (if ed_BoardFails db then [] else LoadEdgeBoardTokens strategy (ed_Board db));
            byCond = foldl (\<lambda>m x. go_put (mm_ConditionID x) x m) [] top;
            byCond = foldl merge_board byCond board;
            markets = filter (\<lambda>m. mm_TokenID m \<noteq> '''') (map snd byCond)
        in Inr (markets, map mm_TokenID markets))"

section \<open>Series\<close>

definition series_of_points :: "string \<Rightarrow> price_point list \<Rightarrow> price_series" where
  "series_of_points tok pts = \<lparr>ps_TokenID = tok, ps_Times = map pp_Timestamp pts, ps_Prices = map pp_Price pts\<rparr>"

definition load_prices :: "eval_db \<Rightarrow> string list \<Rightarrow> gotime \<Rightarrow> gotime \<Rightarrow> (string, price_series) gomap" where
  "load_prices db toks from_t to_t =
     map (\<lambda>(tok, pts). (tok, series_of_points tok pts))
       (filter (\<lambda>(tok, pts). pts \<noteq> []) (LoadPriceSeries toks from_t to_t (ed_Prices db)))"

definition book_point_of :: "book_as_of \<Rightarrow> book_point" where
  "book_point_of b =
     \<lparr>bp_Time = ba_Time b, bp_BestBid = ba_BestBid b, bp_BestAsk = ba_BestAsk b,
      bp_TotalBidDepth = ba_TotalBidDepth b, bp_TotalAskDepth = ba_TotalAskDepth b\<rparr>"

definition load_books :: "eval_db \<Rightarrow> bool \<Rightarrow> string list \<Rightarrow> gotime \<Rightarrow> gotime \<Rightarrow> (string, book_series) gomap" where
  "load_books db useBooks toks from_t to_t =
     (if \<not> useBooks \<or> ed_BooksFail db then []
      else map (\<lambda>(tok, bs). (tok, \<lparr>bs_TokenID = tok, bs_Points = map book_point_of bs\<rparr>))
             (filter (\<lambda>(tok, bs). bs \<noteq> []) (LoadBookSeries toks from_t to_t (ed_Books db))))"

section \<open>The gap fill\<close>

definition venue_prices :: "price_series \<Rightarrow> gap_price list" where
  "venue_prices ps =
     map (\<lambda>(t, p). \<lparr>gq_Time = t, gq_Price = p, gq_Source = SourceVenue\<rparr>) (zip (ps_Times ps) (ps_Prices ps))"

definition fill_series :: "gap_opts \<Rightarrow> gotime list \<Rightarrow> string \<Rightarrow> price_series \<Rightarrow> price_series \<times> mix" where
  "fill_series opts grid tok ps =
     (let (filled, m) = FillPrices (venue_prices ps) grid opts
      in (\<lparr>ps_TokenID = tok, ps_Times = map gq_Time filled, ps_Prices = map gq_Price filled\<rparr>, m))"

definition gap_book_of :: "book_point \<Rightarrow> gap_book" where
  "gap_book_of p =
     \<lparr>gb_Time = bp_Time p, gb_BestBid = bp_BestBid p, gb_BestAsk = bp_BestAsk p, gb_TotalBidDepth = bp_TotalBidDepth p,
      gb_TotalAskDepth = bp_TotalAskDepth p, gb_Source = SourceVenue\<rparr>"

definition book_point_filled :: "gap_book \<Rightarrow> book_point" where
  "book_point_filled b =
     \<lparr>bp_Time = gb_Time b, bp_BestBid = gb_BestBid b, bp_BestAsk = gb_BestAsk b,
      bp_TotalBidDepth = gb_TotalBidDepth b, bp_TotalAskDepth = gb_TotalAskDepth b\<rparr>"

definition fill_token_books ::
  "gap_opts \<Rightarrow> gotime list \<Rightarrow> book_point list \<Rightarrow> (string, book_series) gomap \<times> mix \<Rightarrow> string \<times> price_series \<Rightarrow>
   (string, book_series) gomap \<times> mix" where
  \<comment> \<open>one token: its books, filled from the mids of its series; an empty result is not stored\<close>
  "fill_token_books opts grid rows st tp =
     (let (books, m) = st; (tok, ps) = tp;
          (filled, m') = FillBooks (map gap_book_of rows) grid (Some (series_MidAsOf ps)) opts
      in ((if filled = [] then books
           else go_put tok \<lparr>bs_TokenID = tok, bs_Points = map book_point_filled filled\<rparr> books), mix_Add m m'))"

definition fill_known_books where
  \<comment> \<open>the first loop over the tokens\<close>
  "fill_known_books opts grid st tp =
     fill_token_books opts grid (case go_get (fst st) (fst tp) of None \<Rightarrow> [] | Some bs \<Rightarrow> bs_Points bs) st tp"

definition fill_missing_books where
  \<comment> \<open>the second loop, for the tokens still without an entry\<close>
  "fill_missing_books opts grid st tp = (if go_has (fst st) (fst tp) then st else fill_token_books opts grid [] st tp)"

definition fresh_report :: "mix \<Rightarrow> mix \<Rightarrow> report" where
  "fresh_report p b =
     \<lparr>rp_PriceMix = p, rp_BookMix = b, rp_SynthPriceShare = 0, rp_SynthBookShare = 0, rp_FillMode = ''real_plus_synth'',
      rp_Warning = NoWarning, rp_Significant = False, rp_BlockPromote = False\<rparr>"

definition applySynthFill ::
  "(string, price_series) gomap \<Rightarrow> (string, book_series) gomap \<Rightarrow> gotime list \<Rightarrow> gotime \<Rightarrow> gotime \<Rightarrow> gap_opts \<Rightarrow> bool \<Rightarrow>
   (string, price_series) gomap \<times> (string, book_series) gomap \<times> report" where
  "applySynthFill prices booksByTok ts from_t to_t opts useBooks =
     (let grid = (if ts = [] then BuildHourlyGrid from_t to_t (gp_GridStep opts) else ts);
          filled = map (\<lambda>(tok, ps). (tok, fill_series opts grid tok ps)) prices;
          prices' = map (\<lambda>(tok, ps, m). (tok, ps)) filled;
          priceMix = foldl mix_Add no_mix (map (\<lambda>(tok, ps, m). m) filled)
      in if \<not> useBooks then (prices', booksByTok, fresh_report priceMix no_mix)
         else
           let st = foldl (fill_known_books opts grid) (booksByTok, no_mix) prices';
               (books, bookMix) = foldl (fill_missing_books opts grid) st prices'
           in (prices', books, fresh_report priceMix bookMix))"

definition dataQualityFromReport :: "gap_opts \<Rightarrow> report \<Rightarrow> data_quality" where
  \<comment> \<open>the two durations are the options', which the caller puts into the report\<close>
  "dataQualityFromReport opts r =
     \<lparr>dq_PriceSourceMix = [(''venue'', mx_Venue (rp_PriceMix r)), (''synth_interp'', mx_SynthInterp (rp_PriceMix r)),
        (''synth_hold'', mx_SynthHold (rp_PriceMix r)), (''missing'', mx_Missing (rp_PriceMix r))],
      dq_BookSourceMix = [(''venue'', mx_Venue (rp_BookMix r)), (''synth_book_from_mid'', mx_SynthBook (rp_BookMix r)),
        (''missing'', mx_Missing (rp_BookMix r))],
      dq_SynthPriceShare = rp_SynthPriceShare r, dq_SynthBookShare = rp_SynthBookShare r, dq_FillMode = rp_FillMode r,
      dq_SynthMaxGap = gp_MaxGap opts, dq_SynthHoldMax = gp_HoldMax opts, dq_Warning = rp_Warning r,
      dq_SignificantSynth = rp_Significant r, dq_BlockPromote = rp_BlockPromote r\<rparr>"

section \<open>Snapshots\<close>

definition meta_of_market :: "eval_market_meta \<Rightarrow> meta_as_of" where
  "meta_of_market m =
     \<lparr>me_ConditionID = mm_ConditionID m, me_TokenID = mm_TokenID m, me_Category = mm_Category m, me_NegRisk = mm_NegRisk m,
      me_NegRiskGroupID = mm_NegRiskGroupID m, me_RelatedLegs = mm_RelatedLegs m, me_EndDate = mm_EndDate m\<rparr>"

definition meta_index :: "eval_market_meta list \<Rightarrow> (string, meta_as_of) gomap" where
  "meta_index markets = foldl (\<lambda>ix m. go_put (mm_ConditionID m) (meta_of_market m) ix) [] markets"

definition overlay_snapshot :: "meta_as_of \<Rightarrow> snap_meta option \<Rightarrow> meta_as_of" where
  "overlay_snapshot meta sm =
     (case sm of
        None \<Rightarrow> meta
      | Some s \<Rightarrow>
          meta\<lparr>me_Category := (if sm_Category s \<noteq> '''' then sm_Category s else me_Category meta), me_NegRisk := sm_NegRisk s,
            me_NegRiskGroupID := (if sm_NegRiskGroupID s \<noteq> '''' then sm_NegRiskGroupID s else me_NegRiskGroupID meta),
            me_RelatedLegs := (if sm_RelatedLegs s \<noteq> [] then sm_RelatedLegs s else me_RelatedLegs meta)\<rparr>)"

definition zero_meta :: meta_as_of where
  "zero_meta = \<lparr>me_ConditionID = '''', me_TokenID = '''', me_Category = '''', me_NegRisk = False, me_NegRiskGroupID = '''',
     me_RelatedLegs = [], me_EndDate = 0\<rparr>"

definition market_at ::
  "(string, price_series) gomap \<Rightarrow> (string, book_series) gomap \<Rightarrow> (string, meta_as_of) gomap \<Rightarrow> snap_index \<Rightarrow> duration \<Rightarrow> f64 \<Rightarrow>
   gotime \<Rightarrow> eval_market_meta \<Rightarrow> market_point option" where
  \<comment> \<open>the inner loop body; None is \<open>continue\<close>\<close>
  "market_at prices books metaByCond snapIdx bookAge minDepth t m =
     (case go_get prices (mm_TokenID m) of
        None \<Rightarrow> None
      | Some ps \<Rightarrow>
          if \<not> IsZero (mm_EndDate m) \<and> \<not> mm_EndDate m > t then None
          else
            let sm = LookupCond snapIdx t (mm_ConditionID m);
                meta = overlay_snapshot (get_or zero_meta metaByCond (mm_ConditionID m)) sm;
                book = Option.bind (go_get books (mm_TokenID m)) (\<lambda>bs. book_AsOf bs t bookAge)
            in (case FeaturesAsOf t meta ps book minDepth of
                  None \<Rightarrow> None
                | Some feat \<Rightarrow>
                    let hs = (case book of None \<Rightarrow> 0 | Some b \<Rightarrow> HalfSpreadBpsFromBook (bp_BestBid b) (bp_BestAsk b));
                        vol = VolumeProxy24h ps t
                    in Some (zero_market\<lparr>mp_ConditionID := mm_ConditionID m, mp_TokenID := mm_TokenID m,
                         mp_Category := me_Category meta, mp_NegRisk := me_NegRisk meta,
                         mp_NegRiskGroupID := me_NegRiskGroupID meta, mp_RelatedLegs := me_RelatedLegs meta,
                         mp_Mid := (case series_MidAsOf ps t of None \<Rightarrow> 0 | Some mid \<Rightarrow> mid), mp_HalfSpreadBps := hs,
                         mp_CostApprox := (case book of None \<Rightarrow> True | Some b \<Rightarrow> hs \<le> 0),
                         mp_VolumeProxy := (case sm of Some s \<Rightarrow> if sm_Volume24hr s > 0 then sm_Volume24hr s else vol | None \<Rightarrow> vol),
                         mp_ActivityProxy := ActivityProxy24h ps t, mp_EndTime := mm_EndDate m, mp_Features := feat,
                         mp_GroupMids := GroupMidsAtT t meta metaByCond prices,
                         mp_TTRHours := (if IsZero (mm_EndDate m) then 0 else Hours (time_Sub (mm_EndDate m) t))\<rparr>)))"

definition snapshots_at ::
  "(gotime \<Rightarrow> eval_market_meta \<Rightarrow> market_point option) \<Rightarrow> gotime list \<Rightarrow> eval_market_meta list \<Rightarrow> snapshot_at_t list" where
  "snapshots_at point ts markets =
     filter (\<lambda>s. sp_Markets s \<noteq> []) (map (\<lambda>t. \<lparr>sp_T = t, sp_Markets = List.map_filter (point t) markets\<rparr>) ts)"

section \<open>Results\<close>

definition labelsToDB :: "label list \<Rightarrow> string \<Rightarrow> label_row list" where
  "labelsToDB labels runID =
     map (\<lambda>l.
       let sel = (if lb_Policy l \<noteq> '''' \<and> lb_Policy l \<noteq> ''candidate'' then lb_Policy l
                  else if lb_SelectionSet l = '''' then SelectionBoard else lb_SelectionSet l)
       in \<lparr>lr_DecisionTime = lb_DecisionTime l, lr_Horizon = lb_Horizon l, lr_ConditionID = lb_ConditionID l,
           lr_SelectionSet = sel, lr_RunID = runID, lr_Hit = lb_Hit l, lr_AfterCostReturnBps = lb_AfterCostReturnBps l,
           lr_Category = lb_Category l, lr_NegRisk = lb_NegRisk l, lr_FVSource = lb_FVSource l,
           lr_TTRBucket = lb_TTRBucket l, lr_MidAtT = lb_MidAtT l, lr_EdgeBpsAtT = lb_EdgeBpsAtT l\<rparr>) labels"

definition CandidateFeatureNames :: "string list" where
  "CandidateFeatureNames =
     [''mid'', ''best_bid'', ''best_ask'', ''spread_bps'', ''imbalance'', ''abs_ret_1m'', ''abs_ret_5m'', ''abs_ret_1h'',
      ''one_day_abs'', ''ttr_hours'', ''bid_depth'', ''ask_depth'', ''book_age_sec'', ''volume_proxy'']"

definition PolicyIDSelectBoardV1 :: string where "PolicyIDSelectBoardV1 = ''select_board_v1''"

definition enveloped :: "eval_env \<Rightarrow> gotime \<Rightarrow> eval_config \<Rightarrow> eval_metrics \<Rightarrow> eval_surface" where
  \<comment> \<open>\<open>NewSurface\<close> with the fields of the envelope\<close>
  "enveloped env now cfg metrics =
     (NewSurface (en_FormatStamp env) (en_FormatTime env) now cfg metrics CandidateFeatureNames (en_RunID env))
       \<lparr>sf_PipelineVersion := en_PipelineVersion env, sf_CodeCommit := en_CodeCommit env,
        sf_GeneratedAt := en_GeneratedAt env, sf_PolicyID := PolicyIDSelectBoardV1, sf_PolicyParity := PolicyParityScanBoard\<rparr>"

definition WriteSurface :: "eval_env \<Rightarrow> eval_surface \<Rightarrow> bool \<times> eval_surface" where
  \<comment> \<open>whether the file was written, and the surface with its defaults\<close>
  "WriteSurface env s =
     (if sf_RunID s = '''' then (False, s)
      else
        (\<not> en_WriteFails env,
         s\<lparr>sf_PipelineVersion := (if sf_PipelineVersion s = '''' then en_DefaultPipeline env else sf_PipelineVersion s),
           sf_CodeCommit := (if sf_CodeCommit s = '''' then or_text ''unknown'' (en_DefaultCommit env) else sf_CodeCommit s)\<rparr>))"

definition no_eval_metrics :: "string \<Rightarrow> eval_metrics" where
  "no_eval_metrics ph =
     \<lparr>em_N = 0, em_Overall = no_metrics, em_ByStratum = [], em_ByHorizon = [], em_Portfolio = None, em_Baselines = None,
      em_DeltaVsBaselines = [], em_PrimaryHorizon = ph\<rparr>"

definition emptySurface :: "eval_env \<Rightarrow> gotime \<Rightarrow> eval_config \<Rightarrow> string \<Rightarrow> backtest_config \<Rightarrow> runner_opts \<Rightarrow> run_result" where
  "emptySurface env now cfg msg bc opts =
     (let s = (enveloped env now cfg (no_eval_metrics (ec_PrimaryHorizon cfg)))
                \<lparr>sf_StrategyName := wt_Name (bt_Weights bc), sf_WeightsPath := ru_WeightsPath opts,
                 sf_Errors := [\<lparr>ei_Code = ''no_data'', ei_Message = msg, ei_Component = ''eval''\<rparr>]\<rparr>;
          s = snd (FinalizeSurface (en_ParsesTime env) (en_Words env) cfg s);
          s = (if ru_ArtifactsRoot opts \<noteq> '''' then snd (WriteSurface env s) else s)
      in \<lparr>rr_Surface = s, rr_Labels = [], rr_NSnaps = 0, rr_NTokens = 0\<rparr>)"

definition stamped_hash :: "eval_env \<Rightarrow> runner_opts \<Rightarrow> string" where
  "stamped_hash env opts =
     (if ru_WeightsHash opts \<noteq> '''' then ru_WeightsHash opts
      else if ru_WeightsPath opts \<noteq> ''''
        then (case WeightsHashFile (en_Reg env) (ru_WeightsPath opts) of None \<Rightarrow> '''' | Some h \<Rightarrow> h)
      else if ru_WeightsYAML opts \<noteq> '''' then WeightsHashBytes (en_Reg env) (ru_WeightsYAML opts)
      else '''')"

definition share :: "int \<Rightarrow> int \<Rightarrow> f64" where
  "share k n = (if n > 0 then of_int_f64 k / of_int_f64 n else 0)"

definition build_surface ::
  "eval_env \<Rightarrow> gotime \<Rightarrow> eval_config \<Rightarrow> backtest_config \<Rightarrow> runner_opts \<Rightarrow> data_quality option \<Rightarrow> eval_metrics \<Rightarrow> board_select_stats \<Rightarrow>
   eval_surface" where
  \<comment> \<open>from \<open>NewSurface\<close> to the call of \<open>FinalizeSurface\<close>\<close>
  "build_surface env now cfg bc opts dq metrics stats =
     (let s = enveloped env now cfg metrics in
      s\<lparr>sf_DataQuality := dq, sf_StrategyName := or_text ''default'' (wt_Name (bt_Weights bc)),
        sf_ActionModel := or_text ActionSignFromEdge (bt_ActionModel bc),
        sf_LabelProtocol := (sf_LabelProtocol s)\<lparr>lp_AsOfField := ''features_asof'', lp_NoFutureInFeatures := True, lp_PointInTime := True\<rparr>,
        sf_WeightsPath := ru_WeightsPath opts, sf_StrategyVersionID := ru_StrategyVersionID opts,
        sf_WeightsHash := stamped_hash env opts,
        sf_FVCoverage := share (bq_FVHits stats) (bq_BoardN stats),
        sf_BookCoverageBoard := share (bq_BoardWithBook stats) (bq_BoardN stats),
        sf_BookCoverage := share (bq_BoardWithBook stats) (bq_BoardN stats),
        sf_BookCoverageUniverse := share (bq_UniverseWithBook stats) (bq_UniverseN stats),
        sf_Errors := (if em_N metrics = 0
          then [\<lparr>ei_Code = ''min_sample'', ei_Message = ''no labeled decisions (need prices at T and T+h)'', ei_Component = ''eval''\<rparr>]
          else [])\<rparr>)"

section \<open>The run\<close>

definition run_config :: "runner_opts \<Rightarrow> eval_config" where
  "run_config opts = (if ec_PrimaryHorizon (ru_Cfg opts) = '''' then DefaultConfig else ru_Cfg opts)"

definition run_backtest_config :: "gotime \<Rightarrow> runner_opts \<Rightarrow> backtest_config" where
  "run_backtest_config now opts =
     (let bc = (ru_Backtest opts)\<lparr>bt_Cfg := run_config opts\<rparr> in
      bc\<lparr>bt_BoardN := (if bt_BoardN bc \<le> 0 then 50 else bt_BoardN bc),
         bt_Lookback := (if bt_Lookback bc \<le> 0 then 30 * 24 * hour else bt_Lookback bc),
         bt_End := (if IsZero (bt_End bc) then now else bt_End bc),
         bt_Weights := used_weights (bt_Weights bc)\<rparr>)"

definition synth_report ::
  "runner_opts \<Rightarrow> (string, price_series) gomap \<Rightarrow> (string, book_series) gomap \<Rightarrow> gotime list \<Rightarrow> gotime \<Rightarrow> gotime \<Rightarrow> bool \<Rightarrow>
   (string, price_series) gomap \<times> (string, book_series) gomap \<times> data_quality option" where
  "synth_report opts prices books ts from_t to_t useBooks =
     (if \<not> ru_SynthFill opts then (prices, books, None)
      else
        let so = Normalize_opts (ru_Synth opts);
            (prices', books', r) = applySynthFill prices books ts from_t to_t so useBooks;
            pm = (if ru_SynthPromoteMaxShare opts \<le> 0 then PromoteMaxSynthShare else ru_SynthPromoteMaxShare opts);
            sg = (if ru_SynthSignificantShare opts \<le> 0 then SignificantSynthShare else ru_SynthSignificantShare opts)
        in (prices', books', Some (dataQualityFromReport so (Finalize pm sg r))))"

definition min_depth :: "weights \<Rightarrow> f64" where
  "min_depth w = (if wt_MinDepthShares w \<le> 0 then 10 else wt_MinDepthShares w)"

definition finish_run ::
  "eval_env \<Rightarrow> runner_opts \<Rightarrow> eval_config \<Rightarrow> eval_surface \<Rightarrow> label list \<Rightarrow> int \<Rightarrow> int \<Rightarrow> eval_db \<Rightarrow> (run_error + run_result) \<times> eval_db" where
  \<comment> \<open>gates, label rows, file\<close>
  "finish_run env opts cfg s labels nSnaps nTokens db =
     (case FinalizeSurface (en_ParsesTime env) (en_Words env) cfg s of
        (Some e, _) \<Rightarrow> (Inl (ErrFinalize e), db)
      | (None, s) \<Rightarrow>
          let db = (if ru_PersistLabels opts \<and> \<not> ed_LabelsFail db
                    then db\<lparr>ed_Labels := InsertLabelRows (labelsToDB labels (sf_RunID s)) (ed_Labels db)\<rparr> else db);
              result = (\<lambda>s. \<lparr>rr_Surface = s, rr_Labels = labels, rr_NSnaps = nSnaps, rr_NTokens = nTokens\<rparr>)
          in if ru_ArtifactsRoot opts = '''' then (Inr (result s), db)
             else let (ok, s) = WriteSurface env s in if ok then (Inr (result s), db) else (Inl ErrWrite, db))"

definition run_full ::
  "eval_env \<Rightarrow> runner_opts \<Rightarrow> gotime \<Rightarrow> eval_config \<Rightarrow> backtest_config \<Rightarrow> duration \<Rightarrow> bool \<Rightarrow> eval_market_meta list \<Rightarrow>
   (string, price_series) gomap \<Rightarrow> (string, book_series) gomap \<Rightarrow> gotime list \<Rightarrow> gotime \<Rightarrow> gotime \<Rightarrow> eval_db \<Rightarrow>
   (run_error + run_result) \<times> eval_db" where
  \<comment> \<open>from the gap fill to the end\<close>
  "run_full env opts now cfg bc bookAge useBooks markets prices books ts from_t to_t db =
     (let (prices, books, dq) = synth_report opts prices books ts from_t to_t useBooks;
          metaByCond = meta_index markets;
          rows = (if ed_SnapshotsFail db then []
                  else LoadEdgeBoardSnapshots (or_default (ru_Strategy opts)) from_t to_t (ed_Snapshots db));
          snaps = snapshots_at (market_at prices books metaByCond (BuildSnapIndex rows) bookAge
                    (min_depth (bt_Weights bc))) ts markets;
          bc = bc\<lparr>bt_ActionModel := or_text (ec_ActionModel cfg) (bt_ActionModel bc)\<rparr>;
          (labels, stats) = RunBacktest (en_ParseDuration env) (en_Shuffle env) snaps prices bc;
          metrics = BuildMetrics labels (ec_PrimaryHorizon cfg)
      in finish_run env opts cfg (build_surface env now cfg bc opts dq metrics stats) labels
           (int (length snaps)) (int (length prices)) db)"

definition RunDBOnly :: "eval_env \<Rightarrow> gotime \<Rightarrow> runner_opts \<Rightarrow> eval_db \<Rightarrow> (run_error + run_result) \<times> eval_db" where
  "RunDBOnly env now opts db =
     (let cfg = run_config opts;
          bc = run_backtest_config now opts;
          bookAge = (if ru_BookMaxStaleness opts \<le> 0 then 2 * hour else ru_BookMaxStaleness opts);
          useBooks = (case ru_UseBooks opts of None \<Rightarrow> True | Some b \<Rightarrow> b)
      in case loadUniverse db (ru_Strategy opts) (bt_UniverseCap bc) of
           Inl e \<Rightarrow> (Inl e, db)
         | Inr (markets, toks) \<Rightarrow>
             if markets = [] then (Inr (emptySurface env now cfg ''no markets with tokens in DB'' bc opts), db)
             else
               let maxH = MaxHorizonDuration (en_ParseDuration env) cfg;
                   from_t = time_Add (bt_End bc) (- bt_Lookback bc - maxH - 24 * hour);
                   to_t = bt_End bc
               in if ed_PricesFail db then (Inl ErrLoadPrices, db)
                  else
                    let prices = load_prices db toks from_t to_t in
                    if prices = [] then (Inr (emptySurface env now cfg ''no prices_history rows for token set'' bc opts), db)
                    else
                      let books = load_books db useBooks toks from_t to_t;
                          ts = DecisionTimes now bc maxH
                      in if ts = [] then (Inr (emptySurface env now cfg ''empty decision grid'' bc opts), db)
                         else run_full env opts now cfg bc bookAge useBooks markets prices books ts from_t to_t db)"


section \<open>The verdict of a run\<close>

lemma FinalizeSurface_cases:
  "FinalizeSurface p aw cfg s = (None, s') \<Longrightarrow>
   \<exists>s0. s0 = (if sf_PolicyParity s = '''' then s\<lparr>sf_PolicyParity := PolicyParityScanBoard\<rparr> else s) \<and>
     s' = (EvaluateGates s0 (GateConfig cfg))\<lparr>sf_Status := sf_Status s'\<rparr>"
  by (auto simp: FinalizeSurface_def Let_def split: option.splits)

lemma WriteSurface_frame:
  "sf_PromoteEligible (snd (WriteSurface env s)) = sf_PromoteEligible s"
  "sf_GatesPassed (snd (WriteSurface env s)) = sf_GatesPassed s"
  by (simp_all add: WriteSurface_def)

lemma finish_run_surface:
  assumes "fst (finish_run env opts cfg s labels k n db) = Inr r" and "sf_PolicyParity s = PolicyParityScanBoard"
  shows "rr_Labels r = labels \<and> rr_NTokens r = n \<and>
    sf_PromoteEligible (rr_Surface r) = sf_PromoteEligible (EvaluateGates s (GateConfig cfg)) \<and>
    sf_GatesPassed (rr_Surface r) = sf_GatesPassed (EvaluateGates s (GateConfig cfg))"
proof -
  obtain e s' where f: "FinalizeSurface (en_ParsesTime env) (en_Words env) cfg s = (e, s')" by fastforce
  then have e: "e = None" using assms(1) by (cases e) (auto simp: finish_run_def)
  have s': "s' = (EvaluateGates s (GateConfig cfg))\<lparr>sf_Status := sf_Status s'\<rparr>"
    using FinalizeSurface_cases [OF f [unfolded e]] assms(2) by (simp add: PolicyParityScanBoard_def)
  have eq: "sf_PromoteEligible s' = sf_PromoteEligible (EvaluateGates s (GateConfig cfg))"
    "sf_GatesPassed s' = sf_GatesPassed (EvaluateGates s (GateConfig cfg))" by (subst s', simp)+
  show ?thesis
    using assms(1) WriteSurface_frame [of env s'] unfolding eq [symmetric]
    by (auto simp: finish_run_def f e Let_def case_prod_unfold split: if_splits)
qed

lemma build_surface_sel:
  "sf_PolicyParity (build_surface env now cfg bc opts dq metrics stats) = PolicyParityScanBoard"
  "sf_Metrics (build_surface env now cfg bc opts dq metrics stats) = metrics"
  "lp_PointInTime (sf_LabelProtocol (build_surface env now cfg bc opts dq metrics stats))"
  "lp_NoFutureInFeatures (sf_LabelProtocol (build_surface env now cfg bc opts dq metrics stats))"
  "lp_AsOfField (sf_LabelProtocol (build_surface env now cfg bc opts dq metrics stats)) = ''features_asof''"
  by (simp_all add: build_surface_def enveloped_def NewSurface_def Let_def)

lemma synth_report_nonempty: "fst (synth_report opts prices books ts f t ub) = [] \<longleftrightarrow> prices = []"
  by (simp add: synth_report_def applySynthFill_def Let_def case_prod_unfold)

lemma RunDBOnly_cases:
  assumes "RunDBOnly env now opts db = (Inr r, db')"
  obtains (empty) msg where "r = emptySurface env now (run_config opts) msg (run_backtest_config now opts) opts" "db' = db"
  | (full) snaps prices bc labels stats dq where
      "RunBacktest (en_ParseDuration env) (en_Shuffle env) snaps prices bc = (labels, stats)" "prices \<noteq> []"
      "finish_run env opts (run_config opts)
         (build_surface env now (run_config opts) bc opts dq (BuildMetrics labels (ec_PrimaryHorizon (run_config opts))) stats)
         labels (int (length snaps)) (int (length prices)) db = (Inr r, db')"
proof (cases "loadUniverse db (ru_Strategy opts) (bt_UniverseCap (run_backtest_config now opts))")
  case (Inl e)
  then show thesis using assms by (simp add: RunDBOnly_def)
next
  case (Inr mt)
  let ?cfg = "run_config opts" and ?bc = "run_backtest_config now opts"
  let ?maxH = "MaxHorizonDuration (en_ParseDuration env) ?cfg"
  let ?f = "time_Add (bt_End ?bc) (- bt_Lookback ?bc - ?maxH - 24 * hour)"
  let ?ts = "DecisionTimes now ?bc ?maxH"
  obtain markets toks where mt: "mt = (markets, toks)" by fastforce
  let ?prices = "load_prices db toks ?f (bt_End ?bc)"
  note eq = assms [unfolded RunDBOnly_def Let_def Inr mt sum.case prod.case]
  show thesis
  proof (cases "markets = []")
    case True
    from eq [unfolded if_P [OF True]] show thesis by (intro empty [where msg = "''no markets with tokens in DB''"]) auto
  next
    case ms: False
    have pf: "\<not> ed_PricesFail db" using eq [unfolded if_not_P [OF ms]] by (rule contrapos_pn) simp
    show thesis
    proof (cases "?prices = []")
      case True
      from eq [unfolded if_not_P [OF ms] if_not_P [OF pf] if_P [OF True]] show thesis by (intro empty [where msg = "''no prices_history rows for token set''"]) auto
    next
      case ps: False
      show thesis
      proof (cases "?ts = []")
        case True
        from eq [unfolded if_not_P [OF ms] if_not_P [OF pf] if_not_P [OF ps] if_P [OF True]] show thesis by (intro empty [where msg = "''empty decision grid''"]) auto
      next
        case False
        note run = eq [unfolded if_not_P [OF ms] if_not_P [OF pf] if_not_P [OF ps] if_not_P [OF False]]
        let ?ub = "case ru_UseBooks opts of None \<Rightarrow> True | Some b \<Rightarrow> b"
        let ?sr = "synth_report opts ?prices (load_books db ?ub toks ?f (bt_End ?bc)) ?ts ?f (bt_End ?bc) ?ub"
        obtain qs bs dq where sr: "?sr = (qs, bs, dq)" by (metis prod_cases3)
        with synth_report_nonempty [of opts ?prices] ps have ne: "qs \<noteq> []" by (metis fst_conv)
        from run [unfolded run_full_def Let_def sr prod.case] show thesis
          by (intro full [OF surjective_pairing ne]) (simp add: case_prod_unfold)
      qed
    qed
  qed
qed


definition candidate_labels :: "eval_config \<Rightarrow> label list \<Rightarrow> label list" where
  \<comment> \<open>the candidate's labels on the primary horizon\<close>
  "candidate_labels cfg labels =
     filterPolicy (filter (\<lambda>l. lb_Horizon l = or_text ''1h'' (ec_PrimaryHorizon cfg)) labels) ''candidate'' True"

lemma hm_N_Aggregate: "hm_N (AggregateLabels ls) = int (length ls)"
  by (simp add: AggregateLabels_def no_metrics_def Let_def)

lemma built_metrics:
  fixes cfg labels defines "m \<equiv> BuildMetrics labels (ec_PrimaryHorizon cfg)"
  shows "em_N m = int (length (candidate_labels cfg labels))"
    "hm_N (em_Overall m) = int (length (candidate_labels cfg labels))"
    "hm_AfterCostReturnBps (em_Overall m) = hm_AfterCostReturnBps (AggregateLabels (candidate_labels cfg labels))"
  unfolding m_def by (simp_all add: BuildMetrics_def candidate_labels_def or_text_def Let_def hm_N_Aggregate)

lemma sample_size_metrics: "em_N (sf_Metrics s) = n \<Longrightarrow> hm_N (em_Overall (sf_Metrics s)) = n \<Longrightarrow> sample_size s = n"
  by (simp add: sample_size_def)

lemma empty_not_eligible:
  "\<not> sf_PromoteEligible (rr_Surface (emptySurface env now cfg msg bc opts))"
  "rr_Labels (emptySurface env now cfg msg bc opts) = []" "rr_NTokens (emptySurface env now cfg msg bc opts) = 0"
proof -
  have no: "\<not> sf_PromoteEligible (snd (FinalizeSurface p aw cfg s))"
    if "\<not> sf_PromoteEligible s" "sf_Metrics s = no_eval_metrics ph" for s p aw ph
  proof -
    have "\<not> sf_PromoteEligible (EvaluateGates s' gc)" if "sf_Metrics s' = no_eval_metrics ph" for s' gc
      using evaluated [of s' gc] that by (auto simp: no_eval_metrics_def no_metrics_def)
    then show ?thesis using that by (simp add: FinalizeSurface_def Let_def split: option.split)
  qed
  let ?s = "(enveloped env now cfg (no_eval_metrics (ec_PrimaryHorizon cfg)))
    \<lparr>sf_StrategyName := wt_Name (bt_Weights bc), sf_WeightsPath := ru_WeightsPath opts,
     sf_Errors := [\<lparr>ei_Code = ''no_data'', ei_Message = msg, ei_Component = ''eval''\<rparr>]\<rparr>"
  let ?f = "snd (FinalizeSurface (en_ParsesTime env) (en_Words env) cfg ?s)"
  have "\<not> sf_PromoteEligible ?s" "sf_Metrics ?s = no_eval_metrics (ec_PrimaryHorizon cfg)"
    by (simp_all add: enveloped_def NewSurface_def)
  then have "\<not> sf_PromoteEligible ?f" by (rule no)
  moreover have "rr_Surface (emptySurface env now cfg msg bc opts) =
      (if ru_ArtifactsRoot opts \<noteq> '''' then snd (WriteSurface env ?f) else ?f)"
    unfolding emptySurface_def Let_def by simp
  ultimately show "\<not> sf_PromoteEligible (rr_Surface (emptySurface env now cfg msg bc opts))"
    using WriteSurface_frame(1) by metis
  show "rr_Labels (emptySurface env now cfg msg bc opts) = []" "rr_NTokens (emptySurface env now cfg msg bc opts) = 0"
    by (simp_all add: emptySurface_def Let_def)
qed

text \<open>A run that says promote has the labels for it.  The surface of a run is eligible only if the run labelled at
  least the minimum sample of candidate decisions on the primary horizon, and their mean return after costs is
  positive.  In particular a run without markets, prices or decision times is never eligible.\<close>

lemma eligible_run_labels:
  assumes "RunDBOnly env now opts db = (Inr r, db')" and "sf_PromoteEligible (rr_Surface r)"
  shows "gc_MinSample (effective_gates (GateConfig (run_config opts))) \<le> int (length (candidate_labels (run_config opts) (rr_Labels r))) \<and>
    hm_AfterCostReturnBps (AggregateLabels (candidate_labels (run_config opts) (rr_Labels r))) > 0 \<and> 0 < rr_NTokens r"
  using assms(1)
proof (cases rule: RunDBOnly_cases)
  case (empty msg)
  then show ?thesis using assms(2) empty_not_eligible by simp
next
  case (full snaps prices bc labels stats dq)
  let ?cfg = "run_config opts"
  let ?s = "build_surface env now ?cfg bc opts dq (BuildMetrics labels (ec_PrimaryHorizon ?cfg)) stats"
  have "fst (finish_run env opts ?cfg ?s labels (int (length snaps)) (int (length prices)) db) = Inr r"
    using full(3) by simp
  from finish_run_surface [OF this build_surface_sel(1)]
  have r: "rr_Labels r = labels" "rr_NTokens r = int (length prices)" "sf_PromoteEligible (EvaluateGates ?s (GateConfig ?cfg))"
    using assms(2) by auto
  have "sample_size ?s = int (length (candidate_labels ?cfg labels))"
    by (rule sample_size_metrics) (simp_all add: build_surface_sel built_metrics)
  then show ?thesis
    using r full(2) evaluated(2) [of ?s "GateConfig ?cfg"] by (simp add: build_surface_sel built_metrics)
qed

text \<open>C39: no run says promote without the labels for it.  There are no options, no database and no environment with
  which a run gives an eligible surface although it labelled fewer than the minimum sample of candidate decisions on
  the primary horizon, or their mean return after costs is not positive, or it had no prices.\<close>

theorem eligible_run_has_labels:
  "\<not> (\<exists>r. fst (RunDBOnly env now opts db) = Inr r \<and> sf_PromoteEligible (rr_Surface r) \<and>
     \<not> (gc_MinSample (effective_gates (GateConfig (run_config opts))) \<le> int (length (candidate_labels (run_config opts) (rr_Labels r))) \<and>
        hm_AfterCostReturnBps (AggregateLabels (candidate_labels (run_config opts) (rr_Labels r))) > 0 \<and> 0 < rr_NTokens r))"
proof (clarify, goal_cases)
  case (1 r)
  then have "RunDBOnly env now opts db = (Inr r, snd (RunDBOnly env now opts db))" by (metis prod.collapse)
  from eligible_run_labels [OF this 1(2)] 1(3) show False by blast
qed

text \<open>The absence of lookahead is asserted, not checked: whatever the options, the gap fill among them, a run that got to its
  labels stamps the label protocol, so that the gates of point-in-time labels and of no lookahead pass.\<close>

lemma lookahead_gate_always_passes:
  assumes "RunDBOnly env now opts db = (Inr r, db')" and "0 < rr_NTokens r"
  shows "GatePITLabels \<in> set (sf_GatesPassed (rr_Surface r)) \<and> GateNoLookahead \<in> set (sf_GatesPassed (rr_Surface r))"
  using assms(1)
proof (cases rule: RunDBOnly_cases)
  case (empty msg)
  then show ?thesis using assms(2) empty_not_eligible by simp
next
  case (full snaps prices bc labels stats dq)
  let ?cfg = "run_config opts"
  let ?s = "build_surface env now ?cfg bc opts dq (BuildMetrics labels (ec_PrimaryHorizon ?cfg)) stats"
  have "fst (finish_run env opts ?cfg ?s labels (int (length snaps)) (int (length prices)) db) = Inr r"
    using full(3) by simp
  from finish_run_surface [OF this build_surface_sel(1)]
  have "sf_GatesPassed (rr_Surface r) = sf_GatesPassed (EvaluateGates ?s (GateConfig ?cfg))" by simp
  moreover have "{GatePITLabels, GateNoLookahead} \<subseteq> set (passed_of (verdicts gc ?s))" for gc
    by (simp add: passed_of_def verdicts_def pit_gates_def build_surface_sel)
  ultimately show ?thesis unfolding evaluated_lists by auto
qed

section \<open>Point in time\<close>

lemma series_points_ok:
  assumes "price_ok tbl" and "seconds_only tbl tok"
  shows "series_ok (series_of_points tok (series_points f t tbl tok))"
  using price_series_ascending [OF assms, of f t] by (auto simp: series_ok_def series_of_points_def strict_sorted_iff)


lemma get_cut: "go_get (map (\<lambda>(k, s). (k, cut_after t s)) prices) tok = map_option (cut_after t) (go_get prices tok)"
  by (induction prices) auto

lemma market_at_cut:
  assumes "\<And>tok s. go_get prices tok = Some s \<Longrightarrow> series_ok s"
  shows "market_at (map (\<lambda>(k, s). (k, cut_after t s)) prices) books metas idx age md t m = market_at prices books metas idx age md t m"
proof (cases "go_get prices (mm_TokenID m)")
  case (Some ps)
  then have ok: "series_ok ps" by (rule assms)
  have group: "GroupMidsAtT t meta metas (map (\<lambda>(k, s). (k, cut_after t s)) prices) = GroupMidsAtT t meta metas prices" for meta
    using assms by (rule GroupMids_cut)
  show ?thesis
    unfolding market_at_def get_cut Some option.map option.case FeaturesAsOf_cut [OF ok] VolumeProxy24h_def ActivityProxy24h_def
      PointCount_cut [OF ok] PathActivity_cut [OF ok] MidAsOf_cut [OF ok order.refl] group by (rule refl)
qed (simp add: market_at_def get_cut)

lemma LoadPriceSeries_mem:
  assumes "(tok, ps) \<in> set (LoadPriceSeries toks f t tbl)"
  shows "tok \<in> set toks \<and> ps = series_points f t tbl tok"
proof -
  from assms obtain x where "x \<in> set toks"
    "(case series_points f t tbl x of [] \<Rightarrow> None | ps \<Rightarrow> Some (x, ps)) = Some (tok, ps)"
    by (auto simp: LoadPriceSeries_def map_filter_mem)
  then show ?thesis by (cases "series_points f t tbl x") auto
qed

lemma load_prices_ok:
  assumes "price_ok (ed_Prices db)" and "\<forall>tok \<in> set toks. seconds_only (ed_Prices db) tok"
    and "go_get (load_prices db toks f t) tok = Some s"
  shows "series_ok s"
proof -
  from map_of_SomeD [OF assms(3)] have "s = series_of_points tok (series_points f t (ed_Prices db) tok) \<and> tok \<in> set toks"
    by (auto simp: load_prices_def dest!: LoadPriceSeries_mem)
  then show ?thesis using series_points_ok [OF assms(1)] assms(2) by simp
qed


definition demo_db :: eval_db where
  "demo_db = \<lparr>ed_Markets = [], ed_Board = [], ed_Prices = one_scale, ed_Books = [], ed_Snapshots = [], ed_Labels = [],
     ed_TopFails = False, ed_BoardFails = False, ed_PricesFail = False, ed_BooksFail = False, ed_SnapshotsFail = False,
     ed_LabelsFail = False\<rparr>"


definition two_prices :: "real \<Rightarrow> (string, price_series) gomap" where
  \<comment> \<open>a price at ten o'clock and one at twenty\<close>
  "two_prices p = [(''t'', \<lparr>ps_TokenID = ''t'', ps_Times = [10 * hour, 20 * hour], ps_Prices = [Fin (4 / 10), Fin p]\<rparr>)]"

lemma filled_two:
  assumes "1 / 1000 \<le> p" "p \<le> 999 / 1000"
  shows "fst (applySynthFill (two_prices p) [] [15 * hour] f t DefaultOpts False) =
    [(''t'', \<lparr>ps_TokenID = ''t'', ps_Times = [10 * hour, 15 * hour, 20 * hour],
       ps_Prices = [Fin (4 / 10), Fin (4 / 10 + 1 / 2 * (p - 4 / 10)), Fin p]\<rparr>)]"
proof -
  have "venue_prices (snd (hd (two_prices p))) = [left_sample, right_sample p]"
    by (simp add: venue_prices_def two_prices_def left_sample_def right_sample_def)
  then show ?thesis
    using fill_half_way [OF assms]
    by (simp add: applySynthFill_def two_prices_def Let_def fill_series_def case_prod_unfold left_sample_def right_sample_def)
qed

text \<open>with the gap fill a run looks ahead.  Two histories that are the same up to three o'clock in the afternoon, and
  differ in a price at eight in the evening only, give different mids at three after the fill, hence
  different features, edges and selections at that decision.\<close>

theorem synth_fill_leaks_future:
  "map (\<lambda>(k, s). (k, cut_after (15 * hour) s)) (two_prices (5 / 10)) =
     map (\<lambda>(k, s). (k, cut_after (15 * hour) s)) (two_prices (8 / 10)) \<and>
   (\<exists>s1 s2. go_get (fst (applySynthFill (two_prices (5 / 10)) [] [15 * hour] f t DefaultOpts False)) ''t'' = Some s1 \<and>
      go_get (fst (applySynthFill (two_prices (8 / 10)) [] [15 * hour] f t DefaultOpts False)) ''t'' = Some s2 \<and>
      series_MidAsOf s1 (15 * hour) = Some (Fin (45 / 100)) \<and> series_MidAsOf s2 (15 * hour) = Some (Fin (60 / 100)))"
proof (intro conjI)
  show "map (\<lambda>(k, s). (k, cut_after (15 * hour) s)) (two_prices (5 / 10)) =
     map (\<lambda>(k, s). (k, cut_after (15 * hour) s)) (two_prices (8 / 10))"
    by (simp add: two_prices_def cut_after_def known_at_def hour_def)
  have "indexAtOrBefore \<lparr>ps_TokenID = ''t'', ps_Times = [10 * hour, 15 * hour, 20 * hour], ps_Prices = ps\<rparr> (15 * hour) = 1" for ps
    using at_or_before_sorted [of "[10 * hour, 15 * hour, 20 * hour]" "15 * hour"]
    by (simp add: indexAtOrBefore_def at_or_before_def hour_def)
  then show "\<exists>s1 s2. go_get (fst (applySynthFill (two_prices (5 / 10)) [] [15 * hour] f t DefaultOpts False)) ''t'' = Some s1 \<and>
      go_get (fst (applySynthFill (two_prices (8 / 10)) [] [15 * hour] f t DefaultOpts False)) ''t'' = Some s2 \<and>
      series_MidAsOf s1 (15 * hour) = Some (Fin (45 / 100)) \<and> series_MidAsOf s2 (15 * hour) = Some (Fin (60 / 100))"
    using filled_two [of "5 / 10"] filled_two [of "8 / 10"] by (simp add: series_MidAsOf_def)
qed

section \<open>Counts and the universe\<close>

text \<open>a book that cannot be filled is counted twice.  A token without books whose series has no mid at a decision
  time keeps no entry after the first loop over the tokens, so the second loop fills it again and the one
  missing book is two in the report.\<close>

theorem missing_book_counted_twice:
  "mx_Missing (rp_BookMix (snd (snd (applySynthFill (two_prices (5 / 10)) [] [hour] f t DefaultOpts True)))) = 2"
proof -
  define s where "s = \<lparr>ps_TokenID = ''t'', ps_Times = [10 * hour, 20 * hour], ps_Prices = [Fin (4 / 10), Fin (5 / 10)]\<rparr>"
  have two: "two_prices (5 / 10) = [(''t'', s)]" by (simp add: two_prices_def s_def)
  have "venue_prices s = [left_sample, right_sample (5 / 10)]"
    by (simp add: venue_prices_def s_def left_sample_def right_sample_def)
  then have filled: "fst (fill_series DefaultOpts [hour] ''t'' s) = s"
    using fill_too_early [of "5 / 10"]
    by (simp add: fill_series_def case_prod_unfold s_def left_sample_def right_sample_def)
  have "at_or_before [10 * hour, 20 * hour] hour = - 1"
    using at_or_before_sorted [of "[10 * hour, 20 * hour]" hour] by (simp add: hour_def)
  then have "series_MidAsOf s hour = None"
    by (simp add: series_MidAsOf_def indexAtOrBefore_def at_or_before_def s_def)
  then have one: "fill_token_books DefaultOpts [hour] [] (bs, m) (tok, s) = (bs, mix_Add m (no_mix\<lparr>mx_Missing := 1\<rparr>))" for bs m tok
    using no_book_without_mid [of "series_MidAsOf s" hour] by (simp add: fill_token_books_def)
  obtain m where "fill_series DefaultOpts [hour] ''t'' s = (s, m)" using filled by (metis prod.collapse)
  then show ?thesis
    unfolding two
    by (simp add: applySynthFill_def Let_def fill_known_books_def fill_missing_books_def go_has_def one fresh_report_def
        mix_Add_def, simp add: no_mix_def)
qed

definition universe_sources :: "eval_db \<Rightarrow> string \<Rightarrow> int \<Rightarrow> eval_market_meta list" where
  "universe_sources db strategy cap =
     LoadTopVolumeMarkets (if cap \<le> 0 then 500 else cap) (ed_Markets db) @
     (if ed_BoardFails db then [] else LoadEdgeBoardTokens strategy (ed_Board db))"

definition universe_map_ok :: "(string, eval_market_meta) gomap \<Rightarrow> bool" where
  "universe_map_ok m \<longleftrightarrow> go_wf m \<and> (\<forall>(k, x) \<in> set m. mm_ConditionID x = k \<and> mm_TokenID x \<noteq> '''')"

lemma universe_put:
  assumes "universe_map_ok m" and "mm_TokenID x \<noteq> ''''" and "mm_ConditionID x = k"
  shows "universe_map_ok (go_put k x m)" and "set (go_keys (go_put k x m)) = insert k (set (go_keys m))"
proof -
  have wf: "go_wf (go_put k x m)" using assms(1) by (simp add: universe_map_ok_def distinct_update)
  have "(k', y) \<in> set m \<or> (k' = k \<and> y = x)" if "(k', y) \<in> set (go_put k x m)" for k' y
    using map_of_is_SomeI [OF wf that] by (auto simp: update_conv' dest: map_of_SomeD split: if_splits)
  then have "mm_ConditionID y = k' \<and> mm_TokenID y \<noteq> ''''" if "(k', y) \<in> set (go_put k x m)" for k' y
    using that assms unfolding universe_map_ok_def by blast
  then show "universe_map_ok (go_put k x m)" using wf unfolding universe_map_ok_def by blast
  show "set (go_keys (go_put k x m)) = insert k (set (go_keys m))"
    using dom_update [of k x m] by (simp add: dom_map_of_conv_image_fst)
qed

lemma merge_board_ok:
  assumes "universe_map_ok m" and "mm_TokenID x \<noteq> ''''"
  shows "universe_map_ok (merge_board m x) \<and> set (go_keys (merge_board m x)) = insert (mm_ConditionID x) (set (go_keys m))"
proof (cases "go_get m (mm_ConditionID x)")
  case (Some e)
  then have "mm_ConditionID e = mm_ConditionID x"
    using assms(1) by (auto simp: universe_map_ok_def dest: map_of_SomeD)
  then show ?thesis using universe_put [OF assms(1), of "overlay_board e x"] assms(2) Some by (simp add: merge_board_def overlay_board_def)
qed (use universe_put [OF assms(1,2)] in \<open>simp add: merge_board_def\<close>)

lemma universe_fold:
  assumes "universe_map_ok m" and "\<forall>x \<in> set xs. mm_TokenID x \<noteq> ''''"
  shows "universe_map_ok (foldl merge_board m xs) \<and> set (go_keys (foldl merge_board m xs)) = mm_ConditionID ` set xs \<union> set (go_keys m)"
    and "universe_map_ok (foldl (\<lambda>m x. go_put (mm_ConditionID x) x m) m xs) \<and>
      set (go_keys (foldl (\<lambda>m x. go_put (mm_ConditionID x) x m) m xs)) = mm_ConditionID ` set xs \<union> set (go_keys m)"
  using assms
proof (induction xs arbitrary: m)
  case (Cons x xs)
  {
    case 1
    then show ?case using Cons.IH(1) [of "merge_board m x"] merge_board_ok [of m x] by auto
  next
    case 2
    then show ?case using Cons.IH(2) [of "go_put (mm_ConditionID x) x m"] universe_put [of m x "mm_ConditionID x"] by auto
  }
qed simp_all

text \<open>the universe of a run has every market of the volume query and of the board once: its markets are those of the two sources,
  one for each condition and each with a token, and the tokens to load are theirs in the same order.\<close>

theorem universe_complete:
  assumes "loadUniverse db strategy cap = Inr (markets, toks)"
  shows "distinct (map mm_ConditionID markets) \<and>
    mm_ConditionID ` set markets = mm_ConditionID ` set (universe_sources db strategy cap) \<and>
    toks = map mm_TokenID markets \<and> '''' \<notin> set toks"
proof -
  define top where "top = LoadTopVolumeMarkets (if cap \<le> 0 then 500 else cap) (ed_Markets db)"
  define board where "board = (if ed_BoardFails db then [] else LoadEdgeBoardTokens strategy (ed_Board db))"
  let ?base = "foldl (\<lambda>m x. go_put (mm_ConditionID x) x m) [] top"
  let ?joined = "foldl merge_board ?base board"
  have src: "universe_sources db strategy cap = top @ board" by (simp add: universe_sources_def top_def board_def)
  have tok: "\<forall>x \<in> set top. mm_TokenID x \<noteq> ''''" "\<forall>x \<in> set board. mm_TokenID x \<noteq> ''''"
    by (auto simp: top_def board_def LoadTopVolumeMarkets_def LoadEdgeBoardTokens_def Let_def)
  have "universe_map_ok []" by (simp add: universe_map_ok_def)
  from universe_fold(2) [OF this tok(1)] have m0: "universe_map_ok ?base" "set (go_keys ?base) = mm_ConditionID ` set top" by auto
  have m: "universe_map_ok ?joined" "set (go_keys ?joined) = mm_ConditionID ` set (universe_sources db strategy cap)"
  proof -
    have f: "universe_map_ok ?joined \<and> set (go_keys ?joined) = mm_ConditionID ` set board \<union> set (go_keys ?base)"
      by (rule universe_fold(1) [OF m0(1) tok(2)])
    show "universe_map_ok ?joined" by (rule conjunct1 [OF f])
    show "set (go_keys ?joined) = mm_ConditionID ` set (universe_sources db strategy cap)"
      unfolding src set_append image_Un conjunct2 [OF f] m0(2) by (rule Un_commute)
  qed
  have all: "filter (\<lambda>m. mm_TokenID m \<noteq> '''') (map snd ?joined) = map snd ?joined"
    using m(1) by (intro filter_True) (auto simp: universe_map_ok_def)
  have r: "markets = map snd ?joined" "toks = map mm_TokenID markets"
    using assms unfolding loadUniverse_def Let_def top_def [symmetric] board_def [symmetric] all by (auto split: if_splits)
  have keys: "map mm_ConditionID (map snd ?joined) = go_keys ?joined"
    using m(1) by (auto simp: universe_map_ok_def)
  have ids: "mm_ConditionID ` set markets = set (go_keys ?joined)" unfolding r(1) keys [symmetric] by (simp add: image_image)
  have "distinct (map mm_ConditionID markets)" unfolding r(1) keys using m(1) by (simp add: universe_map_ok_def)
  moreover have "'''' \<notin> set toks" unfolding r(2) r(1) using m(1) by (auto simp: universe_map_ok_def)
  ultimately show ?thesis unfolding ids m(2) using r(2) by simp
qed

definition board_db :: eval_db where
  "board_db = demo_db\<lparr>ed_Board := [((''default'', ''a''), demo_board_row ''a'' 1)]\<rparr>"

theorem universe_complete_witness:
  "\<exists>ms ts. loadUniverse board_db '''' 0 = Inr (ms, ts) \<and> mm_ConditionID ` set ms = {''a''}"
proof -
  obtain ms ts where l: "loadUniverse board_db '''' 0 = Inr (ms, ts)"
    by (simp add: loadUniverse_def board_db_def demo_db_def Let_def)
  moreover have "mm_ConditionID ` set (universe_sources board_db '''' 0) = {''a''}"
    by (simp add: universe_sources_def board_db_def demo_db_def LoadTopVolumeMarkets_def LoadEdgeBoardTokens_def board_rows_def
        sort_by_def or_default_def meta_of_board_def demo_board_row_def first_text_def)
  ultimately show ?thesis using universe_complete [OF l] by auto
qed

end
