(* ===== verification/Market_Rank.thy ===== *)
theory Market_Rank
  imports Go_Text
begin

text \<open>
  The markets, events and tags of the venue (\<open>internal/services/plymkt.go\<close>, the fields the components read), which of
  them are tradable (\<open>internal/tagagg\<close>), and the activity ranking of \<open>internal/marketranking/market_ranking.go\<close>.  A market is
  reached through a pointer: a heap maps addresses to markets, None is the nil pointer, and \<open>RankMarkets\<close> writes the score
  and the time into the markets it ranks.  \<open>sort.Slice\<close> is taken to keep the order of equal elements; the clock is read once
  for a ranking; the environment variables that override the weights are a function from names to texts.
  Lemmas: what a ranking returns, in which order, and which markets it writes.
\<close>

section \<open>Markets, events and tags\<close>

record gamma_market =
  gm_ID :: string
  gm_Question :: string
  gm_ConditionID :: string
  gm_EndDate :: gotime
  gm_Category :: string
  gm_Liquidity :: string
  gm_StartDate :: gotime
  gm_Volume :: string
  gm_Active :: bool
  gm_Closed :: bool
  gm_ClosedTime :: string
  gm_EnableOrderBook :: bool
  gm_VolumeNum :: f64
  gm_LiquidityNum :: f64
  gm_Volume24hr :: f64
  gm_ClobTokenIds :: string
  gm_Volume24hrClob :: f64
  gm_VolumeClob :: f64
  gm_LiquidityClob :: f64
  gm_TakerBaseFee :: int
  gm_AcceptingOrders :: bool
  gm_Spread :: f64
  gm_OneDayPriceChange :: f64
  gm_EventID :: string
  gm_ComputedScore :: f64
  gm_LastFetched :: gotime

record gamma_tag =
  gt_ID :: string
  gt_Label :: string
  gt_Slug :: string
  gt_ParentTagID :: string
  gt_TotalVol :: f64
  gt_TotalVol24hr :: f64
  gt_TotalLiq :: f64
  gt_TotalMarkets :: int

type_synonym mptr = "nat option"
type_synonym heap = "nat \<Rightarrow> gamma_market"

record gamma_event =
  ge_ID :: string
  ge_NegRisk :: bool
  ge_EnableNegRisk :: bool
  ge_NegRiskMarketID :: string
  ge_NegRiskFeeBips :: int
  ge_Markets :: "mptr list"
  ge_Tags :: "gamma_tag option list"

definition catchAllTagID :: string where "catchAllTagID = ''100215''"

definition IsTradable :: "heap \<Rightarrow> mptr \<Rightarrow> bool" where
  "IsTradable h p =
     (case p of
        None \<Rightarrow> False
      | Some a \<Rightarrow> gm_EnableOrderBook (h a) \<and> gm_AcceptingOrders (h a) \<and> gm_Active (h a) \<and> \<not> gm_Closed (h a) \<and>
          gm_ClosedTime (h a) = '''')"

definition IsCatchAllTag :: "gamma_tag option \<Rightarrow> bool" where
  "IsCatchAllTag t =
     (case t of
        None \<Rightarrow> False
      | Some t \<Rightarrow> gt_ID t \<noteq> '''' \<and> (gt_ID t = catchAllTagID \<or> ToLower (TrimSpace (gt_Slug t)) = ''all''))"

section \<open>The ranking\<close>

record market_filter =
  mf_MinVolume24hr :: f64
  mf_MinLiquidity :: f64
  mf_MaxSpread :: f64
  mf_MinVolatility :: f64
  mf_MaxN :: int

record score_maxima =
  sm_MaxVol24hr :: f64
  sm_MaxLiquidity :: f64
  sm_MaxVol :: f64
  sm_MaxVolatility :: f64

record score_weights =
  sw_Vol24hr :: f64
  sw_Liquidity :: f64
  sw_Spread :: f64
  sw_Volatility :: f64
  sw_TimeLeft :: f64
  sw_UseEnvWeights :: bool

definition DefaultScoreWeights :: score_weights where
  "DefaultScoreWeights =
     \<lparr>sw_Vol24hr = Fin (45 / 100), sw_Liquidity = Fin (25 / 100), sw_Spread = Fin (15 / 100), sw_Volatility = Fin (8 / 100),
      sw_TimeLeft = Fin (7 / 100), sw_UseEnvWeights = True\<rparr>"

type_synonym environment = "string \<Rightarrow> string"

definition env_float :: "environment \<Rightarrow> string \<Rightarrow> f64 \<Rightarrow> f64" where
  \<comment> \<open>one of the five blocks of \<open>resolved\<close>\<close>
  "env_float env name d =
     (if env name \<noteq> '''' then (case ParseFloat (env name) of Some f \<Rightarrow> f | None \<Rightarrow> d) else d)"

definition resolved :: "environment \<Rightarrow> score_weights \<Rightarrow> score_weights" where
  "resolved env w =
     (if \<not> sw_UseEnvWeights w then w
      else w\<lparr>sw_Vol24hr := env_float env ''SCORE_W_VOL24HR'' (sw_Vol24hr w),
             sw_Liquidity := env_float env ''SCORE_W_LIQUIDITY'' (sw_Liquidity w),
             sw_Spread := env_float env ''SCORE_W_SPREAD'' (sw_Spread w),
             sw_Volatility := env_float env ''SCORE_W_VOLATILITY'' (sw_Volatility w),
             sw_TimeLeft := env_float env ''SCORE_W_TIMELEFT'' (sw_TimeLeft w)\<rparr>)"

definition marketLiquidity :: "gamma_market \<Rightarrow> f64" where
  "marketLiquidity m =
     (if \<not> feq (gm_LiquidityClob m) 0 then gm_LiquidityClob m
      else if \<not> feq (gm_LiquidityNum m) 0 then gm_LiquidityNum m
      else case ParseFloat (gm_Liquidity m) of Some v \<Rightarrow> v | None \<Rightarrow> 0)"

definition total_volume :: "gamma_market \<Rightarrow> f64" where
  "total_volume m =
     (let vol = (case ParseFloat (gm_Volume m) of Some v \<Rightarrow> v | None \<Rightarrow> 0)
      in if feq vol 0 then gm_VolumeNum m else vol)"

definition filtered_out :: "market_filter \<Rightarrow> gamma_market \<Rightarrow> bool" where
  "filtered_out f m \<longleftrightarrow>
     gm_Volume24hr m < mf_MinVolume24hr f \<or> marketLiquidity m < mf_MinLiquidity f \<or> gm_Spread m > mf_MaxSpread f \<or>
     \<bar>gm_OneDayPriceChange m\<bar> < mf_MinVolatility f"

definition raise_to :: "f64 \<Rightarrow> f64 \<Rightarrow> f64" where
  "raise_to x m = (if x > m then x else m)"

definition maxima_step :: "score_maxima \<Rightarrow> gamma_market \<Rightarrow> score_maxima" where
  "maxima_step mx m =
     mx\<lparr>sm_MaxVol24hr := raise_to (gm_Volume24hr m) (sm_MaxVol24hr mx),
        sm_MaxLiquidity := raise_to (marketLiquidity m) (sm_MaxLiquidity mx),
        sm_MaxVol := raise_to (total_volume m) (sm_MaxVol mx),
        sm_MaxVolatility := raise_to \<bar>gm_OneDayPriceChange m\<bar> (sm_MaxVolatility mx)\<rparr>"

definition no_maxima :: score_maxima where
  "no_maxima = \<lparr>sm_MaxVol24hr = 0, sm_MaxLiquidity = 0, sm_MaxVol = 0, sm_MaxVolatility = 0\<rparr>"

definition time_left_score :: "gotime \<Rightarrow> gamma_market \<Rightarrow> score_weights \<Rightarrow> f64" where
  \<comment> \<open>the last addend; zero when no branch adds\<close>
  "time_left_score now m w =
     (if IsZero (gm_EndDate m) then 0
      else
        let daysLeft = Hours (time_Sub (gm_EndDate m) now) / 24 in
        if \<not> daysLeft > 0 then 0
        else if daysLeft \<ge> 4 \<and> daysLeft \<le> 21 then sw_TimeLeft w
        else if daysLeft > 21 then (1 - math_Min ((daysLeft - 21) / 180) 1) * sw_TimeLeft w * Fin (7 / 10)
        else (daysLeft / 4) * sw_TimeLeft w * Fin (5 / 10))"

definition share_of_max :: "f64 \<Rightarrow> f64 \<Rightarrow> f64 \<Rightarrow> f64" where
  "share_of_max x mx w = (if mx > 0 then (x / mx) * w else 0)"

definition ComputeScore :: "environment \<Rightarrow> gotime \<Rightarrow> gamma_market \<Rightarrow> score_maxima \<Rightarrow> score_weights \<Rightarrow> f64" where
  "ComputeScore env now m mx w =
     (if \<not> gm_Active m \<or> gm_Closed m \<or> gm_ClobTokenIds m = '''' then 0
      else
        let w = resolved env w in
        share_of_max (gm_Volume24hr m) (sm_MaxVol24hr mx) (sw_Vol24hr w) +
        share_of_max (marketLiquidity m) (sm_MaxLiquidity mx) (sw_Liquidity w) +
        (if gm_Spread m > 0 then (1 - math_Min (gm_Spread m / Fin (10 / 100)) 1) * sw_Spread w else sw_Spread w) +
        share_of_max \<bar>gm_OneDayPriceChange m\<bar> (sm_MaxVolatility mx) (sw_Volatility w) +
        time_left_score now m w)"

definition write_score :: "environment \<Rightarrow> gotime \<Rightarrow> score_maxima \<Rightarrow> score_weights \<Rightarrow> heap \<Rightarrow> nat \<Rightarrow> heap" where
  "write_score env now mx w h a =
     h(a := (h a)\<lparr>gm_ComputedScore := ComputeScore env now (h a) mx w, gm_LastFetched := now\<rparr>)"

definition higher_score :: "heap \<Rightarrow> nat \<Rightarrow> nat \<Rightarrow> bool" where
  "higher_score h a b \<longleftrightarrow> gm_ComputedScore (h a) > gm_ComputedScore (h b)"

definition rank_candidates :: "heap \<Rightarrow> mptr list \<Rightarrow> market_filter \<Rightarrow> nat list" where
  "rank_candidates h markets f = filter (\<lambda>a. \<not> filtered_out f (h a)) (List.map_filter (\<lambda>p. p) markets)"

definition RankMarketsWithWeights ::
  "environment \<Rightarrow> gotime \<Rightarrow> heap \<Rightarrow> mptr list \<Rightarrow> market_filter \<Rightarrow> score_weights \<Rightarrow> nat list \<times> heap" where
  "RankMarketsWithWeights env now h markets f w =
     (let cands = rank_candidates h markets f;
          mx = foldl maxima_step no_maxima (map h cands)
      in if cands = [] then ([], h)
         else
           let w = resolved env w;
               h = foldl (write_score env now mx w) h cands;
               ranked = sort_by (higher_score h) cands
           in (if mf_MaxN f > 0 \<and> int (length ranked) > mf_MaxN f then take (nat (mf_MaxN f)) ranked else ranked, h))"

definition RankMarkets :: "environment \<Rightarrow> gotime \<Rightarrow> heap \<Rightarrow> mptr list \<Rightarrow> market_filter \<Rightarrow> nat list \<times> heap" where
  "RankMarkets env now h markets f = RankMarketsWithWeights env now h markets f DefaultScoreWeights"

section \<open>Lemmas\<close>

lemma score_ignores_writes [simp]:
  "ComputeScore env now (m\<lparr>gm_ComputedScore := x, gm_LastFetched := t\<rparr>) mx w = ComputeScore env now m mx w"
  "filtered_out f (m\<lparr>gm_ComputedScore := x, gm_LastFetched := t\<rparr>) = filtered_out f m"
  by (simp_all add: ComputeScore_def marketLiquidity_def time_left_score_def filtered_out_def Let_def)

lemma write_scores:
  "foldl (write_score env now mx w) h as a =
     (if a \<in> set as then (h a)\<lparr>gm_ComputedScore := ComputeScore env now (h a) mx w, gm_LastFetched := now\<rparr> else h a)"
proof (induction as arbitrary: h)
  case (Cons b as)
  then show ?case by (auto simp: write_score_def)
qed simp

lemma RankMarkets_cases:
  fixes env now h markets f w
  defines "cands \<equiv> rank_candidates h markets f"
  defines "mx \<equiv> foldl maxima_step no_maxima (map h cands)"
  defines "h' \<equiv> foldl (write_score env now mx (resolved env w)) h cands"
  shows "RankMarketsWithWeights env now h markets f w =
    (take (if mf_MaxN f > 0 then nat (mf_MaxN f) else length cands) (sort_by (higher_score h') cands), h')"
  unfolding RankMarketsWithWeights_def Let_def cands_def [symmetric] mx_def [symmetric] h'_def [symmetric]
  by (auto simp: sortS.length_srt h'_def)

lemma swo_higher_score: "\<forall>a \<in> A. gm_ComputedScore (h a) \<noteq> NaN \<Longrightarrow> swo_on (higher_score h) A"
  using swo_desc [of A "\<lambda>a. gm_ComputedScore (h a)"] by (simp add: higher_score_def [abs_def])

lemma maxima_fold:
  assumes "\<forall>m \<in> set ms. isfin (g m) \<and> 0 \<le> rval (g m)" and "isfin x" "0 \<le> rval x"
  shows "isfin (foldl (\<lambda>x m. raise_to (g m) x) x ms) \<and> rval x \<le> rval (foldl (\<lambda>x m. raise_to (g m) x) x ms) \<and>
    (\<forall>m \<in> set ms. rval (g m) \<le> rval (foldl (\<lambda>x m. raise_to (g m) x) x ms))"
  using assms
proof (induction ms arbitrary: x)
  case (Cons m ms)
  have s: "isfin (raise_to (g m) x)" "rval x \<le> rval (raise_to (g m) x)" "rval (g m) \<le> rval (raise_to (g m) x)"
    using Cons.prems by (auto simp: raise_to_def isfin_order)
  with Cons.IH [of "raise_to (g m) x"] Cons.prems show ?case by fastforce
qed simp

lemma maxima_fields:
  "sm_MaxVol24hr (foldl maxima_step mx ms) = foldl (\<lambda>x m. raise_to (gm_Volume24hr m) x) (sm_MaxVol24hr mx) ms"
  "sm_MaxLiquidity (foldl maxima_step mx ms) = foldl (\<lambda>x m. raise_to (marketLiquidity m) x) (sm_MaxLiquidity mx) ms"
  "sm_MaxVolatility (foldl maxima_step mx ms) = foldl (\<lambda>x m. raise_to \<bar>gm_OneDayPriceChange m\<bar> x) (sm_MaxVolatility mx) ms"
  by (induction ms arbitrary: mx) (simp_all add: maxima_step_def)

definition market_fin :: "gamma_market \<Rightarrow> bool" where
  "market_fin m \<longleftrightarrow> isfin (gm_Volume24hr m) \<and> 0 \<le> rval (gm_Volume24hr m) \<and> isfin (marketLiquidity m) \<and>
     0 \<le> rval (marketLiquidity m) \<and> isfin (gm_Spread m) \<and> isfin (gm_OneDayPriceChange m)"

lemma share_of_max_bounds:
  assumes "isfin x" "0 \<le> rval x" "isfin mx" "rval x \<le> rval mx" "0 \<le> w"
  shows "isfin (share_of_max x mx (Fin w)) \<and> 0 \<le> rval (share_of_max x mx (Fin w)) \<and> rval (share_of_max x mx (Fin w)) \<le> w"
proof (cases "mx > 0")
  case True
  then have "0 < rval mx" using assms(3) by (simp add: isfin_order)
  moreover have "rval x / rval mx * w \<le> 1 * w" by (rule mult_right_mono) (use assms calculation in \<open>simp_all add: divide_le_eq_1_pos\<close>)
  ultimately show ?thesis using assms True by (simp add: share_of_max_def)
qed (use assms in \<open>simp add: share_of_max_def\<close>)

lemma share_at_least:
  fixes d :: real assumes "0 \<le> d" "0 \<le> w"
  shows "0 \<le> (1 - min d 1) * w" "(1 - min d 1) * w \<le> w"
proof -
  show "0 \<le> (1 - min d 1) * w" using assms by simp
  have "(1 - min d 1) * w \<le> 1 * w" by (rule mult_right_mono) (use assms in auto)
  then show "(1 - min d 1) * w \<le> w" by simp
qed

lemma min_one: "isfin x \<Longrightarrow> isfin (math_Min x 1) \<and> rval (math_Min x 1) = min (rval x) 1"
  by (auto elim!: isfinE simp: math_Min_def f64_eval)

lemma spread_bounds:
  fixes s :: f64 and w :: real assumes "isfin s" "0 \<le> w"
  defines "r \<equiv> if s > 0 then (1 - math_Min (s / Fin (10 / 100)) 1) * Fin w else Fin w"
  shows "isfin r \<and> 0 \<le> rval r \<and> rval r \<le> w"
proof (cases "s > 0")
  case True
  then have "0 \<le> rval s" using assms(1) by (simp add: isfin_order)
  then have "0 \<le> rval s / (10 / 100)" by simp
  moreover have "isfin (s / Fin (10 / 100))" "rval (s / Fin (10 / 100)) = rval s / (10 / 100)" using assms(1) by simp_all
  ultimately show ?thesis
    using True share_at_least [of "rval s / (10 / 100)" w] assms(2) min_one [of "s / Fin (10 / 100)"] by (simp add: r_def)
qed (use assms(2) in \<open>simp add: r_def\<close>)

lemma isfin_Hours: "isfin (Hours d)" by (simp add: Hours_def)

lemma time_left_bounds:
  fixes w :: real assumes "0 \<le> w" and "sw_TimeLeft ws = Fin w"
  shows "isfin (time_left_score now m ws) \<and> 0 \<le> rval (time_left_score now m ws) \<and> rval (time_left_score now m ws) \<le> w"
proof -
  obtain d where d: "Hours (time_Sub (gm_EndDate m) now) / 24 = Fin d"
    using isfin_arith(4) [OF isfin_Hours, of 24 "time_Sub (gm_EndDate m) now"] by (auto elim!: isfinE)
  have far: "isfin (math_Min ((Fin d - 21) / 180) 1)" "rval (math_Min ((Fin d - 21) / 180) 1) = min ((d - 21) / 180) 1"
    using min_one [of "(Fin d - 21) / 180"] by simp_all
  have scale: "0 \<le> x * w * c \<and> x * w * c \<le> w" if "0 \<le> x" "x \<le> 1" "0 \<le> c" "c \<le> 1" for x c :: real
  proof -
    have "x * w * c \<le> 1 * w * 1" by (intro mult_mono) (use that assms(1) in auto)
    then show ?thesis using that assms(1) by simp
  qed
  have "0 \<le> 1 - min ((d - 21) / 180) 1 \<and> 1 - min ((d - 21) / 180) 1 \<le> 1" if "21 < d" using that by simp
  with scale [of "1 - min ((d - 21) / 180) 1" "7 / 10"] scale [of "d / 4" "5 / 10"] assms far
  show ?thesis unfolding time_left_score_def Let_def d by (auto simp: isfin_order)
qed

lemma score_in_range:
  fixes now :: gotime
  assumes "\<forall>a \<in> set (rank_candidates h markets f). market_fin (h a)" and "a \<in> set (rank_candidates h markets f)"
  defines "mx \<equiv> foldl maxima_step no_maxima (map h (rank_candidates h markets f))"
  defines "s \<equiv> ComputeScore (\<lambda>_. '''') now (h a) mx DefaultScoreWeights"
  shows "isfin s \<and> 0 \<le> rval s \<and> rval s \<le> 1"
proof -
  let ?ms = "map h (rank_candidates h markets f)" and ?m = "h a"
  have fin: "\<forall>m \<in> set ?ms. market_fin m" and m: "?m \<in> set ?ms" using assms(1,2) by auto
  have mf: "market_fin ?m" using fin m by blast
  have w: "resolved (\<lambda>_. '''') DefaultScoreWeights = DefaultScoreWeights"
    by (simp add: resolved_def env_float_def DefaultScoreWeights_def)
  have mx0: "sm_MaxVol24hr no_maxima = 0" "sm_MaxLiquidity no_maxima = 0" "sm_MaxVolatility no_maxima = 0"
    by (simp_all add: no_maxima_def)
  have mv: "isfin (sm_MaxVol24hr mx) \<and> rval (gm_Volume24hr ?m) \<le> rval (sm_MaxVol24hr mx)"
    unfolding mx_def maxima_fields mx0
    using maxima_fold [of ?ms gm_Volume24hr 0] fin m by (auto simp: market_fin_def)
  have ml: "isfin (sm_MaxLiquidity mx) \<and> rval (marketLiquidity ?m) \<le> rval (sm_MaxLiquidity mx)"
    unfolding mx_def maxima_fields mx0
    using maxima_fold [of ?ms marketLiquidity 0] fin m by (auto simp: market_fin_def)
  have mc: "isfin (sm_MaxVolatility mx) \<and> rval \<bar>gm_OneDayPriceChange ?m\<bar> \<le> rval (sm_MaxVolatility mx)"
    unfolding mx_def maxima_fields mx0
    using maxima_fold [of ?ms "\<lambda>m. \<bar>gm_OneDayPriceChange m\<bar>" 0] fin m by (auto simp: market_fin_def)
  have parts: "s = (if \<not> gm_Active ?m \<or> gm_Closed ?m \<or> gm_ClobTokenIds ?m = '''' then 0
      else share_of_max (gm_Volume24hr ?m) (sm_MaxVol24hr mx) (Fin (45 / 100)) +
        share_of_max (marketLiquidity ?m) (sm_MaxLiquidity mx) (Fin (25 / 100)) +
        (if gm_Spread ?m > 0 then (1 - math_Min (gm_Spread ?m / Fin (10 / 100)) 1) * Fin (15 / 100) else Fin (15 / 100)) +
        share_of_max \<bar>gm_OneDayPriceChange ?m\<bar> (sm_MaxVolatility mx) (Fin (8 / 100)) +
        time_left_score now ?m DefaultScoreWeights)"
    unfolding s_def ComputeScore_def Let_def w by (simp add: DefaultScoreWeights_def)
  have t: "sw_TimeLeft DefaultScoreWeights = Fin (7 / 100)" by (simp add: DefaultScoreWeights_def)
  show ?thesis
    unfolding parts
    using share_of_max_bounds [of "gm_Volume24hr ?m" "sm_MaxVol24hr mx" "45 / 100"]
      share_of_max_bounds [of "marketLiquidity ?m" "sm_MaxLiquidity mx" "25 / 100"]
      share_of_max_bounds [of "\<bar>gm_OneDayPriceChange ?m\<bar>" "sm_MaxVolatility mx" "8 / 100"]
      spread_bounds [of "gm_Spread ?m" "15 / 100"] time_left_bounds [OF _ t, of now ?m] mv ml mc mf
    by (simp add: market_fin_def del: if_split)
qed

lemma ranked_score:
  assumes "a \<in> set (rank_candidates h markets f)"
  shows "gm_ComputedScore (snd (RankMarkets env now h markets f) a) =
    ComputeScore env now (h a) (foldl maxima_step no_maxima (map h (rank_candidates h markets f))) (resolved env DefaultScoreWeights)"
  unfolding RankMarkets_def RankMarkets_cases snd_conv write_scores using assms by simp

section \<open>Properties\<close>

text \<open>the activity score is a weighted mean.  With the default weights and no overrides, if the markets that pass the
  filter have finite numbers, not negative where they count volume or liquidity, the score a ranking writes into
  each of them is a number from zero to one.\<close>

theorem activity_score_bounds:
  assumes "\<forall>a \<in> set (rank_candidates h markets f). market_fin (h a)" and "a \<in> set (rank_candidates h markets f)"
  shows "isfin (gm_ComputedScore (snd (RankMarkets (\<lambda>_. []) now h markets f) a)) \<and>
    0 \<le> rval (gm_ComputedScore (snd (RankMarkets (\<lambda>_. []) now h markets f) a)) \<and>
    rval (gm_ComputedScore (snd (RankMarkets (\<lambda>_. []) now h markets f) a)) \<le> 1"
proof -
  have w: "resolved (\<lambda>_. []) DefaultScoreWeights = DefaultScoreWeights"
    by (simp add: resolved_def env_float_def DefaultScoreWeights_def)
  show ?thesis unfolding ranked_score [OF assms(2)] w by (rule score_in_range [OF assms])
qed

text \<open>the ranking keeps the best.  If no score is NaN, what \<open>RankMarkets\<close> returns are markets that pass the filter, as many
  as there are up to the limit, in descending order of the scores it has written, none of them beaten by one left out;
  and no market is written but those that pass, of which only the score and the time change.\<close>

theorem rank_markets_best:
  fixes env now h markets f
  defines "pass \<equiv> rank_candidates h markets f" and "out \<equiv> fst (RankMarkets env now h markets f)"
    and "h' \<equiv> snd (RankMarkets env now h markets f)"
  assumes "\<forall>a \<in> set pass. gm_ComputedScore (h' a) \<noteq> NaN"
  shows "set out \<subseteq> set pass \<and> length out = (if mf_MaxN f > 0 then min (nat (mf_MaxN f)) (length pass) else length pass) \<and>
    sorted_wrt (\<lambda>a b. \<not> gm_ComputedScore (h' b) > gm_ComputedScore (h' a)) out \<and>
    (\<exists>rest. mset pass = mset out + mset rest \<and>
       (\<forall>a \<in> set out. \<forall>b \<in> set rest. \<not> gm_ComputedScore (h' b) > gm_ComputedScore (h' a))) \<and>
    (\<forall>a. h' a = (if a \<in> set pass then (h a)\<lparr>gm_ComputedScore := gm_ComputedScore (h' a), gm_LastFetched := now\<rparr> else h a))"
proof -
  let ?k = "if mf_MaxN f > 0 then nat (mf_MaxN f) else length pass"
  have o: "out = take ?k (sort_by (higher_score h') pass)" and
    h': "h' = foldl (write_score env now (foldl maxima_step no_maxima (map h pass)) (resolved env DefaultScoreWeights)) h pass"
    unfolding out_def h'_def pass_def RankMarkets_def RankMarketsWithWeights_def Let_def
    by (auto simp: sortS.length_srt)
  have swo: "swo_on (higher_score h') (set pass)" by (rule swo_higher_score [OF assms(4)])
  have "set out \<subseteq> set pass" unfolding o using set_take_subset [of ?k "sort_by (higher_score h') pass"] by simp
  moreover have "length out = (if mf_MaxN f > 0 then min (nat (mf_MaxN f)) (length pass) else length pass)"
    unfolding o by (simp add: sortS.length_srt min.commute)
  moreover have "sorted_wrt (\<lambda>a b. \<not> gm_ComputedScore (h' b) > gm_ComputedScore (h' a)) out"
    unfolding o using sorted_wrt_take [OF sortS.ordered [OF swo]] by (simp add: higher_score_def)
  moreover have "\<exists>rest. mset pass = mset out + mset rest \<and>
       (\<forall>a \<in> set out. \<forall>b \<in> set rest. \<not> gm_ComputedScore (h' b) > gm_ComputedScore (h' a))"
  proof (intro exI conjI)
    show "mset pass = mset out + mset (drop ?k (sort_by (higher_score h') pass))"
      unfolding o by (metis append_take_drop_id mset_append mset_sort_by)
    show "\<forall>a \<in> set out. \<forall>b \<in> set (drop ?k (sort_by (higher_score h') pass)). \<not> gm_ComputedScore (h' b) > gm_ComputedScore (h' a)"
      unfolding o using sortS.cut_best [OF swo] by (auto simp: higher_score_def)
  qed
  moreover have "h' a = (if a \<in> set pass then (h a)\<lparr>gm_ComputedScore := gm_ComputedScore (h' a), gm_LastFetched := now\<rparr> else h a)" for a
    unfolding h' write_scores by simp
  ultimately show ?thesis by blast
qed

definition demo_market :: "string \<Rightarrow> real \<Rightarrow> gamma_market" where
  "demo_market c v =
     \<lparr>gm_ID = c, gm_Question = ''q'', gm_ConditionID = c, gm_EndDate = 0, gm_Category = '''', gm_Liquidity = '''', gm_StartDate = 0,
      gm_Volume = '''', gm_Active = True, gm_Closed = False, gm_ClosedTime = '''', gm_EnableOrderBook = True, gm_VolumeNum = 1,
      gm_LiquidityNum = 100, gm_Volume24hr = Fin v, gm_ClobTokenIds = c, gm_Volume24hrClob = 0, gm_VolumeClob = 0,
      gm_LiquidityClob = 0, gm_TakerBaseFee = 0, gm_AcceptingOrders = True, gm_Spread = Fin (1 / 100), gm_OneDayPriceChange = 0,
      gm_EventID = '''', gm_ComputedScore = 0, gm_LastFetched = 0\<rparr>"

definition demo_heap :: heap where
  "demo_heap = (\<lambda>a. if a = 0 then demo_market ''a'' 10 else demo_market ''b'' 20)"

definition demo_filter :: market_filter where
  "demo_filter = \<lparr>mf_MinVolume24hr = 5, mf_MinLiquidity = 0, mf_MaxSpread = 1, mf_MinVolatility = 0, mf_MaxN = 1\<rparr>"

lemma demo_pass: "rank_candidates demo_heap [Some 0, Some 1] demo_filter = [0, 1]"
  by (simp add: rank_candidates_def filtered_out_def demo_heap_def demo_market_def demo_filter_def marketLiquidity_def f64_eval
      List.map_filter_def)

lemma demo_fin: "market_fin (demo_heap a)"
  by (simp add: market_fin_def demo_heap_def demo_market_def marketLiquidity_def f64_eval)

theorem activity_score_bounds_witness:
  "isfin (gm_ComputedScore (snd (RankMarkets (\<lambda>_. []) 0 demo_heap [Some 0, Some 1] demo_filter) 1))"
  using activity_score_bounds [of demo_heap "[Some 0, Some 1]" demo_filter 1 0] demo_fin unfolding demo_pass by simp

lemma demo_market_score_fin:
  assumes "a \<in> {0, 1}"
  shows "gm_ComputedScore (snd (RankMarkets (\<lambda>_. []) 0 demo_heap [Some 0, Some 1] demo_filter) a) \<noteq> NaN"
proof -
  have w: "resolved (\<lambda>_. []) DefaultScoreWeights = DefaultScoreWeights"
    by (simp add: resolved_def env_float_def DefaultScoreWeights_def)
  have a: "a \<in> set (rank_candidates demo_heap [Some 0, Some 1] demo_filter)" unfolding demo_pass using assms by simp
  from score_in_range [OF _ this, of 0] demo_fin
  have "isfin (gm_ComputedScore (snd (RankMarkets (\<lambda>_. []) 0 demo_heap [Some 0, Some 1] demo_filter) a))"
    unfolding ranked_score [OF a] w by blast
  then show ?thesis by auto
qed

theorem rank_markets_best_witness:
  "length (fst (RankMarkets (\<lambda>_. '''') 0 demo_heap [Some 0, Some 1] demo_filter)) = 1"
proof -
  have "\<forall>a \<in> set (rank_candidates demo_heap [Some 0, Some 1] demo_filter).
      gm_ComputedScore (snd (RankMarkets (\<lambda>_. '''') 0 demo_heap [Some 0, Some 1] demo_filter) a) \<noteq> NaN"
    unfolding demo_pass using demo_market_score_fin by simp
  from rank_markets_best [OF this] show ?thesis
    unfolding demo_pass by (simp add: demo_filter_def)
qed

end
