(* ===== verification/Scan_Stage1.thy ===== *)
theory Scan_Stage1
  imports Market_Rank Dedupe "HOL-Library.List_Lexorder"
begin

text \<open>
  The first stage of a scan, \<open>internal/edgescan\<close>: events become candidates (\<open>FlattenCandidates\<close>), the activity budget picks
  the ones worth an order book (\<open>SelectStage1\<close>, with the sticky markets of the board before), and the other legs of their
  groups are added for the fair values (\<open>group_expand.go\<close>).  Markets are shared through pointers into the heap of
  \<open>Market_Rank\<close>.  The two cuts to a size that prefer sticky members, \<open>selectBoard\<close> here and \<open>selectTopNByEdge\<close> of the second
  stage, run the same two passes; what their callers rely on is the locale \<open>sticky_cutter\<close>, interpreted on both.
  JSON decoding of the token lists is the function \<open>ids\<close>.  A map is iterated in the order of its list.
  Lemmas: who is in the budget, in which order, what stickiness guarantees, and how far the expansion goes.
\<close>

section \<open>Candidates\<close>

record candidate =
  cn_Market :: mptr
  cn_EventID :: string
  cn_Category :: string
  cn_NegRisk :: bool
  cn_NegRiskGroupID :: string
  cn_NegRiskFeeBips :: int

record build_options =
  bo_Filter :: market_filter
  bo_BoardMaxN :: int
  bo_StickyConditionIDs :: "string list"
  bo_Strategy :: string
  bo_RunID :: string
  bo_Now :: gotime

definition label_slug :: "string \<Rightarrow> string" where
  \<comment> \<open>\<open>strings.ToLower(strings.ReplaceAll(label, " ", "-"))\<close>\<close>
  "label_slug s = ToLower (map (\<lambda>c. if c = CHR '' '' then CHR ''-'' else c) s)"

fun firstCategorySlug :: "gamma_tag option list \<Rightarrow> string" where
  "firstCategorySlug [] = ''''"
| "firstCategorySlug (t # ts) =
     (case t of
        None \<Rightarrow> firstCategorySlug ts
      | Some tg \<Rightarrow>
          if gt_ID tg = '''' \<or> IsCatchAllTag t then firstCategorySlug ts
          else if gt_Slug tg \<noteq> '''' then gt_Slug tg
          else if gt_Label tg \<noteq> '''' then label_slug (gt_Label tg)
          else firstCategorySlug ts)"

definition flatten_market :: "gamma_event \<Rightarrow> candidate list \<times> heap \<Rightarrow> mptr \<Rightarrow> candidate list \<times> heap" where
  \<comment> \<open>the inner loop body: a tradable market gets its event and, if it has none, the event's category\<close>
  "flatten_market e st p =
     (let (out, h) = st in
      case p of
        None \<Rightarrow> st
      | Some a \<Rightarrow>
          if \<not> IsTradable h p then st
          else
            let m = (h a)\<lparr>gm_EventID := ge_ID e\<rparr>;
                m = (if gm_Category m = '''' then m\<lparr>gm_Category := firstCategorySlug (ge_Tags e)\<rparr> else m)
            in (out @ [\<lparr>cn_Market = p, cn_EventID = ge_ID e, cn_Category = gm_Category m,
                        cn_NegRisk = (ge_NegRisk e \<or> ge_EnableNegRisk e), cn_NegRiskGroupID = ge_NegRiskMarketID e,
                        cn_NegRiskFeeBips = ge_NegRiskFeeBips e\<rparr>],
                h(a := m)))"

definition FlattenCandidates :: "heap \<Rightarrow> gamma_event option list \<Rightarrow> candidate list \<times> heap" where
  "FlattenCandidates h events =
     foldl (\<lambda>st e. case e of None \<Rightarrow> st | Some e \<Rightarrow> foldl (flatten_market e) st (ge_Markets e)) ([], h) events"

section \<open>Cuts that keep sticky members\<close>

fun cut_pass :: "('a \<Rightarrow> string) \<Rightarrow> (string \<Rightarrow> bool) \<Rightarrow> nat \<Rightarrow> 'a list \<Rightarrow> 'a list \<Rightarrow> 'a list" where
  \<comment> \<open>one pass: append what is wanted and not seen, until there are \<open>n\<close>; the ids seen are those of \<open>out\<close>\<close>
  "cut_pass key want n [] out = out"
| "cut_pass key want n (x # xs) out =
     (if key x \<in> key ` set out \<or> \<not> want (key x) then cut_pass key want n xs out
      else if length (out @ [x]) \<ge> n then out @ [x]
      else cut_pass key want n xs (out @ [x]))"

definition selectBoard :: "heap \<Rightarrow> nat list \<Rightarrow> (string, bool) gomap \<Rightarrow> int \<Rightarrow> nat list" where
  "selectBoard h ranked sticky maxN =
     (if maxN \<le> 0 \<or> int (length ranked) \<le> maxN then ranked
      else
        let id = (\<lambda>a. gm_ConditionID (h a));
            out = cut_pass id (get_or False sticky) (nat maxN) ranked []
        in if int (length out) \<ge> maxN then out
           else sort_by (higher_score h) (cut_pass id (\<lambda>_. True) (nat maxN) ranked out))"

section \<open>The activity budget\<close>

definition stickyMap :: "string list \<Rightarrow> (string, bool) gomap" where
  "stickyMap ids = foldl (\<lambda>m id. if id \<noteq> '''' then go_put id True m else m) [] ids"

definition passesHardFilter :: "gamma_market \<Rightarrow> market_filter \<Rightarrow> bool" where
  "passesHardFilter m f \<longleftrightarrow>
     \<not> gm_Volume24hr m < mf_MinVolume24hr f \<and> \<not> marketLiquidity m < mf_MinLiquidity f \<and> \<not> gm_Spread m > mf_MaxSpread f \<and>
     \<not> (mf_MinVolatility f > 0 \<and> \<bar>gm_OneDayPriceChange m\<bar> < mf_MinVolatility f)"

record stage1_result =
  s1_Candidates :: "candidate list"
  s1_PoolCount :: int
  s1_Stage1Count :: int
  s1_DroppedSummary :: "(string, int) gomap"
  s1_ByCond :: "(string, candidate) gomap"

definition cand_id :: "heap \<Rightarrow> candidate \<Rightarrow> string" where
  "cand_id h c = (case cn_Market c of None \<Rightarrow> '''' | Some a \<Rightarrow> gm_ConditionID (h a))"

definition usable :: "heap \<Rightarrow> candidate \<Rightarrow> bool" where
  \<comment> \<open>not \<open>c.Market == nil || c.Market.ConditionID == ""\<close>\<close>
  "usable h c \<longleftrightarrow> cn_Market c \<noteq> None \<and> cand_id h c \<noteq> ''''"

definition stick :: "market_filter \<Rightarrow> (string, candidate) gomap \<Rightarrow> heap \<times> nat list \<Rightarrow> string \<Rightarrow> heap \<times> nat list" where
  \<comment> \<open>the loop over the sticky set: a member that was not ranked and passes comes back with a small boost;
    \<open>inRanked\<close> are the ids of \<open>ranked\<close>\<close>
  "stick f byCond st sid =
     (let (h, ranked) = st in
      if sid \<in> (\<lambda>a. gm_ConditionID (h a)) ` set ranked then st
      else
        (case go_get byCond sid of
           None \<Rightarrow> st
         | Some c \<Rightarrow>
             (case cn_Market c of
                None \<Rightarrow> st
              | Some a \<Rightarrow>
                  if passesHardFilter (h a) f
                  then (h(a := (h a)\<lparr>gm_ComputedScore := gm_ComputedScore (h a) + Fin (1 / 1000000)\<rparr>), ranked @ [a])
                  else st)))"

definition budget_options :: "build_options \<Rightarrow> build_options" where
  "budget_options opts =
     opts\<lparr>bo_Filter := (bo_Filter opts)\<lparr>mf_MaxN := (if mf_MaxN (bo_Filter opts) \<le> 0 then 200 else mf_MaxN (bo_Filter opts))\<rparr>\<rparr>"

definition SelectStage1 ::
  "environment \<Rightarrow> gotime \<Rightarrow> heap \<Rightarrow> candidate list \<Rightarrow> build_options \<Rightarrow> stage1_result \<times> heap" where
  "SelectStage1 env now h pool opts =
     (let f = bo_Filter (budget_options opts) in
      if pool = [] then
        (\<lparr>s1_Candidates = [], s1_PoolCount = 0, s1_Stage1Count = 0,
          s1_DroppedSummary = [(''not_tradable_or_empty_pool'', 1), (''stage1_filter'', 0), (''stage1_cap'', 0)], s1_ByCond = []\<rparr>, h)
      else
        let good = filter (usable h) pool;
            byCond = foldl (\<lambda>m c. go_put (cand_id h c) c m) [] good;
            markets = map cn_Market good;
            (ranked, h) = RankMarkets env now h markets f;
            stage1Count = length ranked;
            sticky = stickyMap (bo_StickyConditionIDs opts);
            (h, ranked) = foldl (stick f byCond) (h, ranked) (go_keys sticky);
            ranked = sort_by (higher_score h) ranked;
            over = mf_MaxN f > 0 \<and> int (length ranked) > mf_MaxN f;
            ranked = (if over then selectBoard h ranked sticky (mf_MaxN f) else ranked);
            cands = List.map_filter (\<lambda>a. go_get byCond (gm_ConditionID (h a))) ranked
        in (\<lparr>s1_Candidates = cands, s1_PoolCount = int (length pool), s1_Stage1Count = int (length cands),
             s1_DroppedSummary = [(''not_tradable_or_empty_pool'', 0), (''stage1_filter'', int (length markets) - int stage1Count),
               (''stage1_cap'', if over then max 0 (int stage1Count - int (length ranked)) else 0)],
             s1_ByCond = byCond\<rparr>, h))"

section \<open>Groups\<close>

definition group_members :: "heap \<Rightarrow> (string, candidate) gomap \<Rightarrow> string \<Rightarrow> candidate list" where
  \<comment> \<open>\<open>byGroup[gid]\<close>\<close>
  "group_members h byCond gid = filter (\<lambda>c. cn_Market c \<noteq> None \<and> cn_NegRiskGroupID c \<noteq> '''' \<and> cn_NegRiskGroupID c = gid) (map snd byCond)"

definition add_sibling :: "heap \<Rightarrow> int \<Rightarrow> candidate list \<times> int \<Rightarrow> candidate \<Rightarrow> candidate list \<times> int" where
  \<comment> \<open>the ids seen are those of the candidates so far\<close>
  "add_sibling h expandCap st sib =
     (let (cands, added) = st in
      if added \<ge> expandCap \<or> cn_Market sib = None \<or> cand_id h sib \<in> cand_id h ` set cands then st
      else (cands @ [sib], added + 1))"

definition first_candidates :: "heap \<Rightarrow> candidate list \<Rightarrow> candidate list" where
  \<comment> \<open>the usable candidates, each id once\<close>
  "first_candidates h cs =
     foldl (\<lambda>out c. if \<not> usable h c \<or> cand_id h c \<in> cand_id h ` set out then out else out @ [c]) [] cs"

definition groups_needed :: "candidate list \<Rightarrow> string list" where
  "groups_needed cs =
     remdups (map cn_NegRiskGroupID (filter (\<lambda>c. cn_Market c \<noteq> None \<and> cn_NegRisk c \<and> cn_NegRiskGroupID c \<noteq> '''') cs))"

definition ExpandGroupCandidates :: "heap \<Rightarrow> stage1_result \<Rightarrow> int \<Rightarrow> candidate list \<times> int" where
  "ExpandGroupCandidates h stage1 expandCap =
     (let expandCap = (if expandCap < 0 then 0 else expandCap);
          cands = first_candidates h (s1_Candidates stage1)
      in foldl (\<lambda>st gid. foldl (add_sibling h expandCap) st (group_members h (s1_ByCond stage1) gid)) (cands, 0)
           (groups_needed (s1_Candidates stage1)))"

definition GroupKnownSize :: "candidate \<Rightarrow> (string, candidate) gomap \<Rightarrow> int" where
  "GroupKnownSize c byCond =
     (if cn_NegRiskGroupID c = '''' then 0
      else int (length (filter (\<lambda>k. cn_NegRiskGroupID k = cn_NegRiskGroupID c) (map snd byCond))))"

definition parseTokenIDs :: "(string \<Rightarrow> string list option) \<Rightarrow> string \<Rightarrow> string list" where
  "parseTokenIDs ids raw = (if raw = '''' then [] else case ids raw of None \<Rightarrow> [] | Some ts \<Rightarrow> ts)"

definition CollectPrimaryTokenIDs :: "(string \<Rightarrow> string list option) \<Rightarrow> heap \<Rightarrow> candidate list \<Rightarrow> string list" where
  "CollectPrimaryTokenIDs ids h cands =
     foldl (\<lambda>out c. case cn_Market c of
         None \<Rightarrow> out
       | Some a \<Rightarrow> (case parseTokenIDs ids (gm_ClobTokenIds (h a)) of
             [] \<Rightarrow> out
           | tid # _ \<Rightarrow> if tid = '''' \<or> tid \<in> set out then out else out @ [tid])) [] cands"

definition CollectConditionIDs :: "heap \<Rightarrow> candidate list \<Rightarrow> string list" where
  "CollectConditionIDs h cands =
     foldl (\<lambda>out c. if \<not> usable h c \<or> cand_id h c \<in> set out then out else out @ [cand_id h c]) [] cands"

section \<open>What a cut guarantees\<close>

fun fresh :: "('a \<Rightarrow> string) \<Rightarrow> (string \<Rightarrow> bool) \<Rightarrow> string set \<Rightarrow> 'a list \<Rightarrow> 'a list" where
  \<comment> \<open>the wanted elements whose id was not seen, each id once\<close>
  "fresh key want S [] = []"
| "fresh key want S (x # xs) =
     (if key x \<in> S \<or> \<not> want (key x) then fresh key want S xs else x # fresh key want (insert (key x) S) xs)"

lemma cut_pass_fresh:
  "length out < n \<Longrightarrow> cut_pass key want n xs out = out @ take (n - length out) (fresh key want (key ` set out) xs)"
proof (induction xs arbitrary: out)
  case (Cons x xs)
  show ?case
  proof (cases "length (out @ [x]) \<ge> n")
    case True
    with Cons.prems have "n - length out = 1" by simp
    then show ?thesis using Cons by auto
  next
    case False
    then have l: "length (out @ [x]) < n" by simp
    then have "n - length out = Suc (n - length (out @ [x]))" by simp
    then show ?thesis using Cons.IH [OF Cons.prems] Cons.IH [OF l] False by auto
  qed
qed simp

lemma fresh_distinct_filter:
  "distinct (map key xs) \<Longrightarrow> fresh key want S xs = filter (\<lambda>x. want (key x) \<and> key x \<notin> S) xs"
proof (induction xs arbitrary: S)
  case (Cons x xs)
  have "filter (\<lambda>y. want (key y) \<and> key y \<notin> insert (key x) S) xs = filter (\<lambda>y. want (key y) \<and> key y \<notin> S) xs"
    using Cons.prems by (intro filter_cong refl) (force simp: image_iff)
  then show ?case using Cons by simp
qed simp

lemma fresh_subseq: "subseq (fresh key want S xs) xs"
  by (induction xs arbitrary: S) auto

lemma fresh_distinct: "distinct (map key (fresh key want S xs)) \<and> (\<forall>x \<in> set (fresh key want S xs). key x \<notin> S)"
proof (induction xs arbitrary: S)
  case (Cons x xs)
  from Cons.IH [of "insert (key x) S"] Cons.IH [of S] show ?case by force
qed simp

definition pick :: "('a \<Rightarrow> string) \<Rightarrow> (string \<Rightarrow> bool) \<Rightarrow> nat \<Rightarrow> 'a list \<Rightarrow> 'a list" where
  \<comment> \<open>the two passes: sticky members first, then the others\<close>
  "pick key st n xs =
     (let out = cut_pass key st n xs [] in if length out \<ge> n then out else cut_pass key (\<lambda>_. True) n xs out)"

lemma pick_distinct:
  assumes "distinct (map key xs)" and "0 < n"
  shows "pick key st n xs =
    (let S = filter (\<lambda>x. st (key x)) xs in if length S \<ge> n then take n S else S @ take (n - length S) (filter (\<lambda>x. \<not> st (key x)) xs))"
proof -
  let ?S = "filter (\<lambda>x. st (key x)) xs"
  have first: "cut_pass key st n xs [] = take n ?S"
    using cut_pass_fresh [of "[]" n key st xs] assms by (simp add: fresh_distinct_filter)
  have "key x \<in> key ` set ?S \<longleftrightarrow> st (key x)" if "x \<in> set xs" for x
    using that assms(1) by (auto simp: distinct_map dest: inj_onD)
  then have rest: "filter (\<lambda>x. True \<and> key x \<notin> key ` set ?S) xs = filter (\<lambda>x. \<not> st (key x)) xs"
    by (intro filter_cong) auto
  show ?thesis
  proof (cases "length ?S \<ge> n")
    case False
    then have t: "take n ?S = ?S" by simp
    have "cut_pass key (\<lambda>_. True) n xs ?S = ?S @ take (n - length ?S) (filter (\<lambda>x. \<not> st (key x)) xs)"
      using cut_pass_fresh [of ?S n key "\<lambda>_. True" xs] False fresh_distinct_filter [OF assms(1), of "\<lambda>_. True"] rest by simp
    then show ?thesis using False unfolding pick_def first t Let_def by simp
  qed (simp add: pick_def first Let_def)
qed

lemma image_apart:
  assumes "\<And>y. y \<in> B \<Longrightarrow> f y \<notin> f ` A"
  shows "f ` A \<inter> f ` B = {}"
proof -
  have "k \<notin> f ` B" if "k \<in> f ` A" for k
  proof
    assume "k \<in> f ` B"
    then obtain b where "k = f b" "b \<in> B" by (rule imageE)
    with assms that show False by simp
  qed
  then show ?thesis by blast
qed

lemma pick_subset: "set (pick key st n xs) \<subseteq> set xs" and pick_length: "0 < n \<Longrightarrow> length (pick key st n xs) \<le> n"
  and pick_distinct_keys: "0 < n \<Longrightarrow> distinct (map key (pick key st n xs))"
proof -
  have sub: "set (take k (fresh key w S xs)) \<subseteq> set xs" for k w S
    using list_emb_set [OF fresh_subseq] by (metis in_set_takeD subsetI)
  let ?o = "cut_pass key st n xs []"
  have o: "?o = take n (fresh key st {} xs)" if "0 < n"
    using cut_pass_fresh [of "[]" n key st xs] that by simp
  have p: "pick key st n xs = (if length ?o \<ge> n then ?o else ?o @ take (n - length ?o) (fresh key (\<lambda>_. True) (key ` set ?o) xs))"
    using cut_pass_fresh [of ?o n key "\<lambda>_. True" xs] by (auto simp: pick_def Let_def)
  show "0 < n \<Longrightarrow> length (pick key st n xs) \<le> n" unfolding p using o by auto
  have d: "distinct (map key (take k (fresh key w S xs)))" for k w S
    using fresh_distinct [of key w S xs] by (simp add: take_map [symmetric])
  have new: "key x \<notin> S" if "x \<in> set (take k (fresh key w S xs))" for x k w S
    using fresh_distinct [of key w S xs] that by (meson in_set_takeD)
  show "distinct (map key (pick key st n xs))" if "0 < n"
  proof -
    let ?r = "take (n - length ?o) (fresh key (\<lambda>_. True) (key ` set ?o) xs)"
    have "distinct (map key ?o)" unfolding o [OF that] by (rule d)
    moreover have "distinct (map key ?r)" by (rule d)
    moreover have "key ` set ?o \<inter> key ` set ?r = {}" by (rule image_apart) (rule new)
    ultimately show ?thesis unfolding p by simp
  qed
  have all: "set (cut_pass key w n xs out) \<subseteq> set out \<union> set xs" for w out
  proof (induction xs arbitrary: out)
    case (Cons x xs)
    from Cons.IH [of out] Cons.IH [of "out @ [x]"] show ?case by auto
  qed simp
  have "set ?o \<subseteq> set xs" using all [of st "[]"] by simp
  then show "set (pick key st n xs) \<subseteq> set xs" using all [of "\<lambda>_. True" ?o] unfolding pick_def Let_def by auto
qed

lemma take_prefix_closed:
  assumes "distinct (A @ y # B @ x # C)" and "x \<in> set (take k (A @ y # B @ x # C))"
  shows "y \<in> set (take k (A @ y # B @ x # C))"
proof (cases "k \<le> length A")
  case True
  then have "x \<in> set A" using assms(2) by (auto dest: in_set_takeD)
  then show ?thesis using assms(1) by auto
next
  case False
  then show ?thesis by (auto simp: take_Cons' split: if_splits)
qed

locale sticky_cutter =
  fixes key :: "'a \<Rightarrow> string" and member :: "'s \<Rightarrow> string \<Rightarrow> bool" and cut :: "'a list \<Rightarrow> 's \<Rightarrow> int \<Rightarrow> 'a list"
  assumes short: "n \<le> 0 \<or> int (length xs) \<le> n \<Longrightarrow> cut xs st n = xs"
    and perm: "0 < n \<Longrightarrow> n < int (length xs) \<Longrightarrow> mset (cut xs st n) = mset (pick key (member st) (nat n) xs)"
begin

lemma set_cut: "0 < n \<Longrightarrow> n < int (length xs) \<Longrightarrow> set (cut xs st n) = set (pick key (member st) (nat n) xs)"
  by (metis perm set_mset_mset)

lemma cut_subset: "set (cut xs st n) \<subseteq> set xs"
  using short [of n xs st] set_cut [of n xs st] pick_subset [of key "member st" "nat n" xs] by fastforce

lemma cut_length: "0 < n \<Longrightarrow> int (length (cut xs st n)) \<le> n"
proof (cases "int (length xs) \<le> n")
  case False
  assume "0 < n"
  with False have "length (cut xs st n) = length (pick key (member st) (nat n) xs)" by (metis perm not_le size_mset)
  then show ?thesis using pick_length [of "nat n" key "member st" xs] \<open>0 < n\<close> by simp
qed (simp add: short)

lemma cut_distinct: "distinct (map key xs) \<Longrightarrow> distinct (map key (cut xs st n))"
proof (cases "n \<le> 0 \<or> int (length xs) \<le> n")
  case False
  then have "mset (map key (cut xs st n)) = mset (map key (pick key (member st) (nat n) xs))" by (simp add: perm)
  then show ?thesis using pick_distinct_keys [of "nat n" key "member st" xs] False by (metis mset_eq_imp_distinct_iff not_le zero_less_nat_eq)
qed (simp add: short)

lemma cut_full:
  assumes "distinct (map key xs)" and "0 < n"
  shows "length (cut xs st n) = min (nat n) (length xs)"
proof (cases "int (length xs) \<le> n")
  case False
  then have "length (cut xs st n) = length (pick key (member st) (nat n) xs)" using assms(2) by (metis perm not_le size_mset)
  also have "\<dots> = nat n"
    using False assms(2) sum_length_filter_compl [of "\<lambda>x. member st (key x)" xs]
    unfolding pick_distinct [OF assms(1), of "nat n" "member st", simplified, OF assms(2)] by (auto simp: Let_def)
  finally show ?thesis using False by simp
qed (simp add: short)

lemma sticky_kept:
  assumes "distinct (map key xs)" and "0 < n" and "int (length (filter (\<lambda>x. member st (key x)) xs)) \<le> n"
    and "x \<in> set xs" and "member st (key x)"
  shows "x \<in> set (cut xs st n)"
proof (cases "int (length xs) \<le> n")
  case False
  have "take (nat n) (filter (\<lambda>x. member st (key x)) xs) = filter (\<lambda>x. member st (key x)) xs" using assms(3) by simp
  then have "x \<in> set (pick key (member st) (nat n) xs)"
    using assms unfolding pick_distinct [OF assms(1), of "nat n" "member st", simplified, OF assms(2)] by (auto simp: Let_def)
  then show ?thesis using set_cut [of n xs st] False assms(2) by simp
qed (use assms in \<open>simp add: short\<close>)

text \<open>Only sticky members displace: what stands before a kept member that is not sticky is kept.\<close>

lemma before_kept:
  assumes "distinct (map key xs)" and "xs = A @ y # B @ x # C" and "x \<in> set (cut xs st n)" and "\<not> member st (key x)" and "\<not> member st (key y)"
  shows "y \<in> set (cut xs st n)"
proof (cases "n \<le> 0 \<or> int (length xs) \<le> n")
  case False
  then have n: "0 < n" "n < int (length xs)" by auto
  let ?N = "filter (\<lambda>x. \<not> member st (key x)) xs" and ?S = "filter (\<lambda>x. member st (key x)) xs"
  have N: "?N = filter (\<lambda>x. \<not> member st (key x)) A @ y # filter (\<lambda>x. \<not> member st (key x)) B @ x # filter (\<lambda>x. \<not> member st (key x)) C"
    using assms(2,4,5) by simp
  have d: "distinct ?N" using assms(1) by (simp add: distinct_map)
  have x: "x \<in> set (pick key (member st) (nat n) xs)" using assms(3) set_cut [OF n] by simp
  have l: "length ?S < nat n" and t: "x \<in> set (take (nat n - length ?S) ?N)"
    using x assms(4) n(1) unfolding pick_distinct [OF assms(1), of "nat n" "member st", simplified, OF n(1)]
    by (auto simp: Let_def dest: in_set_takeD split: if_splits)
  have "y \<in> set (take (nat n - length ?S) ?N)" unfolding N by (rule take_prefix_closed [OF d [unfolded N] t [unfolded N]])
  then have "y \<in> set (pick key (member st) (nat n) xs)"
    using l unfolding pick_distinct [OF assms(1), of "nat n" "member st", simplified, OF n(1)] by (auto simp: Let_def)
  then show ?thesis using set_cut [OF n] by simp
qed (use assms(2) in \<open>simp add: short\<close>)

lemma dropped_behind:
  assumes "distinct (map key xs)" and "sorted_wrt R xs" and "x \<in> set (cut xs st n)" and "\<not> member st (key x)"
    and "y \<in> set xs" and "y \<notin> set (cut xs st n)" and "\<not> member st (key y)"
  shows "R x y"
proof -
  have x: "x \<in> set xs" using assms(3) cut_subset by blast
  have ne: "x \<noteq> y" using assms(3,6) by blast
  obtain A B where xs: "xs = A @ y # B" using assms(5) by (metis split_list)
  have "x \<notin> set B"
  proof
    assume "x \<in> set B"
    then obtain B1 B2 where "B = B1 @ x # B2" by (metis split_list)
    with xs have "y \<in> set (cut xs st n)" by (intro before_kept [OF assms(1) _ assms(3,4,7)]) auto
    with assms(6) show False ..
  qed
  then have "x \<in> set A" using x ne unfolding xs by auto
  then show ?thesis using assms(2) unfolding xs by (auto simp: sorted_wrt_append)
qed

end

interpretation sb: sticky_cutter "\<lambda>a. gm_ConditionID (h a)" "get_or False" "selectBoard h" for h
proof
  fix n :: int and xs :: "nat list" and st
  show "n \<le> 0 \<or> int (length xs) \<le> n \<Longrightarrow> selectBoard h xs st n = xs" by (auto simp: selectBoard_def)
  assume "0 < n" "n < int (length xs)"
  then show "mset (selectBoard h xs st n) = mset (pick (\<lambda>a. gm_ConditionID (h a)) (get_or False st) (nat n) xs)"
    by (auto simp: selectBoard_def pick_def Let_def mset_sort_by nat_le_iff)
qed

section \<open>The heap of a stage\<close>

definition bare :: "gamma_market \<Rightarrow> gamma_market" where
  "bare m = m\<lparr>gm_ComputedScore := 0, gm_LastFetched := 0\<rparr>"

definition scored_only :: "heap \<Rightarrow> heap \<Rightarrow> bool" where
  \<comment> \<open>the stage writes scores and times, nothing else of a market\<close>
  "scored_only h h' \<longleftrightarrow> (\<forall>a. bare (h' a) = bare (h a))"

lemma bare_fields [simp]:
  "gm_ConditionID (bare m) = gm_ConditionID m" "filtered_out f (bare m) = filtered_out f m"
  "gm_ClobTokenIds (bare m) = gm_ClobTokenIds m"
  by (simp_all add: bare_def)

lemma bare_writes [simp]:
  "bare (m\<lparr>gm_ComputedScore := x, gm_LastFetched := t\<rparr>) = bare m" "bare (m\<lparr>gm_ComputedScore := x\<rparr>) = bare m"
  by (simp_all add: bare_def)

lemma scored_only_refl [simp]: "scored_only h h"
  by (simp add: scored_only_def)

lemma scored_only_trans: "scored_only h h' \<Longrightarrow> scored_only h' h'' \<Longrightarrow> scored_only h h''"
  by (simp add: scored_only_def)

lemma scored_onlyD:
  assumes "scored_only h h'"
  shows "gm_ConditionID (h' a) = gm_ConditionID (h a)" "filtered_out f (h' a) = filtered_out f (h a)"
    "gm_ClobTokenIds (h' a) = gm_ClobTokenIds (h a)" "cand_id h' c = cand_id h c" "usable h' c = usable h c"
proof -
  have b: "bare (h' a) = bare (h a)" for a using assms by (simp add: scored_only_def)
  show c: "gm_ConditionID (h' a) = gm_ConditionID (h a)" for a using arg_cong [OF b, of gm_ConditionID a] by simp
  show "filtered_out f (h' a) = filtered_out f (h a)" using arg_cong [OF b, of "filtered_out f" a] by simp
  show "gm_ClobTokenIds (h' a) = gm_ClobTokenIds (h a)" using arg_cong [OF b, of gm_ClobTokenIds a] by simp
  show "cand_id h' c = cand_id h c" "usable h' c = usable h c" by (simp_all add: usable_def cand_id_def c split: option.split)
qed

lemma RankMarkets_scored_only: "scored_only h (snd (RankMarkets env now h markets f))"
  unfolding RankMarkets_def RankMarkets_cases snd_conv scored_only_def write_scores by simp

lemma hard_filter_iff: "passesHardFilter m f \<longleftrightarrow> \<not> filtered_out f m"
proof -
  have "\<not> \<bar>x\<bar> < y" if "\<not> y > 0" for x y :: f64 using that by (cases x; cases y) (auto simp: f64_eval)
  then show ?thesis by (auto simp: passesHardFilter_def filtered_out_def)
qed

section \<open>The sticky loop\<close>

lemma stick_step:
  "stick f byCond (h, r) k = (h, r) \<and>
     (k \<in> (\<lambda>a. gm_ConditionID (h a)) ` set r \<or> (\<forall>c a. go_get byCond k = Some c \<longrightarrow> cn_Market c = Some a \<longrightarrow> filtered_out f (h a))) \<or>
   (\<exists>c a. go_get byCond k = Some c \<and> cn_Market c = Some a \<and> \<not> filtered_out f (h a) \<and>
      k \<notin> (\<lambda>a. gm_ConditionID (h a)) ` set r \<and>
      stick f byCond (h, r) k = (h(a := (h a)\<lparr>gm_ComputedScore := gm_ComputedScore (h a) + Fin (1 / 1000000)\<rparr>), r @ [a]))"
  by (auto simp: stick_def hard_filter_iff Let_def split: option.split)

lemma stick_loop:
  assumes "\<forall>k c. go_get byCond k = Some c \<longrightarrow> (\<forall>a. cn_Market c = Some a \<longrightarrow> gm_ConditionID (h a) = k)"
    and "distinct (map (\<lambda>a. gm_ConditionID (h a)) r)"
  shows "\<exists>ext. snd (foldl (stick f byCond) (h, r) ks) = r @ ext \<and>
    (\<forall>a \<in> set ext. (\<exists>c. go_get byCond (gm_ConditionID (h a)) = Some c \<and> cn_Market c = Some a) \<and>
       \<not> filtered_out f (h a) \<and> gm_ConditionID (h a) \<in> set ks) \<and>
    distinct (map (\<lambda>a. gm_ConditionID (h a)) (r @ ext)) \<and>
    (\<forall>k \<in> set ks. \<forall>c a. go_get byCond k = Some c \<longrightarrow> cn_Market c = Some a \<longrightarrow> \<not> filtered_out f (h a) \<longrightarrow> a \<in> set (r @ ext)
        \<or> k \<in> (\<lambda>a. gm_ConditionID (h a)) ` set r) \<and>
    scored_only h (fst (foldl (stick f byCond) (h, r) ks)) \<and>
    (\<forall>a. a \<notin> set ext \<longrightarrow> fst (foldl (stick f byCond) (h, r) ks) a = h a) \<and>
    (\<forall>a. gm_ComputedScore (h a) \<noteq> NaN \<longrightarrow> gm_ComputedScore (fst (foldl (stick f byCond) (h, r) ks) a) \<noteq> NaN)"
  using assms
proof (induction ks arbitrary: h r)
  case Nil
  then show ?case by simp
next
  case (Cons k ks)
  from stick_step [of f byCond h r k] show ?case
  proof (elim disjE exE conjE)
    assume s: "stick f byCond (h, r) k = (h, r)" and "k \<in> (\<lambda>a. gm_ConditionID (h a)) ` set r"
    then show ?case using Cons.IH [OF Cons.prems] by auto
  next
    assume s: "stick f byCond (h, r) k = (h, r)" and "\<forall>c a. go_get byCond k = Some c \<longrightarrow> cn_Market c = Some a \<longrightarrow> filtered_out f (h a)"
    then show ?case using Cons.IH [OF Cons.prems] by auto
  next
    fix c a
    let ?h = "h(a := (h a)\<lparr>gm_ComputedScore := gm_ComputedScore (h a) + Fin (1 / 1000000)\<rparr>)"
    assume c: "go_get byCond k = Some c" "cn_Market c = Some a" and ok: "\<not> filtered_out f (h a)"
      and new: "k \<notin> (\<lambda>a. gm_ConditionID (h a)) ` set r" and s: "stick f byCond (h, r) k = (?h, r @ [a])"
    have so: "scored_only h ?h" by (simp add: scored_only_def)
    note same = scored_onlyD [OF so]
    have id: "gm_ConditionID (h a) = k" using Cons.prems(1) c by blast
    have "distinct (map (\<lambda>b. gm_ConditionID (?h b)) (r @ [a]))"
      unfolding same(1) using Cons.prems(2) new id by auto
    moreover have "\<forall>k c. go_get byCond k = Some c \<longrightarrow> (\<forall>b. cn_Market c = Some b \<longrightarrow> gm_ConditionID (?h b) = k)"
      unfolding same(1) by (rule Cons.prems(1))
    ultimately obtain ext where ext:
      "snd (foldl (stick f byCond) (?h, r @ [a]) ks) = (r @ [a]) @ ext"
      "\<forall>b \<in> set ext. (\<exists>c. go_get byCond (gm_ConditionID (h b)) = Some c \<and> cn_Market c = Some b) \<and>
         \<not> filtered_out f (h b) \<and> gm_ConditionID (h b) \<in> set ks"
      "distinct (map (\<lambda>b. gm_ConditionID (h b)) ((r @ [a]) @ ext))"
      "\<forall>k \<in> set ks. \<forall>c b. go_get byCond k = Some c \<longrightarrow> cn_Market c = Some b \<longrightarrow> \<not> filtered_out f (h b) \<longrightarrow> b \<in> set ((r @ [a]) @ ext)
          \<or> k \<in> (\<lambda>b. gm_ConditionID (h b)) ` set (r @ [a])"
      "scored_only ?h (fst (foldl (stick f byCond) (?h, r @ [a]) ks))"
      "\<forall>b. b \<notin> set ext \<longrightarrow> fst (foldl (stick f byCond) (?h, r @ [a]) ks) b = ?h b"
      "\<forall>b. gm_ComputedScore (?h b) \<noteq> NaN \<longrightarrow> gm_ComputedScore (fst (foldl (stick f byCond) (?h, r @ [a]) ks) b) \<noteq> NaN"
      using Cons.IH [of ?h "r @ [a]"] unfolding same(1,2) by blast
    have boost: "gm_ComputedScore (?h b) \<noteq> NaN" if "gm_ComputedScore (h b) \<noteq> NaN" for b
      using that by (cases "gm_ComputedScore (h a)") auto
    have kept: "b \<in> set (r @ a # ext) \<or> j \<in> (\<lambda>b. gm_ConditionID (h b)) ` set r"
      if "j \<in> set (k # ks)" "go_get byCond j = Some d" "cn_Market d = Some b" "\<not> filtered_out f (h b)" for j d b
    proof (cases "j = k")
      case True
      then show ?thesis using that c by simp
    next
      case False
      with that have "b \<in> set ((r @ [a]) @ ext) \<or> j \<in> (\<lambda>b. gm_ConditionID (h b)) ` set (r @ [a])" using ext(4) by (meson set_ConsD)
      then show ?thesis using False id by auto
    qed
    show ?case
      unfolding foldl_Cons s
    proof (intro exI conjI)
      show "snd (foldl (stick f byCond) (?h, r @ [a]) ks) = r @ (a # ext)" using ext(1) by simp
      show "\<forall>b \<in> set (a # ext). (\<exists>c. go_get byCond (gm_ConditionID (h b)) = Some c \<and> cn_Market c = Some b) \<and>
         \<not> filtered_out f (h b) \<and> gm_ConditionID (h b) \<in> set (k # ks)"
        using ext(2) c ok id by auto
      show "distinct (map (\<lambda>b. gm_ConditionID (h b)) (r @ (a # ext)))" using ext(3) by simp
      show "\<forall>j \<in> set (k # ks). \<forall>d b. go_get byCond j = Some d \<longrightarrow> cn_Market d = Some b \<longrightarrow> \<not> filtered_out f (h b) \<longrightarrow>
          b \<in> set (r @ a # ext) \<or> j \<in> (\<lambda>b. gm_ConditionID (h b)) ` set r" using kept by blast
      show "scored_only h (fst (foldl (stick f byCond) (?h, r @ [a]) ks))" by (rule scored_only_trans [OF so ext(5)])
      show "\<forall>b. b \<notin> set (a # ext) \<longrightarrow> fst (foldl (stick f byCond) (?h, r @ [a]) ks) b = h b" using ext(6) by simp
      show "\<forall>b. gm_ComputedScore (h b) \<noteq> NaN \<longrightarrow> gm_ComputedScore (fst (foldl (stick f byCond) (?h, r @ [a]) ks) b) \<noteq> NaN"
        using ext(7) boost by blast
    qed
  qed
qed

section \<open>The budget\<close>

definition pool_ok :: "heap \<Rightarrow> candidate list \<Rightarrow> bool" where
  \<comment> \<open>every candidate has a market with an id, and no id twice\<close>
  "pool_ok h pool \<longleftrightarrow> distinct (map (cand_id h) pool) \<and> (\<forall>c \<in> set pool. usable h c)"

definition addr :: "candidate \<Rightarrow> nat" where "addr c = the (cn_Market c)"

abbreviation ident :: "heap \<Rightarrow> nat \<Rightarrow> string" where "ident h a \<equiv> gm_ConditionID (h a)"

lemma usable_addr: "usable h c \<Longrightarrow> cn_Market c = Some (addr c) \<and> cand_id h c = ident h (addr c)"
  by (auto simp: usable_def addr_def cand_id_def)

definition passing :: "heap \<Rightarrow> candidate list \<Rightarrow> market_filter \<Rightarrow> nat list" where
  "passing h pool f = filter (\<lambda>a. \<not> filtered_out f (h a)) (map addr pool)"

lemma go_put_new: "k \<notin> fst ` set m \<Longrightarrow> go_put k v m = m @ [(k, v)]"
  by (induction m) auto

lemma index_by_id:
  assumes "distinct (map key cs)"
  shows "foldl (\<lambda>m c. go_put (key c) c m) [] cs = map (\<lambda>c. (key c, c)) cs"
  using assms
proof (induction cs rule: rev_induct)
  case (snoc c cs)
  then show ?case by (simp add: go_put_new image_image)
qed simp

lemma index_get:
  assumes "distinct (map key cs)"
  shows "go_get (map (\<lambda>c. (key c, c)) cs) k = Some c \<longleftrightarrow> c \<in> set cs \<and> key c = k"
proof -
  have "go_wf (map (\<lambda>c. (key c, c)) cs)" using assms by (simp add: comp_def)
  then show ?thesis by (auto simp: map_of_eq_Some_iff)
qed

lemma pool_ok_facts:
  assumes "pool_ok h pool"
  shows "filter (usable h) pool = pool" "List.map_filter (\<lambda>p. p) (map cn_Market pool) = map addr pool"
    "distinct (map (ident h) (map addr pool))" "c \<in> set pool \<Longrightarrow> cand_id h c = ident h (addr c) \<and> cn_Market c = Some (addr c)"
proof -
  show "filter (usable h) pool = pool" using assms by (simp add: pool_ok_def)
  have u: "c \<in> set pool \<Longrightarrow> cand_id h c = ident h (addr c) \<and> cn_Market c = Some (addr c)" for c
    using assms usable_addr by (auto simp: pool_ok_def)
  then show "c \<in> set pool \<Longrightarrow> cand_id h c = ident h (addr c) \<and> cn_Market c = Some (addr c)" .
  show "List.map_filter (\<lambda>p. p) (map cn_Market pool) = map addr pool"
    using u by (induction pool) (auto simp: List.map_filter_simps)
  have eq: "map (ident h) (map addr pool) = map (cand_id h) pool" using u by simp
  show "distinct (map (ident h) (map addr pool))" unfolding eq using assms by (simp add: pool_ok_def)
qed

lemma stickyMap_keys: "set (go_keys (stickyMap ids)) = set ids - {''''}" "get_or False (stickyMap ids) k \<longleftrightarrow> k \<in> set ids - {''''}"
proof -
  have "set (go_keys (stickyMap ids)) = set ids - {''''} \<and> (\<forall>k. go_get (stickyMap ids) k = (if k \<in> set ids - {''''} then Some True else None))"
    unfolding stickyMap_def
  proof (induction ids rule: rev_induct)
    case (snoc x ids)
    then show ?case by (auto simp: dom_update update_conv')
  qed simp
  then show "set (go_keys (stickyMap ids)) = set ids - {''''}" "get_or False (stickyMap ids) k \<longleftrightarrow> k \<in> set ids - {''''}"
    by (auto simp: get_or_def)
qed

lemma stage1_parts:
  fixes env now opts
  assumes ok: "pool_ok h pool" and ne: "pool \<noteq> []"
  defines "f \<equiv> bo_Filter (budget_options opts)"
  defines "pass \<equiv> passing h pool f" and "res \<equiv> fst (SelectStage1 env now h pool opts)" and "h' \<equiv> snd (SelectStage1 env now h pool opts)"
  obtains ranked h1 where
    "s1_Candidates res = List.map_filter (\<lambda>a. go_get (s1_ByCond res) (ident h a)) (selectBoard h' ranked (stickyMap (bo_StickyConditionIDs opts)) (mf_MaxN f))"
    "s1_ByCond res = map (\<lambda>c. (cand_id h c, c)) pool" "s1_PoolCount res = int (length pool)"
    "s1_Stage1Count res = int (length (s1_Candidates res))" "scored_only h h'"
    "distinct (map (ident h) ranked)" "set ranked \<subseteq> set pass" "min (nat (mf_MaxN f)) (length pass) \<le> length ranked"
    "\<forall>a \<in> set pass. ident h a \<in> set (bo_StickyConditionIDs opts) \<longrightarrow> a \<in> set ranked"
    "h1 = snd (RankMarkets env now h (map cn_Market pool) f)"
    "(\<forall>a \<in> set pass. gm_ComputedScore (h1 a) \<noteq> NaN) \<longrightarrow>
      (\<forall>a \<in> set pass. gm_ComputedScore (h' a) \<noteq> NaN) \<and> sorted_wrt (\<lambda>a b. \<not> higher_score h' b a) ranked \<and>
      (\<forall>x \<in> set ranked. \<forall>y \<in> set pass. y \<notin> set ranked \<longrightarrow> ident h x \<notin> set (bo_StickyConditionIDs opts) \<longrightarrow> \<not> higher_score h' y x)"
proof -
  let ?markets = "map cn_Market pool" and ?ks = "go_keys (stickyMap (bo_StickyConditionIDs opts))"
  let ?by = "map (\<lambda>c. (cand_id h c, c)) pool"
  obtain r0 h1 where R: "RankMarkets env now h ?markets f = (r0, h1)" by (metis prod.exhaust)
  note pf = pool_ok_facts [OF ok]
  have dk: "distinct (map (cand_id h) pool)" using ok by (simp add: pool_ok_def)
  have rc: "rank_candidates h ?markets f = pass" by (simp add: rank_candidates_def pf(2) pass_def passing_def)
  have n: "0 < mf_MaxN f" by (simp add: f_def budget_options_def)
  have r0: "r0 = take (nat (mf_MaxN f)) (sort_by (higher_score h1) pass)"
    using R n unfolding RankMarkets_def RankMarkets_cases rc by auto
  have so1: "scored_only h h1" using RankMarkets_scored_only [of h env now ?markets f] R by simp
  note id1 = scored_onlyD [OF so1]
  have dp: "distinct (map (ident h) pass)" using pf(3) unfolding pass_def passing_def by (rule distinct_map_filter)
  have perm: "mset (sort_by (higher_score h1) pass) = mset pass" by (rule mset_sort_by)
  have ds: "distinct (map (ident h) (sort_by (higher_score h1) pass))"
    using dp perm by (metis mset_eq_imp_distinct_iff mset_map)
  then have d0: "distinct (map (ident h) r0)" unfolding r0 by (simp add: take_map [symmetric])
  have r0s: "set r0 \<subseteq> set pass" unfolding r0 using set_take_subset [of "nat (mf_MaxN f)" "sort_by (higher_score h1) pass"] by simp
  have l0: "length r0 = min (nat (mf_MaxN f)) (length pass)" unfolding r0 by (simp add: sortS.length_srt min.commute)
  obtain h2 r1 where S: "foldl (stick f ?by) (h1, r0) ?ks = (h2, r1)" by (metis prod.exhaust)
  have by1: "\<forall>k c. go_get ?by k = Some c \<longrightarrow> (\<forall>a. cn_Market c = Some a \<longrightarrow> ident h1 a = k)"
    unfolding id1(1) index_get [OF dk] using pf(4) by auto
  have d1: "distinct (map (ident h1) r0)" unfolding id1(1) by (rule d0)
  from stick_loop [OF by1 d1, where f = f and ks = ?ks, unfolded S fst_conv snd_conv id1(1,2)] obtain ext where ext:
    "r1 = r0 @ ext"
    "\<forall>a \<in> set ext. (\<exists>c. go_get ?by (ident h a) = Some c \<and> cn_Market c = Some a) \<and> \<not> filtered_out f (h a) \<and> ident h a \<in> set ?ks"
    "distinct (map (ident h) (r0 @ ext))"
    "\<forall>k \<in> set ?ks. \<forall>c a. go_get ?by k = Some c \<longrightarrow> cn_Market c = Some a \<longrightarrow> \<not> filtered_out f (h a) \<longrightarrow> a \<in> set (r0 @ ext) \<or> k \<in> ident h ` set r0"
    "scored_only h1 h2" "\<forall>a. a \<notin> set ext \<longrightarrow> h2 a = h1 a"
    "\<forall>a. gm_ComputedScore (h1 a) \<noteq> NaN \<longrightarrow> gm_ComputedScore (h2 a) \<noteq> NaN" by blast
  note so2 = scored_only_trans [OF so1 ext(5)]
  let ?ranked = "sort_by (higher_score h2) r1"
  have good: "filter (usable h) pool = pool" by (rule pf(1))
  have index: "foldl (\<lambda>m c. go_put (cand_id h c) c m) [] pool = ?by" by (rule index_by_id [OF dk])
  have over: "(if 0 < mf_MaxN f \<and> mf_MaxN f < int (length ?ranked) then selectBoard h2 ?ranked st (mf_MaxN f) else ?ranked) =
      selectBoard h2 ?ranked st (mf_MaxN f)" for st
    using n by (simp add: selectBoard_def)
  have both: "s1_Candidates res = List.map_filter (\<lambda>a. go_get ?by (ident h2 a)) (selectBoard h2 ?ranked (stickyMap (bo_StickyConditionIDs opts)) (mf_MaxN f)) \<and>
      s1_ByCond res = ?by \<and> s1_PoolCount res = int (length pool) \<and> s1_Stage1Count res = int (length (s1_Candidates res)) \<and> h' = h2"
    unfolding res_def h'_def SelectStage1_def Let_def f_def [symmetric] good index R prod.case S over using ne by simp
  have pass_mem: "a \<in> set pass \<longleftrightarrow> (\<exists>c \<in> set pool. a = addr c) \<and> \<not> filtered_out f (h a)" for a
    by (auto simp: pass_def passing_def)
  have "a \<in> set pass" if "a \<in> set ext" for a
  proof -
    from bspec [OF ext(2) that] obtain c where g: "go_get ?by (ident h a) = Some c" and c: "cn_Market c = Some a" "\<not> filtered_out f (h a)"
      by blast
    from g have "c \<in> set pool" unfolding index_get [OF dk] by (rule conjunct1)
    moreover have "a = addr c" using c by (simp add: addr_def)
    ultimately show ?thesis unfolding pass_mem using c(2) by blast
  qed
  then have exts: "set ext \<subseteq> set pass" by blast
  have inj: "a = b" if "a \<in> set pass" "b \<in> set pass" "ident h a = ident h b" for a b
    using dp that by (auto simp: distinct_map dest: inj_onD)
  have sticky: "a \<in> set (r0 @ ext)" if "a \<in> set pass" "ident h a \<in> set (bo_StickyConditionIDs opts)" for a
  proof -
    from that(1) [unfolded pass_mem] obtain c where c: "c \<in> set pool" "a = addr c" and nf: "\<not> filtered_out f (h a)" by blast
    from pf(4) [OF c(1)] c(2) have id: "cand_id h c = ident h a" "cn_Market c = Some a" by auto
    have "ident h a \<noteq> ''''" using ok c(1) id(1) by (auto simp: pool_ok_def usable_def)
    then have k: "ident h a \<in> set ?ks" unfolding stickyMap_keys(1) using that(2) by blast
    have g: "go_get ?by (ident h a) = Some c" unfolding index_get [OF dk] using c(1) id(1) by simp
    from ext(4) [rule_format, OF k g id(2) nf] show ?thesis
    proof
      assume "ident h a \<in> ident h ` set r0"
      then obtain b where "b \<in> set r0" "ident h a = ident h b" by (rule imageE) simp
      with inj [OF that(1), of b] r0s show ?thesis by auto
    qed
  qed
  have order: "(\<forall>a \<in> set pass. gm_ComputedScore (h2 a) \<noteq> NaN) \<and> sorted_wrt (\<lambda>a b. \<not> higher_score h2 b a) ?ranked \<and>
      (\<forall>x \<in> set ?ranked. \<forall>y \<in> set pass. y \<notin> set ?ranked \<longrightarrow> ident h x \<notin> set (bo_StickyConditionIDs opts) \<longrightarrow> \<not> higher_score h2 y x)"
    if nn: "\<forall>a \<in> set pass. gm_ComputedScore (h1 a) \<noteq> NaN"
  proof (intro conjI ballI impI)
    show nn2: "\<And>a. a \<in> set pass \<Longrightarrow> gm_ComputedScore (h2 a) \<noteq> NaN" using nn ext(7) by blast
    have "set r1 \<subseteq> set pass" using ext(1) r0s exts by auto
    then have "swo_on (higher_score h2) (set r1)" using nn2 by (intro swo_higher_score) blast
    from sortS.ordered [OF this] show "sorted_wrt (\<lambda>a b. \<not> higher_score h2 b a) ?ranked" .
    fix x y assume x: "x \<in> set ?ranked" "ident h x \<notin> set (bo_StickyConditionIDs opts)" and y: "y \<in> set pass" "y \<notin> set ?ranked"
    have "x \<notin> set ext" using ext(2) x(2) stickyMap_keys(1) by blast
    then have x0: "x \<in> set r0" "h2 x = h1 x" using x(1) ext(1,6) by auto
    have "y \<notin> set r0" "h2 y = h1 y" using y(2) ext(1,6) by auto
    moreover have "y \<in> set (drop (nat (mf_MaxN f)) (sort_by (higher_score h1) pass))"
      using y(1) calculation(1) unfolding r0 by (metis Un_iff append_take_drop_id set_append set_sort_by)
    ultimately have "\<not> higher_score h1 y x"
      using sortS.cut_best [OF swo_higher_score [OF nn]] x0(1) unfolding r0 by blast
    then show "\<not> higher_score h2 y x" using x0(2) \<open>h2 y = h1 y\<close> by (simp add: higher_score_def)
  qed
  have set_r: "set ?ranked = set (r0 @ ext)" by (simp add: ext(1))
  show ?thesis
  proof (rule that [of ?ranked h1])
    show "s1_Candidates res = List.map_filter (\<lambda>a. go_get (s1_ByCond res) (ident h a)) (selectBoard h' ?ranked (stickyMap (bo_StickyConditionIDs opts)) (mf_MaxN f))"
      using both scored_onlyD(1) [OF so2] by simp
    show "s1_ByCond res = ?by" "s1_PoolCount res = int (length pool)" "s1_Stage1Count res = int (length (s1_Candidates res))"
      using both by blast+
    show "scored_only h h'" using both so2 by simp
    have "mset (map (ident h) ?ranked) = mset (map (ident h) (r0 @ ext))" by (simp add: mset_sort_by ext(1))
    then show "distinct (map (ident h) ?ranked)" using ext(3) by (metis mset_eq_imp_distinct_iff)
    show "set ?ranked \<subseteq> set pass" using set_r r0s exts by auto
    show "min (nat (mf_MaxN f)) (length pass) \<le> length ?ranked" using l0 by (simp add: sortS.length_srt ext(1))
    show "\<forall>a \<in> set pass. ident h a \<in> set (bo_StickyConditionIDs opts) \<longrightarrow> a \<in> set ?ranked" using sticky set_r by blast
    show "h1 = snd (RankMarkets env now h (map cn_Market pool) f)" using R by simp
    show "(\<forall>a \<in> set pass. gm_ComputedScore (h1 a) \<noteq> NaN) \<longrightarrow>
      (\<forall>a \<in> set pass. gm_ComputedScore (h' a) \<noteq> NaN) \<and> sorted_wrt (\<lambda>a b. \<not> higher_score h' b a) ?ranked \<and>
      (\<forall>x \<in> set ?ranked. \<forall>y \<in> set pass. y \<notin> set ?ranked \<longrightarrow> ident h x \<notin> set (bo_StickyConditionIDs opts) \<longrightarrow> \<not> higher_score h' y x)"
      using order both by blast
  qed
qed

lemma cands_of:
  assumes "pool_ok h pool" and "set L \<subseteq> addr ` set pool"
  defines "cs \<equiv> List.map_filter (\<lambda>a. go_get (map (\<lambda>c. (cand_id h c, c)) pool) (ident h a)) L"
  shows "set cs \<subseteq> set pool \<and> map addr cs = L \<and> map (cand_id h) cs = map (ident h) L"
  using assms(2) unfolding cs_def
proof (induction L)
  case (Cons a L)
  then obtain c where c: "c \<in> set pool" "a = addr c" by auto
  then have id: "cand_id h c = ident h a" using pool_ok_facts(4) [OF assms(1)] by simp
  have d: "distinct (map (cand_id h) pool)" using assms(1) by (simp add: pool_ok_def)
  have "go_get (map (\<lambda>c. (cand_id h c, c)) pool) (ident h a) = Some c"
    unfolding index_get [OF d] using c(1) id by simp
  then show ?case using Cons c id by (simp add: List.map_filter_simps)
qed (simp add: List.map_filter_simps)

lemma passing_addr: "set (passing h pool f) \<subseteq> addr ` set pool"
  by (auto simp: passing_def)

lemma ids_same: "scored_only h h' \<Longrightarrow> ident h' = ident h"
  using scored_onlyD(1) by blast

lemma stage1_budget_facts:
  fixes env :: environment and now :: gotime and opts :: build_options
  assumes "pool_ok h pool"
  defines "f \<equiv> bo_Filter (budget_options opts)" and "res \<equiv> fst (SelectStage1 env now h pool opts)"
  shows "set (s1_Candidates res) \<subseteq> set pool \<and> distinct (map (cand_id h) (s1_Candidates res)) \<and>
    (\<forall>c \<in> set (s1_Candidates res). \<not> filtered_out f (h (addr c))) \<and>
    length (s1_Candidates res) = min (nat (mf_MaxN f)) (length (filter (\<lambda>c. \<not> filtered_out f (h (addr c))) pool)) \<and>
    s1_Stage1Count res = int (length (s1_Candidates res)) \<and>
    (\<forall>a. bare (snd (SelectStage1 env now h pool opts) a) = bare (h a))"
proof (cases "pool = []")
  case True
  then show ?thesis by (simp add: res_def SelectStage1_def)
next
  case False
  have n: "0 < mf_MaxN f" by (simp add: f_def budget_options_def)
  let ?h' = "snd (SelectStage1 env now h pool opts)"
  show ?thesis
  proof (rule stage1_parts [OF assms(1) False, where env = env and now = now and opts = opts, folded f_def res_def], goal_cases)
  case (1 ranked h1)
  note R = 1(1,2,4,5,6,7,8)
  let ?L = "selectBoard ?h' ranked (stickyMap (bo_StickyConditionIDs opts)) (mf_MaxN f)"
  have d': "distinct (map (ident ?h') ranked)" unfolding ids_same [OF R(4)] by (rule R(5))
  have sub: "set ?L \<subseteq> set (passing h pool f)" using sb.cut_subset R(6) by blast
  then have "set ?L \<subseteq> addr ` set pool" using passing_addr by blast
  note cs = cands_of [OF assms(1) this, folded R(1) [unfolded R(2)]]
  have dist: "distinct (map (ident h) ?L)" using sb.cut_distinct [OF d'] unfolding ids_same [OF R(4)] .
  have "distinct (map addr pool)" using pool_ok_facts(3) [OF assms(1)] unfolding distinct_map by blast
  then have "distinct (passing h pool f)" unfolding passing_def by (rule distinct_filter)
  moreover have "distinct ranked" using R(5) by (simp add: distinct_map)
  ultimately have "length ranked \<le> length (passing h pool f)"
    using card_mono [OF _ R(6)] by (simp add: distinct_card)
  then have len: "length ?L = min (nat (mf_MaxN f)) (length (passing h pool f))"
    using sb.cut_full [OF d' n] R(7) by simp
  have "length (passing h pool f) = length (filter (\<lambda>c. \<not> filtered_out f (h (addr c))) pool)"
    by (simp add: passing_def filter_map comp_def)
  moreover have "length (s1_Candidates res) = length ?L" using cs by (metis length_map)
  moreover have "\<not> filtered_out f (h (addr c))" if "c \<in> set (s1_Candidates res)" for c
  proof -
    have "addr c \<in> set ?L" using that cs by (metis imageI set_map)
    then show ?thesis using sub by (auto simp: passing_def)
  qed
  ultimately show ?thesis using cs dist len R(3,4) by (simp add: scored_only_def)
  qed
qed

text \<open>the activity budget.  From a pool without two candidates of one market, stage one takes exactly as many candidates as
  pass the filter, up to the limit (200 unless it is positive): each is of the pool, passes, and appears once;
  and of the markets only scores and times have been written.\<close>

theorem stage1_budget:
  fixes env :: environment and now :: gotime and opts :: build_options
  assumes "pool_ok h pool"
  defines "f \<equiv> bo_Filter (budget_options opts)" and "res \<equiv> fst (SelectStage1 env now h pool opts)"
  shows "set (s1_Candidates res) \<subseteq> set pool \<and> distinct (map (cand_id h) (s1_Candidates res)) \<and>
    (\<forall>c \<in> set (s1_Candidates res). \<not> filtered_out f (h (addr c))) \<and>
    length (s1_Candidates res) = min (nat (mf_MaxN f)) (length (filter (\<lambda>c. \<not> filtered_out f (h (addr c))) pool)) \<and>
    s1_Stage1Count res = int (length (s1_Candidates res)) \<and>
    (\<forall>a. bare (snd (SelectStage1 env now h pool opts) a) = bare (h a))"
  unfolding f_def res_def by (rule stage1_budget_facts [OF assms(1)])

lemma stage1_sticky_facts:
  fixes opts :: build_options
  assumes "pool_ok h pool"
  defines "f \<equiv> bo_Filter (budget_options opts)"
  assumes "c \<in> set pool" and "\<not> filtered_out f (h (addr c))" and "cand_id h c \<in> set (bo_StickyConditionIDs opts)"
    and "int (length (filter (\<lambda>c. cand_id h c \<in> set (bo_StickyConditionIDs opts) \<and> \<not> filtered_out f (h (addr c))) pool)) \<le> mf_MaxN f"
  shows "c \<in> set (s1_Candidates (fst (SelectStage1 env now h pool opts)))"
proof -
  have ne: "pool \<noteq> []" using assms(3) by auto
  have n: "0 < mf_MaxN f" by (simp add: f_def budget_options_def)
  let ?res = "fst (SelectStage1 env now h pool opts)" and ?h' = "snd (SelectStage1 env now h pool opts)"
  show ?thesis
  proof (rule stage1_parts [OF assms(1) ne, where env = env and now = now and opts = opts, folded f_def], goal_cases)
  case (1 ranked h1)
  note R = 1(1,2,5,6,7,9)
  let ?L = "selectBoard ?h' ranked (stickyMap (bo_StickyConditionIDs opts)) (mf_MaxN f)"
  let ?S = "set (bo_StickyConditionIDs opts) - {''''}"
  have ids: "cand_id h c = ident h (addr c)" if "c \<in> set pool" for c using pool_ok_facts(4) [OF assms(1) that] by simp
  have d': "distinct (map (ident ?h') ranked)" unfolding ids_same [OF R(3)] by (rule R(4))
  have pm: "addr c \<in> set (passing h pool f)" using assms(3,4) by (auto simp: passing_def)
  have inr: "addr c \<in> set ranked" using R(6) pm assms(5) ids [OF assms(3)] by simp
  have mem: "get_or False (stickyMap (bo_StickyConditionIDs opts)) (ident ?h' a) \<longleftrightarrow> ident h a \<in> ?S" for a
    unfolding scored_onlyD(1) [OF R(3)] by (rule stickyMap_keys(2))
  have "set (filter (\<lambda>a. ident h a \<in> ?S) ranked) \<subseteq>
      addr ` set (filter (\<lambda>c. cand_id h c \<in> set (bo_StickyConditionIDs opts) \<and> \<not> filtered_out f (h (addr c))) pool)"
  proof
    fix a assume a: "a \<in> set (filter (\<lambda>a. ident h a \<in> ?S) ranked)"
    then have "a \<in> set (passing h pool f)" using R(5) by auto
    then obtain k where "k \<in> set pool" "a = addr k" "\<not> filtered_out f (h a)" by (auto simp: passing_def)
    with a ids show "a \<in> addr ` set (filter (\<lambda>c. cand_id h c \<in> set (bo_StickyConditionIDs opts) \<and> \<not> filtered_out f (h (addr c))) pool)"
      by auto
  qed
  then have few: "card (set (filter (\<lambda>a. ident h a \<in> ?S) ranked)) \<le>
      length (filter (\<lambda>c. cand_id h c \<in> set (bo_StickyConditionIDs opts) \<and> \<not> filtered_out f (h (addr c))) pool)"
    by (meson card_image_le card_length card_mono finite_imageI finite_set le_trans)
  have "distinct ranked" using R(4) unfolding distinct_map by blast
  then have "card (set (filter (\<lambda>a. ident h a \<in> ?S) ranked)) = length (filter (\<lambda>a. ident h a \<in> ?S) ranked)"
    by (rule distinct_card [OF distinct_filter])
  with few assms(6) have l: "int (length (filter (\<lambda>a. ident h a \<in> ?S) ranked)) \<le> mf_MaxN f" by linarith
  have l': "int (length (filter (\<lambda>a. get_or False (stickyMap (bo_StickyConditionIDs opts)) (ident ?h' a)) ranked)) \<le> mf_MaxN f"
    unfolding mem by (rule l)
  have m: "get_or False (stickyMap (bo_StickyConditionIDs opts)) (ident ?h' (addr c))"
    unfolding mem using assms(1,3,5) ids [OF assms(3)] by (auto simp: pool_ok_def usable_def)
  have inL: "addr c \<in> set ?L" by (rule sb.sticky_kept [OF d' n l' inr m])
  have "set ?L \<subseteq> set (passing h pool f)" using sb.cut_subset R(5) by blast
  then have "set ?L \<subseteq> addr ` set pool" using passing_addr by blast
  note cs = cands_of [OF assms(1) this, folded R(1) [unfolded R(2)]]
  have "addr c \<in> addr ` set (s1_Candidates ?res)" using inL cs by (metis set_map)
  then obtain k where k: "k \<in> set (s1_Candidates ?res)" "addr k = addr c" by (rule imageE) simp
  then have "k \<in> set pool" using cs by blast
  then have "cand_id h k = cand_id h c" using ids assms(3) k(2) by simp
  then have "k = c" using assms(1,3) \<open>k \<in> set pool\<close> by (auto simp: pool_ok_def distinct_map dest: inj_onD)
  then show ?thesis using k(1) by simp
  qed
qed

text \<open>stickiness.  A market of the board before is in the budget again as long as it is in the pool and passes the filter,
  however many others score higher, if the sticky markets that pass are no more than the limit.\<close>

theorem stage1_sticky_kept:
  fixes opts :: build_options
  assumes "pool_ok h pool"
  defines "f \<equiv> bo_Filter (budget_options opts)"
  assumes "c \<in> set pool" and "\<not> filtered_out f (h (addr c))" and "cand_id h c \<in> set (bo_StickyConditionIDs opts)"
    and "int (length (filter (\<lambda>c. cand_id h c \<in> set (bo_StickyConditionIDs opts) \<and> \<not> filtered_out f (h (addr c))) pool)) \<le> mf_MaxN f"
  shows "c \<in> set (s1_Candidates (fst (SelectStage1 env now h pool opts)))"
  by (rule stage1_sticky_facts [OF assms(1) assms(3) assms(4-6) [unfolded f_def]])

text \<open>the budget is the best of the pool.  With the default weights, no overrides and finite numbers, no candidate that was
  left out, sticky ones aside, has a higher score than a candidate that is in without being sticky.\<close>

theorem stage1_best:
  fixes opts :: build_options
  assumes "pool_ok h pool"
  defines "f \<equiv> bo_Filter (budget_options opts)"
  assumes "\<forall>a \<in> set (passing h pool f). market_fin (h a)"
    and "x \<in> set (s1_Candidates (fst (SelectStage1 (\<lambda>_. []) now h pool opts)))" and "cand_id h x \<notin> set (bo_StickyConditionIDs opts)"
    and "y \<in> set pool" and "\<not> filtered_out f (h (addr y))" and "cand_id h y \<notin> set (bo_StickyConditionIDs opts)"
    and "y \<notin> set (s1_Candidates (fst (SelectStage1 (\<lambda>_. []) now h pool opts)))"
  shows "\<not> higher_score (snd (SelectStage1 (\<lambda>_. []) now h pool opts)) (addr y) (addr x)"
proof -
  have ne: "pool \<noteq> []" using assms(6) by auto
  let ?res = "fst (SelectStage1 (\<lambda>_. []) now h pool opts)" and ?h' = "snd (SelectStage1 (\<lambda>_. []) now h pool opts)"
  have w: "resolved (\<lambda>_. []) DefaultScoreWeights = DefaultScoreWeights"
    by (simp add: resolved_def env_float_def DefaultScoreWeights_def)
  have rc: "rank_candidates h (map cn_Market pool) f = passing h pool f"
    by (simp add: rank_candidates_def pool_ok_facts(2) [OF assms(1)] passing_def)
  have nn: "gm_ComputedScore (snd (RankMarkets (\<lambda>_. []) now h (map cn_Market pool) f) a) \<noteq> NaN" if "a \<in> set (passing h pool f)" for a
  proof -
    have a: "a \<in> set (rank_candidates h (map cn_Market pool) f)" using that rc by simp
    have "isfin (gm_ComputedScore (snd (RankMarkets (\<lambda>_. []) now h (map cn_Market pool) f) a))"
      unfolding ranked_score [OF a] w using score_in_range [OF _ a] assms(3) rc by auto
    then show ?thesis by auto
  qed
  show ?thesis
  proof (rule stage1_parts [OF assms(1) ne, where env = "\<lambda>_. []" and now = now and opts = opts, folded f_def], goal_cases)
    case (1 ranked h1)
    let ?st = "stickyMap (bo_StickyConditionIDs opts)"
    let ?L = "selectBoard ?h' ranked ?st (mf_MaxN f)"
    have nn': "\<forall>a \<in> set (passing h pool f). gm_ComputedScore (h1 a) \<noteq> NaN" unfolding 1(10) using nn by blast
    note ord = 1(11) [rule_format, OF nn' [rule_format]]
    have d': "distinct (map (ident ?h') ranked)" unfolding ids_same [OF 1(5)] by (rule 1(6))
    have sub: "set ?L \<subseteq> set (passing h pool f)" using sb.cut_subset 1(7) by blast
    then have "set ?L \<subseteq> addr ` set pool" using passing_addr by blast
    note cs = cands_of [OF assms(1) this, folded 1(1) [unfolded 1(2)]]
    have ids: "cand_id h c = ident h (addr c)" if "c \<in> set pool" for c using pool_ok_facts(4) [OF assms(1) that] by simp
    have xL: "addr x \<in> set ?L" using assms(4) cs by (metis imageI set_map)
    have xp: "x \<in> set pool" using assms(4) cs by blast
    have yp: "addr y \<in> set (passing h pool f)" using assms(6,7) by (auto simp: passing_def)
    have yL: "addr y \<notin> set ?L"
    proof
      assume "addr y \<in> set ?L"
      then have "addr y \<in> addr ` set (s1_Candidates ?res)" using cs by (metis set_map)
      then obtain k where k: "k \<in> set (s1_Candidates ?res)" "addr k = addr y" by (rule imageE) simp
      have "k \<in> set pool" using k(1) cs by blast
      moreover have "cand_id h k = cand_id h y" using ids [OF calculation] ids [OF assms(6)] k(2) by simp
      ultimately have "k = y" using assms(1,6) by (auto simp: pool_ok_def distinct_map dest: inj_onD)
      with k(1) assms(9) show False by simp
    qed
    have mem: "\<not> get_or False ?st (ident ?h' (addr c))" if "c \<in> set pool" "cand_id h c \<notin> set (bo_StickyConditionIDs opts)" for c
      unfolding scored_onlyD(1) [OF 1(5)] stickyMap_keys(2) using that ids by simp
    show ?case
    proof (cases "addr y \<in> set ranked")
      case True
      have "sorted_wrt (\<lambda>a b. \<not> higher_score ?h' b a) ranked" using ord by blast
      from sb.dropped_behind [OF d' this xL mem [OF xp assms(5)] True yL mem [OF assms(6,8)]] show ?thesis .
    next
      case False
      have "addr x \<in> set ranked" using xL sb.cut_subset by blast
      then show ?thesis using ord yp False assms(5) ids [OF xp] by simp
    qed
  qed
qed

section \<open>A small pool\<close>

definition demo_cand :: "nat \<Rightarrow> string \<Rightarrow> string \<Rightarrow> candidate" where
  "demo_cand a e g = \<lparr>cn_Market = Some a, cn_EventID = e, cn_Category = '''', cn_NegRisk = (g \<noteq> ''''), cn_NegRiskGroupID = g, cn_NegRiskFeeBips = 0\<rparr>"

definition demo_pool :: "candidate list" where "demo_pool = [demo_cand 0 ''e'' ''g'', demo_cand 1 ''e'' ''g'']"

definition demo_options :: "string list \<Rightarrow> build_options" where
  "demo_options sticky =
     \<lparr>bo_Filter = demo_filter, bo_BoardMaxN = 0, bo_StickyConditionIDs = sticky, bo_Strategy = '''', bo_RunID = '''', bo_Now = 0\<rparr>"

lemma demo_pool_ok: "pool_ok demo_heap demo_pool"
  by (simp add: pool_ok_def demo_pool_def usable_def cand_id_def demo_cand_def demo_heap_def demo_market_def)

lemma demo_unfiltered: "\<not> filtered_out demo_filter (demo_heap a)"
  by (simp add: filtered_out_def demo_heap_def demo_market_def demo_filter_def marketLiquidity_def f64_eval)

lemma demo_budget_filter: "bo_Filter (budget_options (demo_options sticky)) = demo_filter"
  by (simp add: budget_options_def demo_options_def demo_filter_def)

theorem stage1_budget_witness:
  "length (s1_Candidates (fst (SelectStage1 (\<lambda>_. []) 0 demo_heap demo_pool (demo_options [])))) = 1"
  using stage1_budget [OF demo_pool_ok, of "\<lambda>_. []" 0 "demo_options []"]
  by (simp add: demo_budget_filter demo_unfiltered) (simp add: demo_filter_def demo_pool_def)

theorem stage1_sticky_kept_witness:
  "demo_cand 0 ''e'' ''g'' \<in> set (s1_Candidates (fst (SelectStage1 (\<lambda>_. []) 0 demo_heap demo_pool (demo_options [''a'']))))"
  by (rule stage1_sticky_kept [OF demo_pool_ok])
    (simp_all add: demo_budget_filter demo_unfiltered,
     simp_all add: demo_pool_def demo_filter_def demo_options_def cand_id_def demo_cand_def demo_heap_def demo_market_def)

theorem stage1_best_witness:
  "\<exists>x y. {x, y} = set demo_pool \<and> \<not> higher_score (snd (SelectStage1 (\<lambda>_. []) 0 demo_heap demo_pool (demo_options []))) (addr y) (addr x)"
proof -
  let ?r = "s1_Candidates (fst (SelectStage1 (\<lambda>_. []) 0 demo_heap demo_pool (demo_options [])))"
  note b = stage1_budget_facts [OF demo_pool_ok, of "\<lambda>_. []" 0 "demo_options []"]
  have "length ?r = 1" using b by (simp add: demo_budget_filter demo_unfiltered) (simp add: demo_filter_def demo_pool_def)
  then obtain x where x: "?r = [x]" by (metis One_nat_def length_0_conv length_Suc_conv)
  then have xp: "x \<in> set demo_pool" using b by simp
  obtain y where y: "{x, y} = set demo_pool" "y \<noteq> x"
    using xp by (cases "x = demo_cand 0 ''e'' ''g''") (auto simp: demo_pool_def demo_cand_def)
  then have "y \<in> set demo_pool" by auto
  then have "\<not> higher_score (snd (SelectStage1 (\<lambda>_. []) 0 demo_heap demo_pool (demo_options []))) (addr y) (addr x)"
    using x y(2) by (intro stage1_best [OF demo_pool_ok])
      (simp_all add: demo_fin demo_budget_filter demo_unfiltered, simp_all add: demo_options_def)
  with y(1) show ?thesis by blast
qed

section \<open>The expansion\<close>

lemma foldl_nested: "foldl (\<lambda>st g. foldl f st (xs g)) st gs = foldl f st (concat (map xs gs))"
  by (induction gs arbitrary: st) auto

lemma add_siblings:
  assumes "distinct (map (cand_id h) cs)" and "0 \<le> k"
  shows "\<exists>ext. foldl (add_sibling h cap) (cs, k) ss = (cs @ ext, k + int (length ext)) \<and> set ext \<subseteq> set ss \<and>
    distinct (map (cand_id h) (cs @ ext)) \<and> k + int (length ext) \<le> max k cap \<and>
    (k + int (length ext) < cap \<longrightarrow> (\<forall>s \<in> set ss. cn_Market s \<noteq> None \<longrightarrow> cand_id h s \<in> cand_id h ` set (cs @ ext)))"
  using assms
proof (induction ss arbitrary: cs k)
  case (Cons s ss)
  show ?case
  proof (cases "k \<ge> cap \<or> cn_Market s = None \<or> cand_id h s \<in> cand_id h ` set cs")
    case True
    then have step: "add_sibling h cap (cs, k) s = (cs, k)" by (simp add: add_sibling_def)
    from Cons.IH [OF Cons.prems] obtain ext where e: "foldl (add_sibling h cap) (cs, k) ss = (cs @ ext, k + int (length ext))"
      "set ext \<subseteq> set ss" "distinct (map (cand_id h) (cs @ ext))" "k + int (length ext) \<le> max k cap"
      "k + int (length ext) < cap \<longrightarrow> (\<forall>s \<in> set ss. cn_Market s \<noteq> None \<longrightarrow> cand_id h s \<in> cand_id h ` set (cs @ ext))" by blast
    then show ?thesis unfolding foldl_Cons step using True by (intro exI [of _ ext]) auto
  next
    case False
    then have step: "add_sibling h cap (cs, k) s = (cs @ [s], k + 1)" by (simp add: add_sibling_def)
    have d: "distinct (map (cand_id h) (cs @ [s]))" "0 \<le> k + 1" using Cons.prems False by auto
    from Cons.IH [OF d] obtain ext where e: "foldl (add_sibling h cap) (cs @ [s], k + 1) ss = ((cs @ [s]) @ ext, k + 1 + int (length ext))"
      "set ext \<subseteq> set ss" "distinct (map (cand_id h) ((cs @ [s]) @ ext))" "k + 1 + int (length ext) \<le> max (k + 1) cap"
      "k + 1 + int (length ext) < cap \<longrightarrow> (\<forall>x \<in> set ss. cn_Market x \<noteq> None \<longrightarrow> cand_id h x \<in> cand_id h ` set ((cs @ [s]) @ ext))" by blast
    then show ?thesis unfolding foldl_Cons step using False by (intro exI [of _ "s # ext"]) auto
  qed
qed simp

lemma first_candidates_facts:
  "set (first_candidates h cs) \<subseteq> set cs \<and> distinct (map (cand_id h) (first_candidates h cs)) \<and>
   cand_id h ` set (first_candidates h cs) = cand_id h ` {c \<in> set cs. usable h c}"
  unfolding first_candidates_def
proof (induction cs rule: rev_induct)
  case (snoc c cs)
  then show ?case by auto
qed simp

text \<open>group expansion.  The enrich set starts with the markets of the budget, each once, followed by at most as many legs as
  the cap allows, each of the pool's index and of a group of the budget, and no market twice; and if the cap is not
  reached, every leg of such a group that has a market is in the set.\<close>

theorem group_expansion:
  fixes h stage1 expandCap
  defines "r \<equiv> ExpandGroupCandidates h stage1 expandCap" and "cap \<equiv> max 0 expandCap"
    and "legs \<equiv> concat (map (group_members h (s1_ByCond stage1)) (groups_needed (s1_Candidates stage1)))"
  shows "(\<exists>ext. fst r = first_candidates h (s1_Candidates stage1) @ ext \<and> snd r = int (length ext) \<and> set ext \<subseteq> set legs) \<and>
    distinct (map (cand_id h) (fst r)) \<and> snd r \<le> cap \<and>
    (snd r < cap \<longrightarrow> cand_id h ` set legs \<subseteq> cand_id h ` set (fst r))"
proof -
  let ?f = "first_candidates h (s1_Candidates stage1)"
  have d: "distinct (map (cand_id h) ?f)" using first_candidates_facts by blast
  have r: "r = foldl (add_sibling h cap) (?f, 0) legs"
    unfolding r_def ExpandGroupCandidates_def Let_def foldl_nested legs_def cap_def by (simp add: max_def)
  from add_siblings [OF d order_refl, of cap legs] obtain ext where e: "r = (?f @ ext, 0 + int (length ext))" "set ext \<subseteq> set legs"
    "distinct (map (cand_id h) (?f @ ext))" "0 + int (length ext) \<le> max 0 cap"
    "0 + int (length ext) < cap \<longrightarrow> (\<forall>s \<in> set legs. cn_Market s \<noteq> None \<longrightarrow> cand_id h s \<in> cand_id h ` set (?f @ ext))"
    unfolding r by blast
  have "cn_Market s \<noteq> None" if "s \<in> set legs" for s using that by (auto simp: legs_def group_members_def)
  then show ?thesis using e by (auto simp: cap_def)
qed

theorem group_expansion_witness:
  "\<exists>r. r = ExpandGroupCandidates demo_heap \<lparr>s1_Candidates = [demo_cand 0 ''e'' ''g''], s1_PoolCount = 2, s1_Stage1Count = 1,
      s1_DroppedSummary = [], s1_ByCond = [(''a'', demo_cand 0 ''e'' ''g''), (''b'', demo_cand 1 ''e'' ''g'')]\<rparr> 5 \<and>
    snd r = 1 \<and> ''b'' \<in> cand_id demo_heap ` set (fst r)"
proof -
  let ?s = "\<lparr>s1_Candidates = [demo_cand 0 ''e'' ''g''], s1_PoolCount = 2, s1_Stage1Count = 1,
      s1_DroppedSummary = [], s1_ByCond = [(''a'', demo_cand 0 ''e'' ''g''), (''b'', demo_cand 1 ''e'' ''g'')]\<rparr>"
  have one: "snd (ExpandGroupCandidates demo_heap ?s 5) = 1"
    by (simp add: ExpandGroupCandidates_def first_candidates_def groups_needed_def group_members_def usable_def cand_id_def
        demo_cand_def demo_heap_def demo_market_def add_sibling_def)
  moreover have "''b'' \<in> cand_id demo_heap ` set (concat (map (group_members demo_heap (s1_ByCond ?s)) (groups_needed (s1_Candidates ?s))))"
    by (simp add: groups_needed_def group_members_def cand_id_def demo_cand_def demo_heap_def demo_market_def)
  ultimately show ?thesis using group_expansion [of demo_heap ?s 5] by auto
qed

end
