(* ===== verification/Price_Enrich.thy ===== *)
theory Price_Enrich
  imports Price_DB "HOL-Library.Char_ord" "HOL-Library.List_Lexorder"
begin

text \<open>
  \<open>internal/enrich/prices.go\<close>: the warm stage that keeps the price history of the board's and the top markets' tokens up to
  date.  Tokens without history are fetched from the start of the lookback, the others from an hour before their last
  point, in batches of tokens with similar last points.  The server, the transport and the decoding of its answer
  are the function \<open>post\<close> from the body of a request to the history of each token, None when any of them fails; batches that
  run at the same time are taken in their order.  Whether the two statements on the database fail is a flag each.
  Lemmas: the batches cover the stale tokens once and start early enough to leave no gap; the stage stores what the
  successful batches returned; and the table stays in one time scale, so that the evaluation can search the series.
\<close>

section \<open>Tokens and requests\<close>

definition DefaultPriceBatchSize :: int where "DefaultPriceBatchSize = 20"
definition DefaultPriceTokenCap :: int where "DefaultPriceTokenCap = 300"
definition DefaultPriceFidelityMin :: int where "DefaultPriceFidelityMin = 60"
definition DefaultPriceLookback :: duration where "DefaultPriceLookback = 30 * 24 * hour"
definition DefaultPriceWarmMaxAge :: duration where "DefaultPriceWarmMaxAge = 30 * minute"
definition DefaultPriceOverlap :: duration where "DefaultPriceOverlap = hour"
definition MaxStartEndSpan :: duration where "MaxStartEndSpan = 14 * 24 * hour"

record hist_point =
  hp_T :: int
  hp_P :: f64

record price_token =
  pk_TokenID :: string
  pk_MarketID :: string
  pk_ConditionID :: string

definition token_of_meta :: "eval_market_meta \<Rightarrow> price_token" where
  "token_of_meta m = \<lparr>pk_TokenID = mm_TokenID m, pk_MarketID = mm_MarketID m, pk_ConditionID = mm_ConditionID m\<rparr>"

definition add_token :: "int \<Rightarrow> price_token list \<Rightarrow> eval_market_meta \<Rightarrow> price_token list" where
  \<comment> \<open>the closure \<open>add\<close>; the tokens seen are those of \<open>out\<close>\<close>
  "add_token cap out m =
     (if mm_TokenID m = '''' \<or> mm_TokenID m \<in> pk_TokenID ` set out then out
      else if int (length out) \<ge> cap then out
      else out @ [token_of_meta m])"

definition SelectPriceTokens :: "eval_market_meta list \<Rightarrow> eval_market_meta list \<Rightarrow> int \<Rightarrow> price_token list" where
  "SelectPriceTokens board topVolume cap =
     (let cap = (if cap \<le> 0 then DefaultPriceTokenCap else cap)
      in foldl (add_token cap) (foldl (add_token cap) [] board) topVolume)"

record batch_params =
  bh_StartTS :: int
  bh_EndTS :: int
  bh_Interval :: string
  bh_Fidelity :: int

record post_body =
  po_markets :: "string list"
  po_fidelity :: int
  po_start_ts :: "int option"
  po_end_ts :: "int option"
  po_interval :: "string option"

definition normalizeBatchParams :: "batch_params \<Rightarrow> batch_params" where
  "normalizeBatchParams p =
     (if bh_StartTS p > 0 \<and> bh_EndTS p > 0 \<and> bh_EndTS p > bh_StartTS p \<and>
         wrap64 ((bh_EndTS p - bh_StartTS p) * second) > MaxStartEndSpan
      then p\<lparr>bh_EndTS := 0, bh_Interval := (if bh_Interval p = '''' then ''max'' else bh_Interval p)\<rparr>
      else p)"

definition body_of :: "batch_params \<Rightarrow> string list \<Rightarrow> post_body" where
  "body_of p markets =
     \<lparr>po_markets = markets, po_fidelity = bh_Fidelity p,
      po_start_ts = (if bh_StartTS p > 0 then Some (bh_StartTS p) else None),
      po_end_ts = (if bh_EndTS p > 0 then Some (bh_EndTS p) else None),
      po_interval = (if bh_Interval p \<noteq> '''' then Some (bh_Interval p)
                     else if bh_StartTS p \<le> 0 then Some ''max'' else None)\<rparr>"

function chunks :: "nat \<Rightarrow> 'a list \<Rightarrow> 'a list list" where
  \<comment> \<open>the loop \<open>for i := 0; i < len; i += size\<close>\<close>
  "chunks n xs = (if xs = [] \<or> n = 0 then [] else take n xs # chunks n (drop n xs))"
  by pat_completeness auto
termination by (relation "measure (\<lambda>(n, xs). length xs)") auto

declare chunks.simps [simp del]

definition chunkTokenIDs :: "string list \<Rightarrow> int \<Rightarrow> string list list" where
  "chunkTokenIDs ids sz = chunks (nat (if sz \<le> 0 then DefaultPriceBatchSize else sz)) ids"

type_synonym history = "(string, hist_point list) gomap"

definition merge_history :: "history \<Rightarrow> history \<Rightarrow> history" where
  "merge_history out part = foldl (\<lambda>out (tok, pts). go_put tok (get_or [] out tok @ pts) out) out part"

fun post_all :: "(post_body \<Rightarrow> history option) \<Rightarrow> post_body list \<Rightarrow> history \<Rightarrow> history option" where
  \<comment> \<open>the group of requests: the first error is the error of all\<close>
  "post_all post [] out = Some out"
| "post_all post (b # bs) out =
     (case post b of None \<Rightarrow> None | Some part \<Rightarrow> post_all post bs (merge_history out part))"

definition FetchBatchPricesHistory ::
  "(post_body \<Rightarrow> history option) \<Rightarrow> string list \<Rightarrow> batch_params \<Rightarrow> int \<Rightarrow> history option" where
  "FetchBatchPricesHistory post tokenIDs params batchSize =
     (let batchSize = (if batchSize \<le> 0 \<or> batchSize > DefaultPriceBatchSize then DefaultPriceBatchSize else batchSize);
          params = (if bh_Fidelity params \<le> 0 then params\<lparr>bh_Fidelity := DefaultPriceFidelityMin\<rparr> else params);
          params = normalizeBatchParams params;
          bodies = filter (\<lambda>ms. ms \<noteq> []) (map (filter (\<lambda>t. t \<noteq> '''')) (chunks (nat batchSize) tokenIDs))
      in post_all post (map (body_of params) bodies) [])"

section \<open>High-water marks\<close>

definition priceUnixSeconds :: "int \<Rightarrow> int" where
  "priceUnixSeconds raw = (if raw \<le> 0 then 0 else if raw \<ge> 1000000000000 then raw div 1000 else raw)"

definition hwm :: "(string, int) gomap \<Rightarrow> string \<Rightarrow> int" where
  "hwm maxTS tid = priceUnixSeconds (get_or 0 maxTS tid)"

definition earliestHWM :: "string list \<Rightarrow> (string, int) gomap \<Rightarrow> int" where
  "earliestHWM ids maxTS =
     foldl (\<lambda>minLast tid. let last = hwm maxTS tid in
       if last \<le> 0 then minLast else if minLast = 0 \<or> last < minLast then last else minLast) 0 ids"

definition earliestStartTS :: "string list \<Rightarrow> (string, int) gomap \<Rightarrow> int \<Rightarrow> int \<Rightarrow> int" where
  "earliestStartTS ids maxTS overlapSec floor_ts =
     (let minLast = earliestHWM ids maxTS in
      if minLast \<le> 0 then (if floor_ts > 0 then floor_ts else 0)
      else
        let overlapSec = (if overlapSec < 0 then 0 else overlapSec);
            start = minLast - overlapSec
        in if floor_ts > 0 \<and> start < floor_ts then floor_ts else start)"

definition hwm_before :: "(string, int) gomap \<Rightarrow> string \<Rightarrow> string \<Rightarrow> bool" where
  "hwm_before maxTS x y =
     (let ai = hwm maxTS x; aj = hwm maxTS y in
      if ai = aj then x < y else if ai = 0 then True else if aj = 0 then False else ai < aj)"

definition sortTokenIDsByHWMAsc :: "string list \<Rightarrow> (string, int) gomap \<Rightarrow> string list" where
  "sortTokenIDsByHWMAsc ids maxTS = sort_by (hwm_before maxTS) ids"

section \<open>The stage\<close>

record ensure_config =
  ep_Lookback :: duration
  ep_FidelityMin :: int
  ep_BatchSize :: int
  ep_WarmMaxAge :: duration
  ep_Interval_of :: string
  ep_ForceCold :: bool
  ep_TokenMarket :: "(string, string) gomap"

datatype ensure_error = LoadMaxFailed | FetchFailed | InsertFailed

record ensure_result =
  er_TokensRequested :: int
  er_TokensWritten :: int
  er_PointsWritten :: int
  er_ColdTokens :: int
  er_WarmTokens :: int
  er_SkippedFresh :: int
  er_Errors :: "ensure_error list"

record price_source =
  sc_post :: "post_body \<Rightarrow> history option"
  sc_MaxFails :: bool
  sc_InsertFails :: bool

definition no_result :: "price_token list \<Rightarrow> ensure_result" where
  "no_result tokens =
     \<lparr>er_TokensRequested = int (length tokens), er_TokensWritten = 0, er_PointsWritten = 0, er_ColdTokens = 0, er_WarmTokens = 0,
      er_SkippedFresh = 0, er_Errors = []\<rparr>"

definition stored_stamp :: "int \<Rightarrow> int" where
  "stored_stamp ts = (if ts > 1000000000000 then ts div 1000 else ts)"

definition market_of_token :: "ensure_config \<Rightarrow> (string, price_token) gomap \<Rightarrow> string \<Rightarrow> string" where
  "market_of_token cfg tokMeta tok =
     (let mid = (case go_get tokMeta tok of None \<Rightarrow> '''' | Some m \<Rightarrow> pk_MarketID m)
      in if mid = '''' then get_or '''' (ep_TokenMarket cfg) tok else mid)"

definition rows_of_history ::
  "ensure_config \<Rightarrow> (string, price_token) gomap \<Rightarrow> int \<Rightarrow> gotime \<Rightarrow> history \<Rightarrow> price_row list" where
  "rows_of_history cfg tokMeta fid now hist =
     concat (map (\<lambda>(tok, pts).
       map (\<lambda>pt. \<lparr>pw_TokenID = tok, pw_TimestampUnix = stored_stamp (hp_T pt), pw_Price = hp_P pt,
                   pw_MarketID = market_of_token cfg tokMeta tok, pw_Fidelity = fid, pw_UpdatedAt = Unix now\<rparr>)
         (filter (\<lambda>pt. hp_T pt > 0) pts)) hist)"

definition fetchAndStore ::
  "price_source \<Rightarrow> ensure_config \<Rightarrow> (string, price_token) gomap \<Rightarrow> int \<Rightarrow> int \<Rightarrow> gotime \<Rightarrow>
   ensure_result \<times> price_table \<Rightarrow> string list \<times> batch_params \<Rightarrow> ensure_result \<times> price_table" where
  "fetchAndStore src cfg tokMeta fid batch now st req =
     (let (res, tbl) = st; (ids, params) = req in
      if ids = [] then st
      else
        (case FetchBatchPricesHistory (sc_post src) ids (params\<lparr>bh_Fidelity := fid\<rparr>) batch of
           None \<Rightarrow> (res\<lparr>er_Errors := er_Errors res @ [FetchFailed]\<rparr>, tbl)
         | Some hist \<Rightarrow>
             let rows = rows_of_history cfg tokMeta fid now hist in
             if rows = [] then st
             else if sc_InsertFails src then (res\<lparr>er_Errors := er_Errors res @ [InsertFailed]\<rparr>, tbl)
             else (res\<lparr>er_PointsWritten := er_PointsWritten res + int (length rows),
                       er_TokensWritten := er_TokensWritten res + int (length (remdups (map pw_TokenID rows)))\<rparr>,
                   InsertPricesHistory (Unix now) rows tbl)))"

definition stale_cold :: "(string, int) gomap \<Rightarrow> bool \<Rightarrow> string \<Rightarrow> bool" where
  "stale_cold maxTS force tid \<longleftrightarrow> \<not> go_has maxTS tid \<or> get_or 0 maxTS tid = 0 \<or> force"

definition is_fresh :: "(string, int) gomap \<Rightarrow> gotime \<Rightarrow> duration \<Rightarrow> string \<Rightarrow> bool" where
  "is_fresh maxTS now warmAge tid \<longleftrightarrow> time_Sub now (NormalizePriceTS (get_or 0 maxTS tid)) < warmAge"

definition cold_params :: "gotime \<Rightarrow> duration \<Rightarrow> string \<Rightarrow> batch_params" where
  "cold_params now lookback interval =
     \<lparr>bh_StartTS = Unix (time_Add now (- lookback)), bh_EndTS = 0, bh_Interval = (if interval = '''' then ''max'' else interval),
      bh_Fidelity = 0\<rparr>"

definition warm_params :: "(string, int) gomap \<Rightarrow> gotime \<Rightarrow> duration \<Rightarrow> string list \<Rightarrow> batch_params" where
  "warm_params maxTS now lookback chunk =
     \<lparr>bh_StartTS = earliestStartTS chunk maxTS (DefaultPriceOverlap div second) (Unix (time_Add now (- lookback))),
      bh_EndTS = 0, bh_Interval = '''', bh_Fidelity = 0\<rparr>"

definition price_plan ::
  "(string, int) gomap \<Rightarrow> ensure_config \<Rightarrow> gotime \<Rightarrow> string list \<Rightarrow> string list \<Rightarrow> (string list \<times> batch_params) list" where
  \<comment> \<open>the two loops that call \<open>fetchAndStore\<close>, as the requests they make in order\<close>
  "price_plan maxTS cfg now cold warm =
     (let lookback = (if ep_Lookback cfg \<le> 0 then DefaultPriceLookback else ep_Lookback cfg);
          batch = (if ep_BatchSize cfg \<le> 0 then DefaultPriceBatchSize else ep_BatchSize cfg)
      in map (\<lambda>c. (c, cold_params now lookback (ep_Interval_of cfg))) (chunkTokenIDs cold batch) @
         map (\<lambda>c. (c, warm_params maxTS now lookback c)) (chunkTokenIDs (sortTokenIDsByHWMAsc warm maxTS) batch))"

definition high_marks :: "price_source \<Rightarrow> string list \<Rightarrow> price_table \<Rightarrow> (string, int) gomap" where
  "high_marks src tokenIDs tbl = (if sc_MaxFails src then [] else LoadMaxPriceTimestamp tokenIDs tbl)"

definition EnsurePrices ::
  "price_source \<Rightarrow> gotime \<Rightarrow> price_token list \<Rightarrow> ensure_config \<Rightarrow> price_table \<Rightarrow> ensure_result \<times> price_table" where
  "EnsurePrices src now tokens cfg tbl =
     (let res = no_result tokens;
          kept = filter (\<lambda>t. pk_TokenID t \<noteq> '''') tokens;
          tokenIDs = map pk_TokenID kept;
          tokMeta = foldl (\<lambda>m t. go_put (pk_TokenID t) t m) [] kept
      in if tokenIDs = [] then (res, tbl)
         else
           let fid = (if ep_FidelityMin cfg \<le> 0 then DefaultPriceFidelityMin else ep_FidelityMin cfg);
               batch = (if ep_BatchSize cfg \<le> 0 then DefaultPriceBatchSize else ep_BatchSize cfg);
               warmAge = (if ep_WarmMaxAge cfg \<le> 0 then DefaultPriceWarmMaxAge else ep_WarmMaxAge cfg);
               maxTS = high_marks src tokenIDs tbl;
               res = res\<lparr>er_Errors := (if sc_MaxFails src then [LoadMaxFailed] else [])\<rparr>;
               cold = filter (stale_cold maxTS (ep_ForceCold cfg)) tokenIDs;
               rest = filter (\<lambda>t. \<not> stale_cold maxTS (ep_ForceCold cfg) t) tokenIDs;
               warm = filter (\<lambda>t. \<not> is_fresh maxTS now warmAge t) rest;
               res = res\<lparr>er_SkippedFresh := int (length rest) - int (length warm), er_ColdTokens := int (length cold),
                         er_WarmTokens := int (length warm)\<rparr>
           in foldl (fetchAndStore src cfg tokMeta fid batch now) (res, tbl) (price_plan maxTS cfg now cold warm))"

section \<open>Batches\<close>

lemma concat_chunks: "0 < n \<Longrightarrow> concat (chunks n xs) = xs"
  by (induction n xs rule: chunks.induct) (subst chunks.simps, simp)

lemma chunks_bounded: "c \<in> set (chunks n xs) \<Longrightarrow> c \<noteq> [] \<and> length c \<le> n"
proof (induction n xs rule: chunks.induct)
  case (1 n xs)
  then show ?case by (subst (asm) (2) chunks.simps) (auto split: if_splits)
qed

lemma chunkTokenIDs_concat: "concat (chunkTokenIDs ids sz) = ids"
  unfolding chunkTokenIDs_def by (rule concat_chunks) (simp add: DefaultPriceBatchSize_def)

lemma chunkTokenIDs_bounded: "0 < sz \<Longrightarrow> c \<in> set (chunkTokenIDs ids sz) \<Longrightarrow> c \<noteq> [] \<and> int (length c) \<le> sz"
  using chunks_bounded [of c "nat sz" ids] by (auto simp: chunkTokenIDs_def)

lemma chunk_mem: "c \<in> set (chunkTokenIDs ids sz) \<Longrightarrow> t \<in> set c \<Longrightarrow> t \<in> set ids"
  using chunkTokenIDs_concat [of ids sz] by (metis UN_I set_concat)

lemma hwm_nonneg: "0 \<le> hwm maxTS t"
  by (simp add: hwm_def priceUnixSeconds_def pos_imp_zdiv_nonneg_iff)

lemma hwm_pos: "0 < get_or 0 maxTS t \<Longrightarrow> 0 < hwm maxTS t"
  by (auto simp: hwm_def priceUnixSeconds_def)

definition hwm_step :: "(string, int) gomap \<Rightarrow> int \<Rightarrow> string \<Rightarrow> int" where
  "hwm_step maxTS minLast tid = (let last = hwm maxTS tid in
       if last \<le> 0 then minLast else if minLast = 0 \<or> last < minLast then last else minLast)"

lemma hwm_fold:
  assumes "0 \<le> m"
  shows "0 \<le> foldl (hwm_step maxTS) m ids \<and> (0 < m \<longrightarrow> foldl (hwm_step maxTS) m ids \<le> m) \<and>
    (\<forall>t \<in> set ids. 0 < hwm maxTS t \<longrightarrow> foldl (hwm_step maxTS) m ids \<le> hwm maxTS t) \<and>
    ((0 < m \<or> (\<exists>t \<in> set ids. 0 < hwm maxTS t)) \<longrightarrow> 0 < foldl (hwm_step maxTS) m ids)"
  using assms
proof (induction ids arbitrary: m)
  case (Cons t ids)
  have s: "0 \<le> hwm_step maxTS m t" "0 < m \<Longrightarrow> hwm_step maxTS m t \<le> m" "0 < hwm maxTS t \<Longrightarrow> hwm_step maxTS m t \<le> hwm maxTS t"
    "0 < m \<or> 0 < hwm maxTS t \<Longrightarrow> 0 < hwm_step maxTS m t"
    using Cons.prems hwm_nonneg [of maxTS t] by (auto simp: hwm_step_def Let_def)
  from Cons.IH [OF s(1)] s show ?case by fastforce
qed simp

lemma earliestHWM_le: "t \<in> set ids \<Longrightarrow> 0 < hwm maxTS t \<Longrightarrow> 0 < earliestHWM ids maxTS \<and> earliestHWM ids maxTS \<le> hwm maxTS t"
  using hwm_fold [of 0 maxTS ids] by (auto simp: earliestHWM_def hwm_step_def [abs_def] Let_def)

lemma earliestStartTS_le:
  assumes "t \<in> set ids" and "0 < hwm maxTS t" and "0 \<le> ov"
  shows "earliestStartTS ids maxTS ov fl \<le> max fl (hwm maxTS t - ov)" "0 < fl \<Longrightarrow> fl \<le> earliestStartTS ids maxTS ov fl"
  using earliestHWM_le [OF assms(1,2)] assms(3) by (auto simp: earliestStartTS_def Let_def)

section \<open>Properties\<close>


definition demo_marks :: "(string, int) gomap" where
  "demo_marks = [(''a'', 1700000000), (''b'', 1700007200000)]"

definition demo_ensure :: ensure_config where
  "demo_ensure = \<lparr>ep_Lookback = 0, ep_FidelityMin = 0, ep_BatchSize = 0, ep_WarmMaxAge = 0, ep_Interval_of = '''', ep_ForceCold = False,
     ep_TokenMarket = []\<rparr>"


section \<open>What is stored\<close>

definition points_of :: "history \<Rightarrow> (string \<times> hist_point) set" where
  "points_of h = {(tok, pt). \<exists>pts. (tok, pts) \<in> set h \<and> pt \<in> set pts}"

lemma points_put:
  "points_of (go_put tok (get_or [] h tok @ pts) h) \<subseteq> points_of h \<union> Pair tok ` set pts"
proof -
  have mem: "(k, v) \<in> set (go_put tok w h) \<Longrightarrow> (k, v) \<in> set h \<or> k = tok \<and> v = w" for k v w
    by (induction h) (auto split: if_splits)
  have "get_or [] h tok = [] \<or> (tok, get_or [] h tok) \<in> set h"
    by (auto simp: get_or_def dest: map_of_SomeD split: option.split)
  with mem show ?thesis unfolding points_of_def by fastforce
qed

lemma points_merge: "points_of (merge_history out part) \<subseteq> points_of out \<union> points_of part"
  unfolding merge_history_def
proof (induction part arbitrary: out)
  case (Cons tp part)
  obtain tok pts where tp: "tp = (tok, pts)" by (cases tp)
  have "points_of part \<union> Pair tok ` set pts \<subseteq> points_of (tp # part)" by (auto simp: points_of_def tp)
  then show ?case using Cons.IH [of "go_put tok (get_or [] out tok @ pts) out"] points_put [of tok out pts]
    unfolding tp foldl_Cons prod.case by blast
qed (simp add: points_of_def)

lemma points_post_all:
  "post_all post bs out = Some h \<Longrightarrow> (tok, pt) \<in> points_of h \<Longrightarrow>
   (tok, pt) \<in> points_of out \<or> (\<exists>b part. post b = Some part \<and> (tok, pt) \<in> points_of part)"
proof (induction bs arbitrary: out)
  case (Cons b bs)
  then show ?case using points_merge [of out] by (fastforce split: option.splits)
qed simp

lemma fetched_points:
  assumes "FetchBatchPricesHistory post ids params n = Some h" and "(tok, pt) \<in> points_of h"
  shows "\<exists>b part. post b = Some part \<and> (tok, pt) \<in> points_of part"
  using points_post_all [of post _ "[]" h tok pt] assms by (auto simp: FetchBatchPricesHistory_def Let_def points_of_def)

definition sane_stamps :: "(post_body \<Rightarrow> history option) \<Rightarrow> bool" where
  \<comment> \<open>what the API documents: Unix timestamps, in seconds or in milliseconds of this millennium\<close>
  "sane_stamps post \<longleftrightarrow> (\<forall>b h tok pt. post b = Some h \<longrightarrow> (tok, pt) \<in> points_of h \<longrightarrow>
     hp_T pt < 1000000000000 \<or> 1000000000000 < hp_T pt \<and> hp_T pt < 1000000000000000)"

lemma stored_stamp_seconds:
  assumes "hp_T pt < 1000000000000 \<or> 1000000000000 < hp_T pt \<and> hp_T pt < 1000000000000000"
  shows "stored_stamp (hp_T pt) < ms_scale"
  using assms by (auto simp: stored_stamp_def ms_scale_def)

lemma rows_seconds:
  assumes "sane_stamps post" and "FetchBatchPricesHistory post ids params n = Some h"
    and "r \<in> set (rows_of_history cfg tokMeta fid now h)"
  shows "pw_TimestampUnix r < ms_scale"
proof -
  obtain tok pt where p: "(tok, pt) \<in> points_of h" "pw_TimestampUnix r = stored_stamp (hp_T pt)"
    using assms(3) by (fastforce simp: rows_of_history_def points_of_def)
  with fetched_points [OF assms(2)] assms(1) have "hp_T pt < 1000000000000 \<or> 1000000000000 < hp_T pt \<and> hp_T pt < 1000000000000000"
    unfolding sane_stamps_def by blast
  then show ?thesis unfolding p(2) by (rule stored_stamp_seconds)
qed

definition good_prices :: "price_table \<Rightarrow> bool" where
  "good_prices tbl \<longleftrightarrow> price_ok tbl \<and> (\<forall>tok. seconds_only tbl tok)"

lemma good_prices_alt: "good_prices tbl \<longleftrightarrow> price_ok tbl \<and> (\<forall>(k, r) \<in> set tbl. pw_TimestampUnix r < ms_scale)"
  by (fastforce simp: good_prices_def seconds_only_def token_rows_mem)

lemma good_insert:
  assumes "good_prices tbl" and "\<forall>r \<in> set rows. pw_TimestampUnix r < ms_scale"
  shows "good_prices (InsertPricesHistory now rows tbl)"
proof -
  have all: "\<forall>r \<in> set rs. pw_TimestampUnix r < ms_scale \<Longrightarrow> \<forall>x \<in> set t. pw_TimestampUnix (snd x) < ms_scale \<Longrightarrow>
      \<forall>x \<in> set (foldl (upsert_price now) t rs). pw_TimestampUnix (snd x) < ms_scale" for rs t
  proof (induction rs arbitrary: t)
    case (Cons r rs)
    have "pw_TimestampUnix (snd x) < ms_scale" if "x \<in> set (upsert_price now t r)" for x
      using go_put_mem [OF that [unfolded upsert_price_def]] Cons.prems by auto
    then show ?case using Cons.IH [of "upsert_price now t r"] Cons.prems(1) by simp
  qed simp
  then show ?thesis
    using assms InsertPricesHistory_ok [of tbl now rows] all [of "filter insertable rows" tbl]
    by (simp add: good_prices_alt InsertPricesHistory_def case_prod_beta)
qed

lemma insert_keys: "set (go_keys tbl) \<subseteq> set (go_keys (InsertPricesHistory now rows tbl))"
proof -
  have "set (go_keys t) \<subseteq> set (go_keys (foldl (upsert_price now) t rs))" for rs t
  proof (induction rs arbitrary: t)
    case (Cons r rs)
    have "set (go_keys t) \<subseteq> set (go_keys (upsert_price now t r))"
      by (auto simp: upsert_price_def dom_update)
    also note Cons.IH [of "upsert_price now t r"]
    finally show ?case by simp
  qed simp
  then show ?thesis unfolding InsertPricesHistory_def .
qed

lemma fetchAndStore_table:
  "snd (fetchAndStore src cfg tokMeta fid batch now (res, tbl) (ids, params)) = tbl \<or>
   (\<exists>h. FetchBatchPricesHistory (sc_post src) ids (params\<lparr>bh_Fidelity := fid\<rparr>) batch = Some h \<and>
     snd (fetchAndStore src cfg tokMeta fid batch now (res, tbl) (ids, params)) =
       InsertPricesHistory (Unix now) (rows_of_history cfg tokMeta fid now h) tbl)"
  by (auto simp: fetchAndStore_def Let_def split: option.split)

lemma stage_keeps:
  assumes "sane_stamps (sc_post src)" and "good_prices (snd st)"
  shows "good_prices (snd (foldl (fetchAndStore src cfg tokMeta fid batch now) st plan)) \<and>
    set (go_keys (snd st)) \<subseteq> set (go_keys (snd (foldl (fetchAndStore src cfg tokMeta fid batch now) st plan)))"
  using assms(2)
proof (induction plan arbitrary: st)
  case (Cons req plan)
  obtain res tbl ids params where sr: "st = (res, tbl)" "req = (ids, params)" by (metis prod.exhaust)
  let ?st = "fetchAndStore src cfg tokMeta fid batch now st req"
  have "good_prices (snd ?st) \<and> set (go_keys (snd st)) \<subseteq> set (go_keys (snd ?st))"
    using fetchAndStore_table [of src cfg tokMeta fid batch now res tbl ids params]
  proof
    assume "\<exists>h. FetchBatchPricesHistory (sc_post src) ids (params\<lparr>bh_Fidelity := fid\<rparr>) batch = Some h \<and>
      snd (fetchAndStore src cfg tokMeta fid batch now (res, tbl) (ids, params)) =
        InsertPricesHistory (Unix now) (rows_of_history cfg tokMeta fid now h) tbl"
    then obtain h where h: "FetchBatchPricesHistory (sc_post src) ids (params\<lparr>bh_Fidelity := fid\<rparr>) batch = Some h"
      "snd ?st = InsertPricesHistory (Unix now) (rows_of_history cfg tokMeta fid now h) tbl" unfolding sr by blast
    have "\<forall>r \<in> set (rows_of_history cfg tokMeta fid now h). pw_TimestampUnix r < ms_scale"
      using rows_seconds [OF assms(1) h(1)] by blast
    then show ?thesis unfolding h(2) using good_insert Cons.prems insert_keys by (simp add: sr)
  qed (use Cons.prems in \<open>simp add: sr\<close>)
  then show ?case using Cons.IH [of ?st] by auto
qed simp

text \<open>the stage keeps the history searchable.  From a table with every timestamp in seconds, and a server that answers with
  Unix timestamps in seconds or milliseconds, whatever requests and statements fail, the table afterwards still has
  every timestamp in seconds, no stored point is lost, and the series of every token and window comes in
  strictly ascending order of time.\<close>

theorem ensured_prices_searchable:
  assumes "good_prices tbl" and "sane_stamps (sc_post src)"
  shows "good_prices (snd (EnsurePrices src now tokens cfg tbl)) \<and>
    set (go_keys tbl) \<subseteq> set (go_keys (snd (EnsurePrices src now tokens cfg tbl))) \<and>
    sorted_wrt (<) (map pp_Timestamp (series_points f t (snd (EnsurePrices src now tokens cfg tbl)) tok))"
proof -
  let ?t = "snd (EnsurePrices src now tokens cfg tbl)"
  have keep: "good_prices ?t \<and> set (go_keys tbl) \<subseteq> set (go_keys ?t)"
    unfolding EnsurePrices_def Let_def using stage_keeps [OF assms(2), of "(_, tbl)"] assms(1) by auto
  then have ok: "price_ok ?t" "seconds_only ?t tok" by (simp_all add: good_prices_def)
  have "sorted_wrt (<) (map pp_Timestamp (series_points f t ?t tok))" by (rule series_ascend [OF ok])
  with keep show ?thesis by blast
qed

definition demo_source :: price_source where
  "demo_source = \<lparr>sc_post = (\<lambda>b. Some [(''t'', [\<lparr>hp_T = 1700010800, hp_P = Fin (7 / 10)\<rparr>, \<lparr>hp_T = 1700014400000, hp_P = Fin (8 / 10)\<rparr>])]),
     sc_MaxFails = False, sc_InsertFails = False\<rparr>"

theorem ensured_prices_searchable_witness:
  "\<exists>tbl. tbl = snd (EnsurePrices demo_source (unix_time 1700020000)
      [\<lparr>pk_TokenID = ''t'', pk_MarketID = ''m'', pk_ConditionID = ''c''\<rparr>] demo_ensure one_scale) \<and>
     good_prices tbl \<and> sorted_wrt (<) (map pp_Timestamp (series_points (unix_time 0) (unix_time 1700020000) tbl ''t''))"
proof -
  have rows: "one_scale = [((''t'', 1700003600), demo_price 1700003600 (6 / 10)), ((''t'', 1700000000), demo_price 1700000000 (5 / 10))]"
    by (simp add: one_scale_def InsertPricesHistory_def insertable_def demo_price_def upsert_price_def)
  have g: "good_prices one_scale"
    using one_scale_facts(1) by (simp add: good_prices_alt rows demo_price_def ms_scale_def)
  have s: "sane_stamps (sc_post demo_source)"
    by (auto simp: sane_stamps_def demo_source_def points_of_def)
  let ?tbl = "snd (EnsurePrices demo_source (unix_time 1700020000)
      [\<lparr>pk_TokenID = ''t'', pk_MarketID = ''m'', pk_ConditionID = ''c''\<rparr>] demo_ensure one_scale)"
  have "good_prices ?tbl \<and> sorted_wrt (<) (map pp_Timestamp (series_points (unix_time 0) (unix_time 1700020000) ?tbl ''t''))"
    using ensured_prices_searchable [OF g s] by blast
  then show ?thesis by blast
qed

definition first_each :: "'a list \<Rightarrow> 'a list" where
  "first_each xs = rev (remdups (rev xs))"

lemma first_each_snoc: "first_each (xs @ [x]) = first_each xs @ (if x \<in> set xs then [] else [x])"
  by (simp add: first_each_def)

lemma first_each_set: "set (first_each xs) = set xs" "distinct (first_each xs)"
  by (simp_all add: first_each_def)

lemma add_token_fold:
  "map pk_TokenID (foldl (add_token cap) [] ms) =
     take (nat cap) (first_each (filter (\<lambda>t. t \<noteq> '''') (map mm_TokenID ms)))"
proof (induction ms rule: rev_induct)
  case Nil
  then show ?case by (simp add: first_each_def)
next
  case (snoc m ms)
  let ?F = "first_each (filter (\<lambda>t. t \<noteq> '''') (map mm_TokenID ms))" and ?out = "foldl (add_token cap) [] ms"
  have seen: "pk_TokenID ` set ?out = set (take (nat cap) ?F)" using snoc.IH by (metis set_map)
  have len: "length ?out = length (take (nat cap) ?F)" using snoc.IH by (metis length_map)
  have set_F: "set ?F = set (filter (\<lambda>t. t \<noteq> '''') (map mm_TokenID ms))" by (rule first_each_set(1))
  show ?case
  proof (cases "nat cap \<le> length ?F")
    case True
    then have "int (length ?out) \<ge> cap" using len by simp
    then have "foldl (add_token cap) [] (ms @ [m]) = ?out" by (simp add: add_token_def)
    then show ?thesis using snoc.IH True by (simp add: first_each_snoc)
  next
    case False
    then have t: "take (nat cap) ?F = ?F" by simp
    have ids: "map pk_TokenID ?out = ?F" using snoc.IH t by simp
    have room: "\<not> cap \<le> int (length ?out)" using len t False by simp
    have step: "foldl (add_token cap) [] (ms @ [m]) = add_token cap ?out m" by simp
    consider "mm_TokenID m = ''''" | "mm_TokenID m \<noteq> ''''" "mm_TokenID m \<in> set ?F" | "mm_TokenID m \<noteq> ''''" "mm_TokenID m \<notin> set ?F"
      by blast
    then show ?thesis
    proof cases
      case 1
      then have "add_token cap ?out m = ?out" by (simp add: add_token_def)
      then show ?thesis unfolding step using snoc.IH 1 by simp
    next
      case 2
      then have "add_token cap ?out m = ?out" using seen t by (simp add: add_token_def)
      moreover have "mm_TokenID m \<in> set (filter (\<lambda>t. t \<noteq> '''') (map mm_TokenID ms))" using 2(2) unfolding set_F .
      ultimately show ?thesis unfolding step using snoc.IH 2(1) by (simp add: first_each_snoc del: set_filter set_map)
    next
      case 3
      then have "add_token cap ?out m = ?out @ [token_of_meta m]" using seen t room by (simp add: add_token_def)
      moreover have "mm_TokenID m \<notin> set (filter (\<lambda>t. t \<noteq> '''') (map mm_TokenID ms))" using 3(2) unfolding set_F .
      moreover have "length ?F < nat cap" using False by simp
      ultimately show ?thesis unfolding step using ids 3(1)
        by (simp add: first_each_snoc token_of_meta_def del: set_filter set_map)
    qed
  qed
qed

text \<open>which tokens a stage asks for: the tokens of the board in their order, then those of the top markets by volume,
  each once and the empty one never, cut at the cap of the stage (300 unless it is positive).\<close>

theorem price_tokens_selected:
  "map pk_TokenID (SelectPriceTokens board volume cap) =
     take (nat (if cap \<le> 0 then 300 else cap)) (first_each (filter (\<lambda>t. t \<noteq> '''') (map mm_TokenID board @ map mm_TokenID volume)))"
  unfolding SelectPriceTokens_def Let_def foldl_append [symmetric] add_token_fold
  by (simp add: DefaultPriceTokenCap_def)

end
