(* ===== verification/Micro_Enrich.thy ===== *)
theory Micro_Enrich
  imports Price_Enrich
begin

text \<open>
  The microstructure of a scan: order books and open interest of the candidates (\<open>internal/enrich/books.go\<close>, \<open>oi.go\<close>) and
  the tables that keep them (\<open>internal/db/features.go\<close>).  An HTTP exchange with its transport is a function from the ids
  asked for to a status and a body; JSON decoding and encoding are parameters; workers of the open-interest pool
  deliver in the order of the ids.  The DDL of \<open>EnsureM3FeatureTables\<close> is not modelled.
  Lemmas: a snapshot has the best prices and an imbalance between zero and one, batches cover the tokens up to the first failure,
  and what was stored last is what is loaded.
\<close>

section \<open>Order books\<close>

record text_level =
  tl_Price :: string
  tl_Size :: string

record book_response =
  bk_MarketID :: string
  bk_AssetID :: string
  bk_Bids :: "text_level list"
  bk_Asks :: "text_level list"
  bk_NegRisk :: bool
  bk_Timestamp :: string

record book_snapshot =
  bs_Time :: gotime
  bs_MarketID :: string
  bs_TokenID :: string
  bs_BestBid :: f64
  bs_BestAsk :: f64
  bs_Imbalance :: f64
  bs_TotalBidDepth :: f64
  bs_TotalAskDepth :: f64
  bs_DepthJSON :: string
  bs_RawJSON :: string
  bs_NegRisk :: bool

record book_codec =
  \<comment> \<open>\<open>json.Unmarshal\<close> into a list and into one book, \<open>json.Marshal\<close> of the depth and of a book\<close>
  bc_batch :: "string \<Rightarrow> book_response list option"
  bc_one :: "string \<Rightarrow> book_response option"
  bc_depth :: "text_level list \<Rightarrow> text_level list \<Rightarrow> string"
  bc_raw :: "book_response \<Rightarrow> string"

definition float_or_zero :: "string \<Rightarrow> f64" where
  \<comment> \<open>\<open>v, _ := strconv.ParseFloat(s, 64)\<close>\<close>
  "float_or_zero s = (case ParseFloat s of None \<Rightarrow> 0 | Some v \<Rightarrow> v)"

definition MaxFloat64 :: f64 where "MaxFloat64 = Fin (2 ^ 1024 - 2 ^ 971)"

definition add_bid :: "book_snapshot \<Rightarrow> text_level \<Rightarrow> book_snapshot" where
  "add_bid s l =
     (let p = float_or_zero (tl_Price l); s = s\<lparr>bs_TotalBidDepth := bs_TotalBidDepth s + float_or_zero (tl_Size l)\<rparr>
      in if p > bs_BestBid s then s\<lparr>bs_BestBid := p\<rparr> else s)"

definition add_ask :: "book_snapshot \<Rightarrow> text_level \<Rightarrow> book_snapshot" where
  "add_ask s l =
     (let p = float_or_zero (tl_Price l); s = s\<lparr>bs_TotalAskDepth := bs_TotalAskDepth s + float_or_zero (tl_Size l)\<rparr>
      in if p < bs_BestAsk s then s\<lparr>bs_BestAsk := p\<rparr> else s)"

definition snapshot_of_book :: "book_codec \<Rightarrow> gotime \<Rightarrow> book_response \<Rightarrow> book_snapshot" where
  "snapshot_of_book js now b =
     (let s = \<lparr>bs_Time = now, bs_MarketID = bk_MarketID b, bs_TokenID = bk_AssetID b, bs_BestBid = 0, bs_BestAsk = 0,
               bs_Imbalance = 0, bs_TotalBidDepth = 0, bs_TotalAskDepth = 0, bs_DepthJSON = '''', bs_RawJSON = '''',
               bs_NegRisk = bk_NegRisk b\<rparr>;
          s = foldl add_bid s (bk_Bids b);
          s = foldl add_ask (s\<lparr>bs_BestAsk := MaxFloat64\<rparr>) (bk_Asks b);
          s = (if bk_Asks b = [] \<or> feq (bs_BestAsk s) MaxFloat64 then s\<lparr>bs_BestAsk := 0\<rparr> else s);
          total = bs_TotalBidDepth s + bs_TotalAskDepth s;
          s = (if total > 0 then s\<lparr>bs_Imbalance := bs_TotalBidDepth s / total\<rparr> else s)
      in s\<lparr>bs_DepthJSON := bc_depth js (bk_Bids b) (bk_Asks b), bs_RawJSON := bc_raw js b\<rparr>)"

datatype fetch_error = RequestFailed | BadStatus int | DecodeFailed

definition parseBooks :: "book_codec \<Rightarrow> gotime \<Rightarrow> string \<Rightarrow> fetch_error + book_snapshot list" where
  "parseBooks js now data =
     (let books = (if take 1 data = ''['' then bc_batch js data else map_option (\<lambda>b. [b]) (bc_one js data))
      in case books of None \<Rightarrow> Inl DecodeFailed | Some bs \<Rightarrow> Inr (map (snapshot_of_book js now) bs))"

datatype reply = NoReply | Reply int string

definition ok_status :: "int \<Rightarrow> bool" where
  "ok_status st \<longleftrightarrow> \<not> (st < 200 \<or> st \<ge> 300)"

definition post_books :: "book_codec \<Rightarrow> (string list \<Rightarrow> reply) \<Rightarrow> gotime \<Rightarrow> string list \<Rightarrow> fetch_error + book_snapshot list" where
  "post_books js post now payload =
     (case post payload of
        NoReply \<Rightarrow> Inl RequestFailed
      | Reply st data \<Rightarrow> if ok_status st then parseBooks js now data else Inl (BadStatus st))"

fun book_batches ::
  "book_codec \<Rightarrow> (string list \<Rightarrow> reply) \<Rightarrow> gotime \<Rightarrow> string list list \<Rightarrow> book_snapshot list \<Rightarrow>
   book_snapshot list \<times> fetch_error option" where
  "book_batches js post now [] all = (all, None)"
| "book_batches js post now (c # cs) all =
     (let payload = filter (\<lambda>t. t \<noteq> '''') c in
      if payload = [] then book_batches js post now cs all
      else
        (case post_books js post now payload of
           Inl e \<Rightarrow> (all, Some e)
         | Inr snaps \<Rightarrow> book_batches js post now cs (all @ snaps)))"

definition FetchBooks ::
  "book_codec \<Rightarrow> (string list \<Rightarrow> reply) \<Rightarrow> gotime \<Rightarrow> string list \<Rightarrow> int \<Rightarrow> book_snapshot list \<times> fetch_error option" where
  "FetchBooks js post now tokenIDs batchSize =
     book_batches js post now (chunks (nat (if batchSize \<le> 0 then 50 else batchSize)) tokenIDs) []"

section \<open>Open interest\<close>

record oi_point =
  op_Time :: gotime
  op_ConditionID :: string
  op_Value :: f64

record oi_codec =
  \<comment> \<open>\<open>json.Unmarshal\<close> into a list of (market, value), into one, and into a number\<close>
  oc_items :: "string \<Rightarrow> (string \<times> f64) list option"
  oc_one :: "string \<Rightarrow> (string \<times> f64) option"
  oc_number :: "string \<Rightarrow> f64 option"

definition parseOI :: "oi_codec \<Rightarrow> gotime \<Rightarrow> string \<Rightarrow> oi_point list option" where
  "parseOI js now data =
     (let items = (case oc_items js data of None \<Rightarrow> [] | Some its \<Rightarrow> its) in
      if items \<noteq> [] then Some (map (\<lambda>(m, v). \<lparr>op_Time = now, op_ConditionID = m, op_Value = v\<rparr>) items)
      else
        (case oc_one js data of
           Some (m, v) \<Rightarrow>
             if m \<noteq> '''' \<or> \<not> feq v 0 then Some [\<lparr>op_Time = now, op_ConditionID = m, op_Value = v\<rparr>]
             else map_option (\<lambda>v. [\<lparr>op_Time = now, op_ConditionID = '''', op_Value = v\<rparr>]) (oc_number js data)
         | None \<Rightarrow> map_option (\<lambda>v. [\<lparr>op_Time = now, op_ConditionID = '''', op_Value = v\<rparr>]) (oc_number js data)))"

definition fetchOneOI :: "oi_codec \<Rightarrow> (string \<Rightarrow> reply) \<Rightarrow> gotime \<Rightarrow> string \<Rightarrow> oi_point list" where
  \<comment> \<open>no points on an error: the caller drops it\<close>
  "fetchOneOI js get now cid =
     (case get cid of
        NoReply \<Rightarrow> []
      | Reply st data \<Rightarrow>
          if \<not> ok_status st then []
          else
            (case parseOI js now data of
               None \<Rightarrow> []
             | Some pts \<Rightarrow> map (\<lambda>p. if op_ConditionID p = '''' then p\<lparr>op_ConditionID := cid\<rparr> else p) pts))"

definition FetchOI ::
  "oi_codec \<Rightarrow> (string \<Rightarrow> reply) \<Rightarrow> gotime \<Rightarrow> bool \<Rightarrow> string list \<Rightarrow> oi_point list \<times> bool" where
  \<comment> \<open>\<open>canceled\<close>: the context is done at the end; a job left because of it is a request without a reply; the flag is the error\<close>
  "FetchOI js get now canceled conditionIDs =
     (let ids = filter (\<lambda>i. i \<noteq> '''') conditionIDs in
      if ids = [] then ([], False)
      else let out = concat (map (fetchOneOI js get now) ids) in (out, canceled \<and> out = []))"

section \<open>The tables\<close>

record oi_row =
  oh_Time :: gotime
  oh_ConditionID :: string
  oh_OIValue :: f64
  oh_Source :: string

definition stored_oi :: "gotime \<Rightarrow> oi_row \<Rightarrow> oi_row" where
  "stored_oi now r =
     r\<lparr>oh_Time := (if IsZero (oh_Time r) then now else oh_Time r),
       oh_Source := (if oh_Source r = '''' then ''data-api'' else oh_Source r)\<rparr>"

definition InsertOIHistory :: "gotime \<Rightarrow> oi_row list \<Rightarrow> oi_row list \<Rightarrow> oi_row list" where
  "InsertOIHistory now rows tbl = tbl @ map (stored_oi now) (filter (\<lambda>r. oh_ConditionID r \<noteq> '''') rows)"

type_synonym book_table = "(gotime \<times> string \<times> string, book_snapshot) gomap"

definition upsert_book :: "gotime \<Rightarrow> book_table \<Rightarrow> book_snapshot \<Rightarrow> book_table" where
  "upsert_book now tbl r =
     (let ts = (if IsZero (bs_Time r) then now else bs_Time r)
      in go_put (ts, bs_MarketID r, bs_TokenID r) (r\<lparr>bs_Time := ts\<rparr>) tbl)"

definition InsertOrderbookSnapshots :: "gotime \<Rightarrow> book_snapshot list \<Rightarrow> book_table \<Rightarrow> book_table" where
  \<comment> \<open>on the schema with the unique constraint\<close>
  "InsertOrderbookSnapshots now rows tbl = foldl (upsert_book now) tbl (filter (\<lambda>r. bs_TokenID r \<noteq> '''') rows)"

fun newest_by :: "('r \<Rightarrow> gotime) \<Rightarrow> 'r list \<Rightarrow> 'r option" where
  \<comment> \<open>the row of \<open>DISTINCT ON (id) ... ORDER BY id, time DESC\<close>\<close>
  "newest_by tm [] = None"
| "newest_by tm (r # rs) =
     (case newest_by tm rs of None \<Rightarrow> Some r | Some q \<Rightarrow> if tm r < tm q then Some q else Some r)"

definition latest_of :: "('r \<Rightarrow> gotime) \<Rightarrow> ('r \<Rightarrow> string) \<Rightarrow> string list \<Rightarrow> 'r list \<Rightarrow> (string, 'r) gomap" where
  "latest_of tm key ids rows =
     List.map_filter (\<lambda>i. map_option (Pair i) (newest_by tm (filter (\<lambda>r. key r = i) rows))) (remdups ids)"

definition LoadLatestBooks :: "string list \<Rightarrow> book_table \<Rightarrow> (string, book_snapshot) gomap" where
  "LoadLatestBooks tokenIDs tbl = latest_of bs_Time bs_TokenID tokenIDs (map snd tbl)"

definition LoadLatestOI :: "string list \<Rightarrow> oi_row list \<Rightarrow> (string, f64) gomap" where
  "LoadLatestOI conditionIDs tbl = map (\<lambda>(c, r). (c, oh_OIValue r)) (latest_of oh_Time oh_ConditionID conditionIDs tbl)"

section \<open>What a snapshot holds\<close>

definition level_ok :: "text_level \<Rightarrow> bool" where
  "level_ok l \<longleftrightarrow> isfin (float_or_zero (tl_Price l)) \<and> rval (float_or_zero (tl_Price l)) < rval MaxFloat64 \<and>
     isfin (float_or_zero (tl_Size l)) \<and> 0 \<le> rval (float_or_zero (tl_Size l))"

abbreviation price_of :: "text_level \<Rightarrow> real" where "price_of l \<equiv> rval (float_or_zero (tl_Price l))"
abbreviation size_of_level :: "text_level \<Rightarrow> real" where "size_of_level l \<equiv> rval (float_or_zero (tl_Size l))"

lemma Max_insert_max: "finite A \<Longrightarrow> Max (insert (max a b) A) = Max (insert a (insert (b :: real) A))"
  by (cases "A = {}") (simp_all add: max.assoc)

lemma Min_insert_min: "finite A \<Longrightarrow> Min (insert (min a b) A) = Min (insert a (insert (b :: real) A))"
  by (cases "A = {}") (simp_all add: min.assoc)

lemma bids_fold:
  assumes "\<forall>l \<in> set ls. level_ok l" and "bs_BestBid s = Fin b" and "bs_TotalBidDepth s = Fin d"
  shows "foldl add_bid s ls =
    s\<lparr>bs_BestBid := Fin (Max (insert b (price_of ` set ls))), bs_TotalBidDepth := Fin (d + sum_list (map size_of_level ls))\<rparr>"
  using assms
proof (induction ls arbitrary: s b d)
  case (Cons l ls)
  from Cons.prems(1) obtain p z where l: "float_or_zero (tl_Price l) = Fin p" "float_or_zero (tl_Size l) = Fin z"
    by (auto simp: level_ok_def isfin_iff)
  have step: "add_bid s l = s\<lparr>bs_BestBid := Fin (max b p), bs_TotalBidDepth := Fin (d + z)\<rparr>"
    using Cons.prems(2,3) l by (simp add: add_bid_def Let_def max_def f64_eval)
  have "foldl add_bid (add_bid s l) ls = (add_bid s l)\<lparr>bs_BestBid := Fin (Max (insert (max b p) (price_of ` set ls))),
      bs_TotalBidDepth := Fin (d + z + sum_list (map size_of_level ls))\<rparr>"
    by (rule Cons.IH) (use Cons.prems(1) step in auto)
  then show ?case using l by (simp add: step Max_insert_max add.assoc)
qed simp

lemma asks_fold:
  assumes "\<forall>l \<in> set ls. level_ok l" and "bs_BestAsk s = Fin b" and "bs_TotalAskDepth s = Fin d"
  shows "foldl add_ask s ls =
    s\<lparr>bs_BestAsk := Fin (Min (insert b (price_of ` set ls))), bs_TotalAskDepth := Fin (d + sum_list (map size_of_level ls))\<rparr>"
  using assms
proof (induction ls arbitrary: s b d)
  case (Cons l ls)
  from Cons.prems(1) obtain p z where l: "float_or_zero (tl_Price l) = Fin p" "float_or_zero (tl_Size l) = Fin z"
    by (auto simp: level_ok_def isfin_iff)
  have step: "add_ask s l = s\<lparr>bs_BestAsk := Fin (min b p), bs_TotalAskDepth := Fin (d + z)\<rparr>"
    using Cons.prems(2,3) l by (simp add: add_ask_def Let_def min_def f64_eval)
  have "foldl add_ask (add_ask s l) ls = (add_ask s l)\<lparr>bs_BestAsk := Fin (Min (insert (min b p) (price_of ` set ls))),
      bs_TotalAskDepth := Fin (d + z + sum_list (map size_of_level ls))\<rparr>"
    by (rule Cons.IH) (use Cons.prems(1) step in auto)
  then show ?case using l by (simp add: step Min_insert_min add.assoc)
qed simp

definition demo_level :: "string \<Rightarrow> string \<Rightarrow> text_level" where "demo_level p z = \<lparr>tl_Price = p, tl_Size = z\<rparr>"

definition demo_book :: book_response where
  "demo_book = \<lparr>bk_MarketID = ''m'', bk_AssetID = ''t'', bk_Bids = [demo_level ''0.4'' ''30'', demo_level ''0.5'' ''30''],
     bk_Asks = [demo_level ''0.6'' ''40''], bk_NegRisk = False, bk_Timestamp = ''''\<rparr>"

lemma demo_levels: "\<forall>l \<in> set (bk_Bids demo_book) \<union> set (bk_Asks demo_book). level_ok l"
  by (simp add: demo_book_def demo_level_def level_ok_def float_or_zero_def MaxFloat64_def) code_simp

lemma book_snapshot_facts:
  assumes "\<forall>l \<in> set (bk_Bids b) \<union> set (bk_Asks b). level_ok l"
  shows "bs_BestBid (snapshot_of_book js now b) = Fin (Max (insert 0 (price_of ` set (bk_Bids b)))) \<and>
    bs_BestAsk (snapshot_of_book js now b) = Fin (if bk_Asks b = [] then 0 else Min (price_of ` set (bk_Asks b))) \<and>
    bs_TotalBidDepth (snapshot_of_book js now b) = Fin (sum_list (map size_of_level (bk_Bids b))) \<and>
    0 \<le> bs_Imbalance (snapshot_of_book js now b) \<and> bs_Imbalance (snapshot_of_book js now b) \<le> 1"
proof -
  let ?s = "\<lparr>bs_Time = now, bs_MarketID = bk_MarketID b, bs_TokenID = bk_AssetID b, bs_BestBid = 0, bs_BestAsk = 0,
    bs_Imbalance = 0, bs_TotalBidDepth = 0, bs_TotalAskDepth = 0, bs_DepthJSON = '''', bs_RawJSON = '''', bs_NegRisk = bk_NegRisk b\<rparr>"
  let ?B = "sum_list (map size_of_level (bk_Bids b))" and ?A = "sum_list (map size_of_level (bk_Asks b))"
  obtain M where max: "MaxFloat64 = Fin M" by (simp add: MaxFloat64_def)
  let ?m = "Min (insert M (price_of ` set (bk_Asks b)))"
  have bids: "foldl add_bid ?s (bk_Bids b) =
      ?s\<lparr>bs_BestBid := Fin (Max (insert 0 (price_of ` set (bk_Bids b)))), bs_TotalBidDepth := Fin (0 + ?B)\<rparr>"
    by (rule bids_fold) (use assms in \<open>auto simp: zero_f64_def\<close>)
  have asks: "foldl add_ask s (bk_Asks b) = s\<lparr>bs_BestAsk := Fin ?m, bs_TotalAskDepth := Fin ?A\<rparr>"
    if "bs_BestAsk s = Fin M" "bs_TotalAskDepth s = Fin 0" for s
    using asks_fold [OF _ that] assms by simp
  have nonneg: "0 \<le> ?B" "0 \<le> ?A" using assms by (auto intro!: sum_list_nonneg simp: level_ok_def)
  have m: "?m = Min (price_of ` set (bk_Asks b)) \<and> Min (price_of ` set (bk_Asks b)) \<noteq> M" if "bk_Asks b \<noteq> []"
  proof -
    have fin: "finite (price_of ` set (bk_Asks b))" "price_of ` set (bk_Asks b) \<noteq> {}" using that by auto
    obtain l where "l \<in> set (bk_Asks b)" using that(1) \<open>bk_Asks b \<noteq> []\<close> by (meson hd_in_set)
    then have "Min (price_of ` set (bk_Asks b)) \<le> price_of l" "price_of l < rval MaxFloat64"
      using assms by (auto simp: level_ok_def)
    then have "Min (price_of ` set (bk_Asks b)) < M" by (simp add: max)
    then show ?thesis using fin by (simp add: Min_insert)
  qed
  have bb: "foldl add_bid ?s (bk_Bids b) = ?s\<lparr>bs_BestBid := Fin (Max (insert 0 (price_of ` set (bk_Bids b)))), bs_TotalBidDepth := Fin ?B\<rparr>"
    unfolding bids by simp
  have part: "0 \<le> ?B / (?B + ?A) \<and> ?B / (?B + ?A) \<le> 1" if "0 < ?B + ?A" using nonneg that by simp
  show ?thesis
    using m part nonneg unfolding snapshot_of_book_def Let_def bb by (simp add: asks max f64_eval)
qed

text \<open>a book snapshot is the top of its book.  If the levels are finite with sizes that are not negative, the best bid is the
  highest bid and the best ask the lowest ask, with zero for a side without levels, the depths are the sums of the sizes, and
  the imbalance is between zero and one.\<close>

theorem book_snapshot_top:
  assumes "\<forall>l \<in> set (bk_Bids b) \<union> set (bk_Asks b). level_ok l"
  shows "bs_BestBid (snapshot_of_book js now b) = Fin (Max (insert 0 (price_of ` set (bk_Bids b)))) \<and>
    bs_BestAsk (snapshot_of_book js now b) = Fin (if bk_Asks b = [] then 0 else Min (price_of ` set (bk_Asks b))) \<and>
    bs_TotalBidDepth (snapshot_of_book js now b) = Fin (sum_list (map size_of_level (bk_Bids b))) \<and>
    0 \<le> bs_Imbalance (snapshot_of_book js now b) \<and> bs_Imbalance (snapshot_of_book js now b) \<le> 1"
  by (rule book_snapshot_facts [OF assms])

theorem book_snapshot_top_witness:
  "\<exists>s. s = snapshot_of_book \<lparr>bc_batch = \<lambda>_. None, bc_one = \<lambda>_. None, bc_depth = \<lambda>_ _. [], bc_raw = \<lambda>_. []\<rparr> 0 demo_book \<and>
     bs_BestBid s = Fin (1 / 2) \<and> bs_BestAsk s = Fin (6 / 10) \<and> bs_Imbalance s \<le> 1"
proof -
  have "price_of (demo_level ''0.4'' ''30'') = 4 / 10" "price_of (demo_level ''0.5'' ''30'') = 1 / 2"
    "price_of (demo_level ''0.6'' ''40'') = 6 / 10"
    by (simp_all add: demo_level_def) code_simp+
  then show ?thesis
    using book_snapshot_top [OF demo_levels, of "\<lparr>bc_batch = \<lambda>_. None, bc_one = \<lambda>_. None, bc_depth = \<lambda>_ _. [], bc_raw = \<lambda>_. []\<rparr>" 0]
    by (simp add: demo_book_def)
qed

section \<open>Batches up to the first failure\<close>

definition payloads :: "string list \<Rightarrow> int \<Rightarrow> string list list" where
  "payloads tokenIDs batchSize =
     filter (\<lambda>p. p \<noteq> []) (map (filter (\<lambda>t. t \<noteq> '''')) (chunks (nat (if batchSize \<le> 0 then 50 else batchSize)) tokenIDs))"

lemma book_batches_prefix:
  "\<exists>answered. fst (book_batches js post now cs all) = all @ concat answered \<and>
     (let ps = filter (\<lambda>p. p \<noteq> []) (map (filter (\<lambda>t. t \<noteq> '''')) cs); n = length answered in
      n \<le> length ps \<and> map (post_books js post now) (take n ps) = map Inr answered \<and>
      snd (book_batches js post now cs all) =
        (if n = length ps then None else Some (projl (post_books js post now (ps ! n)))) \<and>
      (n = length ps \<or> isl (post_books js post now (ps ! n))))"
proof (induction cs arbitrary: all)
  case Nil
  show ?case by (rule exI [of _ "[]"]) simp
next
  case (Cons c cs)
  let ?p = "filter (\<lambda>t. t \<noteq> '''') c"
  show ?case
  proof (cases "?p = []")
    case True
    then show ?thesis using Cons.IH [of all] by simp
  next
    case ne: False
    show ?thesis
    proof (cases "post_books js post now ?p")
      case (Inl e)
      then show ?thesis using ne by (intro exI [of _ "[]"]) simp
    next
      case (Inr snaps)
      from Cons.IH [of "all @ snaps"] obtain answered where
        a: "fst (book_batches js post now cs (all @ snaps)) = (all @ snaps) @ concat answered"
        and b: "let ps = filter (\<lambda>p. p \<noteq> []) (map (filter (\<lambda>t. t \<noteq> '''')) cs); n = length answered in
          n \<le> length ps \<and> map (post_books js post now) (take n ps) = map Inr answered \<and>
          snd (book_batches js post now cs (all @ snaps)) =
            (if n = length ps then None else Some (projl (post_books js post now (ps ! n)))) \<and>
          (n = length ps \<or> isl (post_books js post now (ps ! n)))" by blast
      show ?thesis using a b ne Inr by (intro exI [of _ "snaps # answered"]) (simp add: Let_def)
    qed
  qed
qed

text \<open>books are fetched in batches up to the first failure.  The requests hold every token once, at most a batch size each; the
  snapshots are those of the answered requests in order; and the error is that of the first request that failed, none
  exactly if all were answered.\<close>

theorem fetch_books_prefix:
  fixes js post now tokenIDs batchSize
  defines "r \<equiv> FetchBooks js post now tokenIDs batchSize" and "ps \<equiv> payloads tokenIDs batchSize"
  shows "concat ps = filter (\<lambda>t. t \<noteq> '''') tokenIDs \<and>
    Max (insert 0 (length ` set ps)) \<le> nat (if batchSize \<le> 0 then 50 else batchSize) \<and>
    (\<exists>answered. fst r = concat answered \<and> map (post_books js post now) (take (length answered) ps) = map Inr answered \<and>
       snd r = (if length answered = length ps then None
                else Some (projl (post_books js post now (ps ! length answered)))))"
proof (intro conjI)
  let ?n = "nat (if batchSize \<le> 0 then 50 else batchSize)"
  have n: "0 < ?n" by simp
  have flat: "concat (filter (\<lambda>p. p \<noteq> []) (map (filter (\<lambda>t. t \<noteq> '''')) cs)) = filter (\<lambda>t. t \<noteq> '''') (concat cs)"
    for cs :: "string list list" by (induction cs) auto
  show "concat ps = filter (\<lambda>t. t \<noteq> '''') tokenIDs" unfolding ps_def payloads_def flat concat_chunks [OF n] ..
  have "length p \<le> ?n" if "p \<in> set ps" for p
  proof -
    from that obtain c where "c \<in> set (chunks ?n tokenIDs)" "p = filter (\<lambda>t. t \<noteq> '''') c" by (auto simp: ps_def payloads_def)
    with chunks_bounded [of c ?n tokenIDs] have "length c \<le> ?n" by blast
    moreover have "length p \<le> length c" unfolding \<open>p = _\<close> by (rule length_filter_le)
    ultimately show ?thesis by (rule order_trans [rotated])
  qed
  then show "Max (insert 0 (length ` set ps)) \<le> ?n" by (subst Max_le_iff) auto
  show "\<exists>answered. fst r = concat answered \<and> map (post_books js post now) (take (length answered) ps) = map Inr answered \<and>
       snd r = (if length answered = length ps then None else Some (projl (post_books js post now (ps ! length answered))))"
    using book_batches_prefix [of js post now "chunks ?n tokenIDs" "[]"]
    unfolding r_def FetchBooks_def ps_def payloads_def Let_def by auto
qed

section \<open>What was stored last\<close>

lemma newest_by_None [simp]: "newest_by tm rs = None \<longleftrightarrow> rs = []"
  by (cases rs) (auto split: option.splits)

lemma newest_by_Some: "newest_by tm rs = Some r \<Longrightarrow> r \<in> set rs \<and> (\<forall>q \<in> set rs. tm q \<le> tm r)"
proof (induction rs arbitrary: r)
  case (Cons x rs)
  then show ?case by (auto split: option.splits if_splits)
qed simp

lemma newest_by_unique:
  assumes "r \<in> set rs" and "\<And>q. q \<in> set rs \<Longrightarrow> q = r \<or> tm q < tm r"
  shows "newest_by tm rs = Some r"
proof -
  obtain q where q: "newest_by tm rs = Some q" using assms(1) by (cases "newest_by tm rs") auto
  with newest_by_Some [OF q] assms show ?thesis by force
qed

lemma latest_of_get:
  "go_get (latest_of tm key ids rows) i = (if i \<in> set ids then newest_by tm (filter (\<lambda>r. key r = i) rows) else None)"
proof -
  have "go_get (List.map_filter (\<lambda>i. map_option (Pair i) (f i)) is) i = (if i \<in> set is then f i else None)"
    if "distinct is" for f :: "string \<Rightarrow> 'a option" and "is"
    using that by (induction "is") (auto simp: map_filter_simps split: option.splits)
  then show ?thesis unfolding latest_of_def by simp
qed

definition book_keys_ok :: "book_table \<Rightarrow> bool" where
  "book_keys_ok tbl \<longleftrightarrow> go_wf tbl \<and> (\<forall>((t, m, k), s) \<in> set tbl. t = bs_Time s \<and> m = bs_MarketID s \<and> k = bs_TokenID s)"

lemma upsert_book_ok: "book_keys_ok tbl \<Longrightarrow> book_keys_ok (upsert_book now tbl r)"
  by (auto simp: book_keys_ok_def upsert_book_def Let_def dest!: go_put_mem split: if_splits intro: distinct_update)

lemma insert_books_ok:
  "book_keys_ok tbl \<Longrightarrow> book_keys_ok (InsertOrderbookSnapshots now rows tbl)"
  unfolding InsertOrderbookSnapshots_def by (induction rows arbitrary: tbl) (auto simp: upsert_book_ok)

lemma upsert_books_origin:
  "book_keys_ok tbl \<Longrightarrow> s \<in> snd ` set (foldl (upsert_book now) tbl rows) \<Longrightarrow>
    s \<in> snd ` set tbl \<or> (\<exists>r \<in> set rows. s = r\<lparr>bs_Time := if IsZero (bs_Time r) then now else bs_Time r\<rparr>)"
proof (induction rows arbitrary: tbl)
  case (Cons r rows)
  from Cons.IH [of "upsert_book now tbl r"] upsert_book_ok [OF Cons.prems(1), of now r] Cons.prems(2) consider
    (t) "s \<in> snd ` set (upsert_book now tbl r)" | (r) "\<exists>r \<in> set rows. s = r\<lparr>bs_Time := if IsZero (bs_Time r) then now else bs_Time r\<rparr>"
    by auto
  then show ?case
  proof cases
    case t
    then show ?thesis by (force simp: upsert_book_def Let_def dest!: go_put_mem)
  qed auto
qed simp

lemma put_later_keeps:
  "(\<forall>q \<in> set rows. (if IsZero (bs_Time q) then now else bs_Time q, bs_MarketID q, bs_TokenID q) \<noteq> k) \<Longrightarrow>
    go_get (foldl (upsert_book now) tbl rows) k = go_get tbl k"
  by (induction rows arbitrary: tbl) (auto simp: upsert_book_def Let_def update_conv')

text \<open>the book stored last is the book that is loaded.  After a batch of snapshots is written, a token's latest book is the
  snapshot that is newer than everything else of the token, in the batch and in the table.\<close>

theorem latest_book_loaded:
  assumes "book_keys_ok tbl" and "rows = before @ r # after" and "bs_TokenID r \<noteq> ''''" and "bs_Time r \<noteq> 0"
    and "\<And>q. q \<in> set (before @ after) \<union> snd ` set tbl \<Longrightarrow> bs_TokenID q = bs_TokenID r \<Longrightarrow> bs_Time q \<noteq> 0 \<and> bs_Time q < bs_Time r"
    and "bs_TokenID r \<in> set ids"
  shows "go_get (LoadLatestBooks ids (InsertOrderbookSnapshots now rows tbl)) (bs_TokenID r) = Some r"
proof -
  let ?live = "filter (\<lambda>r. bs_TokenID r \<noteq> '''')"
  let ?t = "InsertOrderbookSnapshots now rows tbl" and ?k = "(bs_Time r, bs_MarketID r, bs_TokenID r)"
  have split: "?live rows = ?live before @ r # ?live after" using assms(2,3) by simp
  have "go_get ?t ?k = go_get (upsert_book now (foldl (upsert_book now) tbl (?live before)) r) ?k"
    unfolding InsertOrderbookSnapshots_def split foldl_append foldl_Cons
    by (rule put_later_keeps) (use assms(5) in \<open>force simp: IsZero_def\<close>)
  also have "\<dots> = Some r" using assms(4) by (simp add: upsert_book_def IsZero_def Let_def update_conv')
  finally have "r \<in> snd ` set ?t" by (metis image_eqI map_of_SomeD snd_conv)
  moreover have "q = r \<or> bs_Time q < bs_Time r" if q: "q \<in> snd ` set ?t" "bs_TokenID q = bs_TokenID r" for q
  proof -
    from upsert_books_origin [OF assms(1) q(1) [unfolded InsertOrderbookSnapshots_def]] consider (old) "q \<in> snd ` set tbl"
      | (new) p where "p \<in> set rows" "q = p\<lparr>bs_Time := if IsZero (bs_Time p) then now else bs_Time p\<rparr>"
      by (metis filter_is_subset subsetD)
    then show ?thesis
    proof cases
      case old
      then show ?thesis using assms(5) q(2) by blast
    next
      case new
      then have "p = r \<or> bs_Time p \<noteq> 0 \<and> bs_Time p < bs_Time r" using assms(2) assms(5) [of p] q(2) by auto
      then show ?thesis using new(2) assms(4) by (auto simp: IsZero_def)
    qed
  qed
  ultimately have "newest_by bs_Time (filter (\<lambda>q. bs_TokenID q = bs_TokenID r) (map snd ?t)) = Some r"
    by (intro newest_by_unique) auto
  then show ?thesis using assms(6) by (simp add: LoadLatestBooks_def latest_of_get)
qed

definition demo_snapshot :: "int \<Rightarrow> real \<Rightarrow> book_snapshot" where
  "demo_snapshot t b = \<lparr>bs_Time = t, bs_MarketID = ''m'', bs_TokenID = ''t'', bs_BestBid = Fin b, bs_BestAsk = Fin (b + 1 / 10),
     bs_Imbalance = 0, bs_TotalBidDepth = 100, bs_TotalAskDepth = 100, bs_DepthJSON = '''', bs_RawJSON = '''', bs_NegRisk = False\<rparr>"

theorem latest_book_loaded_witness:
  "go_get (LoadLatestBooks [''t''] (InsertOrderbookSnapshots 9 [demo_snapshot 3 (1 / 2), demo_snapshot 2 (4 / 10)]
     [((1, ''m'', ''t''), demo_snapshot 1 (3 / 10))])) ''t'' = Some (demo_snapshot 3 (1 / 2))"
proof -
  have f [simp]: "bs_Time (demo_snapshot t b) = t" "bs_MarketID (demo_snapshot t b) = ''m''" "bs_TokenID (demo_snapshot t b) = ''t''" for t b
    by (simp_all add: demo_snapshot_def)
  have "go_get (LoadLatestBooks [''t''] (InsertOrderbookSnapshots 9 [demo_snapshot 3 (1 / 2), demo_snapshot 2 (4 / 10)]
     [((1, ''m'', ''t''), demo_snapshot 1 (3 / 10))])) (bs_TokenID (demo_snapshot 3 (1 / 2))) = Some (demo_snapshot 3 (1 / 2))"
    by (rule latest_book_loaded [of _ _ "[]" _ "[demo_snapshot 2 (4 / 10)]"]) (auto simp: book_keys_ok_def)
  then show ?thesis by simp
qed

end
