(* ===== verification/Scan_Stage2.thy ===== *)
theory Scan_Stage2
  imports Scan_Stage1 Micro_Enrich Board_DB Edge_Score
begin

text \<open>
  The second stage of a scan, \<open>internal/edgescan\<close>: the candidates of the budget get features from their books and open
  interest, are scored and ranked by \<open>edge.SelectBoard\<close>, cut to the board's size with the sticky markets kept
  (\<open>select.go\<close>), and become the rows of the board (\<open>BuildEdgeBoard\<close>, \<open>materializeRows\<close>); and the activity board of the
  diagnostics (\<open>BuildBoard\<close>).  Texts are bytes, cut at runes as UTF-8 decodes them.  \<open>ids\<close> decodes token lists and \<open>kfj\<close>
  encodes key features.
  Lemmas: the board is bounded, ranked from one and ordered by edge, keeps its sticky markets, and without
  them is the board of the offline evaluation.
\<close>

section \<open>Runes\<close>

definition cont_byte :: "nat list \<Rightarrow> nat \<Rightarrow> bool" where
  "cont_byte bs i \<longleftrightarrow> i < length bs \<and> 128 \<le> bs ! i \<and> bs ! i < 192"

definition rune_bytes :: "nat list \<Rightarrow> nat" where
  \<comment> \<open>the length of the encoding a text starts with; 0 when its first byte does not start one\<close>
  "rune_bytes bs =
     (case bs of
        [] \<Rightarrow> 0
      | b # _ \<Rightarrow>
          if b < 128 then 1
          else if 194 \<le> b \<and> b < 224 \<and> cont_byte bs 1 then 2
          else if 224 \<le> b \<and> b < 240 \<and> cont_byte bs 1 \<and> cont_byte bs 2 \<and>
                  (b = 224 \<longrightarrow> 160 \<le> bs ! 1) \<and> (b = 237 \<longrightarrow> bs ! 1 < 160) then 3
          else if 240 \<le> b \<and> b < 245 \<and> cont_byte bs 1 \<and> cont_byte bs 2 \<and> cont_byte bs 3 \<and>
                  (b = 240 \<longrightarrow> 144 \<le> bs ! 1) \<and> (b = 244 \<longrightarrow> bs ! 1 < 144) then 4
          else 0)"

definition error_rune :: string where
  \<comment> \<open>U+FFFD\<close>
  "error_rune = map char_of [239, 191, 189 :: nat]"

definition ellipsis :: string where "ellipsis = map char_of [226, 128, 166 :: nat]"

function runes :: "string \<Rightarrow> string list" where
  \<comment> \<open>\<open>[]rune(s)\<close>, each rune by its encoding; a byte that starts none is an error rune\<close>
  "runes s =
     (if s = [] then []
      else
        let n = rune_bytes (map of_char s) in
        if n = 0 then error_rune # runes (tl s) else take n s # runes (drop n s))"
  by pat_completeness auto
termination by (relation "measure length") (auto simp: Let_def)

declare runes.simps [simp del]

definition shortQuestion :: "string \<Rightarrow> int \<Rightarrow> string" where
  "shortQuestion q mx =
     (let q = TrimSpace q in
      if mx \<le> 0 \<or> int (length (runes q)) \<le> mx then q
      else concat (take (nat (mx - 1)) (runes q)) @ ellipsis)"

section \<open>Groups\<close>

type_synonym book_index = "(string, book_snapshot) gomap"
type_synonym oi_index = "(string, f64) gomap"

fun midFromBooks :: "string list \<Rightarrow> book_index \<Rightarrow> f64" where
  "midFromBooks [] books = 0"
| "midFromBooks (tid # ts) books =
     (case go_get books tid of
        None \<Rightarrow> midFromBooks ts books
      | Some b \<Rightarrow>
          if bs_BestBid b \<le> 0 \<or> bs_BestAsk b \<le> 0 then midFromBooks ts books
          else (bs_BestBid b + bs_BestAsk b) / 2)"

type_synonym decode_ids = "string \<Rightarrow> string list option"

definition cand_mid :: "decode_ids \<Rightarrow> heap \<Rightarrow> book_index \<Rightarrow> candidate \<Rightarrow> f64" where
  "cand_mid ids h books c = midFromBooks (parseTokenIDs ids (gm_ClobTokenIds (h (addr c)))) books"

definition BuildGroupMidIndex ::
  "decode_ids \<Rightarrow> heap \<Rightarrow> candidate list \<Rightarrow> book_index \<Rightarrow> (string, (string, f64) gomap) gomap" where
  "BuildGroupMidIndex ids h cands books =
     foldl (\<lambda>byGroup c.
         if cn_Market c = None \<or> cn_NegRiskGroupID c = '''' then byGroup
         else
           let mid = cand_mid ids h books c; g = cn_NegRiskGroupID c in
           if mid \<le> 0 then byGroup else go_put g (go_put (cand_id h c) mid (get_or [] byGroup g)) byGroup) [] cands"

definition GroupMidsFor :: "candidate \<Rightarrow> (string, (string, f64) gomap) gomap \<Rightarrow> (string, f64) gomap" where
  \<comment> \<open>a nil map is the empty one\<close>
  "GroupMidsFor c byGroup = (if cn_NegRiskGroupID c = '''' then [] else get_or [] byGroup (cn_NegRiskGroupID c))"

definition group_legs :: "decode_ids \<Rightarrow> heap \<Rightarrow> candidate list \<Rightarrow> book_index \<Rightarrow> (string, group_leg list) gomap" where
  "group_legs ids h cands books =
     foldl (\<lambda>m c.
         if cn_Market c = None \<or> \<not> cn_NegRisk c \<or> cn_NegRiskGroupID c = '''' then m
         else
           let mid = cand_mid ids h books c; g = cn_NegRiskGroupID c in
           if mid > 0 then go_put g (get_or [] m g @ [\<lparr>gl_ConditionID = cand_id h c, gl_Mid = mid\<rparr>]) m else m) [] cands"

definition negRiskResiduals ::
  "decode_ids \<Rightarrow> heap \<Rightarrow> candidate list \<Rightarrow> book_index \<Rightarrow> (string, f64) gomap \<times> (string, bool) gomap" where
  "negRiskResiduals ids h cands books =
     (let groups = group_legs ids h cands books
      in (map (\<lambda>(g, legs). (g, fst (GroupResidual legs))) groups, map (\<lambda>(g, legs). (g, snd (GroupResidual legs))) groups))"

definition groupMemberIndex :: "(string, candidate) gomap \<Rightarrow> (string, string list) gomap" where
  "groupMemberIndex byCond =
     map (\<lambda>(g, conds). (g, sort conds))
       (foldl (\<lambda>m (cond, c).
           if cn_NegRiskGroupID c = '''' then m
           else go_put (cn_NegRiskGroupID c) (get_or [] m (cn_NegRiskGroupID c) @ [cond]) m) [] byCond)"

definition relatedLegs :: "string \<Rightarrow> string \<Rightarrow> (string, string list) gomap \<Rightarrow> string list" where
  "relatedLegs own grp idx = (if grp = '''' then [] else filter (\<lambda>i. i \<noteq> own) (get_or [] idx grp))"

section \<open>Features of a candidate\<close>

definition takerFeeBps :: "gamma_market \<Rightarrow> f64" where
  "takerFeeBps m = (if gm_TakerBaseFee m > 0 \<and> gm_TakerBaseFee m \<le> 500 then of_int_f64 (gm_TakerBaseFee m) else 0)"

definition volume24 :: "gamma_market \<Rightarrow> f64" where
  "volume24 m = (if \<not> feq (gm_Volume24hrClob m) 0 then gm_Volume24hrClob m else gm_Volume24hr m)"

definition token_book :: "book_index \<Rightarrow> string list \<Rightarrow> (string \<times> book_snapshot) option" where
  \<comment> \<open>the primary token's book, else that of any other token in order\<close>
  "token_book books toks = map_option (\<lambda>t. (t, the (go_get books t))) (List.find (go_has books) toks)"

definition market_features ::
  "candidate \<Rightarrow> gamma_market \<Rightarrow> oi_index \<Rightarrow> (string, f64) gomap \<Rightarrow> (string, bool) gomap \<Rightarrow> gotime \<Rightarrow> feature_vector" where
  \<comment> \<open>the part of the features that needs no book\<close>
  "market_features c m oi residual incomplete now =
     (let fv = zero_features\<lparr>fv_ConditionID := gm_ConditionID m, fv_Volume24hr := volume24 m,
                 fv_OneDayAbs := \<bar>gm_OneDayPriceChange m\<bar>, fv_NegRisk := cn_NegRisk c, fv_NegRiskGroupID := cn_NegRiskGroupID c\<rparr>;
          fv = (if \<not> IsZero (gm_EndDate m)
                then let t = Hours (time_Sub (gm_EndDate m) now) in fv\<lparr>fv_TTRHours := (if t < 0 then 0 else t)\<rparr> else fv);
          fv = (if \<not> IsZero (gm_StartDate m) then fv\<lparr>fv_AgeDays := Hours (time_Sub now (gm_StartDate m)) / 24\<rparr> else fv);
          fv = (case go_get oi (gm_ConditionID m) of None \<Rightarrow> fv | Some v \<Rightarrow> fv\<lparr>fv_OI := v\<rparr>)
      in if cn_NegRisk c \<and> cn_NegRiskGroupID c \<noteq> ''''
         then fv\<lparr>fv_NegRiskResidualBps := get_or 0 residual (cn_NegRiskGroupID c),
                 fv_NegRiskIncomplete := get_or False incomplete (cn_NegRiskGroupID c)\<rparr>
         else fv)"

definition book_features :: "feature_vector \<Rightarrow> string \<Rightarrow> book_snapshot \<Rightarrow> gotime \<Rightarrow> feature_vector" where
  "book_features fv tid b now =
     (let age = Seconds (time_Sub now (bs_Time b)); age = (if age < 0 then 0 else age)
      in fv\<lparr>fv_TokenID := tid, fv_BestBid := bs_BestBid b, fv_BestAsk := bs_BestAsk b, fv_BidDepth := bs_TotalBidDepth b,
            fv_AskDepth := bs_TotalAskDepth b, fv_Imbalance := bs_Imbalance b, fv_BookAgeSec := age, fv_FeatureAgeSec := age,
            fv_FeaturesAsOfUnix := Unix (bs_Time b)\<rparr>)"

definition featureFromCandidate ::
  "decode_ids \<Rightarrow> heap \<Rightarrow> candidate \<Rightarrow> book_index \<Rightarrow> oi_index \<Rightarrow> (string, f64) gomap \<Rightarrow> (string, bool) gomap \<Rightarrow> gotime \<Rightarrow> weights \<Rightarrow>
   feature_vector" where
  "featureFromCandidate ids h c books oi residual incomplete now w =
     (let m = h (addr c); fv = market_features c m oi residual incomplete now in
      case token_book books (parseTokenIDs ids (gm_ClobTokenIds m)) of
        None \<Rightarrow> FillBookDerived (wt_MinDepthShares w) (fv\<lparr>fv_MissingBook := True\<rparr>)
      | Some (tid, b) \<Rightarrow> FillBookDerived (wt_MinDepthShares w) (book_features fv tid b now))"

section \<open>The cut by edge\<close>

record scored_cand =
  sx_c :: candidate
  sx_res :: score_result
  sx_act :: f64

definition edge_first :: "scored_cand \<Rightarrow> scored_cand \<Rightarrow> bool" where
  "edge_first a b =
     (if feq (sr_EdgeBps (sx_res a)) (sr_EdgeBps (sx_res b)) then sx_act a > sx_act b
      else sr_EdgeBps (sx_res a) > sr_EdgeBps (sx_res b))"

definition selectTopNByEdge :: "heap \<Rightarrow> scored_cand list \<Rightarrow> (string, bool) gomap \<Rightarrow> int \<Rightarrow> scored_cand list" where
  \<comment> \<open>the callers put no candidate without a market in\<close>
  "selectTopNByEdge h scored sticky maxN =
     (if maxN \<le> 0 \<or> int (length scored) \<le> maxN then scored
      else
        let key = (\<lambda>s. cand_id h (sx_c s));
            out = cut_pass key (get_or False sticky) (nat maxN) scored []
        in if int (length out) \<ge> maxN then sort_by edge_first out
           else sort_by edge_first (cut_pass key (\<lambda>_. True) (nat maxN) scored out))"

section \<open>The board\<close>

record edge_options =
  eo_Base :: build_options
  eo_Weights :: weights
  eo_StrategyVersionID :: "int option"
  eo_Books :: book_index
  eo_OI :: oi_index
  eo_PublishRequireBooks :: bool
  eo_EnrichCandidates :: "candidate list"

record board_build =
  bb_Rows :: "edge_board_row list"
  bb_Stage1Count :: int
  bb_PoolCount :: int
  bb_DroppedSummary :: "(string, int) gomap"
  bb_FVHits :: int
  bb_FVCoverage :: f64

definition DefaultStrategy :: string where "DefaultStrategy = ''default''"

definition board_defaults :: "gotime \<Rightarrow> build_options \<Rightarrow> build_options" where
  \<comment> \<open>\<open>clock\<close> is \<open>time.Now()\<close>\<close>
  "board_defaults clock b =
     b\<lparr>bo_Strategy := (if bo_Strategy b = '''' then DefaultStrategy else bo_Strategy b),
       bo_Now := (if IsZero (bo_Now b) then clock else bo_Now b),
       bo_BoardMaxN := (if bo_BoardMaxN b \<le> 0 then 50 else bo_BoardMaxN b)\<rparr>"

definition row_flags :: "score_result \<Rightarrow> string list" where
  "row_flags r =
     sr_RiskFlags r @ (if sr_Path r = ''fair_value'' \<and> sr_FVSource r = ''neg_risk_complement'' then [''fv_group_residual''] else [])"

definition board_row ::
  "decode_ids \<Rightarrow> ((string, f64) gomap \<Rightarrow> string) \<Rightarrow> heap \<Rightarrow> (string, string list) gomap \<Rightarrow> edge_options \<Rightarrow> nat \<times> scored_cand \<Rightarrow>
   edge_board_row" where
  "board_row ids kfj h members opts = (\<lambda>(i, s).
     let c = sx_c s; m = h (addr c); r = sx_res s; cost = sr_Cost r
     in \<lparr>eb_Strategy = bo_Strategy (eo_Base opts), eb_ConditionID = gm_ConditionID m, eb_MarketID = gm_ID m,
         eb_QuestionShort = shortQuestion (gm_Question m) 120, eb_Category = cn_Category c,
         eb_ClobTokenIDs = parseTokenIDs ids (gm_ClobTokenIds m), eb_Rank = int i, eb_Score = sx_act s,
         eb_EdgeBps = Some (sr_EdgeBps r), eb_StrategyVersionID = eo_StrategyVersionID opts, eb_NegRisk = cn_NegRisk c,
         eb_NegRiskGroupID = cn_NegRiskGroupID c, eb_RelatedLegs = relatedLegs (gm_ConditionID m) (cn_NegRiskGroupID c) members,
         eb_Volume24hr = volume24 m, eb_Liquidity = marketLiquidity m,
         eb_Spread = (if cb_HasBook cost \<and> cb_Mid cost > 0 then (cb_HalfSpreadBps cost * 2 / 10000) * cb_Mid cost else gm_Spread m),
         eb_SelectedAt = bo_Now (eo_Base opts), eb_RunID = bo_RunID (eo_Base opts), eb_CostBps = Some (cb_TotalCostBps cost),
         eb_CapacityUSD = Some (cb_CapacityUSD cost), eb_Urgency = Some (sr_Urgency r), eb_KeyFeatures = kfj (sr_KeyFeatures r),
         eb_RiskFlags = row_flags r, eb_StrategyTags = sr_StrategyTags r, eb_FeaturesAsOf = Some (bo_Now (eo_Base opts)),
         eb_FairValue = sr_FairValue r, eb_ModelEdgeBps = sr_ModelEdgeBps r, eb_FVSource = sr_FVSource r\<rparr>)"

definition materializeRows ::
  "decode_ids \<Rightarrow> ((string, f64) gomap \<Rightarrow> string) \<Rightarrow> heap \<Rightarrow> scored_cand list \<Rightarrow> (string, string list) gomap \<Rightarrow> edge_options \<Rightarrow>
   edge_board_row list" where
  "materializeRows ids kfj h ordered members opts = map (board_row ids kfj h members opts) (List.enumerate 1 ordered)"

definition board_cand_of ::
  "decode_ids \<Rightarrow> heap \<Rightarrow> stage1_result \<Rightarrow> edge_options \<Rightarrow> weights \<Rightarrow> candidate \<Rightarrow> board_candidate" where
  \<comment> \<open>the body of the loop over the candidates of the budget\<close>
  "board_cand_of ids h stage1 opts w c =
     (let enrichSet = (if eo_EnrichCandidates opts = [] then s1_Candidates stage1 else eo_EnrichCandidates opts);
          gMids = GroupMidsFor c (BuildGroupMidIndex ids h enrichSet (eo_Books opts));
          (residual, incomplete) = negRiskResiduals ids h enrichSet (eo_Books opts);
          known = GroupKnownSize c (s1_ByCond stage1)
      in \<lparr>bc_Features = featureFromCandidate ids h c (eo_Books opts) (eo_OI opts) residual incomplete (bo_Now (eo_Base opts)) w,
          bc_GroupMids = gMids,
          bc_KnownGroupSize = (if int (length gMids) > known then int (length gMids) else known),
          bc_NegRiskFeeBips = of_int_f64 (cn_NegRiskFeeBips c), bc_TakerFeeBps = takerFeeBps (h (addr c)),
          bc_TieBreak = gm_ComputedScore (h (addr c))\<rparr>)"

definition extreme_count :: "weights \<Rightarrow> board_candidate list \<Rightarrow> int" where
  "extreme_count w bs =
     int (length (filter (\<lambda>b. wt_DropExtremePrice w \<and> \<not> fv_MissingBook (bc_Features b) \<and>
       IsExtremeMid (fv_Mid (bc_Features b)) (wt_ExtremeLo w) (wt_ExtremeHi w)) bs))"

definition with_scores :: "(string, candidate) gomap \<Rightarrow> board_result list \<Rightarrow> scored_cand list" where
  \<comment> \<open>the ranked results joined with their candidates by condition id\<close>
  "with_scores byCond ranked =
     List.map_filter (\<lambda>r. map_option (\<lambda>c. \<lparr>sx_c = c, sx_res = br_Result r, sx_act = bc_TieBreak (br_Candidate r)\<rparr>)
       (go_get byCond (fv_ConditionID (bc_Features (br_Candidate r))))) ranked"

definition fv_count :: "scored_cand list \<Rightarrow> int" where
  "fv_count xs = int (length (filter (\<lambda>s. sr_FairValue (sx_res s) \<noteq> None) xs))"

definition BuildEdgeBoard ::
  "decode_ids \<Rightarrow> ((string, f64) gomap \<Rightarrow> string) \<Rightarrow> gotime \<Rightarrow> heap \<Rightarrow> stage1_result \<Rightarrow> edge_options \<Rightarrow> board_build" where
  "BuildEdgeBoard ids kfj clock h stage1 opts =
     (let opts = opts\<lparr>eo_Base := board_defaults clock (eo_Base opts)\<rparr>;
          w = (if wt_Name (eo_Weights opts) = '''' then DefaultWeights else eo_Weights opts);
          live = filter (\<lambda>c. cn_Market c \<noteq> None) (s1_Candidates stage1);
          boardCands = map (board_cand_of ids h stage1 opts w) live;
          byCondFeat = foldl (\<lambda>m c. go_put (cand_id h c) c m) [] live;
          booksHit = int (length (filter (\<lambda>b. \<not> fv_MissingBook (bc_Features b)) boardCands));
          total = int (length (s1_Candidates stage1));
          dropped = go_put ''extreme_price'' (extreme_count w boardCands)
            (go_put ''board_cap'' 0 (go_put ''edge_drop'' 0 (go_put ''missing_book'' 0 (s1_DroppedSummary stage1))))
      in if booksHit = 0 \<and> eo_PublishRequireBooks opts then
           \<lparr>bb_Rows = [], bb_Stage1Count = s1_Stage1Count stage1, bb_PoolCount = s1_PoolCount stage1,
            bb_DroppedSummary = go_put ''missing_book'' total dropped, bb_FVHits = 0, bb_FVCoverage = 0\<rparr>
         else
           let ranked = SelectBoard boardCands w (int (length boardCands));
               scored = with_scores byCondFeat ranked;
               board = selectTopNByEdge h scored (stickyMap (bo_StickyConditionIDs (eo_Base opts))) (bo_BoardMaxN (eo_Base opts));
               dropped = go_put ''board_cap'' (max 0 (int (length scored) - int (length board)))
                 (go_put ''edge_drop'' (max 0 (int (length boardCands) - int (length ranked)))
                   (go_put ''missing_book'' (max 0 (total - booksHit)) dropped))
           in \<lparr>bb_Rows = materializeRows ids kfj h board (groupMemberIndex (s1_ByCond stage1)) opts,
               bb_Stage1Count = s1_Stage1Count stage1, bb_PoolCount = s1_PoolCount stage1, bb_DroppedSummary = dropped,
               bb_FVHits = fv_count scored,
               bb_FVCoverage = (if board \<noteq> [] then of_int_f64 (fv_count board) / of_len (length board) else 0)\<rparr>)"

section \<open>The activity board of the diagnostics\<close>

definition activity_row ::
  "decode_ids \<Rightarrow> heap \<Rightarrow> (string, string list) gomap \<Rightarrow> build_options \<Rightarrow> nat \<times> candidate \<Rightarrow> edge_board_row" where
  "activity_row ids h members opts = (\<lambda>(i, c).
     let m = h (addr c)
     in \<lparr>eb_Strategy = bo_Strategy opts, eb_ConditionID = gm_ConditionID m, eb_MarketID = gm_ID m,
         eb_QuestionShort = shortQuestion (gm_Question m) 120, eb_Category = cn_Category c,
         eb_ClobTokenIDs = parseTokenIDs ids (gm_ClobTokenIds m), eb_Rank = int i, eb_Score = gm_ComputedScore m,
         eb_EdgeBps = None, eb_StrategyVersionID = None, eb_NegRisk = cn_NegRisk c, eb_NegRiskGroupID = cn_NegRiskGroupID c,
         eb_RelatedLegs = relatedLegs (gm_ConditionID m) (cn_NegRiskGroupID c) members, eb_Volume24hr = volume24 m,
         eb_Liquidity = marketLiquidity m, eb_Spread = gm_Spread m, eb_SelectedAt = bo_Now opts, eb_RunID = bo_RunID opts,
         eb_CostBps = None, eb_CapacityUSD = None, eb_Urgency = None, eb_KeyFeatures = '''', eb_RiskFlags = [],
         eb_StrategyTags = [], eb_FeaturesAsOf = None, eb_FairValue = None, eb_ModelEdgeBps = None, eb_FVSource = ''''\<rparr>)"

definition activity_options :: "gotime \<Rightarrow> build_options \<Rightarrow> build_options" where
  "activity_options clock opts =
     (let opts = board_defaults clock opts;
          n = (if mf_MaxN (bo_Filter opts) \<le> 0 then 200 else mf_MaxN (bo_Filter opts))
      in opts\<lparr>bo_Filter := (bo_Filter opts)\<lparr>mf_MaxN := (if n > bo_BoardMaxN opts then bo_BoardMaxN opts else n)\<rparr>\<rparr>)"

definition BuildBoard ::
  "decode_ids \<Rightarrow> environment \<Rightarrow> gotime \<Rightarrow> heap \<Rightarrow> candidate list \<Rightarrow> build_options \<Rightarrow> board_build \<times> heap" where
  "BuildBoard ids env clock h pool opts =
     (let opts = activity_options clock opts;
          (stage1, h) = SelectStage1 env clock h pool opts;
          rows = map (activity_row ids h (groupMemberIndex (s1_ByCond stage1)) opts)
                   (filter (\<lambda>(i, c). cn_Market c \<noteq> None) (List.enumerate 1 (s1_Candidates stage1)))
      in (\<lparr>bb_Rows = rows, bb_Stage1Count = s1_Stage1Count stage1, bb_PoolCount = s1_PoolCount stage1,
           bb_DroppedSummary = go_put ''board_cap'' 0 (s1_DroppedSummary stage1), bb_FVHits = 0, bb_FVCoverage = 0\<rparr>, h))"

section \<open>The cut keeps what a cut keeps\<close>

interpretation se: sticky_cutter "\<lambda>s. cand_id h (sx_c s)" "get_or False" "selectTopNByEdge h" for h
proof
  fix n :: int and xs :: "scored_cand list" and st
  show "n \<le> 0 \<or> int (length xs) \<le> n \<Longrightarrow> selectTopNByEdge h xs st n = xs" by (auto simp: selectTopNByEdge_def)
  assume "0 < n" "n < int (length xs)"
  then show "mset (selectTopNByEdge h xs st n) = mset (pick (\<lambda>s. cand_id h (sx_c s)) (get_or False st) (nat n) xs)"
    by (auto simp: selectTopNByEdge_def pick_def Let_def mset_sort_by nat_le_iff)
qed

lemma sort_by_sorted: "sorted_wrt (\<lambda>a b. \<not> lt b a) xs \<Longrightarrow> sort_by lt xs = xs"
proof (induction xs)
  case (Cons x xs)
  then show ?case by (cases xs) auto
qed simp

section \<open>From candidates to rows\<close>

definition rid :: "board_result \<Rightarrow> string" where
  "rid r = fv_ConditionID (bc_Features (br_Candidate r))"

lemma fill_id [simp]: "fv_ConditionID (FillBookDerived d f) = fv_ConditionID f"
  by (simp add: FillBookDerived_def Let_def)

lemma feature_id: "fv_ConditionID (featureFromCandidate ids h c books oi residual incomplete now w) = ident h (addr c)"
  by (simp add: featureFromCandidate_def Let_def market_features_def book_features_def split: option.splits)

lemma board_one_keeps:
  assumes "board_one w b = Some r"
  shows "rid r = fv_ConditionID (bc_Features b)" "bc_TieBreak (br_Candidate r) = bc_TieBreak b"
  using assms by (auto simp: board_one_def rid_def filled_def Let_def split: if_splits)

definition stage_ok :: "heap \<Rightarrow> stage1_result \<Rightarrow> bool" where
  "stage_ok h stage1 \<longleftrightarrow> pool_ok h (s1_Candidates stage1)"

definition sure_opts :: "gotime \<Rightarrow> edge_options \<Rightarrow> edge_options" where
  "sure_opts clock opts = opts\<lparr>eo_Base := board_defaults clock (eo_Base opts)\<rparr>"

definition stage_cands :: "decode_ids \<Rightarrow> gotime \<Rightarrow> heap \<Rightarrow> stage1_result \<Rightarrow> edge_options \<Rightarrow> board_candidate list" where
  \<comment> \<open>what the second stage gives to \<open>SelectBoard\<close>\<close>
  "stage_cands ids clock h stage1 opts =
     map (board_cand_of ids h stage1 (sure_opts clock opts) (used_weights (eo_Weights opts)))
       (filter (\<lambda>c. cn_Market c \<noteq> None) (s1_Candidates stage1))"

definition publishable :: "decode_ids \<Rightarrow> gotime \<Rightarrow> heap \<Rightarrow> stage1_result \<Rightarrow> edge_options \<Rightarrow> bool" where
  "publishable ids clock h stage1 opts \<longleftrightarrow>
     eo_PublishRequireBooks opts \<longrightarrow> (\<exists>b \<in> set (stage_cands ids clock h stage1 opts). \<not> fv_MissingBook (bc_Features b))"

definition stage_ranked :: "decode_ids \<Rightarrow> gotime \<Rightarrow> heap \<Rightarrow> stage1_result \<Rightarrow> edge_options \<Rightarrow> board_result list" where
  "stage_ranked ids clock h stage1 opts =
     sort_by board_before (board_survivors (used_weights (eo_Weights opts)) (stage_cands ids clock h stage1 opts))"

definition stage_scored :: "decode_ids \<Rightarrow> gotime \<Rightarrow> heap \<Rightarrow> stage1_result \<Rightarrow> edge_options \<Rightarrow> scored_cand list" where
  "stage_scored ids clock h stage1 opts =
     with_scores (foldl (\<lambda>m c. go_put (cand_id h c) c m) [] (filter (\<lambda>c. cn_Market c \<noteq> None) (s1_Candidates stage1)))
       (stage_ranked ids clock h stage1 opts)"

definition stage_board :: "decode_ids \<Rightarrow> gotime \<Rightarrow> heap \<Rightarrow> stage1_result \<Rightarrow> edge_options \<Rightarrow> scored_cand list" where
  "stage_board ids clock h stage1 opts =
     (if publishable ids clock h stage1 opts
      then selectTopNByEdge h (stage_scored ids clock h stage1 opts) (stickyMap (bo_StickyConditionIDs (eo_Base opts)))
             (bo_BoardMaxN (board_defaults clock (eo_Base opts)))
      else [])"

lemma survivors_length: "length (board_survivors w cands) \<le> length cands"
  by (induction cands) (auto simp: board_survivors_def List.map_filter_simps split: option.splits)

lemma SelectBoard_all:
  "SelectBoard cands w (int (length cands)) = sort_by board_before (board_survivors (used_weights w) cands)"
proof (cases "cands = []")
  case True
  then show ?thesis by (simp add: SelectBoard_take board_survivors_def List.map_filter_simps)
next
  case False
  then have "nat (if int (length cands) \<le> 0 then 50 else int (length cands)) = length cands" by simp
  then show ?thesis using survivors_length [of "used_weights w" cands]
    by (simp add: SelectBoard_take sortS.length_srt)
qed

lemma used_weights_idem: "used_weights (used_weights w) = used_weights w"
  by (simp add: used_weights_def DefaultWeights_def)

lemma BuildEdgeBoard_rows:
  "bb_Rows (BuildEdgeBoard ids kfj clock h stage1 opts) =
    materializeRows ids kfj h (stage_board ids clock h stage1 opts) (groupMemberIndex (s1_ByCond stage1)) (sure_opts clock opts)"
proof -
  have n: "int (length (filter (\<lambda>b. \<not> fv_MissingBook (bc_Features b)) bs)) = 0 \<longleftrightarrow>
      \<not> (\<exists>b \<in> set bs. \<not> fv_MissingBook (bc_Features b))" for bs by (auto simp: filter_empty_conv)
  have e: "materializeRows ids kfj h [] g o' = []" for g o' by (simp add: materializeRows_def)
  have w: "(if wt_Name w = '''' then DefaultWeights else w) = used_weights w" for w by (simp add: used_weights_def)
  have s: "bo_StickyConditionIDs (board_defaults clock b) = bo_StickyConditionIDs b" for b by (simp add: board_defaults_def)
  have o: "opts\<lparr>eo_Base := board_defaults clock (eo_Base opts)\<rparr> = sure_opts clock opts"
    "eo_Weights (sure_opts clock opts) = eo_Weights opts" "eo_PublishRequireBooks (sure_opts clock opts) = eo_PublishRequireBooks opts"
    "eo_Base (sure_opts clock opts) = board_defaults clock (eo_Base opts)"
    by (simp_all add: sure_opts_def)
  show ?thesis
    unfolding BuildEdgeBoard_def Let_def o w s stage_cands_def [symmetric] SelectBoard_all used_weights_idem n
      stage_ranked_def [symmetric] stage_scored_def [symmetric]
    by (auto simp: stage_board_def publishable_def e)
qed

lemma stage_cand_id: "usable h c \<Longrightarrow> fv_ConditionID (bc_Features (board_cand_of ids h stage1 opts w c)) = cand_id h c"
  by (simp add: board_cand_of_def Let_def case_prod_beta feature_id usable_addr)

lemma stage_ok_facts:
  assumes "stage_ok h stage1"
  shows "filter (\<lambda>c. cn_Market c \<noteq> None) (s1_Candidates stage1) = s1_Candidates stage1"
    "map (\<lambda>b. fv_ConditionID (bc_Features b)) (stage_cands ids clock h stage1 opts) = map (cand_id h) (s1_Candidates stage1)"
    "distinct (map (cand_id h) (s1_Candidates stage1))"
proof -
  have u: "\<forall>c \<in> set (s1_Candidates stage1). usable h c" using assms by (simp add: stage_ok_def pool_ok_def)
  show f: "filter (\<lambda>c. cn_Market c \<noteq> None) (s1_Candidates stage1) = s1_Candidates stage1" using u by (simp add: usable_def)
  show "map (\<lambda>b. fv_ConditionID (bc_Features b)) (stage_cands ids clock h stage1 opts) = map (cand_id h) (s1_Candidates stage1)"
    unfolding stage_cands_def f using u by (simp add: stage_cand_id)
  show "distinct (map (cand_id h) (s1_Candidates stage1))" using assms by (simp add: stage_ok_def pool_ok_def)
qed

lemma survivors_ids:
  "subseq (map rid (board_survivors w cands)) (map (\<lambda>b. fv_ConditionID (bc_Features b)) cands)"
  unfolding board_survivors_def
  by (induction cands) (auto simp: List.map_filter_simps board_one_keeps split: option.splits)

lemma ranked_ids:
  assumes "stage_ok h stage1"
  shows "set (map rid (stage_ranked ids clock h stage1 opts)) \<subseteq> cand_id h ` set (s1_Candidates stage1)"
    and "distinct (map rid (stage_ranked ids clock h stage1 opts))"
proof -
  let ?S = "board_survivors (used_weights (eo_Weights opts)) (stage_cands ids clock h stage1 opts)"
  have sub: "subseq (map rid ?S) (map (cand_id h) (s1_Candidates stage1))"
    using survivors_ids stage_ok_facts(2) [OF assms] by metis
  have m: "mset (map rid (stage_ranked ids clock h stage1 opts)) = mset (map rid ?S)"
    unfolding stage_ranked_def by (rule sortS.perm_map)
  show "set (map rid (stage_ranked ids clock h stage1 opts)) \<subseteq> cand_id h ` set (s1_Candidates stage1)"
  proof -
    have "set (map rid ?S) \<subseteq> set (map (cand_id h) (s1_Candidates stage1))" using list_emb_set [OF sub] by blast
    then show ?thesis unfolding mset_eq_setD [OF m] by simp
  qed
  show "distinct (map rid (stage_ranked ids clock h stage1 opts))"
    using mset_eq_imp_distinct_iff [OF m] subseq_distinct [OF sub stage_ok_facts(3) [OF assms]] by blast
qed

definition scored_of :: "(board_result \<Rightarrow> candidate) \<Rightarrow> board_result \<Rightarrow> scored_cand" where
  "scored_of src r = \<lparr>sx_c = src r, sx_res = br_Result r, sx_act = bc_TieBreak (br_Candidate r)\<rparr>"

lemma edge_first_scored: "edge_first (scored_of src a) (scored_of src b) = board_before a b"
  by (simp add: scored_of_def edge_first_def board_before_def)

lemma stage_scored_map:
  assumes "stage_ok h stage1"
  shows "\<exists>src. (\<forall>r \<in> set (stage_ranked ids clock h stage1 opts). src r \<in> set (s1_Candidates stage1) \<and> cand_id h (src r) = rid r) \<and>
    stage_scored ids clock h stage1 opts = map (scored_of src) (stage_ranked ids clock h stage1 opts)"
proof (intro exI conjI ballI)
  let ?by = "map (\<lambda>c. (cand_id h c, c)) (s1_Candidates stage1)" and ?R = "stage_ranked ids clock h stage1 opts"
  define src where "src r = the (go_get ?by (rid r))" for r
  have get: "go_get ?by (rid r) = Some (src r)" if "r \<in> set ?R" for r
  proof -
    from that ranked_ids(1) [OF assms] obtain c where "c \<in> set (s1_Candidates stage1)" "cand_id h c = rid r"
      by (metis image_eqI imageE list.set_map subsetD)
    then have "go_get ?by (rid r) = Some c" using index_get [OF stage_ok_facts(3) [OF assms]] by blast
    then show ?thesis by (simp add: src_def)
  qed
  show "src r \<in> set (s1_Candidates stage1)" "cand_id h (src r) = rid r" if "r \<in> set ?R" for r
    using get [OF that] index_get [OF stage_ok_facts(3) [OF assms]] by blast+
  have "with_scores ?by rs = map (scored_of src) rs" if "set rs \<subseteq> set ?R" for rs
    using that
  proof (induction rs)
    case (Cons r rs)
    then have "go_get ?by (rid r) = Some (src r)" using get by simp
    then show ?case using Cons by (simp add: with_scores_def List.map_filter_simps rid_def scored_of_def)
  qed (simp add: with_scores_def List.map_filter_simps)
  then show "stage_scored ids clock h stage1 opts = map (scored_of src) ?R"
    unfolding stage_scored_def stage_ok_facts(1) [OF assms] index_by_id [OF stage_ok_facts(3) [OF assms]] by blast
qed

definition no_nan :: "decode_ids \<Rightarrow> gotime \<Rightarrow> heap \<Rightarrow> stage1_result \<Rightarrow> edge_options \<Rightarrow> bool" where
  "no_nan ids clock h stage1 opts \<longleftrightarrow>
     (\<forall>r \<in> set (board_survivors (used_weights (eo_Weights opts)) (stage_cands ids clock h stage1 opts)).
        sr_EdgeBps (br_Result r) \<noteq> NaN \<and> bc_TieBreak (br_Candidate r) \<noteq> NaN)"

lemma swo_on_image: "swo_on (\<lambda>a b. lt (f a) (f b)) A \<Longrightarrow> swo_on lt (f ` A)"
  by (simp only: swo_on_def ball_simps(9))

lemma scored_order:
  assumes "stage_ok h stage1" and "no_nan ids clock h stage1 opts"
  shows "sorted_wrt (\<lambda>a b. \<not> edge_first b a) (stage_scored ids clock h stage1 opts)"
    and "swo_on edge_first (set (stage_scored ids clock h stage1 opts))"
proof -
  let ?R = "stage_ranked ids clock h stage1 opts"
  let ?S = "board_survivors (used_weights (eo_Weights opts)) (stage_cands ids clock h stage1 opts)"
  from stage_scored_map [OF assms(1), of ids clock opts] obtain src where
    sc: "stage_scored ids clock h stage1 opts = map (scored_of src) ?R" by blast
  have swo: "swo_on board_before (set ?S)" using assms(2) by (intro swo_board_before) (simp add: no_nan_def)
  have "sorted_wrt (\<lambda>a b. \<not> board_before b a) ?R" unfolding stage_ranked_def by (rule sortS.ordered [OF swo])
  then show "sorted_wrt (\<lambda>a b. \<not> edge_first b a) (stage_scored ids clock h stage1 opts)"
    unfolding sc sorted_wrt_map edge_first_scored .
  have "swo_on board_before (set ?R)" using swo by (simp add: stage_ranked_def)
  then show "swo_on edge_first (set (stage_scored ids clock h stage1 opts))"
    unfolding sc list.set_map by (intro swo_on_image) (simp add: edge_first_scored)
qed

lemma scored_keys:
  assumes "stage_ok h stage1"
  shows "map (\<lambda>s. cand_id h (sx_c s)) (stage_scored ids clock h stage1 opts) = map rid (stage_ranked ids clock h stage1 opts)"
    and "distinct (map (\<lambda>s. cand_id h (sx_c s)) (stage_scored ids clock h stage1 opts))"
    and "s \<in> set (stage_scored ids clock h stage1 opts) \<Longrightarrow> sx_c s \<in> set (s1_Candidates stage1)"
proof -
  from stage_scored_map [OF assms, of ids clock opts] obtain src where
    src: "\<forall>r \<in> set (stage_ranked ids clock h stage1 opts). src r \<in> set (s1_Candidates stage1) \<and> cand_id h (src r) = rid r"
    and sc: "stage_scored ids clock h stage1 opts = map (scored_of src) (stage_ranked ids clock h stage1 opts)" by blast
  show k: "map (\<lambda>s. cand_id h (sx_c s)) (stage_scored ids clock h stage1 opts) = map rid (stage_ranked ids clock h stage1 opts)"
    unfolding sc using src by (simp add: scored_of_def)
  show "distinct (map (\<lambda>s. cand_id h (sx_c s)) (stage_scored ids clock h stage1 opts))" unfolding k by (rule ranked_ids(2) [OF assms])
  show "s \<in> set (stage_scored ids clock h stage1 opts) \<Longrightarrow> sx_c s \<in> set (s1_Candidates stage1)" unfolding sc using src by (auto simp: scored_of_def)
qed

lemma boardN_pos: "0 < bo_BoardMaxN (board_defaults clock b)"
  by (simp add: board_defaults_def)

lemma board_subset: "set (stage_board ids clock h stage1 opts) \<subseteq> set (stage_scored ids clock h stage1 opts)"
  by (cases "publishable ids clock h stage1 opts") (simp_all add: stage_board_def se.cut_subset)

lemma rows_ids:
  assumes "stage_ok h stage1"
  shows "map eb_ConditionID (bb_Rows (BuildEdgeBoard ids kfj clock h stage1 opts)) =
    map (\<lambda>s. cand_id h (sx_c s)) (stage_board ids clock h stage1 opts)"
proof -
  have "cand_id h (sx_c s) = ident h (addr (sx_c s))" if "s \<in> set (stage_board ids clock h stage1 opts)" for s
    using that board_subset scored_keys(3) [OF assms] pool_ok_facts(4) assms unfolding stage_ok_def by blast
  then show ?thesis unfolding BuildEdgeBoard_rows materializeRows_def
    by (intro nth_equalityI) (simp_all add: board_row_def Let_def nth_enumerate_eq)
qed

section \<open>What the board promises\<close>

lemma rows_projections:
  "map eb_Rank (bb_Rows (BuildEdgeBoard ids kfj clock h stage1 opts)) = map int [1..<Suc (length (stage_board ids clock h stage1 opts))]"
  "map eb_EdgeBps (bb_Rows (BuildEdgeBoard ids kfj clock h stage1 opts)) =
     map (\<lambda>s. Some (sr_EdgeBps (sx_res s))) (stage_board ids clock h stage1 opts)"
  "length (bb_Rows (BuildEdgeBoard ids kfj clock h stage1 opts)) = length (stage_board ids clock h stage1 opts)"
  unfolding BuildEdgeBoard_rows materializeRows_def
  by (intro nth_equalityI; simp add: board_row_def Let_def nth_enumerate_eq del: upt_Suc)+ simp

lemma stage_board_length: "int (length (stage_board ids clock h stage1 opts)) \<le> bo_BoardMaxN (board_defaults clock (eo_Base opts))"
  using se.cut_length [OF boardN_pos] boardN_pos [of clock "eo_Base opts"] by (simp add: stage_board_def order_less_imp_le)

lemma stage_board_distinct: "stage_ok h stage1 \<Longrightarrow> distinct (map (\<lambda>s. cand_id h (sx_c s)) (stage_board ids clock h stage1 opts))"
  by (simp add: stage_board_def se.cut_distinct scored_keys(2))

lemma rows_stamp:
  "\<forall>r \<in> set (bb_Rows (BuildEdgeBoard ids kfj clock h stage1 opts)).
    eb_Strategy r = bo_Strategy (board_defaults clock (eo_Base opts)) \<and> eb_SelectedAt r = bo_Now (board_defaults clock (eo_Base opts))"
  unfolding BuildEdgeBoard_rows materializeRows_def by (auto simp: board_row_def Let_def sure_opts_def)

lemma edge_board_facts:
  assumes "stage_ok h stage1"
  shows "distinct (map eb_ConditionID (bb_Rows (BuildEdgeBoard ids kfj clock h stage1 opts)))"
    and "set (map eb_ConditionID (bb_Rows (BuildEdgeBoard ids kfj clock h stage1 opts))) \<subseteq> cand_id h ` set (s1_Candidates stage1)"
    and "\<forall>r \<in> set (bb_Rows (BuildEdgeBoard ids kfj clock h stage1 opts)). eb_ConditionID r \<noteq> '''' \<and>
      eb_Strategy r = bo_Strategy (board_defaults clock (eo_Base opts)) \<and> eb_SelectedAt r = bo_Now (board_defaults clock (eo_Base opts))"
proof -
  let ?rows = "bb_Rows (BuildEdgeBoard ids kfj clock h stage1 opts)"
  show "distinct (map eb_ConditionID ?rows)" unfolding rows_ids [OF assms] by (rule stage_board_distinct [OF assms])
  show sub: "set (map eb_ConditionID ?rows) \<subseteq> cand_id h ` set (s1_Candidates stage1)"
    unfolding rows_ids [OF assms] using board_subset scored_keys(3) [OF assms] by (auto simp: image_iff subset_iff) blast
  have "k \<noteq> ''''" if "k \<in> cand_id h ` set (s1_Candidates stage1)" for k
    using that assms by (auto simp: stage_ok_def pool_ok_def usable_def)
  then have "\<forall>r \<in> set ?rows. eb_ConditionID r \<noteq> ''''" using sub by auto
  moreover note rows_stamp [of ids kfj clock h stage1 opts]
  ultimately show "\<forall>r \<in> set ?rows. eb_ConditionID r \<noteq> '''' \<and>
      eb_Strategy r = bo_Strategy (board_defaults clock (eo_Base opts)) \<and> eb_SelectedAt r = bo_Now (board_defaults clock (eo_Base opts))"
    by blast
qed

text \<open>the shape of a board.  From a budget without duplicates the rows are ranked from one without a gap, there are at
  most as many as the board may have (50 by default), no market is on it twice, each is a candidate of the
  budget, and every row carries the strategy and the time of the cycle.\<close>

theorem edge_board_shape:
  fixes ids kfj clock h stage1 opts
  assumes "stage_ok h stage1"
  defines "rows \<equiv> bb_Rows (BuildEdgeBoard ids kfj clock h stage1 opts)"
  shows "map eb_Rank rows = map int [1..<Suc (length rows)] \<and>
    int (length rows) \<le> (if bo_BoardMaxN (eo_Base opts) \<le> 0 then 50 else bo_BoardMaxN (eo_Base opts)) \<and>
    distinct (map eb_ConditionID rows) \<and> set (map eb_ConditionID rows) \<subseteq> cand_id h ` set (s1_Candidates stage1) \<and>
    list_all (\<lambda>r. eb_Strategy r = or_default (bo_Strategy (eo_Base opts)) \<and>
      eb_SelectedAt r = (if IsZero (bo_Now (eo_Base opts)) then clock else bo_Now (eo_Base opts))) rows"
  using edge_board_facts [OF assms(1), of ids kfj clock opts] stage_board_length [of ids clock h stage1 opts]
  unfolding rows_def list_all_iff rows_projections(1,3)
  by (simp add: board_defaults_def or_default_def DefaultStrategy_def)

lemma scored_survivor:
  assumes "stage_ok h stage1" and "c \<in> set (s1_Candidates stage1)"
    and "board_one (used_weights (eo_Weights opts)) (board_cand_of ids h stage1 (sure_opts clock opts) (used_weights (eo_Weights opts)) c) = Some r"
  shows "r \<in> set (stage_ranked ids clock h stage1 opts)" and "rid r = cand_id h c"
proof -
  let ?w = "used_weights (eo_Weights opts)"
  let ?b = "board_cand_of ids h stage1 (sure_opts clock opts) ?w c"
  have "?b \<in> set (stage_cands ids clock h stage1 opts)"
    unfolding stage_cands_def stage_ok_facts(1) [OF assms(1)] using assms(2) by simp
  then have "r \<in> set (board_survivors ?w (stage_cands ids clock h stage1 opts))"
    unfolding board_survivors_set using assms(3) by blast
  then show "r \<in> set (stage_ranked ids clock h stage1 opts)" by (simp add: stage_ranked_def)
  have "usable h c" using assms(1,2) by (simp add: stage_ok_def pool_ok_def)
  then show "rid r = cand_id h c" using board_one_keeps(1) [OF assms(3)] by (simp add: stage_cand_id)
qed

lemma edge_board_sticky_facts:
  assumes "stage_ok h stage1" and "publishable ids clock h stage1 opts" and "c \<in> set (s1_Candidates stage1)"
    and "board_one (used_weights (eo_Weights opts))
      (board_cand_of ids h stage1 (sure_opts clock opts) (used_weights (eo_Weights opts)) c) \<noteq> None"
    and "cand_id h c \<in> set (bo_StickyConditionIDs (eo_Base opts))"
    and "int (card (set (bo_StickyConditionIDs (eo_Base opts)))) \<le>
      (if bo_BoardMaxN (eo_Base opts) \<le> 0 then 50 else bo_BoardMaxN (eo_Base opts))"
  shows "cand_id h c \<in> set (map eb_ConditionID (bb_Rows (BuildEdgeBoard ids kfj clock h stage1 opts)))"
proof -
  let ?S = "stage_scored ids clock h stage1 opts" and ?sticky = "bo_StickyConditionIDs (eo_Base opts)"
  let ?N = "bo_BoardMaxN (board_defaults clock (eo_Base opts))" and ?k = "\<lambda>s. cand_id h (sx_c s)"
  let ?F = "filter (\<lambda>s. get_or False (stickyMap ?sticky) (?k s)) ?S"
  note d = scored_keys(2) [OF assms(1), of ids clock opts]
  from assms(4) obtain r where r: "board_one (used_weights (eo_Weights opts))
      (board_cand_of ids h stage1 (sure_opts clock opts) (used_weights (eo_Weights opts)) c) = Some r" by blast
  have "cand_id h c \<in> set (map rid (stage_ranked ids clock h stage1 opts))"
    using scored_survivor [OF assms(1,3) r] by (metis image_eqI list.set_map)
  then obtain s where s: "s \<in> set ?S" "?k s = cand_id h c"
    unfolding scored_keys(1) [OF assms(1), symmetric] by auto
  have "cand_id h c \<noteq> ''''" using assms(1,3) by (auto simp: stage_ok_def pool_ok_def usable_def)
  then have st: "get_or False (stickyMap ?sticky) (?k s)" using s(2) assms(5) by (simp add: stickyMap_keys(2))
  have "distinct (map ?k ?F)" using d by (rule distinct_map_filter)
  then have "length ?F = card (?k ` set ?F)" by (metis distinct_card length_map list.set_map)
  also have "\<dots> \<le> card (set ?sticky)" by (rule card_mono) (auto simp: stickyMap_keys(2))
  finally have "int (length ?F) \<le> ?N" using assms(6) by (simp add: board_defaults_def split: if_splits)
  from se.sticky_kept [OF d boardN_pos this s(1) st] have "s \<in> set (stage_board ids clock h stage1 opts)"
    using assms(2) by (simp add: stage_board_def)
  then show ?thesis unfolding rows_ids [OF assms(1)] using s(2) by (metis (mono_tags, lifting) image_eqI list.set_map)
qed

text \<open>C16: stickiness of the board.  A market of the board before that is in the budget and is scored without being dropped is on
  the new board again, however low its edge, if no more markets are sticky than the board has room for.\<close>

theorem edge_board_sticky:
  assumes "stage_ok h stage1" and "publishable ids clock h stage1 opts" and "c \<in> set (s1_Candidates stage1)"
    and "board_one (used_weights (eo_Weights opts))
      (board_cand_of ids h stage1 (sure_opts clock opts) (used_weights (eo_Weights opts)) c) \<noteq> None"
    and "cand_id h c \<in> set (bo_StickyConditionIDs (eo_Base opts))"
    and "int (card (set (bo_StickyConditionIDs (eo_Base opts)))) \<le>
      (if bo_BoardMaxN (eo_Base opts) \<le> 0 then 50 else bo_BoardMaxN (eo_Base opts))"
  shows "cand_id h c \<in> set (map eb_ConditionID (bb_Rows (BuildEdgeBoard ids kfj clock h stage1 opts)))"
  by (rule edge_board_sticky_facts [OF assms])

lemma selectTop_pick:
  "0 < n \<Longrightarrow> n < int (length xs) \<Longrightarrow>
    selectTopNByEdge h xs st n = sort_by edge_first (pick (\<lambda>s. cand_id h (sx_c s)) (get_or False st) (nat n) xs)"
  by (auto simp: selectTopNByEdge_def pick_def Let_def nat_le_iff)

lemma stage_board_sorted:
  assumes "stage_ok h stage1" and "no_nan ids clock h stage1 opts"
  shows "sorted_wrt (\<lambda>a b. \<not> edge_first b a) (stage_board ids clock h stage1 opts)"
proof -
  let ?S = "stage_scored ids clock h stage1 opts" and ?N = "bo_BoardMaxN (board_defaults clock (eo_Base opts))"
  let ?st = "stickyMap (bo_StickyConditionIDs (eo_Base opts))"
  note ord = scored_order [OF assms]
  have "sorted_wrt (\<lambda>a b. \<not> edge_first b a) (selectTopNByEdge h ?S ?st ?N)"
  proof (cases "?N < int (length ?S)")
    case True
    show ?thesis unfolding selectTop_pick [OF boardN_pos True]
      by (rule sortS.ordered) (rule swo_on_subset [OF ord(2) pick_subset])
  qed (simp add: se.short ord(1))
  then show ?thesis by (simp add: stage_board_def)
qed

text \<open>the board is the best of the budget.  If no edge or activity score is NaN, the rows come by edge, best first, and no candidate
  that was scored and left off comes before one on the board, by edge and then by activity, unless stickiness
  decides: neither of the two is sticky.\<close>

theorem edge_board_best:
  fixes ids kfj clock h stage1 opts
  assumes "stage_ok h stage1" and "no_nan ids clock h stage1 opts"
  defines "rows \<equiv> bb_Rows (BuildEdgeBoard ids kfj clock h stage1 opts)"
    and "S \<equiv> set (board_survivors (used_weights (eo_Weights opts)) (stage_cands ids clock h stage1 opts))"
  shows "sorted_wrt (\<lambda>a b. \<not> the (eb_EdgeBps a) < the (eb_EdgeBps b)) rows \<and>
    (\<forall>x \<in> S \<inter> {r. rid r \<in> set (map eb_ConditionID rows)}. \<forall>y \<in> S \<inter> {r. rid r \<notin> set (map eb_ConditionID rows)}.
       rid x \<notin> set (bo_StickyConditionIDs (eo_Base opts)) \<longrightarrow> rid y \<notin> set (bo_StickyConditionIDs (eo_Base opts)) \<longrightarrow>
       \<not> board_before y x)"
proof
  let ?B = "stage_board ids clock h stage1 opts"
  have "sorted_wrt (\<lambda>a b. \<not> the a < the b) (map (\<lambda>s. Some (sr_EdgeBps (sx_res s))) ?B)"
    unfolding sorted_wrt_map
    by (rule sorted_wrt_mono_rel [OF _ stage_board_sorted [OF assms(1,2)]]) (auto simp: edge_first_def feq_def split: if_splits)
  then show "sorted_wrt (\<lambda>a b. \<not> the (eb_EdgeBps a) < the (eb_EdgeBps b)) rows"
    unfolding rows_projections(2) [symmetric, of ids clock h stage1 opts kfj] sorted_wrt_map rows_def .
  show "\<forall>x \<in> S \<inter> {r. rid r \<in> set (map eb_ConditionID rows)}. \<forall>y \<in> S \<inter> {r. rid r \<notin> set (map eb_ConditionID rows)}.
       rid x \<notin> set (bo_StickyConditionIDs (eo_Base opts)) \<longrightarrow> rid y \<notin> set (bo_StickyConditionIDs (eo_Base opts)) \<longrightarrow>
       \<not> board_before y x"
  proof (intro ballI impI)
    fix x y
    assume x: "x \<in> S \<inter> {r. rid r \<in> set (map eb_ConditionID rows)}" and y: "y \<in> S \<inter> {r. rid r \<notin> set (map eb_ConditionID rows)}"
      and nx: "rid x \<notin> set (bo_StickyConditionIDs (eo_Base opts))" and ny: "rid y \<notin> set (bo_StickyConditionIDs (eo_Base opts))"
    from stage_scored_map [OF assms(1), of ids clock opts] obtain src where
      src: "\<forall>r \<in> set (stage_ranked ids clock h stage1 opts). src r \<in> set (s1_Candidates stage1) \<and> cand_id h (src r) = rid r"
      and sc: "stage_scored ids clock h stage1 opts = map (scored_of src) (stage_ranked ids clock h stage1 opts)" by blast
    have R: "set (stage_ranked ids clock h stage1 opts) = S" by (simp add: stage_ranked_def S_def)
    have key: "cand_id h (sx_c (scored_of src r)) = rid r" if "r \<in> S" for r using that src R by (simp add: scored_of_def)
    have mem: "scored_of src r \<in> set (stage_scored ids clock h stage1 opts)" if "r \<in> S" for r using that R by (simp add: sc)
    have rows: "rid r \<in> set (map eb_ConditionID rows) \<longleftrightarrow> scored_of src r \<in> set ?B" if "r \<in> S" for r
    proof -
      have "inj_on (\<lambda>s. cand_id h (sx_c s)) (set (stage_scored ids clock h stage1 opts))"
        using scored_keys(2) [OF assms(1), of ids clock opts] by (simp add: distinct_map)
      then show ?thesis unfolding rows_def rows_ids [OF assms(1)] list.set_map key [OF that, symmetric]
        using inj_on_image_mem_iff mem [OF that] board_subset by metis
    qed
    have xB: "scored_of src x \<in> set ?B" using x rows by blast
    then have pub: "publishable ids clock h stage1 opts" by (auto simp: stage_board_def split: if_splits)
    have "\<not> edge_first (scored_of src y) (scored_of src x)"
      using x y nx ny rows mem key xB pub
      by (intro se.dropped_behind [OF scored_keys(2) [OF assms(1), of ids clock opts] scored_order(1) [OF assms(1,2)],
            where st = "stickyMap (bo_StickyConditionIDs (eo_Base opts))" and n = "bo_BoardMaxN (board_defaults clock (eo_Base opts))"])
        (auto simp: stage_board_def stickyMap_keys(2))
    then show "\<not> board_before y x" by (simp add: edge_first_scored)
  qed
qed

text \<open>C17: parity with the offline evaluation.  Without sticky markets, and if no edge or activity score is NaN, the published board is
  exactly what \<open>edge.SelectBoard\<close>, the policy the evaluation runs, selects from the same candidates: the same
  markets in the same order with the same edges.\<close>

theorem edge_board_parity:
  fixes ids kfj clock h stage1 opts
  assumes "stage_ok h stage1" and "no_nan ids clock h stage1 opts" and "publishable ids clock h stage1 opts"
    and "bo_StickyConditionIDs (eo_Base opts) = []"
  defines "rows \<equiv> bb_Rows (BuildEdgeBoard ids kfj clock h stage1 opts)"
    and "offline \<equiv> SelectBoard (stage_cands ids clock h stage1 opts) (eo_Weights opts) (bo_BoardMaxN (eo_Base opts))"
  shows "map (\<lambda>r. (eb_ConditionID r, eb_EdgeBps r)) rows = map (\<lambda>r. (rid r, Some (sr_EdgeBps (br_Result r)))) offline"
proof -
  let ?S = "stage_scored ids clock h stage1 opts" and ?N = "bo_BoardMaxN (board_defaults clock (eo_Base opts))"
  let ?R = "stage_ranked ids clock h stage1 opts"
  have none: "get_or False (stickyMap []) = (\<lambda>_. False)" by (simp add: stickyMap_def get_or_def fun_eq_iff)
  note d = scored_keys(2) [OF assms(1), of ids clock opts] and ord = scored_order [OF assms(1,2)]
  have board: "stage_board ids clock h stage1 opts = take (nat ?N) ?S"
  proof (cases "?N < int (length ?S)")
    case True
    have "pick (\<lambda>s. cand_id h (sx_c s)) (\<lambda>_. False) (nat ?N) ?S = take (nat ?N) ?S"
      using boardN_pos by (subst pick_distinct [OF d]) (simp_all add: boardN_pos)
    moreover have "sort_by edge_first (take (nat ?N) ?S) = take (nat ?N) ?S"
      by (rule sort_by_sorted) (rule sorted_wrt_take [OF ord(1)])
    ultimately show ?thesis using assms(3,4) selectTop_pick [OF boardN_pos True, of h] none by (simp add: stage_board_def)
  next
    case False
    then show ?thesis using assms(3) by (simp add: stage_board_def se.short)
  qed
  from stage_scored_map [OF assms(1), of ids clock opts] obtain src where
    src: "\<forall>r \<in> set ?R. src r \<in> set (s1_Candidates stage1) \<and> cand_id h (src r) = rid r" and sc: "?S = map (scored_of src) ?R" by blast
  have n: "nat (if bo_BoardMaxN (eo_Base opts) \<le> 0 then 50 else bo_BoardMaxN (eo_Base opts)) = nat ?N" by (simp add: board_defaults_def)
  have off: "offline = take (nat ?N) ?R" unfolding offline_def SelectBoard_take n stage_ranked_def ..
  have ids: "map eb_ConditionID rows = map rid offline"
    unfolding rows_def rows_ids [OF assms(1)] board off sc take_map map_map
    by (intro map_cong refl) (use src in \<open>auto simp: scored_of_def dest: in_set_takeD\<close>)
  have edges: "map eb_EdgeBps rows = map (\<lambda>r. Some (sr_EdgeBps (br_Result r))) offline"
    unfolding rows_def rows_projections(2) board off sc by (simp add: scored_of_def take_map comp_def)
  have "zip (map eb_ConditionID rows) (map eb_EdgeBps rows) =
      zip (map rid offline) (map (\<lambda>r. Some (sr_EdgeBps (br_Result r))) offline)" unfolding ids edges ..
  then show ?thesis by (simp add: zip_map_map zip_same_conv_map comp_def)
qed

section \<open>A small stage\<close>

lemma missing_book_kept:
  assumes "fv_MissingBook (bc_Features b)" and "\<not> wt_DropMissingBook (used_weights w)"
  shows "\<exists>r. board_one (used_weights w) b = Some r \<and> bc_TieBreak (br_Candidate r) = bc_TieBreak b \<and>
    (\<exists>inp. sn_Features inp = bc_Features b \<and> sn_Levels inp = [] \<and> sn_TakerFeeBps inp = bc_TakerFeeBps b \<and>
      sn_NegRiskFeeBps inp = bc_NegRiskFeeBips b \<and> br_Result r = Score inp (used_weights w))"
proof -
  have f: "filled b (used_weights w) = bc_Features b" using assms(1) by (simp add: filled_def Let_def)
  have u: "fv_MissingBook (used_features (bc_Features b) (used_weights w))" using assms(1) by (simp add: used_features_def Let_def)
  have "\<not> sr_Drop (Score inp (used_weights w))" if "sn_Features inp = bc_Features b" for inp
    using assms(2) u that by (simp add: Score_def Let_def used_weights_idem)
  moreover define inp where "inp = (let i = \<lparr>sn_Features = bc_Features b, sn_FairValue = None, sn_FVSource = '''',
      sn_TakerFeeBps = bc_TakerFeeBps b, sn_NegRiskFeeBps = bc_NegRiskFeeBips b, sn_Levels = []\<rparr>
    in case board_quote b (used_weights w) of None \<Rightarrow> i | Some q \<Rightarrow> i\<lparr>sn_FairValue := Some (fo_FairValue q), sn_FVSource := fo_Source q\<rparr>)"
  moreover have "sn_Features inp = bc_Features b" "sn_Levels inp = []" "sn_TakerFeeBps inp = bc_TakerFeeBps b"
    "sn_NegRiskFeeBps inp = bc_NegRiskFeeBips b" by (simp_all add: inp_def Let_def split: option.split)
  moreover have "board_one (used_weights w) b = (if sr_Drop (Score inp (used_weights w)) then None
      else Some \<lparr>br_Candidate = b\<lparr>bc_Features := bc_Features b\<rparr>, br_Result = Score inp (used_weights w)\<rparr>)"
    unfolding inp_def using assms(1) by (simp add: board_one_def Let_def f)
  ultimately show ?thesis by (intro exI conjI) (auto intro!: exI [of _ inp])
qed

lemma missing_book_edge:
  assumes "fv_MissingBook (sn_Features inp)" and "fv_FeatureAgeSec (sn_Features inp) = 0" and "features_fin (sn_Features inp)"
    and "sn_Levels inp = []" and "isfin (sn_TakerFeeBps inp)" and "isfin (sn_NegRiskFeeBps inp)"
  shows "isfin (sr_EdgeBps (Score inp DefaultWeights))"
proof -
  have w: "used_weights DefaultWeights = DefaultWeights" by (simp add: used_weights_def DefaultWeights_def)
  have f: "used_features (sn_Features inp) DefaultWeights = sn_Features inp"
    using assms(1,2) by (simp add: used_features_def Let_def DefaultWeights_def f64_eval)
  have "score_fin (inp\<lparr>sn_FairValue := None\<rparr>) DefaultWeights"
    unfolding score_fin_def Let_def using isfin_opportunity [OF assms(3) DefaultWeights_fin] assms(3,5,6)
    by (simp add: f features_fin_def) (simp add: DefaultWeights_def)
  from score_cost_nonneg [OF this] have "isfin (cb_TotalCostBps (score_cost inp DefaultWeights))"
    using assms(4) by (simp add: score_cost_def)
  then show ?thesis using assms(1) isfin_opportunity [OF assms(3) DefaultWeights_fin]
    by (simp add: Score_edge w f Let_def)
qed

definition demo_stage :: stage1_result where
  "demo_stage = \<lparr>s1_Candidates = [demo_cand 0 ''e'' '''', demo_cand 1 ''e'' ''''], s1_PoolCount = 2, s1_Stage1Count = 2,
     s1_DroppedSummary = [], s1_ByCond = [(''a'', demo_cand 0 ''e'' ''''), (''b'', demo_cand 1 ''e'' '''')]\<rparr>"

definition demo_edge :: "string list \<Rightarrow> edge_options" where
  \<comment> \<open>no books, and a board of one row\<close>
  "demo_edge sticky = \<lparr>eo_Base = (demo_options sticky)\<lparr>bo_BoardMaxN := 1\<rparr>, eo_Weights = DefaultWeights, eo_StrategyVersionID = None,
     eo_Books = [], eo_OI = [], eo_PublishRequireBooks = False, eo_EnrichCandidates = []\<rparr>"

lemma demo_stage_ok: "stage_ok demo_heap demo_stage"
  by (simp add: stage_ok_def pool_ok_def demo_stage_def usable_def cand_id_def demo_cand_def demo_heap_def demo_market_def)

lemma demo_publishable: "publishable ids clock h demo_stage (demo_edge sticky)"
  by (simp add: publishable_def demo_edge_def)

lemma demo_weights: "used_weights (eo_Weights (demo_edge sticky)) = DefaultWeights"
  by (simp add: demo_edge_def used_weights_def DefaultWeights_def)

lemma no_books: "token_book [] toks = None"
  by (induction toks) (simp_all add: token_book_def go_has_def)

lemma demo_cand_fields:
  fixes ids clock sticky
  defines "b \<equiv> \<lambda>a. board_cand_of ids demo_heap demo_stage (sure_opts clock (demo_edge sticky)) DefaultWeights (demo_cand a ''e'' '''')"
  shows "fv_MissingBook (bc_Features (b a))" "fv_FeatureAgeSec (bc_Features (b a)) = 0" "features_fin (bc_Features (b a))"
    "isfin (bc_TakerFeeBps (b a))" "isfin (bc_NegRiskFeeBips (b a))" "bc_TieBreak (b a) = 0"
proof -
  have m: "gm_EndDate (demo_heap a) = 0" "gm_StartDate (demo_heap a) = 0" "isfin (gm_Volume24hr (demo_heap a))"
    "gm_Volume24hrClob (demo_heap a) = 0" "gm_OneDayPriceChange (demo_heap a) = 0" "gm_TakerBaseFee (demo_heap a) = 0"
    "gm_ComputedScore (demo_heap a) = 0" by (simp_all add: demo_heap_def demo_market_def)
  have o: "eo_Books (sure_opts clock (demo_edge sticky)) = []" "eo_OI (sure_opts clock (demo_edge sticky)) = []"
    by (simp_all add: sure_opts_def demo_edge_def)
  show "fv_MissingBook (bc_Features (b a))" "fv_FeatureAgeSec (bc_Features (b a)) = 0" "features_fin (bc_Features (b a))"
    "isfin (bc_TakerFeeBps (b a))" "isfin (bc_NegRiskFeeBips (b a))" "bc_TieBreak (b a) = 0"
    unfolding b_def board_cand_of_def Let_def case_prod_beta o featureFromCandidate_def no_books
    by (simp_all add: FillBookDerived_def market_features_def zero_features_def demo_cand_def addr_def features_fin_def volume24_def m
        IsZero_def takerFeeBps_def of_int_f64_def zero_f64_def)
qed

lemma demo_kept:
  "\<exists>r. board_one DefaultWeights (board_cand_of ids demo_heap demo_stage (sure_opts clock (demo_edge sticky)) DefaultWeights (demo_cand a ''e'' '''')) = Some r \<and>
    isfin (sr_EdgeBps (br_Result r)) \<and> bc_TieBreak (br_Candidate r) = 0"
proof -
  note f = demo_cand_fields [of ids clock sticky a]
  have w: "used_weights DefaultWeights = DefaultWeights" by (simp add: used_weights_def DefaultWeights_def)
  from missing_book_kept [OF f(1), of DefaultWeights] obtain r inp where
    r: "board_one DefaultWeights (board_cand_of ids demo_heap demo_stage (sure_opts clock (demo_edge sticky)) DefaultWeights (demo_cand a ''e'' '''')) = Some r"
    and t: "bc_TieBreak (br_Candidate r) = bc_TieBreak (board_cand_of ids demo_heap demo_stage (sure_opts clock (demo_edge sticky)) DefaultWeights (demo_cand a ''e'' ''''))"
    and inp: "sn_Features inp = bc_Features (board_cand_of ids demo_heap demo_stage (sure_opts clock (demo_edge sticky)) DefaultWeights (demo_cand a ''e'' ''''))"
      "sn_Levels inp = []" "sn_TakerFeeBps inp = bc_TakerFeeBps (board_cand_of ids demo_heap demo_stage (sure_opts clock (demo_edge sticky)) DefaultWeights (demo_cand a ''e'' ''''))"
      "sn_NegRiskFeeBps inp = bc_NegRiskFeeBips (board_cand_of ids demo_heap demo_stage (sure_opts clock (demo_edge sticky)) DefaultWeights (demo_cand a ''e'' ''''))"
      "br_Result r = Score inp DefaultWeights"
    unfolding w by (auto simp: DefaultWeights_def [THEN arg_cong, of wt_DropMissingBook])
  have "isfin (sr_EdgeBps (Score inp DefaultWeights))" by (rule missing_book_edge) (simp_all add: inp f)
  then show ?thesis using r t f(6) inp(5) by auto
qed

lemma demo_cands:
  "stage_cands ids clock demo_heap demo_stage (demo_edge sticky) =
    map (\<lambda>a. board_cand_of ids demo_heap demo_stage (sure_opts clock (demo_edge sticky)) DefaultWeights (demo_cand a ''e'' '''')) [0, 1]"
  unfolding stage_cands_def demo_weights by (simp add: demo_stage_def demo_cand_def)

lemma demo_no_nan: "no_nan ids clock demo_heap demo_stage (demo_edge sticky)"
proof -
  have "sr_EdgeBps (br_Result r) \<noteq> NaN \<and> bc_TieBreak (br_Candidate r) \<noteq> NaN"
    if "board_one DefaultWeights (board_cand_of ids demo_heap demo_stage (sure_opts clock (demo_edge sticky)) DefaultWeights (demo_cand a ''e'' '''')) = Some r"
    for a r using demo_kept [of ids clock sticky a] that by (auto simp: zero_f64_def)
  then show ?thesis unfolding no_nan_def demo_weights demo_cands by (auto simp: board_survivors_set)
qed

theorem edge_board_shape_witness:
  "int (length (bb_Rows (BuildEdgeBoard (\<lambda>_. None) (\<lambda>_. []) 5 demo_heap demo_stage (demo_edge [])))) \<le> 1"
  using edge_board_shape [OF demo_stage_ok, of "\<lambda>_. None" "\<lambda>_. []" 5 "demo_edge []"] by (simp add: demo_edge_def)

theorem edge_board_sticky_witness:
  "''a'' \<in> set (map eb_ConditionID (bb_Rows (BuildEdgeBoard (\<lambda>_. None) (\<lambda>_. []) 5 demo_heap demo_stage (demo_edge [''a'']))))"
proof -
  have id: "cand_id demo_heap (demo_cand 0 ''e'' '''') = ''a''" by (simp add: cand_id_def demo_cand_def demo_heap_def demo_market_def)
  have "cand_id demo_heap (demo_cand 0 ''e'' '''') \<in>
      set (map eb_ConditionID (bb_Rows (BuildEdgeBoard (\<lambda>_. None) (\<lambda>_. []) 5 demo_heap demo_stage (demo_edge [''a'']))))"
    using demo_kept [of "\<lambda>_. None" 5 "[''a'']" 0]
    by (intro edge_board_sticky [OF demo_stage_ok demo_publishable])
      (auto simp: demo_weights id, simp_all add: demo_stage_def demo_edge_def demo_options_def)
  then show ?thesis by (simp add: id)
qed

theorem edge_board_best_witness:
  "sorted_wrt (\<lambda>a b. \<not> the (eb_EdgeBps a) < the (eb_EdgeBps b))
    (bb_Rows (BuildEdgeBoard (\<lambda>_. None) (\<lambda>_. []) 5 demo_heap demo_stage (demo_edge [''a''])))"
  by (rule conjunct1 [OF edge_board_best [OF demo_stage_ok demo_no_nan]])

theorem edge_board_parity_witness:
  "map eb_ConditionID (bb_Rows (BuildEdgeBoard (\<lambda>_. None) (\<lambda>_. []) 5 demo_heap demo_stage (demo_edge []))) =
    map rid (SelectBoard (stage_cands (\<lambda>_. None) 5 demo_heap demo_stage (demo_edge [])) DefaultWeights 1)"
proof -
  have e: "eo_Weights (demo_edge []) = DefaultWeights" "bo_BoardMaxN (eo_Base (demo_edge [])) = 1"
    "bo_StickyConditionIDs (eo_Base (demo_edge [])) = []" by (simp_all add: demo_edge_def demo_options_def)
  have "map fst (map (\<lambda>r. (eb_ConditionID r, eb_EdgeBps r)) (bb_Rows (BuildEdgeBoard (\<lambda>_. None) (\<lambda>_. []) 5 demo_heap demo_stage (demo_edge [])))) =
      map fst (map (\<lambda>r. (rid r, Some (sr_EdgeBps (br_Result r))))
        (SelectBoard (stage_cands (\<lambda>_. None) 5 demo_heap demo_stage (demo_edge [])) DefaultWeights 1))"
    using edge_board_parity [OF demo_stage_ok demo_no_nan demo_publishable e(3), of "\<lambda>_. None" "\<lambda>_. []" 5] unfolding e by simp
  then show ?thesis by (simp add: comp_def)
qed

section \<open>Questions are cut at runes\<close>

definition lead_bytes :: "nat \<Rightarrow> bool \<Rightarrow> bool \<Rightarrow> bool \<Rightarrow> nat \<Rightarrow> nat" where
  \<comment> \<open>\<open>rune_bytes\<close> as a function of the first byte, of which of the next three continue, and of the second byte\<close>
  "lead_bytes b c1 c2 c3 s =
     (if b < 128 then 1 else if 194 \<le> b \<and> b < 224 \<and> c1 then 2
      else if 224 \<le> b \<and> b < 240 \<and> c1 \<and> c2 \<and> (b = 224 \<longrightarrow> 160 \<le> s) \<and> (b = 237 \<longrightarrow> s < 160) then 3
      else if 240 \<le> b \<and> b < 245 \<and> c1 \<and> c2 \<and> c3 \<and> (b = 240 \<longrightarrow> 144 \<le> s) \<and> (b = 244 \<longrightarrow> s < 144) then 4 else 0)"

lemma rune_bytes_Cons:
  "rune_bytes (b # r) = lead_bytes b (cont_byte (b # r) 1) (cont_byte (b # r) 2) (cont_byte (b # r) 3) ((b # r) ! 1)"
  by (simp add: rune_bytes_def lead_bytes_def)

lemma lead_bytes_iff:
  "lead_bytes b c1 c2 c3 s = Suc 0 \<longleftrightarrow> b < 128" "lead_bytes b c1 c2 c3 s = 2 \<longleftrightarrow> 194 \<le> b \<and> b < 224 \<and> c1"
  "lead_bytes b c1 c2 c3 s = 3 \<longleftrightarrow>
    224 \<le> b \<and> b < 240 \<and> c1 \<and> c2 \<and> (b = 224 \<longrightarrow> 160 \<le> s) \<and> (b = 237 \<longrightarrow> s < 160)"
  "lead_bytes b c1 c2 c3 s = 4 \<longleftrightarrow>
    240 \<le> b \<and> b < 245 \<and> c1 \<and> c2 \<and> c3 \<and> (b = 240 \<longrightarrow> 144 \<le> s) \<and> (b = 244 \<longrightarrow> s < 144)"
  by (simp_all add: lead_bytes_def)

lemma lead_bytes_needs:
  "lead_bytes b c1 c2 c3 s \<le> 4 \<and> (2 \<le> lead_bytes b c1 c2 c3 s \<longrightarrow> c1) \<and> (3 \<le> lead_bytes b c1 c2 c3 s \<longrightarrow> c2) \<and>
    (4 \<le> lead_bytes b c1 c2 c3 s \<longrightarrow> c3)"
  by (simp add: lead_bytes_def)

lemma lead_bytes_stable:
  assumes "lead_bytes b c1 c2 c3 s = n" and "0 < n" and "2 \<le> n \<Longrightarrow> c1' = c1 \<and> s' = s" and "3 \<le> n \<Longrightarrow> c2' = c2" and "4 \<le> n \<Longrightarrow> c3' = c3"
  shows "lead_bytes b c1' c2' c3' s' = n"
proof -
  have "n \<in> {0, 1, 2, 3, 4}" using assms(1) by (simp add: lead_bytes_def split: if_splits)
  then consider "n = 1" | "n = 2" | "n = 3" | "n = 4" using assms(2) by auto
  then show ?thesis using assms by cases (simp_all add: lead_bytes_iff)
qed

lemma rune_bytes_le: "rune_bytes bs \<le> length bs"
proof (cases bs)
  case (Cons b r)
  let ?n = "rune_bytes bs"
  have c: "cont_byte bs i \<Longrightarrow> i < length bs" for i by (simp add: cont_byte_def)
  have "?n \<le> 4 \<and> (2 \<le> ?n \<longrightarrow> cont_byte bs 1) \<and> (3 \<le> ?n \<longrightarrow> cont_byte bs 2) \<and> (4 \<le> ?n \<longrightarrow> cont_byte bs 3)"
    unfolding Cons rune_bytes_Cons by (rule lead_bytes_needs)
  with c have n: "?n \<le> 4" "2 \<le> ?n \<longrightarrow> 1 < length bs" "3 \<le> ?n \<longrightarrow> 2 < length bs" "4 \<le> ?n \<longrightarrow> 3 < length bs" by blast+
  have "0 < length bs" using Cons by simp
  with n show ?thesis by linarith
qed (simp add: rune_bytes_def)

lemma rune_bytes_stable:
  assumes "rune_bytes bs = n" and "0 < n"
  shows "rune_bytes (take n bs @ rest) = n"
proof -
  have len: "n \<le> length bs" using rune_bytes_le [of bs] assms(1) by simp
  obtain b r where bs: "bs = b # r" using assms(2) len by (cases bs) auto
  obtain m where n: "n = Suc m" using assms(2) gr0_conv_Suc by blast
  define cs where "cs = take n bs @ rest"
  have hd: "cs = b # (take m r @ rest)" by (simp add: cs_def bs n)
  have nth: "cs ! i = bs ! i" if "i < n" for i using that len by (simp add: cs_def nth_append)
  have cont: "cont_byte cs i = cont_byte bs i" if "i < n" for i
    using that len nth [OF that] by (simp add: cont_byte_def cs_def)
  have "lead_bytes b (cont_byte bs 1) (cont_byte bs 2) (cont_byte bs 3) (bs ! 1) = n"
    using assms(1) unfolding bs rune_bytes_Cons .
  then have "lead_bytes b (cont_byte cs 1) (cont_byte cs 2) (cont_byte cs 3) (cs ! 1) = n"
    by (rule lead_bytes_stable [OF _ assms(2)]) (use cont nth in auto)
  then show ?thesis unfolding cs_def [symmetric] unfolding hd rune_bytes_Cons .
qed

definition one_rune :: "string \<Rightarrow> bool" where
  "one_rune c \<longleftrightarrow> c \<noteq> [] \<and> rune_bytes (map of_char c) = length c"

lemma one_rune_prefix: "one_rune c \<Longrightarrow> rune_bytes (map of_char (c @ s)) = length c"
  using rune_bytes_stable [of "map of_char c" "length c" "map of_char s"] by (simp add: one_rune_def)

lemma runes_concat: "list_all one_rune cs \<Longrightarrow> runes (concat cs) = cs"
proof (induction cs)
  case (Cons c cs)
  then have c: "one_rune c" by simp
  then have "c \<noteq> []" by (simp add: one_rune_def)
  then show ?case using Cons one_rune_prefix [OF c, of "concat cs"] by (subst runes.simps) (simp add: Let_def)
qed (simp add: runes.simps)

lemma fixed_runes: "one_rune error_rune" "one_rune ellipsis"
  by code_simp+

lemma runes_one: "list_all one_rune (runes s)"
proof (induction s rule: runes.induct)
  case (1 s)
  let ?n = "rune_bytes (map of_char s)"
  show ?case
  proof (cases "s = []")
    case False
    have "one_rune (take ?n s)" if "?n \<noteq> 0"
    proof -
      have "?n \<le> length s" using rune_bytes_le [of "map of_char s"] by simp
      then show ?thesis using rune_bytes_stable [of "map of_char s" ?n "[]"] that by (auto simp: one_rune_def take_map)
    qed
    then show ?thesis using 1 False fixed_runes(1) by (subst runes.simps) (simp add: Let_def)
  qed (simp add: runes.simps)
qed

text \<open>short questions are cut at runes.  A question that fits is kept whole, without the space around it; one that does not
  becomes its first runes and an ellipsis, exactly as many runes as are allowed, never a part of a rune.\<close>

theorem short_question_runes:
  "runes (shortQuestion q (int (Suc k))) =
    (if length (runes (TrimSpace q)) \<le> Suc k then runes (TrimSpace q) else take k (runes (TrimSpace q)) @ [ellipsis])"
proof -
  have "list_all one_rune (take k (runes (TrimSpace q)) @ [ellipsis])"
    using runes_one [of "TrimSpace q"] fixed_runes(2) by (auto simp: list_all_iff dest: in_set_takeD)
  from runes_concat [OF this] show ?thesis by (simp add: shortQuestion_def Let_def)
qed

end
