(* ===== verification/Scan_Cycle.thy ===== *)
theory Scan_Cycle
  imports Scan_Stage2
begin

text \<open>
  A scan from the event list to the stored board, \<open>internal/edgescan/cycle.go\<close> with the artifact of \<open>board.go\<close> and the
  policy of \<open>attention.go\<close>: sticky ids of the board before, keyset, budget, enrichment, edge ranking, artifact, replacement
  of the board with its history, and the price stage.  What the cycle keeps is \<open>scan_world\<close>; what comes from outside (HTTP,
  clocks, JSON, failures of single statements, the artifact package) is \<open>cycle_io\<close>.  Books and open interest are fetched
  concurrently and independently, so in either order.  The clock stands still within a cycle (\<open>ci_Now\<close>, and \<open>ci_RankNow\<close> in the
  ranking); durations, logs and the texts of error messages are not modelled.
  Lemmas: a failed cycle leaves the board and its history alone, a successful one publishes its rows and makes
  them the sticky set of the next.
\<close>

section \<open>Configuration, state and the outside\<close>

datatype cycle_status = StatusSuccess | StatusPartial | StatusFailed

record error_item =
  ei_Code :: string
  ei_Component :: string

record edge_scan_config =
  sg_KeysetVolumeMin :: f64
  sg_KeysetLiquidityMin :: f64
  sg_EndDateMinOffset :: duration
  sg_EndDateMaxOffset :: duration
  sg_KeysetEventCap :: int
  sg_MinVolume24hr :: f64
  sg_MinLiquidity :: f64
  sg_MaxSpread :: f64
  sg_MinVolatility :: f64
  sg_Stage1MaxN :: int
  sg_BoardMaxN :: int
  sg_Sticky :: bool

record keyset_filters =
  kf_VolumeMin :: f64
  kf_LiquidityMin :: f64
  kf_EndDateMin :: gotime
  kf_EndDateMax :: gotime
  kf_LimitThreshold :: int

record attention_policy =
  at_Name :: string
  at_EnrichSet :: "environment \<Rightarrow> gotime \<Rightarrow> heap \<Rightarrow> candidate list \<Rightarrow> build_options \<Rightarrow> stage1_result \<times> heap"

definition ActivityThenEdgePolicy :: attention_policy where
  "ActivityThenEdgePolicy = \<lparr>at_Name = ''activity_then_edge'', at_EnrichSet = SelectStage1\<rparr>"

definition DefaultAttention :: attention_policy where "DefaultAttention = ActivityThenEdgePolicy"

record cycle_deps =
  cd_HasDB :: bool
  cd_Strategy :: string
  cd_Weights :: weights
  cd_StrategyVersionID :: "int option"
  cd_HasArtifactsRoot :: bool
  cd_EdgeScan :: edge_scan_config
  cd_EnrichBooks :: bool
  cd_EnrichOI :: bool
  cd_PublishOnEnrichFail :: bool
  cd_OIMaxConditions :: int
  cd_BookBatchSize :: int
  cd_EnrichPrices :: bool
  cd_PriceTokenCap :: int
  cd_PriceFidelityMin :: int
  cd_PriceLookback :: duration
  cd_PriceWarmMaxAge :: duration
  cd_ForceColdPrices :: bool
  cd_CfgPriceLookback :: duration
  cd_Attention :: "attention_policy option"

record board_stats =
  bt_NCandidates :: int
  bt_NStage1 :: int
  bt_NBoard :: int
  bt_MedianScore :: f64
  bt_MedianEdgeBps :: f64
  bt_TotalCapacity :: f64
  bt_TotalLiquidity :: f64
  bt_EnrichCoverage :: f64
  bt_EdgeBpsNullFrac :: f64
  bt_FVCoverage :: f64
  bt_FVHits :: int
  bt_TokensExpanded :: int
  bt_AttentionPolicy :: string

record board_entry =
  bx_Rank :: int
  bx_ConditionID :: string
  bx_MarketID :: string
  bx_QuestionShort :: string
  bx_Category :: string
  bx_TokenIDs :: "string list"
  bx_Score :: f64
  bx_EdgeBps :: "f64 option"
  bx_CostBps :: "f64 option"
  bx_CapacityUSD :: "f64 option"
  bx_Urgency :: "f64 option"
  bx_KeyFeatures :: "(string, f64) gomap"
  bx_RiskFlags :: "string list"
  bx_StrategyTags :: "string list"
  bx_FairValue :: "f64 option"
  bx_ModelEdgeBps :: "f64 option"
  bx_FVSource :: string
  bx_NegRisk :: bool
  bx_NegRiskGroupID :: string
  bx_RelatedLegs :: "string list"
  bx_Volume24hr :: f64
  bx_Liquidity :: f64
  bx_Spread :: f64

record edge_board_doc =
  ed_SchemaVersion :: string
  ed_RunID :: string
  ed_InputHash :: string
  ed_Status :: cycle_status
  ed_Errors :: "error_item list"
  ed_Strategy :: string
  ed_BoardStats :: board_stats
  ed_Board :: "board_entry list"
  ed_DroppedSummary :: "(string, int) gomap"

record cycle_io =
  \<comment> \<open>the event list with the markets it allocates, or an error\<close>
  ci_Keyset :: "keyset_filters \<Rightarrow> (gamma_event option list \<times> heap) option"
  ci_Now :: gotime
  ci_RankNow :: gotime
  ci_Env :: environment
  ci_PostBooks :: "string list \<Rightarrow> reply"
  ci_BookCodec :: book_codec
  ci_GetOI :: "string \<Rightarrow> reply"
  ci_OICodec :: oi_codec
  ci_Canceled :: bool
  ci_TokenIDs :: decode_ids
  ci_Encode :: "(string, f64) gomap \<Rightarrow> string"
  ci_Decode :: "string \<Rightarrow> (string, f64) gomap option"
  ci_StickyFails :: bool
  ci_BooksWriteFails :: bool
  ci_OIWriteFails :: bool
  ci_ReplaceFails :: bool
  ci_SnapshotsFail :: bool
  ci_TopFails :: bool
  \<comment> \<open>the artifact package: the hash of the rows, the id of a run, the document as JSON, whether the file is written\<close>
  ci_Hash :: "board_entry list \<Rightarrow> string option"
  ci_NewRun :: "string \<Rightarrow> string \<Rightarrow> string"
  ci_DocMap :: "edge_board_doc \<Rightarrow> (string, string option) gomap option"
  ci_FileFails :: bool
  ci_Prices :: price_source

record scan_world =
  sw_Board :: board_table
  sw_Snapshots :: snapshot_table
  sw_Books :: book_table
  sw_OI :: "oi_row list"
  sw_Prices :: price_table
  sw_Markets :: "market_query_row list"
  sw_Artifacts :: "edge_board_doc list"

record cycle_result =
  cr_OK :: bool
  cr_Status :: cycle_status
  cr_Rows :: "edge_board_row list"
  cr_PoolCount :: int
  cr_Stage1Count :: int
  cr_BoardCount :: int
  cr_EnrichCoverage :: f64
  cr_RunID :: string
  cr_Errors :: "error_item list"
  cr_PricesPoints :: int
  cr_PricesTokens :: int

section \<open>The artifact\<close>

definition SchemaVersion :: string where "SchemaVersion = ''2.0''"

definition median :: "f64 list \<Rightarrow> f64" where
  "median xs =
     (let n = length xs in
      if n = 0 then 0 else if n mod 2 = 1 then xs ! (n div 2) else (xs ! (n div 2 - 1) + xs ! (n div 2)) / 2)"

definition sort_Float64s :: "f64 list \<Rightarrow> f64 list" where
  \<comment> \<open>NaN before everything else\<close>
  "sort_Float64s = sort_by (\<lambda>a b. a < b \<or> a = NaN \<and> b \<noteq> NaN)"

definition entry_of_row :: "(string \<Rightarrow> (string, f64) gomap option) \<Rightarrow> edge_board_row \<Rightarrow> board_entry" where
  "entry_of_row dec r =
     \<lparr>bx_Rank = eb_Rank r, bx_ConditionID = eb_ConditionID r, bx_MarketID = eb_MarketID r, bx_QuestionShort = eb_QuestionShort r,
      bx_Category = eb_Category r, bx_TokenIDs = eb_ClobTokenIDs r, bx_Score = eb_Score r, bx_EdgeBps = eb_EdgeBps r,
      bx_CostBps = eb_CostBps r, bx_CapacityUSD = eb_CapacityUSD r, bx_Urgency = eb_Urgency r,
      bx_KeyFeatures = (if eb_KeyFeatures r = '''' then [] else case dec (eb_KeyFeatures r) of None \<Rightarrow> [] | Some m \<Rightarrow> m),
      bx_RiskFlags = eb_RiskFlags r, bx_StrategyTags = eb_StrategyTags r, bx_FairValue = eb_FairValue r,
      bx_ModelEdgeBps = eb_ModelEdgeBps r, bx_FVSource = eb_FVSource r, bx_NegRisk = eb_NegRisk r,
      bx_NegRiskGroupID = eb_NegRiskGroupID r, bx_RelatedLegs = eb_RelatedLegs r, bx_Volume24hr = eb_Volume24hr r,
      bx_Liquidity = eb_Liquidity r, bx_Spread = eb_Spread r\<rparr>"

definition no_stats :: board_stats where
  "no_stats = \<lparr>bt_NCandidates = 0, bt_NStage1 = 0, bt_NBoard = 0, bt_MedianScore = 0, bt_MedianEdgeBps = 0, bt_TotalCapacity = 0,
     bt_TotalLiquidity = 0, bt_EnrichCoverage = 0, bt_EdgeBpsNullFrac = 0, bt_FVCoverage = 0, bt_FVHits = 0,
     bt_TokensExpanded = 0, bt_AttentionPolicy = ''''\<rparr>"

definition row_stats :: "edge_board_row list \<Rightarrow> int \<Rightarrow> int \<Rightarrow> board_stats \<Rightarrow> board_stats" where
  "row_stats rows poolN stage1N extra =
     (let edges = List.map_filter eb_EdgeBps rows; nullEdge = length rows - length edges
      in \<lparr>bt_NCandidates = poolN, bt_NStage1 = stage1N, bt_NBoard = int (length rows),
          bt_MedianScore = median (sort_Float64s (map eb_Score rows)), bt_MedianEdgeBps = median (sort_Float64s edges),
          bt_TotalCapacity = fsum (List.map_filter eb_CapacityUSD rows), bt_TotalLiquidity = fsum (map eb_Liquidity rows),
          bt_EnrichCoverage = bt_EnrichCoverage extra,
          bt_EdgeBpsNullFrac = (if rows \<noteq> [] then of_len nullEdge / of_len (length rows) else 0),
          bt_FVCoverage = bt_FVCoverage extra, bt_FVHits = bt_FVHits extra, bt_TokensExpanded = bt_TokensExpanded extra,
          bt_AttentionPolicy = bt_AttentionPolicy extra\<rparr>)"

definition BuildArtifactWithStats ::
  "cycle_io \<Rightarrow> edge_board_row list \<Rightarrow> int \<Rightarrow> int \<Rightarrow> (string, int) gomap \<Rightarrow> cycle_status \<Rightarrow> error_item list \<Rightarrow> board_stats \<Rightarrow>
   edge_board_doc option" where
  "BuildArtifactWithStats io rows poolN stage1N dropped status errs extra =
     (let entries = map (entry_of_row (ci_Decode io)) rows in
      case ci_Hash io entries of
        None \<Rightarrow> None
      | Some hsh \<Rightarrow>
          Some \<lparr>ed_SchemaVersion = SchemaVersion, ed_RunID = ci_NewRun io SchemaVersion hsh, ed_InputHash = hsh,
            ed_Status = status, ed_Errors = errs,
            ed_Strategy = (case rows of [] \<Rightarrow> DefaultStrategy | r # _ \<Rightarrow> if eb_Strategy r \<noteq> '''' then eb_Strategy r else DefaultStrategy),
            ed_BoardStats = row_stats rows poolN stage1N extra, ed_Board = entries, ed_DroppedSummary = dropped\<rparr>)"

definition BuildArtifact ::
  "cycle_io \<Rightarrow> edge_board_row list \<Rightarrow> int \<Rightarrow> int \<Rightarrow> (string, int) gomap \<Rightarrow> cycle_status \<Rightarrow> error_item list \<Rightarrow> edge_board_doc option" where
  "BuildArtifact io rows poolN stage1N dropped status errs =
     BuildArtifactWithStats io rows poolN stage1N dropped status errs no_stats"

datatype board_doc_error = MissingField string | BadSchema string

definition required_fields :: "string list" where
  "required_fields =
     [''schema_version'', ''pipeline_version'', ''run_id'', ''generated_at'', ''input_hash'', ''code_commit'', ''status'', ''errors'',
      ''strategy'', ''board_stats'', ''board'', ''dropped_summary'']"

definition ValidateEdgeBoardV1 :: "(string, string option) gomap \<Rightarrow> board_doc_error option" where
  \<comment> \<open>a value is its text when it is a string\<close>
  "ValidateEdgeBoardV1 doc =
     (case List.find (\<lambda>k. \<not> go_has doc k) required_fields of
        Some k \<Rightarrow> Some (MissingField k)
      | None \<Rightarrow>
          (let sv = (case go_get doc ''schema_version'' of Some (Some s) \<Rightarrow> s | _ \<Rightarrow> '''')
           in if sv \<noteq> ''1.0'' \<and> sv \<noteq> ''2.0'' then Some (BadSchema sv) else None))"

definition WriteArtifact :: "cycle_io \<Rightarrow> edge_board_doc \<Rightarrow> scan_world \<Rightarrow> bool \<times> scan_world" where
  \<comment> \<open>True when written\<close>
  "WriteArtifact io doc w =
     (case ci_DocMap io doc of
        None \<Rightarrow> (False, w)
      | Some m \<Rightarrow>
          if ValidateEdgeBoardV1 m \<noteq> None \<or> ci_FileFails io then (False, w)
          else (True, w\<lparr>sw_Artifacts := sw_Artifacts w @ [doc]\<rparr>))"

section \<open>The stages\<close>

definition writeFailArtifact ::
  "cycle_io \<Rightarrow> cycle_deps \<Rightarrow> stage1_result \<Rightarrow> cycle_status \<Rightarrow> error_item list \<Rightarrow> f64 \<Rightarrow> scan_world \<Rightarrow> scan_world" where
  "writeFailArtifact io deps stage1 status errs coverage w =
     (if \<not> cd_HasArtifactsRoot deps then w
      else
        (case BuildArtifactWithStats io [] (s1_PoolCount stage1) (s1_Stage1Count stage1) (s1_DroppedSummary stage1) status errs
                (no_stats\<lparr>bt_EnrichCoverage := coverage\<rparr>) of
           None \<Rightarrow> w
         | Some doc \<Rightarrow>
             snd (WriteArtifact io (if cd_Strategy deps \<noteq> '''' then doc\<lparr>ed_Strategy := cd_Strategy deps\<rparr> else doc) w)))"

definition cycle_strategy :: "cycle_deps \<Rightarrow> string" where
  "cycle_strategy deps = (if cd_Strategy deps = '''' then DefaultStrategy else cd_Strategy deps)"

definition cycle_sticky :: "cycle_io \<Rightarrow> cycle_deps \<Rightarrow> scan_world \<Rightarrow> string list" where
  "cycle_sticky io deps w =
     (if sg_Sticky (cd_EdgeScan deps) \<and> cd_HasDB deps \<and> \<not> ci_StickyFails io
      then LoadEdgeBoardConditionIDs (cycle_strategy deps) (sw_Board w) else [])"

definition cycle_keyset :: "cycle_io \<Rightarrow> edge_scan_config \<Rightarrow> keyset_filters" where
  "cycle_keyset io esc =
     \<lparr>kf_VolumeMin = sg_KeysetVolumeMin esc, kf_LiquidityMin = sg_KeysetLiquidityMin esc,
      kf_EndDateMin = (if sg_EndDateMinOffset esc > 0 then time_Add (ci_Now io) (- sg_EndDateMinOffset esc) else 0),
      kf_EndDateMax = (if sg_EndDateMaxOffset esc > 0 then time_Add (ci_Now io) (sg_EndDateMaxOffset esc) else 0),
      kf_LimitThreshold = sg_KeysetEventCap esc\<rparr>"

definition cycle_filter :: "edge_scan_config \<Rightarrow> market_filter" where
  "cycle_filter esc =
     \<lparr>mf_MinVolume24hr = sg_MinVolume24hr esc, mf_MinLiquidity = sg_MinLiquidity esc, mf_MaxSpread = sg_MaxSpread esc,
      mf_MinVolatility = sg_MinVolatility esc, mf_MaxN = sg_Stage1MaxN esc\<rparr>"

definition cycle_policy :: "cycle_deps \<Rightarrow> attention_policy" where
  "cycle_policy deps = (case cd_Attention deps of None \<Rightarrow> DefaultAttention | Some a \<Rightarrow> a)"

definition stage1_options :: "cycle_io \<Rightarrow> cycle_deps \<Rightarrow> string list \<Rightarrow> build_options" where
  "stage1_options io deps sticky =
     \<lparr>bo_Filter = cycle_filter (cd_EdgeScan deps), bo_BoardMaxN = 0, bo_StickyConditionIDs = sticky,
      bo_Strategy = cycle_strategy deps, bo_RunID = '''', bo_Now = ci_Now io\<rparr>"

record enriched =
  en_Candidates :: "candidate list"
  en_Expanded :: int
  en_Books :: book_index
  en_OI :: oi_index
  en_Coverage :: f64
  en_Status :: cycle_status
  en_Errors :: "error_item list"

definition enrich_stage :: "cycle_io \<Rightarrow> cycle_deps \<Rightarrow> heap \<Rightarrow> stage1_result \<Rightarrow> scan_world \<Rightarrow> enriched \<times> scan_world" where
  "enrich_stage io deps h stage1 w =
     (let cap = (if wt_GroupExpandCap (cd_Weights deps) \<le> 0 then 100 else wt_GroupExpandCap (cd_Weights deps));
          oiMax = (if cd_OIMaxConditions deps \<le> 0 then 80 else cd_OIMaxConditions deps);
          bookBatch = (if cd_BookBatchSize deps \<le> 0 then 50 else cd_BookBatchSize deps);
          (cands, expanded) = ExpandGroupCandidates h stage1 cap;
          tokenIDs = CollectPrimaryTokenIDs (ci_TokenIDs io) h cands;
          condIDs = take (nat oiMax) (CollectConditionIDs h (s1_Candidates stage1));
          (snaps, booksErr) = (if cd_EnrichBooks deps \<and> tokenIDs \<noteq> []
            then FetchBooks (ci_BookCodec io) (ci_PostBooks io) (ci_Now io) tokenIDs bookBatch else ([], None));
          (oiPts, oiErr) = (if cd_EnrichOI deps \<and> condIDs \<noteq> []
            then FetchOI (ci_OICodec io) (ci_GetOI io) (ci_Now io) (ci_Canceled io) condIDs else ([], False));
          errs = (if booksErr \<noteq> None then [\<lparr>ei_Code = ''enrich_books_failed'', ei_Component = ''enrich''\<rparr>] else []) @
                 (if oiErr then [\<lparr>ei_Code = ''enrich_oi_failed'', ei_Component = ''enrich''\<rparr>] else []);
          bookIdx = foldl (\<lambda>m s. go_put (bs_TokenID s) s m) [] snaps;
          good = filter (\<lambda>p. op_ConditionID p \<noteq> '''') oiPts;
          oiIdx = foldl (\<lambda>m p. go_put (op_ConditionID p) (op_Value p) m) [] good;
          oiRows = map (\<lambda>p. \<lparr>oh_Time = op_Time p, oh_ConditionID = op_ConditionID p, oh_OIValue = op_Value p, oh_Source = ''data-api''\<rparr>) good;
          w = (if snaps \<noteq> [] \<and> cd_HasDB deps \<and> \<not> ci_BooksWriteFails io
               then w\<lparr>sw_Books := InsertOrderbookSnapshots (ci_Now io) snaps (sw_Books w)\<rparr> else w);
          w = (if oiPts \<noteq> [] \<and> cd_HasDB deps \<and> \<not> ci_OIWriteFails io
               then w\<lparr>sw_OI := InsertOIHistory (ci_Now io) oiRows (sw_OI w)\<rparr> else w)
      in (\<lparr>en_Candidates = cands, en_Expanded = expanded, en_Books = bookIdx, en_OI = oiIdx,
           en_Coverage = (if tokenIDs \<noteq> [] then of_len (length bookIdx) / of_len (length tokenIDs) else 0),
           en_Status = (if errs \<noteq> [] then StatusPartial else StatusSuccess), en_Errors = errs\<rparr>, w))"

definition edge_options_of :: "cycle_io \<Rightarrow> cycle_deps \<Rightarrow> string list \<Rightarrow> enriched \<Rightarrow> edge_options" where
  "edge_options_of io deps sticky en =
     \<lparr>eo_Base = (stage1_options io deps sticky)\<lparr>bo_BoardMaxN := sg_BoardMaxN (cd_EdgeScan deps)\<rparr>, eo_Weights = cd_Weights deps,
      eo_StrategyVersionID = cd_StrategyVersionID deps, eo_Books = en_Books en, eo_OI = en_OI en,
      eo_PublishRequireBooks = (\<not> cd_PublishOnEnrichFail deps), eo_EnrichCandidates = en_Candidates en\<rparr>"

definition save_board ::
  "cycle_io \<Rightarrow> cycle_deps \<Rightarrow> edge_board_row list \<Rightarrow> cycle_result \<times> edge_board_doc \<Rightarrow> scan_world \<Rightarrow>
   (cycle_result \<times> edge_board_doc) \<times> scan_world" where
  "save_board io deps rows rd w =
     (let (res, doc) = rd in
      if \<not> cd_HasDB deps then (rd, w)
      else
        (case (if ci_ReplaceFails io then (Some '''', sw_Board w)
               else ReplaceEdgeBoard (ci_Now io) (cycle_strategy deps) rows (sw_Board w)) of
           (Some _, _) \<Rightarrow>
             (let res = res\<lparr>cr_Errors := cr_Errors res @ [\<lparr>ei_Code = ''edge_board_write_failed'', ei_Component = ''db''\<rparr>],
                            cr_Status := StatusFailed\<rparr>
              in ((res, doc\<lparr>ed_Status := cr_Status res, ed_Errors := cr_Errors res\<rparr>), w))
         | (None, tbl) \<Rightarrow>
             (let w = w\<lparr>sw_Board := tbl\<rparr> in
              if ci_SnapshotsFail io then
                let res' = res\<lparr>cr_Errors := cr_Errors res @ [\<lparr>ei_Code = ''edge_board_snapshots_failed'', ei_Component = ''db''\<rparr>]\<rparr>
                in if cr_Status res = StatusSuccess
                   then let res' = res'\<lparr>cr_Status := StatusPartial\<rparr>
                        in ((res', doc\<lparr>ed_Status := cr_Status res', ed_Errors := cr_Errors res'\<rparr>), w)
                   else ((res', doc), w)
              else (rd, w\<lparr>sw_Snapshots := InsertEdgeBoardSnapshots (ci_Now io) (SnapshotRowsFromBoard rows) (sw_Snapshots w)\<rparr>))))"

definition board_meta :: "edge_board_row list \<Rightarrow> eval_market_meta list" where
  "board_meta board =
     map (\<lambda>r. \<lparr>mm_ConditionID = eb_ConditionID r, mm_MarketID = eb_MarketID r, mm_TokenID = first_text (eb_ClobTokenIDs r),
             mm_Category = eb_Category r, mm_NegRisk = eb_NegRisk r, mm_NegRiskGroupID = '''', mm_RelatedLegs = [],
             mm_Volume24hr = eb_Volume24hr r, mm_Spread = eb_Spread r, mm_OneDayChange = 0, mm_EndDate = 0, mm_Active = False\<rparr>)
       (filter (\<lambda>r. first_text (eb_ClobTokenIDs r) \<noteq> '''') board)"

definition ensureBoardPrices ::
  "cycle_io \<Rightarrow> cycle_deps \<Rightarrow> edge_board_row list \<Rightarrow> scan_world \<Rightarrow> ensure_result \<times> scan_world" where
  \<comment> \<open>called with a database\<close>
  "ensureBoardPrices io deps board w =
     (let capN = (if cd_PriceTokenCap deps \<le> 0 then DefaultPriceTokenCap else cd_PriceTokenCap deps);
          top = (if ci_TopFails io then [] else LoadTopVolumeMarkets capN (sw_Markets w));
          tokens = SelectPriceTokens (board_meta board) top capN;
          tm = foldl (\<lambda>m t. if pk_MarketID t \<noteq> '''' then go_put (pk_TokenID t) (pk_MarketID t) m else m) [] tokens;
          lookback = cd_PriceLookback deps;
          lookback = (if lookback \<le> 0 \<and> cd_CfgPriceLookback deps > 0 then cd_CfgPriceLookback deps else lookback);
          lookback = (if lookback \<le> 0 then DefaultPriceLookback else lookback);
          (res, tbl) = EnsurePrices (ci_Prices io) (ci_Now io) tokens
            \<lparr>ep_Lookback = lookback, ep_FidelityMin = cd_PriceFidelityMin deps, ep_BatchSize = 0,
             ep_WarmMaxAge = cd_PriceWarmMaxAge deps, ep_Interval_of = '''', ep_ForceCold = cd_ForceColdPrices deps,
             ep_TokenMarket = tm\<rparr> (sw_Prices w)
      in (res, w\<lparr>sw_Prices := tbl\<rparr>))"

definition price_stage :: "cycle_io \<Rightarrow> cycle_deps \<Rightarrow> edge_board_row list \<Rightarrow> cycle_result \<Rightarrow> scan_world \<Rightarrow> cycle_result \<times> scan_world" where
  "price_stage io deps rows res w =
     (if \<not> (cd_EnrichPrices deps \<and> cd_HasDB deps) then (res, w)
      else
        let (p, w) = ensureBoardPrices io deps rows w;
            res = res\<lparr>cr_PricesPoints := er_PointsWritten p, cr_PricesTokens := er_TokensWritten p\<rparr>
        in if er_Errors p = [] then (res, w)
           else (res\<lparr>cr_Errors := cr_Errors res @ map (\<lambda>_. \<lparr>ei_Code = ''ensure_prices_partial'', ei_Component = ''enrich''\<rparr>) (er_Errors p),
                     cr_Status := (if cr_Status res = StatusSuccess then StatusPartial else cr_Status res)\<rparr>, w))"

section \<open>The cycle\<close>

definition first_result :: cycle_result where
  "first_result = \<lparr>cr_OK = False, cr_Status = StatusSuccess, cr_Rows = [], cr_PoolCount = 0, cr_Stage1Count = 0, cr_BoardCount = 0,
     cr_EnrichCoverage = 0, cr_RunID = '''', cr_Errors = [], cr_PricesPoints = 0, cr_PricesTokens = 0\<rparr>"

definition failed_with :: "cycle_result \<Rightarrow> string \<Rightarrow> string \<Rightarrow> cycle_result" where
  "failed_with res code part =
     res\<lparr>cr_Errors := cr_Errors res @ [\<lparr>ei_Code = code, ei_Component = part\<rparr>], cr_OK := False, cr_Status := StatusFailed\<rparr>"

definition publish ::
  "cycle_io \<Rightarrow> cycle_deps \<Rightarrow> enriched \<Rightarrow> board_build \<Rightarrow> cycle_result \<Rightarrow> scan_world \<Rightarrow> cycle_result \<times> scan_world" where
  \<comment> \<open>from the artifact to the end of the cycle, on a board that is not empty\<close>
  "publish io deps en build res w =
     (case BuildArtifactWithStats io (bb_Rows build) (bb_PoolCount build) (bb_Stage1Count build) (bb_DroppedSummary build)
             (cr_Status res) (cr_Errors res)
             (no_stats\<lparr>bt_EnrichCoverage := en_Coverage en, bt_FVCoverage := bb_FVCoverage build, bt_FVHits := bb_FVHits build,
                       bt_TokensExpanded := en_Expanded en, bt_AttentionPolicy := at_Name (cycle_policy deps)\<rparr>) of
        None \<Rightarrow> (res\<lparr>cr_OK := False\<rparr>, w)
      | Some doc \<Rightarrow>
          let rows = map (\<lambda>r. r\<lparr>eb_RunID := ed_RunID doc\<rparr>) (bb_Rows build);
              doc = doc\<lparr>ed_BoardStats := (ed_BoardStats doc)\<lparr>bt_NBoard := int (length rows)\<rparr>\<rparr>;
              res = res\<lparr>cr_RunID := ed_RunID doc, cr_Rows := rows, cr_BoardCount := int (length rows)\<rparr>;
              ((res, doc), w) = save_board io deps rows (res, doc) w;
              (written, w) = (if cd_HasArtifactsRoot deps then WriteArtifact io doc w else (True, w));
              res = (if \<not> written \<and> cr_Status res \<noteq> StatusFailed then res\<lparr>cr_Status := StatusPartial\<rparr> else res);
              (res, w) = price_stage io deps rows res w
          in (res\<lparr>cr_OK := (cr_Status res \<noteq> StatusFailed)\<rparr>, w))"

definition rank_and_publish ::
  "cycle_io \<Rightarrow> cycle_deps \<Rightarrow> string list \<Rightarrow> heap \<Rightarrow> stage1_result \<Rightarrow> cycle_result \<Rightarrow> scan_world \<Rightarrow> cycle_result \<times> scan_world" where
  \<comment> \<open>from the enrichment on, with a budget that is not empty\<close>
  "rank_and_publish io deps sticky h stage1 res w =
     (let (en, w) = enrich_stage io deps h stage1 w;
          res = res\<lparr>cr_Status := en_Status en, cr_Errors := en_Errors en, cr_EnrichCoverage := en_Coverage en\<rparr>
      in if en_Books en = [] \<and> \<not> cd_PublishOnEnrichFail deps \<and> cd_EnrichBooks deps then
           let res = failed_with res ''enrich_failed'' ''enrich''
           in (res, writeFailArtifact io deps stage1 StatusFailed (cr_Errors res) (en_Coverage en) w)
         else
           let build = BuildEdgeBoard (ci_TokenIDs io) (ci_Encode io) (ci_Now io) h stage1 (edge_options_of io deps sticky en) in
           if bb_Rows build = [] then
             let res = failed_with res ''empty_board'' ''edge''
             in (res, writeFailArtifact io deps stage1 StatusFailed (cr_Errors res) (en_Coverage en) w)
           else publish io deps en build res w)"

definition cycle_stage1 :: "cycle_io \<Rightarrow> cycle_deps \<Rightarrow> string list \<Rightarrow> gamma_event option list \<times> heap \<Rightarrow> stage1_result \<times> heap" where
  "cycle_stage1 io deps sticky src =
     (let (pool, h) = FlattenCandidates (snd src) (fst src)
      in at_EnrichSet (cycle_policy deps) (ci_Env io) (ci_RankNow io) h pool (stage1_options io deps sticky))"

definition RunCycle :: "cycle_io \<Rightarrow> cycle_deps \<Rightarrow> scan_world \<Rightarrow> cycle_result \<times> scan_world" where
  "RunCycle io deps w =
     (let sticky = cycle_sticky io deps w in
      case ci_Keyset io (cycle_keyset io (cd_EdgeScan deps)) of
        None \<Rightarrow> (first_result\<lparr>cr_Status := StatusFailed\<rparr>, w)
      | Some src \<Rightarrow>
          let (stage1, h) = cycle_stage1 io deps sticky src;
              res = first_result\<lparr>cr_PoolCount := s1_PoolCount stage1, cr_Stage1Count := s1_Stage1Count stage1\<rparr>
          in if s1_Stage1Count stage1 = 0 then
               let errs = [\<lparr>ei_Code = ''empty_stage1'', ei_Component = ''rank''\<rparr>]
               in (res\<lparr>cr_Errors := errs\<rparr>, writeFailArtifact io deps stage1 (cr_Status res) errs 0 w)
             else rank_and_publish io deps sticky h stage1 res w)"

section \<open>What each stage writes\<close>

lemma WriteArtifact_frame [simp]:
  "sw_Board (snd (WriteArtifact io doc w)) = sw_Board w" "sw_Snapshots (snd (WriteArtifact io doc w)) = sw_Snapshots w"
  "sw_Prices (snd (WriteArtifact io doc w)) = sw_Prices w"
  by (simp_all add: WriteArtifact_def split: option.split)

lemma writeFailArtifact_frame [simp]:
  "sw_Board (writeFailArtifact io deps stage1 st errs cov w) = sw_Board w"
  "sw_Snapshots (writeFailArtifact io deps stage1 st errs cov w) = sw_Snapshots w"
  by (simp_all add: writeFailArtifact_def split: option.split)

lemma enrich_stage_frame [simp]:
  "sw_Board (snd (enrich_stage io deps h stage1 w)) = sw_Board w"
  "sw_Snapshots (snd (enrich_stage io deps h stage1 w)) = sw_Snapshots w"
  by (simp_all add: enrich_stage_def Let_def case_prod_beta)

lemma enrich_status: "en_Status (fst (enrich_stage io deps h stage1 w)) \<noteq> StatusFailed"
  by (simp add: enrich_stage_def Let_def case_prod_beta)

lemma price_stage_frame [simp]:
  "sw_Board (snd (price_stage io deps rows res w)) = sw_Board w"
  "sw_Snapshots (snd (price_stage io deps rows res w)) = sw_Snapshots w"
  "cr_Rows (fst (price_stage io deps rows res w)) = cr_Rows res" "cr_RunID (fst (price_stage io deps rows res w)) = cr_RunID res"
  "cr_Status (fst (price_stage io deps rows res w)) = StatusFailed \<longleftrightarrow> cr_Status res = StatusFailed"
  by (auto simp: price_stage_def ensureBoardPrices_def Let_def case_prod_beta)

definition stored_board :: "cycle_io \<Rightarrow> cycle_deps \<Rightarrow> edge_board_row list \<Rightarrow> scan_world \<Rightarrow> scan_world \<Rightarrow> bool" where
  \<comment> \<open>the rows were written: the board of the strategy is replaced, and the history follows unless its statement failed\<close>
  "stored_board io deps rows w w' \<longleftrightarrow>
     ReplaceEdgeBoard (ci_Now io) (cycle_strategy deps) rows (sw_Board w) = (None, sw_Board w') \<and>
     sw_Snapshots w' = (if ci_SnapshotsFail io then sw_Snapshots w
       else InsertEdgeBoardSnapshots (ci_Now io) (SnapshotRowsFromBoard rows) (sw_Snapshots w))"

lemma save_board_effect:
  assumes "cr_Status res \<noteq> StatusFailed"
  shows "cr_Rows (fst (fst (save_board io deps rows (res, doc) w))) = cr_Rows res \<and>
    cr_RunID (fst (fst (save_board io deps rows (res, doc) w))) = cr_RunID res \<and>
    (if cr_Status (fst (fst (save_board io deps rows (res, doc) w))) = StatusFailed
     then sw_Board (snd (save_board io deps rows (res, doc) w)) = sw_Board w \<and> sw_Snapshots (snd (save_board io deps rows (res, doc) w)) = sw_Snapshots w
     else cd_HasDB deps \<longrightarrow> stored_board io deps rows w (snd (save_board io deps rows (res, doc) w)))"
  using assms
  by (auto simp: save_board_def Let_def stored_board_def split: option.splits prod.splits)

lemma publish_effect:
  assumes "cr_Status res \<noteq> StatusFailed"
  shows "if cr_OK (fst (publish io deps en build res w))
    then cr_Rows (fst (publish io deps en build res w)) = map (\<lambda>r. r\<lparr>eb_RunID := cr_RunID (fst (publish io deps en build res w))\<rparr>) (bb_Rows build) \<and>
      (cd_HasDB deps \<longrightarrow> stored_board io deps (cr_Rows (fst (publish io deps en build res w))) w (snd (publish io deps en build res w)))
    else sw_Board (snd (publish io deps en build res w)) = sw_Board w \<and> sw_Snapshots (snd (publish io deps en build res w)) = sw_Snapshots w"
proof -
  let ?art = "BuildArtifactWithStats io (bb_Rows build) (bb_PoolCount build) (bb_Stage1Count build) (bb_DroppedSummary build)
    (cr_Status res) (cr_Errors res) (no_stats\<lparr>bt_EnrichCoverage := en_Coverage en, bt_FVCoverage := bb_FVCoverage build,
      bt_FVHits := bb_FVHits build, bt_TokensExpanded := en_Expanded en, bt_AttentionPolicy := at_Name (cycle_policy deps)\<rparr>)"
  show ?thesis
  proof (cases ?art)
    case None
    then show ?thesis by (simp add: publish_def)
  next
    case (Some doc)
    define rows where "rows = map (\<lambda>r. r\<lparr>eb_RunID := ed_RunID doc\<rparr>) (bb_Rows build)"
    define doc' where "doc' = doc\<lparr>ed_BoardStats := (ed_BoardStats doc)\<lparr>bt_NBoard := int (length rows)\<rparr>\<rparr>"
    define res0 where "res0 = res\<lparr>cr_RunID := ed_RunID doc, cr_Rows := rows, cr_BoardCount := int (length rows)\<rparr>"
    obtain r1 d1 w1 where s: "save_board io deps rows (res0, doc') w = ((r1, d1), w1)" by (metis prod.collapse)
    obtain wr w2 where a: "(if cd_HasArtifactsRoot deps then WriteArtifact io d1 w1 else (True, w1)) = (wr, w2)" by (metis prod.collapse)
    define r2 where "r2 = (if \<not> wr \<and> cr_Status r1 \<noteq> StatusFailed then r1\<lparr>cr_Status := StatusPartial\<rparr> else r1)"
    obtain r3 w3 where p: "price_stage io deps rows r2 w2 = (r3, w3)" by (metis prod.collapse)
    have pub: "publish io deps en build res w = (r3\<lparr>cr_OK := (cr_Status r3 \<noteq> StatusFailed)\<rparr>, w3)"
      by (simp add: publish_def Some Let_def rows_def [symmetric] doc'_def [symmetric] res0_def [symmetric] s a r2_def [symmetric] p)
    have "w2 = (if cd_HasArtifactsRoot deps then snd (WriteArtifact io d1 w1) else w1)"
      using a by (cases "cd_HasArtifactsRoot deps") simp_all
    then have w2: "sw_Board w2 = sw_Board w1" "sw_Snapshots w2 = sw_Snapshots w1" by simp_all
    have r2: "cr_Rows r2 = cr_Rows r1" "cr_RunID r2 = cr_RunID r1" "cr_Status r2 = StatusFailed \<longleftrightarrow> cr_Status r1 = StatusFailed"
      by (auto simp: r2_def)
    have w3: "sw_Board w3 = sw_Board w1" "sw_Snapshots w3 = sw_Snapshots w1" "cr_Rows r3 = cr_Rows r1" "cr_RunID r3 = cr_RunID r1"
      "cr_Status r3 = StatusFailed \<longleftrightarrow> cr_Status r1 = StatusFailed"
      using price_stage_frame [of io deps rows r2 w2] unfolding p by (simp_all add: w2 r2)
    have "cr_Status res0 \<noteq> StatusFailed" using assms by (simp add: res0_def)
    from save_board_effect [OF this, of io deps rows doc' w] have e: "cr_Rows r1 = rows" "cr_RunID r1 = ed_RunID doc"
      "if cr_Status r1 = StatusFailed then sw_Board w1 = sw_Board w \<and> sw_Snapshots w1 = sw_Snapshots w
       else cd_HasDB deps \<longrightarrow> stored_board io deps rows w w1"
      unfolding s fst_conv snd_conv by (simp_all add: res0_def)
    show ?thesis unfolding pub using e w3 by (auto simp: rows_def stored_board_def)
  qed
qed

definition board_source ::
  "cycle_io \<Rightarrow> cycle_deps \<Rightarrow> scan_world \<Rightarrow> heap \<Rightarrow> stage1_result \<Rightarrow> enriched \<Rightarrow> bool" where
  \<comment> \<open>the stages before the ranking of a cycle\<close>
  "board_source io deps w h stage1 en \<longleftrightarrow>
     (\<exists>src. ci_Keyset io (cycle_keyset io (cd_EdgeScan deps)) = Some src \<and>
        (stage1, h) = cycle_stage1 io deps (cycle_sticky io deps w) src) \<and>
     en = fst (enrich_stage io deps h stage1 w)"

definition built :: "cycle_io \<Rightarrow> cycle_deps \<Rightarrow> scan_world \<Rightarrow> heap \<Rightarrow> stage1_result \<Rightarrow> enriched \<Rightarrow> board_build" where
  "built io deps w h stage1 en =
     BuildEdgeBoard (ci_TokenIDs io) (ci_Encode io) (ci_Now io) h stage1 (edge_options_of io deps (cycle_sticky io deps w) en)"

text \<open>What a cycle does to the board: an OK cycle has ranked a board that is not empty and stored it; any other leaves it.\<close>

lemma RunCycle_effect:
  fixes io deps w
  defines "r \<equiv> fst (RunCycle io deps w)" and "w' \<equiv> snd (RunCycle io deps w)"
  shows "if cr_OK r
    then \<exists>h stage1 en. board_source io deps w h stage1 en \<and> bb_Rows (built io deps w h stage1 en) \<noteq> [] \<and>
      cr_Rows r = map (\<lambda>x. x\<lparr>eb_RunID := cr_RunID r\<rparr>) (bb_Rows (built io deps w h stage1 en)) \<and>
      (cd_HasDB deps \<longrightarrow> stored_board io deps (cr_Rows r) w w')
    else sw_Board w' = sw_Board w \<and> sw_Snapshots w' = sw_Snapshots w"
proof (cases "ci_Keyset io (cycle_keyset io (cd_EdgeScan deps))")
  case None
  then show ?thesis by (simp add: r_def w'_def RunCycle_def first_result_def)
next
  case (Some src)
  obtain stage1 h where s1: "cycle_stage1 io deps (cycle_sticky io deps w) src = (stage1, h)" by (metis prod.collapse)
  define res where "res = first_result\<lparr>cr_PoolCount := s1_PoolCount stage1, cr_Stage1Count := s1_Stage1Count stage1\<rparr>"
  show ?thesis
  proof (cases "s1_Stage1Count stage1 = 0")
    case True
    then show ?thesis by (simp add: r_def w'_def RunCycle_def Some s1 first_result_def Let_def)
  next
    case False
    obtain en w1 where en: "enrich_stage io deps h stage1 w = (en, w1)" by (metis prod.collapse)
    define res1 where "res1 = res\<lparr>cr_Status := en_Status en, cr_Errors := en_Errors en, cr_EnrichCoverage := en_Coverage en\<rparr>"
    have run: "RunCycle io deps w = rank_and_publish io deps (cycle_sticky io deps w) h stage1 res w"
      using False by (simp add: RunCycle_def Some s1 Let_def res_def)
    have w1: "sw_Board w1 = sw_Board w" "sw_Snapshots w1 = sw_Snapshots w"
      using enrich_stage_frame [of io deps h stage1 w] unfolding en by simp_all
    have st: "cr_Status res1 \<noteq> StatusFailed" using enrich_status [of io deps h stage1 w] unfolding en by (simp add: res1_def)
    have src: "board_source io deps w h stage1 en" unfolding board_source_def using Some s1 en by auto
    show ?thesis
    proof (cases "en_Books en = [] \<and> \<not> cd_PublishOnEnrichFail deps \<and> cd_EnrichBooks deps \<or> bb_Rows (built io deps w h stage1 en) = []")
      case True
      then have "\<not> cr_OK r \<and> sw_Board w' = sw_Board w1 \<and> sw_Snapshots w' = sw_Snapshots w1"
        unfolding r_def w'_def run rank_and_publish_def en built_def
        by (auto simp: Let_def failed_with_def)
      then show ?thesis using w1 by simp
    next
      case False
      then have pub: "RunCycle io deps w = publish io deps en (built io deps w h stage1 en) res1 w1"
        unfolding run rank_and_publish_def en built_def res1_def by (auto simp: Let_def)
      have eff: "if cr_OK r then cr_Rows r = map (\<lambda>x. x\<lparr>eb_RunID := cr_RunID r\<rparr>) (bb_Rows (built io deps w h stage1 en)) \<and>
           (cd_HasDB deps \<longrightarrow> stored_board io deps (cr_Rows r) w1 w')
         else sw_Board w' = sw_Board w1 \<and> sw_Snapshots w' = sw_Snapshots w1"
        unfolding r_def w'_def pub by (rule publish_effect [OF st])
      have sb: "stored_board io deps rows w1 w' = stored_board io deps rows w w'" for rows by (simp add: stored_board_def w1)
      have ne: "bb_Rows (built io deps w h stage1 en) \<noteq> []" using False by blast
      show ?thesis
      proof (cases "cr_OK r")
        case True
        note e = eff [unfolded if_P [OF True] sb]
        show ?thesis unfolding if_P [OF True] by (intro exI [of _ h] exI [of _ stage1] exI [of _ en] conjI src ne conjunct1 [OF e] conjunct2 [OF e])
      next
        case False
        then show ?thesis using eff w1 by simp
      qed
    qed
  qed
qed

section \<open>Failure and publication\<close>

text \<open>C2: a failed cycle keeps the board.  Whatever goes wrong, fetching, filtering, enriching, ranking, hashing or writing, a cycle
  that does not report OK leaves the stored boards and their history exactly as they were.\<close>

theorem failed_cycle_keeps_board:
  "cr_OK (fst (RunCycle io deps w)) \<or>
   sw_Board (snd (RunCycle io deps w)) = sw_Board w \<and> sw_Snapshots (snd (RunCycle io deps w)) = sw_Snapshots w"
  using RunCycle_effect [of io deps w] by (cases "cr_OK (fst (RunCycle io deps w))") simp_all

lemma cycle_strategy_default: "cycle_strategy deps = or_default (cd_Strategy deps)" "or_default (cycle_strategy deps) = cycle_strategy deps"
  "cycle_strategy deps \<noteq> ''''"
  by (simp_all add: cycle_strategy_def or_default_def DefaultStrategy_def)

lemma built_stamp:
  "\<forall>r \<in> set (bb_Rows (built io deps w h stage1 en)). eb_Strategy r = cycle_strategy deps \<and> eb_SelectedAt r = ci_Now io"
proof -
  have "bo_Strategy (board_defaults (ci_Now io) (eo_Base (edge_options_of io deps s en))) = cycle_strategy deps"
    "bo_Now (board_defaults (ci_Now io) (eo_Base (edge_options_of io deps s en))) = ci_Now io" for s
    by (simp_all add: edge_options_of_def stage1_options_def board_defaults_def cycle_strategy_default(3))
  then show ?thesis
    using rows_stamp [of "ci_TokenIDs io" "ci_Encode io" "ci_Now io" h stage1 "edge_options_of io deps (cycle_sticky io deps w) en"]
    unfolding built_def by simp
qed

lemma built_ranks:
  "map eb_Rank (bb_Rows (built io deps w h stage1 en)) = map int [1..<Suc (length (bb_Rows (built io deps w h stage1 en)))]"
  unfolding built_def rows_projections(1,3) ..

lemma stored_rows:
  assumes "ReplaceEdgeBoard now s rows tbl = (None, tbl')" and "or_default s = s"
    and "\<forall>r \<in> set rows. eb_Strategy r = s \<and> eb_SelectedAt r = now" and "map eb_Rank rows = map int [1..<Suc (length rows)]"
  shows "board_rows s tbl' = filter (\<lambda>r. eb_ConditionID r \<noteq> '''') rows"
    and "or_default q \<noteq> s \<Longrightarrow> board_rows q tbl' = board_rows q tbl"
    and "distinct (map eb_ConditionID (filter (\<lambda>r. eb_ConditionID r \<noteq> '''') rows))"
proof -
  let ?f = "filter (\<lambda>r. eb_ConditionID r \<noteq> '''') rows"
  have own: "\<forall>r \<in> set rows. eb_Strategy r = '''' \<or> eb_Strategy r = or_default s" using assms(2,3) by simp
  note F = replace_board_facts [OF own, of now tbl, unfolded assms(1) fst_conv snd_conv assms(2)]
  show d: "distinct (map eb_ConditionID ?f)" using F by (auto split: if_splits)
  have "s \<noteq> ''''" using assms(2) by (auto simp: or_default_def split: if_splits)
  then have "board_stored now s r = r" if "r \<in> set ?f" for r using that assms(3) by (auto simp: board_stored_def)
  then have id: "map (board_stored now s) ?f = ?f" by (intro map_idI) blast
  have "sorted_wrt (<) (map eb_Rank rows)" unfolding assms(4) by (simp add: sorted_wrt_map del: upt_Suc)
  then have "sorted_wrt (\<lambda>a b. eb_Rank a < eb_Rank b) ?f" by (simp add: sorted_wrt_map sorted_wrt_filter)
  then have "sorted_wrt (\<lambda>a b. \<not> eb_Rank b < eb_Rank a) ?f" by (rule sorted_wrt_mono_rel [rotated]) auto
  then have "sort_by (\<lambda>a b. eb_Rank a < eb_Rank b) ?f = ?f" by (rule sort_by_sorted)
  then show "board_rows s tbl' = ?f" using F d id by simp
  show "or_default q \<noteq> s \<Longrightarrow> board_rows q tbl' = board_rows q tbl" using F by simp
qed

lemma published_rows:
  assumes "cr_OK (fst (RunCycle io deps w))" and "cd_HasDB deps"
  shows "board_rows (cd_Strategy deps) (sw_Board (snd (RunCycle io deps w))) =
      filter (\<lambda>r. eb_ConditionID r \<noteq> '''') (cr_Rows (fst (RunCycle io deps w)))"
    and "or_default q \<noteq> or_default (cd_Strategy deps) \<Longrightarrow> board_rows q (sw_Board (snd (RunCycle io deps w))) = board_rows q (sw_Board w)"
    and "cr_Rows (fst (RunCycle io deps w)) \<noteq> []"
    and "distinct (map eb_ConditionID (filter (\<lambda>r. eb_ConditionID r \<noteq> '''') (cr_Rows (fst (RunCycle io deps w)))))"
proof -
  let ?r = "fst (RunCycle io deps w)" and ?w = "snd (RunCycle io deps w)"
  from RunCycle_effect [of io deps w] assms obtain h stage1 en where
    e: "bb_Rows (built io deps w h stage1 en) \<noteq> []" "cr_Rows ?r = map (\<lambda>x. x\<lparr>eb_RunID := cr_RunID ?r\<rparr>) (bb_Rows (built io deps w h stage1 en))"
      "stored_board io deps (cr_Rows ?r) w ?w" by auto
  then show "cr_Rows ?r \<noteq> []" by simp
  have s: "\<forall>r \<in> set (cr_Rows ?r). eb_Strategy r = cycle_strategy deps \<and> eb_SelectedAt r = ci_Now io"
    unfolding e(2) using built_stamp by auto
  have "map eb_Rank (cr_Rows ?r) = map eb_Rank (bb_Rows (built io deps w h stage1 en))" unfolding e(2) by simp
  then have k: "map eb_Rank (cr_Rows ?r) = map int [1..<Suc (length (cr_Rows ?r))]" unfolding built_ranks by (simp add: e(2))
  from e(3) have rep: "ReplaceEdgeBoard (ci_Now io) (cycle_strategy deps) (cr_Rows ?r) (sw_Board w) = (None, sw_Board ?w)"
    by (simp add: stored_board_def)
  note S = stored_rows [OF rep cycle_strategy_default(2) s k]
  have "board_rows (cycle_strategy deps) = board_rows (cd_Strategy deps)"
    by (simp add: board_rows_def [abs_def] cycle_strategy_default(2)) (simp add: cycle_strategy_default(1))
  then show "board_rows (cd_Strategy deps) (sw_Board ?w) = filter (\<lambda>r. eb_ConditionID r \<noteq> '''') (cr_Rows ?r)" using S(1) by simp
  show "or_default q \<noteq> or_default (cd_Strategy deps) \<Longrightarrow> board_rows q (sw_Board ?w) = board_rows q (sw_Board w)"
    using S(2) by (simp add: cycle_strategy_default(1))
  show "distinct (map eb_ConditionID (filter (\<lambda>r. eb_ConditionID r \<noteq> '''') (cr_Rows ?r)))" by (rule S(3))
qed

lemma published_sticky:
  assumes "cr_OK (fst (RunCycle io deps w))" and "cd_HasDB deps" and "sg_Sticky (cd_EdgeScan deps)" and "\<not> ci_StickyFails io'"
  shows "cycle_sticky io' deps (snd (RunCycle io deps w)) =
    map eb_ConditionID (filter (\<lambda>r. eb_ConditionID r \<noteq> '''') (cr_Rows (fst (RunCycle io deps w))))"
proof -
  have "board_rows (cycle_strategy deps) (sw_Board (snd (RunCycle io deps w))) =
      filter (\<lambda>r. eb_ConditionID r \<noteq> '''') (cr_Rows (fst (RunCycle io deps w)))"
    using published_rows(1) [OF assms(1,2)] unfolding board_rows_def cycle_strategy_default(2) by (simp add: cycle_strategy_default(1))
  then have "LoadEdgeBoardConditionIDs (cycle_strategy deps) (sw_Board (snd (RunCycle io deps w))) =
      map eb_ConditionID (filter (\<lambda>r. eb_ConditionID r \<noteq> '''') (cr_Rows (fst (RunCycle io deps w))))"
    unfolding LoadEdgeBoardConditionIDs_def by (auto simp: filter_map comp_def)
  then show ?thesis using assms(2-4) by (simp add: cycle_sticky_def)
qed

text \<open>C4: an OK cycle publishes.  With a database, the rows a cycle reports when it is OK are not none, are the stored board of its
  strategy in the order of their ranks, no market twice, are the sticky ids of the next cycle, and the boards of all other
  strategies are as before.\<close>

theorem ok_cycle_publishes:
  assumes "cr_OK (fst (RunCycle io deps w))" and "cd_HasDB deps"
  defines "rows \<equiv> filter (\<lambda>r. eb_ConditionID r \<noteq> '''') (cr_Rows (fst (RunCycle io deps w)))" and "w' \<equiv> snd (RunCycle io deps w)"
  shows "cr_Rows (fst (RunCycle io deps w)) \<noteq> [] \<and> board_rows (cd_Strategy deps) (sw_Board w') = rows \<and>
    distinct (map eb_ConditionID rows) \<and>
    (sg_Sticky (cd_EdgeScan deps) \<and> \<not> ci_StickyFails io' \<longrightarrow> cycle_sticky io' deps w' = map eb_ConditionID rows) \<and>
    (\<forall>q. or_default q \<noteq> or_default (cd_Strategy deps) \<longrightarrow> board_rows q (sw_Board w') = board_rows q (sw_Board w))"
proof (intro conjI allI impI)
  note P = published_rows [OF assms(1,2)]
  show "cr_Rows (fst (RunCycle io deps w)) \<noteq> []" by (rule P(3))
  show b: "board_rows (cd_Strategy deps) (sw_Board w') = rows" unfolding rows_def w'_def by (rule P(1))
  show "distinct (map eb_ConditionID rows)" unfolding rows_def by (rule P(4))
  show "cycle_sticky io' deps w' = map eb_ConditionID rows" if "sg_Sticky (cd_EdgeScan deps) \<and> \<not> ci_StickyFails io'"
    unfolding rows_def w'_def using published_sticky [OF assms(1,2)] that by blast
  show "board_rows q (sw_Board w') = board_rows q (sw_Board w)" if "or_default q \<noteq> or_default (cd_Strategy deps)" for q
    unfolding w'_def by (rule P(2) [OF that])
qed

section \<open>A cycle that can publish does\<close>

lemma save_board_ok:
  assumes "cr_Status res \<noteq> StatusFailed" and "\<not> ci_ReplaceFails io"
    and "\<forall>r \<in> set rows. eb_Strategy r = cycle_strategy deps"
    and "distinct (map eb_ConditionID (filter (\<lambda>r. eb_ConditionID r \<noteq> '''') rows))"
  shows "cr_Status (fst (fst (save_board io deps rows (res, doc) w))) \<noteq> StatusFailed"
proof -
  have "\<forall>r \<in> set rows. eb_Strategy r = '''' \<or> eb_Strategy r = or_default (cycle_strategy deps)"
    using assms(3) by (simp add: cycle_strategy_default(2))
  from replace_board_facts [OF this, of "ci_Now io" "sw_Board w"] assms(4)
  have "fst (ReplaceEdgeBoard (ci_Now io) (cycle_strategy deps) rows (sw_Board w)) = None" by simp
  then obtain tbl where "ReplaceEdgeBoard (ci_Now io) (cycle_strategy deps) rows (sw_Board w) = (None, tbl)" by (metis prod.collapse)
  then show ?thesis using assms(1,2) by (simp add: save_board_def Let_def)
qed

lemma publish_ok:
  assumes "cr_Status res \<noteq> StatusFailed" and "\<not> ci_ReplaceFails io" and "\<And>es. ci_Hash io es \<noteq> None"
    and "\<forall>r \<in> set (bb_Rows build). eb_Strategy r = cycle_strategy deps"
    and "distinct (map eb_ConditionID (filter (\<lambda>r. eb_ConditionID r \<noteq> '''') (bb_Rows build)))"
  shows "cr_OK (fst (publish io deps en build res w))"
proof -
  obtain hsh where hsh: "ci_Hash io (map (entry_of_row (ci_Decode io)) (bb_Rows build)) = Some hsh"
    using assms(3) by (metis not_None_eq)
  show ?thesis
    unfolding publish_def BuildArtifactWithStats_def Let_def hsh option.case case_prod_beta
    using assms(1,2,4,5) by (simp add: save_board_ok filter_map comp_def)
qed

lemma default_stage_ok:
  assumes "pool_ok h pool" and "SelectStage1 env now h pool opts = (stage1, h')"
  shows "stage_ok h' stage1" "set (s1_Candidates stage1) \<subseteq> set pool" "scored_only h h'"
    "s1_Stage1Count stage1 = int (length (s1_Candidates stage1))"
    "length (s1_Candidates stage1) = min (nat (mf_MaxN (bo_Filter (budget_options opts))))
       (length (filter (\<lambda>c. \<not> filtered_out (bo_Filter (budget_options opts)) (h (addr c))) pool))"
proof -
  note b = stage1_budget_facts [OF assms(1), of env now opts, unfolded assms(2) fst_conv snd_conv]
  show so: "scored_only h h'" using b by (simp add: scored_only_def)
  show sub: "set (s1_Candidates stage1) \<subseteq> set pool" using b by blast
  have "\<forall>c \<in> set (s1_Candidates stage1). usable h c" using sub assms(1) by (auto simp: pool_ok_def)
  moreover have "cand_id h' = cand_id h" "usable h' = usable h" using scored_onlyD(4,5) [OF so] by auto
  moreover have "distinct (map (cand_id h) (s1_Candidates stage1))" using b by blast
  ultimately show "stage_ok h' stage1" unfolding stage_ok_def pool_ok_def by simp
  show "s1_Stage1Count stage1 = int (length (s1_Candidates stage1))" using b by blast
  show "length (s1_Candidates stage1) = min (nat (mf_MaxN (bo_Filter (budget_options opts))))
       (length (filter (\<lambda>c. \<not> filtered_out (bo_Filter (budget_options opts)) (h (addr c))) pool))" using b by blast
qed

definition rankable :: "cycle_io \<Rightarrow> cycle_deps \<Rightarrow> scan_world \<Rightarrow> heap \<Rightarrow> stage1_result \<Rightarrow> enriched \<Rightarrow> candidate \<Rightarrow> bool" where
  \<comment> \<open>the second stage scores the candidate and does not drop it\<close>
  "rankable io deps w h stage1 en c \<longleftrightarrow>
     (let opts = edge_options_of io deps (cycle_sticky io deps w) en; wt = used_weights (cd_Weights deps)
      in board_one wt (board_cand_of (ci_TokenIDs io) h stage1 (sure_opts (ci_Now io) opts) wt c) \<noteq> None)"

definition books_suffice :: "cycle_io \<Rightarrow> cycle_deps \<Rightarrow> scan_world \<Rightarrow> heap \<Rightarrow> stage1_result \<Rightarrow> enriched \<Rightarrow> bool" where
  "books_suffice io deps w h stage1 en \<longleftrightarrow>
     publishable (ci_TokenIDs io) (ci_Now io) h stage1 (edge_options_of io deps (cycle_sticky io deps w) en) \<and>
     (en_Books en \<noteq> [] \<or> cd_PublishOnEnrichFail deps \<or> \<not> cd_EnrichBooks deps)"

lemma edge_weights: "eo_Weights (edge_options_of io deps s en) = cd_Weights deps"
  by (simp add: edge_options_of_def)

lemma rankable_listed:
  assumes "stage_ok h stage1" and "c \<in> set (s1_Candidates stage1)" and "rankable io deps w h stage1 en c"
  shows "stage_scored (ci_TokenIDs io) (ci_Now io) h stage1 (edge_options_of io deps (cycle_sticky io deps w) en) \<noteq> []"
proof -
  let ?o = "edge_options_of io deps (cycle_sticky io deps w) en"
  from assms(3) obtain r where "board_one (used_weights (eo_Weights ?o))
      (board_cand_of (ci_TokenIDs io) h stage1 (sure_opts (ci_Now io) ?o) (used_weights (eo_Weights ?o)) c) = Some r"
    by (auto simp: rankable_def Let_def edge_weights)
  from scored_survivor(1) [OF assms(1,2) this] scored_keys(1) [OF assms(1), of "ci_TokenIDs io" "ci_Now io" ?o]
  show ?thesis by force
qed

lemma cut_nonempty:
  assumes "0 < n" and "distinct (map (\<lambda>s. cand_id h (sx_c s)) xs)" and "xs \<noteq> []"
  shows "selectTopNByEdge h xs st n \<noteq> []"
proof -
  have "length (selectTopNByEdge h xs st n) = min (nat n) (length xs)" by (rule se.cut_full [OF assms(2,1)])
  moreover have "0 < min (nat n) (length xs)" using assms(1,3) by simp
  ultimately show ?thesis by (metis length_0_conv less_irrefl)
qed

lemma healthy_cycle_facts:
  assumes "ci_Keyset io (cycle_keyset io (cd_EdgeScan deps)) = Some src" and "cd_Attention deps = None"
    and "FlattenCandidates (snd src) (fst src) = (pool, h)" and "pool_ok h pool"
    and "cycle_stage1 io deps (cycle_sticky io deps w) src = (stage1, h')" and "en = fst (enrich_stage io deps h' stage1 w)"
    and "c \<in> set (s1_Candidates stage1)" and "rankable io deps w h' stage1 en c" and "books_suffice io deps w h' stage1 en"
    and "\<not> ci_ReplaceFails io" and "\<And>es. ci_Hash io es \<noteq> None"
  shows "cr_OK (fst (RunCycle io deps w))"
proof -
  let ?o = "edge_options_of io deps (cycle_sticky io deps w) en"
  have s1: "SelectStage1 (ci_Env io) (ci_RankNow io) h pool (stage1_options io deps (cycle_sticky io deps w)) = (stage1, h')"
    using assms(2,3,5) by (simp add: cycle_stage1_def cycle_policy_def DefaultAttention_def ActivityThenEdgePolicy_def)
  note ok = default_stage_ok [OF assms(4) s1]
  have n: "s1_Stage1Count stage1 \<noteq> 0" unfolding ok(4) using assms(7) by (cases "s1_Candidates stage1") auto
  obtain w1 where en: "enrich_stage io deps h' stage1 w = (en, w1)" using assms(6) by (metis prod.collapse)
  define res where "res = first_result\<lparr>cr_PoolCount := s1_PoolCount stage1, cr_Stage1Count := s1_Stage1Count stage1,
    cr_Status := en_Status en, cr_Errors := en_Errors en, cr_EnrichCoverage := en_Coverage en\<rparr>"
  have st: "cr_Status res \<noteq> StatusFailed" using enrich_status [of io deps h' stage1 w] unfolding en by (simp add: res_def)
  have pub: "publishable (ci_TokenIDs io) (ci_Now io) h' stage1 ?o" using assms(9) by (simp add: books_suffice_def)
  have "stage_board (ci_TokenIDs io) (ci_Now io) h' stage1 ?o \<noteq> []"
    using cut_nonempty [OF boardN_pos scored_keys(2) [OF ok(1)] rankable_listed [OF ok(1) assms(7,8)]] pub
    by (simp add: stage_board_def)
  then have ne: "bb_Rows (built io deps w h' stage1 en) \<noteq> []"
    using rows_projections(3) [of "ci_TokenIDs io" "ci_Encode io" "ci_Now io" h' stage1 ?o] unfolding built_def by fastforce
  have d: "distinct (map eb_ConditionID (bb_Rows (built io deps w h' stage1 en)))"
    unfolding built_def by (rule edge_board_facts(1) [OF ok(1)])
  have "RunCycle io deps w = publish io deps en (built io deps w h' stage1 en) res w1"
    using n ne assms(9) unfolding built_def books_suffice_def
    by (auto simp: RunCycle_def assms(1,5) Let_def rank_and_publish_def en res_def)
  then show ?thesis using publish_ok [OF st assms(10,11)] built_stamp distinct_map_filter [OF d] by metis
qed


lemma length_by_key: "distinct (map f xs) \<Longrightarrow> length xs = card (f ` set xs)"
  by (metis distinct_card length_map list.set_map)

text \<open>C8: a published market stays.  After an OK cycle, a market it published that is in the next cycle's pool, passes the filter
  and is scored without being dropped is on the next cycle's board too, if that cycle is OK and the budget and the board
  have room for the rows published before.\<close>

theorem published_market_stays:
  fixes io io' deps w
  defines "r \<equiv> fst (RunCycle io deps w)" and "w' \<equiv> snd (RunCycle io deps w)"
  assumes "cr_OK r" and "cd_HasDB deps" and "sg_Sticky (cd_EdgeScan deps)" and "\<not> ci_StickyFails io'" and "cd_Attention deps = None"
    and "ci_Keyset io' (cycle_keyset io' (cd_EdgeScan deps)) = Some src" and "FlattenCandidates (snd src) (fst src) = (pool, h)"
    and "pool_ok h pool" and "c \<in> set pool" and "cand_id h c \<in> set (map eb_ConditionID (cr_Rows r))"
    and "\<not> filtered_out (cycle_filter (cd_EdgeScan deps)) (h (addr c))"
    and "int (length (cr_Rows r)) \<le> (if sg_Stage1MaxN (cd_EdgeScan deps) \<le> 0 then 200 else sg_Stage1MaxN (cd_EdgeScan deps))"
    and "int (length (cr_Rows r)) \<le> (if sg_BoardMaxN (cd_EdgeScan deps) \<le> 0 then 50 else sg_BoardMaxN (cd_EdgeScan deps))"
    and "cycle_stage1 io' deps (cycle_sticky io' deps w') src = (stage1, h')"
    and "rankable io' deps w' h' stage1 (fst (enrich_stage io' deps h' stage1 w')) c"
    and "cr_OK (fst (RunCycle io' deps w'))"
  shows "cand_id h c \<in> set (map eb_ConditionID (cr_Rows (fst (RunCycle io' deps w'))))"
proof -
  let ?rows = "filter (\<lambda>r. eb_ConditionID r \<noteq> '''') (cr_Rows r)" and ?sticky = "cycle_sticky io' deps w'"
  let ?opts = "stage1_options io' deps (cycle_sticky io' deps w')"
  let ?f = "bo_Filter (budget_options ?opts)"
  have sticky: "?sticky = map eb_ConditionID ?rows"
    using published_sticky [OF assms(3) [unfolded r_def] assms(4,5,6)] unfolding r_def w'_def .
  have few: "card (set ?sticky) \<le> length (cr_Rows r)"
  proof -
    have "card (set ?sticky) \<le> length ?rows" unfolding sticky using card_length [of "map eb_ConditionID ?rows"] by (simp only: length_map)
    also have "\<dots> \<le> length (cr_Rows r)" by (rule length_filter_le)
    finally show ?thesis .
  qed
  have us: "cand_id h c \<noteq> ''''" using assms(10,11) by (auto simp: pool_ok_def usable_def)
  then have st: "cand_id h c \<in> set ?sticky" unfolding sticky using assms(12) by auto
  have f: "filtered_out ?f m = filtered_out (cycle_filter (cd_EdgeScan deps)) m" for m
    by (simp add: budget_options_def stage1_options_def filtered_out_def cycle_filter_def)
  have N: "mf_MaxN ?f = (if sg_Stage1MaxN (cd_EdgeScan deps) \<le> 0 then 200 else sg_Stage1MaxN (cd_EdgeScan deps))"
    by (simp add: budget_options_def stage1_options_def cycle_filter_def)
  let ?P = "filter (\<lambda>c. cand_id h c \<in> set (bo_StickyConditionIDs ?opts) \<and> \<not> filtered_out ?f (h (addr c))) pool"
  have bo: "bo_StickyConditionIDs ?opts = ?sticky" by (simp add: stage1_options_def)
  have "distinct (map (cand_id h) ?P)" using assms(10) by (simp add: pool_ok_def distinct_map_filter)
  then have "length ?P = card (cand_id h ` set ?P)" by (rule length_by_key)
  also have "\<dots> \<le> card (set ?sticky)" unfolding bo by (rule card_mono) auto
  finally have P: "int (length ?P) \<le> mf_MaxN ?f" unfolding N using few assms(14) by linarith
  have s1: "SelectStage1 (ci_Env io') (ci_RankNow io') h pool ?opts = (stage1, h')"
    using assms(7,9,16) by (simp add: cycle_stage1_def cycle_policy_def DefaultAttention_def ActivityThenEdgePolicy_def)
  have c: "c \<in> set (s1_Candidates stage1)"
    using stage1_sticky_facts [OF assms(10,11), of ?opts "ci_Env io'" "ci_RankNow io'"] assms(13) st P
    unfolding s1 f bo by simp
  note ok = default_stage_ok [OF assms(10) s1]
  have id: "cand_id h' c = cand_id h c" by (rule scored_onlyD(4) [OF ok(3)])
  let ?en = "fst (enrich_stage io' deps h' stage1 w')"
  let ?o = "edge_options_of io' deps ?sticky ?en"
  have src: "board_source io' deps w' g s e \<longleftrightarrow> g = h' \<and> s = stage1 \<and> e = fst (enrich_stage io' deps h' stage1 w')" for g s e
    using assms(8,16) by (auto simp: board_source_def)
  from RunCycle_effect [of io' deps w'] assms(18) src have
    ne: "bb_Rows (built io' deps w' h' stage1 ?en) \<noteq> []" and
    rows: "cr_Rows (fst (RunCycle io' deps w')) =
      map (\<lambda>x. x\<lparr>eb_RunID := cr_RunID (fst (RunCycle io' deps w'))\<rparr>) (bb_Rows (built io' deps w' h' stage1 ?en))" by auto
  have pub: "publishable (ci_TokenIDs io') (ci_Now io') h' stage1 ?o"
  proof (rule ccontr)
    assume "\<not> publishable (ci_TokenIDs io') (ci_Now io') h' stage1 ?o"
    then have "stage_board (ci_TokenIDs io') (ci_Now io') h' stage1 ?o = []" by (simp add: stage_board_def)
    with ne show False unfolding built_def using rows_projections(3) by (metis length_0_conv)
  qed
  have eb: "bo_StickyConditionIDs (eo_Base ?o) = ?sticky" by (simp add: edge_options_of_def stage1_options_def)
  have room: "int (card (set (bo_StickyConditionIDs (eo_Base ?o)))) \<le> (if bo_BoardMaxN (eo_Base ?o) \<le> 0 then 50 else bo_BoardMaxN (eo_Base ?o))"
    unfolding eb using few assms(15) by (simp add: edge_options_of_def split: if_splits)
  have mem: "cand_id h' c \<in> set (bo_StickyConditionIDs (eo_Base ?o))" using st by (simp add: id eb)
  have kept: "board_one (used_weights (eo_Weights ?o)) (board_cand_of (ci_TokenIDs io') h' stage1 (sure_opts (ci_Now io') ?o)
      (used_weights (eo_Weights ?o)) c) \<noteq> None" using assms(17) by (simp add: rankable_def Let_def edge_weights)
  have "cand_id h' c \<in> set (map eb_ConditionID (bb_Rows (built io' deps w' h' stage1 ?en)))"
    unfolding built_def by (rule edge_board_sticky_facts [OF ok(1) pub c kept mem room])
  then show ?thesis unfolding rows id by (simp add: comp_def)
qed

lemma features_filled: "\<exists>f d. bc_Features (board_cand_of ids h stage1 opts wt c) = FillBookDerived d f"
  by (auto simp: board_cand_of_def Let_def case_prod_beta featureFromCandidate_def split: option.splits)

text \<open>C14: no board from activity alone.  Unless publishing without books is allowed, a cycle that is OK has at least one candidate
  in its budget with an order book that has a positive bid and an ask not below it.\<close>

theorem ok_cycle_has_book:
  assumes "cr_OK (fst (RunCycle io deps w))" and "\<not> cd_PublishOnEnrichFail deps"
  shows "\<exists>h stage1 en. board_source io deps w h stage1 en \<and>
    (\<exists>b \<in> set (stage_cands (ci_TokenIDs io) (ci_Now io) h stage1 (edge_options_of io deps (cycle_sticky io deps w) en)).
       \<not> fv_BestBid (bc_Features b) \<le> 0 \<and> \<not> fv_BestAsk (bc_Features b) < fv_BestBid (bc_Features b))"
proof -
  from RunCycle_effect [of io deps w] assms(1) obtain h stage1 en where
    src: "board_source io deps w h stage1 en" and ne: "bb_Rows (built io deps w h stage1 en) \<noteq> []" by auto
  let ?o = "edge_options_of io deps (cycle_sticky io deps w) en"
  have "stage_board (ci_TokenIDs io) (ci_Now io) h stage1 ?o \<noteq> []"
    using ne unfolding built_def using rows_projections(3) by (metis length_0_conv)
  then have "publishable (ci_TokenIDs io) (ci_Now io) h stage1 ?o" by (auto simp: stage_board_def split: if_splits)
  then obtain b where b: "b \<in> set (stage_cands (ci_TokenIDs io) (ci_Now io) h stage1 ?o)" "\<not> fv_MissingBook (bc_Features b)"
    using assms(2) by (auto simp: publishable_def edge_options_of_def)
  from b(1) obtain s wt c where "b = board_cand_of (ci_TokenIDs io) h stage1 s wt c" by (auto simp: stage_cands_def)
  then obtain f d where f: "bc_Features b = FillBookDerived d f" using features_filled by blast
  have "\<not> fv_BestBid f \<le> 0 \<and> \<not> fv_BestAsk f < fv_BestBid f" and "fv_BestBid (bc_Features b) = fv_BestBid f"
    and "fv_BestAsk (bc_Features b) = fv_BestAsk f"
    using b(2) unfolding f by (auto simp: FillBookDerived_def Let_def split: if_splits)
  then show ?thesis by (intro exI [of _ h] exI [of _ stage1] exI [of _ en] conjI [OF src] bexI [OF _ b(1)]) simp
qed


section \<open>Two cycles on a small market list\<close>

definition demo_io :: cycle_io where
  \<comment> \<open>one event with two markets; no books, no open interest; every statement succeeds\<close>
  "demo_io = \<lparr>ci_Keyset = \<lambda>_. Some ([Some \<lparr>ge_ID = ''e'', ge_NegRisk = False, ge_EnableNegRisk = False, ge_NegRiskMarketID = '''',
       ge_NegRiskFeeBips = 0, ge_Markets = [Some 0, Some 1], ge_Tags = []\<rparr>], demo_heap),
     ci_Now = 5, ci_RankNow = 5, ci_Env = \<lambda>_. '''', ci_PostBooks = \<lambda>_. NoReply,
     ci_BookCodec = \<lparr>bc_batch = \<lambda>_. None, bc_one = \<lambda>_. None, bc_depth = \<lambda>_ _. '''', bc_raw = \<lambda>_. ''''\<rparr>, ci_GetOI = \<lambda>_. NoReply,
     ci_OICodec = \<lparr>oc_items = \<lambda>_. None, oc_one = \<lambda>_. None, oc_number = \<lambda>_. None\<rparr>, ci_Canceled = False, ci_TokenIDs = \<lambda>_. None,
     ci_Encode = \<lambda>_. '''', ci_Decode = \<lambda>_. None, ci_StickyFails = False, ci_BooksWriteFails = False, ci_OIWriteFails = False,
     ci_ReplaceFails = False, ci_SnapshotsFail = False, ci_TopFails = False, ci_Hash = \<lambda>_. Some ''h'', ci_NewRun = \<lambda>_ _. ''run'',
     ci_DocMap = \<lambda>_. None, ci_FileFails = False,
     ci_Prices = \<lparr>sc_post = \<lambda>_. None, sc_MaxFails = False, sc_InsertFails = False\<rparr>\<rparr>"

definition demo_deps :: cycle_deps where
  "demo_deps = \<lparr>cd_HasDB = True, cd_Strategy = '''', cd_Weights = DefaultWeights, cd_StrategyVersionID = None, cd_HasArtifactsRoot = False,
     cd_EdgeScan = \<lparr>sg_KeysetVolumeMin = 0, sg_KeysetLiquidityMin = 0, sg_EndDateMinOffset = 0, sg_EndDateMaxOffset = 0,
       sg_KeysetEventCap = 0, sg_MinVolume24hr = 5, sg_MinLiquidity = 0, sg_MaxSpread = 1, sg_MinVolatility = 0,
       sg_Stage1MaxN = 0, sg_BoardMaxN = 0, sg_Sticky = True\<rparr>,
     cd_EnrichBooks = False, cd_EnrichOI = False, cd_PublishOnEnrichFail = True, cd_OIMaxConditions = 0, cd_BookBatchSize = 0,
     cd_EnrichPrices = False, cd_PriceTokenCap = 0, cd_PriceFidelityMin = 0, cd_PriceLookback = 0, cd_PriceWarmMaxAge = 0,
     cd_ForceColdPrices = False, cd_CfgPriceLookback = 0, cd_Attention = None\<rparr>"

definition demo_src :: "gamma_event option list \<times> heap" where
  "demo_src = the (ci_Keyset demo_io (cycle_keyset demo_io (cd_EdgeScan demo_deps)))"

definition demo_flat :: heap where "demo_flat = snd (FlattenCandidates (snd demo_src) (fst demo_src))"

lemma demo_keyset: "ci_Keyset demo_io (cycle_keyset demo_io (cd_EdgeScan demo_deps)) = Some demo_src"
  by (simp add: demo_src_def demo_io_def)

lemma demo_flatten: "FlattenCandidates (snd demo_src) (fst demo_src) = ([demo_cand 0 ''e'' '''', demo_cand 1 ''e'' ''''], demo_flat)"
  unfolding demo_flat_def
  by (simp add: demo_src_def demo_io_def FlattenCandidates_def flatten_market_def IsTradable_def demo_heap_def demo_market_def
      demo_cand_def Let_def)

lemma demo_flat_fields: "gm_ConditionID (demo_flat 0) = ''a''" "gm_ConditionID (demo_flat 1) = ''b''"
  "\<not> filtered_out (cycle_filter (cd_EdgeScan demo_deps)) (demo_flat 0)" "\<not> filtered_out (cycle_filter (cd_EdgeScan demo_deps)) (demo_flat 1)"
  by (simp_all add: demo_flat_def demo_src_def demo_io_def FlattenCandidates_def flatten_market_def IsTradable_def demo_heap_def
      demo_market_def Let_def filtered_out_def cycle_filter_def demo_deps_def marketLiquidity_def f64_eval)

lemma demo_flat_ok: "pool_ok demo_flat [demo_cand 0 ''e'' '''', demo_cand 1 ''e'' '''']"
  using demo_flat_fields by (simp add: pool_ok_def usable_def cand_id_def demo_cand_def)

lemma market_features_bid: "fv_BestBid (market_features c m oi residual incomplete now) = 0"
  by (simp add: market_features_def Let_def zero_features_def split: option.split)

lemma no_books_rankable:
  assumes "en_Books en = []" and "\<not> wt_DropMissingBook (used_weights (cd_Weights deps))"
  shows "rankable io deps w h stage1 en c"
proof -
  let ?o = "edge_options_of io deps (cycle_sticky io deps w) en"
  let ?b = "board_cand_of (ci_TokenIDs io) h stage1 (sure_opts (ci_Now io) ?o) (used_weights (cd_Weights deps)) c"
  have "eo_Books (sure_opts (ci_Now io) ?o) = []" using assms(1) by (simp add: sure_opts_def edge_options_of_def)
  then have "fv_MissingBook (bc_Features ?b)"
    by (simp add: board_cand_of_def Let_def case_prod_beta featureFromCandidate_def no_books FillBookDerived_def market_features_bid zero_f64_def)
  from missing_book_kept [OF this assms(2)] show ?thesis by (auto simp: rankable_def Let_def)
qed

lemma demo_rankable: "rankable demo_io demo_deps w h stage1 (fst (enrich_stage demo_io demo_deps h stage1 w)) c"
proof (rule no_books_rankable)
  show "en_Books (fst (enrich_stage demo_io demo_deps h stage1 w)) = []"
    by (simp add: enrich_stage_def Let_def case_prod_beta demo_deps_def)
  show "\<not> wt_DropMissingBook (used_weights (cd_Weights demo_deps))" by (simp add: demo_deps_def used_weights_def DefaultWeights_def)
qed

lemma demo_books_suffice: "books_suffice demo_io demo_deps w h stage1 en"
  by (simp add: books_suffice_def publishable_def edge_options_of_def demo_deps_def)

lemma demo_stage1:
  obtains stage1 h' c where "cycle_stage1 demo_io demo_deps sticky demo_src = (stage1, h')" "c \<in> set (s1_Candidates stage1)"
    "stage_ok h' stage1" "scored_only demo_flat h'" "set (s1_Candidates stage1) = {demo_cand 0 ''e'' '''', demo_cand 1 ''e'' ''''}"
proof -
  let ?pool = "[demo_cand 0 ''e'' '''', demo_cand 1 ''e'' '''']" and ?opts = "stage1_options demo_io demo_deps sticky"
  obtain stage1 h' where c: "cycle_stage1 demo_io demo_deps sticky demo_src = (stage1, h')" by (metis prod.collapse)
  have "SelectStage1 (ci_Env demo_io) (ci_RankNow demo_io) demo_flat ?pool ?opts = (stage1, h')"
    using c unfolding cycle_stage1_def demo_flatten
    by (simp add: cycle_policy_def demo_deps_def DefaultAttention_def ActivityThenEdgePolicy_def)
  note ok = default_stage_ok [OF demo_flat_ok this]
  have f: "filtered_out (bo_Filter (budget_options ?opts)) m = filtered_out (cycle_filter (cd_EdgeScan demo_deps)) m" for m
    by (simp add: budget_options_def stage1_options_def filtered_out_def cycle_filter_def)
  have N: "mf_MaxN (bo_Filter (budget_options ?opts)) = 200"
    by (simp add: budget_options_def stage1_options_def cycle_filter_def demo_deps_def)
  have l: "length (s1_Candidates stage1) = 2"
    unfolding ok(5) f N using demo_flat_fields by (simp add: addr_def demo_cand_def)
  then obtain d where "d \<in> set (s1_Candidates stage1)" by (cases "s1_Candidates stage1") auto
  moreover have "distinct (s1_Candidates stage1)"
    using ok(1) by (simp add: stage_ok_def pool_ok_def distinct_map)
  then have "card (set (s1_Candidates stage1)) = 2" using l distinct_card by fastforce
  then have "set (s1_Candidates stage1) = {demo_cand 0 ''e'' '''', demo_cand 1 ''e'' ''''}"
    using ok(2) by (intro card_seteq) (simp_all add: demo_cand_def)
  ultimately show thesis using that [OF c _ ok(1,3)] by blast
qed

lemma demo_cycle_ok: "cr_OK (fst (RunCycle demo_io demo_deps w))"
proof (rule demo_stage1 [of "cycle_sticky demo_io demo_deps w"], goal_cases)
  case (1 stage1 h' c)
  show ?case
    by (rule healthy_cycle_facts [OF demo_keyset _ demo_flatten demo_flat_ok 1(1) refl 1(2) demo_rankable demo_books_suffice])
      (simp_all add: demo_deps_def, simp_all add: demo_io_def)
qed

definition demo_world :: scan_world where
  "demo_world = \<lparr>sw_Board = [], sw_Snapshots = [], sw_Books = [], sw_OI = [], sw_Prices = [], sw_Markets = [], sw_Artifacts = []\<rparr>"


theorem ok_cycle_publishes_witness:
  "cr_Rows (fst (RunCycle demo_io demo_deps demo_world)) \<noteq> [] \<and>
   map eb_ConditionID (board_rows ''default'' (sw_Board (snd (RunCycle demo_io demo_deps demo_world)))) =
   cycle_sticky demo_io demo_deps (snd (RunCycle demo_io demo_deps demo_world))"
proof -
  have d: "cd_HasDB demo_deps" "cd_Strategy demo_deps = ''''" "sg_Sticky (cd_EdgeScan demo_deps) \<and> \<not> ci_StickyFails demo_io"
    by (simp_all add: demo_deps_def demo_io_def)
  have "board_rows '''' = board_rows ''default''" by (simp add: board_rows_def [abs_def] or_default_def)
  then show ?thesis using ok_cycle_publishes [OF demo_cycle_ok d(1), of demo_world demo_io] d by auto
qed

lemma demo_rows_small: "length (cr_Rows (fst (RunCycle demo_io demo_deps w))) \<le> 50"
proof -
  from RunCycle_effect [of demo_io demo_deps w] demo_cycle_ok obtain h stage1 en where
    "cr_Rows (fst (RunCycle demo_io demo_deps w)) = map (\<lambda>x. x\<lparr>eb_RunID := cr_RunID (fst (RunCycle demo_io demo_deps w))\<rparr>)
      (bb_Rows (built demo_io demo_deps w h stage1 en))" by auto
  then have "length (cr_Rows (fst (RunCycle demo_io demo_deps w))) = length (bb_Rows (built demo_io demo_deps w h stage1 en))" by simp
  also have "\<dots> \<le> 50"
    unfolding built_def rows_projections(3)
    using stage_board_length [of "ci_TokenIDs demo_io" "ci_Now demo_io" h stage1 "edge_options_of demo_io demo_deps (cycle_sticky demo_io demo_deps w) en"]
    by (simp add: board_defaults_def edge_options_of_def stage1_options_def demo_deps_def)
  finally show ?thesis .
qed

lemma demo_published:
  obtains c where "c \<in> set [demo_cand 0 ''e'' '''', demo_cand 1 ''e'' '''']"
    "cand_id demo_flat c \<in> set (map eb_ConditionID (cr_Rows (fst (RunCycle demo_io demo_deps w))))"
proof -
  from RunCycle_effect [of demo_io demo_deps w] demo_cycle_ok obtain h stage1 en where
    src: "board_source demo_io demo_deps w h stage1 en" and ne: "bb_Rows (built demo_io demo_deps w h stage1 en) \<noteq> []"
    and rows: "cr_Rows (fst (RunCycle demo_io demo_deps w)) = map (\<lambda>x. x\<lparr>eb_RunID := cr_RunID (fst (RunCycle demo_io demo_deps w))\<rparr>)
      (bb_Rows (built demo_io demo_deps w h stage1 en))" by auto
  have s: "cycle_stage1 demo_io demo_deps (cycle_sticky demo_io demo_deps w) demo_src = (stage1, h)"
    using src by (auto simp: board_source_def demo_keyset)
  show thesis
  proof (rule demo_stage1 [of "cycle_sticky demo_io demo_deps w"], goal_cases)
    case (1 stage1' h' c)
    with s have e: "stage1' = stage1" "h' = h" by simp_all
    obtain r where r: "r \<in> set (bb_Rows (built demo_io demo_deps w h stage1 en))" using ne by (meson list.set_sel(1))
    then have "eb_ConditionID r \<in> cand_id h ` set (s1_Candidates stage1)"
      using edge_board_facts(2) [OF 1(3) [unfolded e]] unfolding built_def list.set_map by blast
    then obtain k where k: "k \<in> set (s1_Candidates stage1)" "eb_ConditionID r = cand_id h k" by auto
    have "cand_id demo_flat k = eb_ConditionID r" using k(2) scored_onlyD(4) [OF 1(4)] by (simp add: e)
    moreover have "eb_ConditionID r \<in> set (map eb_ConditionID (cr_Rows (fst (RunCycle demo_io demo_deps w))))"
      unfolding rows using r by (force simp: image_iff)
    ultimately show thesis using that k(1) 1(5) unfolding e by auto
  qed
qed

theorem published_market_stays_witness:
  "\<exists>c \<in> set [demo_cand 0 ''e'' '''', demo_cand 1 ''e'' ''''].
    cand_id demo_flat c \<in> set (map eb_ConditionID (cr_Rows (fst (RunCycle demo_io demo_deps (snd (RunCycle demo_io demo_deps demo_world))))))"
proof -
  obtain c where c: "c \<in> set [demo_cand 0 ''e'' '''', demo_cand 1 ''e'' '''']"
    "cand_id demo_flat c \<in> set (map eb_ConditionID (cr_Rows (fst (RunCycle demo_io demo_deps demo_world))))" by (rule demo_published)
  have f: "\<not> filtered_out (cycle_filter (cd_EdgeScan demo_deps)) (demo_flat (addr c))"
    using c(1) demo_flat_fields by (auto simp: addr_def demo_cand_def)
  have d: "cd_HasDB demo_deps" "sg_Sticky (cd_EdgeScan demo_deps)" "\<not> ci_StickyFails demo_io" "cd_Attention demo_deps = None"
    "sg_Stage1MaxN (cd_EdgeScan demo_deps) = 0" "sg_BoardMaxN (cd_EdgeScan demo_deps) = 0"
    by (simp_all add: demo_deps_def demo_io_def)
  obtain stage1 h' where s: "cycle_stage1 demo_io demo_deps
      (cycle_sticky demo_io demo_deps (snd (RunCycle demo_io demo_deps demo_world))) demo_src = (stage1, h')" by (metis prod.collapse)
  have "cand_id demo_flat c \<in> set (map eb_ConditionID
      (cr_Rows (fst (RunCycle demo_io demo_deps (snd (RunCycle demo_io demo_deps demo_world))))))"
    by (rule published_market_stays [OF demo_cycle_ok d(1-4) demo_keyset demo_flatten demo_flat_ok c f _ _ s demo_rankable demo_cycle_ok])
      (use demo_rows_small [of demo_world] in \<open>simp_all add: d\<close>)
  then show ?thesis using c(1) by blast
qed

section \<open>A cycle with one book\<close>

definition book_io :: cycle_io where
  \<comment> \<open>as \<open>demo_io\<close>, but every request for books is answered by the book of the first market\<close>
  "book_io = demo_io\<lparr>ci_PostBooks := \<lambda>_. Reply 200 '''',
     ci_BookCodec := \<lparr>bc_batch = \<lambda>_. None, bc_one = \<lambda>_. Some (demo_book\<lparr>bk_AssetID := ''a''\<rparr>), bc_depth = \<lambda>_ _. '''', bc_raw = \<lambda>_. ''''\<rparr>,
     ci_TokenIDs := \<lambda>s. Some [s]\<rparr>"

definition book_deps :: cycle_deps where
  "book_deps = demo_deps\<lparr>cd_EnrichBooks := True, cd_PublishOnEnrichFail := False\<rparr>"

definition book_snap :: book_snapshot where
  "book_snap = snapshot_of_book (ci_BookCodec book_io) 5 (demo_book\<lparr>bk_AssetID := ''a''\<rparr>)"

lemma book_snap_fields: "bs_TokenID book_snap = ''a''" "bs_BestBid book_snap = Fin (1 / 2)" "bs_BestAsk book_snap = Fin (6 / 10)"
proof -
  have l: "\<forall>l \<in> set (bk_Bids (demo_book\<lparr>bk_AssetID := ''a''\<rparr>)) \<union> set (bk_Asks (demo_book\<lparr>bk_AssetID := ''a''\<rparr>)). level_ok l"
    using demo_levels by simp
  have p: "price_of (demo_level ''0.4'' ''30'') = 4 / 10" "price_of (demo_level ''0.5'' ''30'') = 1 / 2"
    "price_of (demo_level ''0.6'' ''40'') = 6 / 10"
    by (simp_all add: demo_level_def) code_simp+
  show "bs_BestBid book_snap = Fin (1 / 2)" "bs_BestAsk book_snap = Fin (6 / 10)"
    using book_snapshot_facts [OF l, of "ci_BookCodec book_io" 5] unfolding book_snap_def by (simp_all add: demo_book_def p)
  have a: "bs_TokenID (add_ask s l) = bs_TokenID s" "bs_TokenID (add_bid s l) = bs_TokenID s" for s l
    by (simp_all add: add_ask_def add_bid_def Let_def)
  have "bs_TokenID (foldl add_ask s ls) = bs_TokenID s" "bs_TokenID (foldl add_bid s ls) = bs_TokenID s" for s ls
    by (induction ls arbitrary: s) (simp_all add: a)
  then show "bs_TokenID book_snap = ''a''" by (simp add: book_snap_def snapshot_of_book_def Let_def)
qed

lemma book_post: "post_books (ci_BookCodec book_io) (ci_PostBooks book_io) (ci_Now book_io) p = Inr [book_snap]"
  by (simp add: post_books_def book_io_def ok_status_def parseBooks_def book_snap_def demo_io_def)

lemma book_all: "set (fst (book_batches (ci_BookCodec book_io) (ci_PostBooks book_io) (ci_Now book_io) cs all)) \<subseteq> set all \<union> {book_snap} \<and>
    (\<exists>rest. fst (book_batches (ci_BookCodec book_io) (ci_PostBooks book_io) (ci_Now book_io) cs all) = all @ rest)"
proof (induction cs arbitrary: all)
  case (Cons c cs)
  from Cons.IH [of all] Cons.IH [of "all @ [book_snap]"] show ?case by (auto simp: book_post Let_def)
qed auto

lemma book_index_one:
  assumes "snaps \<noteq> []" and "set snaps \<subseteq> {book_snap}"
  shows "foldl (\<lambda>m s. go_put (bs_TokenID s) s m) [] snaps = [(''a'', book_snap)]"
proof -
  have "foldl (\<lambda>m s. go_put (bs_TokenID s) s m) [(''a'', book_snap)] xs = [(''a'', book_snap)]" if "set xs \<subseteq> {book_snap}" for xs
    using that by (induction xs) (auto simp: book_snap_fields)
  then show ?thesis using assms by (cases snaps) (auto simp: book_snap_fields)
qed

lemma book_some:
  "c \<in> set cs \<Longrightarrow> t \<in> set c \<Longrightarrow> t \<noteq> '''' \<Longrightarrow>
    fst (book_batches (ci_BookCodec book_io) (ci_PostBooks book_io) (ci_Now book_io) cs all) \<noteq> []"
proof (induction cs arbitrary: all)
  case (Cons x cs)
  show ?case
  proof (cases "filter (\<lambda>t. t \<noteq> '''') x = []")
    case True
    then have "c \<in> set cs" using Cons.prems by (auto simp: filter_empty_conv)
    then show ?thesis using Cons.IH Cons.prems(2,3) True by simp
  next
    case False
    have "\<exists>rest. fst (book_batches (ci_BookCodec book_io) (ci_PostBooks book_io) (ci_Now book_io) cs (all @ [book_snap])) = (all @ [book_snap]) @ rest"
      using book_all by blast
    then show ?thesis using False by (auto simp: book_post Let_def)
  qed
qed simp

lemma primary_collected:
  assumes "c \<in> set cands" and "cn_Market c = Some a" and "parseTokenIDs ids (gm_ClobTokenIds (h a)) = t # ts" and "t \<noteq> ''''"
  shows "t \<in> set (CollectPrimaryTokenIDs ids h cands)"
  using assms(1) unfolding CollectPrimaryTokenIDs_def
proof (induction cands rule: rev_induct)
  case (snoc x xs)
  then show ?case using assms(2-4) by (auto split: option.splits list.splits)
qed simp

lemma demo_clob: "scored_only demo_flat h \<Longrightarrow> gm_ClobTokenIds (h 0) = ''a'' \<and> gm_ClobTokenIds (h 1) = ''b''"
  by (simp only: scored_onlyD(3))
    (simp add: demo_flat_def demo_src_def demo_io_def FlattenCandidates_def flatten_market_def IsTradable_def demo_heap_def demo_market_def Let_def)

lemma book_enriched:
  assumes "scored_only demo_flat h" and "stage_ok h stage1" and "set (s1_Candidates stage1) = {demo_cand 0 ''e'' '''', demo_cand 1 ''e'' ''''}"
  shows "en_Books (fst (enrich_stage book_io book_deps h stage1 w)) = [(''a'', book_snap)]"
proof -
  let ?cands = "first_candidates h (s1_Candidates stage1)"
  have g: "groups_needed (s1_Candidates stage1) = []"
  proof -
    have "filter (\<lambda>c. cn_Market c \<noteq> None \<and> cn_NegRisk c \<and> cn_NegRiskGroupID c \<noteq> '''') (s1_Candidates stage1) = []"
      by (simp add: filter_empty_conv assms(3) demo_cand_def)
    then show ?thesis by (simp add: groups_needed_def)
  qed
  have x: "ExpandGroupCandidates h stage1 cap = (?cands, 0)" for cap by (simp add: ExpandGroupCandidates_def g)
  have "usable h (demo_cand 0 ''e'' '''')" using assms(2,3) by (simp add: stage_ok_def pool_ok_def)
  then have "?cands \<noteq> []" using first_candidates_facts [of h "s1_Candidates stage1"] assms(3) by auto
  then obtain k where k: "k \<in> set ?cands" by (meson list.set_sel(1))
  then have "k = demo_cand 0 ''e'' '''' \<or> k = demo_cand 1 ''e'' ''''" using first_candidates_facts [of h "s1_Candidates stage1"] assms(3) by blast
  then obtain a t where a: "cn_Market k = Some a" "gm_ClobTokenIds (h a) = t" "t \<noteq> ''''"
    using demo_clob [OF assms(1)] by (auto simp: demo_cand_def)
  have "t \<in> set (CollectPrimaryTokenIDs (ci_TokenIDs book_io) h ?cands)"
    by (rule primary_collected [OF k a(1)]) (simp_all add: a book_io_def parseTokenIDs_def)
  moreover define toks where "toks = CollectPrimaryTokenIDs (ci_TokenIDs book_io) h ?cands"
  ultimately have t: "t \<in> set toks" by simp
  have "t \<in> set (concat (chunks 50 toks))" using t by (simp add: concat_chunks)
  then obtain c where "c \<in> set (chunks 50 toks)" "t \<in> set c" by auto
  then have ne: "fst (FetchBooks (ci_BookCodec book_io) (ci_PostBooks book_io) (ci_Now book_io) toks 50) \<noteq> []"
    using book_some a(3) by (simp add: FetchBooks_def)
  have "set (fst (FetchBooks (ci_BookCodec book_io) (ci_PostBooks book_io) (ci_Now book_io) toks 50)) \<subseteq> {book_snap}"
    using book_all [of _ "[]"] by (auto simp: FetchBooks_def)
  note one = book_index_one [OF ne this]
  have d: "cd_EnrichBooks book_deps" "cd_BookBatchSize book_deps = 0" by (simp_all add: book_deps_def demo_deps_def)
  have "toks \<noteq> []" using t by auto
  then show ?thesis
    unfolding enrich_stage_def Let_def x prod.case toks_def [symmetric] d
    by (simp add: case_prod_beta one d)
qed

lemma book_same_stages:
  "cycle_stage1 book_io book_deps sticky = cycle_stage1 demo_io demo_deps sticky"
  "cycle_sticky book_io book_deps w = cycle_sticky demo_io demo_deps w"
  "ci_Keyset book_io (cycle_keyset book_io (cd_EdgeScan book_deps)) = Some demo_src"
  using demo_keyset
  by (simp_all add: cycle_stage1_def [abs_def] cycle_sticky_def cycle_strategy_def cycle_policy_def stage1_options_def book_io_def
      book_deps_def demo_io_def demo_deps_def cycle_keyset_def)

lemma FillBook_present:
  assumes "fv_BestBid f = Fin b" and "fv_BestAsk f = Fin a" and "0 < b" and "b \<le> a"
  shows "\<not> fv_MissingBook (FillBookDerived d f)"
  using assms by (simp add: FillBookDerived_def Let_def f64_eval)

lemma book_cycle_ok: "cr_OK (fst (RunCycle book_io book_deps w))"
proof (rule demo_stage1 [of "cycle_sticky demo_io demo_deps w"], goal_cases)
  case (1 stage1 h' c)
  let ?en = "fst (enrich_stage book_io book_deps h' stage1 w)"
  let ?o = "edge_options_of book_io book_deps (cycle_sticky book_io book_deps w) ?en"
  let ?c = "\<lambda>a. demo_cand a ''e'' ''''"
  let ?b = "\<lambda>a. board_cand_of (ci_TokenIDs book_io) h' stage1 (sure_opts (ci_Now book_io) ?o) (used_weights (cd_Weights book_deps)) (?c a)"
  note books = book_enriched [OF 1(4,3,5), of w] and clob = demo_clob [OF 1(4)]
  have bk: "eo_Books (sure_opts (ci_Now book_io) ?o) = [(''a'', book_snap)]" by (simp add: sure_opts_def edge_options_of_def books)
  have ids: "ci_TokenIDs book_io = (\<lambda>s. Some [s])" by (simp add: book_io_def)
  have have_book: "\<not> fv_MissingBook (bc_Features (?b 0))"
  proof -
    have "token_book [(''a'', book_snap)] (parseTokenIDs (\<lambda>s. Some [s]) (gm_ClobTokenIds (h' (addr (?c 0))))) = Some (''a'', book_snap)"
      by (simp add: clob addr_def demo_cand_def parseTokenIDs_def token_book_def go_has_def)
    then have "bc_Features (?b 0) = FillBookDerived (wt_MinDepthShares (used_weights (cd_Weights book_deps)))
        (book_features (market_features (?c 0) (h' (addr (?c 0))) (eo_OI (sure_opts (ci_Now book_io) ?o))
          (fst (negRiskResiduals (ci_TokenIDs book_io) h' (if eo_EnrichCandidates (sure_opts (ci_Now book_io) ?o) = [] then s1_Candidates stage1
             else eo_EnrichCandidates (sure_opts (ci_Now book_io) ?o)) [(''a'', book_snap)]))
          (snd (negRiskResiduals (ci_TokenIDs book_io) h' (if eo_EnrichCandidates (sure_opts (ci_Now book_io) ?o) = [] then s1_Candidates stage1
             else eo_EnrichCandidates (sure_opts (ci_Now book_io) ?o)) [(''a'', book_snap)]))
          (bo_Now (eo_Base (sure_opts (ci_Now book_io) ?o)))) ''a'' book_snap (bo_Now (eo_Base (sure_opts (ci_Now book_io) ?o))))"
      unfolding board_cand_of_def Let_def case_prod_beta bk featureFromCandidate_def ids by simp
    also have "\<not> fv_MissingBook \<dots>"
      by (rule FillBook_present [of _ "1 / 2" "6 / 10"]) (simp_all add: book_features_def Let_def book_snap_fields)
    finally show ?thesis .
  qed
  have rank: "rankable book_io book_deps w h' stage1 ?en (?c 1)"
  proof -
    have "token_book [(''a'', book_snap)] (parseTokenIDs (\<lambda>s. Some [s]) (gm_ClobTokenIds (h' (addr (?c 1))))) = None"
      by (simp add: clob [simplified] addr_def demo_cand_def parseTokenIDs_def token_book_def go_has_def)
    then have "fv_MissingBook (bc_Features (?b 1))"
      unfolding board_cand_of_def Let_def case_prod_beta bk featureFromCandidate_def ids
      by (simp add: FillBookDerived_def market_features_bid zero_f64_def)
    moreover have "\<not> wt_DropMissingBook (used_weights (cd_Weights book_deps))"
      by (simp add: book_deps_def demo_deps_def used_weights_def DefaultWeights_def)
    ultimately show ?thesis using missing_book_kept [of "?b 1" "cd_Weights book_deps"] by (auto simp: rankable_def Let_def)
  qed
  have "?b 0 \<in> set (stage_cands (ci_TokenIDs book_io) (ci_Now book_io) h' stage1 ?o)"
    unfolding stage_cands_def stage_ok_facts(1) [OF 1(3)] edge_weights using 1(5) by simp
  then have suff: "books_suffice book_io book_deps w h' stage1 ?en"
    using have_book unfolding books_suffice_def publishable_def by (auto simp: books)
  have c1: "?c 1 \<in> set (s1_Candidates stage1)" using 1(5) by simp
  show ?case
    by (rule healthy_cycle_facts [OF book_same_stages(3) _ demo_flatten demo_flat_ok _ refl c1 rank suff])
      (use 1(1) in \<open>simp_all add: book_same_stages\<close>, simp_all add: book_deps_def demo_deps_def book_io_def demo_io_def)
qed

theorem ok_cycle_has_book_witness:
  "\<exists>h stage1 en. board_source book_io book_deps demo_world h stage1 en \<and>
    (\<exists>b \<in> set (stage_cands (ci_TokenIDs book_io) (ci_Now book_io) h stage1
        (edge_options_of book_io book_deps (cycle_sticky book_io book_deps demo_world) en)). \<not> fv_BestBid (bc_Features b) \<le> 0)"
proof -
  have "\<not> cd_PublishOnEnrichFail book_deps" by (simp add: book_deps_def)
  from ok_cycle_has_book [OF book_cycle_ok this, of demo_world] show ?thesis by blast
qed

end
