(* ===== verification/Spec2Isabelle.thy ===== *)
theory Spec2Isabelle
  imports Alloc Sim_Engine Ws_Live Strategy_Reg Worker_Pool Paginate Eval_Runner Scan_Cycle
begin

text \<open>
  A verification library for the Go program poly-asian-data: a scanner for prediction markets that keeps a board of the
  markets worth trading, emits paper signals from live order books, simulates and evaluates them, and promotes strategy
  versions that pass an evaluation.  This theory imports all the others; each property stands in the theory of the component it
  is about, after a text that states it.

  \<^bold>\<open>The program and its theories\<close>

  A scan (\<open>cmd/edge-scan\<close>) turns the venue's events into candidates, spends an activity budget on order books and open interest,
  ranks by edge after cost and replaces the board of its strategy.  The websocket listener (\<open>cmd/ws-listener\<close>) subscribes to the board's
  tokens, keeps order books and emits signals through the allocation and the risk manager.  The evaluation (\<open>cmd/edge-eval\<close>) replays board
  policies on stored histories and decides whether weights may be promoted; the registry (\<open>cmd/strategy\<close>) activates the promoted
  ones, and the next scan loads them.

  \<^item> Language and libraries: \<open>Go_Prelude\<close> (\<open>float64\<close> with NaN and infinities, times, maps), \<open>Go_Collections\<close> (\<open>int64\<close>, the locales
    \<open>go_map\<close> and \<open>stable_sorter\<close>), \<open>Go_Search\<close> (\<open>sort.Search\<close>), \<open>Go_Text\<close> (\<open>strings\<close>, \<open>strconv\<close>, \<open>time\<close>), \<open>Simulation\<close> (the locales
    \<open>machine\<close> and \<open>simulation\<close>), \<open>Dedupe\<close> (the best-per-key loop and the locale \<open>best_per_key\<close>).
  \<^item> Risk and allocation: \<open>Risk_Config\<close> and \<open>Risk_Manager\<close> (\<open>internal/risk\<close>: \<open>Normalize\<close>, \<open>Accept\<close>, \<open>OnOpen\<close>, \<open>OnClose\<close>; state \<open>manager\<close>),
    \<open>Alloc\<close> (\<open>internal/alloc\<close>: \<open>Run\<close>).
  \<^item> Edge: \<open>Edge_Cost\<close>, \<open>Edge_Fair\<close>, \<open>Edge_Score\<close> (\<open>internal/edge\<close>: \<open>ComputeCost\<close>, the fair-value chain, \<open>Score\<close>, \<open>SelectBoard\<close>).
  \<^item> Scan: \<open>Market_Rank\<close> (\<open>internal/marketranking\<close>), \<open>Scan_Stage1\<close>, \<open>Scan_Stage2\<close> and \<open>Scan_Cycle\<close> (\<open>internal/edgescan\<close>: \<open>SelectStage1\<close>,
    \<open>ExpandGroupCandidates\<close>, \<open>BuildEdgeBoard\<close>, \<open>RunCycle\<close>; state \<open>scan_world\<close>), \<open>Micro_Enrich\<close> and \<open>Price_Enrich\<close> (\<open>internal/enrich\<close>: books, open
    interest, prices), \<open>Paginate\<close> (the loops of \<open>internal/fetcher/paginate.go\<close>).
  \<^item> Tables (\<open>internal/db\<close>): \<open>Board_DB\<close> (the board and its history), \<open>Price_DB\<close> (prices, book snapshots, labels), \<open>Micro_Enrich\<close> (books, open
    interest), \<open>Strategy_DB\<close> (versions, pointers, audit); \<open>internal/db/board_assets.go\<close> is in \<open>Ws_Live\<close>.
  \<^item> Live: \<open>Ws_Book\<close>, \<open>Ws_Client\<close>, \<open>Ws_Flush\<close> (\<open>internal/ws/market\<close>: order books, parser and subscription, flush and resolutions), \<open>Signals\<close>
    (\<open>internal/signals\<close>: the emitter), \<open>Ws_Live\<close> (\<open>cmd/ws-listener\<close>: the listener as one machine).
  \<^item> Simulation: \<open>Sim_Fills\<close>, \<open>Sim_Equity\<close>, \<open>Sim_Engine\<close> (\<open>internal/signaleval\<close>: \<open>Simulate\<close> with its closures; state \<open>sim\<close>).
  \<^item> Evaluation: \<open>Datagap\<close> (\<open>internal/datagap\<close>), \<open>Eval_Series\<close>, \<open>Eval_Labels\<close>, \<open>Eval_Surface\<close>, \<open>Eval_Runner\<close> (\<open>internal/eval\<close>: features as of a time,
    labels, gates, the run over the tables).
  \<^item> Registry and workers: \<open>Strategy_Reg\<close> (\<open>internal/strategyreg\<close>), \<open>Worker_Pool\<close> (\<open>internal/workerpool\<close>).

  Definitions carry the names of the Go functions they translate; a block of a long function that has no name of its own gets
  one.  A struct is a record whose fields have a short prefix, an error is a value, a pointer is an option, or an address where the
  code shares the object (\<open>Market_Rank\<close>), and a table is a map over its primary key.

  \<^bold>\<open>What the lemmas show\<close>

  \<^item> \<open>Risk_Manager\<close>, \<open>Alloc\<close>, \<open>Sim_Engine\<close>, \<open>Ws_Live\<close>: sizes, positions and exposure stay inside their limits in every reachable state, in
    the simulation and in the live tick; the drawdown halt is final; equity is the starting equity plus the recorded profits.
  \<^item> \<open>Edge_Score\<close>, \<open>Scan_Stage1\<close>, \<open>Scan_Stage2\<close>: who is in the budget and on the board, in which order, what stickiness guarantees, and that
    without it the live board is the offline selection.
  \<^item> \<open>Scan_Cycle\<close>, \<open>Board_DB\<close>: a cycle that fails leaves the board and its history, one that is OK publishes exactly its rows; what is
    published is what the evaluation finds; a published market that stays eligible stays.
  \<^item> \<open>Ws_Book\<close>, \<open>Ws_Client\<close>, \<open>Ws_Flush\<close>: the book's top and depths are those of its levels; the client's subscription is the wanted set; what a
    flush writes, and the update it loses when a message comes between its two halves.
  \<^item> \<open>Eval_Series\<close>, \<open>Eval_Labels\<close>, \<open>Eval_Runner\<close>, \<open>Datagap\<close>: features and labels use no later data, unless the gap fill is on; which
    run is eligible.  \<open>Eval_Surface\<close>, \<open>Strategy_Reg\<close>: the verdict and the promotion gate exactly, and that a live version once passed it.
  \<^item> \<open>Worker_Pool\<close>: every interleaving of the goroutines keeps the pool's invariant, a graceful stop drains and ends, and a submit
    that races with a stop can panic.  \<open>Paginate\<close>: when the fetches return, and with what.

  \<^bold>\<open>Interfaces\<close>

  Each locale is interpreted on the code's own definitions: \<open>go_map\<close> on association lists, \<open>stable_sorter\<close> on the insertion sort,
  \<open>best_per_key\<close> on the dedupe loops of allocation and simulation, \<open>sticky_cutter\<close> on the cuts of both scan stages, \<open>fv_provider\<close> on each
  fair-value provider, the dispatch and the chain, \<open>open_loop\<close> and \<open>closing_loop\<close> on the simulator's loops over open trades, \<open>machine\<close> on the
  registry and the listener, and \<open>simulation\<close> on the websocket client.

  \<^bold>\<open>Bounds and termination\<close>

  No definition uses fuel.  Loops are structural recursions or functions with a measure; the two page loops, which have no bound of
  their own, are partial functions whose value \<open>None\<close> is a fetch that never returns.  Integers are unbounded except where the code can
  wrap: durations and time arithmetic (\<open>int64\<close>) and the pool's sequence number.  Floats are real numbers with the special values, so rounding
  and overflow are idealised, and NaN, infinities and the comparisons that are false on NaN are not.  Texts are bytes; case mapping and
  white space are ASCII.

  \<^bold>\<open>What comes from outside\<close>

  Arguments of the definitions stand for what is not in the repository or not the program's to decide: HTTP and the venue, clocks,
  random bytes, JSON and YAML, SHA-256, the package \<open>artifacts\<close> (its directory is not in the repository), whether a statement on the
  database fails, and the order in which a Go map is iterated where the result depends on it.  Concurrent requests that do not share state
  are taken in one order.  \<open>sort.Slice\<close> keeps the order of equal elements in the models.

  \<^bold>\<open>Not modelled\<close>

  The saver, the API client, the processors and the pipeline's wiring (field copying around I/O), catalog and sports tags, the remaining SQL
  statements, logging, statistics and environment variables, command-line flags, and the playground.  Durations, message texts and log
  output are left out of the results.
\<close>

end
